(* ===== verification/Prelude.thy ===== *)
theory Prelude
  imports Main "HOL-Library.AList" "HOL-Library.Word"
begin

section \<open>Shared vocabulary of the development\<close>

text \<open>
  Names, collections of rewrite rules and generic lemmas used by every component theory.

  \<^item> A Go \<^verbatim>\<open>string\<close> is a byte sequence, here \<open>string\<close> (one \<open>char\<close> per byte).
  \<^item> A Go \<^verbatim>\<open>map\<close> is an association list \<open>('k, 'v) gomap\<close>: the first pair with a key is
    the entry, the list order is the (unspecified) iteration order. Every operation keeps the
    keys distinct (\<open>gomap_ok\<close>), so \<open>length\<close> is Go's \<^verbatim>\<open>len\<close>.
  \<^item> A Go \<^verbatim>\<open>error\<close> return is the left of a sum.
  \<^item> Concurrent components are step relations; \<open>transition_system\<close> is the interface every one
    of them provides: a start predicate, a step relation and an invariant that holds at the
    start and is kept by every step. Its lemmas carry the invariant to every reachable state.
\<close>

named_theorems op_defs \<open>definitions of the operations of the model\<close>
named_theorems gomap_simps \<open>lookup after update and delete on Go maps\<close>

type_synonym go_uint64 = "64 word"
type_synonym ('k, 'v) gomap = "('k \<times> 'v) list"

abbreviation gomap_ok :: "('k, 'v) gomap \<Rightarrow> bool" where
  "gomap_ok m \<equiv> distinct (map fst m)"

abbreviation gomap_keys :: "('k, 'v) gomap \<Rightarrow> 'k set" where
  "gomap_keys m \<equiv> fst ` set m"

subsection \<open>Association lists as Go maps\<close>

lemma gomap_get_set [gomap_simps]: "map_of (AList.update k v m) k' = (if k' = k then Some v else map_of m k')"
  by (simp add: update_conv')

lemma gomap_get_del [gomap_simps]: "map_of (AList.delete k m) k' = (if k' = k then None else map_of m k')"
  by (simp add: delete_conv')

lemma gomap_ok_set [simp, intro]: "gomap_ok m \<Longrightarrow> gomap_ok (AList.update k v m)"
  by (rule distinct_update)

lemma gomap_ok_del [simp, intro]: "gomap_ok m \<Longrightarrow> gomap_ok (AList.delete k m)"
  by (rule distinct_delete)

lemma gomap_ok_filter [simp, intro]: "gomap_ok m \<Longrightarrow> gomap_ok (filter p m)"
  by (induction m) auto

lemma gomap_keys_get: "k \<in> gomap_keys m \<longleftrightarrow> map_of m k \<noteq> None"
  by (simp add: map_of_eq_None_iff)

lemma gomap_keys_set: "gomap_keys (AList.update k v m) = insert k (gomap_keys m)"
  by (induction m) auto

lemma gomap_keys_del: "gomap_keys (AList.delete k m) = gomap_keys m - {k}"
  by (induction m) auto

lemma gomap_delete_notin: "map_of m k = None \<Longrightarrow> AList.delete k m = m"
  by (induction m) (auto split: if_splits)

lemma gomap_length_del:
  "gomap_ok m \<Longrightarrow> length (AList.delete k m) = (if map_of m k = None then length m else length m - 1)"
proof (induction m)
  case Nil
  then show ?case by simp
next
  case (Cons x m)
  have "map_of m (fst x) = None" using Cons.prems by (simp add: map_of_eq_None_iff)
  then have "AList.delete (fst x) m = m" by (rule gomap_delete_notin)
  then show ?case using Cons by (cases x; cases m) auto
qed

lemma gomap_length_set:
  "length (AList.update k v m) = (if map_of m k = None then Suc (length m) else length m)"
  by (induction m) auto

lemma gomap_set_fresh: "map_of m k = None \<Longrightarrow> AList.update k v m = m @ [(k, v)]"
  by (induction m) (auto split: if_splits)

lemma gomap_set_subset: "set (AList.update k v m) \<subseteq> insert (k, v) (set m)"
  by (induction m) auto

lemma gomap_set_mem: "x \<in> set (AList.update k v m) \<Longrightarrow> x = (k, v) \<or> x \<in> set m"
  using gomap_set_subset by fastforce

lemma gomap_del_subset: "set (AList.delete k m) \<subseteq> set m"
  by (induction m) auto

lemma gomap_nonempty: "map_of m k = Some v \<Longrightarrow> m \<noteq> []"
  by auto

lemma gomap_get_in: "gomap_ok m \<Longrightarrow> (k, v) \<in> set m \<longleftrightarrow> map_of m k = Some v"
  by simp

lemma gomap_split:
  assumes "map_of m k = Some v"
  shows "\<exists>us vs. m = us @ (k, v) # vs \<and> k \<notin> fst ` set us \<and> (\<forall>w. AList.update k w m = us @ (k, w) # vs) \<and>
    (gomap_ok m \<longrightarrow> AList.delete k m = us @ vs)"
  using assms
proof (induction m)
  case (Cons x m)
  show ?case
  proof (cases "fst x = k")
    case True
    with Cons.prems have "x = (k, v)" by (cases x) simp
    moreover have "gomap_ok (x # m) \<longrightarrow> AList.delete k m = m"
      using True by (auto intro!: gomap_delete_notin simp: map_of_eq_None_iff)
    ultimately show ?thesis by (intro exI [of _ "[]"] exI [of _ m]) simp
  next
    case False
    with Cons.prems have "map_of m k = Some v" by (cases x) simp
    from Cons.IH [OF this] obtain us vs where "m = us @ (k, v) # vs" "k \<notin> fst ` set us"
      "\<forall>w. AList.update k w m = us @ (k, w) # vs" "gomap_ok m \<longrightarrow> AList.delete k m = us @ vs" by blast
    with False show ?thesis by (intro exI [of _ "x # us"] exI [of _ vs]) (cases x; auto)
  qed
qed simp

text \<open>Summing over the values of a map.\<close>

definition gomap_sum :: "('v \<Rightarrow> nat) \<Rightarrow> ('k, 'v) gomap \<Rightarrow> nat" where
  "gomap_sum f m = sum_list (map (\<lambda>(k, v). f v) m)"

lemma gomap_sum_Nil [simp]: "gomap_sum f [] = 0"
  by (simp add: gomap_sum_def)

lemma gomap_sum_Cons [simp]: "gomap_sum f ((k, v) # m) = f v + gomap_sum f m"
  by (simp add: gomap_sum_def)

lemma gomap_sum_set:
  "gomap_sum f (AList.update k v m) + (case map_of m k of Some w \<Rightarrow> f w | None \<Rightarrow> 0) = gomap_sum f m + f v"
  by (induction m) auto

lemma gomap_sum_del:
  "gomap_ok m \<Longrightarrow>
     gomap_sum f (AList.delete k m) + (case map_of m k of Some w \<Rightarrow> f w | None \<Rightarrow> 0) = gomap_sum f m"
proof (induction m)
  case (Cons x m)
  then have "map_of m (fst x) = None" by (simp add: map_of_eq_None_iff)
  then have "AList.delete (fst x) m = m" by (rule gomap_delete_notin)
  with Cons show ?case by (cases x) (auto split: option.splits)
qed simp

lemma gomap_sum_ge: "map_of m k = Some v \<Longrightarrow> f v \<le> gomap_sum f m"
  by (induction m) (auto split: if_splits)

lemma gomap_sum_ge2:
  "map_of m k = Some v \<Longrightarrow> map_of m l = Some w \<Longrightarrow> k \<noteq> l \<Longrightarrow> f v + f w \<le> gomap_sum f m"
proof (induction m)
  case (Cons x m)
  then show ?case
    using gomap_sum_ge [of m k v f] gomap_sum_ge [of m l w f] by (cases x) (auto split: if_splits)
qed simp

subsection \<open>Lists\<close>

lemma filter_length_le [simp]: "length (filter p xs) \<le> length xs"
  by (rule length_filter_le)

lemma length_filter_compl: "length (filter p xs) + length (filter (\<lambda>x. \<not> p x) xs) = length xs"
  by (rule sum_length_filter_compl)

lemma nth_of_prefix: "i < length xs \<Longrightarrow> (xs @ ys) ! i = xs ! i"
  by (simp add: nth_append)

text \<open>The first element that satisfies a predicate: the early return inside a Go \<^verbatim>\<open>for\<close>.\<close>

fun first_some :: "('a \<Rightarrow> 'b option) \<Rightarrow> 'a list \<Rightarrow> 'b option" where
  "first_some f [] = None"
| "first_some f (x # xs) = (case f x of Some y \<Rightarrow> Some y | None \<Rightarrow> first_some f xs)"

lemma first_some_None: "first_some f xs = None \<longleftrightarrow> (\<forall>x\<in>set xs. f x = None)"
  by (induction xs) (auto split: option.splits)

lemma first_some_SomeD: "first_some f xs = Some y \<Longrightarrow> \<exists>x\<in>set xs. f x = Some y"
  by (induction xs) (auto split: option.splits)

text \<open>Replacing the first element that satisfies a predicate: assignment and early return.\<close>

fun update_first :: "('a \<Rightarrow> 'a option) \<Rightarrow> 'a list \<Rightarrow> 'a list option" where
  "update_first f [] = None"
| "update_first f (x # xs) =
     (case f x of Some y \<Rightarrow> Some (y # xs) | None \<Rightarrow> map_option ((#) x) (update_first f xs))"

lemma update_first_None: "update_first f xs = None \<longleftrightarrow> (\<forall>x\<in>set xs. f x = None)"
  by (induction xs) (auto split: option.splits)

lemma update_first_SomeD:
  assumes "update_first f xs = Some ys"
  shows "\<exists>us x vs y. xs = us @ x # vs \<and> ys = us @ y # vs \<and> f x = Some y \<and> (\<forall>u\<in>set us. f u = None)"
  using assms
proof (induction xs arbitrary: ys)
  case Nil
  then show ?case by simp
next
  case (Cons x xs)
  show ?case
  proof (cases "f x")
    case (Some y)
    with Cons.prems show ?thesis by (intro exI [of _ "[]"]) auto
  next
    case None
    with Cons.prems obtain zs where zs: "update_first f xs = Some zs" "ys = x # zs" by auto
    from Cons.IH [OF zs(1)] obtain us a vs b where
      "xs = us @ a # vs" "zs = us @ b # vs" "f a = Some b" "\<forall>u\<in>set us. f u = None" by blast
    with zs(2) None show ?thesis by (intro exI [of _ "x # us"]) auto
  qed
qed

lemma update_first_map_filter:
  assumes "update_first f xs = Some ys" and "\<And>x y. f x = Some y \<Longrightarrow> g x = g y"
  shows "map g ys = map g xs"
  using update_first_SomeD [OF assms(1)] assms(2) by auto

lemma update_first_length: "update_first f xs = Some ys \<Longrightarrow> length ys = length xs"
  by (drule update_first_SomeD) auto

lemma in_map_filter: "y \<in> set (List.map_filter f xs) \<longleftrightarrow> (\<exists>x. x \<in> set xs \<and> f x = Some y)"
  by (induction xs) (auto simp: List.map_filter_simps split: option.split)

subsection \<open>Step relations and their invariants\<close>

locale transition_system =
  fixes start :: "'s \<Rightarrow> bool"
    and step :: "'s \<Rightarrow> 's \<Rightarrow> bool"
    and inv :: "'s \<Rightarrow> bool"
  assumes inv_start: "start s \<Longrightarrow> inv s"
    and inv_step: "step s t \<Longrightarrow> inv s \<Longrightarrow> inv t"
begin

lemma steps_keep_inv: "step\<^sup>*\<^sup>* s t \<Longrightarrow> inv s \<Longrightarrow> inv t"
  by (induction rule: rtranclp_induct) (auto intro: inv_step)

lemma reachable_inv: "start s \<Longrightarrow> step\<^sup>*\<^sup>* s t \<Longrightarrow> inv t"
  by (blast intro: steps_keep_inv inv_start)

end

text \<open>
  A system whose states carry a quantity that no step decreases: version counters, sequence
  numbers, logs that only grow.
\<close>

locale monotone_system = transition_system +
  fixes mu :: "'s \<Rightarrow> nat"
  assumes mu_step: "step s t \<Longrightarrow> inv s \<Longrightarrow> mu s \<le> mu t"
begin

lemma mu_steps: "step\<^sup>*\<^sup>* s t \<Longrightarrow> inv s \<Longrightarrow> mu s \<le> mu t"
proof (induction rule: rtranclp_induct)
  case base
  show ?case by simp
next
  case (step t u)
  then show ?case using mu_step steps_keep_inv by (meson order_trans)
qed

end

text \<open>
  A system that implements an abstract one: every step is a step of the abstract system on the
  abstracted states, so every run is a run of it.
\<close>

locale refinement = transition_system +
  fixes abs :: "'s \<Rightarrow> 'a" and astep :: "'a \<Rightarrow> 'a \<Rightarrow> bool"
  assumes simulates: "step s t \<Longrightarrow> inv s \<Longrightarrow> astep (abs s) (abs t)"
begin

lemma runs_refine: "step\<^sup>*\<^sup>* s t \<Longrightarrow> inv s \<Longrightarrow> astep\<^sup>*\<^sup>* (abs s) (abs t)"
proof (induction rule: rtranclp_induct)
  case base
  show ?case by simp
next
  case (step t u)
  then have "astep (abs t) (abs u)" using simulates steps_keep_inv by blast
  with step show ?case by (meson rtranclp.rtrancl_into_rtrancl)
qed

end

end
