(* ===== verification/Csync.thy ===== *)
theory Csync
  imports Prelude
begin

section \<open>Thread-safe containers: \<^verbatim>\<open>internal/csync\<close>\<close>

text \<open>
  \<^verbatim>\<open>Map\<close>, \<^verbatim>\<open>VersionedMap\<close>, \<^verbatim>\<open>Slice\<close> and \<^verbatim>\<open>Value\<close>. Each method body runs under the
  container's mutex, so one method is one atomic function on the contents. The exception is
  \<^verbatim>\<open>Map.GetOrSet\<close>, which takes the lock twice; it is modelled as its two atomic halves as well
  as their sequential composition.

  Pointers stored in a map are compared by identity: they are values of the type \<open>'v\<close>, and
  equality on \<open>'v\<close> is identity.
\<close>

record ('k, 'v) smap =
  inner :: "('k, 'v) gomap"

definition smap_ok :: "('k, 'v) smap \<Rightarrow> bool" where
  "smap_ok m \<longleftrightarrow> gomap_ok (inner m)"

definition NewMap :: "('k, 'v) smap" where
  "NewMap = \<lparr>inner = []\<rparr>"

definition Map_Reset :: "('k, 'v) smap \<Rightarrow> ('k, 'v) gomap \<Rightarrow> ('k, 'v) smap" where
  "Map_Reset m input = m\<lparr>inner := input\<rparr>"

definition Map_Set :: "('k, 'v) smap \<Rightarrow> 'k \<Rightarrow> 'v \<Rightarrow> ('k, 'v) smap" where
  "Map_Set m key value = m\<lparr>inner := AList.update key value (inner m)\<rparr>"

definition Map_Del :: "('k, 'v) smap \<Rightarrow> 'k \<Rightarrow> ('k, 'v) smap" where
  "Map_Del m key = m\<lparr>inner := AList.delete key (inner m)\<rparr>"

definition Map_Get :: "('k, 'v) smap \<Rightarrow> 'k \<Rightarrow> 'v option" where
  "Map_Get m key = map_of (inner m) key"

definition Map_Len :: "('k, 'v) smap \<Rightarrow> nat" where
  "Map_Len m = length (inner m)"

definition Map_CompareAndDelete :: "('k, 'v) smap \<Rightarrow> 'k \<Rightarrow> 'v \<Rightarrow> bool \<times> ('k, 'v) smap" where
  "Map_CompareAndDelete m key expected =
     (case map_of (inner m) key of
        None \<Rightarrow> (False, m)
      | Some current \<Rightarrow>
          if current \<noteq> expected then (False, m)
          else (True, m\<lparr>inner := AList.delete key (inner m)\<rparr>))"

definition Map_Take :: "('k, 'v) smap \<Rightarrow> 'k \<Rightarrow> 'v option \<times> ('k, 'v) smap" where
  "Map_Take m key = (map_of (inner m) key, m\<lparr>inner := AList.delete key (inner m)\<rparr>)"

text \<open>\<^verbatim>\<open>GetOrSet\<close>: a locked read, an unlocked call of the function, a locked write.\<close>

definition GetOrSet_read :: "('k, 'v) smap \<Rightarrow> 'k \<Rightarrow> 'v option" where
  "GetOrSet_read m key = Map_Get m key"

definition GetOrSet_write :: "('k, 'v) smap \<Rightarrow> 'k \<Rightarrow> 'v \<Rightarrow> 'v \<times> ('k, 'v) smap" where
  "GetOrSet_write m key value = (value, Map_Set m key value)"

definition Map_GetOrSet :: "('k, 'v) smap \<Rightarrow> 'k \<Rightarrow> (unit \<Rightarrow> 'v) \<Rightarrow> 'v \<times> ('k, 'v) smap" where
  "Map_GetOrSet m key fn =
     (case GetOrSet_read m key of
        Some got \<Rightarrow> (got, m)
      | None \<Rightarrow> GetOrSet_write m key (fn ()))"

definition Map_Copy :: "('k, 'v) smap \<Rightarrow> ('k, 'v) gomap" where
  "Map_Copy m = inner m"

text \<open>
  The iterators yield over a copy taken when they are created; \<open>consume\<close> is the loop over the
  copy, with the consumer's \<^verbatim>\<open>yield\<close> as a state transformer that says whether to go on.
\<close>

fun consume :: "('a \<Rightarrow> 's \<Rightarrow> bool \<times> 's) \<Rightarrow> 'a list \<Rightarrow> 's \<Rightarrow> 's" where
  "consume yield [] s = s"
| "consume yield (x # xs) s =
     (let (more, s') = yield x s in if more then consume yield xs s' else s')"

definition Map_Seq2 :: "('k, 'v) smap \<Rightarrow> ('k \<times> 'v \<Rightarrow> 's \<Rightarrow> bool \<times> 's) \<Rightarrow> 's \<Rightarrow> 's" where
  "Map_Seq2 m yield s = consume yield (Map_Copy m) s"

definition Map_Seq :: "('k, 'v) smap \<Rightarrow> ('v \<Rightarrow> 's \<Rightarrow> bool \<times> 's) \<Rightarrow> 's \<Rightarrow> 's" where
  "Map_Seq m yield s = Map_Seq2 m (\<lambda>(k, v). yield v) s"

lemmas smap_defs = NewMap_def Map_Reset_def Map_Set_def Map_Del_def Map_Get_def Map_Len_def
  Map_CompareAndDelete_def Map_Take_def Map_Copy_def
  GetOrSet_read_def GetOrSet_write_def Map_GetOrSet_def

declare smap_defs [op_defs]

lemma smap_ok_ops [simp, intro]:
  assumes "smap_ok m"
  shows "smap_ok (Map_Set m k v)" "smap_ok (Map_Del m k)" "smap_ok (snd (Map_Take m k))"
    "smap_ok (snd (Map_CompareAndDelete m k e))" "smap_ok (snd (Map_GetOrSet m k fn))"
  using assms by (auto simp: smap_ok_def smap_defs split: option.splits)

lemma smap_ok_NewMap [simp]: "smap_ok NewMap"
  by (simp add: smap_ok_def NewMap_def)

subsection \<open>The interface of a keyed store\<close>

text \<open>
  What the clients of a csync map rely on: the session permissions and the pending requests of
  the permission service, the active requests and queues of the agent.
\<close>

locale key_store =
  fixes get :: "'m \<Rightarrow> 'k \<Rightarrow> 'v option"
    and put :: "'m \<Rightarrow> 'k \<Rightarrow> 'v \<Rightarrow> 'm"
    and del :: "'m \<Rightarrow> 'k \<Rightarrow> 'm"
  assumes get_put: "get (put m k v) k' = (if k' = k then Some v else get m k')"
    and get_del: "get (del m k) k' = (if k' = k then None else get m k')"
begin

lemma put_put: "get (put (put m k v) k w) = get (put m k w)"
  by (rule ext) (simp add: get_put)

lemma put_commute: "k \<noteq> l \<Longrightarrow> get (put (put m k v) l w) = get (put (put m l w) k v)"
  by (rule ext) (auto simp: get_put)

lemma del_put: "get (del (put m k v) k) = get (del m k)"
  by (rule ext) (simp add: get_put get_del)

end

locale taking_store = key_store get put del
  for get :: "'m \<Rightarrow> 'k \<Rightarrow> 'v option" and put :: "'m \<Rightarrow> 'k \<Rightarrow> 'v \<Rightarrow> 'm" and del :: "'m \<Rightarrow> 'k \<Rightarrow> 'm" +
  fixes take' :: "'m \<Rightarrow> 'k \<Rightarrow> 'v option \<times> 'm"
  assumes take_value: "fst (take' m k) = get m k"
    and take_rest: "get (snd (take' m k)) k' = get (del m k) k'"
begin

text \<open>Of two callers that take the same key, only the first one gets the value.\<close>

lemma first_taker_wins: "fst (take' (snd (take' m k)) k) = None"
  by (simp add: take_value take_rest get_del)

lemma take_other: "k' \<noteq> k \<Longrightarrow> fst (take' (snd (take' m k)) k') = get m k'"
  by (simp add: take_value take_rest get_del)

lemma take_after_put: "fst (take' (put m k v) k) = Some v"
  by (simp add: take_value get_put)

end

interpretation csync_map: taking_store Map_Get Map_Set Map_Del Map_Take
  by unfold_locales (simp_all add: smap_defs gomap_simps)

lemma Map_CompareAndDelete_iff:
  "fst (Map_CompareAndDelete m k e) \<longleftrightarrow> Map_Get m k = Some e"
  by (auto simp: smap_defs split: option.splits)

lemma Map_Get_CompareAndDelete:
  "Map_Get (snd (Map_CompareAndDelete m k e)) k' =
     (if k' = k \<and> Map_Get m k = Some e then None else Map_Get m k')"
  by (auto simp: smap_defs gomap_simps split: option.splits)

text \<open>The ABA-safe cleanup of the map. \<^verbatim>\<open>CompareAndDelete\<close> reports a deletion exactly when the
  entry of the key is the expected one, in that case removes that entry, and in every case leaves
  the entries of all other keys, and an entry that a newer writer installed, as they are.\<close>

theorem compare_and_delete_exact:
  "(fst (Map_CompareAndDelete m k e) \<longleftrightarrow> Map_Get m k = Some e) \<and>
   Map_Get (snd (Map_CompareAndDelete m k e)) k' =
     (if k' = k \<and> Map_Get m k = Some e then None else Map_Get m k')"
  by (simp add: Map_CompareAndDelete_iff Map_Get_CompareAndDelete)

text \<open>
  \<^verbatim>\<open>GetOrSet\<close> is not one atomic step. When two callers race on an absent key and both read
  before either writes, each of them returns the value of its own function, and the map keeps the
  second one: the first caller holds a value that is not in the map.\<close>

theorem get_or_set_race:
  assumes "Map_Get m k = None" and "v \<noteq> w"
    and "GetOrSet_read m k = r1" and "GetOrSet_read m k = r2"
    and "GetOrSet_write m k v = (got1, m1)" and "GetOrSet_write m1 k w = (got2, m2)"
  shows "r1 = None \<and> r2 = None \<and> got1 = v \<and> got2 = w \<and> Map_Get m2 k = Some w \<and> Map_Get m2 k \<noteq> Some got1"
  using assms by (auto simp: smap_defs gomap_simps)

theorem get_or_set_race_witness:
  "\<exists>m2. Map_Get (NewMap :: (nat, nat) smap) 1 = None \<and> (7::nat) \<noteq> 8 \<and>
     GetOrSet_write (snd (GetOrSet_write NewMap 1 7)) 1 8 = (8, m2) \<and> Map_Get m2 1 = Some (8::nat)"
proof -
  let ?m1 = "snd (GetOrSet_write (NewMap :: (nat, nat) smap) 1 7)"
  let ?m2 = "snd (GetOrSet_write ?m1 1 8)"
  have "Map_Get ?m2 1 = Some 8"
    using get_or_set_race [of "NewMap :: (nat, nat) smap" 1 7 8 None None 7 ?m1 8 ?m2]
    by (simp add: smap_defs)
  then show ?thesis by (simp add: smap_defs)
qed

subsection \<open>\<^verbatim>\<open>VersionedMap\<close>\<close>

record ('k, 'v) vmap =
  vm :: "('k, 'v) smap"
  vv :: go_uint64

definition NewVersionedMap :: "('k, 'v) vmap" where
  "NewVersionedMap = \<lparr>vm = NewMap, vv = 0\<rparr>"

definition VersionedMap_Get :: "('k, 'v) vmap \<Rightarrow> 'k \<Rightarrow> 'v option" where
  "VersionedMap_Get m key = Map_Get (vm m) key"

definition VersionedMap_Set :: "('k, 'v) vmap \<Rightarrow> 'k \<Rightarrow> 'v \<Rightarrow> ('k, 'v) vmap" where
  "VersionedMap_Set m key value = m\<lparr>vm := Map_Set (vm m) key value, vv := vv m + 1\<rparr>"

definition VersionedMap_Del :: "('k, 'v) vmap \<Rightarrow> 'k \<Rightarrow> ('k, 'v) vmap" where
  "VersionedMap_Del m key = m\<lparr>vm := Map_Del (vm m) key, vv := vv m + 1\<rparr>"

definition VersionedMap_Len :: "('k, 'v) vmap \<Rightarrow> nat" where
  "VersionedMap_Len m = Map_Len (vm m)"

definition VersionedMap_Copy :: "('k, 'v) vmap \<Rightarrow> ('k, 'v) gomap" where
  "VersionedMap_Copy m = Map_Copy (vm m)"

definition VersionedMap_Seq2 :: "('k, 'v) vmap \<Rightarrow> ('k \<times> 'v \<Rightarrow> 's \<Rightarrow> bool \<times> 's) \<Rightarrow> 's \<Rightarrow> 's" where
  "VersionedMap_Seq2 m yield s = Map_Seq2 (vm m) yield s"

definition Version :: "('k, 'v) vmap \<Rightarrow> go_uint64" where
  "Version m = vv m"

lemmas vmap_defs = NewVersionedMap_def VersionedMap_Get_def VersionedMap_Set_def
  VersionedMap_Del_def VersionedMap_Len_def VersionedMap_Copy_def Version_def

interpretation versioned_map: key_store VersionedMap_Get VersionedMap_Set VersionedMap_Del
  by unfold_locales (simp_all add: vmap_defs csync_map.get_put csync_map.get_del)

datatype ('k, 'v) vop = VSet 'k 'v | VDel 'k

fun vrun :: "('k, 'v) vmap \<Rightarrow> ('k, 'v) vop list \<Rightarrow> ('k, 'v) vmap" where
  "vrun m [] = m"
| "vrun m (VSet k v # ops) = vrun (VersionedMap_Set m k v) ops"
| "vrun m (VDel k # ops) = vrun (VersionedMap_Del m k) ops"

lemma Version_vrun: "Version (vrun m ops) = Version m + of_nat (length ops)"
  by (induction m ops rule: vrun.induct) (simp_all add: vmap_defs algebra_simps)

text \<open>Every write of a \<^verbatim>\<open>VersionedMap\<close> moves its version. Two snapshots taken fewer than
  \<open>2 ^ 64\<close> writes apart have the same version only when no write lies between them, so a reader
  that polls \<^verbatim>\<open>Version\<close> never misses a change.\<close>

theorem version_detects_writes:
  assumes "length ops < 2 ^ 64"
  shows "Version (vrun m ops) = Version m \<longleftrightarrow> ops = []"
proof -
  have "(of_nat (length ops) :: go_uint64) = 0 \<longleftrightarrow> length ops = 0"
    using assms by (cases "ops = []") (auto simp: word_of_nat_eq_0_iff nat_dvd_not_less)
  then show ?thesis by (simp add: Version_vrun)
qed

theorem version_detects_writes_witness:
  "Version (vrun NewVersionedMap [VSet (1::nat) (5::nat), VDel 1]) \<noteq> Version (NewVersionedMap :: (nat, nat) vmap)"
  using version_detects_writes [of "[VSet (1::nat) (5::nat), VDel 1]" NewVersionedMap] by simp

subsection \<open>\<^verbatim>\<open>Slice\<close> and \<^verbatim>\<open>Value\<close>\<close>

record 'a sslice =
  elems :: "'a list"

definition NewSlice :: "'a sslice" where
  "NewSlice = \<lparr>elems = []\<rparr>"

definition NewSliceFrom :: "'a list \<Rightarrow> 'a sslice" where
  "NewSliceFrom s = \<lparr>elems = s\<rparr>"

definition Slice_Append :: "'a sslice \<Rightarrow> 'a list \<Rightarrow> 'a sslice" where
  "Slice_Append s items = s\<lparr>elems := elems s @ items\<rparr>"

definition Slice_Get :: "'a sslice \<Rightarrow> int \<Rightarrow> 'a option" where
  "Slice_Get s index =
     (if index < 0 \<or> index \<ge> int (length (elems s)) then None else Some (elems s ! nat index))"

definition Slice_Len :: "'a sslice \<Rightarrow> nat" where
  "Slice_Len s = length (elems s)"

definition SetSlice :: "'a sslice \<Rightarrow> 'a list \<Rightarrow> 'a sslice" where
  "SetSlice s items = s\<lparr>elems := items\<rparr>"

definition Slice_Copy :: "'a sslice \<Rightarrow> 'a list" where
  "Slice_Copy s = elems s"

definition Slice_Seq2 :: "'a sslice \<Rightarrow> (nat \<times> 'a \<Rightarrow> 's \<Rightarrow> bool \<times> 's) \<Rightarrow> 's \<Rightarrow> 's" where
  "Slice_Seq2 s yield = consume yield (enumerate 0 (Slice_Copy s))"

definition Slice_Seq :: "'a sslice \<Rightarrow> ('a \<Rightarrow> 's \<Rightarrow> bool \<times> 's) \<Rightarrow> 's \<Rightarrow> 's" where
  "Slice_Seq s yield = Slice_Seq2 s (\<lambda>(i, v). yield v)"

record 'a svalue =
  sval :: 'a

definition Value_Get :: "'a svalue \<Rightarrow> 'a" where
  "Value_Get v = sval v"

definition Value_Set :: "'a svalue \<Rightarrow> 'a \<Rightarrow> 'a svalue" where
  "Value_Set v t = v\<lparr>sval := t\<rparr>"

lemma Slice_Get_Append:
  "Slice_Get (Slice_Append s items) i =
     (case Slice_Get s i of Some x \<Rightarrow> Some x
      | None \<Rightarrow> Slice_Get (NewSliceFrom items) (if i < 0 then i else i - int (Slice_Len s)))"
  by (auto simp: Slice_Get_def Slice_Append_def NewSliceFrom_def Slice_Len_def nth_append nat_diff_distrib)

lemma Value_Get_Set [simp]: "Value_Get (Value_Set v t) = t"
  by (simp add: Value_Get_def Value_Set_def)

end
