(* ===== verification/Go_Strings.thy ===== *)
theory Go_Strings
  imports Prelude
begin

section \<open>The Go standard library functions on strings and paths the code uses\<close>

text \<open>
  \<^verbatim>\<open>strings\<close>: \<^verbatim>\<open>HasPrefix\<close>, \<^verbatim>\<open>Index\<close>, \<^verbatim>\<open>LastIndex\<close>, \<^verbatim>\<open>Contains\<close>, \<^verbatim>\<open>Count\<close>, \<^verbatim>\<open>Split\<close>, \<^verbatim>\<open>Join\<close>,
  \<^verbatim>\<open>ReplaceAll\<close>, \<^verbatim>\<open>Repeat\<close>, \<^verbatim>\<open>TrimLeft\<close>, \<^verbatim>\<open>TrimSpace\<close>, \<^verbatim>\<open>Fields\<close>; \<^verbatim>\<open>strconv.Itoa\<close>; and, for Unix
  paths, \<^verbatim>\<open>filepath.Clean\<close>, \<^verbatim>\<open>Dir\<close> and \<^verbatim>\<open>IsAbs\<close>. Strings are byte sequences. An index of \<open>-1\<close> is
  \<open>None\<close>. Separators and search strings are non-empty at every call the model makes; the empty
  case follows the byte-wise reading of the documentation.

  White space is Unicode white space in UTF-8: \<open>space_len s\<close> is the number of bytes of the white
  space character at the front of \<open>s\<close>, 0 if there is none. UTF-8 lead bytes never occur inside
  another character, so scanning byte by byte finds the same white space as decoding runes.
\<close>

abbreviation NL :: char where "NL \<equiv> CHR 0x0A"
abbreviation TAB :: char where "TAB \<equiv> CHR 0x09"

subsection \<open>Searching\<close>

fun str_prefix :: "string \<Rightarrow> string \<Rightarrow> bool" where
  "str_prefix [] s = True"
| "str_prefix (c # p) [] = False"
| "str_prefix (c # p) (d # s) = (c = d \<and> str_prefix p s)"

fun str_index :: "string \<Rightarrow> string \<Rightarrow> nat option" where
  "str_index [] sub = (if sub = [] then Some 0 else None)"
| "str_index (c # s) sub =
     (if str_prefix sub (c # s) then Some 0 else map_option Suc (str_index s sub))"

fun str_last_index :: "string \<Rightarrow> string \<Rightarrow> nat option" where
  "str_last_index [] sub = (if sub = [] then Some 0 else None)"
| "str_last_index (c # s) sub =
     (case str_last_index s sub of
        Some i \<Rightarrow> Some (Suc i)
      | None \<Rightarrow> if str_prefix sub (c # s) then Some 0 else None)"

definition str_contains :: "string \<Rightarrow> string \<Rightarrow> bool" where
  "str_contains s sub \<longleftrightarrow> str_index s sub \<noteq> None"

lemma str_prefix_iff: "str_prefix p s \<longleftrightarrow> (\<exists>t. s = p @ t)"
  by (induction p s rule: str_prefix.induct) auto

lemma str_prefix_append [simp]: "str_prefix p (p @ t)"
  by (auto simp: str_prefix_iff)

lemma str_index_SomeD:
  "str_index s sub = Some i \<Longrightarrow> \<exists>u v. s = u @ sub @ v \<and> length u = i"
proof (induction s arbitrary: i)
  case Nil
  then show ?case by (auto split: if_splits)
next
  case (Cons c s)
  show ?case
  proof (cases "str_prefix sub (c # s)")
    case True
    with Cons.prems show ?thesis by (auto simp: str_prefix_iff intro!: exI [of _ "[]"])
  next
    case False
    with Cons.prems obtain j where j: "str_index s sub = Some j" "i = Suc j" by auto
    from Cons.IH [OF j(1)] obtain u v where "s = u @ sub @ v" "length u = j" by auto
    with j(2) show ?thesis by (intro exI [of _ "c # u"] exI [of _ v]) auto
  qed
qed

lemma str_index_append: "\<exists>i. str_index (u @ sub @ v) sub = Some i \<and> i \<le> length u"
proof (induction u)
  case Nil
  have "str_prefix sub (sub @ v)" by simp
  then show ?case by (cases "sub @ v") auto
next
  case (Cons c u)
  then show ?case by auto
qed

lemma str_index_None_iff: "str_index s sub = None \<longleftrightarrow> \<not> (\<exists>u v. s = u @ sub @ v)"
  using str_index_SomeD str_index_append by (metis not_None_eq)

lemma str_contains_iff: "str_contains s sub \<longleftrightarrow> (\<exists>u v. s = u @ sub @ v)"
  by (simp add: str_contains_def str_index_None_iff)

lemma str_index_bound: "str_index s sub = Some i \<Longrightarrow> i + length sub \<le> length s"
  using str_index_SomeD by fastforce

lemma str_index_measure:
  "str_index s sub = Some i \<Longrightarrow> sub \<noteq> [] \<Longrightarrow> length s - (i + length sub) < length s"
  using str_index_bound [of s sub i] by (cases sub) auto

lemma str_index_take_drop:
  "str_index s sub = Some i \<Longrightarrow> s = take i s @ sub @ drop (i + length sub) s"
  using str_index_SomeD by fastforce

lemma str_index_first:
  "str_index s sub = Some i \<Longrightarrow> j < i \<Longrightarrow> \<not> str_prefix sub (drop j s)"
proof (induction s arbitrary: i j)
  case (Cons c s)
  then show ?case by (cases j) (auto split: if_splits)
qed (auto split: if_splits)

lemma str_last_index_SomeD:
  "str_last_index s sub = Some i \<Longrightarrow> \<exists>u v. s = u @ sub @ v \<and> length u = i"
proof (induction s arbitrary: i)
  case Nil
  then show ?case by (auto split: if_splits)
next
  case (Cons c s)
  show ?case
  proof (cases "str_last_index s sub")
    case None
    with Cons.prems show ?thesis
      by (auto simp: str_prefix_iff split: if_splits intro!: exI [of _ "[]"])
  next
    case (Some j)
    with Cons.IH [OF Some] Cons.prems show ?thesis by (metis append_Cons length_Cons option.case(2) option.inject str_last_index.simps(2))
  qed
qed

lemma str_last_index_last:
  "str_prefix sub (drop j s) \<Longrightarrow> j \<le> length s \<Longrightarrow> \<exists>i. str_last_index s sub = Some i \<and> j \<le> i"
proof (induction s arbitrary: j)
  case Nil
  then show ?case by (cases sub) auto
next
  case (Cons c s)
  show ?case
  proof (cases j)
    case 0
    with Cons.prems show ?thesis by (auto split: option.splits)
  next
    case (Suc k)
    with Cons.IH [of k] Cons.prems show ?thesis by auto
  qed
qed

text \<open>One occurrence only: the first and the last index agree.\<close>

definition occurs_once :: "string \<Rightarrow> string \<Rightarrow> bool" where
  "occurs_once s sub \<longleftrightarrow> (\<exists>!i. i \<le> length s \<and> str_prefix sub (drop i s))"

lemma str_index_eq_last_iff:
  assumes "str_index s sub = Some i"
  shows "str_last_index s sub = Some i \<longleftrightarrow> occurs_once s sub"
proof
  have at: "i \<le> length s" "str_prefix sub (drop i s)"
    using str_index_SomeD [OF assms] by auto
  {
    assume last: "str_last_index s sub = Some i"
    have uniq: "j = i" if "j \<le> length s" "str_prefix sub (drop j s)" for j
    proof -
      from str_last_index_last [OF that(2,1)] last have "j \<le> i" by simp
      moreover from str_index_first [OF assms, of j] that(2) have "\<not> j < i" by blast
      ultimately show ?thesis by simp
    qed
    show "occurs_once s sub"
      unfolding occurs_once_def using at uniq by blast
  next
    assume once: "occurs_once s sub"
    obtain k where k: "str_last_index s sub = Some k" "i \<le> k"
      using str_last_index_last [OF at(2,1)] by blast
    from str_last_index_SomeD [OF k(1)] obtain u v where "s = u @ sub @ v" "length u = k" by blast
    then have "k \<le> length s \<and> str_prefix sub (drop k s)" by simp
    with once at have "k = i" unfolding occurs_once_def by blast
    with k(1) show "str_last_index s sub = Some i" by simp
  }
qed

subsection \<open>Counting, splitting, joining, replacing\<close>

function str_count :: "string \<Rightarrow> string \<Rightarrow> nat" where
  "str_count s sub =
     (if sub = [] then Suc (length s)
      else case str_index s sub of None \<Rightarrow> 0 | Some i \<Rightarrow> Suc (str_count (drop (i + length sub) s) sub))"
  by pat_completeness auto
termination
  by (relation "measure (\<lambda>(s, sub). length s)") (auto simp: str_index_measure)

function str_split :: "string \<Rightarrow> string \<Rightarrow> string list" where
  "str_split s sep =
     (if sep = [] then map (\<lambda>c. [c]) s
      else case str_index s sep of None \<Rightarrow> [s]
      | Some i \<Rightarrow> take i s # str_split (drop (i + length sep) s) sep)"
  by pat_completeness auto
termination
  by (relation "measure (\<lambda>(s, sep). length s)") (auto simp: str_index_measure)

function str_replace_all :: "string \<Rightarrow> string \<Rightarrow> string \<Rightarrow> string" where
  "str_replace_all s old new =
     (if old = [] then s
      else case str_index s old of None \<Rightarrow> s
      | Some i \<Rightarrow> take i s @ new @ str_replace_all (drop (i + length old) s) old new)"
  by pat_completeness auto
termination
  by (relation "measure (\<lambda>(s, old, new). length s)") (auto simp: str_index_measure)

declare str_count.simps [simp del] str_split.simps [simp del] str_replace_all.simps [simp del]

fun str_join :: "string \<Rightarrow> string list \<Rightarrow> string" where
  "str_join sep [] = []"
| "str_join sep [x] = x"
| "str_join sep (x # y # xs) = x @ sep @ str_join sep (y # xs)"

lemma str_join_Cons: "xs \<noteq> [] \<Longrightarrow> str_join sep (x # xs) = x @ sep @ str_join sep xs"
  by (cases xs) auto

lemma str_split_nonempty [simp]: "sep \<noteq> [] \<Longrightarrow> str_split s sep \<noteq> []"
  by (subst str_split.simps) (auto split: option.splits)

lemma str_join_split: "sep \<noteq> [] \<Longrightarrow> str_join sep (str_split s sep) = s"
proof (induction s sep rule: str_split.induct)
  case (1 s sep)
  show ?case
  proof (cases "str_index s sep")
    case None
    with "1.prems" show ?thesis by (simp add: str_split.simps [of s])
  next
    case (Some i)
    with "1.IH" "1.prems"
    have "str_join sep (str_split (drop (i + length sep) s) sep) = drop (i + length sep) s" by blast
    with Some "1.prems" str_index_take_drop [OF Some] show ?thesis
      by (simp add: str_split.simps [of s] str_join_Cons)
  qed
qed

text \<open>A one-character separator.\<close>

lemma str_index_char: "c \<notin> set x \<Longrightarrow> str_index (x @ c # y) [c] = Some (length x)"
  by (induction x) (auto)

lemma str_index_char_None: "c \<notin> set x \<Longrightarrow> str_index x [c] = None"
  by (induction x) auto

lemma str_split_char_Cons: "c \<notin> set x \<Longrightarrow> str_split (x @ c # y) [c] = x # str_split y [c]"
  by (simp add: str_split.simps [of "x @ c # y"] str_index_char)

lemma str_split_char_None: "c \<notin> set x \<Longrightarrow> str_split x [c] = [x]"
  by (simp add: str_split.simps [of x] str_index_char_None)

lemma str_split_join_char:
  "xs \<noteq> [] \<Longrightarrow> \<forall>x\<in>set xs. c \<notin> set x \<Longrightarrow> str_split (str_join [c] xs) [c] = xs"
  by (induction xs rule: induct_list012) (auto simp: str_split_char_Cons str_split_char_None)

lemma str_split_char_free: "\<forall>x\<in>set (str_split s [c]). c \<notin> set x"
proof (induction s "[c]" rule: str_split.induct)
  case (1 s)
  show ?case
  proof (cases "str_index s [c]")
    case None
    then have "c \<notin> set s" by (metis str_index_None_iff append_Cons append_Nil in_set_conv_decomp)
    then show ?thesis by (simp add: str_split_char_None)
  next
    case (Some i)
    have "c \<notin> set (take i s)"
    proof
      assume "c \<in> set (take i s)"
      then obtain j where j: "j < length (take i s)" "take i s ! j = c" by (auto simp: in_set_conv_nth)
      then have "j < i" "j < length s" "s ! j = c" by auto
      then have "str_prefix [c] (drop j s)" by (metis Cons_nth_drop_Suc str_prefix.simps(1,3))
      with str_index_first [OF Some \<open>j < i\<close>] show False by simp
    qed
    with "1" Some show ?thesis by (subst str_split.simps) simp
  qed
qed

lemma set_str_join: "c \<in> set (str_join sep xs) \<Longrightarrow> c \<in> set sep \<or> (\<exists>x\<in>set xs. c \<in> set x)"
  by (induction xs rule: induct_list012) auto

subsection \<open>White space\<close>

fun space_len :: "string \<Rightarrow> nat" where
  "space_len [] = 0"
| "space_len (c # s) =
     (if c \<in> {CHR 0x09, CHR 0x0A, CHR 0x0B, CHR 0x0C, CHR 0x0D, CHR 0x20} then 1
      else if c = CHR 0xC2 \<and> (case s of [] \<Rightarrow> False | d # _ \<Rightarrow> d \<in> {CHR 0x85, CHR 0xA0}) then 2
      else case s of
        d # e # _ \<Rightarrow>
          if c = CHR 0xE1 \<and> d = CHR 0x9A \<and> e = CHR 0x80 then 3
          else if c = CHR 0xE2 \<and> d = CHR 0x80 \<and>
            e \<in> {CHR 0x80, CHR 0x81, CHR 0x82, CHR 0x83, CHR 0x84, CHR 0x85, CHR 0x86, CHR 0x87,
                 CHR 0x88, CHR 0x89, CHR 0x8A, CHR 0xA8, CHR 0xA9, CHR 0xAF} then 3
          else if c = CHR 0xE2 \<and> d = CHR 0x81 \<and> e = CHR 0x9F then 3
          else if c = CHR 0xE3 \<and> d = CHR 0x80 \<and> e = CHR 0x80 then 3
          else 0
      | _ \<Rightarrow> 0)"

lemma space_len_NL [simp]: "space_len (NL # s) = 1"
  by simp

text \<open>\<open>fields_acc word s\<close>: the fields of \<open>s\<close>, where \<open>word\<close> (reversed) is the field being read.\<close>

function fields_acc :: "string \<Rightarrow> string \<Rightarrow> string list" where
  "fields_acc word [] = (if word = [] then [] else [rev word])"
| "fields_acc word (c # s) =
     (if space_len (c # s) = 0 then fields_acc (c # word) s
      else (if word = [] then [] else [rev word]) @ fields_acc [] (drop (space_len (c # s)) (c # s)))"
  by pat_completeness auto
termination
  by (relation "measure (\<lambda>(word, s). length s)") (auto simp del: space_len.simps)

declare fields_acc.simps(2) [simp del]

definition str_fields :: "string \<Rightarrow> string list" where
  "str_fields s = fields_acc [] s"

function trim_left_space :: "string \<Rightarrow> string" where
  "trim_left_space s = (if space_len s = 0 then s else trim_left_space (drop (space_len s) s))"
  by pat_completeness auto
termination
proof (relation "measure length")
  fix s assume "space_len s \<noteq> 0"
  then show "(drop (space_len s) s, s) \<in> measure length" by (cases s) auto
qed auto

declare trim_left_space.simps [simp del]

definition space_suffix_len :: "string \<Rightarrow> nat" where
  "space_suffix_len s =
     (if length s \<ge> 1 \<and> space_len (drop (length s - 1) s) = 1 then 1
      else if length s \<ge> 2 \<and> space_len (drop (length s - 2) s) = 2 then 2
      else if length s \<ge> 3 \<and> space_len (drop (length s - 3) s) = 3 then 3
      else 0)"

function trim_right_space :: "string \<Rightarrow> string" where
  "trim_right_space s =
     (if space_suffix_len s = 0 then s else trim_right_space (take (length s - space_suffix_len s) s))"
  by pat_completeness auto
termination
  by (relation "measure length") (auto simp: space_suffix_len_def split: if_splits)

declare trim_right_space.simps [simp del]

definition trim_space :: "string \<Rightarrow> string" where
  "trim_space s = trim_right_space (trim_left_space s)"

text \<open>\<^verbatim>\<open>strings.TrimLeft\<close> with an ASCII cutset.\<close>

definition trim_left :: "string \<Rightarrow> string \<Rightarrow> string" where
  "trim_left s cutset = dropWhile (\<lambda>c. c \<in> set cutset) s"

definition str_repeat :: "string \<Rightarrow> nat \<Rightarrow> string" where
  "str_repeat s n = concat (replicate n s)"

lemma fields_acc_free:
  assumes "c \<notin> set word" and "\<And>s. space_len (c # s) > 0"
  shows "\<forall>f\<in>set (fields_acc word s). c \<notin> set f"
  using assms(1)
proof (induction word s rule: fields_acc.induct)
  case (1 word)
  then show ?case by simp
next
  case (2 word d s)
  show ?case
  proof (cases "space_len (d # s) = 0")
    case True
    with assms(2) [of s] have "d \<noteq> c" by auto
    with 2 True show ?thesis by (simp add: fields_acc.simps(2))
  next
    case False
    with 2 show ?thesis by (simp add: fields_acc.simps(2))
  qed
qed

lemma str_fields_no_NL: "\<forall>f\<in>set (str_fields s). NL \<notin> set f"
  unfolding str_fields_def by (rule fields_acc_free) simp_all

subsection \<open>Decimal numbers\<close>

definition digit_char :: "nat \<Rightarrow> char" where
  "digit_char d = char_of (48 + d)"

fun itoa :: "nat \<Rightarrow> string" where
  "itoa n = (if n < 10 then [digit_char n] else itoa (n div 10) @ [digit_char (n mod 10)])"

declare itoa.simps [simp del]

lemma itoa_length_le: "n < 10 ^ k \<Longrightarrow> k > 0 \<Longrightarrow> length (itoa n) \<le> k"
proof (induction k arbitrary: n)
  case 0
  then show ?case by simp
next
  case (Suc k)
  show ?case
  proof (cases "n < 10")
    case True
    then show ?thesis by (simp add: itoa.simps)
  next
    case False
    then have k: "k > 0" using Suc.prems by (cases k) auto
    have "n div 10 < 10 ^ k" using Suc.prems by (simp add: less_mult_imp_div_less mult.commute)
    with Suc.IH k have "length (itoa (n div 10)) \<le> k" by blast
    with False show ?thesis by (simp add: itoa.simps [of n])
  qed
qed

subsection \<open>Unix paths\<close>

fun clean_comps :: "bool \<Rightarrow> string list \<Rightarrow> string list \<Rightarrow> string list" where
  "clean_comps rooted out [] = rev out"
| "clean_comps rooted out (c # cs) =
     (if c = [] \<or> c = ''.'' then clean_comps rooted out cs
      else if c = ''..'' then
        (case out of
           x # xs \<Rightarrow> if x = ''..'' then clean_comps rooted (''..'' # out) cs else clean_comps rooted xs cs
         | [] \<Rightarrow> if rooted then clean_comps rooted [] cs else clean_comps rooted [''..''] cs)
      else clean_comps rooted (c # out) cs)"

definition filepath_IsAbs :: "string \<Rightarrow> bool" where
  "filepath_IsAbs path \<longleftrightarrow> str_prefix ''/'' path"

definition filepath_Clean :: "string \<Rightarrow> string" where
  "filepath_Clean path =
     (let rooted = filepath_IsAbs path; out = str_join ''/'' (clean_comps rooted [] (str_split path ''/''))
      in if rooted then ''/'' @ out else if out = [] then ''.'' else out)"

definition filepath_Dir :: "string \<Rightarrow> string" where
  "filepath_Dir path =
     filepath_Clean (case str_last_index path ''/'' of None \<Rightarrow> [] | Some i \<Rightarrow> take (Suc i) path)"

lemma filepath_Dir_test:
  "filepath_Dir ''/a/b/../c.txt'' = ''/a''" "filepath_Dir ''x.go'' = ''.''" "filepath_Dir ''/x'' = ''/''"
  by code_simp+

definition filepath_Join :: "string list \<Rightarrow> string" where
  "filepath_Join elems =
     (case filter (\<lambda>e. e \<noteq> []) elems of [] \<Rightarrow> [] | es \<Rightarrow> filepath_Clean (str_join ''/'' es))"

definition path_comps :: "string \<Rightarrow> string list" where
  "path_comps p = filter (\<lambda>c. c \<noteq> [] \<and> c \<noteq> ''.'') (str_split p ''/'')"

fun strip_common :: "string list \<Rightarrow> string list \<Rightarrow> string list \<times> string list" where
  "strip_common (b # bs) (t # ts) = (if b = t then strip_common bs ts else (b # bs, t # ts))"
| "strip_common bs ts = (bs, ts)"

definition filepath_Rel :: "string \<Rightarrow> string \<Rightarrow> string option" where
  "filepath_Rel basepath targpath =
     (let base = filepath_Clean basepath; targ = filepath_Clean targpath in
      if targ = base then Some ''.''
      else if filepath_IsAbs base \<noteq> filepath_IsAbs targ then None
      else
        (let (bs, ts) = strip_common (path_comps base) (path_comps targ)
         in if bs \<noteq> [] \<and> hd bs = ''..'' then None
            else Some (str_join ''/'' (replicate (length bs) ''..'' @ ts))))"

definition str_trim_prefix :: "string \<Rightarrow> string \<Rightarrow> string" where
  "str_trim_prefix s p = (if str_prefix p s then drop (length p) s else s)"

text \<open>\<^verbatim>\<open>Base\<close> and \<^verbatim>\<open>Ext\<close>.\<close>

definition filepath_Base :: "string \<Rightarrow> string" where
  "filepath_Base path =
     (if path = [] then ''.''
      else
        (let p = rev (dropWhile (\<lambda>c. c = CHR ''/'') (rev path))
         in if p = [] then ''/'' else (case str_last_index p ''/'' of None \<Rightarrow> p | Some i \<Rightarrow> drop (Suc i) p)))"

definition filepath_Ext :: "string \<Rightarrow> string" where
  "filepath_Ext path =
     (let t = rev (takeWhile (\<lambda>c. c \<noteq> CHR ''/'') (rev path))
      in case str_last_index t ''.'' of None \<Rightarrow> [] | Some i \<Rightarrow> drop i t)"

lemma filepath_Base_test:
  "filepath_Base ''/a/b/'' = ''b''" "filepath_Base [] = ''.''" "filepath_Base ''//'' = ''/''" "filepath_Ext ''a.b/c'' = []"
  "filepath_Ext ''x/.md'' = ''.md''"
  by code_simp+

text \<open>The first position of a list with a property, as \<^verbatim>\<open>slices.IndexFunc\<close>.\<close>

definition IndexFunc :: "('a \<Rightarrow> bool) \<Rightarrow> 'a list \<Rightarrow> nat option" where
  "IndexFunc p xs = (if list_ex p xs then Some (length (takeWhile (\<lambda>x. \<not> p x) xs)) else None)"

subsection \<open>Runes: \<^verbatim>\<open>unicode/utf8\<close>\<close>

text \<open>The bytes of the rune at the front, as \<^verbatim>\<open>range\<close> over a string decodes it; a broken one takes one byte.\<close>

definition cont_in :: "nat \<Rightarrow> nat \<Rightarrow> char \<Rightarrow> bool" where
  "cont_in lo hi c \<longleftrightarrow> lo \<le> (of_char c :: nat) \<and> of_char c \<le> hi"

definition second_ok :: "nat \<Rightarrow> char \<Rightarrow> bool" where
  "second_ok b =
     (if b = 0xE0 then cont_in 0xA0 0xBF else if b = 0xED then cont_in 0x80 0x9F
      else if b = 0xF0 then cont_in 0x90 0xBF else if b = 0xF4 then cont_in 0x80 0x8F else cont_in 0x80 0xBF)"

definition rune_width :: "nat \<Rightarrow> nat" where
  "rune_width b =
     (if 0xC2 \<le> b \<and> b \<le> 0xDF then 2 else if 0xE0 \<le> b \<and> b \<le> 0xEF then 3 else if 0xF0 \<le> b \<and> b \<le> 0xF4 then 4 else 1)"

fun rune_len :: "string \<Rightarrow> nat" where
  "rune_len [] = 0"
| "rune_len (c # s) =
     (let b = of_char c; n = rune_width b
      in if n = 1 \<or> length s + 1 < n then 1
         else if second_ok b (hd s) \<and> list_all (cont_in 0x80 0xBF) (take (n - 2) (tl s)) then n else 1)"

lemma rune_width_pos [simp]: "0 < rune_width b"
  by (simp add: rune_width_def)

lemma rune_len_pos: "s \<noteq> [] \<Longrightarrow> 0 < rune_len s"
  by (cases s) (auto simp: Let_def)

definition utf8_rune :: "string \<Rightarrow> bool" where
  "utf8_rune r \<longleftrightarrow> r \<noteq> [] \<and> rune_len r = length r \<and> (length r = 1 \<longrightarrow> (of_char (hd r) :: nat) < 0x80)"

lemma rune_len_append: "utf8_rune r \<Longrightarrow> rune_len (r @ t) = length r"
proof -
  assume r: "utf8_rune r"
  then obtain c s where cs: "r = c # s" by (cases r) (auto simp: utf8_rune_def)
  let ?b = "of_char c :: nat"
  show ?thesis
  proof (cases s)
    case Nil
    then have "rune_width ?b = 1" using r cs by (simp add: utf8_rune_def rune_width_def)
    then show ?thesis using Nil cs by simp
  next
    case (Cons d u)
    let ?ok = "second_ok ?b d \<and> list_all (cont_in 0x80 0xBF) (take (rune_width ?b - 2) u)"
    have "rune_len r = length r" "1 < length r" using r cs Cons by (simp_all add: utf8_rune_def)
    then have "rune_width ?b = length r" "?ok" by (auto simp: cs Cons Let_def split: if_splits)
    then show ?thesis by (simp add: cs Cons Let_def)
  qed
qed

function utf8_runes :: "string \<Rightarrow> string list" where
  "utf8_runes s = (if s = [] then [] else take (rune_len s) s # utf8_runes (drop (rune_len s) s))"
  by pat_completeness auto
termination
  by (relation "measure length") (auto intro!: diff_less rune_len_pos)

declare utf8_runes.simps [simp del]

definition ValidString :: "string \<Rightarrow> bool" where
  "ValidString s \<longleftrightarrow> list_all utf8_rune (utf8_runes s)"

text \<open>\<^verbatim>\<open>strings.ToValidUTF8\<close> with an empty replacement.\<close>

definition drop_invalid :: "string \<Rightarrow> string" where
  "drop_invalid s = concat (filter utf8_rune (utf8_runes s))"

lemma concat_utf8_runes: "concat (utf8_runes s) = s"
proof (induction s rule: utf8_runes.induct)
  case (1 s)
  then show ?case by (subst utf8_runes.simps) simp
qed

lemma length_drop_invalid: "length (drop_invalid s) \<le> length s"
proof -
  have "length (concat (filter P xs)) \<le> length (concat xs)" for P and xs :: "string list"
    by (induction xs) auto
  then show ?thesis using concat_utf8_runes [of s] by (metis drop_invalid_def)
qed

end
