(* ===== verification/Backend.thy ===== *)
theory Backend
  imports Csync Go_Strings
begin

section \<open>Workspace lifecycle: \<^verbatim>\<open>internal/backend/backend.go\<close>\<close>

text \<open>
  The server's table of workspaces, the claims clients hold on them, and the decision to shut the
  server down.

  Every definition below is one critical section of the code (\<^verbatim>\<open>b.mu\<close>, or \<^verbatim>\<open>ws.clientsMu\<close> alone), so
  an interleaving of goroutines is a sequence of them. A function that drops its lock half way is
  split where it does: \<open>CreateWorkspace\<close> into its lookup, its settling after the slow
  initialisation and its deferred epilogue; a detach path into its section and the \<^verbatim>\<open>teardown\<close> that
  follows (\<open>bk_teardowns\<close> are the calls still to run).

  \<^verbatim>\<open>*Workspace\<close> and \<^verbatim>\<open>*clientState\<close> are addresses into two heaps, because the code compares and
  shares them by identity. A \<^verbatim>\<open>time.Timer\<close> is an identifier in \<open>bk_timers\<close> until its callback has
  run; once it has fired (\<open>tm_fired\<close>), \<^verbatim>\<open>Stop\<close> comes too late and the callback still runs.

  \<^verbatim>\<open>uuid.Parse\<close> and path resolution are parameters; the identifier \<^verbatim>\<open>uuid.New\<close> draws is an argument.
  \<open>bk_ws_shutdowns\<close> and \<open>bk_server_shutdowns\<close> record the calls of the two shutdown hooks,
  \<open>bk_used\<close> the identifiers drawn; no operation reads them.
\<close>

datatype backend_error =
    ErrWorkspaceNotFound | ErrPathRequired | ErrInvalidClientID | ErrClientNotAttached
  | ErrServerShuttingDown | ErrClientRetired | ErrChannelOptInMismatch | ErrResolvePath

record client_state =
  cl_streams :: nat
  cl_hold :: "nat option"
  cl_session :: string
  cl_released :: bool

record workspace =
  wk_id :: string
  wk_path :: string
  wk_key :: string
  wk_channels :: "string list"
  wk_clients :: "(string, nat) gomap"

datatype timer_target = HoldExpiry nat string nat | IdleShutdown

record timer =
  tm_target :: timer_target
  tm_fired :: bool

record create_args =
  ca_path :: string
  ca_client :: string
  ca_channels :: "string list"

record create_task =
  ct_args :: create_args
  ct_key :: string
  ct_settled :: bool

record backend =
  bk_workspaces :: "(string, nat) smap"
  bk_index :: "(string, string) gomap"
  bk_pending :: int
  bk_shutdown_timer :: "nat option"
  bk_closing :: bool
  bk_retired :: "(string, unit) gomap"
  bk_has_shutdown :: bool
  bk_linger :: int
  bk_detach_grace :: int
  bk_ws :: "nat \<Rightarrow> workspace"
  bk_next_ws :: nat
  bk_cs :: "nat \<Rightarrow> client_state"
  bk_next_cs :: nat
  bk_timers :: "(nat, timer) gomap"
  bk_next_timer :: nat
  bk_tasks :: "(nat, create_task) gomap"
  bk_next_task :: nat
  bk_teardowns :: "nat list"
  bk_ws_shutdowns :: "nat list"
  bk_server_shutdowns :: nat
  bk_used :: "string list"

definition blank_workspace :: workspace where
  "blank_workspace = \<lparr>wk_id = [], wk_path = [], wk_key = [], wk_channels = [], wk_clients = []\<rparr>"

definition blank_client :: client_state where
  "blank_client = \<lparr>cl_streams = 0, cl_hold = None, cl_session = [], cl_released = False\<rparr>"

definition NewBackend :: "bool \<Rightarrow> int \<Rightarrow> int \<Rightarrow> backend" where
  "NewBackend hasShutdown linger grace =
     \<lparr>bk_workspaces = NewMap, bk_index = [], bk_pending = 0, bk_shutdown_timer = None,
      bk_closing = False, bk_retired = [], bk_has_shutdown = hasShutdown, bk_linger = linger,
      bk_detach_grace = grace, bk_ws = (\<lambda>_. blank_workspace), bk_next_ws = 0,
      bk_cs = (\<lambda>_. blank_client), bk_next_cs = 0, bk_timers = [], bk_next_timer = 0,
      bk_tasks = [], bk_next_task = 0, bk_teardowns = [], bk_ws_shutdowns = [],
      bk_server_shutdowns = 0, bk_used = []\<rparr>"

text \<open>
  \<^verbatim>\<open>durationFromEnv\<close>: the value of the variable, \<^verbatim>\<open>strconv.Atoi\<close> as an argument, and the default;
  a duration is a number of nanoseconds.
\<close>

definition durationFromEnv :: "(string \<Rightarrow> int option) \<Rightarrow> string \<Rightarrow> int \<Rightarrow> int" where
  "durationFromEnv atoi v d =
     (if v \<noteq> [] then
        (case atoi v of Some secs \<Rightarrow> if secs \<ge> 0 then secs * 1000000000 else d | None \<Rightarrow> d)
      else d)"

definition DefaultIdleShutdownDelay :: int where
  "DefaultIdleShutdownDelay = 60 * 1000000000"

definition DefaultDetachGrace :: int where
  "DefaultDetachGrace = 10 * 1000000000"

definition idleShutdownDelayFromEnv :: "(string \<Rightarrow> int option) \<Rightarrow> string \<Rightarrow> int" where
  "idleShutdownDelayFromEnv atoi v = durationFromEnv atoi v DefaultIdleShutdownDelay"

fun stringSlicesEqual :: "string list \<Rightarrow> string list \<Rightarrow> bool" where
  "stringSlicesEqual [] [] = True"
| "stringSlicesEqual (x # xs) (y # ys) = (x = y \<and> stringSlicesEqual xs ys)"
| "stringSlicesEqual _ _ = False"

lemma stringSlicesEqual_iff [simp]: "stringSlicesEqual xs ys \<longleftrightarrow> xs = ys"
  by (induction xs ys rule: stringSlicesEqual.induct) auto

definition validateClientID :: "(string \<Rightarrow> bool) \<Rightarrow> string \<Rightarrow> backend_error + string" where
  "validateClientID uuidOk i =
     (if i = [] then Inl ErrInvalidClientID
      else if \<not> uuidOk i then Inl ErrInvalidClientID else Inr i)"

definition admitLocked :: "backend \<Rightarrow> string \<Rightarrow> backend_error option" where
  "admitLocked b c =
     (if bk_closing b then Some ErrServerShuttingDown
      else if map_of (bk_retired b) c \<noteq> None then Some ErrClientRetired else None)"

definition GetWorkspace :: "backend \<Rightarrow> string \<Rightarrow> backend_error + nat" where
  "GetWorkspace b i = (case Map_Get (bk_workspaces b) i of None \<Rightarrow> Inl ErrWorkspaceNotFound | Some w \<Rightarrow> Inr w)"

definition ListWorkspaces :: "backend \<Rightarrow> workspace list" where
  "ListWorkspaces b = map (\<lambda>(i, w). bk_ws b w) (Map_Copy (bk_workspaces b))"

subsection \<open>Timers\<close>

definition AfterFunc :: "timer_target \<Rightarrow> backend \<Rightarrow> nat \<times> backend" where
  "AfterFunc g b =
     (bk_next_timer b,
      b\<lparr>bk_timers := AList.update (bk_next_timer b) \<lparr>tm_target = g, tm_fired = False\<rparr> (bk_timers b),
        bk_next_timer := Suc (bk_next_timer b)\<rparr>)"

definition Timer_Stop :: "nat \<Rightarrow> backend \<Rightarrow> backend" where
  "Timer_Stop t b =
     (case map_of (bk_timers b) t of
        Some tm \<Rightarrow> if tm_fired tm then b else b\<lparr>bk_timers := AList.delete t (bk_timers b)\<rparr>
      | None \<Rightarrow> b)"

definition Timer_Fire :: "nat \<Rightarrow> backend \<Rightarrow> backend option" where
  "Timer_Fire t b =
     (case map_of (bk_timers b) t of
        Some tm \<Rightarrow>
          if tm_fired tm then None
          else Some (b\<lparr>bk_timers := AList.update t (tm\<lparr>tm_fired := True\<rparr>) (bk_timers b)\<rparr>)
      | None \<Rightarrow> None)"

definition stop_hold :: "nat option \<Rightarrow> backend \<Rightarrow> backend" where
  "stop_hold h b = (case h of Some t \<Rightarrow> Timer_Stop t b | None \<Rightarrow> b)"

subsection \<open>Heap access\<close>

definition put_client :: "nat \<Rightarrow> string \<Rightarrow> nat \<Rightarrow> backend \<Rightarrow> backend" where
  "put_client w c p b =
     b\<lparr>bk_ws := (bk_ws b)(w := (bk_ws b w)\<lparr>wk_clients := AList.update c p (wk_clients (bk_ws b w))\<rparr>)\<rparr>"

definition del_client :: "nat \<Rightarrow> string \<Rightarrow> backend \<Rightarrow> backend" where
  "del_client w c b =
     b\<lparr>bk_ws := (bk_ws b)(w := (bk_ws b w)\<lparr>wk_clients := AList.delete c (wk_clients (bk_ws b w))\<rparr>)\<rparr>"

definition put_cs :: "nat \<Rightarrow> client_state \<Rightarrow> backend \<Rightarrow> backend" where
  "put_cs p cs b = b\<lparr>bk_cs := (bk_cs b)(p := cs)\<rparr>"

definition alloc_cs :: "client_state \<Rightarrow> backend \<Rightarrow> nat \<times> backend" where
  "alloc_cs cs b = (bk_next_cs b, b\<lparr>bk_cs := (bk_cs b)(bk_next_cs b := cs), bk_next_cs := Suc (bk_next_cs b)\<rparr>)"

definition client_at :: "backend \<Rightarrow> nat \<Rightarrow> string \<Rightarrow> nat option" where
  "client_at b w c = map_of (wk_clients (bk_ws b w)) c"

text \<open>The tail of every detach path: \<^verbatim>\<open>teardown\<close> is called when the last claim went away.\<close>

definition teardown_if_empty :: "nat \<Rightarrow> backend \<Rightarrow> backend" where
  "teardown_if_empty w b =
     (if wk_clients (bk_ws b w) = [] then b\<lparr>bk_teardowns := bk_teardowns b @ [w]\<rparr> else b)"

subsection \<open>Server shutdown\<close>

definition scheduleShutdownIfIdleLocked :: "backend \<Rightarrow> bool \<times> backend" where
  "scheduleShutdownIfIdleLocked b =
     (if \<not> bk_has_shutdown b then (False, b)
      else if Map_Len (bk_workspaces b) \<noteq> 0 \<or> bk_pending b \<noteq> 0 then (False, b)
      else if bk_linger b \<le> 0 then (True, b\<lparr>bk_closing := True\<rparr>)
      else if bk_shutdown_timer b = None then
        (let (t, b') = AfterFunc IdleShutdown b in (False, b'\<lparr>bk_shutdown_timer := Some t\<rparr>))
      else (False, b))"

definition cancelShutdownLocked :: "backend \<Rightarrow> backend" where
  "cancelShutdownLocked b =
     (case bk_shutdown_timer b of
        Some t \<Rightarrow> (Timer_Stop t b)\<lparr>bk_shutdown_timer := None\<rparr>
      | None \<Rightarrow> b)"

definition run_shutdown :: "bool \<Rightarrow> backend \<Rightarrow> backend" where
  "run_shutdown now b = (if now then b\<lparr>bk_server_shutdowns := Suc (bk_server_shutdowns b)\<rparr> else b)"

definition backend_idle :: "backend \<Rightarrow> bool" where
  "backend_idle b \<longleftrightarrow> Map_Len (bk_workspaces b) = 0 \<and> bk_pending b = 0"

definition maybeShutdown :: "backend \<Rightarrow> backend" where
  "maybeShutdown b =
     (let b1 = b\<lparr>bk_shutdown_timer := None\<rparr>;
          idle = backend_idle b1;
          b2 = (if idle then b1\<lparr>bk_closing := True\<rparr> else b1)
      in run_shutdown (idle \<and> bk_has_shutdown b) b2)"

definition ShutdownIfIdle :: "backend \<Rightarrow> bool \<times> backend" where
  "ShutdownIfIdle b =
     (let idle = backend_idle b;
          b1 = (if idle then b\<lparr>bk_closing := True\<rparr> else b)
      in if \<not> idle then (False, b1) else (True, run_shutdown (bk_has_shutdown b) b1))"

subsection \<open>Claims\<close>

definition newHeldClient :: "nat \<Rightarrow> string \<Rightarrow> string \<Rightarrow> backend \<Rightarrow> nat \<times> backend" where
  "newHeldClient w c sid b =
     (let (p, b1) = alloc_cs (blank_client\<lparr>cl_session := sid\<rparr>) b;
          (t, b2) = AfterFunc (HoldExpiry w c p) b1
      in (p, put_cs p ((bk_cs b2 p)\<lparr>cl_hold := Some t\<rparr>) b2))"

definition registerClient :: "nat \<Rightarrow> string \<Rightarrow> backend \<Rightarrow> backend" where
  "registerClient w c b =
     (case client_at b w c of
        Some old \<Rightarrow>
          (let b1 = put_cs old ((bk_cs b old)\<lparr>cl_released := False\<rparr>) b in
           case cl_hold (bk_cs b1 old) of
             None \<Rightarrow> b1
           | Some t \<Rightarrow>
               (let b2 = Timer_Stop t b1;
                    (p, b3) = newHeldClient w c (cl_session (bk_cs b2 old)) b2
                in put_client w c p b3))
      | None \<Rightarrow> (let (p, b1) = newHeldClient w c [] b in put_client w c p b1))"

text \<open>\<^verbatim>\<open>expireHold\<close>, run by the callback of a fired timer \<open>t\<close> for the state \<open>p\<close> it was armed with.\<close>

definition expireHold :: "nat \<Rightarrow> string \<Rightarrow> nat \<Rightarrow> backend \<Rightarrow> backend" where
  "expireHold w c p b =
     (case client_at b w c of
        None \<Rightarrow> b
      | Some q \<Rightarrow>
          if q \<noteq> p \<or> cl_hold (bk_cs b q) = None \<or> cl_streams (bk_cs b q) > 0 then b
          else
            (let b1 = put_cs q ((bk_cs b q)\<lparr>cl_hold := None\<rparr>) b;
                 b2 = del_client w c b1
             in teardown_if_empty w b2))"

definition Timer_run :: "nat \<Rightarrow> backend \<Rightarrow> backend option" where
  "Timer_run t b =
     (case map_of (bk_timers b) t of
        Some tm \<Rightarrow>
          if \<not> tm_fired tm then None
          else
            (let b1 = b\<lparr>bk_timers := AList.delete t (bk_timers b)\<rparr> in
             Some (case tm_target tm of
                     HoldExpiry w c p \<Rightarrow> expireHold w c p b1
                   | IdleShutdown \<Rightarrow> maybeShutdown b1))
      | None \<Rightarrow> None)"

definition AttachClient :: "(string \<Rightarrow> bool) \<Rightarrow> string \<Rightarrow> string \<Rightarrow> backend \<Rightarrow> backend_error option \<times> backend" where
  "AttachClient uuidOk wid c b =
     (case validateClientID uuidOk c of
        Inl e \<Rightarrow> (Some e, b)
      | Inr _ \<Rightarrow>
          (case Map_Get (bk_workspaces b) wid of
             None \<Rightarrow> (Some ErrWorkspaceNotFound, b)
           | Some w \<Rightarrow>
               (case client_at b w c of
                  None \<Rightarrow>
                    (let (p, b1) = alloc_cs (blank_client\<lparr>cl_streams := 1\<rparr>) b in (None, put_client w c p b1))
                | Some p \<Rightarrow>
                    (let b1 = stop_hold (cl_hold (bk_cs b p)) b;
                         cs = bk_cs b1 p
                     in (None, put_cs p (cs\<lparr>cl_hold := None, cl_streams := Suc (cl_streams cs)\<rparr>) b1)))))"

definition detachStream :: "nat \<Rightarrow> string \<Rightarrow> backend \<Rightarrow> backend" where
  "detachStream w c b =
     (case client_at b w c of
        None \<Rightarrow> b
      | Some p \<Rightarrow>
          (let b1 = put_cs p ((bk_cs b p)\<lparr>cl_streams := cl_streams (bk_cs b p) - 1\<rparr>) b;
               cs = bk_cs b1 p
           in if cl_streams cs = 0 \<and> cl_hold cs = None then
                (if bk_detach_grace b > 0 \<and> \<not> cl_released cs then
                   (let (t, b2) = AfterFunc (HoldExpiry w c p) b1
                    in put_cs p ((bk_cs b2 p)\<lparr>cl_hold := Some t\<rparr>) b2)
                 else teardown_if_empty w (del_client w c b1))
              else b1))"

definition DetachClient :: "string \<Rightarrow> string \<Rightarrow> backend \<Rightarrow> backend" where
  "DetachClient wid c b =
     (case Map_Get (bk_workspaces b) wid of None \<Rightarrow> b | Some w \<Rightarrow> detachStream w c b)"

definition releaseHoldLocked :: "nat \<Rightarrow> string \<Rightarrow> backend \<Rightarrow> backend" where
  "releaseHoldLocked w c b =
     (case client_at b w c of
        None \<Rightarrow> b
      | Some p \<Rightarrow>
          (let b1 = stop_hold (cl_hold (bk_cs b p)) b;
               b2 = put_cs p ((bk_cs b1 p)\<lparr>cl_hold := None\<rparr>) b1
           in if cl_streams (bk_cs b2 p) = 0 then teardown_if_empty w (del_client w c b2)
              else put_cs p ((bk_cs b2 p)\<lparr>cl_released := True\<rparr>) b2))"

definition releaseHold :: "(string \<Rightarrow> bool) \<Rightarrow> string \<Rightarrow> string \<Rightarrow> backend \<Rightarrow> backend_error option \<times> backend" where
  "releaseHold uuidOk wid c b =
     (case validateClientID uuidOk c of
        Inl e \<Rightarrow> (Some e, b)
      | Inr _ \<Rightarrow>
          (case Map_Get (bk_workspaces b) wid of
             None \<Rightarrow> (None, b)
           | Some w \<Rightarrow> (None, releaseHoldLocked w c b)))"

definition DeleteWorkspace :: "(string \<Rightarrow> bool) \<Rightarrow> string \<Rightarrow> string \<Rightarrow> backend \<Rightarrow> backend_error option \<times> backend" where
  "DeleteWorkspace uuidOk wid c b = releaseHold uuidOk wid c b"

text \<open>
  \<^verbatim>\<open>RetireClient\<close>: one pass over the workspaces under \<^verbatim>\<open>b.mu\<close>; the teardowns run afterwards.
\<close>

definition retire_one :: "string \<Rightarrow> nat \<Rightarrow> backend \<Rightarrow> backend" where
  "retire_one c w b =
     (case client_at b w c of
        None \<Rightarrow> b
      | Some p \<Rightarrow> teardown_if_empty w (del_client w c (stop_hold (cl_hold (bk_cs b p)) b)))"

definition RetireClient :: "(string \<Rightarrow> bool) \<Rightarrow> string \<Rightarrow> backend \<Rightarrow> backend_error option \<times> backend" where
  "RetireClient uuidOk c b =
     (case validateClientID uuidOk c of
        Inl e \<Rightarrow> (Some e, b)
      | Inr _ \<Rightarrow>
          (None, fold (\<lambda>(i, w). retire_one c w) (Map_Copy (bk_workspaces b))
                   (b\<lparr>bk_retired := AList.update c () (bk_retired b)\<rparr>)))"

text \<open>\<^verbatim>\<open>teardown\<close>, one of the calls recorded in \<open>bk_teardowns\<close>.\<close>

definition teardown :: "nat \<Rightarrow> backend \<Rightarrow> backend" where
  "teardown w b =
     (let ws = bk_ws b w in
      if wk_clients ws \<noteq> [] then b
      else
        (let b1 = (if map_of (bk_index b) (wk_key ws) = Some (wk_id ws)
                   then b\<lparr>bk_index := AList.delete (wk_key ws) (bk_index b)\<rparr> else b);
             b2 = b1\<lparr>bk_workspaces := Map_Del (bk_workspaces b1) (wk_id ws)\<rparr>;
             (now, b3) = scheduleShutdownIfIdleLocked b2
         in run_shutdown now (b3\<lparr>bk_ws_shutdowns := bk_ws_shutdowns b3 @ [w]\<rparr>)))"

definition teardown_run :: "nat \<Rightarrow> backend \<Rightarrow> backend option" where
  "teardown_run w b =
     (if w \<in> set (bk_teardowns b)
      then Some (teardown w (b\<lparr>bk_teardowns := remove1 w (bk_teardowns b)\<rparr>)) else None)"

subsection \<open>Creating a workspace\<close>

datatype created = CreatedShared nat | CreatePending nat | CreateFailed backend_error

definition CreateWorkspace_begin ::
    "(string \<Rightarrow> bool) \<Rightarrow> (string \<Rightarrow> string option) \<Rightarrow> create_args \<Rightarrow> backend \<Rightarrow> created \<times> backend" where
  "CreateWorkspace_begin uuidOk resolvePath args b =
     (if ca_path args = [] then (CreateFailed ErrPathRequired, b)
      else case validateClientID uuidOk (ca_client args) of
        Inl e \<Rightarrow> (CreateFailed e, b)
      | Inr c \<Rightarrow>
          (case resolvePath (ca_path args) of
             None \<Rightarrow> (CreateFailed ErrResolvePath, b)
           | Some key \<Rightarrow>
               (case admitLocked b c of
                  Some e \<Rightarrow> (CreateFailed e, b)
                | None \<Rightarrow>
                    (let b1 = cancelShutdownLocked b;
                         commit = (\<lambda>b. (CreatePending (bk_next_task b),
                           b\<lparr>bk_pending := bk_pending b + 1,
                             bk_tasks := AList.update (bk_next_task b)
                               \<lparr>ct_args = args, ct_key = key, ct_settled = False\<rparr> (bk_tasks b),
                             bk_next_task := Suc (bk_next_task b)\<rparr>))
                     in case map_of (bk_index b1) key of
                          None \<Rightarrow> commit b1
                        | Some existing \<Rightarrow>
                            (case Map_Get (bk_workspaces b1) existing of
                               Some w \<Rightarrow>
                                 if \<not> stringSlicesEqual (wk_channels (bk_ws b1 w)) (ca_channels args)
                                 then (CreateFailed ErrChannelOptInMismatch, b1)
                                 else (CreatedShared w, registerClient w c b1)
                             | None \<Rightarrow> commit (b1\<lparr>bk_index := AList.delete key (bk_index b1)\<rparr>))))))"

text \<open>
  The second section of \<^verbatim>\<open>CreateWorkspace\<close>: the slow initialisation built a workspace with the fresh
  identifier \<open>uuid\<close>; admission and the index are checked again, and a workspace that lost the race
  is shut down without ever being registered.
\<close>

definition CreateWorkspace_settle :: "string \<Rightarrow> nat \<Rightarrow> backend \<Rightarrow> (created \<times> backend) option" where
  "CreateWorkspace_settle uuid k b =
     (case map_of (bk_tasks b) k of
        None \<Rightarrow> None
      | Some t \<Rightarrow>
          if ct_settled t then None
          else
            (let args = ct_args t; key = ct_key t; c = ca_client args;
                 w = bk_next_ws b;
                 ws = \<lparr>wk_id = uuid, wk_path = ca_path args, wk_key = key,
                       wk_channels = ca_channels args, wk_clients = []\<rparr>;
                 b1 = b\<lparr>bk_ws := (bk_ws b)(w := ws), bk_next_ws := Suc w, bk_used := bk_used b @ [uuid],
                        bk_tasks := AList.update k (t\<lparr>ct_settled := True\<rparr>) (bk_tasks b)\<rparr>;
                 discard = (\<lambda>b. b\<lparr>bk_ws_shutdowns := bk_ws_shutdowns b @ [w]\<rparr>);
                 install = (\<lambda>b. (CreatedShared w,
                   registerClient w c
                     (b\<lparr>bk_workspaces := Map_Set (bk_workspaces b) uuid w,
                        bk_index := AList.update key uuid (bk_index b)\<rparr>)))
             in Some
               (case admitLocked b1 c of
                  Some e \<Rightarrow> (CreateFailed e, discard b1)
                | None \<Rightarrow>
                    (case map_of (bk_index b1) key of
                       None \<Rightarrow> install b1
                     | Some existing \<Rightarrow>
                         (case Map_Get (bk_workspaces b1) existing of
                            Some v \<Rightarrow>
                              if \<not> stringSlicesEqual (wk_channels (bk_ws b1 v)) (ca_channels args)
                              then (CreateFailed ErrChannelOptInMismatch, discard b1)
                              else (CreatedShared v, discard (registerClient v c b1))
                          | None \<Rightarrow> install (b1\<lparr>bk_index := AList.delete key (bk_index b1)\<rparr>))))))"

text \<open>
  The deferred epilogue, run when the create returns, whether it settled or its initialisation
  failed.
\<close>

definition CreateWorkspace_return :: "nat \<Rightarrow> backend \<Rightarrow> backend option" where
  "CreateWorkspace_return k b =
     (case map_of (bk_tasks b) k of
        None \<Rightarrow> None
      | Some _ \<Rightarrow>
          (let b1 = b\<lparr>bk_tasks := AList.delete k (bk_tasks b), bk_pending := bk_pending b - 1\<rparr>;
               (now, b2) = scheduleShutdownIfIdleLocked b1
           in Some (run_shutdown now b2)))"

subsection \<open>Presence\<close>

definition SetCurrentSession ::
    "(string \<Rightarrow> bool) \<Rightarrow> string \<Rightarrow> string \<Rightarrow> string \<Rightarrow> backend \<Rightarrow> backend_error option \<times> backend" where
  "SetCurrentSession uuidOk wid c sid b =
     (case validateClientID uuidOk c of
        Inl e \<Rightarrow> (Some e, b)
      | Inr _ \<Rightarrow>
          (case Map_Get (bk_workspaces b) wid of
             None \<Rightarrow> (Some ErrWorkspaceNotFound, b)
           | Some w \<Rightarrow>
               (case client_at b w c of
                  None \<Rightarrow> (Some ErrClientNotAttached, b)
                | Some p \<Rightarrow>
                    if cl_streams (bk_cs b p) = 0 then (Some ErrClientNotAttached, b)
                    else (None, put_cs p ((bk_cs b p)\<lparr>cl_session := sid\<rparr>) b))))"

definition AttachedClientsForSession :: "backend \<Rightarrow> nat \<Rightarrow> string \<Rightarrow> nat" where
  "AttachedClientsForSession b w sid =
     length (filter (\<lambda>(c, p). cl_streams (bk_cs b p) > 0 \<and> cl_session (bk_cs b p) = sid)
               (wk_clients (bk_ws b w)))"

definition AttachedClients :: "backend \<Rightarrow> string \<Rightarrow> string \<Rightarrow> backend_error + nat" where
  "AttachedClients b wid sid =
     (case Map_Get (bk_workspaces b) wid of
        None \<Rightarrow> Inl ErrWorkspaceNotFound
      | Some w \<Rightarrow> Inr (AttachedClientsForSession b w sid))"

end
