(* ===== verification/Backend_Inv.thy ===== *)
theory Backend_Inv
  imports Backend
begin

section \<open>The invariants of the workspace lifecycle\<close>

text \<open>
  The sections of \<open>Backend\<close> as one step relation, any interleaving of clients, timers, creates and
  teardowns, and what every reachable backend satisfies. The invariant is split by what its parts
  speak of: the claims (\<open>claims_but\<close>), the table and its path index (\<open>table_ok\<close>), the creates in
  flight (\<open>tasks_ok\<close>), the workspaces without a claim (\<open>orphans_ok\<close>) and the idle shutdown
  (\<open>shutdown_ok\<close>). \<open>same_table\<close> says that an operation on claims leaves the table alone, so the
  parts about the table pass over all of them at once.
\<close>

subsection \<open>Claims\<close>

text \<open>
  A claim is held either by streams or by a timer whose callback releases it, never by both.
\<close>

definition claim_ok :: "backend \<Rightarrow> nat \<Rightarrow> string \<Rightarrow> nat \<Rightarrow> bool" where
  "claim_ok b w c p \<longleftrightarrow>
     (case cl_hold (bk_cs b p) of
        None \<Rightarrow> cl_streams (bk_cs b p) > 0
      | Some t \<Rightarrow> cl_streams (bk_cs b p) = 0 \<and>
          map_option tm_target (map_of (bk_timers b) t) = Some (HoldExpiry w c p))"

definition timers_ok :: "backend \<Rightarrow> bool" where
  "timers_ok b \<longleftrightarrow> gomap_ok (bk_timers b) \<and> (\<forall>t. map_of (bk_timers b) t \<noteq> None \<longrightarrow> t < bk_next_timer b)"

definition claims_but :: "(nat \<times> string) set \<Rightarrow> backend \<Rightarrow> bool" where
  "claims_but X b \<longleftrightarrow> timers_ok b \<and> (\<forall>w. gomap_ok (wk_clients (bk_ws b w))) \<and>
     (\<forall>w c p. client_at b w c = Some p \<longrightarrow> p < bk_next_cs b \<and> w < bk_next_ws b \<and> ((w, c) \<notin> X \<longrightarrow> claim_ok b w c p)) \<and>
     (\<forall>w c v d p. client_at b w c = Some p \<longrightarrow> client_at b v d = Some p \<longrightarrow> w = v \<and> c = d)"

lemma claims_butI:
  assumes "timers_ok b" "\<And>w. gomap_ok (wk_clients (bk_ws b w))"
    "\<And>w c p. client_at b w c = Some p \<Longrightarrow> p < bk_next_cs b \<and> w < bk_next_ws b"
    "\<And>w c p. client_at b w c = Some p \<Longrightarrow> (w, c) \<notin> X \<Longrightarrow> claim_ok b w c p"
    "\<And>w c v d p. client_at b w c = Some p \<Longrightarrow> client_at b v d = Some p \<Longrightarrow> w = v \<and> c = d"
  shows "claims_but X b"
  using assms unfolding claims_but_def by blast

lemma claims_butD:
  assumes "claims_but X b"
  shows "timers_ok b" "gomap_ok (wk_clients (bk_ws b w))"
    "client_at b w c = Some p \<Longrightarrow> p < bk_next_cs b"
    "client_at b w c = Some p \<Longrightarrow> w < bk_next_ws b"
    "client_at b w c = Some p \<Longrightarrow> (w, c) \<notin> X \<Longrightarrow> claim_ok b w c p"
    "client_at b w c = Some p \<Longrightarrow> client_at b v d = Some p \<Longrightarrow> w = v \<and> c = d"
  using assms unfolding claims_but_def by blast+

lemma claims_but_mono: "claims_but X b \<Longrightarrow> X \<subseteq> Y \<Longrightarrow> claims_but Y b"
  unfolding claims_but_def by blast

lemma client_at_put [simp]:
  "client_at (put_client w c p b) v d = (if v = w \<and> d = c then Some p else client_at b v d)"
  by (simp add: client_at_def put_client_def gomap_simps)

lemma client_at_del [simp]:
  "client_at (del_client w c b) v d = (if v = w \<and> d = c then None else client_at b v d)"
  by (simp add: client_at_def del_client_def gomap_simps)

lemma client_at_frame [simp]:
  "client_at (put_cs p cs b) w c = client_at b w c"
  "client_at (Timer_Stop t b) w c = client_at b w c"
  "client_at (stop_hold h b) w c = client_at b w c"
  "client_at (teardown_if_empty w' b) w c = client_at b w c"
  "client_at (snd (AfterFunc g b)) w c = client_at b w c"
  "client_at (snd (alloc_cs s b)) w c = client_at b w c"
  by (simp_all add: client_at_def put_cs_def Timer_Stop_def stop_hold_def teardown_if_empty_def
      AfterFunc_def alloc_cs_def split: option.splits)

lemma put_client_fields [simp]:
  "bk_cs (put_client w c p b) = bk_cs b" "bk_next_cs (put_client w c p b) = bk_next_cs b"
  "bk_timers (put_client w c p b) = bk_timers b" "bk_next_timer (put_client w c p b) = bk_next_timer b"
  "bk_next_ws (put_client w c p b) = bk_next_ws b" "bk_teardowns (put_client w c p b) = bk_teardowns b"
  by (simp_all add: put_client_def)

lemma del_client_fields [simp]:
  "bk_cs (del_client w c b) = bk_cs b" "bk_next_cs (del_client w c b) = bk_next_cs b"
  "bk_timers (del_client w c b) = bk_timers b" "bk_next_timer (del_client w c b) = bk_next_timer b"
  "bk_next_ws (del_client w c b) = bk_next_ws b" "bk_teardowns (del_client w c b) = bk_teardowns b"
  by (simp_all add: del_client_def)

lemma put_cs_fields [simp]:
  "bk_cs (put_cs p cs b) = (bk_cs b)(p := cs)" "bk_next_cs (put_cs p cs b) = bk_next_cs b"
  "bk_timers (put_cs p cs b) = bk_timers b" "bk_next_timer (put_cs p cs b) = bk_next_timer b"
  "bk_ws (put_cs p cs b) = bk_ws b"
  "bk_next_ws (put_cs p cs b) = bk_next_ws b" "bk_teardowns (put_cs p cs b) = bk_teardowns b"
  by (simp_all add: put_cs_def)

lemma put_client_ok: "gomap_ok (wk_clients (bk_ws b v)) \<Longrightarrow> gomap_ok (wk_clients (bk_ws (put_client w c p b) v))"
  by (cases "v = w") (simp_all add: put_client_def)

lemma del_client_ok: "gomap_ok (wk_clients (bk_ws b v)) \<Longrightarrow> gomap_ok (wk_clients (bk_ws (del_client w c b) v))"
  by (cases "v = w") (simp_all add: del_client_def)

lemma timers_ok_fields [simp]:
  "timers_ok (put_client w c p b) = timers_ok b" "timers_ok (del_client w c b) = timers_ok b"
  "timers_ok (put_cs q cs b) = timers_ok b"
  by (simp_all add: timers_ok_def)

lemma timers_ok_fresh: "timers_ok b \<Longrightarrow> map_of (bk_timers b) (bk_next_timer b) = None"
  unfolding timers_ok_def by (metis less_irrefl)

text \<open>An edit of the state, the timers and the entry of one claim, the other claims untouched.\<close>

lemma claim_ok_other:
  assumes "claim_ok b w c p" and "bk_cs b' p = bk_cs b p"
    and "\<And>t. cl_hold (bk_cs b p) = Some t \<Longrightarrow> map_option tm_target (map_of (bk_timers b') t) = map_option tm_target (map_of (bk_timers b) t)"
  shows "claim_ok b' w c p"
  using assms by (simp add: claim_ok_def split: option.splits)

lemma put_cs_claims:
  assumes c: "claims_but X b" and p: "client_at b w c = Some p"
  shows "claims_but (insert (w, c) X) (put_cs p cs b)"
proof (rule claims_butI)
  fix v d q assume q: "client_at (put_cs p cs b) v d = Some q" and "(v, d) \<notin> insert (w, c) X"
  then have "q \<noteq> p" "claim_ok b v d q" using claims_butD [OF c] p by auto
  then show "claim_ok (put_cs p cs b) v d q" by (auto intro: claim_ok_other simp: put_cs_def)
qed (use claims_butD [OF c] in \<open>auto simp: put_cs_def timers_ok_def client_at_def\<close>)

lemma put_cs_fresh_claims:
  assumes c: "claims_but X b" and p: "\<And>w c. client_at b w c \<noteq> Some p"
  shows "claims_but X (put_cs p cs b)"
proof (rule claims_butI)
  fix v d q assume q: "client_at (put_cs p cs b) v d = Some q" and "(v, d) \<notin> X"
  then have "q \<noteq> p" "claim_ok b v d q" using claims_butD [OF c] p by auto
  then show "claim_ok (put_cs p cs b) v d q" by (auto intro: claim_ok_other simp: put_cs_def)
qed (use claims_butD [OF c] in \<open>auto simp: put_cs_def timers_ok_def client_at_def\<close>)

lemma Timer_Stop_fields [simp]:
  "bk_cs (Timer_Stop t b) = bk_cs b" "bk_next_cs (Timer_Stop t b) = bk_next_cs b"
  "bk_ws (Timer_Stop t b) = bk_ws b" "bk_next_ws (Timer_Stop t b) = bk_next_ws b"
  "bk_next_timer (Timer_Stop t b) = bk_next_timer b" "bk_teardowns (Timer_Stop t b) = bk_teardowns b"
  by (simp_all add: Timer_Stop_def split: option.splits)

lemma Timer_Stop_get:
  "map_of (bk_timers (Timer_Stop t b)) u =
     (if u = t \<and> (\<exists>tm. map_of (bk_timers b) t = Some tm \<and> \<not> tm_fired tm) then None else map_of (bk_timers b) u)"
  by (simp add: Timer_Stop_def gomap_simps split: option.splits)

lemma Timer_Stop_timers_ok: "timers_ok b \<Longrightarrow> timers_ok (Timer_Stop t b)"
  by (auto simp: timers_ok_def Timer_Stop_get) (auto simp: Timer_Stop_def split: option.splits)

lemma Timer_Stop_claims:
  assumes c: "claims_but X b" and p: "client_at b w c = Some p" and t: "cl_hold (bk_cs b p) = Some t" "(w, c) \<notin> X"
  shows "claims_but (insert (w, c) X) (Timer_Stop t b)"
proof (rule claims_butI)
  fix v d q assume q: "client_at (Timer_Stop t b) v d = Some q" and "(v, d) \<notin> insert (w, c) X"
  then have ok: "claim_ok b v d q" "(v, d) \<noteq> (w, c)" and okp: "claim_ok b w c p"
    using claims_butD [OF c] p t by auto
  have "u \<noteq> t" if "cl_hold (bk_cs b q) = Some u" for u
    using ok okp t that by (auto simp: claim_ok_def)
  then show "claim_ok (Timer_Stop t b) v d q"
    by (intro claim_ok_other [OF ok(1)]) (auto simp: Timer_Stop_get)
qed (use claims_butD [OF c] in \<open>auto intro: Timer_Stop_timers_ok\<close>)

lemma AfterFunc_claims:
  assumes c: "claims_but X b"
  shows "claims_but X (snd (AfterFunc g b))"
proof (rule claims_butI)
  have tk: "timers_ok b" using claims_butD [OF c] by blast
  then show "timers_ok (snd (AfterFunc g b))"
    by (auto simp: timers_ok_def AfterFunc_def gomap_simps less_Suc_eq)
  fix v d q assume q: "client_at (snd (AfterFunc g b)) v d = Some q" and "(v, d) \<notin> X"
  then have ok: "claim_ok b v d q" using claims_butD [OF c] by auto
  note timers_ok_fresh [OF tk]
  then show "claim_ok (snd (AfterFunc g b)) v d q" using ok
    by (auto simp: claim_ok_def AfterFunc_def gomap_simps split: option.splits)
qed (use claims_butD [OF c] in \<open>auto simp: AfterFunc_def client_at_def\<close>)

lemma alloc_cs_claims:
  assumes c: "claims_but X b"
  shows "claims_but X (snd (alloc_cs s b))"
proof (rule claims_butI)
  fix v d q assume q: "client_at (snd (alloc_cs s b)) v d = Some q" and "(v, d) \<notin> X"
  then have ok: "claim_ok b v d q" "q < bk_next_cs b" using claims_butD [OF c] by auto
  then show "claim_ok (snd (alloc_cs s b)) v d q"
    by (intro claim_ok_other [OF ok(1)]) (auto simp: alloc_cs_def)
next
  fix v d q assume "client_at (snd (alloc_cs s b)) v d = Some q"
  then show "q < bk_next_cs (snd (alloc_cs s b)) \<and> v < bk_next_ws (snd (alloc_cs s b))"
    using claims_butD(3,4) [OF c, of v d q] by (auto simp: alloc_cs_def client_at_def)
qed (use claims_butD [OF c] in \<open>auto simp: alloc_cs_def timers_ok_def client_at_def\<close>)

lemma put_client_claims:
  assumes c: "claims_but (insert (w, c) X) b" and p: "p < bk_next_cs b" "w < bk_next_ws b" "claim_ok b w c p"
    and fresh: "\<And>v d. (v, d) \<noteq> (w, c) \<Longrightarrow> client_at b v d \<noteq> Some p"
  shows "claims_but X (put_client w c p b)"
proof (rule claims_butI)
  fix v d q assume q: "client_at (put_client w c p b) v d = Some q" and x: "(v, d) \<notin> X"
  have "claim_ok b v d q"
  proof (cases "(v, d) = (w, c)")
    case True
    then show ?thesis using q p by simp
  next
    case False
    then have "client_at b v d = Some q" using q by (auto split: if_splits)
    then show ?thesis using claims_butD(5) [OF c] x False by blast
  qed
  then show "claim_ok (put_client w c p b) v d q"
    by (rule claim_ok_other) (simp_all add: put_client_def)
next
  fix v d u e q
  assume "client_at (put_client w c p b) v d = Some q" "client_at (put_client w c p b) u e = Some q"
  then show "v = u \<and> d = e" using claims_butD(6) [OF c] fresh by (auto split: if_splits)
next
  fix v d q assume "client_at (put_client w c p b) v d = Some q"
  then show "q < bk_next_cs (put_client w c p b) \<and> v < bk_next_ws (put_client w c p b)"
    using claims_butD(3,4) [OF c] p by (auto split: if_splits)
qed (use claims_butD(1,2) [OF c] in \<open>auto intro: put_client_ok\<close>)

lemma del_client_claims:
  assumes c: "claims_but (insert (w, c) X) b"
  shows "claims_but X (del_client w c b)"
proof (rule claims_butI)
  fix v d q assume q: "client_at (del_client w c b) v d = Some q" and "(v, d) \<notin> X"
  then have "claim_ok b v d q" using claims_butD(5) [OF c, of v d q] by (auto split: if_splits)
  then show "claim_ok (del_client w c b) v d q" by (rule claim_ok_other) (simp_all add: del_client_def)
next
  fix v d u e q
  assume "client_at (del_client w c b) v d = Some q" "client_at (del_client w c b) u e = Some q"
  then show "v = u \<and> d = e" using claims_butD(6) [OF c] by (auto split: if_splits)
next
  fix v d q assume "client_at (del_client w c b) v d = Some q"
  then show "q < bk_next_cs (del_client w c b) \<and> v < bk_next_ws (del_client w c b)"
    using claims_butD(3,4) [OF c] by (auto split: if_splits)
qed (use claims_butD(1,2) [OF c] in \<open>auto intro: del_client_ok\<close>)

lemma claims_restore:
  assumes "claims_but (insert (w, c) X) b" "\<And>p. client_at b w c = Some p \<Longrightarrow> claim_ok b w c p"
  shows "claims_but X b"
  using assms unfolding claims_but_def by blast

text \<open>Edits of the other fields.\<close>

lemma claims_cong:
  assumes "claims_but X b" "bk_cs b' = bk_cs b" "bk_next_cs b' = bk_next_cs b" "bk_timers b' = bk_timers b"
    "bk_next_timer b' = bk_next_timer b" "bk_next_ws b \<le> bk_next_ws b'"
    "\<And>w. wk_clients (bk_ws b' w) = wk_clients (bk_ws b w)"
  shows "claims_but X b'"
proof -
  have at: "client_at b' = client_at b" using assms(7) by (intro ext) (simp add: client_at_def)
  have ok: "claim_ok b' = claim_ok b" by (intro ext) (simp only: claim_ok_def assms)
  have "timers_ok b'" using claims_butD(1) [OF assms(1)] assms by (simp add: timers_ok_def)
  moreover have "w < bk_next_ws b'" if "client_at b w c = Some p" for w c p
    using claims_butD(4) [OF assms(1) that] assms(6) by simp
  ultimately show ?thesis
    using claims_butD [OF assms(1)] assms(3,7) by (intro claims_butI) (auto simp: at ok)
qed

lemma teardown_if_empty_claims [simp]: "claims_but X (teardown_if_empty w b) = claims_but X b"
proof -
  define b' where "b' = teardown_if_empty w b"
  have "bk_cs b' = bk_cs b" "bk_next_cs b' = bk_next_cs b" "bk_timers b' = bk_timers b"
    "bk_next_timer b' = bk_next_timer b" "bk_next_ws b' = bk_next_ws b" "bk_ws b' = bk_ws b"
    by (auto simp: b'_def teardown_if_empty_def)
  then show ?thesis unfolding b'_def [symmetric] by (auto intro: claims_cong)
qed

subsection \<open>The operations on claims keep them\<close>

abbreviation claims_ok :: "backend \<Rightarrow> bool" where
  "claims_ok b \<equiv> claims_but {} b"

lemma newHeldClient_facts:
  assumes c: "claims_but X b" and n: "newHeldClient w c s b = (p, b')"
  shows "claims_but X b'" "claim_ok b' w c p" "client_at b' = client_at b" "p < bk_next_cs b'"
    "\<And>v d. client_at b v d \<noteq> Some p" "bk_next_ws b' = bk_next_ws b" "bk_ws b' = bk_ws b"
proof -
  define b1 where "b1 = snd (alloc_cs (blank_client\<lparr>cl_session := s\<rparr>) b)"
  define b2 where "b2 = snd (AfterFunc (HoldExpiry w c p) b1)"
  have p: "p = bk_next_cs b" and b': "b' = put_cs p ((bk_cs b2 p)\<lparr>cl_hold := Some (bk_next_timer b1)\<rparr>) b2"
    using n by (auto simp: newHeldClient_def Let_def b1_def b2_def alloc_cs_def AfterFunc_def)
  show fresh: "client_at b v d \<noteq> Some p" for v d
    using claims_butD(3) [OF c, of v d p] by (auto simp: p)
  have at: "client_at b2 = client_at b" by (intro ext) (simp add: b2_def b1_def)
  show "claims_but X b'" unfolding b'
    by (rule put_cs_fresh_claims) (simp_all add: b2_def b1_def AfterFunc_claims alloc_cs_claims c fresh)
  show "claim_ok b' w c p"
    by (simp add: b' claim_ok_def b2_def AfterFunc_def gomap_simps b1_def alloc_cs_def p blank_client_def)
  show "client_at b' = client_at b" by (intro ext) (simp add: b' at)
  show "p < bk_next_cs b'" by (simp add: b' b2_def AfterFunc_def b1_def alloc_cs_def p)
  show "bk_next_ws b' = bk_next_ws b" "bk_ws b' = bk_ws b"
    by (simp_all add: b' b2_def AfterFunc_def b1_def alloc_cs_def)
qed

lemma put_cs_same_claims:
  assumes c: "claims_ok b" and p: "client_at b w c = Some p"
    and eq: "cl_hold cs = cl_hold (bk_cs b p)" "cl_streams cs = cl_streams (bk_cs b p)"
  shows "claims_ok (put_cs p cs b)"
proof (rule claims_restore [OF put_cs_claims [OF c p]])
  fix q assume "client_at (put_cs p cs b) w c = Some q"
  then show "claim_ok (put_cs p cs b) w c q"
    using claims_butD(5) [OF c p] eq p by (simp add: claim_ok_def split: option.splits)
qed

lemma stop_hold_claims:
  assumes "claims_ok b" "client_at b w c = Some p"
  shows "claims_but {(w, c)} (stop_hold (cl_hold (bk_cs b p)) b)"
  using Timer_Stop_claims [OF assms] claims_but_mono [OF assms(1), of "{(w, c)}"]
  by (auto simp: stop_hold_def split: option.splits)

lemma put_cs_keep:
  assumes "claims_but {(w, c)} b" "client_at b w c = Some p"
  shows "claims_but {(w, c)} (put_cs p cs b)"
  using put_cs_claims [OF assms, of cs] by simp

lemma put_cs_done:
  assumes "claims_but {(w, c)} b" "client_at b w c = Some p" "claim_ok (put_cs p cs b) w c p"
  shows "claims_ok (put_cs p cs b)"
  using put_cs_keep [OF assms(1,2)] by (rule claims_restore) (use assms(2,3) in simp)

lemma claims_drop: "claims_ok b \<Longrightarrow> claims_but {(w, c)} b"
  using claims_but_mono [of "{}" b "{(w, c)}"] by blast

lemma registerClient_claims:
  assumes c: "claims_ok b" and w: "w < bk_next_ws b"
  shows "claims_ok (registerClient w c b)"
proof -
  have put: "claims_ok (put_client w c p b')"
    if "claims_but {(w, c)} b1" "newHeldClient w c s b1 = (p, b')" "bk_next_ws b1 = bk_next_ws b" for b1 s p b'
    using newHeldClient_facts [OF that(1,2)] that(3) w by (intro put_client_claims) auto
  show ?thesis
  proof (cases "client_at b w c")
    case None
    show ?thesis
      using put [OF claims_but_mono [OF c]] by (auto simp: registerClient_def None split: prod.splits)
  next
    case (Some old)
    define b1 where "b1 = put_cs old ((bk_cs b old)\<lparr>cl_released := False\<rparr>) b"
    have c1: "claims_ok b1" unfolding b1_def by (rule put_cs_same_claims [OF c Some]) simp_all
    have at: "client_at b1 w c = Some old" by (simp add: b1_def Some)
    show ?thesis
    proof (cases "cl_hold (bk_cs b1 old)")
      case None
      then show ?thesis using c1 by (simp add: registerClient_def Some b1_def [symmetric] Let_def)
    next
      case hold: (Some t)
      have "claims_but {(w, c)} (Timer_Stop t b1)" by (rule Timer_Stop_claims [OF c1 at hold]) simp
      then show ?thesis using put
        by (auto simp: registerClient_def Some b1_def [symmetric] Let_def hold split: prod.splits) (simp add: b1_def)
    qed
  qed
qed

lemma AttachClient_claims:
  assumes c: "claims_ok b" and tab: "\<And>w. Map_Get (bk_workspaces b) wid = Some w \<Longrightarrow> w < bk_next_ws b"
  shows "claims_ok (snd (AttachClient uuidOk wid c b))"
proof (cases "validateClientID uuidOk c")
  case (Inl e)
  then show ?thesis using c by (simp add: AttachClient_def)
next
  case (Inr x)
  show ?thesis
  proof (cases "Map_Get (bk_workspaces b) wid")
    case None
    then show ?thesis using c Inr by (simp add: AttachClient_def)
  next
    case w: (Some w)
    show ?thesis
    proof (cases "client_at b w c")
      case None
      define b1 where "b1 = snd (alloc_cs (blank_client\<lparr>cl_streams := 1\<rparr>) b)"
      define p where "p = bk_next_cs b"
      have "claims_but {(w, c)} b1" unfolding b1_def by (intro alloc_cs_claims claims_but_mono [OF c]) simp
      moreover have "claim_ok b1 w c p" "p < bk_next_cs b1" "w < bk_next_ws b1"
        using tab [OF w] by (simp_all add: b1_def p_def alloc_cs_def claim_ok_def blank_client_def)
      moreover have "client_at b1 v d \<noteq> Some p" for v d
        using claims_butD(3) [OF c, of v d p] by (auto simp: b1_def p_def)
      ultimately have "claims_ok (put_client w c p b1)" by (intro put_client_claims) auto
      then show ?thesis
        using Inr w None by (simp add: AttachClient_def Let_def b1_def p_def alloc_cs_def split: prod.splits)
    next
      case (Some p)
      define b1 where "b1 = stop_hold (cl_hold (bk_cs b p)) b"
      have c1: "claims_but {(w, c)} b1" unfolding b1_def by (rule stop_hold_claims [OF c Some])
      have at: "client_at b1 w c = Some p" by (simp add: b1_def Some)
      have "claims_ok (put_cs p cs b1)" if "cl_hold cs = None" "cl_streams cs > 0" for cs
        using that by (intro put_cs_done [OF c1 at]) (simp add: claim_ok_def)
      then show ?thesis
        using Inr w Some by (simp add: AttachClient_def Let_def b1_def [symmetric])
    qed
  qed
qed

lemma delete_last_claims:
  "claims_but {(w, c)} b \<Longrightarrow> claims_ok (teardown_if_empty w (del_client w c b))"
  by (simp add: del_client_claims)

lemma detachStream_eq:
  assumes "client_at b w c = Some p" and "cs = (bk_cs b p)\<lparr>cl_streams := cl_streams (bk_cs b p) - 1\<rparr>"
    and "b1 = put_cs p cs b" and "b2 = snd (AfterFunc (HoldExpiry w c p) b1)"
  shows "detachStream w c b =
     (if cl_streams cs = 0 \<and> cl_hold cs = None then
        if bk_detach_grace b > 0 \<and> \<not> cl_released cs then
          put_cs p ((bk_cs b2 p)\<lparr>cl_hold := Some (bk_next_timer b1)\<rparr>) b2
        else teardown_if_empty w (del_client w c b1)
      else b1)"
  using assms by (simp add: detachStream_def Let_def AfterFunc_def)

lemma detachStream_claims:
  assumes c: "claims_ok b"
  shows "claims_ok (detachStream w c b)"
proof (cases "client_at b w c")
  case None
  then show ?thesis using c by (simp add: detachStream_def)
next
  case (Some p)
  define cs where "cs = (bk_cs b p)\<lparr>cl_streams := cl_streams (bk_cs b p) - 1\<rparr>"
  define b1 where "b1 = put_cs p cs b"
  have c1: "claims_but {(w, c)} b1" unfolding b1_def by (rule put_cs_keep [OF claims_drop [OF c] Some])
  have at: "client_at b1 w c = Some p" by (simp add: b1_def Some)
  have csb: "bk_cs b1 p = cs" by (simp add: b1_def)
  note eq = detachStream_eq [OF Some cs_def b1_def refl]
  show ?thesis
  proof (cases "cl_streams cs = 0 \<and> cl_hold cs = None")
    case True
    have "claims_ok (put_cs p ((bk_cs (snd (AfterFunc (HoldExpiry w c p) b1)) p)\<lparr>cl_hold := Some (bk_next_timer b1)\<rparr>)
            (snd (AfterFunc (HoldExpiry w c p) b1)))"
    proof (rule put_cs_done)
      show "claims_but {(w, c)} (snd (AfterFunc (HoldExpiry w c p) b1))" by (rule AfterFunc_claims [OF c1])
      show "client_at (snd (AfterFunc (HoldExpiry w c p) b1)) w c = Some p" by (simp add: at)
      show "claim_ok (put_cs p ((bk_cs (snd (AfterFunc (HoldExpiry w c p) b1)) p)\<lparr>cl_hold := Some (bk_next_timer b1)\<rparr>)
            (snd (AfterFunc (HoldExpiry w c p) b1))) w c p"
        using True by (simp add: claim_ok_def AfterFunc_def gomap_simps csb)
    qed
    then show ?thesis using True delete_last_claims [OF c1] by (simp add: eq)
  next
    case False
    have "claim_ok b w c p" using claims_butD(5) [OF c Some] by simp
    then have "claim_ok b1 w c p"
      using False by (auto simp: claim_ok_def b1_def cs_def split: option.splits)
    then have "claims_ok b1" unfolding b1_def by (rule put_cs_done [OF claims_drop [OF c] Some])
    then show ?thesis using False by (auto simp add: eq)
  qed
qed

lemma releaseHoldLocked_claims:
  assumes c: "claims_ok b"
  shows "claims_ok (releaseHoldLocked w c b)"
proof (cases "client_at b w c")
  case None
  then show ?thesis using c by (simp add: releaseHoldLocked_def)
next
  case (Some p)
  define b1 where "b1 = stop_hold (cl_hold (bk_cs b p)) b"
  define b2 where "b2 = put_cs p ((bk_cs b1 p)\<lparr>cl_hold := None\<rparr>) b1"
  have at: "client_at b1 w c = Some p" "client_at b2 w c = Some p" by (simp_all add: b1_def b2_def Some)
  have c2: "claims_but {(w, c)} b2"
    unfolding b2_def b1_def by (intro put_cs_keep stop_hold_claims [OF c Some]) (simp add: Some)
  have "claims_ok (put_cs p ((bk_cs b2 p)\<lparr>cl_released := True\<rparr>) b2)" if "cl_streams (bk_cs b2 p) \<noteq> 0"
    using that by (intro put_cs_done [OF c2 at(2)]) (simp add: claim_ok_def, simp add: b2_def)
  moreover have "releaseHoldLocked w c b =
     (if cl_streams (bk_cs b2 p) = 0 then teardown_if_empty w (del_client w c b2)
      else put_cs p ((bk_cs b2 p)\<lparr>cl_released := True\<rparr>) b2)"
    by (simp add: releaseHoldLocked_def Some Let_def b1_def b2_def)
  ultimately show ?thesis using delete_last_claims [OF c2] by simp
qed

lemma retire_one_claims:
  assumes c: "claims_ok b"
  shows "claims_ok (retire_one c w b)"
  using delete_last_claims [OF stop_hold_claims [OF c]] c by (simp add: retire_one_def split: option.splits)

lemma expireHold_claims:
  assumes c: "claims_but {(w, c)} b"
    and ok: "\<And>q. client_at b w c = Some q \<Longrightarrow> q \<noteq> p \<or> cl_hold (bk_cs b q) = None \<or> cl_streams (bk_cs b q) > 0 \<Longrightarrow> claim_ok b w c q"
  shows "claims_ok (expireHold w c p b)"
proof (cases "client_at b w c")
  case None
  then show ?thesis using claims_restore [OF c] by (simp add: expireHold_def)
next
  case (Some q)
  show ?thesis
  proof (cases "q \<noteq> p \<or> cl_hold (bk_cs b q) = None \<or> cl_streams (bk_cs b q) > 0")
    case True
    then have "claims_ok b" using claims_restore [OF c] ok Some by simp
    then show ?thesis using True by (simp add: expireHold_def Some)
  next
    case False
    have "claims_but {(w, c)} (put_cs q ((bk_cs b q)\<lparr>cl_hold := None\<rparr>) b)"
      by (rule put_cs_keep [OF c Some])
    then show ?thesis using False delete_last_claims by (auto simp add: expireHold_def Some Let_def)
  qed
qed

lemma del_timer_claims:
  assumes c: "claims_ok b" and t: "map_of (bk_timers b) t = Some tm"
  shows "claims_but {(w, c). \<exists>p. tm_target tm = HoldExpiry w c p} (b\<lparr>bk_timers := AList.delete t (bk_timers b)\<rparr>)"
    (is "claims_but _ ?b")
proof (rule claims_butI)
  show "timers_ok ?b" using claims_butD(1) [OF c] by (auto simp: timers_ok_def gomap_simps)
  fix w d q
  assume q: "client_at ?b w d = Some q" and x: "(w, d) \<notin> {(w, c). \<exists>p. tm_target tm = HoldExpiry w c p}"
  then have ok: "claim_ok b w d q" using claims_butD(5) [OF c] by (simp add: client_at_def)
  then have "cl_hold (bk_cs b q) \<noteq> Some t" using x t by (auto simp: claim_ok_def)
  then show "claim_ok ?b w d q" by (intro claim_ok_other [OF ok]) (auto simp: gomap_simps)
qed (use claims_butD(2,3,4,6) [OF c] in \<open>auto simp: client_at_def\<close>)

lemma fire_claims:
  assumes c: "claims_ok b" and f: "Timer_Fire t b = Some b'"
  shows "claims_ok b'"
proof -
  obtain tm where t: "map_of (bk_timers b) t = Some tm"
    and b': "b' = b\<lparr>bk_timers := AList.update t (tm\<lparr>tm_fired := True\<rparr>) (bk_timers b)\<rparr>"
    using f by (auto simp: Timer_Fire_def split: option.splits if_splits)
  show ?thesis
  proof (rule claims_butI)
    show "timers_ok b'" using claims_butD(1) [OF c] t by (auto simp: timers_ok_def b' gomap_simps)
    fix w d q assume "client_at b' w d = Some q" "(w, d) \<notin> {}"
    then have "claim_ok b w d q" using claims_butD(5) [OF c] by (simp add: client_at_def b')
    then show "claim_ok b' w d q" by (rule claim_ok_other) (auto simp: b' gomap_simps t)
  qed (use claims_butD(2,3,4,6) [OF c] in \<open>auto simp: client_at_def b'\<close>)
qed

subsection \<open>What an operation on claims leaves alone\<close>

definition idle_ids :: "backend \<Rightarrow> nat set" where
  "idle_ids b = {t. map_option tm_target (map_of (bk_timers b) t) = Some IdleShutdown}"

definition same_table :: "backend \<Rightarrow> backend \<Rightarrow> bool" where
  "same_table b b' \<longleftrightarrow> bk_workspaces b' = bk_workspaces b \<and> bk_index b' = bk_index b \<and>
     bk_pending b' = bk_pending b \<and> bk_shutdown_timer b' = bk_shutdown_timer b \<and>
     bk_closing b' = bk_closing b \<and> bk_has_shutdown b' = bk_has_shutdown b \<and>
     bk_next_ws b' = bk_next_ws b \<and> bk_tasks b' = bk_tasks b \<and> bk_next_task b' = bk_next_task b \<and>
     bk_ws_shutdowns b' = bk_ws_shutdowns b \<and> bk_used b' = bk_used b \<and> bk_retired b' = bk_retired b \<and>
     bk_server_shutdowns b' = bk_server_shutdowns b \<and> idle_ids b' = idle_ids b \<and>
     (\<forall>w. wk_id (bk_ws b' w) = wk_id (bk_ws b w) \<and> wk_key (bk_ws b' w) = wk_key (bk_ws b w))"

definition claim_step :: "nat \<Rightarrow> backend \<Rightarrow> backend \<Rightarrow> bool" where
  "claim_step w b b' \<longleftrightarrow> same_table b b' \<and>
     (\<forall>v. v \<noteq> w \<longrightarrow> wk_clients (bk_ws b' v) = wk_clients (bk_ws b v)) \<and>
     (wk_clients (bk_ws b' w) = [] \<longrightarrow> wk_clients (bk_ws b w) = [] \<or> w \<in> set (bk_teardowns b')) \<and>
     set (bk_teardowns b) \<subseteq> set (bk_teardowns b') \<and> set (bk_teardowns b') \<subseteq> insert w (set (bk_teardowns b))"

lemma claim_step_refl [simp]: "claim_step w b b"
  by (simp add: claim_step_def same_table_def subset_insertI)

lemma same_table_trans: "same_table b b1 \<Longrightarrow> same_table b1 b2 \<Longrightarrow> same_table b b2"
  by (simp add: same_table_def)

lemma claim_step_trans:
  assumes "claim_step w b b1" "claim_step w b1 b2"
  shows "claim_step w b b2"
  unfolding claim_step_def
proof (intro conjI allI impI)
  show "same_table b b2" using assms unfolding claim_step_def by (blast intro: same_table_trans)
  show "wk_clients (bk_ws b2 v) = wk_clients (bk_ws b v)" if "v \<noteq> w" for v
    using assms that unfolding claim_step_def by metis
  show "wk_clients (bk_ws b w) = [] \<or> w \<in> set (bk_teardowns b2)" if "wk_clients (bk_ws b2 w) = []"
    using assms that unfolding claim_step_def by blast
  show "set (bk_teardowns b) \<subseteq> set (bk_teardowns b2)" "set (bk_teardowns b2) \<subseteq> insert w (set (bk_teardowns b))"
    using assms unfolding claim_step_def by blast+
qed

lemma claim_step_put_cs [simp]: "claim_step w b (put_cs p cs b)"
  by (simp add: claim_step_def same_table_def put_cs_def idle_ids_def subset_insertI)

lemma claim_step_alloc [simp]: "claim_step w b (snd (alloc_cs s b))"
  by (simp add: claim_step_def same_table_def alloc_cs_def idle_ids_def subset_insertI)

lemma update_not_Nil [simp]: "AList.update k v m \<noteq> []"
  by (cases m) auto

lemma claim_step_put [simp]: "claim_step w b (put_client w c p b)"
  by (simp add: claim_step_def same_table_def put_client_def idle_ids_def subset_insertI)

lemma claim_step_drop: "claim_step w b (teardown_if_empty w (del_client w c b))"
  by (auto simp: claim_step_def same_table_def teardown_if_empty_def del_client_def idle_ids_def)

lemma claim_step_AfterFunc: "timers_ok b \<Longrightarrow> claim_step w b (snd (AfterFunc (HoldExpiry v c p) b))"
  using timers_ok_fresh [of b]
  by (auto simp: claim_step_def same_table_def AfterFunc_def idle_ids_def gomap_simps)

lemma claim_step_Stop:
  assumes "claims_ok b" "client_at b w c = Some p" "cl_hold (bk_cs b p) = Some t"
  shows "claim_step w b (Timer_Stop t b)"
proof -
  have "claim_ok b w c p" using claims_butD(5) [OF assms(1,2)] by simp
  then have "t \<notin> idle_ids b" using assms(3) by (auto simp: claim_ok_def idle_ids_def)
  then have "idle_ids (Timer_Stop t b) = idle_ids b" by (auto simp: idle_ids_def Timer_Stop_get)
  then show ?thesis
    by (simp add: claim_step_def same_table_def subset_insertI) (simp add: Timer_Stop_def split: option.splits)
qed

lemma claim_step_stop_hold:
  assumes "claims_ok b" "client_at b w c = Some p"
  shows "claim_step w b (stop_hold (cl_hold (bk_cs b p)) b)"
  using claim_step_Stop [OF assms] by (simp add: stop_hold_def split: option.splits)

lemma claim_step_newHeld:
  assumes "claims_but X b" "newHeldClient w c s b = (p, b')"
  shows "claim_step w b b'"
proof -
  define b1 where "b1 = snd (alloc_cs (blank_client\<lparr>cl_session := s\<rparr>) b)"
  have b': "b' = put_cs p ((bk_cs (snd (AfterFunc (HoldExpiry w c p) b1)) p)\<lparr>cl_hold := Some (bk_next_timer b1)\<rparr>)
      (snd (AfterFunc (HoldExpiry w c p) b1))"
    using assms(2) by (auto simp: newHeldClient_def Let_def b1_def alloc_cs_def AfterFunc_def)
  have "timers_ok b1" using claims_butD(1) [OF alloc_cs_claims [OF assms(1)]] by (simp add: b1_def)
  then have "claim_step w b1 b'" unfolding b' by (rule claim_step_trans [OF claim_step_AfterFunc claim_step_put_cs])
  moreover have "claim_step w b b1" by (simp add: b1_def)
  ultimately show ?thesis by (blast intro: claim_step_trans)
qed

lemma registerClient_step:
  assumes c: "claims_ok b"
  shows "claim_step w b (registerClient w c b)" "wk_clients (bk_ws (registerClient w c b) w) \<noteq> []"
proof -
  have ne: "wk_clients (bk_ws (put_client w c p b') w) \<noteq> []" for p b' by (simp add: put_client_def)
  have "claim_step w b (registerClient w c b) \<and> wk_clients (bk_ws (registerClient w c b) w) \<noteq> []"
  proof (cases "client_at b w c")
    case None
    obtain p b' where n: "newHeldClient w c [] b = (p, b')" by (cases "newHeldClient w c [] b")
    then show ?thesis
      using claim_step_trans [OF claim_step_newHeld [OF c n] claim_step_put] ne by (simp add: registerClient_def None)
  next
    case (Some old)
    define b1 where "b1 = put_cs old ((bk_cs b old)\<lparr>cl_released := False\<rparr>) b"
    have c1: "claims_ok b1" unfolding b1_def by (rule put_cs_same_claims [OF c Some]) simp_all
    have at: "client_at b1 w c = Some old" by (simp add: b1_def Some)
    have s1: "claim_step w b b1" by (simp add: b1_def)
    show ?thesis
    proof (cases "cl_hold (bk_cs b1 old)")
      case None
      have "wk_clients (bk_ws b1 w) \<noteq> []" using at by (auto simp: client_at_def)
      then show ?thesis using s1 None by (simp add: registerClient_def Some b1_def [symmetric] Let_def)
    next
      case hold: (Some t)
      define b2 where "b2 = Timer_Stop t b1"
      have s2: "claim_step w b b2" unfolding b2_def using s1 claim_step_Stop [OF c1 at hold] by (rule claim_step_trans)
      have c2: "claims_but {(w, c)} b2" unfolding b2_def by (rule Timer_Stop_claims [OF c1 at hold]) simp
      obtain p b' where n: "newHeldClient w c (cl_session (bk_cs b2 old)) b2 = (p, b')"
        by (cases "newHeldClient w c (cl_session (bk_cs b2 old)) b2")
      show ?thesis
        using claim_step_trans [OF s2 claim_step_trans [OF claim_step_newHeld [OF c2 n] claim_step_put]] ne n
        by (simp add: registerClient_def Some b1_def [symmetric] b2_def [symmetric] Let_def hold)
    qed
  qed
  then show "claim_step w b (registerClient w c b)" "wk_clients (bk_ws (registerClient w c b) w) \<noteq> []" by auto
qed

lemma detachStream_step:
  assumes c: "claims_ok b"
  shows "claim_step w b (detachStream w c b)"
proof (cases "client_at b w c")
  case None
  then show ?thesis by (simp add: detachStream_def)
next
  case (Some p)
  define cs where "cs = (bk_cs b p)\<lparr>cl_streams := cl_streams (bk_cs b p) - 1\<rparr>"
  define b1 where "b1 = put_cs p cs b"
  note eq = detachStream_eq [OF Some cs_def b1_def refl]
  have s1: "claim_step w b b1" by (simp add: b1_def)
  have "timers_ok b1" using claims_butD(1) [OF c] by (simp add: b1_def)
  then have "claim_step w b (put_cs p x (snd (AfterFunc (HoldExpiry w c p) b1)))" for x
    by (intro claim_step_trans [OF s1] claim_step_trans [OF claim_step_AfterFunc claim_step_put_cs])
  moreover have "claim_step w b (teardown_if_empty w (del_client w c b1))"
    by (rule claim_step_trans [OF s1 claim_step_drop])
  ultimately show ?thesis using s1 by (simp add: eq)
qed

lemma releaseHoldLocked_step:
  assumes c: "claims_ok b"
  shows "claim_step w b (releaseHoldLocked w c b)"
proof (cases "client_at b w c")
  case None
  then show ?thesis by (simp add: releaseHoldLocked_def)
next
  case (Some p)
  define b2 where "b2 = put_cs p ((bk_cs (stop_hold (cl_hold (bk_cs b p)) b) p)\<lparr>cl_hold := None\<rparr>)
    (stop_hold (cl_hold (bk_cs b p)) b)"
  have s2: "claim_step w b b2" unfolding b2_def
    by (rule claim_step_trans [OF claim_step_stop_hold [OF c Some] claim_step_put_cs])
  have "releaseHoldLocked w c b =
     (if cl_streams (bk_cs b2 p) = 0 then teardown_if_empty w (del_client w c b2)
      else put_cs p ((bk_cs b2 p)\<lparr>cl_released := True\<rparr>) b2)"
    by (simp add: releaseHoldLocked_def Some Let_def b2_def)
  then show ?thesis
    using claim_step_trans [OF s2 claim_step_drop] claim_step_trans [OF s2 claim_step_put_cs] by simp
qed

lemma retire_one_step:
  assumes c: "claims_ok b"
  shows "claim_step w b (retire_one c w b)"
  using claim_step_trans [OF claim_step_stop_hold [OF c] claim_step_drop]
  by (auto simp: retire_one_def split: option.splits)

lemma expireHold_step: "claim_step w b (expireHold w c p b)"
  using claim_step_trans [OF claim_step_put_cs claim_step_drop]
  by (auto simp: expireHold_def Let_def split: option.splits)

lemma AttachClient_step:
  assumes c: "claims_ok b" and w: "Map_Get (bk_workspaces b) wid = Some w"
  shows "claim_step w b (snd (AttachClient uuidOk wid c b))"
proof (cases "validateClientID uuidOk c")
  case (Inl e)
  then show ?thesis by (simp add: AttachClient_def)
next
  case (Inr x)
  show ?thesis
  proof (cases "client_at b w c")
    case None
    then show ?thesis
      using Inr w claim_step_trans [OF claim_step_alloc [of w b "blank_client\<lparr>cl_streams := 1\<rparr>"] claim_step_put]
      by (simp add: AttachClient_def Let_def alloc_cs_def)
  next
    case (Some p)
    then show ?thesis
      using Inr w claim_step_trans [OF claim_step_stop_hold [OF c Some] claim_step_put_cs]
      by (simp add: AttachClient_def Let_def)
  qed
qed

lemma SetCurrentSession_step: "claim_step w b (snd (SetCurrentSession uuidOk wid c sid b))"
  by (simp add: SetCurrentSession_def split: sum.splits option.splits)

lemma SetCurrentSession_claims:
  assumes c: "claims_ok b"
  shows "claims_ok (snd (SetCurrentSession uuidOk wid c sid b))"
  using c put_cs_same_claims [OF c] by (auto simp: SetCurrentSession_def split: sum.splits option.splits)

subsection \<open>The table, the creates in flight, the orphans and the idle shutdown\<close>

definition table_ok :: "backend \<Rightarrow> bool" where
  "table_ok b \<longleftrightarrow> gomap_ok (inner (bk_workspaces b)) \<and> gomap_ok (bk_index b) \<and>
     (\<forall>i w. Map_Get (bk_workspaces b) i = Some w \<longrightarrow>
        w < bk_next_ws b \<and> wk_id (bk_ws b w) = i \<and> map_of (bk_index b) (wk_key (bk_ws b w)) = Some i) \<and>
     (\<forall>k i. map_of (bk_index b) k = Some i \<longrightarrow>
        (\<exists>w. Map_Get (bk_workspaces b) i = Some w \<and> wk_key (bk_ws b w) = k)) \<and>
     (\<forall>w < bk_next_ws b. wk_id (bk_ws b w) \<in> set (bk_used b)) \<and>
     (\<forall>w v. w < bk_next_ws b \<longrightarrow> v < bk_next_ws b \<longrightarrow> wk_id (bk_ws b w) = wk_id (bk_ws b v) \<longrightarrow> w = v) \<and>
     (\<forall>w \<in> set (bk_teardowns b). w < bk_next_ws b) \<and>
     (\<forall>w \<in> set (bk_ws_shutdowns b). w < bk_next_ws b \<and> (\<forall>i. Map_Get (bk_workspaces b) i \<noteq> Some w))"

definition tasks_ok :: "backend \<Rightarrow> bool" where
  "tasks_ok b \<longleftrightarrow> gomap_ok (bk_tasks b) \<and> (\<forall>k. map_of (bk_tasks b) k \<noteq> None \<longrightarrow> k < bk_next_task b) \<and>
     bk_pending b = int (length (bk_tasks b)) \<and>
     (bk_closing b \<longrightarrow> inner (bk_workspaces b) = [] \<and> bk_tasks b = [])"

definition orphans_ok :: "backend \<Rightarrow> bool" where
  "orphans_ok b \<longleftrightarrow> (\<forall>i w. Map_Get (bk_workspaces b) i = Some w \<longrightarrow> wk_clients (bk_ws b w) = [] \<longrightarrow>
     w \<in> set (bk_teardowns b))"

definition shutdown_ok :: "backend \<Rightarrow> bool" where
  "shutdown_ok b \<longleftrightarrow> (\<forall>t. bk_shutdown_timer b = Some t \<longrightarrow> t \<in> idle_ids b) \<and>
     (bk_has_shutdown b \<longrightarrow> inner (bk_workspaces b) = [] \<longrightarrow> bk_tasks b = [] \<longrightarrow> bk_next_task b > 0 \<longrightarrow>
        bk_closing b \<or> idle_ids b \<noteq> {})"

definition backend_inv :: "backend \<Rightarrow> bool" where
  "backend_inv b \<longleftrightarrow> claims_ok b \<and> table_ok b \<and> tasks_ok b \<and> orphans_ok b \<and> shutdown_ok b"

lemma backend_invI:
  "claims_ok b \<Longrightarrow> table_ok b \<Longrightarrow> tasks_ok b \<Longrightarrow> orphans_ok b \<Longrightarrow> shutdown_ok b \<Longrightarrow> backend_inv b"
  by (simp add: backend_inv_def)

lemma backend_invD:
  assumes "backend_inv b"
  shows "claims_ok b" "table_ok b" "tasks_ok b" "orphans_ok b" "shutdown_ok b"
  using assms by (simp_all add: backend_inv_def)

lemma table_okI:
  assumes "gomap_ok (inner (bk_workspaces b))" "gomap_ok (bk_index b)"
    "\<And>i w. Map_Get (bk_workspaces b) i = Some w \<Longrightarrow>
        w < bk_next_ws b \<and> wk_id (bk_ws b w) = i \<and> map_of (bk_index b) (wk_key (bk_ws b w)) = Some i"
    "\<And>k i. map_of (bk_index b) k = Some i \<Longrightarrow> \<exists>w. Map_Get (bk_workspaces b) i = Some w \<and> wk_key (bk_ws b w) = k"
    "\<And>w. w < bk_next_ws b \<Longrightarrow> wk_id (bk_ws b w) \<in> set (bk_used b)"
    "\<And>w v. w < bk_next_ws b \<Longrightarrow> v < bk_next_ws b \<Longrightarrow> wk_id (bk_ws b w) = wk_id (bk_ws b v) \<Longrightarrow> w = v"
    "\<And>w. w \<in> set (bk_teardowns b) \<Longrightarrow> w < bk_next_ws b"
    "\<And>w. w \<in> set (bk_ws_shutdowns b) \<Longrightarrow> w < bk_next_ws b \<and> (\<forall>i. Map_Get (bk_workspaces b) i \<noteq> Some w)"
  shows "table_ok b"
  unfolding table_ok_def using assms by blast

lemma table_okD:
  assumes "table_ok b"
  shows "gomap_ok (inner (bk_workspaces b))" "gomap_ok (bk_index b)"
    "Map_Get (bk_workspaces b) i = Some w \<Longrightarrow> w < bk_next_ws b"
    "Map_Get (bk_workspaces b) i = Some w \<Longrightarrow> wk_id (bk_ws b w) = i"
    "Map_Get (bk_workspaces b) i = Some w \<Longrightarrow> map_of (bk_index b) (wk_key (bk_ws b w)) = Some i"
    "map_of (bk_index b) k = Some i \<Longrightarrow> \<exists>w. Map_Get (bk_workspaces b) i = Some w \<and> wk_key (bk_ws b w) = k"
    "w < bk_next_ws b \<Longrightarrow> wk_id (bk_ws b w) \<in> set (bk_used b)"
    "w < bk_next_ws b \<Longrightarrow> v < bk_next_ws b \<Longrightarrow> wk_id (bk_ws b w) = wk_id (bk_ws b v) \<Longrightarrow> w = v"
    "w \<in> set (bk_teardowns b) \<Longrightarrow> w < bk_next_ws b"
    "w \<in> set (bk_ws_shutdowns b) \<Longrightarrow> w < bk_next_ws b"
    "w \<in> set (bk_ws_shutdowns b) \<Longrightarrow> Map_Get (bk_workspaces b) i \<noteq> Some w"
  using assms unfolding table_ok_def by blast+

text \<open>An operation on the claims of a live or once live workspace keeps the other parts.\<close>

lemma claim_step_table:
  assumes s: "claim_step w b b'" and w: "w < bk_next_ws b"
    and D: "table_ok b" "tasks_ok b" "shutdown_ok b"
  shows "table_ok b'" "tasks_ok b'" "shutdown_ok b'"
proof -
  have st: "same_table b b'" using s by (simp add: claim_step_def)
  then have eqs: "bk_workspaces b' = bk_workspaces b" "bk_index b' = bk_index b" "bk_next_ws b' = bk_next_ws b"
    "bk_ws_shutdowns b' = bk_ws_shutdowns b" "bk_used b' = bk_used b"
    "\<And>w. wk_id (bk_ws b' w) = wk_id (bk_ws b w)" "\<And>w. wk_key (bk_ws b' w) = wk_key (bk_ws b w)"
    by (simp_all add: same_table_def)
  have td: "set (bk_teardowns b') \<subseteq> insert w (set (bk_teardowns b))"
    using s by (simp add: claim_step_def)
  show "table_ok b'"
  proof (rule table_okI; unfold eqs)
    show "v < bk_next_ws b" if "v \<in> set (bk_teardowns b')" for v
      using that td w table_okD(9) [OF D(1)] by blast
  qed (use table_okD [OF D(1)] in blast)+
  show "tasks_ok b'" using D(2) st by (simp add: tasks_ok_def same_table_def)
  show "shutdown_ok b'" using D(3) st by (simp add: shutdown_ok_def same_table_def)
qed

lemma claim_step_tail:
  assumes s: "claim_step w b b'" and w: "w < bk_next_ws b"
    and D: "table_ok b" "tasks_ok b" "orphans_ok b" "shutdown_ok b" and c: "claims_ok b'"
  shows "backend_inv b'"
proof (rule backend_invI [OF c claim_step_table(1,2) [OF s w D(1,2,4)] _ claim_step_table(3) [OF s w D(1,2,4)]])
  have ws: "bk_workspaces b' = bk_workspaces b" using s by (simp add: claim_step_def same_table_def)
  show "orphans_ok b'"
    unfolding orphans_ok_def ws
  proof (intro allI impI)
    fix i v assume v: "Map_Get (bk_workspaces b) i = Some v" and e: "wk_clients (bk_ws b' v) = []"
    show "v \<in> set (bk_teardowns b')"
    proof (cases "v = w \<and> w \<in> set (bk_teardowns b')")
      case False
      then have "wk_clients (bk_ws b v) = []" using s e by (cases "v = w") (auto simp: claim_step_def)
      then show ?thesis using D(3) v s by (auto simp: orphans_ok_def claim_step_def)
    qed simp
  qed
qed

lemma claim_step_inv:
  assumes "claim_step w b b'" "w < bk_next_ws b" "backend_inv b" "claims_ok b'"
  shows "backend_inv b'"
  using claim_step_tail [OF assms(1,2)] assms(3,4) by (simp add: backend_inv_def)

text \<open>An edit that leaves claims, workspaces and teardowns alone.\<close>

lemma table_orphans_cong:
  assumes "table_ok b" "bk_workspaces b' = bk_workspaces b" "bk_index b' = bk_index b" "bk_next_ws b' = bk_next_ws b"
    "bk_ws b' = bk_ws b" "bk_used b' = bk_used b" "bk_ws_shutdowns b' = bk_ws_shutdowns b"
    "bk_teardowns b' = bk_teardowns b"
  shows "table_ok b'" "orphans_ok b' = orphans_ok b"
  using assms by (simp_all add: table_ok_def orphans_ok_def)

end
