(* ===== verification/Backend_Step.thy ===== *)
theory Backend_Step
  imports Backend_Inv
begin

section \<open>The workspace lifecycle as a step relation\<close>

text \<open>
  Every section of \<open>Backend\<close> is one operation of \<open>backend_exec\<close>. Each keeps \<open>backend_inv\<close>, and the
  interpretation \<open>backend_sys\<close> carries it to every reachable state. The last part says what one step
  can change: who gains a claim (\<open>claim_gain\<close>), how the table moves (\<open>table_change\<close>), and that the
  decision to exit is final (\<open>exec_exit\<close>).
\<close>

subsection \<open>The sections as one step relation\<close>

datatype backend_op =
    BCreate create_args
  | BSettle string nat
  | BReturn nat
  | BAttach string string
  | BDetach nat string
  | BRelease nat string
  | BRetire string
  | BFire nat
  | BTimer nat
  | BTeardown nat
  | BShutdownIfIdle
  | BSetSession string string string

text \<open>
  \<open>BDetach\<close> and \<open>BRelease\<close> take the workspace the caller looked up earlier, so it may have left the
  table in between. \<^verbatim>\<open>uuid.New\<close> never draws the same identifier twice.
\<close>

fun backend_exec ::
    "(string \<Rightarrow> bool) \<Rightarrow> (string \<Rightarrow> string option) \<Rightarrow> backend_op \<Rightarrow> backend \<Rightarrow> backend option" where
  "backend_exec uuidOk res (BCreate args) b = Some (snd (CreateWorkspace_begin uuidOk res args b))"
| "backend_exec uuidOk res (BSettle uuid k) b =
     (if uuid \<in> set (bk_used b) then None else map_option snd (CreateWorkspace_settle uuid k b))"
| "backend_exec uuidOk res (BReturn k) b = CreateWorkspace_return k b"
| "backend_exec uuidOk res (BAttach wid c) b = Some (snd (AttachClient uuidOk wid c b))"
| "backend_exec uuidOk res (BDetach w c) b = (if w < bk_next_ws b then Some (detachStream w c b) else None)"
| "backend_exec uuidOk res (BRelease w c) b = (if w < bk_next_ws b then Some (releaseHoldLocked w c b) else None)"
| "backend_exec uuidOk res (BRetire c) b = Some (snd (RetireClient uuidOk c b))"
| "backend_exec uuidOk res (BFire t) b = Timer_Fire t b"
| "backend_exec uuidOk res (BTimer t) b = Timer_run t b"
| "backend_exec uuidOk res (BTeardown w) b = teardown_run w b"
| "backend_exec uuidOk res BShutdownIfIdle b = Some (snd (ShutdownIfIdle b))"
| "backend_exec uuidOk res (BSetSession wid c sid) b = Some (snd (SetCurrentSession uuidOk wid c sid b))"

fun backend_execs ::
    "(string \<Rightarrow> bool) \<Rightarrow> (string \<Rightarrow> string option) \<Rightarrow> backend_op list \<Rightarrow> backend \<Rightarrow> backend option" where
  "backend_execs uuidOk res [] b = Some b"
| "backend_execs uuidOk res (op # ops) b = Option.bind (backend_exec uuidOk res op b) (backend_execs uuidOk res ops)"

inductive backend_step ::
    "(string \<Rightarrow> bool) \<Rightarrow> (string \<Rightarrow> string option) \<Rightarrow> backend \<Rightarrow> backend \<Rightarrow> bool" for uuidOk res where
  backend_stepI: "backend_exec uuidOk res op b = Some b' \<Longrightarrow> backend_step uuidOk res b b'"

inductive_cases backend_stepE: "backend_step uuidOk res b b'"

definition backend_start :: "backend \<Rightarrow> bool" where
  "backend_start b \<longleftrightarrow> (\<exists>f l g. b = NewBackend f l g)"

lemma backend_execs_steps:
  "backend_execs uuidOk res ops b = Some b' \<Longrightarrow> (backend_step uuidOk res)\<^sup>*\<^sup>* b b'"
  by (induction ops arbitrary: b)
     (auto simp: bind_eq_Some_conv intro: converse_rtranclp_into_rtranclp backend_stepI)

subsection \<open>Every section keeps the invariant\<close>

lemma Map_Len_0 [simp]: "Map_Len m = 0 \<longleftrightarrow> inner m = []"
  by (simp add: Map_Len_def)

lemma Map_Get_set: "Map_Get (Map_Set m k v) i = (if i = k then Some v else Map_Get m i)"
  by (simp add: Map_Get_def Map_Set_def gomap_simps)

lemma Map_Get_del: "Map_Get (Map_Del m k) i = (if i = k then None else Map_Get m i)"
  by (simp add: Map_Get_def Map_Del_def gomap_simps)

lemma Map_Get_nonempty: "Map_Get m k = Some v \<Longrightarrow> inner m \<noteq> []"
  by (auto simp: Map_Get_def)

lemma tasks_pending: "tasks_ok b \<Longrightarrow> bk_pending b = 0 \<longleftrightarrow> bk_tasks b = []"
  by (simp add: tasks_ok_def)

lemma start_inv: "backend_start b \<Longrightarrow> backend_inv b"
  by (auto simp: backend_start_def NewBackend_def backend_inv_def claims_but_def table_ok_def tasks_ok_def
      orphans_ok_def shutdown_ok_def timers_ok_def client_at_def blank_workspace_def NewMap_def Map_Get_def)

lemma AfterFunc_frame [simp]:
  "bk_workspaces (snd (AfterFunc g b)) = bk_workspaces b" "bk_index (snd (AfterFunc g b)) = bk_index b"
  "bk_next_ws (snd (AfterFunc g b)) = bk_next_ws b" "bk_ws (snd (AfterFunc g b)) = bk_ws b"
  "bk_used (snd (AfterFunc g b)) = bk_used b" "bk_ws_shutdowns (snd (AfterFunc g b)) = bk_ws_shutdowns b"
  "bk_teardowns (snd (AfterFunc g b)) = bk_teardowns b"
  by (simp_all add: AfterFunc_def)

lemma run_shutdown_inv [simp]: "backend_inv (run_shutdown now b) = backend_inv b"
proof -
  define b' where "b' = run_shutdown now b"
  have "bk_cs b' = bk_cs b" "bk_next_cs b' = bk_next_cs b" "bk_timers b' = bk_timers b"
    "bk_next_timer b' = bk_next_timer b" "bk_next_ws b' = bk_next_ws b" "bk_ws b' = bk_ws b"
    by (simp_all add: b'_def run_shutdown_def)
  then have "claims_ok b' = claims_ok b" by (auto intro: claims_cong)
  moreover have "table_ok b' = table_ok b" "orphans_ok b' = orphans_ok b" "tasks_ok b' = tasks_ok b"
    "shutdown_ok b' = shutdown_ok b"
    by (simp_all add: b'_def run_shutdown_def table_ok_def tasks_ok_def orphans_ok_def shutdown_ok_def idle_ids_def)
  ultimately show ?thesis by (simp add: backend_inv_def b'_def)
qed

lemma closing_inv:
  assumes "claims_ok b" "table_ok b" "tasks_ok b" "orphans_ok b" "\<forall>t. bk_shutdown_timer b = Some t \<longrightarrow> t \<in> idle_ids b"
    and "inner (bk_workspaces b) = []" "bk_tasks b = []"
  shows "backend_inv (b\<lparr>bk_closing := True\<rparr>)"
proof (rule backend_invI)
  show "claims_ok (b\<lparr>bk_closing := True\<rparr>)" by (rule claims_cong [OF assms(1)]) simp_all
  show "table_ok (b\<lparr>bk_closing := True\<rparr>)" by (rule table_orphans_cong(1) [OF assms(2)]) simp_all
  show "orphans_ok (b\<lparr>bk_closing := True\<rparr>)" using table_orphans_cong(2) [OF assms(2)] assms(4) by simp
  show "tasks_ok (b\<lparr>bk_closing := True\<rparr>)" using assms by (simp add: tasks_ok_def)
  show "shutdown_ok (b\<lparr>bk_closing := True\<rparr>)" using assms(5) by (simp add: shutdown_ok_def idle_ids_def)
qed

lemma schedule_snd:
  "snd (scheduleShutdownIfIdleLocked b) =
     (if \<not> bk_has_shutdown b \<or> inner (bk_workspaces b) \<noteq> [] \<or> bk_pending b \<noteq> 0 then b
      else if bk_linger b \<le> 0 then b\<lparr>bk_closing := True\<rparr>
      else if bk_shutdown_timer b = None
        then (snd (AfterFunc IdleShutdown b))\<lparr>bk_shutdown_timer := Some (bk_next_timer b)\<rparr>
      else b)"
  by (simp add: scheduleShutdownIfIdleLocked_def Let_def AfterFunc_def)

lemma schedule_inv:
  assumes "claims_ok b" "table_ok b" "tasks_ok b" "orphans_ok b" "\<forall>t. bk_shutdown_timer b = Some t \<longrightarrow> t \<in> idle_ids b"
  shows "backend_inv (snd (scheduleShutdownIfIdleLocked b))"
proof -
  have pend: "bk_pending b = 0 \<longleftrightarrow> bk_tasks b = []" by (rule tasks_pending [OF assms(3)])
  consider (keep) "snd (scheduleShutdownIfIdleLocked b) = b"
      "bk_has_shutdown b \<longrightarrow> inner (bk_workspaces b) = [] \<longrightarrow> bk_tasks b = [] \<longrightarrow> idle_ids b \<noteq> {}"
    | (now) "snd (scheduleShutdownIfIdleLocked b) = b\<lparr>bk_closing := True\<rparr>" "inner (bk_workspaces b) = []" "bk_tasks b = []"
    | (arm) "snd (scheduleShutdownIfIdleLocked b) = (snd (AfterFunc IdleShutdown b))\<lparr>bk_shutdown_timer := Some (bk_next_timer b)\<rparr>"
  proof (cases "\<not> bk_has_shutdown b \<or> inner (bk_workspaces b) \<noteq> [] \<or> bk_pending b \<noteq> 0")
    case True
    then show ?thesis using pend by (intro keep) (auto simp: schedule_snd)
  next
    case False
    show ?thesis
    proof (cases "bk_linger b \<le> 0")
      case True
      then show ?thesis using False pend by (intro now) (simp_all add: schedule_snd)
    next
      case linger: False
      show ?thesis
      proof (cases "bk_shutdown_timer b")
        case None
        then show ?thesis using False linger by (intro arm) (simp add: schedule_snd)
      next
        case (Some t)
        then show ?thesis using assms(5) linger by (intro keep) (auto simp: schedule_snd)
      qed
    qed
  qed
  then show ?thesis
  proof cases
    case keep
    have "shutdown_ok b" using assms(5) keep(2) by (simp add: shutdown_ok_def)
    then show ?thesis using assms keep(1) by (simp add: backend_invI)
  next
    case now
    then show ?thesis using closing_inv [OF assms] by simp
  next
    case arm
    define b' where "b' = (snd (AfterFunc IdleShutdown b))\<lparr>bk_shutdown_timer := Some (bk_next_timer b)\<rparr>"
    have f: "map_of (bk_timers b) (bk_next_timer b) = None" by (rule timers_ok_fresh [OF claims_butD(1) [OF assms(1)]])
    have "backend_inv b'"
    proof (rule backend_invI)
      show "claims_ok b'" unfolding b'_def by (rule claims_cong [OF AfterFunc_claims [OF assms(1)]]) simp_all
      show "table_ok b'" by (rule table_orphans_cong(1) [OF assms(2)]) (simp_all add: b'_def)
      show "orphans_ok b'" using table_orphans_cong(2) [OF assms(2), of b'] assms(4) by (simp add: b'_def)
      show "tasks_ok b'" using assms(3) by (simp add: tasks_ok_def b'_def AfterFunc_def)
      show "shutdown_ok b'" by (auto simp: shutdown_ok_def idle_ids_def b'_def AfterFunc_def gomap_simps)
    qed
    then show ?thesis by (simp add: arm b'_def)
  qed
qed

lemma return_inv:
  assumes inv: "backend_inv b" and r: "CreateWorkspace_return k b = Some b'"
  shows "backend_inv b'"
proof -
  note D = backend_invD [OF inv]
  define b1 where "b1 = b\<lparr>bk_tasks := AList.delete k (bk_tasks b), bk_pending := bk_pending b - 1\<rparr>"
  obtain t where t: "map_of (bk_tasks b) k = Some t" using r by (auto simp: CreateWorkspace_return_def split: option.splits)
  have ok: "gomap_ok (bk_tasks b)" using D(3) by (simp add: tasks_ok_def)
  have "bk_tasks b \<noteq> []" using t by auto
  then have len: "length (bk_tasks b) = Suc (length (AList.delete k (bk_tasks b)))"
    using gomap_length_del [OF ok, of k] t by (cases "bk_tasks b") (simp_all del: map_of_eq_Some_iff)
  have "claims_ok b1" unfolding b1_def by (rule claims_cong [OF D(1)]) simp_all
  moreover have "table_ok b1" by (rule table_orphans_cong(1) [OF D(2)]) (simp_all add: b1_def)
  moreover have "tasks_ok b1" using D(3) t len by (auto simp: tasks_ok_def b1_def gomap_simps)
  moreover have "orphans_ok b1" using table_orphans_cong(2) [OF D(2), of b1] D(4) by (simp add: b1_def)
  moreover have "\<forall>u. bk_shutdown_timer b1 = Some u \<longrightarrow> u \<in> idle_ids b1"
    using D(5) by (simp add: shutdown_ok_def b1_def idle_ids_def)
  ultimately have "backend_inv (snd (scheduleShutdownIfIdleLocked b1))" by (rule schedule_inv)
  moreover have "\<exists>now. b' = run_shutdown now (snd (scheduleShutdownIfIdleLocked b1))"
    using r t by (auto simp: CreateWorkspace_return_def Let_def b1_def split: prod.splits)
  ultimately show ?thesis by auto
qed

lemma maybeShutdown_inv:
  assumes "claims_ok b" "table_ok b" "tasks_ok b" "orphans_ok b"
  shows "backend_inv (maybeShutdown b)"
proof -
  define b1 where "b1 = b\<lparr>bk_shutdown_timer := None\<rparr>"
  have c1: "claims_ok b1" unfolding b1_def by (rule claims_cong [OF assms(1)]) simp_all
  have t1: "table_ok b1" by (rule table_orphans_cong(1) [OF assms(2)]) (simp_all add: b1_def)
  have o1: "orphans_ok b1" using table_orphans_cong(2) [OF assms(2), of b1] assms(4) by (simp add: b1_def)
  have k1: "tasks_ok b1" using assms(3) by (simp add: tasks_ok_def b1_def)
  have idle: "backend_idle b1 \<longleftrightarrow> inner (bk_workspaces b1) = [] \<and> bk_tasks b1 = []"
    using tasks_pending [OF k1] by (simp add: backend_idle_def)
  have "backend_inv (if backend_idle b1 then b1\<lparr>bk_closing := True\<rparr> else b1)"
  proof (cases "backend_idle b1")
    case True
    then show ?thesis using closing_inv [OF c1 t1 k1 o1] idle by (simp add: b1_def)
  next
    case False
    then have "shutdown_ok b1" using idle by (simp add: shutdown_ok_def) (simp add: b1_def)
    then show ?thesis using False c1 t1 k1 o1 by (simp add: backend_invI)
  qed
  then show ?thesis by (simp only: maybeShutdown_def Let_def b1_def run_shutdown_inv)
qed

lemma ShutdownIfIdle_inv:
  assumes inv: "backend_inv b"
  shows "backend_inv (snd (ShutdownIfIdle b))"
proof -
  note D = backend_invD [OF inv]
  have "backend_inv (b\<lparr>bk_closing := True\<rparr>)" if "backend_idle b"
    using D that tasks_pending [OF D(3)] by (intro closing_inv) (auto simp: backend_idle_def shutdown_ok_def)
  then show ?thesis using inv by (simp add: ShutdownIfIdle_def Let_def)
qed

lemma schedule_log:
  "scheduleShutdownIfIdleLocked (b\<lparr>bk_ws_shutdowns := l\<rparr>) =
     (fst (scheduleShutdownIfIdleLocked b), (snd (scheduleShutdownIfIdleLocked b))\<lparr>bk_ws_shutdowns := l\<rparr>)"
  by (cases b) (simp add: scheduleShutdownIfIdleLocked_def AfterFunc_def)

lemma schedule_keeps_log [simp]: "bk_ws_shutdowns (snd (scheduleShutdownIfIdleLocked b)) = bk_ws_shutdowns b"
  by (simp add: schedule_snd)

lemma teardown_inv:
  assumes inv: "backend_inv b" and r: "teardown_run w b = Some b'"
  shows "backend_inv b'"
proof -
  note D = backend_invD [OF inv]
  define b0 where "b0 = b\<lparr>bk_teardowns := remove1 w (bk_teardowns b)\<rparr>"
  have w: "w < bk_next_ws b" and b': "b' = teardown w b0"
    using r table_okD(9) [OF D(2)] by (auto simp: teardown_run_def b0_def split: if_splits)
  have c0: "claims_ok b0" unfolding b0_def by (rule claims_cong [OF D(1)]) simp_all
  have sub: "set (remove1 w (bk_teardowns b)) \<subseteq> set (bk_teardowns b)" by (rule set_remove1_subset)
  have t0: "table_ok b0"
  proof (rule table_okI)
    show "v < bk_next_ws b0" if "v \<in> set (bk_teardowns b0)" for v
      using that sub table_okD(9) [OF D(2), of v] by (auto simp: b0_def)
    show "v < bk_next_ws b0 \<and> (\<forall>i. Map_Get (bk_workspaces b0) i \<noteq> Some v)" if "v \<in> set (bk_ws_shutdowns b0)" for v
      using that table_okD(10,11) [OF D(2), of v] by (auto simp: b0_def)
  qed (use table_okD(1-8) [OF D(2)] in \<open>auto simp: b0_def\<close>)
  have k0: "tasks_ok b0" using D(3) by (simp add: tasks_ok_def b0_def)
  have s0: "shutdown_ok b0" using D(5) by (simp add: shutdown_ok_def b0_def idle_ids_def)
  have others: "v \<in> set (bk_teardowns b0)" if "Map_Get (bk_workspaces b) i = Some v" "wk_clients (bk_ws b v) = []" "v \<noteq> w" for i v
    using D(4) that by (auto simp: orphans_ok_def b0_def)
  show ?thesis
  proof (cases "wk_clients (bk_ws b w) = []")
    case False
    have "orphans_ok b0"
      unfolding orphans_ok_def
    proof (intro allI impI)
      fix i v assume "Map_Get (bk_workspaces b0) i = Some v" "wk_clients (bk_ws b0 v) = []"
      then show "v \<in> set (bk_teardowns b0)" using others [of i v] False by (cases "v = w") (simp_all add: b0_def)
    qed
    then have "backend_inv b0" using c0 t0 k0 s0 by (simp only: backend_inv_def)
    moreover have "b' = b0" using False by (simp add: b' teardown_def b0_def)
    ultimately show ?thesis by simp
  next
    case True
    let ?k = "wk_key (bk_ws b w)" and ?i = "wk_id (bk_ws b w)"
    define idx where "idx = (if map_of (bk_index b) ?k = Some ?i then AList.delete ?k (bk_index b) else bk_index b)"
    define b1 where "b1 = b0\<lparr>bk_index := idx, bk_workspaces := Map_Del (bk_workspaces b) ?i,
      bk_ws_shutdowns := bk_ws_shutdowns b @ [w]\<rparr>"
    have gone: "Map_Get (Map_Del (bk_workspaces b) ?i) i \<noteq> Some w" for i
      using table_okD(4) [OF D(2), of i w] by (auto simp: Map_Get_del)
    have c1: "claims_ok b1" unfolding b1_def by (rule claims_cong [OF c0]) simp_all
    have t1: "table_ok b1"
    proof (rule table_okI)
      show "gomap_ok (inner (bk_workspaces b1))" using table_okD(1) [OF D(2)] by (simp add: b1_def Map_Del_def)
      show "gomap_ok (bk_index b1)" using table_okD(2) [OF D(2)] by (simp add: b1_def idx_def)
      show "v < bk_next_ws b1 \<and> wk_id (bk_ws b1 v) = i \<and> map_of (bk_index b1) (wk_key (bk_ws b1 v)) = Some i"
        if g: "Map_Get (bk_workspaces b1) i = Some v" for i v
      proof -
        have i: "i \<noteq> ?i" "Map_Get (bk_workspaces b) i = Some v" using g by (auto simp: b1_def Map_Get_del split: if_splits)
        note T = table_okD(3-5) [OF D(2) i(2)]
        have "map_of idx (wk_key (bk_ws b v)) = Some i" using T i(1) by (auto simp: idx_def gomap_simps)
        then show ?thesis using T by (simp add: b1_def b0_def)
      qed
      show "\<exists>v. Map_Get (bk_workspaces b1) i = Some v \<and> wk_key (bk_ws b1 v) = k" if g: "map_of (bk_index b1) k = Some i" for k i
      proof -
        have kb: "map_of (bk_index b) k = Some i" using g by (auto simp: b1_def idx_def gomap_simps split: if_splits)
        then obtain v where v: "Map_Get (bk_workspaces b) i = Some v" "wk_key (bk_ws b v) = k"
          using table_okD(6) [OF D(2)] by blast
        have "i \<noteq> ?i"
        proof
          assume "i = ?i"
          then have "v = w" using table_okD(3,4) [OF D(2) v(1)] table_okD(8) [OF D(2) _ w] by blast
          then show False using g v(2) kb \<open>i = ?i\<close> by (simp add: b1_def idx_def gomap_simps)
        qed
        then show ?thesis using v by (simp add: b1_def b0_def Map_Get_del)
      qed
      show "v < bk_next_ws b1 \<and> (\<forall>i. Map_Get (bk_workspaces b1) i \<noteq> Some v)" if "v \<in> set (bk_ws_shutdowns b1)" for v
      proof (cases "v = w")
        case True
        then show ?thesis using w gone by (simp add: b1_def b0_def)
      next
        case False
        then have "v \<in> set (bk_ws_shutdowns b)" using that by (simp add: b1_def)
        then show ?thesis using table_okD(10,11) [OF D(2), of v] by (auto simp: b1_def b0_def Map_Get_del)
      qed
    qed (use table_okD(7-9) [OF t0] in \<open>auto simp: b1_def b0_def\<close>)
    have k1: "tasks_ok b1" using D(3) by (auto simp: tasks_ok_def b1_def b0_def Map_Del_def)
    have o1: "orphans_ok b1"
      unfolding orphans_ok_def
    proof (intro allI impI)
      fix i v assume g: "Map_Get (bk_workspaces b1) i = Some v" and e: "wk_clients (bk_ws b1 v) = []"
      have m: "Map_Get (Map_Del (bk_workspaces b) ?i) i = Some v" using g by (simp add: b1_def)
      have "v \<noteq> w" using gone [of i] m by blast
      moreover have "Map_Get (bk_workspaces b) i = Some v" using m by (auto simp: Map_Get_del split: if_splits)
      moreover have "wk_clients (bk_ws b v) = []" using e by (simp add: b1_def b0_def)
      ultimately show "v \<in> set (bk_teardowns b1)" using others by (simp add: b1_def)
    qed
    have "\<forall>t. bk_shutdown_timer b1 = Some t \<longrightarrow> t \<in> idle_ids b1"
      using s0 by (simp add: shutdown_ok_def b1_def idle_ids_def)
    with c1 t1 k1 o1 have "backend_inv (snd (scheduleShutdownIfIdleLocked b1))" by (rule schedule_inv)
    moreover have "b' = run_shutdown (fst (scheduleShutdownIfIdleLocked b1)) (snd (scheduleShutdownIfIdleLocked b1))"
    proof -
      define b2 where "b2 = b0\<lparr>bk_index := idx, bk_workspaces := Map_Del (bk_workspaces b) ?i\<rparr>"
      have b1: "b1 = b2\<lparr>bk_ws_shutdowns := bk_ws_shutdowns b2 @ [w]\<rparr>" by (simp add: b1_def b2_def b0_def)
      have "b2 = (if map_of (bk_index b0) ?k = Some ?i then b0\<lparr>bk_index := AList.delete ?k (bk_index b0)\<rparr> else b0)
          \<lparr>bk_workspaces := Map_Del (bk_workspaces b) ?i\<rparr>"
        by (simp add: b2_def idx_def) (simp add: b0_def)
      then have "b' = (let (now, b3) = scheduleShutdownIfIdleLocked b2
         in run_shutdown now (b3\<lparr>bk_ws_shutdowns := bk_ws_shutdowns b3 @ [w]\<rparr>))"
        using True unfolding b' teardown_def Let_def by (simp add: b0_def)
      then show ?thesis by (simp add: b1 schedule_log split_beta Let_def)
    qed
    ultimately show ?thesis by simp
  qed
qed

text \<open>The other sections: claims, timers, retirement.\<close>

lemma claim_step_nexts: "claim_step w b b' \<Longrightarrow> bk_next_ws b' = bk_next_ws b"
  by (simp add: claim_step_def same_table_def)

lemma attach_inv:
  assumes inv: "backend_inv b"
  shows "backend_inv (snd (AttachClient uuidOk wid c b))"
proof -
  note D = backend_invD [OF inv]
  have c: "claims_ok (snd (AttachClient uuidOk wid c b))"
    using AttachClient_claims [OF D(1)] table_okD(3) [OF D(2)] by blast
  show ?thesis
  proof (cases "snd (AttachClient uuidOk wid c b) = b")
    case True
    then show ?thesis using inv by simp
  next
    case False
    then obtain w where g: "Map_Get (bk_workspaces b) wid = Some w"
      by (auto simp: AttachClient_def split: sum.splits option.splits)
    show ?thesis by (rule claim_step_inv [OF AttachClient_step [OF D(1) g] table_okD(3) [OF D(2) g] inv c])
  qed
qed

lemma retire_fold_inv:
  assumes "backend_inv b" "\<forall>(i, w) \<in> set ws. w < bk_next_ws b"
  shows "backend_inv (fold (\<lambda>(i, w). retire_one c w) ws b)"
  using assms
proof (induction ws arbitrary: b)
  case (Cons x ws)
  obtain i w where x: "x = (i, w)" by (cases x)
  have c: "claims_ok b" using Cons.prems by (simp add: backend_inv_def)
  have s: "claim_step w b (retire_one c w b)" by (rule retire_one_step [OF c])
  have "backend_inv (retire_one c w b)"
    using claim_step_inv [OF s _ Cons.prems(1) retire_one_claims [OF c]] Cons.prems(2) x by auto
  then show ?case using Cons.IH Cons.prems(2) claim_step_nexts [OF s] by (auto simp: x)
qed simp

lemma retired_cong:
  assumes "backend_inv b"
  shows "backend_inv (b\<lparr>bk_retired := r\<rparr>)"
proof (rule backend_invI)
  note D = backend_invD [OF assms]
  show "claims_ok (b\<lparr>bk_retired := r\<rparr>)" by (rule claims_cong [OF D(1)]) simp_all
  show "table_ok (b\<lparr>bk_retired := r\<rparr>)" by (rule table_orphans_cong(1) [OF D(2)]) simp_all
  show "orphans_ok (b\<lparr>bk_retired := r\<rparr>)" using table_orphans_cong(2) [OF D(2)] D(4) by simp
  show "tasks_ok (b\<lparr>bk_retired := r\<rparr>)" using D(3) by (simp add: tasks_ok_def)
  show "shutdown_ok (b\<lparr>bk_retired := r\<rparr>)" using D(5) by (simp add: shutdown_ok_def idle_ids_def)
qed

lemma retire_inv:
  assumes inv: "backend_inv b"
  shows "backend_inv (snd (RetireClient uuidOk c b))"
proof -
  note T = table_okD(1,3) [OF backend_invD(2) [OF inv]]
  have "w < bk_next_ws b" if "(i, w) \<in> set (inner (bk_workspaces b))" for i w
    by (rule T(2) [of i]) (simp add: Map_Get_def map_of_is_SomeI [OF T(1) that])
  then have "\<forall>(i, w) \<in> set (inner (bk_workspaces b)). w < bk_next_ws b" by blast
  then have "backend_inv (fold (\<lambda>(i, w). retire_one c w) (inner (bk_workspaces b))
      (b\<lparr>bk_retired := AList.update c () (bk_retired b)\<rparr>))"
    by (intro retire_fold_inv retired_cong [OF inv]) simp
  then show ?thesis using inv by (simp add: RetireClient_def Map_Copy_def split: sum.splits)
qed

lemma fire_inv:
  assumes inv: "backend_inv b" and f: "Timer_Fire t b = Some b'"
  shows "backend_inv b'"
proof -
  note D = backend_invD [OF inv]
  obtain tm where t: "map_of (bk_timers b) t = Some tm"
    and b': "b' = b\<lparr>bk_timers := AList.update t (tm\<lparr>tm_fired := True\<rparr>) (bk_timers b)\<rparr>"
    using f by (auto simp: Timer_Fire_def split: option.splits if_splits)
  have idle: "idle_ids b' = idle_ids b" using t by (auto simp: idle_ids_def b' gomap_simps simp del: map_of_eq_Some_iff)
  show ?thesis
  proof (rule backend_invI)
    show "claims_ok b'" by (rule fire_claims [OF D(1) f])
    show "table_ok b'" by (rule table_orphans_cong(1) [OF D(2)]) (simp_all add: b')
    show "orphans_ok b'" using table_orphans_cong(2) [OF D(2), of b'] D(4) by (simp add: b')
    show "tasks_ok b'" using D(3) by (simp add: tasks_ok_def b')
    show "shutdown_ok b'" using D(5) idle by (simp add: shutdown_ok_def) (simp add: b')
  qed
qed

lemma timer_inv:
  assumes inv: "backend_inv b" and r: "Timer_run t b = Some b'"
  shows "backend_inv b'"
proof -
  note D = backend_invD [OF inv]
  obtain tm where t: "map_of (bk_timers b) t = Some tm"
    using r by (auto simp: Timer_run_def split: option.splits)
  define b1 where "b1 = b\<lparr>bk_timers := AList.delete t (bk_timers b)\<rparr>"
  have b': "b' = (case tm_target tm of HoldExpiry w c p \<Rightarrow> expireHold w c p b1 | IdleShutdown \<Rightarrow> maybeShutdown b1)"
    using r t unfolding b1_def by (simp add: Timer_run_def Let_def split: if_splits)
  have c1: "claims_but {(w, c). \<exists>p. tm_target tm = HoldExpiry w c p} b1"
    unfolding b1_def by (rule del_timer_claims [OF D(1) t])
  have t1: "table_ok b1" by (rule table_orphans_cong(1) [OF D(2)]) (simp_all add: b1_def)
  have o1: "orphans_ok b1" using table_orphans_cong(2) [OF D(2), of b1] D(4) by (simp add: b1_def)
  have k1: "tasks_ok b1" using D(3) by (simp add: tasks_ok_def b1_def)
  show ?thesis
  proof (cases "tm_target tm")
    case IdleShutdown
    then show ?thesis using c1 t1 k1 o1 maybeShutdown_inv by (simp add: b')
  next
    case (HoldExpiry w c p)
    have cw: "claims_but {(w, c)} b1" using c1 HoldExpiry by (auto intro: claims_but_mono)
    have at: "client_at b1 = client_at b" by (intro ext) (simp add: b1_def client_at_def)
    have "idle_ids b1 = idle_ids b" using t HoldExpiry by (auto simp: idle_ids_def b1_def gomap_simps simp del: map_of_eq_Some_iff)
    then have s1: "shutdown_ok b1" using D(5) by (simp add: shutdown_ok_def) (simp add: b1_def)
    have c': "claims_ok b'"
      unfolding b' HoldExpiry timer_target.case
    proof (rule expireHold_claims [OF cw])
      fix q assume q: "client_at b1 w c = Some q"
        and alt: "q \<noteq> p \<or> cl_hold (bk_cs b1 q) = None \<or> cl_streams (bk_cs b1 q) > 0"
      have ok: "claim_ok b w c q" using claims_butD(5) [OF D(1), of w c q] q at by simp
      have "cl_hold (bk_cs b q) \<noteq> Some t"
        using ok alt t HoldExpiry by (auto simp: claim_ok_def b1_def)
      then show "claim_ok b1 w c q" by (intro claim_ok_other [OF ok]) (auto simp: b1_def gomap_simps)
    qed
    show ?thesis
    proof (cases "w < bk_next_ws b")
      case True
      have s: "claim_step w b1 b'" by (simp add: b' HoldExpiry expireHold_step)
      show ?thesis by (rule claim_step_tail [OF s _ t1 k1 o1 s1 c']) (use True in \<open>simp add: b1_def\<close>)
    next
      case False
      then have "client_at b1 w c = None" using claims_butD(4) [OF cw, of w c] by (cases "client_at b1 w c") (auto simp: b1_def)
      then have "b' = b1" by (simp add: b' HoldExpiry expireHold_def)
      then show ?thesis using c' t1 k1 o1 s1 by (simp add: backend_invI)
    qed
  qed
qed

subsubsection \<open>Creating\<close>

lemma Stop_idle_claims:
  assumes c: "claims_ok b" and t: "t \<in> idle_ids b"
  shows "claims_ok (Timer_Stop t b)"
proof (rule claims_butI)
  fix v d q assume q: "client_at (Timer_Stop t b) v d = Some q" and "(v, d) \<notin> {}"
  then have ok: "claim_ok b v d q" using claims_butD(5) [OF c] by simp
  have "u \<noteq> t" if "cl_hold (bk_cs b q) = Some u" for u
    using ok t that by (auto simp: claim_ok_def idle_ids_def)
  then show "claim_ok (Timer_Stop t b) v d q"
    by (intro claim_ok_other [OF ok]) (auto simp: Timer_Stop_get)
qed (use claims_butD [OF c] in \<open>auto intro: Timer_Stop_timers_ok\<close>)

lemma Timer_Stop_table [simp]:
  "bk_workspaces (Timer_Stop t b) = bk_workspaces b" "bk_index (Timer_Stop t b) = bk_index b"
  "bk_used (Timer_Stop t b) = bk_used b" "bk_ws_shutdowns (Timer_Stop t b) = bk_ws_shutdowns b"
  "bk_tasks (Timer_Stop t b) = bk_tasks b" "bk_next_task (Timer_Stop t b) = bk_next_task b"
  "bk_pending (Timer_Stop t b) = bk_pending b" "bk_closing (Timer_Stop t b) = bk_closing b"
  "bk_retired (Timer_Stop t b) = bk_retired b" "bk_has_shutdown (Timer_Stop t b) = bk_has_shutdown b"
  by (simp_all add: Timer_Stop_def split: option.splits)

lemma cancelShutdown_frame [simp]:
  "bk_workspaces (cancelShutdownLocked b) = bk_workspaces b" "bk_index (cancelShutdownLocked b) = bk_index b"
  "bk_used (cancelShutdownLocked b) = bk_used b" "bk_ws_shutdowns (cancelShutdownLocked b) = bk_ws_shutdowns b"
  "bk_tasks (cancelShutdownLocked b) = bk_tasks b" "bk_next_task (cancelShutdownLocked b) = bk_next_task b"
  "bk_pending (cancelShutdownLocked b) = bk_pending b" "bk_closing (cancelShutdownLocked b) = bk_closing b"
  "bk_ws (cancelShutdownLocked b) = bk_ws b" "bk_next_ws (cancelShutdownLocked b) = bk_next_ws b"
  "bk_teardowns (cancelShutdownLocked b) = bk_teardowns b" "bk_retired (cancelShutdownLocked b) = bk_retired b"
  "bk_shutdown_timer (cancelShutdownLocked b) = None" "bk_cs (cancelShutdownLocked b) = bk_cs b"
  by (simp_all add: cancelShutdownLocked_def split: option.splits)

lemma cancelShutdown_inv:
  assumes inv: "backend_inv b"
  shows "claims_ok (cancelShutdownLocked b)" "table_ok (cancelShutdownLocked b)"
    "tasks_ok (cancelShutdownLocked b)" "orphans_ok (cancelShutdownLocked b)"
proof -
  note D = backend_invD [OF inv]
  show "claims_ok (cancelShutdownLocked b)"
  proof (cases "bk_shutdown_timer b")
    case None
    then show ?thesis using D(1) by (simp add: cancelShutdownLocked_def)
  next
    case (Some t)
    then have "claims_ok (Timer_Stop t b)" using Stop_idle_claims [OF D(1)] D(5) by (simp add: shutdown_ok_def)
    then show ?thesis unfolding cancelShutdownLocked_def Some option.case by (rule claims_cong) simp_all
  qed
  show "table_ok (cancelShutdownLocked b)" by (rule table_orphans_cong(1) [OF D(2)]) simp_all
  show "orphans_ok (cancelShutdownLocked b)" using table_orphans_cong(2) [OF D(2)] D(4) by simp
  show "tasks_ok (cancelShutdownLocked b)" using D(3) by (simp add: tasks_ok_def)
qed

text \<open>While something is live or being created, the shutdown clause is void.\<close>

lemma shutdown_ok_busy:
  "bk_shutdown_timer b = None \<Longrightarrow> inner (bk_workspaces b) \<noteq> [] \<or> bk_tasks b \<noteq> [] \<Longrightarrow> shutdown_ok b"
  by (auto simp: shutdown_ok_def)

definition commit_create :: "create_args \<Rightarrow> string \<Rightarrow> backend \<Rightarrow> backend" where
  "commit_create args key b =
     b\<lparr>bk_pending := bk_pending b + 1,
       bk_tasks := AList.update (bk_next_task b) \<lparr>ct_args = args, ct_key = key, ct_settled = False\<rparr> (bk_tasks b),
       bk_next_task := Suc (bk_next_task b)\<rparr>"

text \<open>
  An index entry always has its workspace, so of the four exits of each section only three are
  reached.
\<close>

lemma begin_cases:
  assumes t: "table_ok b"
  obtains (fail) e where "CreateWorkspace_begin uuidOk res args b = (CreateFailed e, b)"
  | (mismatch) w i where "CreateWorkspace_begin uuidOk res args b = (CreateFailed ErrChannelOptInMismatch, cancelShutdownLocked b)"
      "Map_Get (bk_workspaces b) i = Some w"
  | (shared) w i where "CreateWorkspace_begin uuidOk res args b = (CreatedShared w, registerClient w (ca_client args) (cancelShutdownLocked b))"
      "Map_Get (bk_workspaces b) i = Some w" "admitLocked b (ca_client args) = None"
  | (commit) key where "CreateWorkspace_begin uuidOk res args b = (CreatePending (bk_next_task b), commit_create args key (cancelShutdownLocked b))"
      "admitLocked b (ca_client args) = None"
proof (cases "ca_path args = []")
  case True
  then show ?thesis by (intro fail) (simp add: CreateWorkspace_begin_def)
next
  case p: False
  show ?thesis
  proof (cases "validateClientID uuidOk (ca_client args)")
    case (Inl e)
    then show ?thesis using p by (intro fail) (simp add: CreateWorkspace_begin_def)
  next
    case (Inr c)
    then have c: "c = ca_client args" by (auto simp: validateClientID_def split: if_splits)
    note v = Inr [unfolded c]
    show ?thesis
    proof (cases "res (ca_path args)")
      case None
      then show ?thesis using p v by (intro fail) (simp add: CreateWorkspace_begin_def)
    next
      case key: (Some key)
      show ?thesis
      proof (cases "admitLocked b (ca_client args)")
        case (Some e)
        then show ?thesis using p v key by (intro fail) (simp add: CreateWorkspace_begin_def)
      next
        case adm: None
        show ?thesis
        proof (cases "map_of (bk_index b) key")
          case None
          then show ?thesis using p v key adm
            by (intro commit [of key]) (simp_all add: CreateWorkspace_begin_def commit_create_def Let_def)
        next
          case (Some i)
          then obtain w where w: "Map_Get (bk_workspaces b) i = Some w" using table_okD(6) [OF t] by blast
          show ?thesis
          proof (cases "wk_channels (bk_ws b w) = ca_channels args")
            case True
            then show ?thesis using p v key adm Some w by (intro shared) (simp_all add: CreateWorkspace_begin_def Let_def)
          next
            case False
            then show ?thesis using p v key adm Some w by (intro mismatch) (simp_all add: CreateWorkspace_begin_def Let_def)
          qed
        qed
      qed
    qed
  qed
qed

lemma admit_open: "admitLocked b c = None \<Longrightarrow> \<not> bk_closing b"
  by (auto simp: admitLocked_def split: if_splits)

lemma begin_inv:
  assumes inv: "backend_inv b"
  shows "backend_inv (snd (CreateWorkspace_begin uuidOk res args b))"
proof -
  note C = cancelShutdown_inv [OF inv]
  have busy: "backend_inv (cancelShutdownLocked b)" if "Map_Get (bk_workspaces b) i = Some w" for i w
    using C Map_Get_nonempty [OF that] by (intro backend_invI shutdown_ok_busy) simp_all
  show ?thesis
  proof (rule begin_cases [OF backend_invD(2) [OF inv], of uuidOk res args])
    fix e assume "CreateWorkspace_begin uuidOk res args b = (CreateFailed e, b)"
    then show ?thesis using inv by simp
  next
    fix w i assume "CreateWorkspace_begin uuidOk res args b = (CreateFailed ErrChannelOptInMismatch, cancelShutdownLocked b)"
      "Map_Get (bk_workspaces b) i = Some w"
    then show ?thesis using busy by simp
  next
    fix w i
    assume eq: "CreateWorkspace_begin uuidOk res args b =
        (CreatedShared w, registerClient w (ca_client args) (cancelShutdownLocked b))"
      and w: "Map_Get (bk_workspaces b) i = Some w"
    have wn: "w < bk_next_ws (cancelShutdownLocked b)" using table_okD(3) [OF backend_invD(2) [OF inv] w] by simp
    show ?thesis unfolding eq snd_conv
      by (rule claim_step_inv [OF registerClient_step(1) [OF C(1)] wn busy [OF w] registerClient_claims [OF C(1) wn]])
  next
    fix key
    assume eq: "CreateWorkspace_begin uuidOk res args b = (CreatePending (bk_next_task b), commit_create args key (cancelShutdownLocked b))"
      and adm: "admitLocked b (ca_client args) = None"
    define b1 where "b1 = cancelShutdownLocked b"
    have fresh: "map_of (bk_tasks b) (bk_next_task b) = None"
      using backend_invD(3) [OF inv] unfolding tasks_ok_def by (metis less_irrefl)
    have "backend_inv (commit_create args key b1)"
    proof (rule backend_invI)
      show "claims_ok (commit_create args key b1)"
        by (rule claims_cong [OF C(1)]) (simp_all add: commit_create_def b1_def)
      show "table_ok (commit_create args key b1)"
        by (rule table_orphans_cong(1) [OF C(2)]) (simp_all add: commit_create_def b1_def)
      show "orphans_ok (commit_create args key b1)"
        using table_orphans_cong(2) [OF C(2), of "commit_create args key b1"] C(4) by (simp add: commit_create_def b1_def)
      show "tasks_ok (commit_create args key b1)"
        using C(3) admit_open [OF adm] fresh
        by (auto simp: tasks_ok_def commit_create_def b1_def gomap_simps gomap_length_set less_Suc_eq)
      show "shutdown_ok (commit_create args key b1)"
        by (rule shutdown_ok_busy) (simp_all add: commit_create_def b1_def)
    qed
    then show ?thesis by (simp add: eq b1_def)
  qed
qed

text \<open>Settling: \<open>fresh_ws\<close> is the workspace the slow initialisation built.\<close>

definition fresh_ws :: "string \<Rightarrow> nat \<Rightarrow> create_task \<Rightarrow> backend \<Rightarrow> backend" where
  "fresh_ws uuid k t b =
     b\<lparr>bk_ws := (bk_ws b)(bk_next_ws b := \<lparr>wk_id = uuid, wk_path = ca_path (ct_args t), wk_key = ct_key t,
          wk_channels = ca_channels (ct_args t), wk_clients = []\<rparr>),
       bk_next_ws := Suc (bk_next_ws b), bk_used := bk_used b @ [uuid],
       bk_tasks := AList.update k (t\<lparr>ct_settled := True\<rparr>) (bk_tasks b)\<rparr>"

definition discard_ws :: "nat \<Rightarrow> backend \<Rightarrow> backend" where
  "discard_ws w b = b\<lparr>bk_ws_shutdowns := bk_ws_shutdowns b @ [w]\<rparr>"

definition install_ws :: "string \<Rightarrow> string \<Rightarrow> nat \<Rightarrow> backend \<Rightarrow> backend" where
  "install_ws uuid key w b =
     b\<lparr>bk_workspaces := Map_Set (bk_workspaces b) uuid w, bk_index := AList.update key uuid (bk_index b)\<rparr>"

lemma fresh_client:
  assumes "claims_ok b"
  shows "client_at (fresh_ws uuid k t b) v d = client_at b v d"
proof (cases "v = bk_next_ws b")
  case True
  have "client_at b v d = None" using claims_butD(4) [OF assms, of v d] True by (cases "client_at b v d") auto
  then show ?thesis using True by (simp add: fresh_ws_def client_at_def)
qed (simp add: fresh_ws_def client_at_def)

lemma fresh_claims:
  assumes c: "claims_ok b"
  shows "claims_ok (fresh_ws uuid k t b)"
proof (rule claims_butI)
  show "timers_ok (fresh_ws uuid k t b)" using claims_butD(1) [OF c] by (simp add: timers_ok_def fresh_ws_def)
  show "gomap_ok (wk_clients (bk_ws (fresh_ws uuid k t b) w))" for w
    using claims_butD(2) [OF c] by (simp add: fresh_ws_def)
next
  fix w c' p assume "client_at (fresh_ws uuid k t b) w c' = Some p"
  then have p: "client_at b w c' = Some p" by (simp add: fresh_client [OF c])
  show "p < bk_next_cs (fresh_ws uuid k t b) \<and> w < bk_next_ws (fresh_ws uuid k t b)"
    using claims_butD(3,4) [OF c p] by (simp add: fresh_ws_def)
  show "claim_ok (fresh_ws uuid k t b) w c' p"
    by (rule claim_ok_other [OF claims_butD(5) [OF c p]]) (simp_all add: fresh_ws_def)
next
  fix w c' v d p
  assume "client_at (fresh_ws uuid k t b) w c' = Some p" "client_at (fresh_ws uuid k t b) v d = Some p"
  then show "w = v \<and> c' = d" using claims_butD(6) [OF c] by (simp add: fresh_client [OF c])
qed

lemma fresh_inv:
  assumes inv: "backend_inv b" and t: "map_of (bk_tasks b) k = Some t" and u: "uuid \<notin> set (bk_used b)"
  shows "backend_inv (fresh_ws uuid k t b)" (is "backend_inv ?f")
proof (rule backend_invI)
  note D = backend_invD [OF inv]
  note T = table_okD [OF D(2)]
  have old: "bk_ws ?f w = bk_ws b w" if "w < bk_next_ws b" for w using that by (simp add: fresh_ws_def)
  have get: "Map_Get (bk_workspaces ?f) i = Map_Get (bk_workspaces b) i" for i by (simp add: fresh_ws_def)
  show "claims_ok ?f" by (rule fresh_claims [OF D(1)])
  show "table_ok ?f"
  proof (rule table_okI)
    show "w < bk_next_ws ?f \<and> wk_id (bk_ws ?f w) = i \<and> map_of (bk_index ?f) (wk_key (bk_ws ?f w)) = Some i"
      if "Map_Get (bk_workspaces ?f) i = Some w" for i w
    proof -
      have g: "Map_Get (bk_workspaces b) i = Some w" using that by (simp add: get)
      show ?thesis using T(3-5) [OF g] by (simp add: fresh_ws_def)
    qed
    show "\<exists>w. Map_Get (bk_workspaces ?f) i = Some w \<and> wk_key (bk_ws ?f w) = k'" if "map_of (bk_index ?f) k' = Some i" for k' i
    proof -
      have "map_of (bk_index b) k' = Some i" using that by (simp add: fresh_ws_def)
      then obtain w where w: "Map_Get (bk_workspaces b) i = Some w" "wk_key (bk_ws b w) = k'" using T(6) by blast
      then show ?thesis using old [OF T(3) [OF w(1)]] by (auto simp: get)
    qed
    show "wk_id (bk_ws ?f w) \<in> set (bk_used ?f)" if "w < bk_next_ws ?f" for w
      using that T(7) [of w] by (auto simp: fresh_ws_def less_Suc_eq)
    show "w = v" if "w < bk_next_ws ?f" "v < bk_next_ws ?f" "wk_id (bk_ws ?f w) = wk_id (bk_ws ?f v)" for w v
    proof (cases "w = bk_next_ws b \<or> v = bk_next_ws b")
      case True
      show ?thesis
      proof (rule ccontr)
        assume "w \<noteq> v"
        then have "(w = bk_next_ws b \<and> v < bk_next_ws b) \<or> (v = bk_next_ws b \<and> w < bk_next_ws b)"
          using True that(1,2) by (auto simp: fresh_ws_def)
        then have "\<exists>x < bk_next_ws b. wk_id (bk_ws b x) = uuid"
          using that(3) by (auto simp: fresh_ws_def)
        then show False using T(7) u by blast
      qed
    next
      case False
      then have "w < bk_next_ws b" "v < bk_next_ws b" using that by (auto simp: fresh_ws_def)
      then show ?thesis using T(8) that(3) by (simp add: old)
    qed
    show "w < bk_next_ws ?f" if "w \<in> set (bk_teardowns ?f)" for w
      using that T(9) [of w] by (simp add: fresh_ws_def)
    show "w < bk_next_ws ?f \<and> (\<forall>i. Map_Get (bk_workspaces ?f) i \<noteq> Some w)" if "w \<in> set (bk_ws_shutdowns ?f)" for w
      using that T(10,11) [of w] by (simp add: fresh_ws_def)
    show "gomap_ok (inner (bk_workspaces ?f))" "gomap_ok (bk_index ?f)" using T(1,2) by (simp_all add: fresh_ws_def)
  qed
  have ne: "bk_tasks b \<noteq> []" "\<not> bk_closing b" using t D(3) by (auto simp: tasks_ok_def)
  show "tasks_ok ?f"
    using D(3) ne t by (auto simp: tasks_ok_def fresh_ws_def gomap_simps gomap_length_set simp del: map_of_eq_Some_iff)
  show "orphans_ok ?f"
    unfolding orphans_ok_def
  proof (intro allI impI)
    fix i w assume w: "Map_Get (bk_workspaces ?f) i = Some w" and e: "wk_clients (bk_ws ?f w) = []"
    have "w < bk_next_ws b" using T(3) [of i w] w by (simp add: get)
    then show "w \<in> set (bk_teardowns ?f)" using D(4) w e by (simp add: orphans_ok_def fresh_ws_def)
  qed
  show "shutdown_ok ?f" using D(5) ne by (simp add: shutdown_ok_def fresh_ws_def idle_ids_def)
qed

lemma discard_inv:
  assumes inv: "backend_inv b" and w: "w < bk_next_ws b" "\<And>i. Map_Get (bk_workspaces b) i \<noteq> Some w"
  shows "backend_inv (discard_ws w b)"
proof (rule backend_invI)
  note D = backend_invD [OF inv]
  show "claims_ok (discard_ws w b)" by (rule claims_cong [OF D(1)]) (simp_all add: discard_ws_def)
  show "table_ok (discard_ws w b)" using D(2) w by (simp add: table_ok_def discard_ws_def)
  show "orphans_ok (discard_ws w b)" using D(4) by (simp add: orphans_ok_def discard_ws_def)
  show "tasks_ok (discard_ws w b)" using D(3) by (simp add: tasks_ok_def discard_ws_def)
  show "shutdown_ok (discard_ws w b)" using D(5) by (simp add: shutdown_ok_def discard_ws_def idle_ids_def)
qed

lemma settle_cases:
  assumes tab: "table_ok (fresh_ws uuid k t b)" and t: "map_of (bk_tasks b) k = Some t"
    and s: "CreateWorkspace_settle uuid k b = Some (r, b')"
  obtains (reject) e where "r = CreateFailed e" "b' = discard_ws (bk_next_ws b) (fresh_ws uuid k t b)"
  | (shared) i w where "r = CreatedShared w" "Map_Get (bk_workspaces b) i = Some w" "admitLocked b (ca_client (ct_args t)) = None"
      "b' = discard_ws (bk_next_ws b) (registerClient w (ca_client (ct_args t)) (fresh_ws uuid k t b))"
  | (install) "r = CreatedShared (bk_next_ws b)" "map_of (bk_index b) (ct_key t) = None" "admitLocked b (ca_client (ct_args t)) = None"
      "b' = registerClient (bk_next_ws b) (ca_client (ct_args t)) (install_ws uuid (ct_key t) (bk_next_ws b) (fresh_ws uuid k t b))"
proof -
  define f where "f = fresh_ws uuid k t b"
  have f: "b\<lparr>bk_ws := (bk_ws b)(bk_next_ws b := \<lparr>wk_id = uuid, wk_path = ca_path (ct_args t), wk_key = ct_key t,
          wk_channels = ca_channels (ct_args t), wk_clients = []\<rparr>),
       bk_next_ws := Suc (bk_next_ws b), bk_used := bk_used b @ [uuid],
       bk_tasks := AList.update k (t\<lparr>ct_settled := True\<rparr>) (bk_tasks b)\<rparr> = f"
    by (simp add: f_def fresh_ws_def)
  have uns: "\<not> ct_settled t" using s t by (auto simp: CreateWorkspace_settle_def)
  have fb: "bk_index f = bk_index b" "bk_workspaces f = bk_workspaces b" "admitLocked f c = admitLocked b c" for c
    by (simp_all add: f_def fresh_ws_def admitLocked_def)
  note s' = s [unfolded CreateWorkspace_settle_def t option.case Let_def f if_not_P [OF uns] option.inject]
  show ?thesis
  proof (cases "admitLocked f (ca_client (ct_args t))")
    case (Some e)
    then show ?thesis using s' by (intro reject) (auto simp: discard_ws_def f_def)
  next
    case adm: None
    show ?thesis
    proof (cases "map_of (bk_index f) (ct_key t)")
      case None
      then show ?thesis using s' adm fb by (intro install) (auto simp: install_ws_def f_def [symmetric])
    next
      case (Some i)
      then obtain w where w: "Map_Get (bk_workspaces f) i = Some w"
        using table_okD(6) [OF tab] by (auto simp: f_def)
      show ?thesis
      proof (cases "wk_channels (bk_ws f w) = ca_channels (ct_args t)")
        case True
        then show ?thesis using s' adm fb Some w
          by (intro shared [of w i]) (auto simp: discard_ws_def f_def [symmetric])
      next
        case False
        then show ?thesis using s' adm fb Some w by (intro reject) (auto simp: discard_ws_def f_def [symmetric])
      qed
    qed
  qed
qed

lemma install_inv:
  assumes inv: "backend_inv b" and f: "backend_inv (fresh_ws uuid k t b)" and t: "map_of (bk_tasks b) k = Some t"
    and u: "uuid \<notin> set (bk_used b)" and idx: "map_of (bk_index b) (ct_key t) = None"
  shows "backend_inv (registerClient (bk_next_ws b) c (install_ws uuid (ct_key t) (bk_next_ws b) (fresh_ws uuid k t b)))"
proof -
  define f where "f = fresh_ws uuid k t b"
  define g where "g = install_ws uuid (ct_key t) (bk_next_ws b) f"
  define w where "w = bk_next_ws b"
  note F = backend_invD [OF f [folded f_def]]
  note T = table_okD [OF F(2)]
  have fw: "wk_id (bk_ws f w) = uuid" "wk_key (bk_ws f w) = ct_key t" "w < bk_next_ws f" "bk_index f = bk_index b"
    "bk_workspaces f = bk_workspaces b" by (simp_all add: f_def fresh_ws_def w_def)
  have gf: "bk_ws g = bk_ws f" "bk_next_ws g = bk_next_ws f" "bk_used g = bk_used f" "bk_teardowns g = bk_teardowns f"
    "bk_ws_shutdowns g = bk_ws_shutdowns f" "bk_index g = AList.update (ct_key t) uuid (bk_index f)"
    "bk_workspaces g = Map_Set (bk_workspaces f) uuid w"
    by (simp_all add: g_def install_ws_def w_def)
  have unew: "Map_Get (bk_workspaces f) uuid = None"
  proof (cases "Map_Get (bk_workspaces b) uuid")
    case (Some v)
    then have "uuid \<in> set (bk_used b)"
      using table_okD(3,4,7) [OF backend_invD(2) [OF inv]] by metis
    then show ?thesis using u by simp
  qed (simp add: fw)
  have nsd: "w \<notin> set (bk_ws_shutdowns f)"
    using table_okD(10) [OF backend_invD(2) [OF inv], of w] by (auto simp: w_def f_def fresh_ws_def)
  have cg: "claims_ok g" by (rule claims_cong [OF F(1)]) (simp_all add: g_def install_ws_def)
  have tg: "table_ok g"
  proof (rule table_okI; unfold gf)
    show "gomap_ok (inner (Map_Set (bk_workspaces f) uuid w))" using T(1) by (simp add: Map_Set_def)
    show "gomap_ok (AList.update (ct_key t) uuid (bk_index f))" using T(2) by simp
    show "v < bk_next_ws f \<and> wk_id (bk_ws f v) = i \<and> map_of (AList.update (ct_key t) uuid (bk_index f)) (wk_key (bk_ws f v)) = Some i"
      if "Map_Get (Map_Set (bk_workspaces f) uuid w) i = Some v" for i v
    proof (cases "i = uuid")
      case True
      then show ?thesis using that fw by (simp add: Map_Get_set gomap_simps)
    next
      case False
      then have v: "Map_Get (bk_workspaces f) i = Some v" using that by (simp add: Map_Get_set)
      then show ?thesis using T(3-5) [OF v] idx fw(4) by (auto simp: gomap_simps)
    qed
    show "\<exists>v. Map_Get (Map_Set (bk_workspaces f) uuid w) i = Some v \<and> wk_key (bk_ws f v) = k'"
      if m: "map_of (AList.update (ct_key t) uuid (bk_index f)) k' = Some i" for k' i
    proof (cases "k' = ct_key t")
      case True
      then show ?thesis using m fw by (simp add: Map_Get_set gomap_simps)
    next
      case False
      then have "map_of (bk_index f) k' = Some i" using m by (simp add: gomap_simps)
      then obtain v where "Map_Get (bk_workspaces f) i = Some v" "wk_key (bk_ws f v) = k'" using T(6) by blast
      then show ?thesis using unew by (intro exI [of _ v]) (auto simp: Map_Get_set)
    qed
    show "v < bk_next_ws f \<and> (\<forall>i. Map_Get (Map_Set (bk_workspaces f) uuid w) i \<noteq> Some v)" if "v \<in> set (bk_ws_shutdowns f)" for v
      using that nsd T(10,11) [of v] by (auto simp: Map_Get_set)
  qed (use T(7-9) in auto)
  have wg: "w < bk_next_ws g" using fw gf by simp
  have ne: "bk_tasks b \<noteq> []" "\<not> bk_closing b" using t backend_invD(3) [OF inv] by (auto simp: tasks_ok_def)
  have kg: "tasks_ok g" using F(3) ne by (simp add: tasks_ok_def g_def install_ws_def) (simp add: f_def fresh_ws_def)
  have sg: "shutdown_ok g" using F(5) by (simp add: shutdown_ok_def g_def install_ws_def idle_ids_def Map_Set_def)
  define h where "h = registerClient w c g"
  have st: "claim_step w g h" and hne: "wk_clients (bk_ws h w) \<noteq> []"
    unfolding h_def by (rule registerClient_step [OF cg])+
  have ch: "claims_ok h" unfolding h_def by (rule registerClient_claims [OF cg wg])
  have "orphans_ok h"
    unfolding orphans_ok_def
  proof (intro allI impI)
    fix i v assume i: "Map_Get (bk_workspaces h) i = Some v" and e: "wk_clients (bk_ws h v) = []"
    have vw: "v \<noteq> w" using e hne by auto
    have "bk_workspaces h = bk_workspaces g" using st by (simp add: claim_step_def same_table_def)
    then have "Map_Get (bk_workspaces f) i = Some v"
      using i vw by (auto simp: gf Map_Get_set split: if_splits)
    moreover have "wk_clients (bk_ws f v) = []" using st vw e by (simp add: claim_step_def gf)
    ultimately have "v \<in> set (bk_teardowns f)" using F(4) by (simp add: orphans_ok_def)
    then show "v \<in> set (bk_teardowns h)" using st by (auto simp: claim_step_def gf)
  qed
  moreover have "table_ok h" "tasks_ok h" "shutdown_ok h"
    using claim_step_table [OF st wg tg kg sg] by auto
  ultimately have "backend_inv h" using ch by (simp add: backend_invI)
  then show ?thesis by (simp add: h_def g_def f_def w_def)
qed

lemma settle_inv:
  assumes inv: "backend_inv b" and u: "uuid \<notin> set (bk_used b)" and s: "CreateWorkspace_settle uuid k b = Some (r, b')"
  shows "backend_inv b'"
proof -
  obtain t where t: "map_of (bk_tasks b) k = Some t" using s by (auto simp: CreateWorkspace_settle_def split: option.splits)
  note F = fresh_inv [OF inv t u]
  have new: "Map_Get (bk_workspaces b) i \<noteq> Some (bk_next_ws b)" for i
    using table_okD(3) [OF backend_invD(2) [OF inv], of i "bk_next_ws b"] by auto
  show ?thesis
  proof (rule settle_cases [OF backend_invD(2) [OF F] t s])
    fix e assume "b' = discard_ws (bk_next_ws b) (fresh_ws uuid k t b)"
    then show ?thesis using discard_inv [OF F] new by (simp add: fresh_ws_def)
  next
    fix i w
    assume w: "Map_Get (bk_workspaces b) i = Some w"
      and b': "b' = discard_ws (bk_next_ws b) (registerClient w (ca_client (ct_args t)) (fresh_ws uuid k t b))"
    have wn: "w < bk_next_ws (fresh_ws uuid k t b)" using table_okD(3) [OF backend_invD(2) [OF inv] w] by (simp add: fresh_ws_def)
    have st: "claim_step w (fresh_ws uuid k t b) (registerClient w (ca_client (ct_args t)) (fresh_ws uuid k t b))"
      by (rule registerClient_step(1) [OF backend_invD(1) [OF F]])
    have R: "backend_inv (registerClient w (ca_client (ct_args t)) (fresh_ws uuid k t b))"
      by (rule claim_step_inv [OF st wn F registerClient_claims [OF backend_invD(1) [OF F] wn]])
    have "bk_next_ws (registerClient w (ca_client (ct_args t)) (fresh_ws uuid k t b)) = Suc (bk_next_ws b)"
      "bk_workspaces (registerClient w (ca_client (ct_args t)) (fresh_ws uuid k t b)) = bk_workspaces b"
      using st by (simp_all add: claim_step_def same_table_def fresh_ws_def)
    then show ?thesis unfolding b' using new by (intro discard_inv [OF R]) simp_all
  next
    assume "map_of (bk_index b) (ct_key t) = None"
      "b' = registerClient (bk_next_ws b) (ca_client (ct_args t)) (install_ws uuid (ct_key t) (bk_next_ws b) (fresh_ws uuid k t b))"
    then show ?thesis using install_inv [OF inv F t u] by simp
  qed
qed

lemma step_inv:
  assumes "backend_step uuidOk res b b'" and inv: "backend_inv b"
  shows "backend_inv b'"
proof -
  obtain op where e: "backend_exec uuidOk res op b = Some b'" using assms(1) by (rule backend_stepE)
  note c = backend_invD(1) [OF inv]
  show ?thesis
  proof (cases op)
    case (BSettle uuid k)
    then obtain r where "CreateWorkspace_settle uuid k b = Some (r, b')" "uuid \<notin> set (bk_used b)"
      using e by (auto split: if_splits)
    then show ?thesis using settle_inv [OF inv] by blast
  next
    case (BDetach w d)
    then show ?thesis using e claim_step_inv [OF detachStream_step [OF c] _ inv detachStream_claims [OF c]] by (auto split: if_splits)
  next
    case (BRelease w d)
    then show ?thesis using e claim_step_inv [OF releaseHoldLocked_step [OF c] _ inv releaseHoldLocked_claims [OF c]] by (auto split: if_splits)
  next
    case (BSetSession wid d sid)
    then have b': "b' = snd (SetCurrentSession uuidOk wid d sid b)" using e by simp
    show ?thesis
    proof (cases "Map_Get (bk_workspaces b) wid")
      case None
      then show ?thesis using inv by (simp add: b' SetCurrentSession_def split: sum.splits)
    next
      case (Some w)
      show ?thesis unfolding b'
        by (rule claim_step_inv [OF SetCurrentSession_step table_okD(3) [OF backend_invD(2) [OF inv] Some] inv SetCurrentSession_claims [OF c]])
    qed
  next
    case (BCreate args)
    then show ?thesis using e begin_inv [OF inv, of uuidOk res args] by auto
  next
    case (BReturn k)
    then show ?thesis using e return_inv [OF inv] by simp
  next
    case (BAttach wid d)
    then show ?thesis using e attach_inv [OF inv] by auto
  next
    case (BRetire d)
    then show ?thesis using e retire_inv [OF inv] by auto
  next
    case (BFire t)
    then show ?thesis using e fire_inv [OF inv] by simp
  next
    case (BTimer t)
    then show ?thesis using e timer_inv [OF inv] by simp
  next
    case (BTeardown w)
    then show ?thesis using e teardown_inv [OF inv] by simp
  next
    case BShutdownIfIdle
    then show ?thesis using e ShutdownIfIdle_inv [OF inv] by auto
  qed
qed

interpretation backend_sys: transition_system backend_start "backend_step uuidOk res" backend_inv
  by unfold_locales (auto intro: start_inv step_inv)

subsection \<open>What one step can change\<close>

lemma newHeldClient_at [simp]: "client_at (snd (newHeldClient w c s b)) v d = client_at b v d"
  by (simp add: newHeldClient_def Let_def split_beta)

lemma registerClient_at: "client_at (registerClient w c b) v d \<noteq> None \<Longrightarrow> client_at b v d \<noteq> None \<or> (v = w \<and> d = c)"
  by (auto simp: registerClient_def Let_def split_beta split: option.splits if_splits)

lemma detachStream_at: "client_at (detachStream w c b) v d \<noteq> None \<Longrightarrow> client_at b v d \<noteq> None"
  by (auto simp: detachStream_def Let_def split_beta split: option.splits if_splits)

lemma releaseHoldLocked_at: "client_at (releaseHoldLocked w c b) v d \<noteq> None \<Longrightarrow> client_at b v d \<noteq> None"
  by (auto simp: releaseHoldLocked_def Let_def split: option.splits if_splits)

lemma retire_one_at: "client_at (retire_one c w b) v d = (if v = w \<and> d = c then None else client_at b v d)"
  by (auto simp: retire_one_def split: option.splits)

lemma expireHold_at: "client_at (expireHold w c p b) v d \<noteq> None \<Longrightarrow> client_at b v d \<noteq> None"
  by (auto simp: expireHold_def Let_def split: option.splits if_splits)

lemma SetCurrentSession_at [simp]: "client_at (snd (SetCurrentSession uuidOk wid c sid b)) v d = client_at b v d"
  by (simp add: SetCurrentSession_def split: sum.splits option.splits)

lemma AttachClient_at: "client_at (snd (AttachClient uuidOk wid c b)) v d \<noteq> None \<Longrightarrow> client_at b v d \<noteq> None \<or> d = c"
  by (auto simp: AttachClient_def Let_def split_beta split: sum.splits option.splits if_splits)

lemma retire_fold_at:
  "client_at (fold (\<lambda>(i, w). retire_one c w) ws b) v d = (if d = c \<and> v \<in> snd ` set ws then None else client_at b v d)"
  by (induction ws arbitrary: b) (auto simp: retire_one_at split_beta)

lemma client_at_cong: "bk_ws b' = bk_ws b \<Longrightarrow> client_at b' = client_at b"
  by (intro ext) (simp add: client_at_def)

lemma schedule_ws [simp]: "bk_ws (snd (scheduleShutdownIfIdleLocked b)) = bk_ws b"
  "bk_workspaces (snd (scheduleShutdownIfIdleLocked b)) = bk_workspaces b"
  "bk_retired (snd (scheduleShutdownIfIdleLocked b)) = bk_retired b"
  by (simp_all add: schedule_snd AfterFunc_def)

lemma run_shutdown_fields [simp]: "bk_ws (run_shutdown n b) = bk_ws b" "bk_workspaces (run_shutdown n b) = bk_workspaces b"
  "bk_closing (run_shutdown n b) = bk_closing b" "bk_retired (run_shutdown n b) = bk_retired b"
  by (simp_all add: run_shutdown_def)

lemma maybeShutdown_fields [simp]: "bk_ws (maybeShutdown b) = bk_ws b" "bk_workspaces (maybeShutdown b) = bk_workspaces b"
  "bk_retired (maybeShutdown b) = bk_retired b"
  by (simp_all add: maybeShutdown_def Let_def)

lemma ShutdownIfIdle_fields [simp]: "bk_ws (snd (ShutdownIfIdle b)) = bk_ws b"
  "bk_workspaces (snd (ShutdownIfIdle b)) = bk_workspaces b" "bk_retired (snd (ShutdownIfIdle b)) = bk_retired b"
  by (simp_all add: ShutdownIfIdle_def Let_def)

lemma return_fields:
  "CreateWorkspace_return k b = Some b' \<Longrightarrow> bk_ws b' = bk_ws b \<and> bk_workspaces b' = bk_workspaces b \<and> bk_retired b' = bk_retired b"
  by (auto simp: CreateWorkspace_return_def Let_def split_beta split: option.splits)

lemma fire_fields:
  "Timer_Fire t b = Some b' \<Longrightarrow> bk_ws b' = bk_ws b \<and> bk_workspaces b' = bk_workspaces b \<and> bk_retired b' = bk_retired b"
  by (auto simp: Timer_Fire_def split: option.splits if_splits)

lemma teardown_fields:
  assumes "teardown_run w b = Some b'"
  shows "bk_ws b' = bk_ws b" "bk_retired b' = bk_retired b"
    "bk_workspaces b' = (if wk_clients (bk_ws b w) = [] then Map_Del (bk_workspaces b) (wk_id (bk_ws b w)) else bk_workspaces b)"
  using assms by (auto simp: teardown_run_def teardown_def Let_def split_beta split: if_splits)

text \<open>A claim appears only through an attach, or through a create whose client is still admitted.\<close>

lemma begin_at:
  assumes "table_ok b" and n: "client_at (snd (CreateWorkspace_begin uuidOk res args b)) v d \<noteq> None"
  shows "client_at b v d \<noteq> None \<or> admitLocked b d = None"
proof (rule begin_cases [OF assms(1), of uuidOk res args])
  fix w i assume "CreateWorkspace_begin uuidOk res args b = (CreatedShared w, registerClient w (ca_client args) (cancelShutdownLocked b))"
    "admitLocked b (ca_client args) = None"
  then show ?thesis
    using n registerClient_at [of w "ca_client args" "cancelShutdownLocked b" v d] by (auto simp: client_at_def)
qed (use n in \<open>auto simp: client_at_def commit_create_def\<close>)

lemma settle_at:
  assumes inv: "backend_inv b" and u: "uuid \<notin> set (bk_used b)" and s: "CreateWorkspace_settle uuid k b = Some (r, b')"
    and n: "client_at b' v d \<noteq> None"
  shows "client_at b v d \<noteq> None \<or> admitLocked b d = None"
proof -
  obtain t where t: "map_of (bk_tasks b) k = Some t" using s by (auto simp: CreateWorkspace_settle_def split: option.splits)
  note F = fresh_inv [OF inv t u]
  note fat = fresh_client [OF backend_invD(1) [OF inv], of uuid k t]
  have dat: "client_at (discard_ws x y) = client_at y" for x y by (intro client_at_cong) (simp add: discard_ws_def)
  have iat: "client_at (install_ws x y z f) = client_at f" for x y z f by (intro client_at_cong) (simp add: install_ws_def)
  show ?thesis
    by (rule settle_cases [OF backend_invD(2) [OF F] t s])
      (use n registerClient_at in \<open>fastforce simp: dat iat fat\<close>)+
qed

lemma Timer_run_SomeD:
  assumes "Timer_run t b = Some b'"
  shows "\<exists>tm :: timer. map_of (bk_timers b) t = Some tm \<and>
    b' = (case tm_target tm of HoldExpiry w c p \<Rightarrow> expireHold w c p (b\<lparr>bk_timers := AList.delete t (bk_timers b)\<rparr>)
      | IdleShutdown \<Rightarrow> maybeShutdown (b\<lparr>bk_timers := AList.delete t (bk_timers b)\<rparr>))"
proof (cases "map_of (bk_timers b) t")
  case (Some tm)
  then have "tm_fired tm" using assms by (auto simp: Timer_run_def split: if_splits)
  then show ?thesis using assms Some by (auto simp: Timer_run_def Let_def)
qed (use assms in \<open>simp add: Timer_run_def\<close>)

lemma claim_gain:
  assumes inv: "backend_inv b" and e: "backend_exec uuidOk res op b = Some b'" and n: "client_at b' v d \<noteq> None"
  shows "client_at b v d \<noteq> None \<or> admitLocked b d = None \<or> (\<exists>wid. op = BAttach wid d)"
proof (cases op)
  case (BCreate args)
  then show ?thesis using e n begin_at [OF backend_invD(2) [OF inv], of uuidOk res args v d] by auto
next
  case (BSettle uuid k)
  then obtain r where "CreateWorkspace_settle uuid k b = Some (r, b')" "uuid \<notin> set (bk_used b)"
    using e by (auto split: if_splits)
  then show ?thesis using settle_at [OF inv _ _ n] by blast
next
  case (BReturn k)
  then show ?thesis using e n return_fields [of k b b'] client_at_cong [of b' b] by simp
next
  case (BAttach wid c)
  then show ?thesis using e n AttachClient_at [of uuidOk wid c b v d] by auto
next
  case (BDetach w c)
  then show ?thesis using e n detachStream_at [of w c b v d] by (auto split: if_splits)
next
  case (BRelease w c)
  then show ?thesis using e n releaseHoldLocked_at [of w c b v d] by (auto split: if_splits)
next
  case (BRetire c)
  have "client_at (b\<lparr>bk_retired := r\<rparr>) = client_at b" for r by (rule client_at_cong) simp
  then show ?thesis
    using e n BRetire by (auto simp: RetireClient_def retire_fold_at split: sum.splits if_splits)
next
  case (BFire t)
  then show ?thesis using e n fire_fields [of t b b'] client_at_cong [of b' b] by simp
next
  case (BTimer t)
  have at: "client_at (b\<lparr>bk_timers := x\<rparr>) = client_at b" for x by (rule client_at_cong) simp
  obtain tm :: timer where tm: "b' = (case tm_target tm of HoldExpiry w c p \<Rightarrow> expireHold w c p (b\<lparr>bk_timers := AList.delete t (bk_timers b)\<rparr>)
      | IdleShutdown \<Rightarrow> maybeShutdown (b\<lparr>bk_timers := AList.delete t (bk_timers b)\<rparr>))"
    using Timer_run_SomeD [OF e [unfolded BTimer backend_exec.simps]] by blast
  then have "client_at (b\<lparr>bk_timers := AList.delete t (bk_timers b)\<rparr>) v d \<noteq> None"
  proof (cases "tm_target tm")
    case (HoldExpiry w c p)
    have "client_at (expireHold w c p (b\<lparr>bk_timers := AList.delete t (bk_timers b)\<rparr>)) v d \<noteq> None"
      using n tm HoldExpiry by simp
    then show ?thesis by (rule expireHold_at)
  next
    case IdleShutdown
    have "client_at (maybeShutdown (b\<lparr>bk_timers := AList.delete t (bk_timers b)\<rparr>)) v d \<noteq> None"
      using n tm IdleShutdown by simp
    then show ?thesis by (simp add: client_at_def)
  qed
  then show ?thesis by (simp add: at)
next
  case (BTeardown w)
  then show ?thesis using e n teardown_fields(1) [of w b b'] client_at_cong [of b' b] by simp
next
  case BShutdownIfIdle
  then show ?thesis using e n client_at_cong [of b' b] by auto
next
  case (BSetSession wid c sid)
  then show ?thesis using e n by auto
qed

text \<open>The table changes only by an admitted install and by the teardown of an unclaimed workspace.\<close>

lemma claim_step_workspaces: "claim_step w b b' \<Longrightarrow> bk_workspaces b' = bk_workspaces b \<and> bk_retired b' = bk_retired b"
  by (simp add: claim_step_def same_table_def)

lemma retire_fold_table:
  assumes "claims_ok b"
  shows "bk_workspaces (fold (\<lambda>(i, w). retire_one c w) ws b) = bk_workspaces b"
    "bk_retired (fold (\<lambda>(i, w). retire_one c w) ws b) = bk_retired b"
  using assms
  by (induction ws arbitrary: b)
    (simp_all add: split_beta retire_one_claims claim_step_workspaces [OF retire_one_step])

lemma RetireClient_table:
  assumes "backend_inv b"
  shows "bk_workspaces (snd (RetireClient uuidOk c b)) = bk_workspaces b"
    "bk_retired (snd (RetireClient uuidOk c b)) =
       (if validateClientID uuidOk c = Inr c then AList.update c () (bk_retired b) else bk_retired b)"
proof -
  have "claims_ok (b\<lparr>bk_retired := r\<rparr>)" for r using retired_cong [OF assms] by (simp add: backend_inv_def)
  then show "bk_workspaces (snd (RetireClient uuidOk c b)) = bk_workspaces b"
    "bk_retired (snd (RetireClient uuidOk c b)) =
       (if validateClientID uuidOk c = Inr c then AList.update c () (bk_retired b) else bk_retired b)"
    by (auto simp: RetireClient_def retire_fold_table validateClientID_def)
qed

lemma expireHold_table: "bk_workspaces (expireHold w c p b) = bk_workspaces b \<and> bk_retired (expireHold w c p b) = bk_retired b"
  by (rule claim_step_workspaces [OF expireHold_step])

lemma settle_table:
  assumes inv: "backend_inv b" and u: "uuid \<notin> set (bk_used b)" and s: "CreateWorkspace_settle uuid k b = Some (r, b')"
  shows "bk_retired b' = bk_retired b"
    "bk_workspaces b' = bk_workspaces b \<or> bk_workspaces b' = Map_Set (bk_workspaces b) uuid (bk_next_ws b)"
proof -
  obtain t where t: "map_of (bk_tasks b) k = Some t" using s by (auto simp: CreateWorkspace_settle_def split: option.splits)
  note F = fresh_inv [OF inv t u]
  define f where "f = fresh_ws uuid k t b"
  have ff: "bk_workspaces f = bk_workspaces b" "bk_retired f = bk_retired b" by (simp_all add: f_def fresh_ws_def)
  have cf: "claims_ok f" using F by (simp add: backend_inv_def f_def)
  have ci: "claims_ok (install_ws x y z f)" for x y z by (rule claims_cong [OF cf]) (simp_all add: install_ws_def)
  have reg: "bk_workspaces (registerClient w c f) = bk_workspaces b" "bk_retired (registerClient w c f) = bk_retired b" for w c
    using claim_step_workspaces [OF registerClient_step(1) [OF cf]] ff by simp_all
  have regi: "bk_workspaces (registerClient w c (install_ws x y z f)) = Map_Set (bk_workspaces b) x z"
    "bk_retired (registerClient w c (install_ws x y z f)) = bk_retired b" for w c x y z
    using claim_step_workspaces [OF registerClient_step(1) [OF ci]] ff by (simp_all add: install_ws_def)
  have "bk_retired b' = bk_retired b \<and>
    (bk_workspaces b' = bk_workspaces b \<or> bk_workspaces b' = Map_Set (bk_workspaces b) uuid (bk_next_ws b))"
    by (rule settle_cases [OF backend_invD(2) [OF F] t s])
      (auto simp: f_def [symmetric] ff discard_ws_def reg regi)
  then show "bk_retired b' = bk_retired b"
    "bk_workspaces b' = bk_workspaces b \<or> bk_workspaces b' = Map_Set (bk_workspaces b) uuid (bk_next_ws b)" by auto
qed

lemma begin_table:
  assumes inv: "backend_inv b"
  shows "bk_workspaces (snd (CreateWorkspace_begin uuidOk res args b)) = bk_workspaces b"
    "bk_retired (snd (CreateWorkspace_begin uuidOk res args b)) = bk_retired b"
proof -
  have "bk_workspaces (snd (CreateWorkspace_begin uuidOk res args b)) = bk_workspaces b \<and>
    bk_retired (snd (CreateWorkspace_begin uuidOk res args b)) = bk_retired b"
    by (rule begin_cases [OF backend_invD(2) [OF inv], of uuidOk res args])
      (simp_all add: commit_create_def claim_step_workspaces [OF registerClient_step(1) [OF cancelShutdown_inv(1) [OF inv]]])
  then show "bk_workspaces (snd (CreateWorkspace_begin uuidOk res args b)) = bk_workspaces b"
    "bk_retired (snd (CreateWorkspace_begin uuidOk res args b)) = bk_retired b" by auto
qed

lemma AttachClient_table:
  assumes "claims_ok b"
  shows "bk_workspaces (snd (AttachClient uuidOk wid c b)) = bk_workspaces b"
    "bk_retired (snd (AttachClient uuidOk wid c b)) = bk_retired b"
proof -
  have "bk_workspaces (snd (AttachClient uuidOk wid c b)) = bk_workspaces b \<and>
      bk_retired (snd (AttachClient uuidOk wid c b)) = bk_retired b"
  proof (cases "Map_Get (bk_workspaces b) wid")
    case None
    then show ?thesis by (simp add: AttachClient_def split: sum.splits)
  next
    case (Some w)
    show ?thesis by (rule claim_step_workspaces [OF AttachClient_step [OF assms Some]])
  qed
  then show "bk_workspaces (snd (AttachClient uuidOk wid c b)) = bk_workspaces b"
    "bk_retired (snd (AttachClient uuidOk wid c b)) = bk_retired b" by auto
qed

lemma table_change:
  assumes inv: "backend_inv b" and e: "backend_exec uuidOk res op b = Some b'"
  shows "bk_workspaces b' = bk_workspaces b \<or>
     (\<exists>uuid. uuid \<notin> set (bk_used b) \<and> bk_workspaces b' = Map_Set (bk_workspaces b) uuid (bk_next_ws b)) \<or>
     (\<exists>w. wk_clients (bk_ws b w) = [] \<and> w < bk_next_ws b \<and> bk_workspaces b' = Map_Del (bk_workspaces b) (wk_id (bk_ws b w)))"
    and "map_of (bk_retired b) c \<noteq> None \<Longrightarrow> map_of (bk_retired b') c \<noteq> None"
proof -
  note cl = backend_invD(1) [OF inv]
  have "(bk_workspaces b' = bk_workspaces b \<or>
     (\<exists>uuid. uuid \<notin> set (bk_used b) \<and> bk_workspaces b' = Map_Set (bk_workspaces b) uuid (bk_next_ws b)) \<or>
     (\<exists>w. wk_clients (bk_ws b w) = [] \<and> w < bk_next_ws b \<and> bk_workspaces b' = Map_Del (bk_workspaces b) (wk_id (bk_ws b w)))) \<and>
     (map_of (bk_retired b) c \<noteq> None \<longrightarrow> map_of (bk_retired b') c \<noteq> None)"
  proof (cases op)
    case (BSettle uuid k)
    then obtain r where r: "CreateWorkspace_settle uuid k b = Some (r, b')" "uuid \<notin> set (bk_used b)"
      using e by (auto split: if_splits)
    show ?thesis using settle_table [OF inv r(2,1)] r(2) by auto
  next
    case (BTeardown w)
    then have "w < bk_next_ws b" using e table_okD(9) [OF backend_invD(2) [OF inv]] by (auto simp: teardown_run_def split: if_splits)
    then show ?thesis using BTeardown e teardown_fields(2,3) [of w b b'] by auto
  next
    case (BTimer t)
    obtain tm :: timer where "b' = (case tm_target tm of HoldExpiry w c p \<Rightarrow> expireHold w c p (b\<lparr>bk_timers := AList.delete t (bk_timers b)\<rparr>)
      | IdleShutdown \<Rightarrow> maybeShutdown (b\<lparr>bk_timers := AList.delete t (bk_timers b)\<rparr>))"
      using Timer_run_SomeD [OF e [unfolded BTimer backend_exec.simps]] by blast
    then show ?thesis by (cases "tm_target tm") (simp_all add: expireHold_table)
  next
    case (BCreate args)
    then show ?thesis using e begin_table [OF inv, of uuidOk res args] by auto
  next
    case (BReturn k)
    then show ?thesis using e return_fields [of k b b'] by simp
  next
    case (BAttach wid d)
    then show ?thesis using e AttachClient_table [OF cl, of uuidOk wid d] by auto
  next
    case (BDetach w d)
    then show ?thesis using e claim_step_workspaces [OF detachStream_step [OF cl]] by (auto split: if_splits)
  next
    case (BRelease w d)
    then show ?thesis using e claim_step_workspaces [OF releaseHoldLocked_step [OF cl]] by (auto split: if_splits)
  next
    case (BRetire d)
    then show ?thesis using e RetireClient_table [OF inv, of uuidOk d] by (auto simp: gomap_simps split: if_splits)
  next
    case (BFire t)
    then show ?thesis using e fire_fields [of t b b'] by simp
  next
    case BShutdownIfIdle
    then show ?thesis using e by auto
  next
    case (BSetSession wid d sid)
    then show ?thesis using e claim_step_workspaces [OF SetCurrentSession_step] by auto
  qed
  then show "bk_workspaces b' = bk_workspaces b \<or>
     (\<exists>uuid. uuid \<notin> set (bk_used b) \<and> bk_workspaces b' = Map_Set (bk_workspaces b) uuid (bk_next_ws b)) \<or>
     (\<exists>w. wk_clients (bk_ws b w) = [] \<and> w < bk_next_ws b \<and> bk_workspaces b' = Map_Del (bk_workspaces b) (wk_id (bk_ws b w)))"
    "map_of (bk_retired b) c \<noteq> None \<Longrightarrow> map_of (bk_retired b') c \<noteq> None" by blast+
qed

text \<open>The decision to exit: never taken back, and the hook is called when it is taken.\<close>

definition exit_step :: "backend \<Rightarrow> backend \<Rightarrow> bool" where
  "exit_step b b' \<longleftrightarrow> bk_has_shutdown b' = bk_has_shutdown b \<and> (bk_closing b \<longrightarrow> bk_closing b') \<and>
     bk_server_shutdowns b \<le> bk_server_shutdowns b' \<and>
     (bk_closing b' \<longrightarrow> \<not> bk_closing b \<longrightarrow> bk_has_shutdown b \<longrightarrow> bk_server_shutdowns b' > 0)"

lemma exit_step_same:
  "bk_has_shutdown b' = bk_has_shutdown b \<Longrightarrow> bk_closing b' = bk_closing b \<Longrightarrow>
     bk_server_shutdowns b' = bk_server_shutdowns b \<Longrightarrow> exit_step b b'"
  by (simp add: exit_step_def)

lemma exit_claim: "claim_step w b b' \<Longrightarrow> exit_step b b'"
  by (rule exit_step_same) (simp_all add: claim_step_def same_table_def)

lemma exit_schedule:
  "exit_step b (run_shutdown (fst (scheduleShutdownIfIdleLocked b)) (snd (scheduleShutdownIfIdleLocked b)))"
  by (auto simp: exit_step_def scheduleShutdownIfIdleLocked_def run_shutdown_def AfterFunc_def)

lemma exit_maybe: "exit_step b (maybeShutdown b)" "exit_step b (snd (ShutdownIfIdle b))"
  by (simp_all add: exit_step_def maybeShutdown_def ShutdownIfIdle_def run_shutdown_def Let_def)

lemma exit_retire_fold: "claims_ok b \<Longrightarrow> exit_step b (fold (\<lambda>(i, w). retire_one c w) ws b)"
proof (induction ws arbitrary: b)
  case (Cons x ws)
  have "same_table b (retire_one c (snd x) b)" using retire_one_step [OF Cons.prems] by (auto simp: claim_step_def)
  moreover have "exit_step (retire_one c (snd x) b) (fold (\<lambda>(i, w). retire_one c w) ws (retire_one c (snd x) b))"
    by (rule Cons.IH [OF retire_one_claims [OF Cons.prems]])
  ultimately show ?case by (cases x) (simp add: exit_step_def same_table_def)
qed (simp add: exit_step_def)

lemma exit_cong:
  "exit_step x y \<Longrightarrow> bk_has_shutdown x = bk_has_shutdown b \<Longrightarrow> bk_closing x = bk_closing b \<Longrightarrow>
     bk_server_shutdowns x = bk_server_shutdowns b \<Longrightarrow> exit_step b y"
  by (simp add: exit_step_def)

lemma cancelShutdown_exit [simp]:
  "bk_has_shutdown (cancelShutdownLocked b) = bk_has_shutdown b"
  "bk_server_shutdowns (cancelShutdownLocked b) = bk_server_shutdowns b"
  by (simp_all add: cancelShutdownLocked_def Timer_Stop_def split: option.splits)

lemma exit_begin:
  assumes inv: "backend_inv b"
  shows "exit_step b (snd (CreateWorkspace_begin uuidOk res args b))"
  by (rule begin_cases [OF backend_invD(2) [OF inv], of uuidOk res args])
    (auto intro: exit_step_same exit_cong [OF exit_claim [OF registerClient_step(1) [OF cancelShutdown_inv(1) [OF inv]]]]
      simp: commit_create_def)

lemma exit_settle:
  assumes inv: "backend_inv b" and u: "uuid \<notin> set (bk_used b)" and s: "CreateWorkspace_settle uuid k b = Some (r, b')"
  shows "exit_step b b'"
proof -
  obtain t where t: "map_of (bk_tasks b) k = Some t" using s by (auto simp: CreateWorkspace_settle_def split: option.splits)
  note F = fresh_inv [OF inv t u]
  define f where "f = fresh_ws uuid k t b"
  have ff: "bk_has_shutdown f = bk_has_shutdown b" "bk_closing f = bk_closing b" "bk_server_shutdowns f = bk_server_shutdowns b"
    by (simp_all add: f_def fresh_ws_def)
  have cf: "claims_ok f" using F by (simp add: backend_inv_def f_def)
  have ci: "claims_ok (install_ws x y z f)" for x y z by (rule claims_cong [OF cf]) (simp_all add: install_ws_def)
  have "exit_step b (registerClient w c f)" for w c
    by (rule exit_cong [OF exit_claim [OF registerClient_step(1) [OF cf]] ff])
  then have r: "exit_step b (discard_ws v (registerClient w c f))" for w c v by (simp add: discard_ws_def exit_step_def)
  have i: "exit_step b (registerClient z c (install_ws x y z f))" for c x y z
    by (rule exit_cong [OF exit_claim [OF registerClient_step(1) [OF ci]]]) (simp_all add: install_ws_def ff)
  show ?thesis
    by (rule settle_cases [OF backend_invD(2) [OF F] t s])
      (auto simp: f_def [symmetric] r i, auto simp: exit_step_def discard_ws_def ff)
qed

lemma exit_teardown:
  assumes "teardown_run w b = Some b'"
  shows "exit_step b b'"
proof -
  define b0 where "b0 = b\<lparr>bk_teardowns := remove1 w (bk_teardowns b)\<rparr>"
  have b': "b' = teardown w b0" using assms by (simp add: teardown_run_def b0_def split: if_splits)
  define b2 where "b2 = (if map_of (bk_index b0) (wk_key (bk_ws b0 w)) = Some (wk_id (bk_ws b0 w))
      then b0\<lparr>bk_index := AList.delete (wk_key (bk_ws b0 w)) (bk_index b0)\<rparr> else b0)
    \<lparr>bk_workspaces := Map_Del (bk_workspaces b0) (wk_id (bk_ws b0 w))\<rparr>"
  have f: "bk_has_shutdown b2 = bk_has_shutdown b" "bk_closing b2 = bk_closing b" "bk_server_shutdowns b2 = bk_server_shutdowns b"
    by (simp_all add: b2_def b0_def)
  have "wk_clients (bk_ws b0 w) = [] \<Longrightarrow> b' = run_shutdown (fst (scheduleShutdownIfIdleLocked b2))
      ((snd (scheduleShutdownIfIdleLocked b2))\<lparr>bk_ws_shutdowns := bk_ws_shutdowns b2 @ [w]\<rparr>)"
    by (simp add: b' teardown_def Let_def split_beta b2_def)
  moreover have "exit_step b (run_shutdown n (x\<lparr>bk_ws_shutdowns := l\<rparr>)) = exit_step b (run_shutdown n x)" for n x l
    by (simp add: exit_step_def run_shutdown_def)
  moreover have "exit_step b b0" by (rule exit_step_same) (simp_all add: b0_def)
  ultimately show ?thesis
    using exit_cong [OF exit_schedule f] by (cases "wk_clients (bk_ws b0 w) = []") (simp_all add: b' teardown_def)
qed

lemma exec_exit:
  assumes inv: "backend_inv b" and e: "backend_exec uuidOk res op b = Some b'"
  shows "exit_step b b'"
proof (cases op)
  case (BCreate args)
  then show ?thesis using e exit_begin [OF inv, of uuidOk res args] by auto
next
  case (BSettle uuid k)
  then obtain r where "CreateWorkspace_settle uuid k b = Some (r, b')" "uuid \<notin> set (bk_used b)"
    using e by (auto split: if_splits)
  then show ?thesis using exit_settle [OF inv] by blast
next
  case (BReturn k)
  define b1 where "b1 = b\<lparr>bk_tasks := AList.delete k (bk_tasks b), bk_pending := bk_pending b - 1\<rparr>"
  have "b' = run_shutdown (fst (scheduleShutdownIfIdleLocked b1)) (snd (scheduleShutdownIfIdleLocked b1))"
    using e BReturn by (simp add: CreateWorkspace_return_def Let_def split_beta b1_def split: option.splits)
  then show ?thesis using exit_cong [OF exit_schedule, of b1 b] by (simp add: b1_def)
next
  case (BAttach wid d)
  show ?thesis
  proof (cases "Map_Get (bk_workspaces b) wid")
    case None
    then show ?thesis using e BAttach by (auto simp: AttachClient_def exit_step_def split: sum.splits)
  next
    case (Some w)
    then show ?thesis using e BAttach exit_claim [OF AttachClient_step [OF backend_invD(1) [OF inv] Some], of uuidOk d] by auto
  qed
next
  case (BDetach w d)
  then show ?thesis using e exit_claim [OF detachStream_step [OF backend_invD(1) [OF inv]]] by (auto split: if_splits)
next
  case (BRelease w d)
  then show ?thesis using e exit_claim [OF releaseHoldLocked_step [OF backend_invD(1) [OF inv]]] by (auto split: if_splits)
next
  case (BRetire d)
  have c: "claims_ok (b\<lparr>bk_retired := r\<rparr>)" for r using retired_cong [OF inv] by (simp add: backend_inv_def)
  have "exit_step b (fold (\<lambda>(i, w). retire_one d w) l (b\<lparr>bk_retired := r\<rparr>))" for r l
    by (rule exit_cong [OF exit_retire_fold [OF c]]) simp_all
  moreover have "exit_step b b" by (simp add: exit_step_def)
  ultimately show ?thesis using e BRetire by (auto simp: RetireClient_def split: sum.splits)
next
  case (BFire t)
  then show ?thesis using e by (auto simp: Timer_Fire_def exit_step_def split: option.splits if_splits)
next
  case (BTimer t)
  obtain tm :: timer where tm: "b' = (case tm_target tm of HoldExpiry w c p \<Rightarrow> expireHold w c p (b\<lparr>bk_timers := AList.delete t (bk_timers b)\<rparr>)
      | IdleShutdown \<Rightarrow> maybeShutdown (b\<lparr>bk_timers := AList.delete t (bk_timers b)\<rparr>))"
    using Timer_run_SomeD [OF e [unfolded BTimer backend_exec.simps]] by blast
  show ?thesis
    unfolding tm by (cases "tm_target tm")
      (simp_all add: exit_cong [OF exit_claim [OF expireHold_step]] exit_cong [OF exit_maybe(1)])
next
  case (BTeardown w)
  then show ?thesis using e exit_teardown by simp
next
  case BShutdownIfIdle
  then show ?thesis using e exit_maybe(2) by auto
next
  case (BSetSession wid d sid)
  then show ?thesis using e exit_claim [OF SetCurrentSession_step] by auto
qed

lemma steps_exit:
  assumes "(backend_step uuidOk res)\<^sup>*\<^sup>* b b'" and "backend_inv b"
  shows "backend_inv b' \<and> exit_step b b'"
  using assms
proof (induction rule: rtranclp_induct)
  case base
  then show ?case by (simp add: exit_step_def)
next
  case (step y z)
  then have y: "backend_inv y" "exit_step b y" by auto
  obtain op where "backend_exec uuidOk res op y = Some z" using step(2) by (rule backend_stepE)
  then have "exit_step y z" by (rule exec_exit [OF y(1)])
  then show ?case using y step_inv [OF step(2) y(1)] by (auto simp: exit_step_def)
qed

end
