(* ===== verification/Backend_Props.thy ===== *)
theory Backend_Props
  imports Backend_Step
begin

section \<open>What the workspace lifecycle guarantees\<close>

text \<open>
  One live workspace per path, no workspace without a claim or a teardown on its way, no claim
  without a stream or a timer, nothing torn down while it is claimed, an emptied server on its way
  out, a closing server that stays empty, a retired client that stays out, and presence only for
  clients that can observe events. The last lemmas reach two states the comments of the code rule
  out.
\<close>

lemma reach_inv: "backend_start b0 \<Longrightarrow> (backend_step uuidOk res)\<^sup>*\<^sup>* b0 b \<Longrightarrow> backend_inv b"
  by (rule backend_sys.reachable_inv)

definition demo_uuid :: "string \<Rightarrow> bool" where
  "demo_uuid s \<longleftrightarrow> s \<noteq> []"

definition demo_args :: "string \<Rightarrow> create_args" where
  "demo_args c = \<lparr>ca_path = ''/p'', ca_client = c, ca_channels = []\<rparr>"

text \<open>A client creates a workspace, opens its event stream, and the create's epilogue runs.\<close>

definition demo_live :: backend where
  "demo_live = the (backend_execs demo_uuid Some
     [BCreate (demo_args ''c1''), BSettle ''w1'' 0, BReturn 0, BAttach ''w1'' ''c1''] (NewBackend True 60 10))"

lemma demo_live_run:
  "backend_execs demo_uuid Some
     [BCreate (demo_args ''c1''), BSettle ''w1'' 0, BReturn 0, BAttach ''w1'' ''c1''] (NewBackend True 60 10) = Some demo_live"
proof -
  have "\<not> Option.is_none (backend_execs demo_uuid Some
     [BCreate (demo_args ''c1''), BSettle ''w1'' 0, BReturn 0, BAttach ''w1'' ''c1''] (NewBackend True 60 10))"
    by code_simp
  then show ?thesis unfolding demo_live_def by (metis is_none_simps(1) option.exhaust_sel)
qed

lemma demo_live_reach: "(backend_step demo_uuid Some)\<^sup>*\<^sup>* (NewBackend True 60 10) demo_live"
  by (rule backend_execs_steps [OF demo_live_run])

lemma demo_server_start: "backend_start (NewBackend f l g)"
  by (auto simp: backend_start_def)

text \<open>
  C5: At any moment, in any interleaving of creates, attaches, detaches, retirements, timers and
  teardowns, two workspaces in the table that were created for the same resolved path are the same
  workspace, and the path index names it.
\<close>

theorem one_workspace_per_path:
  assumes "backend_start b0" and "(backend_step uuidOk res)\<^sup>*\<^sup>* b0 b"
    and "Map_Get (bk_workspaces b) i = Some w" and "Map_Get (bk_workspaces b) j = Some v"
    and "wk_key (bk_ws b w) = wk_key (bk_ws b v)"
  shows "i = j \<and> w = v \<and> map_of (bk_index b) (wk_key (bk_ws b w)) = Some i"
  using table_okD(5) [OF backend_invD(2) [OF reach_inv [OF assms(1,2)]]] assms(3-5) by (metis option.inject)

theorem one_workspace_per_path_witness:
  "map_of (bk_index demo_live) ''/p'' = Some ''w1''"
proof -
  have "Map_Get (bk_workspaces demo_live) ''w1'' = Some 0" "wk_key (bk_ws demo_live 0) = ''/p''"
    by code_simp+
  then show ?thesis using one_workspace_per_path [OF demo_server_start demo_live_reach, of "''w1''" 0 "''w1''" 0] by simp
qed

text \<open>
  C4: No workspace leaks. In every reachable state each claim on a workspace is held by an open
  event stream or by a timer that is still armed (or whose callback is about to run) and that was
  armed for exactly this claim, never by both; and a workspace in the table that has no claim left
  has a teardown on its way.
\<close>

theorem no_workspace_leaks:
  assumes "backend_start b0" and "(backend_step uuidOk res)\<^sup>*\<^sup>* b0 b"
    and "Map_Get (bk_workspaces b) i = Some w"
  shows "if wk_clients (bk_ws b w) = [] then w \<in> set (bk_teardowns b)
     else \<forall>(c, p) \<in> set (wk_clients (bk_ws b w)).
       (case cl_hold (bk_cs b p) of
          None \<Rightarrow> cl_streams (bk_cs b p) > 0
        | Some t \<Rightarrow> cl_streams (bk_cs b p) = 0 \<and>
            map_option tm_target (map_of (bk_timers b) t) = Some (HoldExpiry w c p))"
proof -
  note inv = reach_inv [OF assms(1,2)]
  note C = claims_butD [OF backend_invD(1) [OF inv]]
  have "claim_ok b w c p" if "(c, p) \<in> set (wk_clients (bk_ws b w))" for c p
    using C(5) [of w c p] map_of_is_SomeI [OF C(2) that] by (simp add: client_at_def)
  then show ?thesis using backend_invD(4) [OF inv] assms(3) by (auto simp: orphans_ok_def claim_ok_def)
qed

theorem no_workspace_leaks_witness:
  "cl_streams (bk_cs demo_live 0) > 0 \<and> cl_hold (bk_cs demo_live 0) = None"
proof -
  have f: "Map_Get (bk_workspaces demo_live) ''w1'' = Some 0" "wk_clients (bk_ws demo_live 0) = [(''c1'', 0)]"
    "cl_hold (bk_cs demo_live 0) = None" by code_simp+
  show ?thesis using no_workspace_leaks [OF demo_server_start demo_live_reach f(1)] f(2,3) by simp
qed

text \<open>
  C6: A workspace is never torn down under a claim: if some client holds a claim on a workspace of
  the table, then after any one step the workspace is still in the table under the same identifier,
  and its shutdown hook has not been called.
\<close>

theorem claimed_workspace_survives:
  assumes "backend_start b0" and "(backend_step uuidOk res)\<^sup>*\<^sup>* b0 b" and "backend_step uuidOk res b b'"
    and "Map_Get (bk_workspaces b) i = Some w" and "wk_clients (bk_ws b w) \<noteq> []"
  shows "Map_Get (bk_workspaces b') i = Some w \<and> w \<notin> set (bk_ws_shutdowns b')"
proof -
  note inv = reach_inv [OF assms(1,2)]
  note T = table_okD [OF backend_invD(2) [OF inv]]
  obtain op where e: "backend_exec uuidOk res op b = Some b'" using assms(3) by (rule backend_stepE)
  have wi: "w < bk_next_ws b" "wk_id (bk_ws b w) = i" using T(3,4) [OF assms(4)] .
  have iu: "i \<in> set (bk_used b)" using T(7) [OF wi(1)] wi(2) by simp
  have "v = w" if "wk_id (bk_ws b v) = i" "v < bk_next_ws b" for v
    using T(8) [OF that(2) wi(1)] that(1) wi(2) by simp
  then have "Map_Get (bk_workspaces b') i = Some w"
    using table_change(1) [OF inv e] iu assms(4,5) by (auto simp: Map_Get_set Map_Get_del)
  moreover have "table_ok b'" using step_inv [OF assms(3) inv] by (rule backend_invD(2))
  ultimately show ?thesis using table_okD(11) [of b' w i] by blast
qed

theorem claimed_workspace_survives_witness:
  "Map_Get (bk_workspaces (teardown 0 demo_live)) ''w1'' = Some 0"
proof -
  have f: "Map_Get (bk_workspaces demo_live) ''w1'' = Some 0" "wk_clients (bk_ws demo_live 0) \<noteq> []" by code_simp+
  have "backend_step demo_uuid Some demo_live (snd (ShutdownIfIdle demo_live))"
    by (rule backend_stepI [of _ _ BShutdownIfIdle]) simp
  from claimed_workspace_survives [OF demo_server_start demo_live_reach this f] f(2)
  show ?thesis by (simp add: teardown_def Let_def ShutdownIfIdle_fields)
qed

text \<open>
  A server that decided to exit never takes a workspace again. Once \<^verbatim>\<open>closing\<close> is set in a
  reachable state, then whatever happens afterwards it stays set, the table stays empty, no create
  is in flight, the server's shutdown hook has been called if there is one, and every further
  \<^verbatim>\<open>CreateWorkspace\<close> is refused and changes nothing.
\<close>

theorem closing_is_final:
  assumes "backend_start b0" and "(backend_step uuidOk res)\<^sup>*\<^sup>* b0 b" and "bk_closing b"
    and "(backend_step uuidOk res)\<^sup>*\<^sup>* b b'"
  shows "bk_closing b' \<and> ListWorkspaces b' = [] \<and> bk_pending b' = 0 \<and>
     (bk_has_shutdown b' \<longrightarrow> bk_server_shutdowns b' > 0) \<and>
     (\<exists>e. CreateWorkspace_begin uuidOk res args b' = (CreateFailed e, b'))"
proof -
  have i0: "backend_inv b0" and c0: "\<not> bk_closing b0" "bk_server_shutdowns b0 = 0"
    using start_inv [OF assms(1)] assms(1) by (auto simp: backend_start_def NewBackend_def)
  have 1: "backend_inv b" "exit_step b0 b" using steps_exit [OF assms(2) i0] by auto
  have 2: "backend_inv b'" "exit_step b b'" using steps_exit [OF assms(4) 1(1)] by auto
  have cl: "bk_closing b'" "bk_has_shutdown b' \<longrightarrow> bk_server_shutdowns b' > 0"
    using 1(2) 2(2) assms(3) c0 by (auto simp: exit_step_def)
  then have e: "inner (bk_workspaces b') = []" "bk_pending b' = 0"
    using backend_invD(3) [OF 2(1)] by (auto simp: tasks_ok_def)
  have "\<exists>e. CreateWorkspace_begin uuidOk res args b' = (CreateFailed e, b')"
    by (rule begin_cases [OF backend_invD(2) [OF 2(1)], of uuidOk res args])
      (use cl e in \<open>auto simp: admitLocked_def Map_Get_def\<close>)
  then show ?thesis using cl e by (simp add: ListWorkspaces_def Map_Copy_def)
qed

theorem closing_is_final_witness:
  "bk_closing (snd (ShutdownIfIdle (NewBackend True 60 10))) \<and>
   ListWorkspaces (snd (ShutdownIfIdle (NewBackend True 60 10))) = []"
proof -
  let ?b = "NewBackend True 60 10" and ?b' = "snd (ShutdownIfIdle (NewBackend True 60 10))"
  have "backend_step demo_uuid Some ?b ?b'" by (rule backend_stepI [of _ _ BShutdownIfIdle]) simp
  then have r: "(backend_step demo_uuid Some)\<^sup>*\<^sup>* ?b ?b'" by simp
  have "bk_closing ?b'" by code_simp
  from closing_is_final [OF demo_server_start r this rtranclp.rtrancl_refl] show ?thesis by blast
qed

text \<open>
  An emptied server goes away by itself: in every reachable state in which a create has been
  accepted, no workspace is left and no create is in flight, a server with a shutdown hook has
  either decided to exit and called the hook, or an idle-shutdown timer is armed or about to run;
  and when that timer's callback runs in such a state, it decides to exit and calls the hook.
\<close>

theorem emptied_server_shuts_down:
  assumes "backend_start b0" and "(backend_step uuidOk res)\<^sup>*\<^sup>* b0 b"
    and "bk_has_shutdown b" and "bk_next_task b > 0" and "ListWorkspaces b = []" and "bk_pending b = 0"
  shows "bk_closing b \<and> bk_server_shutdowns b > 0 \<or>
     (\<exists>t tm. map_of (bk_timers b) t = Some tm \<and> tm_target tm = IdleShutdown \<and>
        (tm_fired tm \<longrightarrow> (\<exists>b'. Timer_run t b = Some b' \<and> bk_closing b' \<and> bk_server_shutdowns b' > 0)))"
proof -
  have i0: "backend_inv b0" and c0: "\<not> bk_closing b0"
    using start_inv [OF assms(1)] assms(1) by (auto simp: backend_start_def NewBackend_def)
  have b: "backend_inv b" "exit_step b0 b" using steps_exit [OF assms(2) i0] by auto
  have e: "inner (bk_workspaces b) = []" "bk_tasks b = []"
    using assms(5,6) tasks_pending [OF backend_invD(3) [OF b(1)]] by (simp_all add: ListWorkspaces_def Map_Copy_def)
  show ?thesis
  proof (cases "bk_closing b")
    case True
    then show ?thesis using b(2) c0 assms(3) by (auto simp: exit_step_def)
  next
    case False
    then obtain t tm where t: "map_of (bk_timers b) t = Some tm" "tm_target tm = IdleShutdown"
      using backend_invD(5) [OF b(1)] assms(3,4) e by (auto simp: shutdown_ok_def idle_ids_def)
    have "\<exists>b'. Timer_run t b = Some b' \<and> bk_closing b' \<and> bk_server_shutdowns b' > 0" if "tm_fired tm"
      using t that e assms(3,6) by (simp add: Timer_run_def maybeShutdown_def backend_idle_def run_shutdown_def Let_def)
    then show ?thesis using t by blast
  qed
qed

text \<open>The client's exit is announced, its workspace is torn down, and the linger timer is armed.\<close>

definition demo_emptied :: backend where
  "demo_emptied = the (backend_execs demo_uuid Some [BRetire ''c1'', BTeardown 0] demo_live)"

lemma demo_emptied_reach: "(backend_step demo_uuid Some)\<^sup>*\<^sup>* (NewBackend True 60 10) demo_emptied"
proof -
  have "\<not> Option.is_none (backend_execs demo_uuid Some [BRetire ''c1'', BTeardown 0] demo_live)" by code_simp
  then have "backend_execs demo_uuid Some [BRetire ''c1'', BTeardown 0] demo_live = Some demo_emptied"
    unfolding demo_emptied_def by (metis is_none_simps(1) option.exhaust_sel)
  then show ?thesis by (rule rtranclp_trans [OF demo_live_reach backend_execs_steps])
qed

theorem emptied_server_shuts_down_witness:
  "\<exists>t tm. map_of (bk_timers demo_emptied) t = Some tm \<and> tm_target tm = IdleShutdown"
proof -
  have f: "bk_has_shutdown demo_emptied" "bk_next_task demo_emptied > 0" "ListWorkspaces demo_emptied = []"
    "bk_pending demo_emptied = 0" "\<not> bk_closing demo_emptied" by code_simp+
  show ?thesis using emptied_server_shuts_down [OF demo_server_start demo_emptied_reach f(1-4)] f(5) by blast
qed

definition holds_no_claim :: "string \<Rightarrow> backend \<Rightarrow> bool" where
  "holds_no_claim c b \<longleftrightarrow> (\<forall>(i, w) \<in> set (inner (bk_workspaces b)). client_at b w c = None)"

lemma holds_no_claim_get:
  assumes "table_ok b"
  shows "holds_no_claim c b \<longleftrightarrow> (\<forall>i w. Map_Get (bk_workspaces b) i = Some w \<longrightarrow> client_at b w c = None)"
  using table_okD(1) [OF assms] by (auto simp: holds_no_claim_def Map_Get_def dest: map_of_SomeD)

lemma retired_step:
  assumes inv: "backend_inv b" and e: "backend_exec uuidOk res op b = Some b'"
    and r: "map_of (bk_retired b) c \<noteq> None" "holds_no_claim c b" and op: "\<nexists>wid. op = BAttach wid c"
  shows "map_of (bk_retired b') c \<noteq> None \<and> holds_no_claim c b'"
proof -
  have inv': "backend_inv b'" by (rule step_inv [OF backend_stepI [OF e] inv])
  note T = backend_invD(2) [OF inv] backend_invD(2) [OF inv']
  have "client_at b' w c = None" if g: "Map_Get (bk_workspaces b') i = Some w" for i w
  proof (rule ccontr)
    assume n: "client_at b' w c \<noteq> None"
    have old: "client_at b w c \<noteq> None"
      using claim_gain [OF inv e n] op r(1) by (auto simp: admitLocked_def split: if_splits)
    then have "w \<noteq> bk_next_ws b" using claims_butD(4) [OF backend_invD(1) [OF inv]] by auto
    then have "Map_Get (bk_workspaces b) i = Some w"
      using table_change(1) [OF inv e] g by (auto simp: Map_Get_set Map_Get_del split: if_splits)
    then show False using r(2) old by (simp add: holds_no_claim_get [OF T(1)])
  qed
  then show ?thesis using table_change(2) [OF inv e r(1)] by (simp add: holds_no_claim_get [OF T(2)])
qed

text \<open>
  Retiring a client is final for its creates. In a reachable state, right after \<^verbatim>\<open>RetireClient\<close>
  of a valid identifier the client holds no claim on any workspace of the table, and none of its
  creates that are still in flight or still to arrive, nor any other operation, gives it one, unless
  it attaches a new event stream.
\<close>

theorem retired_client_stays_out:
  assumes "backend_start b0" and "(backend_step uuidOk res)\<^sup>*\<^sup>* b0 b" and "RetireClient uuidOk c b = (None, b1)"
    and "backend_execs uuidOk res ops b1 = Some b'" and "\<forall>op \<in> set ops. \<forall>wid. op \<noteq> BAttach wid c"
  shows "holds_no_claim c b1 \<and> holds_no_claim c b'"
proof -
  note inv = reach_inv [OF assms(1,2)]
  have b1: "b1 = snd (RetireClient uuidOk c b)" using assms(3) by simp
  have v: "validateClientID uuidOk c = Inr c"
    using assms(3) by (auto simp: RetireClient_def validateClientID_def split: if_splits)
  have inv1: "backend_inv b1" using retire_inv [OF inv] b1 by simp
  have ret: "map_of (bk_retired b1) c \<noteq> None" using RetireClient_table(2) [OF inv] v b1 by (simp add: gomap_simps)
  have "client_at b1 w c = None" if "(i, w) \<in> set (inner (bk_workspaces b))" for i w
    using that v unfolding b1 by (force simp: RetireClient_def Map_Copy_def retire_fold_at)
  then have free: "holds_no_claim c b1" using RetireClient_table(1) [OF inv] by (auto simp: holds_no_claim_def b1)
  have "holds_no_claim c b'"
    using assms(4,5) inv1 ret free
  proof (induction ops arbitrary: b1)
    case (Cons op ops)
    then obtain m where m: "backend_exec uuidOk res op b1 = Some m" "backend_execs uuidOk res ops m = Some b'"
      by (auto simp: bind_eq_Some_conv)
    have "map_of (bk_retired m) c \<noteq> None \<and> holds_no_claim c m"
      using retired_step [OF Cons.prems(3) m(1) Cons.prems(4,5)] Cons.prems(2) by auto
    moreover have "backend_inv m" by (rule step_inv [OF backend_stepI [OF m(1)] Cons.prems(3)])
    ultimately show ?case using Cons.IH [OF m(2)] Cons.prems(2) by auto
  qed simp
  with free show ?thesis by simp
qed

text \<open>The client retires while its second create is still initialising; the create is refused.\<close>

theorem retired_client_stays_out_witness:
  "\<exists>b b1 b'. (backend_step demo_uuid Some)\<^sup>*\<^sup>* (NewBackend True 60 10) b \<and> bk_tasks b \<noteq> [] \<and>
     RetireClient demo_uuid ''c1'' b = (None, b1) \<and>
     backend_execs demo_uuid Some [BSettle ''w2'' 1, BReturn 1, BTeardown 0] b1 = Some b' \<and> holds_no_claim ''c1'' b'"
proof -
  define args where "args = \<lparr>ca_path = ''/q'', ca_client = ''c1'', ca_channels = []\<rparr>"
  define b where "b = snd (CreateWorkspace_begin demo_uuid Some args demo_live)"
  define b1 where "b1 = snd (RetireClient demo_uuid ''c1'' b)"
  define b' where "b' = the (backend_execs demo_uuid Some [BSettle ''w2'' 1, BReturn 1, BTeardown 0] b1)"
  have st: "backend_step demo_uuid Some demo_live b"
    by (rule backend_stepI [of _ _ "BCreate args"]) (simp add: b_def)
  have r: "(backend_step demo_uuid Some)\<^sup>*\<^sup>* (NewBackend True 60 10) b"
    by (rule rtranclp.rtrancl_into_rtrancl [OF demo_live_reach st])
  have f: "fst (RetireClient demo_uuid ''c1'' b) = None" unfolding b_def args_def by code_simp
  then have ret: "RetireClient demo_uuid ''c1'' b = (None, b1)" by (simp add: b1_def prod_eq_iff)
  have "\<not> Option.is_none (backend_execs demo_uuid Some [BSettle ''w2'' 1, BReturn 1, BTeardown 0] b1)"
    unfolding b1_def b_def args_def by code_simp
  then have ex: "backend_execs demo_uuid Some [BSettle ''w2'' 1, BReturn 1, BTeardown 0] b1 = Some b'"
    unfolding b'_def by (metis is_none_simps(1) option.exhaust_sel)
  have ts: "bk_tasks b \<noteq> []" unfolding b_def args_def by code_simp
  have "holds_no_claim ''c1'' b1 \<and> holds_no_claim ''c1'' b'"
    by (rule retired_client_stays_out [OF demo_server_start r ret ex]) simp
  then show ?thesis using r ret ex ts by blast
qed

lemma count_one_more:
  assumes "distinct (map fst xs)" and "(c, p) \<in> set xs" and "f p"
  shows "length (filter (\<lambda>(d, q). d = c \<or> f q \<and> g q) xs) =
     length (filter (\<lambda>(d, q). f q \<and> g q) xs) + (if g p then 0 else 1)"
  using assms
proof (induction xs)
  case (Cons x xs)
  show ?case
  proof (cases "fst x = c")
    case True
    then have "x = (c, p)" "\<forall>(d, q) \<in> set xs. d \<noteq> c" using Cons.prems by (force simp: rev_image_eqI)+
    moreover from this(2) have "filter (\<lambda>(d, q). d = c \<or> f q \<and> g q) xs = filter (\<lambda>(d, q). f q \<and> g q) xs"
      by (intro filter_cong) auto
    ultimately show ?thesis using Cons.prems(3) by simp
  next
    case False
    then show ?thesis using Cons by (cases x) auto
  qed
qed simp

text \<open>
  A client's presence is recorded only while it can observe events: \<^verbatim>\<open>SetCurrentSession\<close> succeeds
  exactly when the identifier is valid, the workspace is in the table and the client has an open
  stream on it. Then the client is counted for that session, the counts of the other clients are
  kept (the session's count grows by one unless the client was already on it), and claims, streams
  and the table are unchanged; a refused call changes nothing.
\<close>

theorem presence_needs_stream:
  assumes "backend_start b0" and "(backend_step uuidOk res)\<^sup>*\<^sup>* b0 b"
  shows "case SetCurrentSession uuidOk wid c sid b of (e, b') \<Rightarrow>
     (e = None \<longleftrightarrow> c \<noteq> [] \<and> uuidOk c \<and>
        (\<exists>w p. Map_Get (bk_workspaces b) wid = Some w \<and> client_at b w c = Some p \<and> cl_streams (bk_cs b p) > 0)) \<and>
     (e \<noteq> None \<longrightarrow> b' = b) \<and> client_at b' = client_at b \<and> bk_workspaces b' = bk_workspaces b \<and>
     (\<forall>w p. e = None \<longrightarrow> Map_Get (bk_workspaces b) wid = Some w \<longrightarrow> client_at b w c = Some p \<longrightarrow>
        AttachedClientsForSession b' w sid =
          AttachedClientsForSession b w sid + (if cl_session (bk_cs b p) = sid then 0 else 1))"
proof -
  note inv = reach_inv [OF assms]
  note C = claims_butD [OF backend_invD(1) [OF inv]]
  define b' where "b' = snd (SetCurrentSession uuidOk wid c sid b)"
  define e where "e = fst (SetCurrentSession uuidOk wid c sid b)"
  have iff: "e = None \<longleftrightarrow> c \<noteq> [] \<and> uuidOk c \<and>
      (\<exists>w p. Map_Get (bk_workspaces b) wid = Some w \<and> client_at b w c = Some p \<and> cl_streams (bk_cs b p) > 0)"
    by (simp add: e_def SetCurrentSession_def validateClientID_def split: option.splits)
  have keep: "e \<noteq> None \<longrightarrow> b' = b"
    by (simp add: e_def b'_def SetCurrentSession_def validateClientID_def split: option.splits)
  have count: "AttachedClientsForSession b' w sid = AttachedClientsForSession b w sid + (if cl_session (bk_cs b p) = sid then 0 else 1)"
    if ok: "e = None" and w: "Map_Get (bk_workspaces b) wid = Some w" and p: "client_at b w c = Some p" for w p
  proof -
    have st: "cl_streams (bk_cs b p) > 0" "c \<noteq> []" "uuidOk c" using ok w p by (auto simp: iff)
    then have b': "b' = put_cs p ((bk_cs b p)\<lparr>cl_session := sid\<rparr>) b"
      using w p by (simp add: b'_def SetCurrentSession_def validateClientID_def)
    have inj: "q = p \<longleftrightarrow> d = c" if "(d, q) \<in> set (wk_clients (bk_ws b w))" for d q
    proof -
      have "client_at b w d = Some q" using that by (simp add: client_at_def map_of_is_SomeI [OF C(2)])
      then show ?thesis using C(6) [of w d q w c] p by auto
    qed
    have mem: "(c, p) \<in> set (wk_clients (bk_ws b w))" using p by (simp add: client_at_def map_of_SomeD)
    have "AttachedClientsForSession b' w sid = length (filter (\<lambda>(d, q). d = c \<or> cl_streams (bk_cs b q) > 0 \<and> cl_session (bk_cs b q) = sid) (wk_clients (bk_ws b w)))"
      unfolding AttachedClientsForSession_def b'
    proof (intro arg_cong [where f = length], simp only: put_cs_fields, rule filter_cong [OF refl])
      fix x assume "x \<in> set (wk_clients (bk_ws b w))"
      then have "snd x = p \<longleftrightarrow> fst x = c" using inj [of "fst x" "snd x"] by simp
      then show "(case x of (d, q) \<Rightarrow> 0 < cl_streams (((bk_cs b)(p := (bk_cs b p)\<lparr>cl_session := sid\<rparr>)) q) \<and>
            cl_session (((bk_cs b)(p := (bk_cs b p)\<lparr>cl_session := sid\<rparr>)) q) = sid) =
          (case x of (d, q) \<Rightarrow> d = c \<or> 0 < cl_streams (bk_cs b q) \<and> cl_session (bk_cs b q) = sid)"
        using st(1) by (cases x) auto
    qed
    also have "\<dots> = AttachedClientsForSession b w sid + (if cl_session (bk_cs b p) = sid then 0 else 1)"
      unfolding AttachedClientsForSession_def
      by (rule count_one_more [OF C(2) mem]) (use st in simp)
    finally show ?thesis .
  qed
  have at: "client_at b' = client_at b" by (intro ext) (simp add: b'_def)
  have ws: "bk_workspaces b' = bk_workspaces b"
    unfolding b'_def using claim_step_workspaces [OF SetCurrentSession_step] by blast
  have pair: "SetCurrentSession uuidOk wid c sid b = (e, b')" by (simp add: e_def b'_def)
  show ?thesis
    unfolding pair prod.case
    by (intro conjI iff keep at ws allI impI count)
qed

theorem presence_needs_stream_witness:
  "fst (SetCurrentSession demo_uuid ''w1'' ''c1'' ''s'' demo_live) = None \<and>
   AttachedClientsForSession (snd (SetCurrentSession demo_uuid ''w1'' ''c1'' ''s'' demo_live)) 0 ''s'' = 1"
proof -
  have f: "Map_Get (bk_workspaces demo_live) ''w1'' = Some 0" "client_at demo_live 0 ''c1'' = Some 0"
    "cl_streams (bk_cs demo_live 0) > 0" "cl_session (bk_cs demo_live 0) \<noteq> ''s''"
    "AttachedClientsForSession demo_live 0 ''s'' = 0" "demo_uuid ''c1''" by code_simp+
  show ?thesis
    using presence_needs_stream [OF demo_server_start demo_live_reach, where wid = "''w1''" and c = "''c1''" and sid = "''s''"] f
    by (auto simp: split_beta)
qed

subsection \<open>Where the code departs from what it says\<close>

text \<open>
  \<^verbatim>\<open>expireHold\<close> recognises a stale timer by the identity of the \<^verbatim>\<open>clientState\<close> it was armed with.
  A client that attaches and detaches keeps its \<^verbatim>\<open>clientState\<close>, so a creation timer that had already
  fired when the client attached removes the detach-grace claim that replaced it, and the workspace
  is torn down at once instead of after the grace.
\<close>

lemma stale_timer_ends_detach_grace:
  "\<exists>b b'. backend_execs demo_uuid Some
      [BCreate (demo_args ''c1''), BSettle ''w1'' 0, BReturn 0, BFire 0, BAttach ''w1'' ''c1'', BDetach 0 ''c1'']
      (NewBackend True 60 10) = Some b \<and>
     cl_hold (bk_cs b 0) = Some 1 \<and> map_of (bk_timers b) 1 = Some \<lparr>tm_target = HoldExpiry 0 ''c1'' 0, tm_fired = False\<rparr> \<and>
     backend_execs demo_uuid Some [BTimer 0, BTeardown 0] b = Some b' \<and>
     ListWorkspaces b' = [] \<and> map_of (bk_timers b') 1 = Some \<lparr>tm_target = HoldExpiry 0 ''c1'' 0, tm_fired = False\<rparr>"
proof -
  define b where "b = the (backend_execs demo_uuid Some
      [BCreate (demo_args ''c1''), BSettle ''w1'' 0, BReturn 0, BFire 0, BAttach ''w1'' ''c1'', BDetach 0 ''c1'']
      (NewBackend True 60 10))"
  define b' where "b' = the (backend_execs demo_uuid Some [BTimer 0, BTeardown 0] b)"
  have "\<not> Option.is_none (backend_execs demo_uuid Some
      [BCreate (demo_args ''c1''), BSettle ''w1'' 0, BReturn 0, BFire 0, BAttach ''w1'' ''c1'', BDetach 0 ''c1'']
      (NewBackend True 60 10))" by code_simp
  then have 1: "backend_execs demo_uuid Some
      [BCreate (demo_args ''c1''), BSettle ''w1'' 0, BReturn 0, BFire 0, BAttach ''w1'' ''c1'', BDetach 0 ''c1'']
      (NewBackend True 60 10) = Some b" unfolding b_def by (metis is_none_simps(1) option.exhaust_sel)
  have "\<not> Option.is_none (backend_execs demo_uuid Some [BTimer 0, BTeardown 0] b)" unfolding b_def by code_simp
  then have 2: "backend_execs demo_uuid Some [BTimer 0, BTeardown 0] b = Some b'"
    unfolding b'_def by (metis is_none_simps(1) option.exhaust_sel)
  have 3: "cl_hold (bk_cs b 0) = Some 1" "map_of (bk_timers b) 1 = Some \<lparr>tm_target = HoldExpiry 0 ''c1'' 0, tm_fired = False\<rparr>"
    unfolding b_def by code_simp+
  have 4: "ListWorkspaces b' = []" "map_of (bk_timers b') 1 = Some \<lparr>tm_target = HoldExpiry 0 ''c1'' 0, tm_fired = False\<rparr>"
    unfolding b'_def b_def by code_simp+
  show ?thesis using 1 2 3 4 by blast
qed

text \<open>
  Two detach paths can each see the last claim go, with a create in between: the workspace is claimed
  again before the first teardown runs and released before the second. Both teardowns then find no
  claim, and the workspace's shutdown hook runs twice (its cleanup releases a reference of the shared
  database connection each time).
\<close>

lemma teardown_runs_twice:
  "\<exists>b. backend_execs demo_uuid Some
      [BCreate (demo_args ''c1''), BSettle ''w1'' 0, BReturn 0, BRelease 0 ''c1'',
       BCreate (demo_args ''c2''), BRelease 0 ''c2'', BTeardown 0, BTeardown 0]
      (NewBackend True 60 10) = Some b \<and> bk_ws_shutdowns b = [0, 0]"
proof -
  define b where "b = the (backend_execs demo_uuid Some
      [BCreate (demo_args ''c1''), BSettle ''w1'' 0, BReturn 0, BRelease 0 ''c1'',
       BCreate (demo_args ''c2''), BRelease 0 ''c2'', BTeardown 0, BTeardown 0]
      (NewBackend True 60 10))"
  have "\<not> Option.is_none (backend_execs demo_uuid Some
      [BCreate (demo_args ''c1''), BSettle ''w1'' 0, BReturn 0, BRelease 0 ''c1'',
       BCreate (demo_args ''c2''), BRelease 0 ''c2'', BTeardown 0, BTeardown 0]
      (NewBackend True 60 10))" by code_simp
  then have "backend_execs demo_uuid Some
      [BCreate (demo_args ''c1''), BSettle ''w1'' 0, BReturn 0, BRelease 0 ''c1'',
       BCreate (demo_args ''c2''), BRelease 0 ''c2'', BTeardown 0, BTeardown 0]
      (NewBackend True 60 10) = Some b" unfolding b_def by (metis is_none_simps(1) option.exhaust_sel)
  moreover have "bk_ws_shutdowns b = [0, 0]" unfolding b_def by code_simp
  ultimately show ?thesis by blast
qed

end
