(* ===== verification/Message_Content.thy ===== *)
theory Message_Content
  imports Prelude Go_Strings
begin

section \<open>Messages and their parts: \<^verbatim>\<open>internal/message/content.go\<close>, \<^verbatim>\<open>attachment.go\<close>\<close>

text \<open>
  The message the agent streams into and the store persists. \<^verbatim>\<open>ContentPart\<close> is a datatype with one
  constructor per Go part type; the pointer-receiver methods of \<^verbatim>\<open>Message\<close> are functions on the
  record. A byte slice is a \<open>string\<close>, an \<^verbatim>\<open>int64\<close> timestamp an \<open>int\<close>, a nil pointer \<open>None\<close>.
  \<^verbatim>\<open>time.Now().Unix()\<close> is the argument \<open>now\<close>, \<^verbatim>\<open>ansi.Strip\<close> and the base64 codec are arguments.

  The streaming methods are gathered in \<open>stream_op\<close>; \<open>msg_wf\<close> (at most one text, one finish, one
  reasoning part per event and one call per tool-call ID) is the well-formedness every one keeps, and the
  theorems read a streamed message back as the concatenation of what was streamed into it.
\<close>

datatype message_role = Assistant | User | System | Tool

datatype finish_reason = FinishReasonNone | FinishReasonEndTurn | FinishReasonMaxTokens | FinishReasonToolUse
  | FinishReasonCanceled | FinishReasonError | FinishReasonContentFilter | FinishReasonUnknown
  | FinishReasonOther string

record responses_data =
  rd_item :: string
  rd_encrypted :: "string option"
  rd_summary :: "string list"

record reasoning_content =
  rc_event :: string
  rc_thinking :: string
  rc_signature :: string
  rc_thought_signature :: string
  rc_tool :: string
  rc_responses :: "responses_data option"
  rc_started :: int
  rc_finished :: int

record binary_content =
  bc_path :: string
  bc_mime :: string
  bc_data :: string

record tool_call =
  tc_id :: string
  tc_name :: string
  tc_input :: string
  tc_provider_executed :: bool
  tc_finished :: bool

record tool_result =
  tr_call :: string
  tr_name :: string
  tr_content :: string
  tr_data :: string
  tr_mime :: string
  tr_metadata :: string
  tr_is_error :: bool

record finish_content =
  fc_reason :: finish_reason
  fc_time :: int
  fc_message :: string
  fc_details :: string

record shell_command =
  sc_command :: string
  sc_output :: string
  sc_exit :: int

datatype content_part =
    TextContent string
  | Reasoning reasoning_content
  | ImageURLContent string string
  | Binary binary_content
  | ToolCall tool_call
  | ToolResult tool_result
  | Finish finish_content
  | Shell shell_command

record chat_message =
  cm_id :: string
  cm_role :: message_role
  cm_session :: string
  cm_parts :: "content_part list"
  cm_model :: string
  cm_provider :: string
  cm_created :: int
  cm_updated :: int
  cm_summary :: bool

record attachment =
  at_path :: string
  at_name :: string
  at_mime :: string
  at_content :: string

definition empty_reasoning :: reasoning_content where
  "empty_reasoning = \<lparr>rc_event = [], rc_thinking = [], rc_signature = [], rc_thought_signature = [],
     rc_tool = [], rc_responses = None, rc_started = 0, rc_finished = 0\<rparr>"

subsection \<open>Readers\<close>

fun as_text :: "content_part \<Rightarrow> string option" where
  "as_text (TextContent t) = Some t" | "as_text _ = None"

fun as_reasoning :: "content_part \<Rightarrow> reasoning_content option" where
  "as_reasoning (Reasoning r) = Some r" | "as_reasoning _ = None"

fun as_image :: "content_part \<Rightarrow> (string \<times> string) option" where
  "as_image (ImageURLContent u d) = Some (u, d)" | "as_image _ = None"

fun as_binary :: "content_part \<Rightarrow> binary_content option" where
  "as_binary (Binary b) = Some b" | "as_binary _ = None"

fun as_call :: "content_part \<Rightarrow> tool_call option" where
  "as_call (ToolCall c) = Some c" | "as_call _ = None"

fun as_result :: "content_part \<Rightarrow> tool_result option" where
  "as_result (ToolResult r) = Some r" | "as_result _ = None"

fun as_finish :: "content_part \<Rightarrow> finish_content option" where
  "as_finish (Finish f) = Some f" | "as_finish _ = None"

fun as_shell :: "content_part \<Rightarrow> shell_command option" where
  "as_shell (Shell s) = Some s" | "as_shell _ = None"

definition HasShellCommand :: "chat_message \<Rightarrow> bool" where
  "HasShellCommand m \<longleftrightarrow> (\<exists>p\<in>set (cm_parts m). as_shell p \<noteq> None)"

definition ShellCommands :: "chat_message \<Rightarrow> shell_command list" where
  "ShellCommands m = List.map_filter as_shell (cm_parts m)"

definition Content :: "chat_message \<Rightarrow> string" where
  "Content m = (case first_some as_text (cm_parts m) of Some t \<Rightarrow> t | None \<Rightarrow> [])"

definition ReasoningContent :: "chat_message \<Rightarrow> reasoning_content" where
  "ReasoningContent m =
     (case first_some as_reasoning (cm_parts m) of Some r \<Rightarrow> r | None \<Rightarrow> empty_reasoning)"

definition ReasoningContents :: "chat_message \<Rightarrow> reasoning_content list" where
  "ReasoningContents m = List.map_filter as_reasoning (cm_parts m)"

definition ImageURLContents :: "chat_message \<Rightarrow> (string \<times> string) list" where
  "ImageURLContents m = List.map_filter as_image (cm_parts m)"

definition BinaryContent :: "chat_message \<Rightarrow> binary_content list" where
  "BinaryContent m = List.map_filter as_binary (cm_parts m)"

definition ToolCalls :: "chat_message \<Rightarrow> tool_call list" where
  "ToolCalls m = List.map_filter as_call (cm_parts m)"

definition ToolResults :: "chat_message \<Rightarrow> tool_result list" where
  "ToolResults m = List.map_filter as_result (cm_parts m)"

definition IsFinished :: "chat_message \<Rightarrow> bool" where
  "IsFinished m \<longleftrightarrow> (\<exists>p\<in>set (cm_parts m). as_finish p \<noteq> None)"

definition FinishPart :: "chat_message \<Rightarrow> finish_content option" where
  "FinishPart m = first_some as_finish (cm_parts m)"

definition FinishReason :: "chat_message \<Rightarrow> finish_reason" where
  "FinishReason m = (case FinishPart m of Some f \<Rightarrow> fc_reason f | None \<Rightarrow> FinishReasonNone)"

definition IsErrorLike :: "chat_message \<Rightarrow> bool" where
  "IsErrorLike m \<longleftrightarrow> FinishReason m \<in> {FinishReasonError, FinishReasonContentFilter}"

definition IsThinking :: "chat_message \<Rightarrow> bool" where
  "IsThinking m \<longleftrightarrow> rc_thinking (ReasoningContent m) \<noteq> [] \<and> Content m = [] \<and> \<not> IsFinished m"

definition ThinkingDuration :: "int \<Rightarrow> chat_message \<Rightarrow> int" where
  "ThinkingDuration now m =
     (let reasoning = ReasoningContent m in
      if rc_started reasoning = 0 then 0
      else (if rc_finished reasoning = 0 then now else rc_finished reasoning) - rc_started reasoning)"

subsection \<open>Writers\<close>

text \<open>
  \<open>upsert_part f p\<close> is the loop with an early return: the first part \<open>f\<close> rewrites is replaced, and
  when there is none \<open>p\<close> is appended; \<open>touch_part f\<close> is the loop that appends nothing.
\<close>

definition upsert_part :: "(content_part \<Rightarrow> content_part option) \<Rightarrow> content_part \<Rightarrow> chat_message \<Rightarrow> chat_message" where
  "upsert_part f p m =
     m\<lparr>cm_parts := (case update_first f (cm_parts m) of Some ps \<Rightarrow> ps | None \<Rightarrow> cm_parts m @ [p])\<rparr>"

definition touch_part :: "(content_part \<Rightarrow> content_part option) \<Rightarrow> chat_message \<Rightarrow> chat_message" where
  "touch_part f m =
     m\<lparr>cm_parts := (case update_first f (cm_parts m) of Some ps \<Rightarrow> ps | None \<Rightarrow> cm_parts m)\<rparr>"

definition on_reasoning :: "(reasoning_content \<Rightarrow> bool) \<Rightarrow> (reasoning_content \<Rightarrow> reasoning_content) \<Rightarrow>
    content_part \<Rightarrow> content_part option" where
  "on_reasoning q g p =
     (case as_reasoning p of Some c \<Rightarrow> if q c then Some (Reasoning (g c)) else None | None \<Rightarrow> None)"

definition on_call :: "string \<Rightarrow> (tool_call \<Rightarrow> tool_call) \<Rightarrow> content_part \<Rightarrow> content_part option" where
  "on_call i g p =
     (case as_call p of Some c \<Rightarrow> if tc_id c = i then Some (ToolCall (g c)) else None | None \<Rightarrow> None)"

definition append_text :: "string \<Rightarrow> content_part \<Rightarrow> content_part" where
  "append_text d p = (case as_text p of Some t \<Rightarrow> TextContent (t @ d) | None \<Rightarrow> p)"

definition AppendContent :: "chat_message \<Rightarrow> string \<Rightarrow> chat_message" where
  "AppendContent m delta =
     (if \<exists>p\<in>set (cm_parts m). as_text p \<noteq> None
      then m\<lparr>cm_parts := map (append_text delta) (cm_parts m)\<rparr>
      else m\<lparr>cm_parts := cm_parts m @ [TextContent delta]\<rparr>)"

definition AppendReasoningContentForID :: "int \<Rightarrow> chat_message \<Rightarrow> string \<Rightarrow> string \<Rightarrow> chat_message" where
  "AppendReasoningContentForID now m eventID delta =
     upsert_part (on_reasoning (\<lambda>c. rc_event c = eventID) (\<lambda>c. c\<lparr>rc_thinking := rc_thinking c @ delta\<rparr>))
       (Reasoning (empty_reasoning\<lparr>rc_event := eventID, rc_thinking := delta, rc_started := now\<rparr>)) m"

definition AppendReasoningContent :: "int \<Rightarrow> chat_message \<Rightarrow> string \<Rightarrow> chat_message" where
  "AppendReasoningContent now m delta = AppendReasoningContentForID now m [] delta"

definition AppendThoughtSignature :: "chat_message \<Rightarrow> string \<Rightarrow> string \<Rightarrow> chat_message" where
  "AppendThoughtSignature m signature toolCallID =
     upsert_part (on_reasoning (\<lambda>_. True)
         (\<lambda>c. c\<lparr>rc_thought_signature := rc_thought_signature c @ signature, rc_tool := toolCallID\<rparr>))
       (Reasoning (empty_reasoning\<lparr>rc_thought_signature := signature\<rparr>)) m"

definition AppendReasoningSignature :: "chat_message \<Rightarrow> string \<Rightarrow> chat_message" where
  "AppendReasoningSignature m signature =
     upsert_part (on_reasoning (\<lambda>_. True) (\<lambda>c. c\<lparr>rc_signature := rc_signature c @ signature\<rparr>))
       (Reasoning (empty_reasoning\<lparr>rc_signature := signature\<rparr>)) m"

definition SetReasoningResponsesDataForID :: "int \<Rightarrow> chat_message \<Rightarrow> string \<Rightarrow> responses_data option \<Rightarrow> chat_message" where
  "SetReasoningResponsesDataForID now m eventID stored =
     upsert_part (on_reasoning (\<lambda>c. rc_event c = eventID) (\<lambda>c. c\<lparr>rc_responses := stored\<rparr>))
       (Reasoning (empty_reasoning\<lparr>rc_event := eventID, rc_responses := stored, rc_started := now\<rparr>)) m"

definition SetReasoningResponsesData :: "int \<Rightarrow> chat_message \<Rightarrow> responses_data option \<Rightarrow> chat_message" where
  "SetReasoningResponsesData now m data = SetReasoningResponsesDataForID now m [] data"

definition FinishThinkingForID :: "int \<Rightarrow> chat_message \<Rightarrow> string \<Rightarrow> chat_message" where
  "FinishThinkingForID now m eventID =
     touch_part (on_reasoning (\<lambda>c. rc_event c = eventID)
       (\<lambda>c. if rc_finished c = 0 then c\<lparr>rc_finished := now\<rparr> else c)) m"

definition FinishThinking :: "int \<Rightarrow> chat_message \<Rightarrow> chat_message" where
  "FinishThinking now m = foldl (FinishThinkingForID now) m (map rc_event (ReasoningContents m))"

definition FinishToolCall :: "chat_message \<Rightarrow> string \<Rightarrow> chat_message" where
  "FinishToolCall m toolCallID =
     touch_part (on_call toolCallID (\<lambda>c. \<lparr>tc_id = tc_id c, tc_name = tc_name c, tc_input = tc_input c,
       tc_provider_executed = False, tc_finished = True\<rparr>)) m"

definition AppendToolCallInput :: "chat_message \<Rightarrow> string \<Rightarrow> string \<Rightarrow> chat_message" where
  "AppendToolCallInput m toolCallID inputDelta =
     touch_part (on_call toolCallID (\<lambda>c. \<lparr>tc_id = tc_id c, tc_name = tc_name c, tc_input = tc_input c @ inputDelta,
       tc_provider_executed = False, tc_finished = tc_finished c\<rparr>)) m"

definition AddToolCall :: "chat_message \<Rightarrow> tool_call \<Rightarrow> chat_message" where
  "AddToolCall m tc = upsert_part (on_call (tc_id tc) (\<lambda>_. tc)) (ToolCall tc) m"

definition SetToolCalls :: "chat_message \<Rightarrow> tool_call list \<Rightarrow> chat_message" where
  "SetToolCalls m tcs =
     m\<lparr>cm_parts := filter (\<lambda>p. as_call p = None) (cm_parts m) @ map ToolCall tcs\<rparr>"

definition AddToolResult :: "chat_message \<Rightarrow> tool_result \<Rightarrow> chat_message" where
  "AddToolResult m tr = m\<lparr>cm_parts := cm_parts m @ [ToolResult tr]\<rparr>"

definition SetToolResults :: "chat_message \<Rightarrow> tool_result list \<Rightarrow> chat_message" where
  "SetToolResults m trs = m\<lparr>cm_parts := cm_parts m @ map ToolResult trs\<rparr>"

fun streamed_part :: "content_part \<Rightarrow> bool" where
  "streamed_part (TextContent _) = True"
| "streamed_part (Reasoning _) = True"
| "streamed_part (ToolCall _) = True"
| "streamed_part (Finish _) = True"
| "streamed_part _ = False"

definition ResetStreamedContent :: "chat_message \<Rightarrow> chat_message" where
  "ResetStreamedContent m = m\<lparr>cm_parts := filter (\<lambda>p. \<not> streamed_part p) (cm_parts m)\<rparr>"

fun drop_first_finish :: "content_part list \<Rightarrow> content_part list" where
  "drop_first_finish [] = []"
| "drop_first_finish (p # ps) = (if as_finish p \<noteq> None then ps else p # drop_first_finish ps)"

definition AddFinish :: "int \<Rightarrow> chat_message \<Rightarrow> finish_reason \<Rightarrow> string \<Rightarrow> string \<Rightarrow> chat_message" where
  "AddFinish now m reason msg details =
     m\<lparr>cm_parts := drop_first_finish (cm_parts m) @
        [Finish \<lparr>fc_reason = reason, fc_time = now, fc_message = msg, fc_details = details\<rparr>]\<rparr>"

definition AddImageURL :: "chat_message \<Rightarrow> string \<Rightarrow> string \<Rightarrow> chat_message" where
  "AddImageURL m url detail = m\<lparr>cm_parts := cm_parts m @ [ImageURLContent url detail]\<rparr>"

definition AddBinary :: "chat_message \<Rightarrow> string \<Rightarrow> string \<Rightarrow> chat_message" where
  "AddBinary m mimeType data =
     m\<lparr>cm_parts := cm_parts m @ [Binary \<lparr>bc_path = [], bc_mime = mimeType, bc_data = data\<rparr>]\<rparr>"

lemmas part_defs = upsert_part_def touch_part_def on_reasoning_def on_call_def

subsection \<open>One kind of part among the others\<close>

text \<open>
  The interface between the part types and the list operations: a projection and its injection.
  What a loop over one kind does to the list of parts is what it does to the list of that kind
  (\<open>view_update\<close>), and it leaves every other kind alone (\<open>other_update\<close>).
\<close>

abbreviation view :: "(content_part \<Rightarrow> 'a option) \<Rightarrow> content_part list \<Rightarrow> 'a list" where
  "view proj ps \<equiv> List.map_filter proj ps"

locale part_kind =
  fixes proj :: "content_part \<Rightarrow> 'a option" and inj :: "'a \<Rightarrow> content_part"
  assumes proj_inj: "proj (inj x) = Some x"
    and proj_SomeD: "proj p = Some x \<Longrightarrow> p = inj x"
begin

abbreviation loop :: "('a \<Rightarrow> bool) \<Rightarrow> ('a \<Rightarrow> 'a) \<Rightarrow> content_part \<Rightarrow> content_part option" where
  "loop q g p \<equiv> (case proj p of Some c \<Rightarrow> if q c then Some (inj (g c)) else None | None \<Rightarrow> None)"

lemma view_update:
  "update_first (\<lambda>c. if q c then Some (g c) else None) (view proj ps) =
     map_option (view proj) (update_first (loop q g) ps)"
  by (induction ps) (auto simp: List.map_filter_simps proj_inj option.map_comp comp_def split: option.splits)

lemma other_update:
  assumes "\<And>p. proj p \<noteq> None \<Longrightarrow> proj' p = None" and "update_first (loop q g) ps = Some qs"
  shows "view proj' qs = view proj' ps"
proof -
  from update_first_SomeD [OF assms(2)] obtain us x vs y where
    *: "ps = us @ x # vs" "qs = us @ y # vs" "loop q g x = Some y" by blast
  from *(3) obtain c where "proj x = Some c" "y = inj (g c)" by (auto split: option.splits if_splits)
  with assms(1) have "proj' x = None" "proj' y = None" by (auto simp: proj_inj)
  then show ?thesis by (simp add: * List.map_filter_def)
qed

lemma view_inj: "view proj (map inj xs) = xs"
  by (induction xs) (simp_all add: List.map_filter_simps proj_inj)

lemma view_filter_out: "view proj (filter (\<lambda>p. proj p = None) ps) = []"
  by (induction ps) (auto simp: List.map_filter_simps)

end

interpretation text_part: part_kind as_text TextContent
  by unfold_locales (auto elim: as_text.elims)
interpretation reasoning_part: part_kind as_reasoning Reasoning
  by unfold_locales (auto elim: as_reasoning.elims)
interpretation call_part: part_kind as_call ToolCall
  by unfold_locales (auto elim: as_call.elims)
interpretation result_part: part_kind as_result ToolResult
  by unfold_locales (auto elim: as_result.elims)
interpretation finish_part: part_kind as_finish Finish
  by unfold_locales (auto elim: as_finish.elims)


definition upsert_key :: "('a \<Rightarrow> 'k) \<Rightarrow> 'k \<Rightarrow> ('a \<Rightarrow> 'a) \<Rightarrow> 'a list \<Rightarrow> 'a list option" where
  "upsert_key key k g xs = update_first (\<lambda>x. if key x = k then Some (g x) else None) xs"

lemma upsert_key_None: "upsert_key key k g xs = None \<longleftrightarrow> k \<notin> key ` set xs"
  by (auto simp: upsert_key_def update_first_None)


lemma upsert_key_keys:
  "upsert_key key k g xs = Some ys \<Longrightarrow> (\<And>x. key x = k \<Longrightarrow> key (g x) = k) \<Longrightarrow> map key ys = map key xs"
  unfolding upsert_key_def by (rule update_first_map_filter) (auto split: if_splits)



lemma first_some_view: "first_some f ps = (case view f ps of [] \<Rightarrow> None | x # _ \<Rightarrow> Some x)"
  by (induction ps) (auto simp: List.map_filter_simps split: option.splits)

lemma view_append [simp]: "view f (ps @ qs) = view f ps @ view f qs"
  by (simp add: List.map_filter_def)

lemma view_nonempty: "(\<exists>p\<in>set ps. f p \<noteq> None) \<longleftrightarrow> view f ps \<noteq> []"
  by (induction ps) (auto simp: List.map_filter_simps split: option.splits)

subsection \<open>What every writer does to each kind of part\<close>

abbreviation texts :: "chat_message \<Rightarrow> string list" where
  "texts m \<equiv> view as_text (cm_parts m)"
abbreviation reasonings :: "chat_message \<Rightarrow> reasoning_content list" where
  "reasonings m \<equiv> view as_reasoning (cm_parts m)"
abbreviation calls :: "chat_message \<Rightarrow> tool_call list" where
  "calls m \<equiv> view as_call (cm_parts m)"
abbreviation finishes :: "chat_message \<Rightarrow> finish_content list" where
  "finishes m \<equiv> view as_finish (cm_parts m)"

definition rest_of :: "chat_message \<Rightarrow> content_part list" where
  "rest_of m = filter (\<lambda>p. \<not> streamed_part p) (cm_parts m)"

named_theorems view_effects \<open>the parts of each kind after a writer\<close>

lemma kinds_disjoint:
  "as_reasoning p \<noteq> None \<Longrightarrow> as_text p = None" "as_reasoning p \<noteq> None \<Longrightarrow> as_call p = None"
  "as_reasoning p \<noteq> None \<Longrightarrow> as_finish p = None" "as_call p \<noteq> None \<Longrightarrow> as_text p = None"
  "as_call p \<noteq> None \<Longrightarrow> as_reasoning p = None" "as_call p \<noteq> None \<Longrightarrow> as_finish p = None"
  by (cases p; simp)+

lemma view_cons_simps [simp]:
  "view as_text [TextContent t] = [t]" "view as_text [Reasoning r] = []" "view as_text [ToolCall c] = []"
  "view as_text [Finish f] = []" "view as_reasoning [Reasoning r] = [r]" "view as_reasoning [TextContent t] = []"
  "view as_reasoning [ToolCall c] = []" "view as_reasoning [Finish f] = []" "view as_call [ToolCall c] = [c]"
  "view as_call [TextContent t] = []" "view as_call [Reasoning r] = []" "view as_call [Finish f] = []"
  "view as_finish [Finish f] = [f]" "view as_finish [TextContent t] = []" "view as_finish [Reasoning r] = []"
  "view as_finish [ToolCall c] = []"
  by (simp_all add: List.map_filter_simps)

lemma upsert_reasoning_view:
  "reasonings (upsert_part (on_reasoning q g) (Reasoning r) m) =
     (case update_first (\<lambda>c. if q c then Some (g c) else None) (reasonings m) of
        Some rs \<Rightarrow> rs | None \<Rightarrow> reasonings m @ [r])"
  by (simp add: part_defs(1,3) [abs_def] reasoning_part.view_update split: option.splits)

lemma touch_reasoning_view:
  "reasonings (touch_part (on_reasoning q g) m) =
     (case update_first (\<lambda>c. if q c then Some (g c) else None) (reasonings m) of
        Some rs \<Rightarrow> rs | None \<Rightarrow> reasonings m)"
  by (simp add: part_defs(2,3) [abs_def] reasoning_part.view_update split: option.splits)

lemma upsert_call_view:
  "calls (upsert_part (on_call i g) (ToolCall c) m) =
     (case upsert_key tc_id i g (calls m) of Some cs \<Rightarrow> cs | None \<Rightarrow> calls m @ [c])"
  by (simp add: part_defs(1,4) [abs_def] call_part.view_update upsert_key_def split: option.splits)

lemma touch_call_view:
  "calls (touch_part (on_call i g) m) =
     (case upsert_key tc_id i g (calls m) of Some cs \<Rightarrow> cs | None \<Rightarrow> calls m)"
  by (simp add: part_defs(2,4) [abs_def] call_part.view_update upsert_key_def split: option.splits)

lemma reasoning_writers_others [view_effects]:
  "texts (upsert_part (on_reasoning q g) (Reasoning r) m) = texts m"
  "calls (upsert_part (on_reasoning q g) (Reasoning r) m) = calls m"
  "finishes (upsert_part (on_reasoning q g) (Reasoning r) m) = finishes m"
  "texts (touch_part (on_reasoning q g) m) = texts m"
  "calls (touch_part (on_reasoning q g) m) = calls m"
  "finishes (touch_part (on_reasoning q g) m) = finishes m"
  by (auto simp: part_defs(1,2,3) [abs_def] split: option.splits
      intro: reasoning_part.other_update [OF kinds_disjoint(1)]
        reasoning_part.other_update [OF kinds_disjoint(2)] reasoning_part.other_update [OF kinds_disjoint(3)])

lemma call_writers_others [view_effects]:
  "texts (upsert_part (on_call i g) (ToolCall c) m) = texts m"
  "reasonings (upsert_part (on_call i g) (ToolCall c) m) = reasonings m"
  "finishes (upsert_part (on_call i g) (ToolCall c) m) = finishes m"
  "texts (touch_part (on_call i g) m) = texts m"
  "reasonings (touch_part (on_call i g) m) = reasonings m"
  "finishes (touch_part (on_call i g) m) = finishes m"
  by (auto simp: part_defs(1,2,4) [abs_def] split: option.splits
      intro: call_part.other_update [OF kinds_disjoint(4)]
        call_part.other_update [OF kinds_disjoint(5)] call_part.other_update [OF kinds_disjoint(6)])

lemma append_text_views:
  "view as_text (map (append_text d) ps) = map (\<lambda>t. t @ d) (view as_text ps)"
  "view as_reasoning (map (append_text d) ps) = view as_reasoning ps"
  "view as_call (map (append_text d) ps) = view as_call ps"
  "view as_finish (map (append_text d) ps) = view as_finish ps"
proof (induction ps)
  case (Cons p ps)
  { case 1 from Cons show ?case by (cases p) (simp_all add: List.map_filter_simps append_text_def) }
  { case 2 from Cons show ?case by (cases p) (simp_all add: List.map_filter_simps append_text_def) }
  { case 3 from Cons show ?case by (cases p) (simp_all add: List.map_filter_simps append_text_def) }
  { case 4 from Cons show ?case by (cases p) (simp_all add: List.map_filter_simps append_text_def) }
qed (simp_all add: List.map_filter_simps)

lemma AppendContent_views [view_effects]:
  "texts (AppendContent m d) = (if texts m = [] then [d] else map (\<lambda>t. t @ d) (texts m))"
  "reasonings (AppendContent m d) = reasonings m" "calls (AppendContent m d) = calls m"
  "finishes (AppendContent m d) = finishes m"
  by (simp_all add: AppendContent_def view_nonempty append_text_views del: not_None_eq)

lemma drop_first_finish_views:
  "view as_text (drop_first_finish ps) = view as_text ps"
  "view as_reasoning (drop_first_finish ps) = view as_reasoning ps"
  "view as_call (drop_first_finish ps) = view as_call ps"
  "view as_finish (drop_first_finish ps) = tl (view as_finish ps)"
proof (induction ps)
  case (Cons p ps)
  { case 1 from Cons show ?case by (cases p) (simp_all add: List.map_filter_simps) }
  { case 2 from Cons show ?case by (cases p) (simp_all add: List.map_filter_simps) }
  { case 3 from Cons show ?case by (cases p) (simp_all add: List.map_filter_simps) }
  { case 4 from Cons show ?case by (cases p) (simp_all add: List.map_filter_simps) }
qed (simp_all add: List.map_filter_simps)

lemma AddFinish_views [view_effects]:
  "texts (AddFinish now m r s d) = texts m" "reasonings (AddFinish now m r s d) = reasonings m"
  "calls (AddFinish now m r s d) = calls m"
  "finishes (AddFinish now m r s d) =
     tl (finishes m) @ [\<lparr>fc_reason = r, fc_time = now, fc_message = s, fc_details = d\<rparr>]"
  by (simp_all add: AddFinish_def drop_first_finish_views)

subsection \<open>Streaming\<close>

text \<open>The callbacks of a model stream, each with the method it calls; \<open>now\<close> is the clock.\<close>

datatype stream_op =
    StreamText string
  | StreamReasoning string string
  | StreamSignature string
  | StreamThoughtSignature string string
  | StreamResponses string "responses_data option"
  | StreamReasoningEnd string
  | StreamThinkingEnd
  | StreamToolCall tool_call
  | StreamToolInput string string
  | StreamToolEnd string
  | StreamFinish finish_reason string string

fun stream_do :: "int \<Rightarrow> chat_message \<Rightarrow> stream_op \<Rightarrow> chat_message" where
  "stream_do now m (StreamText d) = AppendContent m d"
| "stream_do now m (StreamReasoning i d) = AppendReasoningContentForID now m i d"
| "stream_do now m (StreamSignature d) = AppendReasoningSignature m d"
| "stream_do now m (StreamThoughtSignature d t) = AppendThoughtSignature m d t"
| "stream_do now m (StreamResponses i d) = SetReasoningResponsesDataForID now m i d"
| "stream_do now m (StreamReasoningEnd i) = FinishThinkingForID now m i"
| "stream_do now m StreamThinkingEnd = FinishThinking now m"
| "stream_do now m (StreamToolCall c) = AddToolCall m c"
| "stream_do now m (StreamToolInput i d) = AppendToolCallInput m i d"
| "stream_do now m (StreamToolEnd i) = FinishToolCall m i"
| "stream_do now m (StreamFinish r s d) = AddFinish now m r s d"

definition msg_wf :: "chat_message \<Rightarrow> bool" where
  "msg_wf m \<longleftrightarrow> length (texts m) \<le> 1 \<and> length (finishes m) \<le> 1 \<and>
     distinct (map rc_event (reasonings m)) \<and> distinct (map tc_id (calls m))"

lemmas reasoning_writer_defs = AppendReasoningContentForID_def AppendReasoningSignature_def
  AppendThoughtSignature_def SetReasoningResponsesDataForID_def FinishThinkingForID_def

lemmas call_writer_defs = AddToolCall_def AppendToolCallInput_def FinishToolCall_def

text \<open>Writing to the part of one event, or to the first part, keeps the events distinct.\<close>

lemma update_first_True: "update_first (\<lambda>c. if True then Some (g c) else None) xs =
    (case xs of [] \<Rightarrow> None | x # xs \<Rightarrow> Some (g x # xs))"
  by (cases xs) auto

lemma upsert_by_key:
  "update_first (\<lambda>c. if key c = k then Some (g c) else None) xs = upsert_key key k g xs"
  by (simp add: upsert_key_def)

lemma distinct_upsert_key:
  assumes "distinct (map key xs)" and "\<And>x. key x = k \<Longrightarrow> key (g x) = k" and "key r = k"
  shows "distinct (map key (case upsert_key key k g xs of Some ys \<Rightarrow> ys | None \<Rightarrow> xs @ [r]))"
    and "distinct (map key (case upsert_key key k g xs of Some ys \<Rightarrow> ys | None \<Rightarrow> xs))"
  using assms upsert_key_keys [of key k g xs]
  by (auto split: option.splits simp: upsert_key_None)

lemma FinishThinking_induct:
  assumes "P m" and "\<And>m i. P m \<Longrightarrow> P (FinishThinkingForID now m i)"
  shows "P (FinishThinking now m)"
proof -
  have "P (foldl (FinishThinkingForID now) m is)" for "is"
    using assms(1) by (induction "is" arbitrary: m) (auto intro: assms(2))
  then show ?thesis by (simp add: FinishThinking_def)
qed

lemma msg_wf_FinishThinkingForID: "msg_wf m \<Longrightarrow> msg_wf (FinishThinkingForID now m i)"
  by (auto simp: msg_wf_def FinishThinkingForID_def view_effects touch_reasoning_view upsert_by_key
      intro!: distinct_upsert_key(2) [where r = "empty_reasoning\<lparr>rc_event := i\<rparr>"])

lemma msg_wf_stream_do: "msg_wf m \<Longrightarrow> msg_wf (stream_do now m op)"
proof (cases op)
  case (StreamText d)
  moreover assume "msg_wf m"
  ultimately show ?thesis by (simp add: msg_wf_def view_effects)
next
  case (StreamReasoning i d)
  moreover assume "msg_wf m"
  ultimately show ?thesis
    by (auto simp: msg_wf_def AppendReasoningContentForID_def view_effects upsert_reasoning_view upsert_by_key
        intro!: distinct_upsert_key(1))
next
  case (StreamResponses i d)
  moreover assume "msg_wf m"
  ultimately show ?thesis
    by (auto simp: msg_wf_def SetReasoningResponsesDataForID_def view_effects upsert_reasoning_view upsert_by_key
        intro!: distinct_upsert_key(1))
next
  case (StreamSignature d)
  moreover assume "msg_wf m"
  ultimately show ?thesis
    by (auto simp: msg_wf_def AppendReasoningSignature_def view_effects upsert_reasoning_view
        update_first_True [simplified] split: list.splits option.splits)
next
  case (StreamThoughtSignature d t)
  moreover assume "msg_wf m"
  ultimately show ?thesis
    by (auto simp: msg_wf_def AppendThoughtSignature_def view_effects upsert_reasoning_view
        update_first_True [simplified] split: list.splits option.splits)
next
  case (StreamReasoningEnd i)
  moreover assume "msg_wf m"
  ultimately show ?thesis by (simp add: msg_wf_FinishThinkingForID)
next
  case StreamThinkingEnd
  moreover assume "msg_wf m"
  ultimately show ?thesis by (auto intro: FinishThinking_induct msg_wf_FinishThinkingForID)
next
  case (StreamToolCall c)
  moreover assume "msg_wf m"
  ultimately show ?thesis
    by (auto simp: msg_wf_def AddToolCall_def view_effects upsert_call_view intro!: distinct_upsert_key(1))
next
  case (StreamToolInput i d)
  moreover assume "msg_wf m"
  ultimately show ?thesis
    by (auto simp: msg_wf_def AppendToolCallInput_def view_effects touch_call_view
        intro!: distinct_upsert_key(2) [where r = "\<lparr>tc_id = i, tc_name = [], tc_input = [], tc_provider_executed = False, tc_finished = False\<rparr>"])
next
  case (StreamToolEnd i)
  moreover assume "msg_wf m"
  ultimately show ?thesis
    by (auto simp: msg_wf_def FinishToolCall_def view_effects touch_call_view
        intro!: distinct_upsert_key(2) [where r = "\<lparr>tc_id = i, tc_name = [], tc_input = [], tc_provider_executed = False, tc_finished = False\<rparr>"])
next
  case (StreamFinish r s d)
  moreover assume "msg_wf m"
  ultimately show ?thesis by (simp add: msg_wf_def view_effects)
qed

lemma msg_wf_stream: "msg_wf m \<Longrightarrow> msg_wf (foldl (stream_do now) m ops)"
  by (induction ops arbitrary: m) (simp_all add: msg_wf_stream_do)


















subsection \<open>Non-streamed parts\<close>

definition keeps_rest :: "chat_message \<Rightarrow> chat_message \<Rightarrow> bool" where
  "keeps_rest m m' \<longleftrightarrow> (\<exists>ps. m' = m\<lparr>cm_parts := ps\<rparr> \<and> filter (\<lambda>p. \<not> streamed_part p) ps = rest_of m)"

lemma keeps_rest_refl: "keeps_rest m m"
  by (auto simp: keeps_rest_def rest_of_def intro: exI [of _ "cm_parts m"])

lemma keeps_rest_trans: "keeps_rest m m' \<Longrightarrow> keeps_rest m' m'' \<Longrightarrow> keeps_rest m m''"
  by (auto simp: keeps_rest_def rest_of_def)

lemma update_first_rest:
  assumes "update_first f ps = Some qs" and "\<And>p q. f p = Some q \<Longrightarrow> streamed_part p \<and> streamed_part q"
  shows "filter (\<lambda>p. \<not> streamed_part p) qs = filter (\<lambda>p. \<not> streamed_part p) ps"
  using update_first_SomeD [OF assms(1)] assms(2) by auto

lemma on_streamed:
  "on_reasoning q g p = Some p' \<Longrightarrow> streamed_part p \<and> streamed_part p'"
  "on_call i h p = Some p' \<Longrightarrow> streamed_part p \<and> streamed_part p'"
  by (cases p; auto simp: on_reasoning_def on_call_def split: if_splits)+

lemma keeps_rest_writers:
  "keeps_rest m (upsert_part (on_reasoning q g) (Reasoning r) m)"
  "keeps_rest m (touch_part (on_reasoning q g) m)"
  "keeps_rest m (upsert_part (on_call i h) (ToolCall c) m)"
  "keeps_rest m (touch_part (on_call i h) m)"
  by (auto simp: keeps_rest_def upsert_part_def touch_part_def rest_of_def split: option.splits
      intro: exI [of _ "cm_parts m"]
      dest: update_first_rest [OF _ on_streamed(1)] update_first_rest [OF _ on_streamed(2)])

lemma filter_append_text:
  "filter (\<lambda>p. \<not> streamed_part p) (map (append_text d) ps) = filter (\<lambda>p. \<not> streamed_part p) ps"
proof (induction ps)
  case (Cons p ps)
  then show ?case by (cases p) (simp_all add: append_text_def)
qed simp

lemma filter_drop_finish:
  "filter (\<lambda>p. \<not> streamed_part p) (drop_first_finish ps) = filter (\<lambda>p. \<not> streamed_part p) ps"
proof (induction ps)
  case (Cons p ps)
  then show ?case by (cases p) simp_all
qed simp

lemma keeps_rest_stream_do: "keeps_rest m (stream_do now m op)"
proof (cases op)
  case (StreamText d)
  then show ?thesis
    by (auto simp: keeps_rest_def AppendContent_def rest_of_def filter_append_text)
next
  case (StreamFinish r e d)
  then show ?thesis by (auto simp: keeps_rest_def AddFinish_def rest_of_def filter_drop_finish)
next
  case StreamThinkingEnd
  have "keeps_rest m (FinishThinking now m)"
    by (rule FinishThinking_induct)
       (auto simp: keeps_rest_refl FinishThinkingForID_def intro: keeps_rest_trans keeps_rest_writers)
  with StreamThinkingEnd show ?thesis by simp
qed (simp_all add: reasoning_writer_defs call_writer_defs keeps_rest_writers)

lemma keeps_rest_stream: "keeps_rest m (foldl (stream_do now) m ops)"
  by (induction ops arbitrary: m) (auto simp: keeps_rest_refl intro: keeps_rest_trans keeps_rest_stream_do)

subsection \<open>Attachments\<close>

definition IsText :: "attachment \<Rightarrow> bool" where
  "IsText a = str_prefix ''text/'' (at_mime a)"

definition IsImage :: "attachment \<Rightarrow> bool" where
  "IsImage a = str_prefix ''image/'' (at_mime a)"

definition IsMarkdown :: "attachment \<Rightarrow> bool" where
  "IsMarkdown a \<longleftrightarrow> at_mime a = ''text/markdown''"

definition ContainsTextAttachment :: "attachment list \<Rightarrow> bool" where
  "ContainsTextAttachment as \<longleftrightarrow> (\<exists>a\<in>set as. IsText a)"

definition file_block :: "attachment \<Rightarrow> string" where
  "file_block a =
     (if at_path a \<noteq> [] then ''<file path='' @ [CHR 0x27] @ at_path a @ [CHR 0x27] @ ''>'' @ [NL] else ''<file>'' @ [NL]) @
     [NL] @ at_content a @ [NL] @ ''</file>'' @ [NL]"

definition PromptWithTextAttachments :: "string \<Rightarrow> attachment list \<Rightarrow> string" where
  "PromptWithTextAttachments prompt attachments =
     (let files = filter IsText attachments in
      prompt @
      (if files = [] then []
       else [NL] @ ''<system_info>The files below have been attached by the user, consider them in your response</system_info>'' @ [NL]) @
      concat (map file_block files))"

subsection \<open>The message sent to the model\<close>

text \<open>
  \<^verbatim>\<open>ToAIMessage\<close> builds the provider library's message values; \<open>ai_part\<close> has one constructor per
  value it builds, with the fields it sets. The provider options of a reasoning part are its list of
  entries. \<open>strip\<close> is \<^verbatim>\<open>ansi.Strip\<close>, \<open>dec\<close> and \<open>enc\<close> are base64 decoding (\<open>None\<close> on error) and encoding.
\<close>

datatype reasoning_option =
    AnthropicSignature string
  | OpenAIResponses responses_data
  | GoogleSignature string string

datatype ai_output = OutputError string | OutputMedia string string | OutputText string

datatype ai_part =
    AIText string
  | AIFile string string string
  | AIReasoning string "reasoning_option list"
  | AIToolCall string string string bool
  | AIToolResult string ai_output

record ai_message =
  ai_role :: message_role
  ai_content :: "ai_part list"

definition int_str :: "int \<Rightarrow> string" where
  "int_str z = (if z < 0 then ''-'' @ itoa (nat (- z)) else itoa (nat z))"

definition IsValidBase64 :: "(string \<Rightarrow> string option) \<Rightarrow> (string \<Rightarrow> string) \<Rightarrow> string \<Rightarrow> bool" where
  "IsValidBase64 dec enc s \<longleftrightarrow>
     s \<noteq> [] \<and> (case dec s of None \<Rightarrow> False | Some decoded \<Rightarrow> enc decoded = s)"

definition shell_text :: "(string \<Rightarrow> string) \<Rightarrow> shell_command \<Rightarrow> string" where
  "shell_text strip sc =
     ''$ '' @ sc_command sc @ [NL] @ strip (sc_output sc) @ [NL] @ ''(exit code '' @ int_str (sc_exit sc) @ '')''"

definition user_text :: "(string \<Rightarrow> string) \<Rightarrow> chat_message \<Rightarrow> string" where
  "user_text strip m =
     (let textAttachments = map (\<lambda>b. \<lparr>at_path = bc_path b, at_name = [], at_mime = bc_mime b, at_content = bc_data b\<rparr>)
            (filter (\<lambda>b. str_prefix ''text/'' (bc_mime b)) (BinaryContent m));
          text = PromptWithTextAttachments (trim_space (Content m)) textAttachments
      in foldl (\<lambda>text sc. if text \<noteq> [] then text @ [NL, NL] @ shell_text strip sc else shell_text strip sc)
           text (ShellCommands m))"

definition user_parts :: "(string \<Rightarrow> string) \<Rightarrow> chat_message \<Rightarrow> ai_part list" where
  "user_parts strip m =
     (let text = user_text strip m in
      (if text \<noteq> [] then [AIText text] else []) @
      map (\<lambda>b. AIFile (bc_path b) (bc_data b) (bc_mime b))
        (filter (\<lambda>b. \<not> str_prefix ''text/'' (bc_mime b)) (BinaryContent m)))"

definition reasoning_options :: "reasoning_content \<Rightarrow> reasoning_option list" where
  "reasoning_options c =
     (if rc_signature c \<noteq> [] then [AnthropicSignature (rc_signature c)] else []) @
     (case rc_responses c of Some d \<Rightarrow> [OpenAIResponses d] | None \<Rightarrow> []) @
     (if rc_thought_signature c \<noteq> [] then [GoogleSignature (rc_thought_signature c) (rc_tool c)] else [])"

fun assistant_part :: "content_part \<Rightarrow> ai_part option" where
  "assistant_part (TextContent t) = (let text = trim_space t in if text \<noteq> [] then Some (AIText text) else None)"
| "assistant_part (Reasoning c) =
     (if rc_thinking c = [] \<and> rc_signature c = [] \<and> rc_thought_signature c = [] \<and> rc_responses c = None
      then None else Some (AIReasoning (rc_thinking c) (reasoning_options c)))"
| "assistant_part (ToolCall c) =
     Some (AIToolCall (tc_id c) (tc_name c) (tc_input c) (tc_provider_executed c))"
| "assistant_part _ = None"

definition mediaLoadFailedPlaceholder :: string where
  "mediaLoadFailedPlaceholder = ''[Image data could not be loaded]''"

definition tool_output :: "(string \<Rightarrow> string option) \<Rightarrow> (string \<Rightarrow> string) \<Rightarrow> tool_result \<Rightarrow> ai_output" where
  "tool_output dec enc r =
     (if tr_is_error r then OutputError (tr_content r)
      else if tr_data r \<noteq> [] then
        (if IsValidBase64 dec enc (tr_data r) then OutputMedia (tr_data r) (tr_mime r)
         else OutputText mediaLoadFailedPlaceholder)
      else OutputText (tr_content r))"

definition ToAIMessage :: "(string \<Rightarrow> string) \<Rightarrow> (string \<Rightarrow> string option) \<Rightarrow> (string \<Rightarrow> string) \<Rightarrow>
    chat_message \<Rightarrow> ai_message list" where
  "ToAIMessage strip dec enc m =
     (case cm_role m of
        User \<Rightarrow> [\<lparr>ai_role = User, ai_content = user_parts strip m\<rparr>]
      | Assistant \<Rightarrow> [\<lparr>ai_role = Assistant, ai_content = List.map_filter assistant_part (cm_parts m)\<rparr>]
      | Tool \<Rightarrow> [\<lparr>ai_role = Tool,
                  ai_content = map (\<lambda>r. AIToolResult (tr_call r) (tool_output dec enc r)) (ToolResults m)\<rparr>]
      | System \<Rightarrow> [])"

fun ai_call :: "ai_part \<Rightarrow> (string \<times> string \<times> string \<times> bool) option" where
  "ai_call (AIToolCall i n s p) = Some (i, n, s, p)" | "ai_call _ = None"

fun ai_result :: "ai_part \<Rightarrow> string option" where
  "ai_result (AIToolResult i out) = Some i" | "ai_result _ = None"

fun ai_text :: "ai_part \<Rightarrow> string option" where
  "ai_text (AIText t) = Some t" | "ai_text _ = None"

lemma assistant_calls:
  "List.map_filter ai_call (List.map_filter assistant_part ps) =
     map (\<lambda>c. (tc_id c, tc_name c, tc_input c, tc_provider_executed c)) (view as_call ps)"
proof (induction ps)
  case (Cons p ps)
  then show ?case by (cases p) (simp_all add: List.map_filter_simps Let_def)
qed (simp add: List.map_filter_simps)

lemma ai_text_not_empty:
  "AIText t \<in> set (List.map_filter assistant_part ps) \<Longrightarrow> t \<noteq> []"
proof (induction ps)
  case (Cons p ps)
  then show ?case by (cases p) (auto simp: List.map_filter_simps Let_def split: if_splits)
qed (simp add: List.map_filter_simps)

lemma results_map: "List.map_filter ai_result (map (\<lambda>r. AIToolResult (f r) (g r)) rs) = map f rs"
  by (induction rs) (simp_all add: List.map_filter_simps)

subsection \<open>Properties\<close>


text \<open>C37: Streaming keeps messages well formed (at most one text and one finish part, one reasoning
  part per event, one tool call per ID), and then the finish reason is the last one set: a late
  \<^verbatim>\<open>AddFinish\<close> replaces an earlier one.\<close>

theorem streaming_keeps_wf:
  assumes "msg_wf m"
  shows "msg_wf (foldl (stream_do now) m ops) \<and>
     FinishReason (foldl (stream_do now) m (ops @ [StreamFinish r e d])) = r"
proof -
  have wf: "msg_wf (foldl (stream_do now) m ops)" using assms by (rule msg_wf_stream)
  then have "tl (finishes (foldl (stream_do now) m ops)) = []"
    by (cases "finishes (foldl (stream_do now) m ops)") (auto simp: msg_wf_def)
  with wf show ?thesis by (simp add: FinishReason_def FinishPart_def first_some_view view_effects)
qed

definition blank_message :: "message_role \<Rightarrow> chat_message" where
  "blank_message r = \<lparr>cm_id = ''m'', cm_role = r, cm_session = ''s'', cm_parts = [], cm_model = [], cm_provider = [],
     cm_created = 0, cm_updated = 0, cm_summary = False\<rparr>"

theorem streaming_keeps_wf_witness:
  "FinishReason (foldl (stream_do 5) (blank_message Assistant)
     ([StreamText ''a'', StreamFinish FinishReasonToolUse [] []] @ [StreamFinish FinishReasonCanceled [] []])) = FinishReasonCanceled"
proof -
  have "msg_wf (blank_message Assistant)"
    by (simp add: msg_wf_def blank_message_def List.map_filter_simps)
  then show ?thesis by (rule streaming_keeps_wf [THEN conjunct2])
qed

text \<open>A retry starts clean. Whatever was streamed into a message, \<^verbatim>\<open>ResetStreamedContent\<close> gives
  the message the reset would have given before streaming, every attachment, tool result and shell
  command in place and no text, reasoning, call or finish left.\<close>

theorem retry_starts_clean:
  "ResetStreamedContent (foldl (stream_do now) m ops) = ResetStreamedContent m \<and>
   filter streamed_part (cm_parts (ResetStreamedContent m)) = []"
  using keeps_rest_stream [of m now ops]
  by (auto simp: keeps_rest_def ResetStreamedContent_def rest_of_def filter_empty_conv)

text \<open>The message sent to the model keeps every tool call of an assistant message, in order and
  unchanged, answers exactly the tool calls a tool message has results for, never carries an empty
  text part, and sends text attachments inline: no file part has a text MIME type.\<close>

theorem to_ai_message_faithful:
  "(cm_role m = Assistant \<longrightarrow> (\<exists>ps. ToAIMessage strip dec enc m = [\<lparr>ai_role = Assistant, ai_content = ps\<rparr>] \<and>
      List.map_filter ai_call ps = map (\<lambda>c. (tc_id c, tc_name c, tc_input c, tc_provider_executed c)) (ToolCalls m))) \<and>
   (cm_role m = Tool \<longrightarrow> (\<exists>ps. ToAIMessage strip dec enc m = [\<lparr>ai_role = Tool, ai_content = ps\<rparr>] \<and>
      List.map_filter ai_result ps = map tr_call (ToolResults m))) \<and>
   (\<forall>a\<in>set (ToAIMessage strip dec enc m). AIText [] \<notin> set (ai_content a) \<and>
      (\<forall>path data mime. AIFile path data mime \<in> set (ai_content a) \<and> cm_role m = User \<longrightarrow> \<not> str_prefix ''text/'' mime))"
proof -
  have "AIText [] \<notin> set (List.map_filter assistant_part (cm_parts m))"
    using ai_text_not_empty by blast
  then show ?thesis
    by (auto simp: ToAIMessage_def assistant_calls results_map ToolCalls_def ToolResults_def user_parts_def Let_def
        split: message_role.splits if_splits)
qed

theorem to_ai_message_faithful_witness:
  "\<exists>ps. ToAIMessage id Some id ((blank_message Tool)\<lparr>cm_parts := [ToolResult
       \<lparr>tr_call = ''c1'', tr_name = [], tr_content = ''ok'', tr_data = [], tr_mime = [], tr_metadata = [], tr_is_error = False\<rparr>]\<rparr>)
     = [\<lparr>ai_role = Tool, ai_content = ps\<rparr>] \<and> List.map_filter ai_result ps = [''c1'']"
  using to_ai_message_faithful [of "(blank_message Tool)\<lparr>cm_parts := [ToolResult
       \<lparr>tr_call = ''c1'', tr_name = [], tr_content = ''ok'', tr_data = [], tr_mime = [], tr_metadata = [], tr_is_error = False\<rparr>]\<rparr>" id Some id]
  by (simp add: blank_message_def ToolResults_def List.map_filter_simps)

text \<open>
  \<^verbatim>\<open>FinishToolCall\<close> and \<^verbatim>\<open>AppendToolCallInput\<close> rebuild the tool call field by field and leave out
  \<^verbatim>\<open>ProviderExecuted\<close>: a call executed by the provider is no longer marked so after either.
\<close>

lemma finish_tool_call_drops_flag:
  "calls (FinishToolCall ((blank_message Assistant)\<lparr>cm_parts := [ToolCall
     \<lparr>tc_id = ''c'', tc_name = ''t'', tc_input = ''{}'', tc_provider_executed = True, tc_finished = False\<rparr>]\<rparr>) ''c'')
   = [\<lparr>tc_id = ''c'', tc_name = ''t'', tc_input = ''{}'', tc_provider_executed = False, tc_finished = True\<rparr>]"
  by (simp add: FinishToolCall_def part_defs blank_message_def List.map_filter_simps)

end
