(* ===== verification/Dispatch.thy ===== *)
theory Dispatch
  imports Csync Message_Content
begin

section \<open>Prompt dispatch: \<^verbatim>\<open>sessionAgent\<close> in \<^verbatim>\<open>internal/agent/agent.go\<close>\<close>

text \<open>
  How prompts reach a session's model loop: accept reservations, the cancel mark, the queue of a busy
  session, the hand-off from a finished turn to the next queued prompt, and \<^verbatim>\<open>Cancel\<close>. The state is
  the five csync maps of \<^verbatim>\<open>sessionAgent\<close> with the accept counter, together with the goroutines inside
  \<^verbatim>\<open>Run\<close>. Pointers are numbers: an \<^verbatim>\<open>AcceptedRun\<close> is its index in \<open>sa_handles\<close> (handles are only
  ever appended), an \<^verbatim>\<open>activeCancel\<close> is the number of the run that created it.

  \<^verbatim>\<open>Run\<close> is split at its critical sections, each one function: \<open>Run_enter\<close> (up to the registration),
  \<open>Run_load_error\<close>, \<open>Run_prepare_step\<close>, \<open>Run_error\<close>, \<open>Run_release\<close>, \<open>Run_handoff\<close>, \<open>Run_recurse\<close>
  and \<open>Run_leave\<close> (the deferred clean-up); \<open>rn_phase\<close> says where a goroutine is. What happens between
  the sections (streaming, database writes) touches none of this state. A publication that follows an
  unlock is made in the section it follows: no operation reads the event log.

  The outcome of a database write is an argument. \<open>sa_submitted\<close> and \<open>sa_silent\<close> only record history: the
  RunIDs of the calls that passed validation, and those of the turns that ended in one of the early
  returns ahead of the deferred publication.
\<close>

subsection \<open>State\<close>

record agent_call =
  ag_session :: string
  ag_run :: string
  ag_prompt :: string
  ag_attachments :: "attachment list"
  ag_on_complete :: bool
  ag_accepted :: "nat option"
  ag_accept_seq :: go_uint64

record accepted_run =
  ar_session :: string
  ar_seq :: go_uint64
  ar_done :: bool

record run_complete =
  cmp_session :: string
  cmp_run :: string
  cmp_cancelled :: bool
  cmp_failed :: bool

text \<open>
  \<open>Loading\<close>: registered, the deferred publication not yet installed; \<open>Streaming\<close>: inside the model
  loop; \<open>Released\<close>: entry deleted, about to hand off; \<open>Recursing\<close>: about to enter \<^verbatim>\<open>Run\<close> with a
  dequeued call; \<open>Leaving\<close>: only the deferred clean-up is left.
\<close>

datatype run_phase = Loading | Streaming | Released | Recursing agent_call | Leaving

record agent_run =
  rn_call :: agent_call
  rn_phase :: run_phase

record session_agent =
  sa_queue :: "(string, agent_call list) smap"
  sa_active :: "(string, nat) smap"
  sa_accepted :: "(string, int) smap"
  sa_mark :: "(string, go_uint64) smap"
  sa_seq :: go_uint64
  sa_handles :: "accepted_run list"
  sa_cancelled :: "nat set"
  sa_runs :: "(nat, agent_run) smap"
  sa_next :: nat
  sa_has_broker :: bool
  sa_events :: "run_complete list"
  sa_hooked :: "run_complete list"
  sa_submitted :: "string list"
  sa_silent :: "string list"

datatype agent_error = ErrEmptyPrompt | ErrSessionMissing | ErrSessionBusy

definition NewSessionAgent :: "bool \<Rightarrow> session_agent" where
  "NewSessionAgent has_broker =
     \<lparr>sa_queue = NewMap, sa_active = NewMap, sa_accepted = NewMap, sa_mark = NewMap, sa_seq = 0,
      sa_handles = [], sa_cancelled = {}, sa_runs = NewMap, sa_next = 0, sa_has_broker = has_broker,
      sa_events = [], sa_hooked = [], sa_submitted = [], sa_silent = []\<rparr>"

subsection \<open>Accept reservations\<close>

definition BeginAccepted :: "session_agent \<Rightarrow> string \<Rightarrow> nat \<times> session_agent" where
  "BeginAccepted a sessionID =
     (let count = (case Map_Get (sa_accepted a) sessionID of Some n \<Rightarrow> n | None \<Rightarrow> 0);
          seq = sa_seq a + 1
      in (length (sa_handles a),
          a\<lparr>sa_accepted := Map_Set (sa_accepted a) sessionID (count + 1),
            sa_seq := seq,
            sa_handles := sa_handles a @ [\<lparr>ar_session = sessionID, ar_seq = seq, ar_done = False\<rparr>]\<rparr>))"

definition endAccepted :: "session_agent \<Rightarrow> string \<Rightarrow> session_agent" where
  "endAccepted a sessionID =
     (let drop = a\<lparr>sa_accepted := Map_Del (sa_accepted a) sessionID,
                   sa_mark := Map_Del (sa_mark a) sessionID\<rparr>
      in case Map_Get (sa_accepted a) sessionID of
           None \<Rightarrow> drop
         | Some count \<Rightarrow>
             if count \<le> 1 then drop
             else a\<lparr>sa_accepted := Map_Set (sa_accepted a) sessionID (count - 1)\<rparr>)"

definition Accepted_Close :: "session_agent \<Rightarrow> nat option \<Rightarrow> session_agent" where
  "Accepted_Close a r =
     (case r of
        None \<Rightarrow> a
      | Some h \<Rightarrow>
          let handle = sa_handles a ! h in
          if ar_done handle then a
          else endAccepted (a\<lparr>sa_handles := (sa_handles a)[h := handle\<lparr>ar_done := True\<rparr>]\<rparr>) (ar_session handle))"

definition handle_seq :: "session_agent \<Rightarrow> nat \<Rightarrow> go_uint64" where
  "handle_seq a h = ar_seq (sa_handles a ! h)"

definition canceledBySeq :: "session_agent \<Rightarrow> string \<Rightarrow> go_uint64 \<Rightarrow> bool" where
  "canceledBySeq a sessionID seq =
     (case Map_Get (sa_mark a) sessionID of
        None \<Rightarrow> False
      | Some mark \<Rightarrow> if mark = 0 then False else seq = 0 \<or> seq \<le> mark)"

subsection \<open>Queue and terminal events\<close>

definition ValidateCall :: "agent_call \<Rightarrow> agent_error option" where
  "ValidateCall call =
     (if ag_prompt call = [] \<and> \<not> ContainsTextAttachment (ag_attachments call) then Some ErrEmptyPrompt
      else if ag_session call = [] then Some ErrSessionMissing
      else None)"

definition queued_calls :: "session_agent \<Rightarrow> string \<Rightarrow> agent_call list" where
  "queued_calls a sessionID = (case Map_Get (sa_queue a) sessionID of Some l \<Rightarrow> l | None \<Rightarrow> [])"

definition enqueueCall :: "session_agent \<Rightarrow> agent_call \<Rightarrow> session_agent" where
  "enqueueCall a call =
     (let existing = queued_calls a (ag_session call);
          queued = (case ag_accepted call of
                      Some h \<Rightarrow> call\<lparr>ag_accept_seq := handle_seq a h\<rparr>
                    | None \<Rightarrow> call);
          queued = queued\<lparr>ag_on_complete := False, ag_accepted := None\<rparr>
      in a\<lparr>sa_queue := Map_Set (sa_queue a) (ag_session call) (existing @ [queued])\<rparr>)"

definition publishRunComplete :: "session_agent \<Rightarrow> agent_call \<Rightarrow> run_complete \<Rightarrow> session_agent" where
  "publishRunComplete a call complete =
     (if ag_on_complete call then a\<lparr>sa_hooked := sa_hooked a @ [complete]\<rparr>
      else if \<not> sa_has_broker a then a
      else a\<lparr>sa_events := sa_events a @ [complete]\<rparr>)"

definition cancelled_event :: "agent_call \<Rightarrow> run_complete" where
  "cancelled_event d =
     \<lparr>cmp_session = ag_session d, cmp_run = ag_run d, cmp_cancelled = True, cmp_failed = False\<rparr>"

fun publishCanceledQueueDrops :: "session_agent \<Rightarrow> agent_call list \<Rightarrow> session_agent" where
  "publishCanceledQueueDrops a [] = a"
| "publishCanceledQueueDrops a (d # ds) =
     publishCanceledQueueDrops
       (if ag_run d = [] then a else publishRunComplete a d (cancelled_event d)) ds"

text \<open>The loop of \<^verbatim>\<open>drainQueueForStep\<close>: (fold, cancelled with a RunID, keep).\<close>

fun drain_loop :: "(go_uint64 \<Rightarrow> bool) \<Rightarrow> agent_call list \<Rightarrow>
    agent_call list \<times> agent_call list \<times> agent_call list" where
  "drain_loop canceled [] = ([], [], [])"
| "drain_loop canceled (q # qs) =
     (let (fold, drops, keep) = drain_loop canceled qs in
      if canceled (ag_accept_seq q) then (fold, if ag_run q \<noteq> [] then q # drops else drops, keep)
      else if ag_run q \<noteq> [] then (fold, drops, q # keep)
      else (q # fold, drops, keep))"

definition drainQueueForStep :: "session_agent \<Rightarrow> string \<Rightarrow>
    (agent_call list \<times> agent_call list) \<times> session_agent" where
  "drainQueueForStep a sessionID =
     (let (fold, drops, keep) = drain_loop (canceledBySeq a sessionID) (queued_calls a sessionID) in
      ((fold, drops),
       a\<lparr>sa_queue := (if keep = [] then Map_Del (sa_queue a) sessionID
                      else Map_Set (sa_queue a) sessionID keep)\<rparr>))"

definition clearQueueAndNotify :: "session_agent \<Rightarrow> string \<Rightarrow> session_agent" where
  "clearQueueAndNotify a sessionID =
     (let queued = Map_Get (sa_queue a) sessionID;
          a = a\<lparr>sa_queue := Map_Del (sa_queue a) sessionID\<rparr>
      in case queued of None \<Rightarrow> a | Some l \<Rightarrow> publishCanceledQueueDrops a l)"

definition IsSessionBusy :: "session_agent \<Rightarrow> string \<Rightarrow> bool" where
  "IsSessionBusy a sessionID \<longleftrightarrow> Map_Get (sa_active a) sessionID \<noteq> None"

definition IsBusy :: "session_agent \<Rightarrow> bool" where
  "IsBusy a \<longleftrightarrow> inner (sa_active a) \<noteq> []"

definition QueuedPrompts :: "session_agent \<Rightarrow> string \<Rightarrow> nat" where
  "QueuedPrompts a sessionID = length (queued_calls a sessionID)"

definition QueuedPromptsList :: "session_agent \<Rightarrow> string \<Rightarrow> string list option" where
  "QueuedPromptsList a sessionID = map_option (map ag_prompt) (Map_Get (sa_queue a) sessionID)"

definition ClearQueue :: "session_agent \<Rightarrow> string \<Rightarrow> session_agent" where
  "ClearQueue a sessionID =
     (if QueuedPrompts a sessionID > 0 then clearQueueAndNotify a sessionID else a)"

subsection \<open>The sections of \<^verbatim>\<open>Run\<close>\<close>

datatype run_result = RunRejected agent_error | RunCancelledOnEntry | RunQueued | RunActive nat

definition register_run :: "session_agent \<Rightarrow> agent_call \<Rightarrow> session_agent" where
  "register_run a call =
     a\<lparr>sa_active := Map_Set (sa_active a) (ag_session call) (sa_next a),
       sa_runs := Map_Set (sa_runs a) (sa_next a) \<lparr>rn_call = call, rn_phase = Loading\<rparr>,
       sa_next := Suc (sa_next a)\<rparr>"

definition cancel_on_entry :: "session_agent \<Rightarrow> agent_call \<Rightarrow> bool" where
  "cancel_on_entry a call \<longleftrightarrow>
     (case ag_accepted call of
        None \<Rightarrow> False
      | Some h \<Rightarrow> canceledBySeq a (ag_session call) (handle_seq a h))"

definition Run_enter :: "session_agent \<Rightarrow> agent_call \<Rightarrow> bool \<Rightarrow> run_result \<times> session_agent" where
  "Run_enter a call persisted =
     (case ValidateCall call of
        Some e \<Rightarrow> (RunRejected e, a)
      | None \<Rightarrow>
          if cancel_on_entry a call then
            (RunCancelledOnEntry,
             publishRunComplete (Accepted_Close a (ag_accepted call)) call
               \<lparr>cmp_session = ag_session call, cmp_run = ag_run call, cmp_cancelled = True,
                cmp_failed = \<not> persisted\<rparr>)
          else if IsSessionBusy a (ag_session call) then
            (RunQueued, Accepted_Close (enqueueCall a call) (ag_accepted call))
          else
            (RunActive (sa_next a), Accepted_Close (register_run a call) (ag_accepted call)))"

definition Run :: "session_agent \<Rightarrow> agent_call \<Rightarrow> bool \<Rightarrow> run_result \<times> session_agent" where
  "Run a call persisted =
     (let (result, a') = Run_enter a call persisted in
      (result, if ValidateCall call = None then a'\<lparr>sa_submitted := ag_run call # sa_submitted a'\<rparr> else a'))"

definition set_phase :: "session_agent \<Rightarrow> nat \<Rightarrow> agent_run \<Rightarrow> run_phase \<Rightarrow> session_agent" where
  "set_phase a r run p = a\<lparr>sa_runs := Map_Set (sa_runs a) r (run\<lparr>rn_phase := p\<rparr>)\<rparr>"

text \<open>An early return while the session and its history are loaded: no terminal event.\<close>

definition Run_load_error :: "session_agent \<Rightarrow> nat \<Rightarrow> session_agent option" where
  "Run_load_error a r =
     (case Map_Get (sa_runs a) r of
        Some run \<Rightarrow>
          if rn_phase run = Loading
          then Some (set_phase (a\<lparr>sa_silent := ag_run (rn_call run) # sa_silent a\<rparr>) r run Leaving)
          else None
      | None \<Rightarrow> None)"

definition Run_loaded :: "session_agent \<Rightarrow> nat \<Rightarrow> session_agent option" where
  "Run_loaded a r =
     (case Map_Get (sa_runs a) r of
        Some run \<Rightarrow> if rn_phase run = Loading then Some (set_phase a r run Streaming) else None
      | None \<Rightarrow> None)"

text \<open>The queue part of \<^verbatim>\<open>PrepareStep\<close>; the folded calls become user messages of the turn.\<close>

definition Run_prepare_step :: "session_agent \<Rightarrow> nat \<Rightarrow> (agent_call list \<times> session_agent) option" where
  "Run_prepare_step a r =
     (case Map_Get (sa_runs a) r of
        Some run \<Rightarrow>
          if rn_phase run = Streaming then
            let ((fold, drops), a) = drainQueueForStep a (ag_session (rn_call run))
            in Some (fold, publishCanceledQueueDrops a drops)
          else None
      | None \<Rightarrow> None)"

text \<open>An error return after the deferred publication is installed.\<close>

definition Run_error :: "session_agent \<Rightarrow> nat \<Rightarrow> bool \<Rightarrow> session_agent option" where
  "Run_error a r is_cancel =
     (case Map_Get (sa_runs a) r of
        Some run \<Rightarrow>
          if rn_phase run = Streaming then
            Some (set_phase (publishRunComplete a (rn_call run)
              \<lparr>cmp_session = ag_session (rn_call run), cmp_run = ag_run (rn_call run),
               cmp_cancelled = is_cancel, cmp_failed = True\<rparr>) r run Leaving)
          else None
      | None \<Rightarrow> None)"

definition Run_release :: "session_agent \<Rightarrow> nat \<Rightarrow> session_agent option" where
  "Run_release a r =
     (case Map_Get (sa_runs a) r of
        Some run \<Rightarrow>
          if rn_phase run = Streaming then
            Some (set_phase (a\<lparr>sa_active := Map_Del (sa_active a) (ag_session (rn_call run)),
                               sa_cancelled := insert r (sa_cancelled a)\<rparr>) r run Released)
          else None
      | None \<Rightarrow> None)"

definition covered :: "go_uint64 \<Rightarrow> agent_call \<Rightarrow> bool" where
  "covered mark q \<longleftrightarrow> ag_accept_seq q = 0 \<or> ag_accept_seq q \<le> mark"

text \<open>The queue after the hand-off dropped what a cancel mark covers, and the published drops.\<close>

definition handoff_drop :: "session_agent \<Rightarrow> string \<Rightarrow> agent_call list \<times> session_agent" where
  "handoff_drop a sessionID =
     (let queued = queued_calls a sessionID in
      case Map_Get (sa_mark a) sessionID of
        Some mark \<Rightarrow>
          if mark > 0 \<and> queued \<noteq> [] then
            let kept = filter (\<lambda>q. \<not> covered mark q) queued;
                drops = filter (\<lambda>q. covered mark q \<and> ag_run q \<noteq> []) queued
            in (kept, publishCanceledQueueDrops (a\<lparr>sa_queue := Map_Set (sa_queue a) sessionID kept\<rparr>) drops)
          else (queued, a)
      | None \<Rightarrow> (queued, a))"

definition turn_event :: "agent_call \<Rightarrow> bool \<Rightarrow> run_complete" where
  "turn_event call ctx_done =
     \<lparr>cmp_session = ag_session call, cmp_run = ag_run call, cmp_cancelled = ctx_done, cmp_failed = False\<rparr>"

definition handoff_finish :: "session_agent \<Rightarrow> nat \<Rightarrow> agent_run \<Rightarrow> bool \<Rightarrow> session_agent" where
  "handoff_finish a r run ctx_done =
     (let call = rn_call run; sid = ag_session call;
          a = a\<lparr>sa_queue := Map_Del (sa_queue a) sid\<rparr>;
          inFlight = (case Map_Get (sa_accepted a) sid of Some n \<Rightarrow> n | None \<Rightarrow> 0);
          a = (if inFlight = 0 then a\<lparr>sa_mark := Map_Del (sa_mark a) sid\<rparr> else a)
      in set_phase (publishRunComplete a call (turn_event call ctx_done)) r run Leaving)"

definition handoff_next :: "session_agent \<Rightarrow> nat \<Rightarrow> agent_run \<Rightarrow> bool \<Rightarrow> agent_call \<Rightarrow> agent_call list \<Rightarrow> session_agent" where
  "handoff_next a r run ctx_done first rest =
     (let call = rn_call run; sid = ag_session call;
          outerOwesRunComplete = (ag_run call \<noteq> [] \<and> (\<forall>q\<in>set (first # rest). ag_run q \<noteq> ag_run call));
          a = a\<lparr>sa_queue := Map_Set (sa_queue a) sid rest\<rparr>;
          (h, a) = BeginAccepted a sid;
          a = (if outerOwesRunComplete then publishRunComplete a call (turn_event call ctx_done) else a)
      in set_phase a r run (Recursing (first\<lparr>ag_accepted := Some h\<rparr>)))"

definition Run_handoff :: "session_agent \<Rightarrow> nat \<Rightarrow> bool \<Rightarrow> session_agent option" where
  "Run_handoff a r ctx_done =
     (case Map_Get (sa_runs a) r of
        Some run \<Rightarrow>
          if rn_phase run = Released then
            let (queued, a) = handoff_drop a (ag_session (rn_call run)) in
            Some (case queued of
                    [] \<Rightarrow> handoff_finish a r run ctx_done
                  | first # rest \<Rightarrow> handoff_next a r run ctx_done first rest)
          else None
      | None \<Rightarrow> None)"

text \<open>
  The recursive call. The outer goroutine has nothing left but its deferred clean-up, which it may
  run at any later moment (in the code: when the inner \<^verbatim>\<open>Run\<close> returns).
\<close>

definition Run_recurse :: "session_agent \<Rightarrow> nat \<Rightarrow> bool \<Rightarrow> session_agent option" where
  "Run_recurse a r persisted =
     (case Map_Get (sa_runs a) r of
        Some run \<Rightarrow>
          (case rn_phase run of
             Recursing call \<Rightarrow> Some (snd (Run_enter (set_phase a r run Leaving) call persisted))
           | _ \<Rightarrow> None)
      | None \<Rightarrow> None)"

definition Run_leave :: "session_agent \<Rightarrow> nat \<Rightarrow> session_agent option" where
  "Run_leave a r =
     (case Map_Get (sa_runs a) r of
        Some run \<Rightarrow>
          if rn_phase run = Leaving then
            Some (a\<lparr>sa_active := snd (Map_CompareAndDelete (sa_active a) (ag_session (rn_call run)) r),
                    sa_cancelled := insert r (sa_cancelled a),
                    sa_runs := Map_Del (sa_runs a) r\<rparr>)
          else None
      | None \<Rightarrow> None)"

subsection \<open>Cancel\<close>

definition cancel_active :: "session_agent \<Rightarrow> string \<Rightarrow> session_agent" where
  "cancel_active a key =
     (case Map_Get (sa_active a) key of
        Some ac \<Rightarrow> a\<lparr>sa_cancelled := insert ac (sa_cancelled a)\<rparr>
      | None \<Rightarrow> a)"

text \<open>The read under \<^verbatim>\<open>acceptedMu\<close>, and the raise of the mark that follows its unlock.\<close>

definition Cancel_read :: "session_agent \<Rightarrow> string \<Rightarrow> int \<times> go_uint64" where
  "Cancel_read a sessionID =
     (case Map_Get (sa_accepted a) sessionID of Some n \<Rightarrow> n | None \<Rightarrow> 0, sa_seq a)"

definition Cancel_raise :: "session_agent \<Rightarrow> string \<Rightarrow> int \<times> go_uint64 \<Rightarrow> session_agent" where
  "Cancel_raise a sessionID snapshot =
     (let (count, mark) = snapshot in
      if count > 0 then
        let existing = (case Map_Get (sa_mark a) sessionID of Some m \<Rightarrow> m | None \<Rightarrow> 0) in
        a\<lparr>sa_mark := Map_Set (sa_mark a) sessionID (max existing mark)\<rparr>
      else a)"

definition Cancel :: "session_agent \<Rightarrow> string \<Rightarrow> session_agent" where
  "Cancel a sessionID =
     (let a = cancel_active a sessionID;
          a = cancel_active a (sessionID @ ''-summarize'');
          a = Cancel_raise a sessionID (Cancel_read a sessionID)
      in ClearQueue a sessionID)"

definition CancelAll :: "session_agent \<Rightarrow> session_agent" where
  "CancelAll a = (if IsBusy a then foldl Cancel a (map fst (Map_Copy (sa_active a))) else a)"

subsection \<open>Summarization\<close>

text \<open>
  The dispatch state \<^verbatim>\<open>Summarize\<close> touches, none of it under the dispatch mutex: the busy check, the
  registration, the end of a successful summary, which takes the first queued prompt, and the
  deferred clean-up of an error return; then the continuation of an interrupted turn.
\<close>

definition Summarize_check :: "session_agent \<Rightarrow> string \<Rightarrow> agent_error option" where
  "Summarize_check a sessionID = (if IsSessionBusy a sessionID then Some ErrSessionBusy else None)"

definition Summarize_register :: "session_agent \<Rightarrow> string \<Rightarrow> nat \<times> session_agent" where
  "Summarize_register a sessionID =
     (sa_next a, a\<lparr>sa_active := Map_Set (sa_active a) sessionID (sa_next a), sa_next := Suc (sa_next a)\<rparr>)"

definition Summarize_error :: "session_agent \<Rightarrow> string \<Rightarrow> nat \<Rightarrow> session_agent" where
  "Summarize_error a sessionID ac =
     a\<lparr>sa_active := snd (Map_CompareAndDelete (sa_active a) sessionID ac),
       sa_cancelled := insert ac (sa_cancelled a)\<rparr>"

definition Summarize_finish :: "session_agent \<Rightarrow> string \<Rightarrow> nat \<Rightarrow> agent_call option \<times> session_agent" where
  "Summarize_finish a sessionID ac =
     (let a = a\<lparr>sa_active := Map_Del (sa_active a) sessionID, sa_cancelled := insert ac (sa_cancelled a)\<rparr> in
      case queued_calls a sessionID of
        [] \<Rightarrow> (None, a)
      | first # rest \<Rightarrow> (Some first, a\<lparr>sa_queue := Map_Set (sa_queue a) sessionID rest\<rparr>))"

definition Run_compact :: "session_agent \<Rightarrow> nat \<Rightarrow> session_agent option" where
  "Run_compact a r =
     (case Map_Get (sa_runs a) r of
        Some run \<Rightarrow>
          if rn_phase run = Streaming
          then Some (a\<lparr>sa_active := Map_Del (sa_active a) (ag_session (rn_call run))\<rparr>)
          else None
      | None \<Rightarrow> None)"

definition continuation_prompt :: "string \<Rightarrow> string" where
  "continuation_prompt p =
     ''The previous session was interrupted because it got too long, the initial user request was: `'' @ p @ ''`''"

definition Run_requeue :: "session_agent \<Rightarrow> nat \<Rightarrow> session_agent option" where
  "Run_requeue a r =
     (case Map_Get (sa_runs a) r of
        Some run \<Rightarrow>
          if rn_phase run = Streaming then
            let call = (rn_call run)\<lparr>ag_prompt := continuation_prompt (ag_prompt (rn_call run))\<rparr>;
                sid = ag_session call
            in Some (a\<lparr>sa_queue := Map_Set (sa_queue a) sid (queued_calls a sid @ [call])\<rparr>)
          else None
      | None \<Rightarrow> None)"

lemmas dispatch_defs = register_run_def set_phase_def cancel_active_def Cancel_raise_def Cancel_read_def
  publishRunComplete_def

end
