(* ===== verification/Dispatch_Inv.thy ===== *)
theory Dispatch_Inv
  imports Dispatch
begin

section \<open>The invariants of prompt dispatch\<close>

text \<open>
  The operations of the dispatch state as one step relation, and what every reachable agent
  satisfies: \<open>inv_accept\<close> (the accept counter counts the open handles, sequence numbers are the
  handles' positions, a mark exists only while a handle is open), \<open>inv_runs\<close> (a goroutine inside its
  turn owns its session's entry, and every entry is owned) and \<open>inv_account\<close> (every submitted RunID
  is either still owed one terminal event or has had it). \<^verbatim>\<open>Summarize\<close> is not a step: it writes the
  same maps without the dispatch mutex, and \<open>Dispatch_Props\<close> shows what that costs.
\<close>

datatype agent_op =
    OpAccept string
  | OpClose nat
  | OpRun agent_call bool
  | OpLoadError nat
  | OpLoaded nat
  | OpStep nat
  | OpError nat bool
  | OpRelease nat
  | OpHandoff nat bool
  | OpRecurse nat bool
  | OpLeave nat
  | OpCancel string
  | OpClearQueue string

text \<open>
  A caller outside the package cannot set the private \<^verbatim>\<open>acceptSeq\<close>, and passes a handle taken for
  the session of the call.
\<close>

definition external_call :: "session_agent \<Rightarrow> agent_call \<Rightarrow> bool" where
  "external_call a call \<longleftrightarrow> ag_accept_seq call = 0 \<and>
     (case ag_accepted call of
        None \<Rightarrow> True
      | Some h \<Rightarrow> h < length (sa_handles a) \<and> ar_session (sa_handles a ! h) = ag_session call)"

fun agent_exec :: "agent_op \<Rightarrow> session_agent \<Rightarrow> session_agent option" where
  "agent_exec (OpAccept sid) a = Some (snd (BeginAccepted a sid))"
| "agent_exec (OpClose h) a = (if h < length (sa_handles a) then Some (Accepted_Close a (Some h)) else None)"
| "agent_exec (OpRun call ok) a = (if external_call a call then Some (snd (Run a call ok)) else None)"
| "agent_exec (OpLoadError r) a = Run_load_error a r"
| "agent_exec (OpLoaded r) a = Run_loaded a r"
| "agent_exec (OpStep r) a = map_option snd (Run_prepare_step a r)"
| "agent_exec (OpError r c) a = Run_error a r c"
| "agent_exec (OpRelease r) a = Run_release a r"
| "agent_exec (OpHandoff r c) a = Run_handoff a r c"
| "agent_exec (OpRecurse r ok) a = Run_recurse a r ok"
| "agent_exec (OpLeave r) a = Run_leave a r"
| "agent_exec (OpCancel sid) a = Some (Cancel a sid)"
| "agent_exec (OpClearQueue sid) a = Some (ClearQueue a sid)"

fun agent_execs :: "agent_op list \<Rightarrow> session_agent \<Rightarrow> session_agent option" where
  "agent_execs [] a = Some a"
| "agent_execs (op # ops) a = Option.bind (agent_exec op a) (agent_execs ops)"

inductive agent_step :: "session_agent \<Rightarrow> session_agent \<Rightarrow> bool" where
  agent_stepI: "agent_exec op a = Some a' \<Longrightarrow> agent_step a a'"

inductive_cases agent_stepE: "agent_step a a'"

definition agent_start :: "session_agent \<Rightarrow> bool" where
  "agent_start a \<longleftrightarrow> (\<exists>b. a = NewSessionAgent b)"

lemma agent_execs_steps: "agent_execs ops a = Some a' \<Longrightarrow> agent_step\<^sup>*\<^sup>* a a'"
  by (induction ops arbitrary: a)
     (auto simp: bind_eq_Some_conv intro: converse_rtranclp_into_rtranclp agent_stepI)

subsection \<open>Frames: the fields an operation leaves alone\<close>

lemma publish_frame [simp]:
  "sa_queue (publishRunComplete a c e) = sa_queue a" "sa_active (publishRunComplete a c e) = sa_active a"
  "sa_accepted (publishRunComplete a c e) = sa_accepted a" "sa_mark (publishRunComplete a c e) = sa_mark a"
  "sa_seq (publishRunComplete a c e) = sa_seq a" "sa_handles (publishRunComplete a c e) = sa_handles a"
  "sa_runs (publishRunComplete a c e) = sa_runs a" "sa_next (publishRunComplete a c e) = sa_next a"
  "sa_has_broker (publishRunComplete a c e) = sa_has_broker a"
  "sa_submitted (publishRunComplete a c e) = sa_submitted a" "sa_silent (publishRunComplete a c e) = sa_silent a"
  "sa_cancelled (publishRunComplete a c e) = sa_cancelled a"
  by (simp_all add: publishRunComplete_def)

lemma drops_frame [simp]:
  "sa_queue (publishCanceledQueueDrops a ds) = sa_queue a" "sa_active (publishCanceledQueueDrops a ds) = sa_active a"
  "sa_accepted (publishCanceledQueueDrops a ds) = sa_accepted a" "sa_mark (publishCanceledQueueDrops a ds) = sa_mark a"
  "sa_seq (publishCanceledQueueDrops a ds) = sa_seq a" "sa_handles (publishCanceledQueueDrops a ds) = sa_handles a"
  "sa_runs (publishCanceledQueueDrops a ds) = sa_runs a" "sa_next (publishCanceledQueueDrops a ds) = sa_next a"
  "sa_has_broker (publishCanceledQueueDrops a ds) = sa_has_broker a"
  "sa_submitted (publishCanceledQueueDrops a ds) = sa_submitted a"
  "sa_silent (publishCanceledQueueDrops a ds) = sa_silent a"
  "sa_cancelled (publishCanceledQueueDrops a ds) = sa_cancelled a"
  by (induction a ds rule: publishCanceledQueueDrops.induct) simp_all

lemma close_frame [simp]:
  "sa_queue (Accepted_Close a r) = sa_queue a" "sa_active (Accepted_Close a r) = sa_active a"
  "sa_runs (Accepted_Close a r) = sa_runs a" "sa_next (Accepted_Close a r) = sa_next a"
  "sa_has_broker (Accepted_Close a r) = sa_has_broker a" "sa_submitted (Accepted_Close a r) = sa_submitted a"
  "sa_silent (Accepted_Close a r) = sa_silent a" "sa_events (Accepted_Close a r) = sa_events a"
  "sa_hooked (Accepted_Close a r) = sa_hooked a" "sa_seq (Accepted_Close a r) = sa_seq a"
  "length (sa_handles (Accepted_Close a r)) = length (sa_handles a)"
  by (simp_all add: Accepted_Close_def endAccepted_def Let_def split: option.splits)

lemma clear_frame [simp]:
  "sa_active (ClearQueue a s) = sa_active a" "sa_accepted (ClearQueue a s) = sa_accepted a"
  "sa_mark (ClearQueue a s) = sa_mark a" "sa_seq (ClearQueue a s) = sa_seq a"
  "sa_handles (ClearQueue a s) = sa_handles a" "sa_runs (ClearQueue a s) = sa_runs a"
  "sa_next (ClearQueue a s) = sa_next a" "sa_has_broker (ClearQueue a s) = sa_has_broker a"
  "sa_submitted (ClearQueue a s) = sa_submitted a" "sa_silent (ClearQueue a s) = sa_silent a"
  "sa_cancelled (ClearQueue a s) = sa_cancelled a"
  by (simp_all add: ClearQueue_def clearQueueAndNotify_def Let_def split: option.splits)

lemma cancel_active_frame [simp]:
  "sa_queue (cancel_active a k) = sa_queue a" "sa_active (cancel_active a k) = sa_active a"
  "sa_accepted (cancel_active a k) = sa_accepted a" "sa_mark (cancel_active a k) = sa_mark a"
  "sa_seq (cancel_active a k) = sa_seq a" "sa_handles (cancel_active a k) = sa_handles a"
  "sa_runs (cancel_active a k) = sa_runs a" "sa_next (cancel_active a k) = sa_next a"
  "sa_has_broker (cancel_active a k) = sa_has_broker a" "sa_submitted (cancel_active a k) = sa_submitted a"
  "sa_silent (cancel_active a k) = sa_silent a" "sa_events (cancel_active a k) = sa_events a"
  "sa_hooked (cancel_active a k) = sa_hooked a"
  by (simp_all add: cancel_active_def split: option.splits)

lemma raise_frame [simp]:
  "sa_queue (Cancel_raise a k n) = sa_queue a" "sa_active (Cancel_raise a k n) = sa_active a"
  "sa_accepted (Cancel_raise a k n) = sa_accepted a" "sa_seq (Cancel_raise a k n) = sa_seq a"
  "sa_handles (Cancel_raise a k n) = sa_handles a" "sa_runs (Cancel_raise a k n) = sa_runs a"
  "sa_next (Cancel_raise a k n) = sa_next a" "sa_has_broker (Cancel_raise a k n) = sa_has_broker a"
  "sa_submitted (Cancel_raise a k n) = sa_submitted a" "sa_silent (Cancel_raise a k n) = sa_silent a"
  "sa_events (Cancel_raise a k n) = sa_events a" "sa_hooked (Cancel_raise a k n) = sa_hooked a"
  "sa_cancelled (Cancel_raise a k n) = sa_cancelled a"
  by (simp_all add: Cancel_raise_def Let_def split: prod.splits)

subsection \<open>Accept reservations and marks\<close>

definition open_of :: "accepted_run list \<Rightarrow> string \<Rightarrow> nat" where
  "open_of hs sid = length (filter (\<lambda>h. ar_session h = sid \<and> \<not> ar_done h) hs)"

definition accept_ok :: "(string, int) smap \<Rightarrow> (string, go_uint64) smap \<Rightarrow> go_uint64 \<Rightarrow> accepted_run list \<Rightarrow> bool" where
  "accept_ok acc mark seq hs \<longleftrightarrow>
     (\<forall>sid. Map_Get acc sid = (if open_of hs sid = 0 then None else Some (int (open_of hs sid)))) \<and>
     seq = of_nat (length hs) \<and>
     (\<forall>i<length hs. ar_seq (hs ! i) = of_nat (Suc i)) \<and>
     (\<forall>sid m. Map_Get mark sid = Some m \<longrightarrow> open_of hs sid > 0 \<and> (\<exists>k\<le>length hs. m = of_nat k))"

definition inv_accept :: "session_agent \<Rightarrow> bool" where
  "inv_accept a \<longleftrightarrow> accept_ok (sa_accepted a) (sa_mark a) (sa_seq a) (sa_handles a)"

lemma open_of_append: "open_of (hs @ [\<lparr>ar_session = sid, ar_seq = q, ar_done = False\<rparr>]) s =
    open_of hs s + (if s = sid then 1 else 0)"
  by (simp add: open_of_def)

lemma open_of_close:
  "h < length hs \<Longrightarrow> \<not> ar_done (hs ! h) \<Longrightarrow>
     open_of (hs[h := (hs ! h)\<lparr>ar_done := True\<rparr>]) s + (if ar_session (hs ! h) = s then 1 else 0) = open_of hs s"
proof (induction hs arbitrary: h)
  case (Cons x hs)
  show ?case
  proof (cases h)
    case 0
    with Cons.prems show ?thesis by (simp add: open_of_def)
  next
    case (Suc k)
    with Cons.IH [of k] Cons.prems show ?thesis by (simp add: open_of_def split: if_splits)
  qed
qed simp

lemma accept_ok_begin:
  assumes "accept_ok acc mark seq hs"
  shows "accept_ok (Map_Set acc sid ((case Map_Get acc sid of Some n \<Rightarrow> n | None \<Rightarrow> 0) + 1)) mark (seq + 1)
     (hs @ [\<lparr>ar_session = sid, ar_seq = seq + 1, ar_done = False\<rparr>])"
  unfolding accept_ok_def
proof (intro conjI allI impI)
  fix s
  show "Map_Get (Map_Set acc sid ((case Map_Get acc sid of Some n \<Rightarrow> n | None \<Rightarrow> 0) + 1)) s =
    (if open_of (hs @ [\<lparr>ar_session = sid, ar_seq = seq + 1, ar_done = False\<rparr>]) s = 0 then None
     else Some (int (open_of (hs @ [\<lparr>ar_session = sid, ar_seq = seq + 1, ar_done = False\<rparr>]) s)))"
    using assms by (auto simp: accept_ok_def csync_map.get_put open_of_append)
next
  show "seq + 1 = of_nat (length (hs @ [\<lparr>ar_session = sid, ar_seq = seq + 1, ar_done = False\<rparr>]))"
    using assms by (simp add: accept_ok_def)
next
  fix i assume "i < length (hs @ [\<lparr>ar_session = sid, ar_seq = seq + 1, ar_done = False\<rparr>])"
  then show "ar_seq ((hs @ [\<lparr>ar_session = sid, ar_seq = seq + 1, ar_done = False\<rparr>]) ! i) = of_nat (Suc i)"
    using assms by (auto simp: accept_ok_def nth_append less_Suc_eq)
next
  fix s m assume "Map_Get mark s = Some m"
  with assms show "open_of (hs @ [\<lparr>ar_session = sid, ar_seq = seq + 1, ar_done = False\<rparr>]) s > 0"
    by (simp add: accept_ok_def open_of_append)
next
  fix s m assume "Map_Get mark s = Some m"
  with assms have "\<exists>k\<le>length hs. m = of_nat k" by (simp add: accept_ok_def)
  then show "\<exists>k\<le>length (hs @ [\<lparr>ar_session = sid, ar_seq = seq + 1, ar_done = False\<rparr>]). m = of_nat k"
    by (metis le_SucI length_append_singleton)
qed

lemma inv_accept_begin: "inv_accept a \<Longrightarrow> inv_accept (snd (BeginAccepted a sid))"
  unfolding inv_accept_def BeginAccepted_def Let_def by (simp add: accept_ok_begin)

lemma inv_accept_close:
  assumes inv: "inv_accept a" and h: "\<And>h. r = Some h \<Longrightarrow> h < length (sa_handles a)"
  shows "inv_accept (Accepted_Close a r)"
proof (cases r)
  case None
  with inv show ?thesis by (simp add: Accepted_Close_def)
next
  case (Some h)
  show ?thesis
  proof (cases "ar_done (sa_handles a ! h)")
    case True
    with inv Some show ?thesis by (simp add: Accepted_Close_def)
  next
    case False
    let ?hs = "sa_handles a" and ?sid = "ar_session (sa_handles a ! h)"
    let ?hs' = "?hs[h := (?hs ! h)\<lparr>ar_done := True\<rparr>]"
    have op: "open_of ?hs' s + (if ?sid = s then 1 else 0) = open_of ?hs s" for s
      using open_of_close [of h ?hs s] h Some False by simp
    have seqs: "ar_seq (?hs' ! i) = ar_seq (?hs ! i)" if "i < length ?hs" for i
      using that by (cases "i = h") simp_all
    have acc: "Map_Get (sa_accepted a) ?sid = Some (int (Suc (open_of ?hs' ?sid)))"
      using inv op [of ?sid] by (simp add: inv_accept_def accept_ok_def split: if_splits)
    have others: "open_of ?hs' s = open_of ?hs s" if "s \<noteq> ?sid" for s
      using op [of s] that by simp
    have this_one: "open_of ?hs ?sid = Suc (open_of ?hs' ?sid)" using op [of ?sid] by simp
    let ?a' = "Accepted_Close a r"
    have hs': "sa_handles ?a' = ?hs'" and seq': "sa_seq ?a' = sa_seq a"
      using False Some by (simp_all add: Accepted_Close_def endAccepted_def Let_def split: option.splits)
    have maps: "sa_accepted ?a' = (if open_of ?hs' ?sid = 0 then Map_Del (sa_accepted a) ?sid
         else Map_Set (sa_accepted a) ?sid (int (open_of ?hs' ?sid)))"
      "sa_mark ?a' = (if open_of ?hs' ?sid = 0 then Map_Del (sa_mark a) ?sid else sa_mark a)"
      using acc False Some by (auto simp: Accepted_Close_def endAccepted_def Let_def)
    from inv have old: "\<And>s. Map_Get (sa_accepted a) s = (if open_of ?hs s = 0 then None else Some (int (open_of ?hs s)))"
      "sa_seq a = of_nat (length ?hs)" "\<And>i. i < length ?hs \<Longrightarrow> ar_seq (?hs ! i) = of_nat (Suc i)"
      "\<And>s m. Map_Get (sa_mark a) s = Some m \<Longrightarrow> open_of ?hs s > 0 \<and> (\<exists>k\<le>length ?hs. m = of_nat k)"
      by (auto simp: inv_accept_def accept_ok_def)
    show ?thesis
      unfolding inv_accept_def accept_ok_def hs' seq'
    proof (intro conjI allI impI)
      fix s
      show "Map_Get (sa_accepted ?a') s = (if open_of ?hs' s = 0 then None else Some (int (open_of ?hs' s)))"
        using old(1) [of s] others [of s] by (cases "s = ?sid") (simp_all add: maps csync_map.get_del csync_map.get_put)
    next
      show "sa_seq a = of_nat (length ?hs')" using old(2) by simp
    next
      fix i assume "i < length ?hs'"
      then show "ar_seq (?hs' ! i) = of_nat (Suc i)" using seqs [of i] old(3) [of i] by simp
    next
      fix s m assume m: "Map_Get (sa_mark ?a') s = Some m"
      show "open_of ?hs' s > 0"
      proof (cases "s = ?sid")
        case True
        with m show ?thesis by (auto simp: maps csync_map.get_del split: if_splits)
      next
        case False
        with m old(4) [of s m] others [of s] show ?thesis by (auto simp: maps csync_map.get_del split: if_splits)
      qed
      from m have "Map_Get (sa_mark a) s = Some m" by (auto simp: maps csync_map.get_del split: if_splits)
      then show "\<exists>k\<le>length ?hs'. m = of_nat k" using old(4) by simp
    qed
  qed
qed

lemma inv_accept_raise: "inv_accept a \<Longrightarrow> inv_accept (Cancel_raise a sid (Cancel_read a sid))"
  by (auto simp: inv_accept_def accept_ok_def Cancel_raise_def Cancel_read_def csync_map.get_put max_def
      split: option.splits if_splits)

lemma inv_accept_frame:
  "inv_accept a \<Longrightarrow> sa_accepted a' = sa_accepted a \<Longrightarrow> sa_mark a' = sa_mark a \<Longrightarrow> sa_seq a' = sa_seq a \<Longrightarrow>
     sa_handles a' = sa_handles a \<Longrightarrow> inv_accept a'"
  by (simp add: inv_accept_def)

lemma inv_accept_mark_del: "inv_accept a \<Longrightarrow> inv_accept (a\<lparr>sa_mark := Map_Del (sa_mark a) sid\<rparr>)"
  by (auto simp: inv_accept_def accept_ok_def csync_map.get_del)

subsection \<open>Runs, registrations and queues\<close>

definition handle_of :: "accepted_run list \<Rightarrow> agent_call \<Rightarrow> bool" where
  "handle_of hs c \<longleftrightarrow> (\<exists>h<length hs. ag_accepted c = Some h \<and> ar_session (hs ! h) = ag_session c)"

definition run_ok :: "session_agent \<Rightarrow> nat \<Rightarrow> agent_run \<Rightarrow> bool" where
  "run_ok a r run \<longleftrightarrow> r < sa_next a \<and>
     (rn_phase run \<in> {Loading, Streaming} \<longrightarrow> Map_Get (sa_active a) (ag_session (rn_call run)) = Some r) \<and>
     (\<forall>c. rn_phase run = Recursing c \<longrightarrow> ValidateCall c = None \<and> handle_of (sa_handles a) c)"

definition inv_runs :: "session_agent \<Rightarrow> bool" where
  "inv_runs a \<longleftrightarrow> smap_ok (sa_queue a) \<and> smap_ok (sa_runs a) \<and>
     (\<forall>r run. Map_Get (sa_runs a) r = Some run \<longrightarrow> run_ok a r run) \<and>
     (\<forall>sid r. Map_Get (sa_active a) sid = Some r \<longrightarrow>
        (\<exists>run. Map_Get (sa_runs a) r = Some run \<and> ag_session (rn_call run) = sid \<and>
               rn_phase run \<in> {Loading, Streaming, Leaving})) \<and>
     (\<forall>sid q. q \<in> set (queued_calls a sid) \<longrightarrow> ag_session q = sid \<and> ValidateCall q = None)"

lemma inv_runsD:
  assumes "inv_runs a"
  shows "smap_ok (sa_queue a)" "smap_ok (sa_runs a)"
    "Map_Get (sa_runs a) r = Some run \<Longrightarrow> run_ok a r run"
    "Map_Get (sa_active a) sid = Some r \<Longrightarrow> \<exists>run. Map_Get (sa_runs a) r = Some run \<and>
       ag_session (rn_call run) = sid \<and> rn_phase run \<in> {Loading, Streaming, Leaving}"
    "q \<in> set (queued_calls a sid) \<Longrightarrow> ag_session q = sid \<and> ValidateCall q = None"
  using assms by (auto simp: inv_runs_def)

text \<open>Only these fields matter, and a longer handle list with the same sessions does no harm.\<close>

definition handles_grow :: "session_agent \<Rightarrow> session_agent \<Rightarrow> bool" where
  "handles_grow a a' \<longleftrightarrow> length (sa_handles a) \<le> length (sa_handles a') \<and>
     (\<forall>h<length (sa_handles a). ar_session (sa_handles a' ! h) = ar_session (sa_handles a ! h) \<and>
        ar_seq (sa_handles a' ! h) = ar_seq (sa_handles a ! h) \<and>
        (ar_done (sa_handles a ! h) \<longrightarrow> ar_done (sa_handles a' ! h)))"

lemma handles_grow_refl [simp]: "sa_handles a' = sa_handles a \<Longrightarrow> handles_grow a a'"
  by (simp add: handles_grow_def)

lemma handles_grow_trans [trans]: "handles_grow a b \<Longrightarrow> handles_grow b c \<Longrightarrow> handles_grow a c"
  by (auto simp: handles_grow_def intro: le_trans)

lemma handles_grow_begin: "handles_grow a (snd (BeginAccepted a sid))"
  by (simp add: handles_grow_def BeginAccepted_def Let_def nth_append)

lemma handles_grow_close: "handles_grow a (Accepted_Close a r)"
proof (cases r)
  case (Some h)
  have "ar_session ((sa_handles a)[h := (sa_handles a ! h)\<lparr>ar_done := True\<rparr>] ! i) = ar_session (sa_handles a ! i) \<and>
        ar_seq ((sa_handles a)[h := (sa_handles a ! h)\<lparr>ar_done := True\<rparr>] ! i) = ar_seq (sa_handles a ! i) \<and>
        (ar_done (sa_handles a ! i) \<longrightarrow> ar_done ((sa_handles a)[h := (sa_handles a ! h)\<lparr>ar_done := True\<rparr>] ! i))"
    if "i < length (sa_handles a)" for i
    using that by (cases "i = h") simp_all
  with Some show ?thesis
    by (simp add: handles_grow_def Accepted_Close_def endAccepted_def Let_def split: option.splits)
qed (simp add: Accepted_Close_def)

lemma handle_of_grow: "handles_grow a a' \<Longrightarrow> handle_of (sa_handles a) c \<Longrightarrow> handle_of (sa_handles a') c"
  unfolding handle_of_def handles_grow_def by (metis order_less_le_trans)

lemma inv_runs_frame:
  assumes "inv_runs a" and "sa_queue a' = sa_queue a" "sa_runs a' = sa_runs a" "sa_active a' = sa_active a"
    "sa_next a' = sa_next a" "handles_grow a a'"
  shows "inv_runs a'"
  using assms handle_of_grow [OF assms(6)]
  by (auto simp: inv_runs_def run_ok_def queued_calls_def)

text \<open>Replacing the queue of one session by calls that belong there.\<close>

lemma queued_calls_upd [simp]:
  "queued_calls (a\<lparr>sa_queue := Map_Set (sa_queue a) sid qs\<rparr>) s = (if s = sid then qs else queued_calls a s)"
  "queued_calls (a\<lparr>sa_queue := Map_Del (sa_queue a) sid\<rparr>) s = (if s = sid then [] else queued_calls a s)"
  by (simp_all add: queued_calls_def csync_map.get_put csync_map.get_del)

lemma inv_runs_queue_set:
  assumes "inv_runs a" and "\<And>q. q \<in> set qs \<Longrightarrow> ag_session q = sid \<and> ValidateCall q = None"
  shows "inv_runs (a\<lparr>sa_queue := Map_Set (sa_queue a) sid qs\<rparr>)"
  using assms by (auto simp: inv_runs_def run_ok_def split: if_splits)

lemma inv_runs_queue_del: "inv_runs a \<Longrightarrow> inv_runs (a\<lparr>sa_queue := Map_Del (sa_queue a) sid\<rparr>)"
  by (auto simp: inv_runs_def run_ok_def split: if_splits)

lemma inv_runs_phase:
  assumes inv: "inv_runs a" and r: "Map_Get (sa_runs a) r = Some run"
    and p: "p \<in> {Loading, Streaming} \<Longrightarrow> rn_phase run \<in> {Loading, Streaming}"
      "\<And>c. p = Recursing c \<Longrightarrow> ValidateCall c = None \<and> handle_of (sa_handles a) c"
      "Map_Get (sa_active a) (ag_session (rn_call run)) = Some r \<Longrightarrow> p \<in> {Loading, Streaming, Leaving}"
  shows "inv_runs (set_phase a r run p)"
proof -
  have "run_ok a r run" using inv r by (simp add: inv_runs_def)
  then have ok: "run_ok (set_phase a r run p) r (run\<lparr>rn_phase := p\<rparr>)"
    using p(1,2) by (auto simp: run_ok_def set_phase_def)
  have other: "run_ok (set_phase a r run p) r' run'" if "Map_Get (sa_runs a) r' = Some run'" for r' run'
    using inv that by (auto simp: inv_runs_def run_ok_def set_phase_def)
  show ?thesis
    unfolding inv_runs_def
  proof (intro conjI allI impI)
    show "smap_ok (sa_queue (set_phase a r run p))" "smap_ok (sa_runs (set_phase a r run p))"
      using inv by (simp_all add: inv_runs_def set_phase_def)
  next
    fix r' run' assume "Map_Get (sa_runs (set_phase a r run p)) r' = Some run'"
    with ok other show "run_ok (set_phase a r run p) r' run'"
      by (auto simp: set_phase_def csync_map.get_put split: if_splits)
  next
    fix sid r' assume "Map_Get (sa_active (set_phase a r run p)) sid = Some r'"
    then have act: "Map_Get (sa_active a) sid = Some r'" by (simp add: set_phase_def)
    from inv_runsD(4) [OF inv this] obtain run' where "Map_Get (sa_runs a) r' = Some run'"
      "ag_session (rn_call run') = sid" "rn_phase run' \<in> {Loading, Streaming, Leaving}" by blast
    with act r p(3) show "\<exists>run''. Map_Get (sa_runs (set_phase a r run p)) r' = Some run'' \<and>
        ag_session (rn_call run'') = sid \<and> rn_phase run'' \<in> {Loading, Streaming, Leaving}"
      by (cases "r' = r") (auto simp: set_phase_def csync_map.get_put)
  next
    fix sid q assume "q \<in> set (queued_calls (set_phase a r run p) sid)"
    with inv show "ag_session q = sid" "ValidateCall q = None"
      by (auto simp: inv_runs_def set_phase_def queued_calls_def)
  qed
qed

lemma inv_runs_register:
  assumes inv: "inv_runs a" and idle: "\<not> IsSessionBusy a (ag_session call)"
  shows "inv_runs (register_run a call)"
proof -
  have fresh: "Map_Get (sa_runs a) (sa_next a) = None"
    using inv by (cases "Map_Get (sa_runs a) (sa_next a)") (auto simp: inv_runs_def run_ok_def)
  have other: "run_ok (register_run a call) r run" if r: "Map_Get (sa_runs a) r = Some run" for r run
  proof -
    from inv_runsD(3) [OF inv r] have "run_ok a r run" .
    with idle show ?thesis
      by (auto simp: run_ok_def register_run_def csync_map.get_put IsSessionBusy_def)
  qed
  show ?thesis
    unfolding inv_runs_def
  proof (intro conjI allI impI)
    show "smap_ok (sa_queue (register_run a call))" "smap_ok (sa_runs (register_run a call))"
      using inv by (simp_all add: inv_runs_def register_run_def)
  next
    fix r run assume "Map_Get (sa_runs (register_run a call)) r = Some run"
    then have "r = sa_next a \<and> run = \<lparr>rn_call = call, rn_phase = Loading\<rparr> \<or> Map_Get (sa_runs a) r = Some run"
      by (simp add: register_run_def csync_map.get_put split: if_splits)
    then show "run_ok (register_run a call) r run"
    proof
      assume "r = sa_next a \<and> run = \<lparr>rn_call = call, rn_phase = Loading\<rparr>"
      then show ?thesis by (simp add: run_ok_def register_run_def csync_map.get_put)
    qed (rule other)
  next
    fix sid r assume act: "Map_Get (sa_active (register_run a call)) sid = Some r"
    show "\<exists>run. Map_Get (sa_runs (register_run a call)) r = Some run \<and>
        ag_session (rn_call run) = sid \<and> rn_phase run \<in> {Loading, Streaming, Leaving}"
    proof (cases "sid = ag_session call")
      case True
      with act show ?thesis by (auto simp: register_run_def csync_map.get_put)
    next
      case False
      with act have "Map_Get (sa_active a) sid = Some r" by (simp add: register_run_def csync_map.get_put)
      from inv_runsD(4) [OF inv this] fresh show ?thesis
        by (cases "r = sa_next a") (auto simp: register_run_def csync_map.get_put)
    qed
  next
    fix sid q assume "q \<in> set (queued_calls (register_run a call) sid)"
    with inv show "ag_session q = sid" "ValidateCall q = None"
      by (auto simp: inv_runs_def register_run_def queued_calls_def)
  qed
qed

lemma inv_runs_release:
  assumes inv: "inv_runs a" and r: "Map_Get (sa_runs a) r = Some run" and ph: "rn_phase run = Streaming"
  shows "inv_runs (set_phase (a\<lparr>sa_active := Map_Del (sa_active a) (ag_session (rn_call run)),
                               sa_cancelled := X\<rparr>) r run Released)" (is "inv_runs ?a'")
proof -
  have own: "Map_Get (sa_active a) (ag_session (rn_call run)) = Some r"
    using inv_runsD(3) [OF inv r] ph by (simp add: run_ok_def)
  have single: "ag_session (rn_call run') \<noteq> ag_session (rn_call run)"
    if "Map_Get (sa_runs a) r' = Some run'" "rn_phase run' \<in> {Loading, Streaming}" "r' \<noteq> r" for r' run'
    using inv_runsD(3) [OF inv that(1)] that own by (auto simp: run_ok_def)
  show ?thesis
    unfolding inv_runs_def
  proof (intro conjI allI impI)
    show "smap_ok (sa_queue ?a')" "smap_ok (sa_runs ?a')"
      using inv by (simp_all add: inv_runs_def set_phase_def)
  next
    fix r' run' assume r': "Map_Get (sa_runs ?a') r' = Some run'"
    show "run_ok ?a' r' run'"
    proof (cases "r' = r")
      case True
      with r' inv_runsD(3) [OF inv r] show ?thesis
        by (auto simp: set_phase_def csync_map.get_put run_ok_def)
    next
      case False
      with r' have old: "Map_Get (sa_runs a) r' = Some run'" by (simp add: set_phase_def csync_map.get_put)
      from inv_runsD(3) [OF inv old] single [OF old _ False] show ?thesis
        by (auto simp: set_phase_def run_ok_def csync_map.get_del)
    qed
  next
    fix sid r' assume "Map_Get (sa_active ?a') sid = Some r'"
    then have act: "Map_Get (sa_active a) sid = Some r'" "sid \<noteq> ag_session (rn_call run)"
      by (auto simp: set_phase_def csync_map.get_del split: if_splits)
    from inv_runsD(4) [OF inv act(1)] act r show "\<exists>run''. Map_Get (sa_runs ?a') r' = Some run'' \<and>
        ag_session (rn_call run'') = sid \<and> rn_phase run'' \<in> {Loading, Streaming, Leaving}"
      by (cases "r' = r") (auto simp: set_phase_def csync_map.get_put)
  next
    fix sid q assume "q \<in> set (queued_calls ?a' sid)"
    with inv show "ag_session q = sid" "ValidateCall q = None"
      by (auto simp: inv_runs_def set_phase_def queued_calls_def)
  qed
qed

lemma inv_runs_leave:
  assumes inv: "inv_runs a" and r: "Map_Get (sa_runs a) r = Some run" and ph: "rn_phase run = Leaving"
  shows "inv_runs (a\<lparr>sa_active := snd (Map_CompareAndDelete (sa_active a) (ag_session (rn_call run)) r),
     sa_cancelled := X, sa_runs := Map_Del (sa_runs a) r\<rparr>)" (is "inv_runs ?a'")
proof -
  have cad: "Map_Get (snd (Map_CompareAndDelete m k v)) i =
      (if i = k \<and> Map_Get m k = Some v then None else Map_Get m i)" for m :: "(string, nat) smap" and k v i
    by (auto simp: Map_CompareAndDelete_def Map_Get_def gomap_simps split: option.splits)
  show ?thesis
    unfolding inv_runs_def
  proof (intro conjI allI impI)
    show "smap_ok (sa_queue ?a')" "smap_ok (sa_runs ?a')" using inv by (simp_all add: inv_runs_def)
  next
    fix r' run' assume "Map_Get (sa_runs ?a') r' = Some run'"
    then have old: "Map_Get (sa_runs a) r' = Some run'" "r' \<noteq> r" by (auto simp: csync_map.get_del split: if_splits)
    from inv_runsD(3) [OF inv old(1)] old(2) show "run_ok ?a' r' run'" by (auto simp: run_ok_def cad)
  next
    fix sid r' assume "Map_Get (sa_active ?a') sid = Some r'"
    then have act: "Map_Get (sa_active a) sid = Some r'"
      "\<not> (sid = ag_session (rn_call run) \<and> Map_Get (sa_active a) sid = Some r)"
      by (auto simp: cad split: if_splits)
    from inv_runsD(4) [OF inv act(1)] act(2) act(1) r show "\<exists>run''. Map_Get (sa_runs ?a') r' = Some run'' \<and>
        ag_session (rn_call run'') = sid \<and> rn_phase run'' \<in> {Loading, Streaming, Leaving}"
      by (cases "r' = r") (auto simp: csync_map.get_del)
  next
    fix sid q assume "q \<in> set (queued_calls ?a' sid)"
    with inv show "ag_session q = sid" "ValidateCall q = None" by (auto simp: inv_runs_def queued_calls_def)
  qed
qed

subsection \<open>Every section keeps both invariants\<close>

definition agent_inv :: "session_agent \<Rightarrow> bool" where
  "agent_inv a \<longleftrightarrow> inv_accept a \<and> inv_runs a"

lemma drain_loop_filter:
  "drain_loop c qs = (filter (\<lambda>q. \<not> c (ag_accept_seq q) \<and> ag_run q = []) qs,
     filter (\<lambda>q. c (ag_accept_seq q) \<and> ag_run q \<noteq> []) qs,
     filter (\<lambda>q. \<not> c (ag_accept_seq q) \<and> ag_run q \<noteq> []) qs)"
  by (induction qs) (auto simp: Let_def)

lemma agent_inv_frame:
  assumes "agent_inv a" and "sa_queue a' = sa_queue a" "sa_runs a' = sa_runs a" "sa_active a' = sa_active a"
    "sa_next a' = sa_next a" "sa_handles a' = sa_handles a" "sa_accepted a' = sa_accepted a"
    "sa_mark a' = sa_mark a" "sa_seq a' = sa_seq a"
  shows "agent_inv a'"
  using assms by (auto simp: agent_inv_def intro: inv_runs_frame inv_accept_frame)

lemma agent_inv_queue_set:
  assumes "agent_inv a" and "\<And>q. q \<in> set qs \<Longrightarrow> ag_session q = sid \<and> ValidateCall q = None"
  shows "agent_inv (a\<lparr>sa_queue := Map_Set (sa_queue a) sid qs\<rparr>)"
  using assms by (auto simp: agent_inv_def inv_accept_def intro: inv_runs_queue_set)

lemma agent_inv_queue_del: "agent_inv a \<Longrightarrow> agent_inv (a\<lparr>sa_queue := Map_Del (sa_queue a) sid\<rparr>)"
  by (auto simp: agent_inv_def inv_accept_def intro: inv_runs_queue_del)

lemma agent_inv_publish [intro]: "agent_inv a \<Longrightarrow> agent_inv (publishRunComplete a c e)"
  by (erule agent_inv_frame) simp_all

lemma agent_inv_drops [intro]: "agent_inv a \<Longrightarrow> agent_inv (publishCanceledQueueDrops a ds)"
  by (erule agent_inv_frame) simp_all

lemma begin_frame [simp]:
  "sa_queue (snd (BeginAccepted a s)) = sa_queue a" "sa_runs (snd (BeginAccepted a s)) = sa_runs a"
  "sa_active (snd (BeginAccepted a s)) = sa_active a" "sa_next (snd (BeginAccepted a s)) = sa_next a"
  "sa_mark (snd (BeginAccepted a s)) = sa_mark a" "sa_events (snd (BeginAccepted a s)) = sa_events a"
  "sa_hooked (snd (BeginAccepted a s)) = sa_hooked a" "sa_has_broker (snd (BeginAccepted a s)) = sa_has_broker a"
  "sa_submitted (snd (BeginAccepted a s)) = sa_submitted a" "sa_silent (snd (BeginAccepted a s)) = sa_silent a"
  "fst (BeginAccepted a s) = length (sa_handles a)"
  "sa_handles (snd (BeginAccepted a s)) =
     sa_handles a @ [\<lparr>ar_session = s, ar_seq = sa_seq a + 1, ar_done = False\<rparr>]"
  by (simp_all add: BeginAccepted_def Let_def)

lemma agent_inv_begin: "agent_inv a \<Longrightarrow> agent_inv (snd (BeginAccepted a sid))"
  using inv_runs_frame [OF _ _ _ _ _ handles_grow_begin] inv_accept_begin
  by (simp add: agent_inv_def)

lemma agent_inv_close:
  assumes "agent_inv a" and "\<And>h. r = Some h \<Longrightarrow> h < length (sa_handles a)"
  shows "agent_inv (Accepted_Close a r)"
  using assms by (auto simp: agent_inv_def intro: inv_accept_close inv_runs_frame handles_grow_close)

lemma agent_inv_ClearQueue: "agent_inv a \<Longrightarrow> agent_inv (ClearQueue a sid)"
  by (auto simp: ClearQueue_def clearQueueAndNotify_def Let_def intro: agent_inv_queue_del split: option.splits)

lemma agent_inv_Cancel: "agent_inv a \<Longrightarrow> agent_inv (Cancel a sid)"
proof -
  assume inv: "agent_inv a"
  let ?b = "cancel_active (cancel_active a sid) (sid @ ''-summarize'')"
  have "agent_inv ?b" by (rule agent_inv_frame [OF inv]) simp_all
  then have "agent_inv (Cancel_raise ?b sid (Cancel_read ?b sid))"
    by (auto simp: agent_inv_def intro: inv_accept_raise inv_runs_frame)
  then show ?thesis by (simp add: Cancel_def Let_def agent_inv_ClearQueue)
qed

lemma agent_inv_phase:
  assumes inv: "agent_inv a" and r: "Map_Get (sa_runs a) r = Some run"
    and p: "p \<in> {Loading, Streaming} \<Longrightarrow> rn_phase run \<in> {Loading, Streaming}"
      "\<And>c. p = Recursing c \<Longrightarrow> ValidateCall c = None \<and> handle_of (sa_handles a) c"
      "Map_Get (sa_active a) (ag_session (rn_call run)) = Some r \<Longrightarrow> p \<in> {Loading, Streaming, Leaving}"
  shows "agent_inv (set_phase a r run p)"
  using inv_runs_phase [OF _ r p] inv by (auto simp: agent_inv_def inv_accept_def set_phase_def)

lemma not_registered:
  assumes "agent_inv a" and "Map_Get (sa_runs a) r = Some run" and "rn_phase run \<notin> {Loading, Streaming, Leaving}"
  shows "Map_Get (sa_active a) sid \<noteq> Some r"
  using assms inv_runsD(4) [of a sid r] by (auto simp: agent_inv_def)

lemma ValidateCall_upd [simp]:
  "ValidateCall (c\<lparr>ag_accepted := h\<rparr>) = ValidateCall c" "ValidateCall (c\<lparr>ag_accept_seq := q\<rparr>) = ValidateCall c"
  "ValidateCall (c\<lparr>ag_on_complete := k\<rparr>) = ValidateCall c"
  by (simp_all add: ValidateCall_def)

lemma agent_inv_enqueue:
  assumes inv: "agent_inv a" and ok: "ValidateCall call = None"
  shows "agent_inv (enqueueCall a call)"
proof -
  have "ag_session q = ag_session call \<and> ValidateCall q = None" if "q \<in> set (queued_calls a (ag_session call))" for q
    using inv_runsD(5) that inv unfolding agent_inv_def by blast
  with ok show ?thesis
    unfolding enqueueCall_def Let_def
    by (intro agent_inv_queue_set [OF inv]) (auto split: option.splits)
qed

lemma agent_inv_register:
  "agent_inv a \<Longrightarrow> \<not> IsSessionBusy a (ag_session call) \<Longrightarrow> agent_inv (register_run a call)"
  using inv_runs_register [of a call] by (auto simp: agent_inv_def inv_accept_def register_run_def)

definition call_handle_ok :: "session_agent \<Rightarrow> agent_call \<Rightarrow> bool" where
  "call_handle_ok a call \<longleftrightarrow> (\<forall>h. ag_accepted call = Some h \<longrightarrow> h < length (sa_handles a))"

lemma agent_inv_enter:
  assumes inv: "agent_inv a" and h: "call_handle_ok a call"
  shows "agent_inv (snd (Run_enter a call ok))"
proof (cases "ValidateCall call")
  case None
  note close = agent_inv_close [where r = "ag_accepted call"]
  have handles: "sa_handles (enqueueCall a call) = sa_handles a" "sa_handles (register_run a call) = sa_handles a"
    by (simp_all add: enqueueCall_def register_run_def Let_def)
  have hh: "\<And>i. ag_accepted call = Some i \<Longrightarrow> i < length (sa_handles a)" using h by (simp add: call_handle_ok_def)
  have "agent_inv (Accepted_Close a (ag_accepted call))" using close [OF inv hh] .
  moreover have "agent_inv (Accepted_Close (enqueueCall a call) (ag_accepted call))"
    using close [OF agent_inv_enqueue [OF inv None]] hh by (simp add: handles)
  moreover have "agent_inv (Accepted_Close (register_run a call) (ag_accepted call))"
    if "\<not> IsSessionBusy a (ag_session call)"
    using close [OF agent_inv_register [OF inv that]] hh by (simp add: handles)
  ultimately show ?thesis
    using None by (auto simp: Run_enter_def)
qed (simp add: Run_enter_def inv)

lemma agent_inv_Run:
  assumes "agent_inv a" and "external_call a call"
  shows "agent_inv (snd (Run a call ok))"
proof -
  have "call_handle_ok a call" using assms(2) by (auto simp: external_call_def call_handle_ok_def)
  from agent_inv_enter [OF assms(1) this, of ok] show ?thesis
    by (auto simp: Run_def Let_def split: prod.splits elim: agent_inv_frame)
qed

lemma agent_inv_load_error: "Run_load_error a r = Some a' \<Longrightarrow> agent_inv a \<Longrightarrow> agent_inv a'"
proof -
  assume "Run_load_error a r = Some a'" and inv: "agent_inv a"
  then obtain run where r: "Map_Get (sa_runs a) r = Some run" "rn_phase run = Loading"
    and a': "a' = set_phase (a\<lparr>sa_silent := ag_run (rn_call run) # sa_silent a\<rparr>) r run Leaving"
    by (auto simp: Run_load_error_def split: option.splits if_splits)
  have "agent_inv (a\<lparr>sa_silent := ag_run (rn_call run) # sa_silent a\<rparr>)"
    by (rule agent_inv_frame [OF inv]) simp_all
  then show ?thesis unfolding a' by (rule agent_inv_phase) (simp_all add: r)
qed

lemma agent_inv_loaded: "Run_loaded a r = Some a' \<Longrightarrow> agent_inv a \<Longrightarrow> agent_inv a'"
  by (auto simp: Run_loaded_def split: option.splits if_splits intro!: agent_inv_phase)

lemma agent_inv_error: "Run_error a r c = Some a' \<Longrightarrow> agent_inv a \<Longrightarrow> agent_inv a'"
  by (auto simp: Run_error_def split: option.splits if_splits intro!: agent_inv_phase)

lemma agent_inv_release: "Run_release a r = Some a' \<Longrightarrow> agent_inv a \<Longrightarrow> agent_inv a'"
  using inv_runs_release [of a r]
  by (auto simp: Run_release_def agent_inv_def inv_accept_def set_phase_def split: option.splits if_splits)

lemma agent_inv_leave: "Run_leave a r = Some a' \<Longrightarrow> agent_inv a \<Longrightarrow> agent_inv a'"
  using inv_runs_leave [of a r]
  by (auto simp: Run_leave_def agent_inv_def inv_accept_def split: option.splits if_splits)

lemma agent_inv_queue_shrink:
  assumes "agent_inv a" and "set qs \<subseteq> set (queued_calls a sid)"
  shows "agent_inv (a\<lparr>sa_queue := Map_Set (sa_queue a) sid qs\<rparr>)"
  using assms inv_runsD(5) [of a _ sid] by (intro agent_inv_queue_set) (auto simp: agent_inv_def)

lemma agent_inv_drain:
  assumes "agent_inv a"
  shows "agent_inv (snd (drainQueueForStep a sid))"
  unfolding drainQueueForStep_def drain_loop_filter
  by (simp add: agent_inv_queue_del assms) (auto intro!: agent_inv_queue_shrink assms)

lemma agent_inv_step_queue: "map_option snd (Run_prepare_step a r) = Some a' \<Longrightarrow> agent_inv a \<Longrightarrow> agent_inv a'"
  using agent_inv_drain [of a]
  by (auto simp: Run_prepare_step_def Let_def split: option.splits if_splits prod.splits)
     (metis agent_inv_drops snd_conv)

lemma handoff_drop_frame:
  assumes "handoff_drop a sid = (qs, b)"
  shows "sa_active b = sa_active a" "sa_runs b = sa_runs a" "sa_next b = sa_next a" "sa_handles b = sa_handles a"
    "sa_accepted b = sa_accepted a" "sa_mark b = sa_mark a" "sa_seq b = sa_seq a" "sa_has_broker b = sa_has_broker a"
    "sa_submitted b = sa_submitted a" "sa_silent b = sa_silent a" "queued_calls b sid = qs"
    "set qs \<subseteq> set (queued_calls a sid)"
proof -
  have [simp]: "queued_calls (publishCanceledQueueDrops c ds) s = queued_calls c s" for c ds s
    by (simp add: queued_calls_def)
  show "sa_active b = sa_active a" "sa_runs b = sa_runs a" "sa_next b = sa_next a" "sa_handles b = sa_handles a"
    "sa_accepted b = sa_accepted a" "sa_mark b = sa_mark a" "sa_seq b = sa_seq a" "sa_has_broker b = sa_has_broker a"
    "sa_submitted b = sa_submitted a" "sa_silent b = sa_silent a" "queued_calls b sid = qs"
    "set qs \<subseteq> set (queued_calls a sid)"
    using assms by (auto simp: handoff_drop_def Let_def split: option.splits if_splits)
qed

lemma agent_inv_handoff_drop:
  assumes "handoff_drop a sid = (qs, b)" and inv: "agent_inv a"
  shows "agent_inv b"
  using assms(1) inv
  by (auto simp: handoff_drop_def Let_def intro!: agent_inv_queue_shrink split: option.splits if_splits)

lemma agent_inv_mark_del: "agent_inv a \<Longrightarrow> agent_inv (a\<lparr>sa_mark := Map_Del (sa_mark a) sid\<rparr>)"
  using inv_accept_mark_del [of a sid] inv_runs_frame [of a "a\<lparr>sa_mark := Map_Del (sa_mark a) sid\<rparr>"]
  by (simp add: agent_inv_def)

lemma agent_inv_finish:
  assumes inv: "agent_inv b" and r: "Map_Get (sa_runs b) r = Some run"
  shows "agent_inv (handoff_finish b r run c)"
proof -
  let ?d = "b\<lparr>sa_queue := Map_Del (sa_queue b) (ag_session (rn_call run))\<rparr>"
  have d: "agent_inv ?d" "sa_runs ?d = sa_runs b" using agent_inv_queue_del [OF inv] by simp_all
  define e where "e = (if (case Map_Get (sa_accepted ?d) (ag_session (rn_call run)) of Some n \<Rightarrow> n | None \<Rightarrow> 0) = 0
        then ?d\<lparr>sa_mark := Map_Del (sa_mark ?d) (ag_session (rn_call run))\<rparr> else ?d)"
  have e: "agent_inv e" "sa_runs e = sa_runs b"
    unfolding e_def using d agent_inv_mark_del [OF d(1)] by simp_all
  have "handoff_finish b r run c = set_phase (publishRunComplete e (rn_call run) (turn_event (rn_call run) c)) r run Leaving"
    unfolding handoff_finish_def Let_def e_def ..
  moreover have "agent_inv (set_phase (publishRunComplete e (rn_call run) (turn_event (rn_call run) c)) r run Leaving)"
    using e r by (intro agent_inv_phase agent_inv_publish) simp_all
  ultimately show ?thesis by simp
qed

lemma agent_inv_next:
  assumes inv: "agent_inv b" and r: "Map_Get (sa_runs b) r = Some run" and noreg: "\<And>s. Map_Get (sa_active b) s \<noteq> Some r"
    and qs: "\<And>q. q \<in> set (first # rest) \<Longrightarrow> ag_session q = ag_session (rn_call run) \<and> ValidateCall q = None"
  shows "agent_inv (handoff_next b r run c first rest)"
proof -
  let ?sid = "ag_session (rn_call run)"
  define d where "d = snd (BeginAccepted (b\<lparr>sa_queue := Map_Set (sa_queue b) ?sid rest\<rparr>) ?sid)"
  define f where "f = first\<lparr>ag_accepted := Some (length (sa_handles b))\<rparr>"
  have invd: "agent_inv d"
    unfolding d_def by (intro agent_inv_begin agent_inv_queue_set [OF inv] qs) simp
  have f: "ValidateCall f = None \<and> handle_of (sa_handles d) f"
    using qs [of first] by (simp add: f_def d_def handle_of_def)
  define e where "e = (if ag_run (rn_call run) \<noteq> [] \<and> (\<forall>q\<in>set (first # rest). ag_run q \<noteq> ag_run (rn_call run))
     then publishRunComplete d (rn_call run) (turn_event (rn_call run) c) else d)"
  have eq: "handoff_next b r run c first rest = set_phase e r run (Recursing f)"
    unfolding handoff_next_def Let_def d_def f_def e_def by (simp only: split_beta begin_frame) simp
  have fr: "sa_runs e = sa_runs b" "sa_handles e = sa_handles d" "sa_active e = sa_active b"
    unfolding e_def d_def by simp_all
  have inve: "agent_inv e" using invd unfolding e_def by auto
  have re: "Map_Get (sa_runs e) r = Some run" using r by (simp only: fr)
  have nore: "Map_Get (sa_active e) s \<noteq> Some r" for s unfolding fr by (rule noreg)
  have fe: "ValidateCall f = None \<and> handle_of (sa_handles e) f" using f by (simp only: fr)
  show ?thesis
    unfolding eq by (rule agent_inv_phase [OF inve re]) (use nore fe in auto)
qed

lemma agent_inv_handoff: "Run_handoff a r c = Some a' \<Longrightarrow> agent_inv a \<Longrightarrow> agent_inv a'"
proof -
  assume h: "Run_handoff a r c = Some a'" and inv: "agent_inv a"
  then obtain run where r: "Map_Get (sa_runs a) r = Some run" "rn_phase run = Released"
    by (auto simp: Run_handoff_def split: option.splits if_splits)
  obtain qs b where b: "handoff_drop a (ag_session (rn_call run)) = (qs, b)"
    by (cases "handoff_drop a (ag_session (rn_call run))")
  note fr = handoff_drop_frame [OF b]
  have invb: "agent_inv b" by (rule agent_inv_handoff_drop [OF b inv])
  have rb: "Map_Get (sa_runs b) r = Some run" using r fr by simp
  have noreg: "Map_Get (sa_active b) s \<noteq> Some r" for s
    using not_registered [OF inv r(1)] r(2) fr(1) by simp
  have mem: "ag_session q = ag_session (rn_call run) \<and> ValidateCall q = None" if "q \<in> set qs" for q
    using inv_runsD(5) [of a q] inv that fr(12) by (auto simp: agent_inv_def)
  show ?thesis
  proof (cases qs)
    case Nil
    with h r b have "a' = handoff_finish b r run c" by (simp add: Run_handoff_def)
    then show ?thesis using agent_inv_finish [OF invb rb] by simp
  next
    case (Cons first rest)
    with h r b have "a' = handoff_next b r run c first rest" by (simp add: Run_handoff_def)
    moreover have "agent_inv (handoff_next b r run c first rest)"
      by (rule agent_inv_next [OF invb rb noreg]) (use mem Cons in blast)
    ultimately show ?thesis by simp
  qed
qed

lemma agent_inv_recurse: "Run_recurse a r ok = Some a' \<Longrightarrow> agent_inv a \<Longrightarrow> agent_inv a'"
proof -
  assume h: "Run_recurse a r ok = Some a'" and inv: "agent_inv a"
  then obtain run call where r: "Map_Get (sa_runs a) r = Some run" "rn_phase run = Recursing call"
    and a': "a' = snd (Run_enter (set_phase a r run Leaving) call ok)"
    by (auto simp: Run_recurse_def split: option.splits run_phase.splits)
  have "agent_inv (set_phase a r run Leaving)" by (rule agent_inv_phase [OF inv r(1)]) simp_all
  moreover have "call_handle_ok (set_phase a r run Leaving) call"
    using inv r inv_runsD(3) [of a r run] by (auto simp: agent_inv_def run_ok_def call_handle_ok_def handle_of_def set_phase_def)
  ultimately show ?thesis unfolding a' by (rule agent_inv_enter)
qed

lemma agent_inv_exec: "agent_exec op a = Some a' \<Longrightarrow> agent_inv a \<Longrightarrow> agent_inv a'"
  by (cases op)
     (auto simp: agent_inv_begin agent_inv_Cancel agent_inv_ClearQueue split: if_splits
       intro: agent_inv_Run agent_inv_load_error agent_inv_loaded agent_inv_error agent_inv_release agent_inv_leave
         agent_inv_step_queue [simplified] agent_inv_handoff agent_inv_recurse agent_inv_close)

lemma agent_inv_start: "agent_start a \<Longrightarrow> agent_inv a"
  by (auto simp: agent_start_def NewSessionAgent_def agent_inv_def inv_accept_def accept_ok_def open_of_def inv_runs_def
      smap_defs queued_calls_def smap_ok_def)

text \<open>Handles are never removed and keep their session and sequence number.\<close>

lemma handles_grow_publish [simp]: "handles_grow a (publishRunComplete b c e) \<longleftrightarrow> handles_grow a b"
  by (simp add: handles_grow_def)

lemma handles_grow_enter: "handles_grow a (snd (Run_enter a call ok))"
proof -
  have "handles_grow a (enqueueCall a call)" "handles_grow a (register_run a call)"
    by (simp_all add: enqueueCall_def register_run_def Let_def)
  then show ?thesis
    using handles_grow_close [of a] handles_grow_trans [OF _ handles_grow_close]
    by (auto simp: Run_enter_def split: option.splits intro: handles_grow_trans [OF handles_grow_close])
qed

lemma handles_grow_handoff: "Run_handoff a r c = Some a' \<Longrightarrow> handles_grow a a'"
proof -
  assume h: "Run_handoff a r c = Some a'"
  then obtain run where r: "Map_Get (sa_runs a) r = Some run" "rn_phase run = Released"
    by (auto simp: Run_handoff_def split: option.splits if_splits)
  obtain qs b where b: "handoff_drop a (ag_session (rn_call run)) = (qs, b)"
    by (cases "handoff_drop a (ag_session (rn_call run))")
  have "sa_handles b = sa_handles a" by (rule handoff_drop_frame(4) [OF b])
  moreover have "sa_handles (handoff_finish b r run c) = sa_handles b"
    by (simp add: handoff_finish_def set_phase_def Let_def)
  moreover have "handles_grow b (handoff_next b r run c first rest)" for first rest
    by (simp add: handoff_next_def set_phase_def split_beta Let_def handles_grow_def nth_append)
  ultimately show ?thesis using h r b
    by (cases qs) (auto simp: Run_handoff_def handles_grow_def)
qed

lemma handles_grow_exec: "agent_exec op a = Some a' \<Longrightarrow> handles_grow a a'"
proof (cases op)
  case (OpRecurse r ok)
  moreover assume "agent_exec op a = Some a'"
  ultimately obtain run call where "a' = snd (Run_enter (set_phase a r run Leaving) call ok)"
    by (auto simp: Run_recurse_def split: option.splits run_phase.splits)
  moreover have "handles_grow a (set_phase a r run Leaving)" by (simp add: set_phase_def)
  ultimately show ?thesis using handles_grow_trans handles_grow_enter by blast
next
  case (OpRun call ok)
  moreover assume "agent_exec op a = Some a'"
  ultimately show ?thesis using handles_grow_enter [of a call ok]
    by (auto simp: Run_def Let_def handles_grow_def split: prod.splits if_splits)
next
  case (OpStep r)
  moreover assume "agent_exec op a = Some a'"
  ultimately show ?thesis
    by (auto simp: Run_prepare_step_def drainQueueForStep_def Let_def split: option.splits if_splits prod.splits)
next
  case (OpHandoff r c)
  moreover assume "agent_exec op a = Some a'"
  ultimately show ?thesis by (simp add: handles_grow_handoff)
qed (auto simp: handles_grow_begin handles_grow_close Run_load_error_def Run_loaded_def Run_error_def Run_release_def
    Run_leave_def set_phase_def Cancel_def Let_def split: option.splits if_splits)

text \<open>The accept sequence is monotone: handles are only ever added.\<close>

interpretation dispatch: monotone_system agent_start agent_step agent_inv "\<lambda>a. length (sa_handles a)"
proof
  show "agent_start s \<Longrightarrow> agent_inv s" for s by (rule agent_inv_start)
  show "agent_step s t \<Longrightarrow> agent_inv s \<Longrightarrow> agent_inv t" for s t by (auto elim!: agent_stepE intro: agent_inv_exec)
  show "agent_step s t \<Longrightarrow> agent_inv s \<Longrightarrow> length (sa_handles s) \<le> length (sa_handles t)" for s t
    by (auto elim!: agent_stepE dest: handles_grow_exec simp: handles_grow_def)
qed

end
