(* ===== verification/Backend_Runs.thy ===== *)
theory Backend_Runs
  imports Dispatch_Inv
begin

section \<open>Dispatching runs and shutting down: \<^verbatim>\<open>backend/agent.go\<close>, \<^verbatim>\<open>Workspace.Shutdown\<close>\<close>

text \<open>
  The gate between the prompts a workspace accepts and its teardown, around the session agent of the
  dispatch theory. A prompt is a job: \<^verbatim>\<open>SendMessage\<close> reserves it with the agent, passes the gate under
  \<^verbatim>\<open>runMu\<close> and starts the goroutine \<^verbatim>\<open>runAgent\<close>, which works for it (\<open>RunWork\<close>: steps of the agent made
  on behalf of a dispatched job) and ends it. \<^verbatim>\<open>Shutdown\<close> is a sequence of five steps any number of
  callers may be in at once; waiting is possible only at a zero wait group. Cancelling a session and
  clearing its queue are open to every client at any time.

  Finding the workspace, whether it has a coordinator, the error of a run and whether its terminal
  event was already published are arguments. The context values of \<^verbatim>\<open>runid.go\<close> and
  \<^verbatim>\<open>run_marker.go\<close> are a record.
\<close>

subsection \<open>Context values\<close>

record run_ctx =
  cx_run_id :: "string option"
  cx_max_input :: "int option"
  cx_marker :: "bool option"

definition BackgroundCtx :: run_ctx where
  "BackgroundCtx = \<lparr>cx_run_id = None, cx_max_input = None, cx_marker = None\<rparr>"

definition WithRunID :: "run_ctx \<Rightarrow> string \<Rightarrow> run_ctx" where
  "WithRunID ctx runID = ctx\<lparr>cx_run_id := Some runID\<rparr>"

definition RunIDFromContext :: "run_ctx \<Rightarrow> string" where
  "RunIDFromContext ctx = (case cx_run_id ctx of Some v \<Rightarrow> v | None \<Rightarrow> [])"

definition WithMaxInputTokens :: "run_ctx \<Rightarrow> int \<Rightarrow> run_ctx" where
  "WithMaxInputTokens ctx tokens = (if tokens \<le> 0 then ctx else ctx\<lparr>cx_max_input := Some tokens\<rparr>)"

definition MaxInputTokensFromContext :: "run_ctx \<Rightarrow> int" where
  "MaxInputTokensFromContext ctx = (case cx_max_input ctx of Some v \<Rightarrow> if v > 0 then v else 0 | None \<Rightarrow> 0)"

definition WithRunCompleteMarker :: "run_ctx \<Rightarrow> run_ctx" where
  "WithRunCompleteMarker ctx = ctx\<lparr>cx_marker := Some False\<rparr>"

definition MarkRunCompletePublished :: "run_ctx \<Rightarrow> run_ctx" where
  "MarkRunCompletePublished ctx = (case cx_marker ctx of Some _ \<Rightarrow> ctx\<lparr>cx_marker := Some True\<rparr> | None \<Rightarrow> ctx)"

definition RunCompletePublished :: "run_ctx \<Rightarrow> bool" where
  "RunCompletePublished ctx \<longleftrightarrow> cx_marker ctx = Some True"

subsection \<open>Jobs and the gate\<close>

record prompt_msg =
  pm_session :: string
  pm_run :: string
  pm_prompt :: string
  pm_attachments :: "attachment list"
  pm_max_input :: int

datatype job_phase = JobAccepted | JobDispatched

record run_job =
  rj_msg :: prompt_msg
  rj_handle :: nat
  rj_phase :: job_phase

datatype run_error = RunCanceled | RunFailed string
datatype run_note = RunErrorNote string string string
datatype send_error = SendWorkspaceNotFound | SendAgentNotInitialized | SendInvalid agent_error | SendWorkspaceClosing
datatype shutdown_pc = SdMarked | SdCancelled | SdAllCancelled | SdWaited

record run_gate =
  rg_agent :: session_agent
  rg_closing :: bool
  rg_wg :: int
  rg_jobs :: "(nat, run_job) gomap"
  rg_next :: nat
  rg_ctx_done :: bool
  rg_shutdowns :: "(nat, shutdown_pc) gomap"
  rg_next_shutdown :: nat
  rg_app_shutdowns :: nat
  rg_notes :: "run_note list"
  rg_fallbacks :: "(string \<times> string \<times> string) list"

definition NewGate :: "session_agent \<Rightarrow> run_gate" where
  "NewGate a = \<lparr>rg_agent = a, rg_closing = False, rg_wg = 0, rg_jobs = [], rg_next = 0, rg_ctx_done = False,
     rg_shutdowns = [], rg_next_shutdown = 0, rg_app_shutdowns = 0, rg_notes = [], rg_fallbacks = []\<rparr>"

definition msg_call :: "prompt_msg \<Rightarrow> agent_call" where
  "msg_call msg = \<lparr>ag_session = pm_session msg, ag_run = [], ag_prompt = pm_prompt msg, ag_attachments = pm_attachments msg,
     ag_on_complete = False, ag_accepted = None, ag_accept_seq = 0\<rparr>"

text \<open>\<^verbatim>\<open>SendMessage\<close> up to the gate, and the gate.\<close>

definition SendMessage_begin :: "bool \<Rightarrow> bool \<Rightarrow> prompt_msg \<Rightarrow> run_gate \<Rightarrow> (send_error + nat) \<times> run_gate" where
  "SendMessage_begin present coordinator msg g =
     (if \<not> present then (Inl SendWorkspaceNotFound, g)
      else if \<not> coordinator then (Inl SendAgentNotInitialized, g)
      else case ValidateCall (msg_call msg) of
             Some e \<Rightarrow> (Inl (SendInvalid e), g)
           | None \<Rightarrow>
               (let (h, a) = BeginAccepted (rg_agent g) (pm_session msg); k = rg_next g
                in (Inr k, g\<lparr>rg_agent := a, rg_next := Suc k,
                             rg_jobs := AList.update k \<lparr>rj_msg = msg, rj_handle = h, rj_phase = JobAccepted\<rparr> (rg_jobs g)\<rparr>)))"

definition SendMessage_gate :: "nat \<Rightarrow> run_gate \<Rightarrow> (send_error option \<times> run_gate) option" where
  "SendMessage_gate k g =
     (case map_of (rg_jobs g) k of
        None \<Rightarrow> None
      | Some j \<Rightarrow>
          if rj_phase j \<noteq> JobAccepted then None
          else if rg_closing g then
            Some (Some SendWorkspaceClosing,
                  g\<lparr>rg_agent := Accepted_Close (rg_agent g) (Some (rj_handle j)), rg_jobs := AList.delete k (rg_jobs g)\<rparr>)
          else
            Some (None, g\<lparr>rg_wg := rg_wg g + 1, rg_jobs := AList.update k (j\<lparr>rj_phase := JobDispatched\<rparr>) (rg_jobs g)\<rparr>))"

text \<open>The context of a run, and the end of \<^verbatim>\<open>runAgent\<close> with its two deferred calls.\<close>

definition runAgent_ctx :: "prompt_msg \<Rightarrow> run_ctx \<Rightarrow> run_ctx" where
  "runAgent_ctx msg ctx =
     WithRunCompleteMarker (WithMaxInputTokens (if pm_run msg \<noteq> [] then WithRunID ctx (pm_run msg) else ctx) (pm_max_input msg))"

definition runAgent_report :: "prompt_msg \<Rightarrow> run_ctx \<Rightarrow> bool \<Rightarrow> run_error option \<Rightarrow> run_gate \<Rightarrow> run_gate" where
  "runAgent_report msg ctx broker err g =
     (case err of
        None \<Rightarrow> g
      | Some RunCanceled \<Rightarrow> g
      | Some (RunFailed e) \<Rightarrow>
          (let g = g\<lparr>rg_notes := rg_notes g @ [RunErrorNote (pm_session msg) (pm_run msg) e]\<rparr>
           in if pm_run msg = [] \<or> RunCompletePublished ctx then g
              else if broker then g\<lparr>rg_fallbacks := rg_fallbacks g @ [(pm_session msg, pm_run msg, e)]\<rparr>
              else g))"

definition runAgent_finish :: "nat \<Rightarrow> run_ctx \<Rightarrow> bool \<Rightarrow> run_error option \<Rightarrow> run_gate \<Rightarrow> run_gate option" where
  "runAgent_finish k ctx broker err g =
     (case map_of (rg_jobs g) k of
        None \<Rightarrow> None
      | Some j \<Rightarrow>
          if rj_phase j \<noteq> JobDispatched then None
          else
            (let g = runAgent_report (rj_msg j) ctx broker err g
             in Some (g\<lparr>rg_agent := Accepted_Close (rg_agent g) (Some (rj_handle j)), rg_wg := rg_wg g - 1,
                        rg_jobs := AList.delete k (rg_jobs g)\<rparr>)))"

subsection \<open>Shutdown\<close>

definition WsShutdown_mark :: "run_gate \<Rightarrow> run_gate" where
  "WsShutdown_mark g =
     g\<lparr>rg_closing := True, rg_shutdowns := AList.update (rg_next_shutdown g) SdMarked (rg_shutdowns g),
       rg_next_shutdown := Suc (rg_next_shutdown g)\<rparr>"

definition WsShutdown_next :: "bool \<Rightarrow> nat \<Rightarrow> run_gate \<Rightarrow> run_gate option" where
  "WsShutdown_next coordinator i g =
     (case map_of (rg_shutdowns g) i of
        None \<Rightarrow> None
      | Some SdMarked \<Rightarrow> Some (g\<lparr>rg_ctx_done := True, rg_shutdowns := AList.update i SdCancelled (rg_shutdowns g)\<rparr>)
      | Some SdCancelled \<Rightarrow>
          Some (g\<lparr>rg_agent := (if coordinator then CancelAll (rg_agent g) else rg_agent g),
                  rg_shutdowns := AList.update i SdAllCancelled (rg_shutdowns g)\<rparr>)
      | Some SdAllCancelled \<Rightarrow>
          if rg_wg g = 0 then Some (g\<lparr>rg_shutdowns := AList.update i SdWaited (rg_shutdowns g)\<rparr>) else None
      | Some SdWaited \<Rightarrow>
          Some (g\<lparr>rg_app_shutdowns := Suc (rg_app_shutdowns g), rg_shutdowns := AList.delete i (rg_shutdowns g)\<rparr>))"

subsection \<open>Steps\<close>

fun client_op :: "agent_op \<Rightarrow> bool" where
  "client_op (OpCancel _) = True"
| "client_op (OpClearQueue _) = True"
| "client_op _ = False"

datatype gate_op =
    GSend bool bool prompt_msg
  | GGate nat
  | GWork nat agent_op
  | GClient agent_op
  | GFinish nat run_ctx bool "run_error option"
  | GShutdown
  | GShutdownNext bool nat

fun gate_exec :: "gate_op \<Rightarrow> run_gate \<Rightarrow> run_gate option" where
  "gate_exec (GSend p c msg) g = Some (snd (SendMessage_begin p c msg g))"
| "gate_exec (GGate k) g = map_option snd (SendMessage_gate k g)"
| "gate_exec (GWork k op) g =
     (case map_of (rg_jobs g) k of
        Some j \<Rightarrow> if rj_phase j = JobDispatched then map_option (\<lambda>a. g\<lparr>rg_agent := a\<rparr>) (agent_exec op (rg_agent g)) else None
      | None \<Rightarrow> None)"
| "gate_exec (GClient op) g = (if client_op op then map_option (\<lambda>a. g\<lparr>rg_agent := a\<rparr>) (agent_exec op (rg_agent g)) else None)"
| "gate_exec (GFinish k ctx b err) g = runAgent_finish k ctx b err g"
| "gate_exec GShutdown g = Some (WsShutdown_mark g)"
| "gate_exec (GShutdownNext c i) g = WsShutdown_next c i g"

inductive gate_step :: "run_gate \<Rightarrow> run_gate \<Rightarrow> bool" where
  gate_stepI: "gate_exec op g = Some g' \<Longrightarrow> gate_step g g'"

inductive_cases gate_stepE: "gate_step g g'"

definition gate_start :: "run_gate \<Rightarrow> bool" where
  "gate_start g \<longleftrightarrow> (\<exists>b. g = NewGate (NewSessionAgent b))"

fun gate_execs :: "gate_op list \<Rightarrow> run_gate \<Rightarrow> run_gate option" where
  "gate_execs [] g = Some g"
| "gate_execs (op # ops) g = Option.bind (gate_exec op g) (gate_execs ops)"

lemma gate_execs_steps: "gate_execs ops g = Some g' \<Longrightarrow> gate_step\<^sup>*\<^sup>* g g'"
  by (induction ops arbitrary: g)
     (auto simp: bind_eq_Some_conv intro: converse_rtranclp_into_rtranclp gate_stepI)

end
