(* ===== verification/Backend_Runs_Props.thy ===== *)
theory Backend_Runs_Props
  imports Backend_Runs
begin

section \<open>Properties of the run gate\<close>

text \<open>
  The invariant of the gate (the wait group counts the dispatched jobs, a shutdown past its wait means
  no job, and none comes after), its preservation by every step, and the refinement: what the
  workspace does to its agent is a run of the dispatch theory, so the invariant of that theory holds
  in every workspace.
\<close>

definition job_weight :: "run_job \<Rightarrow> nat" where
  "job_weight j = (if rj_phase j = JobDispatched then 1 else 0)"

definition dispatched :: "run_gate \<Rightarrow> nat" where
  "dispatched g = gomap_sum job_weight (rg_jobs g)"

definition past_wait :: "run_gate \<Rightarrow> bool" where
  "past_wait g \<longleftrightarrow> 0 < rg_app_shutdowns g \<or> SdWaited \<in> snd ` set (rg_shutdowns g)"

definition gate_ok :: "run_gate \<Rightarrow> bool" where
  "gate_ok g \<longleftrightarrow>
     gomap_ok (rg_jobs g) \<and> (\<forall>k. k \<in> gomap_keys (rg_jobs g) \<longrightarrow> k < rg_next g) \<and>
     (\<forall>k j. map_of (rg_jobs g) k = Some j \<longrightarrow> rj_handle j < length (sa_handles (rg_agent g))) \<and>
     rg_wg g = int (dispatched g) \<and>
     (rg_shutdowns g \<noteq> [] \<or> 0 < rg_app_shutdowns g \<longrightarrow> rg_closing g) \<and> (past_wait g \<longrightarrow> dispatched g = 0) \<and>
     agent_inv (rg_agent g)"

lemma dispatched_pos: "map_of (rg_jobs g) k = Some j \<Longrightarrow> rj_phase j = JobDispatched \<Longrightarrow> 0 < dispatched g"
  using gomap_sum_ge [of "rg_jobs g" k j job_weight] by (simp add: dispatched_def job_weight_def)

lemma past_wait_set:
  "SdWaited \<in> snd ` set (AList.update i pc m) \<Longrightarrow> pc = SdWaited \<or> SdWaited \<in> snd ` set m"
  using gomap_set_mem by fastforce

lemma past_wait_del: "SdWaited \<in> snd ` set (AList.delete i m) \<Longrightarrow> SdWaited \<in> snd ` set m"
  using gomap_del_subset by fastforce

lemma CancelAll_steps: "agent_step\<^sup>*\<^sup>* a (CancelAll a)"
proof -
  have "agent_step\<^sup>*\<^sup>* a (foldl Cancel a ss)" for ss
  proof (induction ss arbitrary: a)
    case (Cons s ss)
    have "agent_step a (Cancel a s)" by (rule agent_stepI [of "OpCancel s"]) simp
    with Cons.IH [of "Cancel a s"] show ?case by (simp add: converse_rtranclp_into_rtranclp)
  qed simp
  then show ?thesis by (simp add: CancelAll_def)
qed

text \<open>What a step of the gate does to the agent is zero or more steps of the agent.\<close>

lemma close_step: "h < length (sa_handles a) \<Longrightarrow> agent_step a (Accepted_Close a (Some h))"
  by (rule agent_stepI [of "OpClose h"]) simp

lemma gate_agent_steps:
  assumes "gate_exec op g = Some g'" and "gate_ok g"
  shows "agent_step\<^sup>*\<^sup>* (rg_agent g) (rg_agent g')"
proof (cases op)
  case (GSend p c msg)
  have "agent_step (rg_agent g) (snd (BeginAccepted (rg_agent g) (pm_session msg)))"
    by (rule agent_stepI [of "OpAccept (pm_session msg)"]) simp
  with GSend assms(1) show ?thesis
    by (auto simp: SendMessage_begin_def Let_def split: option.splits prod.splits)
next
  case (GGate k)
  with assms close_step show ?thesis
    by (auto simp: SendMessage_gate_def gate_ok_def simp del: map_of_eq_Some_iff split: option.splits if_splits)
next
  case (GWork k op')
  with assms(1) obtain z where z: "agent_exec op' (rg_agent g) = Some z" "g' = g\<lparr>rg_agent := z\<rparr>"
    by (auto split: option.splits if_splits)
  from agent_stepI [OF z(1)] z(2) show ?thesis by auto
next
  case (GClient op')
  with assms(1) obtain z where z: "agent_exec op' (rg_agent g) = Some z" "g' = g\<lparr>rg_agent := z\<rparr>"
    by (auto split: if_splits)
  from agent_stepI [OF z(1)] z(2) show ?thesis by auto
next
  case (GFinish k ctx b err)
  have "rg_agent (runAgent_report m ctx b err g) = rg_agent g" for m
    by (auto simp: runAgent_report_def Let_def split: option.splits run_error.splits)
  with GFinish assms close_step show ?thesis
    by (auto simp: runAgent_finish_def gate_ok_def Let_def simp del: map_of_eq_Some_iff split: option.splits if_splits)
next
  case GShutdown
  with assms(1) show ?thesis by (auto simp: WsShutdown_mark_def)
next
  case (GShutdownNext c i)
  with assms(1) CancelAll_steps show ?thesis
    by (auto simp: WsShutdown_next_def split: option.splits shutdown_pc.splits if_splits)
qed

lemma handles_grow_steps: "agent_step\<^sup>*\<^sup>* a b \<Longrightarrow> agent_inv a \<Longrightarrow> length (sa_handles a) \<le> length (sa_handles b)"
  by (rule dispatch.mu_steps)

text \<open>The part of the invariant about the gate alone.\<close>

lemma gate_ok_agent:
  assumes "gate_ok g" and "agent_step\<^sup>*\<^sup>* (rg_agent g) a"
  shows "gate_ok (g\<lparr>rg_agent := a\<rparr>)"
proof -
  have inv: "agent_inv (rg_agent g)" and h: "\<And>k j. map_of (rg_jobs g) k = Some j \<Longrightarrow> rj_handle j < length (sa_handles (rg_agent g))"
    using assms(1) unfolding gate_ok_def by blast+
  have "\<forall>k j. map_of (rg_jobs g) k = Some j \<longrightarrow> rj_handle j < length (sa_handles a)"
    using h handles_grow_steps [OF assms(2) inv] by (meson order_less_le_trans)
  moreover have "agent_inv a" by (rule dispatch.steps_keep_inv [OF assms(2) inv])
  ultimately show ?thesis using assms(1) by (simp add: gate_ok_def dispatched_def past_wait_def del: map_of_eq_Some_iff)
qed

lemma gate_ok_begin:
  assumes "gate_ok g"
  shows "gate_ok (snd (SendMessage_begin p c msg g))"
proof (cases "p \<and> c \<and> ValidateCall (msg_call msg) = None")
  case True
  obtain h a where b: "BeginAccepted (rg_agent g) (pm_session msg) = (h, a)" by fastforce
  have "agent_step (rg_agent g) a" using b by (intro agent_stepI [of "OpAccept (pm_session msg)"]) simp
  from gate_ok_agent [OF assms r_into_rtranclp [of agent_step, OF this]] have ok: "gate_ok (g\<lparr>rg_agent := a\<rparr>)" .
  have h: "h < length (sa_handles a)" using b by (auto simp: BeginAccepted_def Let_def)
  have fresh: "map_of (rg_jobs g) (rg_next g) = None"
    using assms gomap_keys_get [of "rg_next g" "rg_jobs g"] by (auto simp: gate_ok_def)
  let ?j = "\<lparr>rj_msg = msg, rj_handle = h, rj_phase = JobAccepted\<rparr>"
  have d: "gomap_sum job_weight (AList.update (rg_next g) ?j (rg_jobs g)) = gomap_sum job_weight (rg_jobs g)"
    using gomap_sum_set [of job_weight "rg_next g" ?j "rg_jobs g"] fresh by (simp add: job_weight_def)
  have g': "snd (SendMessage_begin p c msg g) =
      g\<lparr>rg_agent := a, rg_next := Suc (rg_next g), rg_jobs := AList.update (rg_next g) ?j (rg_jobs g)\<rparr>"
    using True b by (simp add: SendMessage_begin_def Let_def)
  from ok h show ?thesis
    unfolding g'
    by (simp add: gate_ok_def dispatched_def past_wait_def d gomap_keys_set gomap_get_set less_Suc_eq del: map_of_eq_Some_iff)
next
  case False
  with assms show ?thesis by (auto simp: SendMessage_begin_def split: option.splits)
qed

lemma gate_ok_drop:
  assumes "gate_ok g" and "map_of (rg_jobs g) k = Some j"
  shows "gate_ok (g\<lparr>rg_agent := Accepted_Close (rg_agent g) (Some (rj_handle j)), rg_wg := rg_wg g - int (job_weight j),
      rg_jobs := AList.delete k (rg_jobs g)\<rparr>)"
proof -
  have h: "rj_handle j < length (sa_handles (rg_agent g))" using assms unfolding gate_ok_def by blast
  note ok = gate_ok_agent [OF assms(1) r_into_rtranclp [of agent_step, OF close_step [OF h]]]
  have "gomap_ok (rg_jobs g)" using assms(1) by (simp add: gate_ok_def)
  from gomap_sum_del [OF this, of job_weight k] assms(2)
  have d: "gomap_sum job_weight (rg_jobs g) = gomap_sum job_weight (AList.delete k (rg_jobs g)) + job_weight j" by simp
  from ok have "rg_wg g = int (gomap_sum job_weight (rg_jobs g))" "past_wait g \<Longrightarrow> gomap_sum job_weight (rg_jobs g) = 0"
    by (simp_all add: gate_ok_def dispatched_def past_wait_def)
  with d have n: "rg_wg g - int (job_weight j) = int (gomap_sum job_weight (AList.delete k (rg_jobs g)))"
    "past_wait g \<Longrightarrow> gomap_sum job_weight (AList.delete k (rg_jobs g)) = 0" by simp_all
  from ok n show ?thesis
    by (simp add: gate_ok_def past_wait_def dispatched_def gomap_keys_del gomap_get_del del: map_of_eq_Some_iff)
qed

lemma gate_ok_gate:
  assumes "gate_ok g" and "SendMessage_gate k g = Some (e, g')"
  shows "gate_ok g'"
proof -
  obtain j where j: "map_of (rg_jobs g) k = Some j" "rj_phase j = JobAccepted"
    using assms(2) by (auto simp: SendMessage_gate_def simp del: map_of_eq_Some_iff split: option.splits if_splits)
  have w: "job_weight j = 0" "job_weight (j\<lparr>rj_phase := JobDispatched\<rparr>) = 1" using j(2) by (simp_all add: job_weight_def)
  show ?thesis
  proof (cases "rg_closing g")
    case True
    with assms(2) j gate_ok_drop [OF assms(1) j(1)] w show ?thesis by (auto simp: SendMessage_gate_def)
  next
    case False
    with assms(1) have n: "rg_shutdowns g = []" "rg_app_shutdowns g = 0" by (auto simp: gate_ok_def)
    have g': "g' = g\<lparr>rg_wg := rg_wg g + 1, rg_jobs := AList.update k (j\<lparr>rj_phase := JobDispatched\<rparr>) (rg_jobs g)\<rparr>"
      using assms(2) j False by (simp add: SendMessage_gate_def)
    have d: "gomap_sum job_weight (AList.update k (j\<lparr>rj_phase := JobDispatched\<rparr>) (rg_jobs g)) = Suc (gomap_sum job_weight (rg_jobs g))"
      using gomap_sum_set [of job_weight k "j\<lparr>rj_phase := JobDispatched\<rparr>" "rg_jobs g"] j w by simp
    have "k \<in> gomap_keys (rg_jobs g)" using j(1) by (simp add: gomap_keys_get)
    with assms(1) n j d show ?thesis
      by (auto simp: g' gate_ok_def dispatched_def past_wait_def gomap_keys_set gomap_get_set simp del: map_of_eq_Some_iff)
  qed
qed

lemma report_fields:
  "rg_agent (runAgent_report m ctx b err g) = rg_agent g" "rg_jobs (runAgent_report m ctx b err g) = rg_jobs g"
  "rg_wg (runAgent_report m ctx b err g) = rg_wg g" "gate_ok (runAgent_report m ctx b err g) = gate_ok g"
  by (auto simp: runAgent_report_def gate_ok_def dispatched_def past_wait_def Let_def split: option.splits run_error.splits)

lemma gate_ok_finish:
  assumes "gate_ok g" and "runAgent_finish k ctx b err g = Some g'"
  shows "gate_ok g'"
proof -
  obtain j where j: "map_of (rg_jobs g) k = Some j" "rj_phase j = JobDispatched"
    using assms(2) by (auto simp: runAgent_finish_def simp del: map_of_eq_Some_iff split: option.splits if_splits)
  let ?r = "runAgent_report (rj_msg j) ctx b err g"
  have "gate_ok ?r" "map_of (rg_jobs ?r) k = Some j" using assms(1) j by (simp_all add: report_fields)
  from gate_ok_drop [OF this] assms(2) j show ?thesis by (simp add: runAgent_finish_def job_weight_def Let_def)
qed

text \<open>A step of a shutdown changes the closing flag, the callers inside and the count of finished ones.\<close>

lemma gate_ok_stop:
  assumes "gate_ok g" and "agent_step\<^sup>*\<^sup>* (rg_agent g) a" and "c"
    and "0 < n \<or> SdWaited \<in> snd ` set sds \<Longrightarrow> dispatched g = 0"
  shows "gate_ok (g\<lparr>rg_agent := a, rg_closing := c, rg_ctx_done := d, rg_shutdowns := sds, rg_next_shutdown := m, rg_app_shutdowns := n\<rparr>)"
  using gate_ok_agent [OF assms(1,2)] assms(3,4)
  by (simp add: gate_ok_def dispatched_def past_wait_def del: map_of_eq_Some_iff)

lemma gate_ok_mark: "gate_ok g \<Longrightarrow> gate_ok (WsShutdown_mark g)"
proof -
  assume ok: "gate_ok g"
  have "gate_ok (g\<lparr>rg_agent := rg_agent g, rg_closing := True, rg_ctx_done := rg_ctx_done g,
      rg_shutdowns := AList.update (rg_next_shutdown g) SdMarked (rg_shutdowns g), rg_next_shutdown := Suc (rg_next_shutdown g),
      rg_app_shutdowns := rg_app_shutdowns g\<rparr>)"
    by (rule gate_ok_stop [OF ok]) (use ok past_wait_set [of "rg_next_shutdown g" SdMarked "rg_shutdowns g"] in
      \<open>auto simp: gate_ok_def past_wait_def\<close>)
  then show ?thesis by (simp add: WsShutdown_mark_def)
qed

lemma gate_ok_shutdown:
  assumes "gate_ok g" and "WsShutdown_next c i g = Some g'"
  shows "gate_ok g'"
proof -
  obtain pc where pc: "map_of (rg_shutdowns g) i = Some pc"
    using assms(2) by (auto simp: WsShutdown_next_def split: option.splits)
  then have cl: "rg_closing g" using assms(1) by (auto simp: gate_ok_def)
  have wg: "rg_wg g = int (dispatched g)" "past_wait g \<Longrightarrow> dispatched g = 0" using assms(1) by (simp_all add: gate_ok_def)
  have waited: "pc = SdWaited \<Longrightarrow> past_wait g" using map_of_SomeD [OF pc] by (force simp: past_wait_def)
  have old: "0 < rg_app_shutdowns g \<Longrightarrow> dispatched g = 0" "SdWaited \<in> snd ` set (rg_shutdowns g) \<Longrightarrow> dispatched g = 0"
    using wg(2) by (simp_all add: past_wait_def)
  have keep: "0 < rg_app_shutdowns g \<or> SdWaited \<in> snd ` set (AList.update i q (rg_shutdowns g)) \<Longrightarrow> dispatched g = 0"
    if "q \<noteq> SdWaited" for q
    using that old past_wait_set [of i q "rg_shutdowns g"] by blast
  obtain a n sds d where g': "g' = g\<lparr>rg_agent := a, rg_closing := True, rg_ctx_done := d, rg_shutdowns := sds,
      rg_next_shutdown := rg_next_shutdown g, rg_app_shutdowns := n\<rparr>"
    and a: "a = rg_agent g \<or> a = CancelAll (rg_agent g)" and n: "0 < n \<or> SdWaited \<in> snd ` set sds \<Longrightarrow> dispatched g = 0"
  proof (cases pc)
    case SdMarked
    show ?thesis
      by (rule that [where a = "rg_agent g" and d = True and sds = "AList.update i SdCancelled (rg_shutdowns g)" and n = "rg_app_shutdowns g"])
        (use SdMarked assms(2) pc cl keep [of SdCancelled] in \<open>auto simp: WsShutdown_next_def\<close>)
  next
    case SdCancelled
    show ?thesis
      by (rule that [where a = "if c then CancelAll (rg_agent g) else rg_agent g" and d = "rg_ctx_done g" and
        sds = "AList.update i SdAllCancelled (rg_shutdowns g)" and n = "rg_app_shutdowns g"])
        (use SdCancelled assms(2) pc cl keep [of SdAllCancelled] in \<open>auto simp: WsShutdown_next_def\<close>)
  next
    case SdAllCancelled
    with that [where a = "rg_agent g" and d = "rg_ctx_done g" and sds = "AList.update i SdWaited (rg_shutdowns g)" and n = "rg_app_shutdowns g"] assms(2) pc cl wg(1)
    show ?thesis by (auto simp: WsShutdown_next_def split: if_splits)
  next
    case SdWaited
    with that [where a = "rg_agent g" and d = "rg_ctx_done g" and sds = "AList.delete i (rg_shutdowns g)" and n = "Suc (rg_app_shutdowns g)"] assms(2) pc cl wg(2) waited
    show ?thesis by (auto simp: WsShutdown_next_def)
  qed
  have "agent_step\<^sup>*\<^sup>* (rg_agent g) a" using a CancelAll_steps by auto
  then show ?thesis unfolding g' by (rule gate_ok_stop [OF assms(1) _ TrueI n])
qed

lemma gate_ok_exec: "gate_exec op g = Some g' \<Longrightarrow> gate_ok g \<Longrightarrow> gate_ok g'"
proof (cases op)
  case (GWork k op')
  assume e: "gate_exec op g = Some g'" and ok: "gate_ok g"
  from gate_ok_agent [OF ok gate_agent_steps [OF e ok]] e GWork show ?thesis
    by (auto simp del: map_of_eq_Some_iff split: option.splits if_splits)
next
  case (GClient op')
  assume e: "gate_exec op g = Some g'" and ok: "gate_ok g"
  from gate_ok_agent [OF ok gate_agent_steps [OF e ok]] e GClient show ?thesis by (auto split: if_splits)
qed (auto intro: gate_ok_begin gate_ok_gate gate_ok_finish gate_ok_mark gate_ok_shutdown)

interpretation gate: refinement gate_start gate_step gate_ok rg_agent "agent_step\<^sup>*\<^sup>*"
proof
  show "gate_start s \<Longrightarrow> gate_ok s" for s
  proof -
    have "agent_inv (NewSessionAgent b)" for b by (rule agent_inv_start) (auto simp: agent_start_def)
    then show "gate_start s \<Longrightarrow> gate_ok s"
      by (auto simp: gate_start_def gate_ok_def NewGate_def dispatched_def past_wait_def)
  qed
  show "gate_step s t \<Longrightarrow> gate_ok s \<Longrightarrow> gate_ok t" for s t by (auto elim!: gate_stepE intro: gate_ok_exec)
  show "gate_step s t \<Longrightarrow> gate_ok s \<Longrightarrow> agent_step\<^sup>*\<^sup>* (rg_agent s) (rg_agent t)" for s t
    by (auto elim!: gate_stepE intro: gate_agent_steps)
qed


text \<open>The facts a reachable gate satisfies.\<close>

lemma gate_reach_ok: "gate_start g0 \<Longrightarrow> gate_step\<^sup>*\<^sup>* g0 g \<Longrightarrow> gate_ok g"
  by (rule gate.reachable_inv)

lemma app_shutdowns_grow: "gate_exec op g = Some g' \<Longrightarrow> rg_app_shutdowns g \<le> rg_app_shutdowns g'"
  by (cases op)
     (auto simp: SendMessage_begin_def SendMessage_gate_def runAgent_finish_def runAgent_report_def WsShutdown_mark_def
       WsShutdown_next_def Let_def simp del: map_of_eq_Some_iff
       split: option.splits if_splits prod.splits shutdown_pc.splits run_error.splits)

text \<open>
  A prompt dispatched, one still before the gate, and a shutdown: it waits for the first, which is
  cancelled and returns, then tears the application down.
\<close>

definition demo_msg :: "string \<Rightarrow> prompt_msg" where
  "demo_msg r = \<lparr>pm_session = ''s'', pm_run = r, pm_prompt = ''hi'', pm_attachments = [], pm_max_input = 0\<rparr>"

definition demo_gate_ops :: "gate_op list" where
  "demo_gate_ops = [GSend True True (demo_msg ''r1''), GSend True True (demo_msg ''r2''), GGate 0, GShutdown,
     GShutdownNext True 0, GShutdownNext True 0, GFinish 0 BackgroundCtx True (Some RunCanceled),
     GShutdownNext True 0, GShutdownNext True 0]"

definition demo_gate :: run_gate where
  "demo_gate = the (gate_execs demo_gate_ops (NewGate (NewSessionAgent True)))"

lemma demo_gate_exec: "gate_execs demo_gate_ops (NewGate (NewSessionAgent True)) = Some demo_gate"
  unfolding demo_gate_def by code_simp

lemma demo_gate_start: "gate_start (NewGate (NewSessionAgent True))"
  by (auto simp: gate_start_def)

lemma shutdown_blocks_on_run: "gate_execs (take 6 demo_gate_ops @ [GShutdownNext True 0]) (NewGate (NewSessionAgent True)) = None"
  by code_simp

text \<open>
  C22: Once a call of \<^verbatim>\<open>Workspace.Shutdown\<close> has reached \<^verbatim>\<open>App.Shutdown\<close>, no run of the workspace is in
  flight and none can start: every later \<^verbatim>\<open>SendMessage\<close> that reaches the gate is refused with
  \<^verbatim>\<open>ErrWorkspaceClosing\<close> and closes its reservation, no goroutine of a run makes a step, and the
  state stays so.
\<close>

theorem shutdown_waits_for_runs:
  assumes "gate_start g0" and "gate_step\<^sup>*\<^sup>* g0 g" and "0 < rg_app_shutdowns g" and "gate_step\<^sup>*\<^sup>* g g'"
  shows "rg_wg g' = 0 \<and> dispatched g' = 0 \<and> gate_exec (GWork k op) g' = None \<and> runAgent_finish k ctx b err g' = None \<and>
    (\<forall>j. map_of (rg_jobs g') k = Some j \<longrightarrow>
       SendMessage_gate k g' = Some (Some SendWorkspaceClosing,
         g'\<lparr>rg_agent := Accepted_Close (rg_agent g') (Some (rj_handle j)), rg_jobs := AList.delete k (rg_jobs g')\<rparr>))"
proof -
  have ok: "gate_ok g'" using assms(1,2,4) gate_reach_ok rtranclp_trans [of gate_step] by blast
  have "rg_app_shutdowns g \<le> rg_app_shutdowns g'"
    using assms(4) by (induction rule: rtranclp_induct) (auto elim!: gate_stepE dest: app_shutdowns_grow)
  with assms(3) ok have d: "dispatched g' = 0" and c: "rg_closing g'" and w: "rg_wg g' = 0"
    by (auto simp: gate_ok_def past_wait_def)
  have none: "rj_phase j = JobAccepted" if "map_of (rg_jobs g') k = Some j" for j
    using dispatched_pos [OF that] d by (cases "rj_phase j") auto
  from d c w none show ?thesis
    by (auto simp: runAgent_finish_def SendMessage_gate_def simp del: map_of_eq_Some_iff split: option.splits)
qed

theorem shutdown_waits_for_runs_witness:
  "rg_app_shutdowns demo_gate = 1 \<and> rg_wg demo_gate = 0 \<and>
   map_option fst (SendMessage_gate 1 demo_gate) = Some (Some SendWorkspaceClosing)"
proof -
  have n: "rg_app_shutdowns demo_gate = 1" unfolding demo_gate_def by code_simp
  have "map_of (rg_jobs demo_gate) 1 \<noteq> None" unfolding demo_gate_def by code_simp
  then obtain j where j: "map_of (rg_jobs demo_gate) 1 = Some j" by blast
  from shutdown_waits_for_runs [OF demo_gate_start gate_execs_steps [OF demo_gate_exec] _ rtranclp.rtrancl_refl, where k = 1] n j
  show ?thesis by (simp del: map_of_eq_Some_iff)
qed



end
