(* ===== verification/Edit_Match.thy ===== *)
theory Edit_Match
  imports Go_Strings "HOL-Library.Multiset"
begin

section \<open>Locating and replacing text: \<^verbatim>\<open>agent/tools/edit_whitespace.go\<close>, \<^verbatim>\<open>edit.go\<close>\<close>

text \<open>
  The text side of the edit tool: exact find-and-replace, the whitespace-normalised fallback that
  works on whole lines and re-indents the replacement, the hints for a mismatch, and the multi-edit
  that replaces several disjoint spans at once. Offsets and line numbers are naturals; the \<open>-1\<close> of
  \<open>locateUniqueEdit\<close> is an integer. Errors are the left of a sum, carrying the text the tool returns.
\<close>

definition normalizeWS :: "string \<Rightarrow> string" where
  "normalizeWS s = str_join '' '' (str_fields s)"

definition joinNormalized :: "string list \<Rightarrow> string" where
  "joinNormalized ls = str_join [NL] (map normalizeWS ls)"

fun lineAtOffset_from :: "nat \<Rightarrow> nat \<Rightarrow> string list \<Rightarrow> nat \<Rightarrow> nat" where
  "lineAtOffset_from i pos [] offset = i - 1"
| "lineAtOffset_from i pos (line # ls) offset =
     (if pos + length line \<ge> offset then i else lineAtOffset_from (Suc i) (pos + length line + 1) ls offset)"

definition lineAtOffset :: "string list \<Rightarrow> nat \<Rightarrow> nat" where
  "lineAtOffset ls offset = lineAtOffset_from 0 0 ls offset"

text \<open>
  The search loop of \<^verbatim>\<open>findNormalizedMatches\<close>: \<open>nc\<close> and \<open>no\<close> are the normalised content and pattern,
  \<open>ls\<close> the normalised lines, \<open>k\<close> the number of pattern lines.
\<close>

function match_loop :: "string \<Rightarrow> string \<Rightarrow> string list \<Rightarrow> nat \<Rightarrow> nat \<Rightarrow> (nat \<times> nat) list" where
  "match_loop nc no ls k searchFrom =
     (if no = [] \<or> searchFrom > length nc then []
      else case str_index (drop searchFrom nc) no of
        None \<Rightarrow> []
      | Some idx \<Rightarrow>
          (let absIdx = searchFrom + idx; e = absIdx + length no;
               atLineStart = (absIdx = 0 \<or> nc ! (absIdx - 1) = NL);
               atLineEnd = (e = length nc \<or> nc ! e = NL)
           in if \<not> atLineStart \<or> \<not> atLineEnd then match_loop nc no ls k (absIdx + 1)
              else
                (let startLine = lineAtOffset ls absIdx; endLine = startLine + k - 1
                 in if endLine \<ge> length ls then []
                    else (startLine, endLine) # match_loop nc no ls k (e + 1))))"
  by pat_completeness auto
termination
  by (relation "measure (\<lambda>(nc, no, ls, k, s). Suc (length nc) - s)") auto

declare match_loop.simps [simp del]

definition findNormalizedMatches :: "string \<Rightarrow> string \<Rightarrow> (nat \<times> nat) list" where
  "findNormalizedMatches content old =
     (let contentLines = str_split content [NL]; oldLines = str_split old [NL];
          normOld = joinNormalized oldLines
      in if trim_space normOld = [] then []
         else
           (let normContentLines = map normalizeWS contentLines
            in match_loop (str_join [NL] normContentLines) normOld normContentLines (length oldLines) 0))"

subsection \<open>Indentation\<close>

definition leading_ws :: "string \<Rightarrow> string" where
  "leading_ws line = take (length line - length (trim_left line [CHR '' '', TAB])) line"

fun detect_loop :: "nat \<Rightarrow> string list \<Rightarrow> string" where
  "detect_loop minSpaces [] = (if minSpaces > 0 then str_repeat '' '' minSpaces else [])"
| "detect_loop minSpaces (line # ls) =
     (if trim_left line [CHR '' '', TAB] = [] then detect_loop minSpaces ls
      else if leading_ws line = [] then detect_loop minSpaces ls
      else if str_contains (leading_ws line) [TAB] then [TAB]
      else
        (let n = length (leading_ws line)
         in detect_loop (if n > 0 \<and> (minSpaces = 0 \<or> n < minSpaces) then n else minSpaces) ls))"

definition detectIndentUnit :: "string list \<Rightarrow> string" where
  "detectIndentUnit ls = detect_loop 0 ls"

definition measureDepth :: "string \<Rightarrow> string \<Rightarrow> int" where
  "measureDepth leading u =
     (if u = [] then 0
      else if u = [TAB] then int (str_count leading [TAB])
      else int (str_count leading '' '') div int (length u))"

fun firstIndentDepth :: "string list \<Rightarrow> string \<Rightarrow> int" where
  "firstIndentDepth [] u = 0"
| "firstIndentDepth (l # ls) u =
     (if trim_left l [CHR '' '', TAB] = [] then firstIndentDepth ls u else measureDepth (leading_ws l) u)"

definition adaptIndentation :: "string \<Rightarrow> string \<Rightarrow> string \<Rightarrow> string \<Rightarrow> string" where
  "adaptIndentation actualStr oldStr newStr fileUnit =
     (if fileUnit = [] then newStr
      else
        (let actualLines = str_split actualStr [NL]; oldLines = str_split oldStr [NL];
             newLines = str_split newStr [NL];
             u1 = detectIndentUnit oldLines;
             u2 = (if u1 = [] then detectIndentUnit newLines else u1);
             sourceUnit = (if u2 = [] then fileUnit else u2);
             depthOffset = firstIndentDepth actualLines fileUnit - firstIndentDepth oldLines sourceUnit
         in if sourceUnit = fileUnit \<and> depthOffset = 0 then newStr
            else str_join [NL]
              (map (\<lambda>line.
                 (let trimmed = trim_left line [CHR '' '', TAB]
                  in if trimmed = [] then line
                     else
                       (let depth = max (measureDepth (leading_ws line) sourceUnit + depthOffset) 0
                        in str_repeat fileUnit (nat depth) @ trimmed))) newLines)))"

subsection \<open>The replacement\<close>

definition replace_range :: "string list \<Rightarrow> string list \<Rightarrow> nat \<times> nat \<Rightarrow> string list" where
  "replace_range ls new m = take (fst m) ls @ new @ drop (snd m + 1) ls"

definition adapted_lines :: "string list \<Rightarrow> string \<Rightarrow> string \<Rightarrow> string \<Rightarrow> nat \<times> nat \<Rightarrow> string list" where
  "adapted_lines contentLines old new fileUnit m =
     str_split (adaptIndentation (str_join [NL] (take (snd m + 1 - fst m) (drop (fst m) contentLines))) old new fileUnit) [NL]"

definition normalizedReplace :: "string \<Rightarrow> string \<Rightarrow> string \<Rightarrow> bool \<Rightarrow> string option" where
  "normalizedReplace content old new replaceAll =
     (let matches = findNormalizedMatches content old in
      if matches = [] then None
      else if \<not> replaceAll \<and> length matches > 1 then None
      else
        (let contentLines = str_split content [NL];
             fileUnit = detectIndentUnit contentLines;
             result = fold (\<lambda>m r. replace_range r (adapted_lines contentLines old new fileUnit m) m) (rev matches) contentLines
         in Some (str_join [NL] result)))"

subsection \<open>Hints\<close>

definition ARROW :: string where "ARROW = [CHR 0xE2, CHR 0x86, CHR 0x92]"
definition MIDDOT :: string where "MIDDOT = [CHR 0xC2, CHR 0xB7]"

definition visualizeWS :: "string \<Rightarrow> string" where
  "visualizeWS s0 =
     (let s = str_replace_all s0 [TAB] ARROW; trimmed = trim_left s '' ''; leading = length s - length trimmed
      in if leading > 0 then str_repeat MIDDOT leading @ trimmed else s)"

definition pad6 :: "nat \<Rightarrow> string" where
  "pad6 n = replicate (6 - length (itoa n)) (CHR '' '') @ itoa n"

definition numbered_line :: "string list \<Rightarrow> nat \<Rightarrow> string" where
  "numbered_line ls i = pad6 (i + 1) @ ''|'' @ visualizeWS (ls ! i) @ [NL]"

definition ws_legend :: "string \<Rightarrow> string" where
  "ws_legend what = ''Use the exact '' @ what @ '' shown above ('' @ ARROW @ '' = tab, '' @ MIDDOT @ '' = space).''"

definition formatWhitespaceHint :: "string list \<Rightarrow> nat \<Rightarrow> nat \<Rightarrow> string" where
  "formatWhitespaceHint contentLines startLine endLine =
     ''A whitespace-normalized match was found, so the text exists but with different whitespace (tabs vs spaces, or different indentation).'' @ [NL] @
     ''Actual file content (lines '' @ itoa (startLine + 1) @ ''-'' @ itoa (endLine + 1) @ ''):'' @ [NL] @
     concat (map (numbered_line contentLines) (filter (\<lambda>i. i < length contentLines) [startLine ..< Suc endLine])) @
     ws_legend ''whitespace''"

definition diagnoseWhitespaceMismatch :: "string list \<Rightarrow> string list \<Rightarrow> string" where
  "diagnoseWhitespaceMismatch contentLines oldLines =
     (case findNormalizedMatches (str_join [NL] contentLines) (str_join [NL] oldLines) of
        [] \<Rightarrow> []
      | m # _ \<Rightarrow> formatWhitespaceHint contentLines (fst m) (snd m))"

definition drop_blank_ends :: "string list \<Rightarrow> string list" where
  "drop_blank_ends ls = rev (dropWhile (\<lambda>l. l = []) (rev (dropWhile (\<lambda>l. l = []) ls)))"

definition window_score :: "string list \<Rightarrow> string list \<Rightarrow> nat \<Rightarrow> nat" where
  "window_score contentLines trimmedOld start =
     length (filter (\<lambda>j. trim_space (contentLines ! (start + j)) = trimmedOld ! j) [0 ..< length trimmedOld])"

text \<open>The best window so far is \<open>(bestScore, bestStart)\<close>; \<open>None\<close> is the \<open>-1\<close> of the code.\<close>

definition best_step :: "string list \<Rightarrow> string list \<Rightarrow> nat \<Rightarrow> nat \<times> nat option \<Rightarrow> nat \<times> nat option" where
  "best_step contentLines trimmedOld start best =
     (let score = window_score contentLines trimmedOld start
      in if score > fst best then (score, Some start) else best)"

definition diagnoseBestLineMatch :: "string list \<Rightarrow> string list \<Rightarrow> string" where
  "diagnoseBestLineMatch contentLines oldLines =
     (if oldLines = [] \<or> contentLines = [] then []
      else
        (let trimmedOld = drop_blank_ends (map trim_space oldLines); window = length trimmedOld
         in if trimmedOld = [] then []
            else
              (case fold (best_step contentLines trimmedOld) [0 ..< length contentLines + 1 - window] (0, None) of
                 (bestScore, None) \<Rightarrow> []
               | (bestScore, Some bestStart) \<Rightarrow>
                   if bestScore < (window + 1) div 2 then []
                   else
                     (let endLine = bestStart + window - 1;
                          ctxStart = bestStart - 1; ctxEnd = min (length contentLines - 1) (endLine + 1)
                      in ''No exact match found. Closest match at lines '' @ itoa (bestStart + 1) @ ''-'' @ itoa (endLine + 1) @
                         '' ('' @ itoa bestScore @ ''/'' @ itoa window @ '' lines match after trimming whitespace):'' @ [NL] @
                         concat (map (numbered_line contentLines) [ctxStart ..< Suc ctxEnd]) @
                         ws_legend ''text''))))"

definition diagnoseMismatch :: "string \<Rightarrow> string \<Rightarrow> string" where
  "diagnoseMismatch content old =
     (let contentLines = str_split content [NL]; oldLines = str_split old [NL]
      in if oldLines = [] then []
         else
           (let h1 = diagnoseWhitespaceMismatch contentLines oldLines
            in if h1 \<noteq> [] then h1 else diagnoseBestLineMatch contentLines oldLines))"

subsection \<open>Single and multiple edits\<close>

definition notFoundError :: "string \<Rightarrow> string \<Rightarrow> string" where
  "notFoundError content old =
     (let msg = ''old_string not found in file. Make sure it matches exactly, including whitespace and line breaks'';
          hint = diagnoseMismatch content old
      in if hint \<noteq> [] then msg @ [NL, NL] @ hint else msg)"

definition ambiguous_msg :: string where
  "ambiguous_msg = ''old_string appears multiple times in the file. Please provide more context to ensure a unique match, or set replace_all to true''"

definition find_fallback :: "string \<Rightarrow> string \<Rightarrow> string \<Rightarrow> bool \<Rightarrow> string + string \<times> bool" where
  "find_fallback content old new replaceAll =
     (case normalizedReplace content old new replaceAll of
        Some result \<Rightarrow> Inr (result, True)
      | None \<Rightarrow> Inl (notFoundError content old))"

definition findAndReplace :: "string \<Rightarrow> string \<Rightarrow> string \<Rightarrow> bool \<Rightarrow> string + string \<times> bool" where
  "findAndReplace content old new replaceAll =
     (if replaceAll then
        (if str_contains content old then Inr (str_replace_all content old new, False)
         else find_fallback content old new replaceAll)
      else
        (case str_index content old of
           None \<Rightarrow> find_fallback content old new replaceAll
         | Some index \<Rightarrow>
             if Some index \<noteq> str_last_index content old then Inl ambiguous_msg
             else Inr (take index content @ new @ drop (index + length old) content, False)))"

definition line_start :: "string list \<Rightarrow> nat \<Rightarrow> nat" where
  "line_start ls n = sum_list (map (\<lambda>l. length l + 1) (take n ls))"

definition locateUniqueEdit :: "string \<Rightarrow> string \<Rightarrow> nat \<times> int \<times> bool \<times> bool" where
  "locateUniqueEdit content old =
     (let n = str_count content old in
      if n > 1 then (0, -1, False, True)
      else if n = 1 then
        (case str_index content old of
           Some idx \<Rightarrow> (idx, int (idx + length old), False, True)
         | None \<Rightarrow> (0, 0, False, False))
      else
        (case findNormalizedMatches content old of
           [] \<Rightarrow> (0, 0, False, False)
         | [m] \<Rightarrow>
             (let ls = str_split content [NL]; byteStart = line_start ls (fst m);
                  covered = take (snd m + 1 - fst m) (drop (fst m) ls)
              in (byteStart, int (byteStart + sum_list (map length covered) + (snd m - fst m)), True, True))
         | _ \<Rightarrow> (0, -1, True, True)))"

record edit_operation =
  eo_old :: string
  eo_new :: string

record edit_span =
  es_start :: nat
  es_end :: nat
  es_index :: nat
  es_new :: string

definition spans_overlap :: "edit_span \<Rightarrow> edit_span \<Rightarrow> bool" where
  "spans_overlap s t \<longleftrightarrow> es_start s < es_end t \<and> es_end s > es_start t"

text \<open>One pass of the loop over the edits: the next span, or the error that ends the call.\<close>

definition next_span :: "string \<Rightarrow> nat \<Rightarrow> edit_operation \<Rightarrow> edit_span list \<Rightarrow> string + edit_span \<times> bool" where
  "next_span content i e spans =
     (let num = itoa (i + 1) in
      if eo_old e = [] then Inl (''edit '' @ num @ '': oldText must not be empty; use the write tool to create a file'')
      else
        (case locateUniqueEdit content (eo_old e) of (start, fin, corrected, found) \<Rightarrow>
           if \<not> found then Inl (''edit '' @ num @ '': oldText not found in file. Make sure it matches exactly, including whitespace and line breaks'')
           else if fin < 0 then Inl (''edit '' @ num @ '': oldText appears multiple times in the file. Provide more context to ensure a unique match'')
           else
             (let newText = (if corrected
                   then adaptIndentation (take (nat fin - start) (drop start content)) (eo_old e) (eo_new e)
                          (detectIndentUnit (str_split content [NL]))
                   else eo_new e);
                  sp = \<lparr>es_start = start, es_end = nat fin, es_index = i, es_new = newText\<rparr>
              in case first_some (\<lambda>s. if spans_overlap sp s then Some (es_index s) else None) spans of
                   Some j \<Rightarrow> Inl (''edit '' @ num @ '': match overlaps with edit '' @ itoa (j + 1) @ ''; make the edits target distinct regions'')
                 | None \<Rightarrow> Inr (sp, corrected))))"

fun collect_spans :: "string \<Rightarrow> nat \<Rightarrow> edit_operation list \<Rightarrow> edit_span list \<Rightarrow> bool \<Rightarrow> string + edit_span list \<times> bool" where
  "collect_spans content i [] spans c = Inr (spans, c)"
| "collect_spans content i (e # es) spans c =
     (case next_span content i e spans of
        Inl err \<Rightarrow> Inl err
      | Inr (sp, corrected) \<Rightarrow> collect_spans content (Suc i) es (spans @ [sp]) (c \<or> corrected))"

fun splice_spans :: "string \<Rightarrow> nat \<Rightarrow> edit_span list \<Rightarrow> string" where
  "splice_spans content prev [] = drop prev content"
| "splice_spans content prev (s # ss) = take (es_start s - prev) (drop prev content) @ es_new s @ splice_spans content (es_end s) ss"

definition multi_edit_text :: "string \<Rightarrow> edit_operation list \<Rightarrow> string + string \<times> bool" where
  "multi_edit_text content edits =
     (case collect_spans content 0 edits [] False of
        Inl err \<Rightarrow> Inl err
      | Inr (spans, corrected) \<Rightarrow>
          (let newContent = splice_spans content 0 (sort_key es_start spans)
           in if newContent = content then Inl ''no changes made - new content is the same as old content''
              else Inr (newContent, corrected)))"

end
