(* ===== verification/File_History.thy ===== *)
theory File_History
  imports Prelude "HOL-Library.List_Lexorder" "HOL-Library.Char_ord"
begin

section \<open>File history: \<^verbatim>\<open>internal/history/file.go\<close>\<close>

text \<open>
  The versions of the files a session has changed. The \<^verbatim>\<open>files\<close> table is the list of its rows in
  the order of insertion; its constraints, the primary key \<^verbatim>\<open>id\<close> and \<^verbatim>\<open>UNIQUE(path, session_id,
  version)\<close>, are checked by \<open>insert_file\<close>. The queries of \<^verbatim>\<open>internal/db/sql/files.sql\<close> are list
  functions; where SQL leaves the order of equal rows open the model keeps the order of insertion,
  and no property depends on it.

  \<^verbatim>\<open>createWithVersion\<close> draws a fresh UUID and opens a transaction per attempt: an \<open>attempt\<close> carries
  what the outside supplies for one (the UUID, the clock, and whether beginning, inserting and
  committing succeed). A failed transaction leaves the table as it was. Versions are \<open>int\<close>: a row
  has an \<^verbatim>\<open>int64\<close> version, which grows by at most three per call.
\<close>

record file_version =
  fv_id :: string
  fv_session :: string
  fv_path :: string
  fv_content :: string
  fv_version :: int
  fv_created :: int
  fv_updated :: int

datatype file_event = FileCreated file_version | FileDeleted file_version

record file_history =
  fh_rows :: "file_version list"
  fh_events :: "file_event list"

datatype history_error = HistNoRows | HistUnique | HistBegin | HistDatabase | HistCommit

record attempt =
  at_id :: string
  at_now :: int
  at_begin :: bool
  at_insert :: bool
  at_commit :: bool

definition InitialVersion :: int where
  "InitialVersion = 0"

definition NewHistory :: file_history where
  "NewHistory = \<lparr>fh_rows = [], fh_events = []\<rparr>"

subsection \<open>The queries\<close>

definition version_key :: "file_version \<Rightarrow> string \<times> string \<times> int" where
  "version_key r = (fv_path r, fv_session r, fv_version r)"

definition insert_file :: "file_version list \<Rightarrow> file_version \<Rightarrow> history_error + file_version list" where
  "insert_file rows r =
     (if fv_id r \<in> set (map fv_id rows) \<or> version_key r \<in> set (map version_key rows) then Inl HistUnique
      else Inr (rows @ [r]))"

definition newest_first :: "file_version list \<Rightarrow> file_version list" where
  "newest_first rows = sort_key (\<lambda>r. - fv_version r) (sort_key (\<lambda>r. - fv_created r) rows)"

definition oldest_first :: "file_version list \<Rightarrow> file_version list" where
  "oldest_first rows = sort_key fv_version (sort_key fv_created rows)"

definition ListFilesByPath :: "file_version list \<Rightarrow> string \<Rightarrow> file_version list" where
  "ListFilesByPath rows path = newest_first (filter (\<lambda>r. fv_path r = path) rows)"

definition GetFileByPathAndSession :: "file_version list \<Rightarrow> string \<Rightarrow> string \<Rightarrow> file_version option" where
  "GetFileByPathAndSession rows path session =
     (case newest_first (filter (\<lambda>r. fv_path r = path \<and> fv_session r = session) rows) of
        [] \<Rightarrow> None | r # _ \<Rightarrow> Some r)"

definition newest_of_path :: "file_version list \<Rightarrow> file_version \<Rightarrow> bool" where
  "newest_of_path rows r \<longleftrightarrow>
     (let same = filter (\<lambda>q. fv_path q = fv_path r) rows
      in fv_version r = Max (set (map fv_version same)) \<and> fv_created r = Max (set (map fv_created same)))"

subsection \<open>The service\<close>

fun create_attempts :: "attempt list \<Rightarrow> file_history \<Rightarrow> string \<Rightarrow> string \<Rightarrow> string \<Rightarrow> int \<Rightarrow>
    (history_error + file_version) \<times> file_history" where
  "create_attempts [] h session path content version = (Inl HistUnique, h)"
| "create_attempts (a # as) h session path content version =
     (if \<not> at_begin a then (Inl HistBegin, h)
      else if \<not> at_insert a then (Inl HistDatabase, h)
      else
        (let r = \<lparr>fv_id = at_id a, fv_session = session, fv_path = path, fv_content = content, fv_version = version,
                  fv_created = at_now a, fv_updated = at_now a\<rparr>
         in case insert_file (fh_rows h) r of
              Inl e \<Rightarrow> create_attempts as h session path content (version + 1)
            | Inr rows \<Rightarrow>
                if \<not> at_commit a then (Inl HistCommit, h)
                else (Inr r, \<lparr>fh_rows = rows, fh_events = fh_events h @ [FileCreated r]\<rparr>)))"

definition createWithVersion :: "(nat \<Rightarrow> attempt) \<Rightarrow> file_history \<Rightarrow> string \<Rightarrow> string \<Rightarrow> string \<Rightarrow> int \<Rightarrow>
    (history_error + file_version) \<times> file_history" where
  "createWithVersion ats h session path content version =
     create_attempts (map ats [0, 1, 2]) h session path content version"

definition Create_file :: "(nat \<Rightarrow> attempt) \<Rightarrow> file_history \<Rightarrow> string \<Rightarrow> string \<Rightarrow> string \<Rightarrow>
    (history_error + file_version) \<times> file_history" where
  "Create_file ats h session path content = createWithVersion ats h session path content InitialVersion"

definition CreateVersion :: "(nat \<Rightarrow> attempt) \<Rightarrow> bool \<Rightarrow> file_history \<Rightarrow> string \<Rightarrow> string \<Rightarrow> string \<Rightarrow>
    (history_error + file_version) \<times> file_history" where
  "CreateVersion ats listed h session path content =
     (if \<not> listed then (Inl HistDatabase, h)
      else
        (case ListFilesByPath (fh_rows h) path of
           [] \<Rightarrow> Create_file ats h session path content
         | latest # _ \<Rightarrow> createWithVersion ats h session path content (fv_version latest + 1)))"

definition Get_file :: "file_history \<Rightarrow> string \<Rightarrow> history_error + file_version" where
  "Get_file h i = (case filter (\<lambda>r. fv_id r = i) (fh_rows h) of [] \<Rightarrow> Inl HistNoRows | r # _ \<Rightarrow> Inr r)"

definition GetByPathAndSession :: "file_history \<Rightarrow> string \<Rightarrow> string \<Rightarrow> history_error + file_version" where
  "GetByPathAndSession h path session =
     (case GetFileByPathAndSession (fh_rows h) path session of None \<Rightarrow> Inl HistNoRows | Some r \<Rightarrow> Inr r)"

definition ListFilesBySession :: "file_history \<Rightarrow> string \<Rightarrow> file_version list" where
  "ListFilesBySession h session = oldest_first (filter (\<lambda>r. fv_session r = session) (fh_rows h))"

definition ListLatestSessionFiles :: "file_history \<Rightarrow> string \<Rightarrow> file_version list" where
  "ListLatestSessionFiles h session =
     sort_key fv_path (filter (\<lambda>r. newest_of_path (fh_rows h) r \<and> fv_session r = session) (fh_rows h))"

text \<open>\<open>removed\<close> is whether the DELETE statement succeeds.\<close>

definition Delete_file :: "bool \<Rightarrow> file_history \<Rightarrow> string \<Rightarrow> history_error option \<times> file_history" where
  "Delete_file removed h i =
     (case Get_file h i of
        Inl e \<Rightarrow> (Some e, h)
      | Inr r \<Rightarrow>
          if \<not> removed then (Some HistDatabase, h)
          else (None, \<lparr>fh_rows = filter (\<lambda>r. fv_id r \<noteq> i) (fh_rows h), fh_events = fh_events h @ [FileDeleted r]\<rparr>))"

fun delete_files :: "(string \<Rightarrow> bool) \<Rightarrow> file_history \<Rightarrow> string list \<Rightarrow> history_error option \<times> file_history" where
  "delete_files removed h [] = (None, h)"
| "delete_files removed h (i # is) =
     (case Delete_file (removed i) h i of
        (Some e, h) \<Rightarrow> (Some e, h)
      | (None, h) \<Rightarrow> delete_files removed h is)"

definition DeleteSessionFiles :: "(string \<Rightarrow> bool) \<Rightarrow> file_history \<Rightarrow> string \<Rightarrow> history_error option \<times> file_history" where
  "DeleteSessionFiles removed h session = delete_files removed h (map fv_id (ListFilesBySession h session))"

subsection \<open>The table invariant\<close>

definition history_ok :: "file_history \<Rightarrow> bool" where
  "history_ok h \<longleftrightarrow> distinct (map fv_id (fh_rows h)) \<and> distinct (map version_key (fh_rows h))"

definition taken :: "file_history \<Rightarrow> string \<Rightarrow> string \<Rightarrow> int \<Rightarrow> bool" where
  "taken h session path v \<longleftrightarrow> (path, session, v) \<in> set (map version_key (fh_rows h))"

text \<open>What an attempt does, in one equation.\<close>

lemma create_attempts_Cons:
  "create_attempts (a # as) h s p c v =
     (if \<not> at_begin a then (Inl HistBegin, h)
      else if \<not> at_insert a then (Inl HistDatabase, h)
      else if at_id a \<in> set (map fv_id (fh_rows h)) \<or> taken h s p v then create_attempts as h s p c (v + 1)
      else if \<not> at_commit a then (Inl HistCommit, h)
      else
        (let r = \<lparr>fv_id = at_id a, fv_session = s, fv_path = p, fv_content = c, fv_version = v,
                  fv_created = at_now a, fv_updated = at_now a\<rparr>
         in (Inr r, \<lparr>fh_rows = fh_rows h @ [r], fh_events = fh_events h @ [FileCreated r]\<rparr>)))"
  by (simp add: insert_file_def version_key_def taken_def Let_def)

declare create_attempts.simps(2) [simp del]

lemma create_attempts_spec:
  assumes "create_attempts as h s p c v = (r, h')" and "history_ok h"
  shows "history_ok h' \<and>
    (case r of
       Inl e \<Rightarrow> h' = h
     | Inr f \<Rightarrow>
         fh_rows h' = fh_rows h @ [f] \<and> fh_events h' = fh_events h @ [FileCreated f] \<and>
         fv_session f = s \<and> fv_path f = p \<and> fv_content f = c \<and>
         v \<le> fv_version f \<and> fv_version f < v + int (length as) \<and> \<not> taken h s p (fv_version f))"
  using assms
proof (induction as arbitrary: v)
  case Nil
  then show ?case by (auto split: sum.splits)
next
  case (Cons a as)
  show ?case
  proof (cases "at_begin a \<and> at_insert a \<and> (at_id a \<in> set (map fv_id (fh_rows h)) \<or> taken h s p v)")
    case True
    with Cons.prems have "create_attempts as h s p c (v + 1) = (r, h')" by (simp add: create_attempts_Cons)
    from Cons.IH [OF this Cons.prems(2)] show ?thesis by (auto split: sum.splits)
  next
    case False
    with Cons.prems show ?thesis
      by (auto simp: create_attempts_Cons history_ok_def taken_def version_key_def Let_def split: if_splits)
  qed
qed

definition attempt_works :: "file_history \<Rightarrow> attempt \<Rightarrow> bool" where
  "attempt_works h a \<longleftrightarrow> at_begin a \<and> at_insert a \<and> at_commit a \<and> at_id a \<notin> set (map fv_id (fh_rows h))"

lemma create_attempts_total:
  assumes "\<And>a. a \<in> set as \<Longrightarrow> attempt_works h a"
  shows "(\<exists>f h'. create_attempts as h s p c v = (Inr f, h')) \<longleftrightarrow> (\<exists>k < length as. \<not> taken h s p (v + int k))"
  using assms
proof (induction as arbitrary: v)
  case Nil
  then show ?case by simp
next
  case (Cons a as)
  note ok = Cons.prems [of a, simplified attempt_works_def, simplified]
  show ?case
  proof (cases "taken h s p v")
    case False
    with ok show ?thesis by (auto simp: create_attempts_Cons Let_def intro!: exI [of _ 0])
  next
    case True
    with ok have e: "create_attempts (a # as) h s p c v = create_attempts as h s p c (v + 1)"
      by (simp add: create_attempts_Cons)
    have "(\<exists>k < length (a # as). \<not> taken h s p (v + int k)) \<longleftrightarrow> (\<exists>k < length as. \<not> taken h s p (v + 1 + int k))"
    proof
      assume "\<exists>k < length (a # as). \<not> taken h s p (v + int k)"
      then obtain k where k: "k < Suc (length as)" "\<not> taken h s p (v + int k)" by auto
      with True obtain j where "k = Suc j" by (cases k) auto
      with k show "\<exists>k < length as. \<not> taken h s p (v + 1 + int k)" by (auto simp: ac_simps)
    next
      assume "\<exists>k < length as. \<not> taken h s p (v + 1 + int k)"
      then obtain k where "k < length as" "\<not> taken h s p (v + int (Suc k))" by (auto simp: ac_simps)
      then show "\<exists>k < length (a # as). \<not> taken h s p (v + int k)" by (intro exI [of _ "Suc k"]) simp
    qed
    with e Cons show ?thesis by simp
  qed
qed

lemma newest_first_set [simp]: "set (newest_first rows) = set rows"
  by (simp add: newest_first_def)

lemma newest_first_Nil [simp]: "newest_first rows = [] \<longleftrightarrow> rows = []"
  by (metis newest_first_set set_empty)

lemma newest_first_hd: "newest_first rows = r # rs \<Longrightarrow> q \<in> set rows \<Longrightarrow> fv_version q \<le> fv_version r"
proof -
  assume e: "newest_first rows = r # rs" and q: "q \<in> set rows"
  have "sorted (map (\<lambda>r. - fv_version r) (r # rs))" using e by (metis newest_first_def sorted_sort_key)
  moreover have "q \<in> set (r # rs)" using q e by (metis newest_first_set)
  ultimately show ?thesis by auto
qed

text \<open>The first row of the newest-first order, where the newest version is unique.\<close>

lemma newest_unique:
  assumes "r \<in> set rows" and "\<And>q. q \<in> set rows \<Longrightarrow> q \<noteq> r \<Longrightarrow> fv_version q < fv_version r"
  shows "\<exists>rs. newest_first rows = r # rs"
proof (cases "newest_first rows")
  case Nil
  with assms(1) show ?thesis by simp
next
  case (Cons q qs)
  then have "q \<in> set rows" by (metis list.set_intros(1) newest_first_set)
  with newest_first_hd [OF Cons assms(1)] assms(2) [of q] Cons show ?thesis by fastforce
qed

subsection \<open>Properties\<close>

lemma CreateVersion_cases:
  assumes "CreateVersion ats listed h s p c = (Inr f, h')"
  obtains v where "create_attempts (map ats [0, 1, 2]) h s p c v = (Inr f, h')"
    and "\<And>q. q \<in> set (fh_rows h) \<Longrightarrow> fv_path q = p \<Longrightarrow> fv_version q < v"
proof (cases "ListFilesByPath (fh_rows h) p")
  case Nil
  then have "q \<in> set (fh_rows h) \<Longrightarrow> fv_path q \<noteq> p" for q
    by (auto simp: ListFilesByPath_def filter_empty_conv)
  with Nil assms that [of InitialVersion] show thesis
    by (auto simp: CreateVersion_def Create_file_def createWithVersion_def split: if_splits)
next
  case (Cons r rs)
  then have "q \<in> set (fh_rows h) \<Longrightarrow> fv_path q = p \<Longrightarrow> fv_version q < fv_version r + 1" for q
    using newest_first_hd [of _ r rs q] by (fastforce simp: ListFilesByPath_def)
  with Cons assms that [of "fv_version r + 1"] show thesis
    by (auto simp: CreateVersion_def createWithVersion_def split: if_splits)
qed

definition demo_row :: "string \<Rightarrow> string \<Rightarrow> int \<Rightarrow> file_version" where
  "demo_row i s v = \<lparr>fv_id = i, fv_session = s, fv_path = ''f'', fv_content = ''old'', fv_version = v,
     fv_created = 7, fv_updated = 7\<rparr>"

definition demo_history :: file_history where
  "demo_history = \<lparr>fh_rows = [demo_row ''a'' ''s'' 0, demo_row ''b'' ''s'' 1, demo_row ''c'' ''s'' 2], fh_events = []\<rparr>"

definition demo_attempts :: "nat \<Rightarrow> attempt" where
  "demo_attempts k = \<lparr>at_id = ''n'' @ replicate k CHR ''x'', at_now = 8, at_begin = True, at_insert = True, at_commit = True\<rparr>"

definition shared_history :: file_history where
  "shared_history = \<lparr>fh_rows = [demo_row ''a'' ''s1'' 0, demo_row ''b'' ''s2'' 1], fh_events = []\<rparr>"

text \<open>
  Storing a version either adds one row or changes nothing. With the table keys unique,
  \<^verbatim>\<open>createWithVersion\<close> either fails, with the table and the event log untouched, or appends one row
  and one event for the requested session, path and content, under the requested version or one of
  the next two that was free; keys stay unique. If the database works and the drawn UUIDs are fresh,
  it fails exactly when all three versions are taken.
\<close>

theorem version_stored_or_unchanged:
  assumes "createWithVersion ats h s p c v = (r, h')" and "history_ok h"
  shows "history_ok h' \<and>
    (case r of
       Inl e \<Rightarrow> h' = h
     | Inr f \<Rightarrow>
         fh_rows h' = fh_rows h @ [f] \<and> fh_events h' = fh_events h @ [FileCreated f] \<and>
         fv_session f = s \<and> fv_path f = p \<and> fv_content f = c \<and>
         fv_version f \<in> {v, v + 1, v + 2} \<and> \<not> taken h s p (fv_version f)) \<and>
    ((\<forall>k < 3. attempt_works h (ats k)) \<longrightarrow>
       (isl r \<longleftrightarrow> taken h s p v \<and> taken h s p (v + 1) \<and> taken h s p (v + 2)))"
proof -
  have run: "create_attempts (map ats [0, 1, 2]) h s p c v = (r, h')"
    using assms(1) by (simp only: createWithVersion_def)
  note spec = create_attempts_spec [OF run assms(2)]
  have "isl r \<longleftrightarrow> taken h s p v \<and> taken h s p (v + 1) \<and> taken h s p (v + 2)"
    if w: "\<forall>k < 3. attempt_works h (ats k)"
  proof -
    have "attempt_works h a" if "a \<in> set (map ats [0, 1, 2])" for a using w that by auto
    note t = create_attempts_total [OF this, where v = v]
    have "\<not> isl r \<longleftrightarrow> (\<exists>f h''. create_attempts (map ats [0, 1, 2]) h s p c v = (Inr f, h''))"
      unfolding run by (cases r) auto
    also have "\<dots> \<longleftrightarrow> (\<exists>k < length (map ats [0, 1, 2]). \<not> taken h s p (v + int k))" by (rule t)
    also have "\<dots> \<longleftrightarrow> \<not> (taken h s p v \<and> taken h s p (v + 1) \<and> taken h s p (v + 2))" by (simp add: Ex_less_Suc) blast
    finally show ?thesis by blast
  qed
  moreover have "fv_version f \<in> {v, v + 1, v + 2}" if "r = Inr f" for f using spec that by auto
  ultimately show ?thesis using spec assms(2) by (cases r) simp_all
qed

theorem version_stored_or_unchanged_witness:
  "isl (fst (createWithVersion demo_attempts demo_history ''s'' ''f'' ''c'' 0))"
proof -
  let ?out = "createWithVersion demo_attempts demo_history ''s'' ''f'' ''c'' 0"
  have "history_ok demo_history" "\<forall>k < 3. attempt_works demo_history (demo_attempts k)"
    by (auto simp: history_ok_def demo_history_def demo_row_def demo_attempts_def attempt_works_def version_key_def)
  moreover have "taken demo_history ''s'' ''f'' 0 \<and> taken demo_history ''s'' ''f'' (0 + 1) \<and> taken demo_history ''s'' ''f'' (0 + 2)"
    by (simp add: taken_def demo_history_def demo_row_def version_key_def)
  ultimately show ?thesis
    using version_stored_or_unchanged [of demo_attempts demo_history "''s''" "''f''" "''c''" 0 "fst ?out" "snd ?out"] by simp
qed

lemma CreateVersion_newest:
  assumes "CreateVersion ats listed h s p c = (Inr f, h')" and "history_ok h"
  shows "GetByPathAndSession h' p s = Inr f \<and> fv_session f = s \<and> fv_path f = p \<and> fv_content f = c \<and>
    (\<forall>q\<in>set (fh_rows h). fv_path q = p \<longrightarrow> fv_version q < fv_version f) \<and>
    fh_rows h' = fh_rows h @ [f] \<and> history_ok h'"
proof -
  obtain v where run: "create_attempts (map ats [0, 1, 2]) h s p c v = (Inr f, h')"
    and above: "\<And>q. q \<in> set (fh_rows h) \<Longrightarrow> fv_path q = p \<Longrightarrow> fv_version q < v"
    using CreateVersion_cases [OF assms(1)] by blast
  note spec = create_attempts_spec [OF run assms(2), simplified]
  have rows: "fh_rows h' = fh_rows h @ [f]" and f: "fv_session f = s" "fv_path f = p" "fv_content f = c" "v \<le> fv_version f"
    using spec by auto
  have lt: "fv_version q < fv_version f" if "q \<in> set (fh_rows h)" "fv_path q = p" for q
    using above [OF that] f(4) by simp
  let ?mine = "filter (\<lambda>r. fv_path r = p \<and> fv_session r = s) (fh_rows h')"
  have "\<exists>rs. newest_first ?mine = f # rs"
    by (rule newest_unique) (auto simp: rows f lt)
  then have "GetByPathAndSession h' p s = Inr f"
    by (auto simp: GetByPathAndSession_def GetFileByPathAndSession_def)
  then show ?thesis using rows f lt spec by simp
qed

lemma GetByPathAndSession_cong:
  "filter (\<lambda>r. fv_path r = p \<and> fv_session r = s) (fh_rows h') = filter (\<lambda>r. fv_path r = p \<and> fv_session r = s) (fh_rows h) \<Longrightarrow>
   GetByPathAndSession h' p s = GetByPathAndSession h p s"
  by (simp add: GetByPathAndSession_def GetFileByPathAndSession_def)

lemma GetByPathAndSession_row:
  "GetByPathAndSession h p s = Inr q \<Longrightarrow> q \<in> set (fh_rows h) \<and> fv_path q = p \<and> fv_session q = s"
  using newest_first_set [of "filter (\<lambda>r. fv_path r = p \<and> fv_session r = s) (fh_rows h)"]
  by (auto simp del: newest_first_set simp: GetByPathAndSession_def GetFileByPathAndSession_def split: list.splits)

lemma GetByPathAndSession_none:
  "GetByPathAndSession h p s = Inl e \<Longrightarrow> \<not> taken h s p v"
  by (auto simp: GetByPathAndSession_def GetFileByPathAndSession_def taken_def version_key_def filter_empty_conv split: list.splits)

text \<open>When the database works and the drawn UUID is fresh, the first attempt at a free version stores it.\<close>

lemma createWithVersion_works:
  assumes "attempt_works h (ats 0)" and "\<not> taken h s p v"
  obtains f h' where "createWithVersion ats h s p c v = (Inr f, h')" and "fh_rows h' = fh_rows h @ [f]"
    and "fv_id f = at_id (ats 0)" "fv_session f = s" "fv_path f = p" "fv_content f = c" "fv_version f = v"
  using assms by (auto simp: createWithVersion_def create_attempts_Cons attempt_works_def Let_def)

lemma CreateVersion_works:
  assumes "attempt_works h (ats 0)"
  obtains f h' where "CreateVersion ats True h s p c = (Inr f, h')" and "fv_id f = at_id (ats 0)"
proof (cases "ListFilesByPath (fh_rows h) p")
  case Nil
  then have "\<not> taken h s p InitialVersion"
    by (auto simp: ListFilesByPath_def filter_empty_conv taken_def version_key_def)
  with Nil that assms show thesis
    by (auto simp: CreateVersion_def Create_file_def elim!: createWithVersion_works [of h ats s p InitialVersion c])
next
  case (Cons r rs)
  have "\<not> taken h s p (fv_version r + 1)"
    using newest_first_hd [of _ r rs] Cons by (fastforce simp: ListFilesByPath_def taken_def version_key_def)
  with Cons that assms show thesis
    by (auto simp: CreateVersion_def elim!: createWithVersion_works [of h ats s p "fv_version r + 1" c])
qed

text \<open>
  The history answers with what was stored last. After a successful \<^verbatim>\<open>CreateVersion\<close> of a path
  in a session, \<^verbatim>\<open>GetByPathAndSession\<close> returns the stored row with the stored content, its version is
  above every earlier version of the path in any session, every earlier row is still there, and the
  answer for any other path or session is what it was.
\<close>

theorem newest_version_is_current:
  assumes "CreateVersion ats listed h s p c = (Inr f, h')" and "history_ok h"
  shows "GetByPathAndSession h' p s = Inr f \<and> fv_content f = c \<and>
    list_all (\<lambda>q. fv_path q = p \<longrightarrow> fv_version q < fv_version f) (fh_rows h) \<and>
    fh_rows h' = fh_rows h @ [f] \<and>
    (p' \<noteq> p \<or> s' \<noteq> s \<longrightarrow> GetByPathAndSession h' p' s' = GetByPathAndSession h p' s')"
proof -
  note new = CreateVersion_newest [OF assms]
  have "GetByPathAndSession h' p' s' = GetByPathAndSession h p' s'" if "p' \<noteq> p \<or> s' \<noteq> s"
    by (rule GetByPathAndSession_cong) (use new that in auto)
  with new show ?thesis by (simp add: list_all_iff)
qed

theorem newest_version_is_current_witness:
  "\<exists>f. GetByPathAndSession (snd (CreateVersion demo_attempts True demo_history ''s'' ''f'' ''new'')) ''f'' ''s'' = Inr f \<and>
       fv_content f = ''new''"
proof -
  let ?out = "CreateVersion demo_attempts True demo_history ''s'' ''f'' ''new''"
  have "history_ok demo_history" by (simp add: history_ok_def demo_history_def demo_row_def version_key_def)
  moreover have "\<not> isl (fst ?out)"
    by (simp add: CreateVersion_def createWithVersion_def ListFilesByPath_def newest_first_def create_attempts_Cons taken_def
        version_key_def demo_history_def demo_row_def demo_attempts_def Let_def)
  then obtain f where "?out = (Inr f, snd ?out)" by (metis isl_def prod.collapse sum.exhaust)
  ultimately show ?thesis using newest_version_is_current [of demo_attempts True demo_history] by blast
qed

text \<open>
  The latest files of a session are looked up across all sessions: a file that another session
  changed later disappears from the list of the first session.
\<close>

lemma latest_files_miss_shared_file:
  "map fv_path (ListFilesBySession shared_history ''s1'') = [''f''] \<and>
   ListLatestSessionFiles shared_history ''s1'' = []"
  by (simp add: ListFilesBySession_def ListLatestSessionFiles_def oldest_first_def newest_of_path_def shared_history_def demo_row_def)

end
