(* ===== verification/Edit_Tool.thy ===== *)
theory Edit_Tool
  imports Edit_Match File_History
begin

section \<open>The file tools: \<^verbatim>\<open>agent/tools/edit.go\<close>, \<^verbatim>\<open>write.go\<close>, \<^verbatim>\<open>filetracker\<close>, \<^verbatim>\<open>fsext\<close>\<close>

text \<open>
  The edit and write tools on a file system, with the file history and the record of reads they
  keep. A file has its bytes and its modification time in nanoseconds; the read record has seconds.
  What one call gets from outside is an \<open>edit_env\<close>: the session of the context, the clock, the
  working directory, the errors of the operating system and of the database, the attempts of each
  history write, and the rendering of diffs, times and errors. A failing \<^verbatim>\<open>os.WriteFile\<close> may leave
  any bytes behind. \<^verbatim>\<open>os.MkdirAll\<close> only adds directories.
\<close>

subsection \<open>Line endings\<close>

abbreviation CR :: char where "CR \<equiv> CHR 0x0D"
abbreviation CRLF :: string where "CRLF \<equiv> [CR, NL]"

definition ToUnixLineEndings :: "string \<Rightarrow> string \<times> bool" where
  "ToUnixLineEndings content =
     (if str_contains content CRLF then (str_replace_all content CRLF [NL], True) else (content, False))"

definition ToWindowsLineEndings :: "string \<Rightarrow> string \<times> bool" where
  "ToWindowsLineEndings content =
     (if \<not> str_contains content CRLF then (str_replace_all content [NL] CRLF, True) else (content, False))"

subsection \<open>Paths\<close>

definition SmartJoin :: "string \<Rightarrow> string \<Rightarrow> string" where
  "SmartJoin one two = (if filepath_IsAbs two then two else filepath_Join [one, two])"

subsection \<open>The world and the environment of a call\<close>

datatype fs_node = FsDir | FsFile string int

record edit_world =
  ew_fs :: "(string, fs_node) gomap"
  ew_hist :: file_history
  ew_reads :: "(string \<times> string, int) gomap"

record edit_env =
  ev_session :: string
  ev_now :: int
  ev_cwd :: "string option"
  ev_stat :: "string option"
  ev_mkdir :: "string option"
  ev_read :: "string option"
  ev_write :: "(string \<times> string option) option"
  ev_hist_read :: bool
  ev_listed :: bool
  ev_attempts :: "nat \<Rightarrow> nat \<Rightarrow> attempt"
  ev_saved :: bool
  ev_fetched :: bool
  ev_diff :: "string \<Rightarrow> string \<Rightarrow> string \<Rightarrow> string \<times> nat \<times> nat"
  ev_time :: "int \<Rightarrow> string"
  ev_err :: "history_error \<Rightarrow> string"

record edit_meta =
  em_diff :: string
  em_additions :: nat
  em_removals :: nat
  em_old :: string
  em_new :: string

record tool_reply =
  tp_content :: string
  tp_error :: bool
  tp_meta :: "edit_meta option"

definition text_error :: "string \<Rightarrow> tool_reply" where
  "text_error s = \<lparr>tp_content = s, tp_error = True, tp_meta = None\<rparr>"

definition seconds :: "int \<Rightarrow> int" where
  "seconds t = t div 1000000000"

text \<open>The zero time of Go, 1 January of year 1, in Unix seconds.\<close>

definition zero_time :: int where
  "zero_time = - 62135596800"

subsection \<open>The read record: \<^verbatim>\<open>filetracker/service.go\<close>\<close>

definition relpath :: "string option \<Rightarrow> string \<Rightarrow> string" where
  "relpath cwd path =
     (let path = filepath_Clean path in
      case cwd of
        None \<Rightarrow> path
      | Some basepath \<Rightarrow> (case filepath_Rel basepath path of None \<Rightarrow> path | Some r \<Rightarrow> r))"

definition RecordRead :: "edit_env \<Rightarrow> string \<Rightarrow> string \<Rightarrow> edit_world \<Rightarrow> edit_world" where
  "RecordRead env session path w =
     (let key = (session, relpath (ev_cwd env) path)
      in if \<not> ev_saved env \<or> session = [] \<or> snd key = [] then w
         else w\<lparr>ew_reads := AList.update key (seconds (ev_now env)) (ew_reads w)\<rparr>)"

definition LastReadTime :: "edit_env \<Rightarrow> string \<Rightarrow> string \<Rightarrow> edit_world \<Rightarrow> int" where
  "LastReadTime env session path w =
     (if \<not> ev_fetched env then zero_time
      else case map_of (ew_reads w) (session, relpath (ev_cwd env) path) of
             None \<Rightarrow> zero_time | Some t \<Rightarrow> t)"

definition ListReadFiles :: "edit_env \<Rightarrow> string \<Rightarrow> edit_world \<Rightarrow> string list option" where
  "ListReadFiles env session w =
     (if \<not> ev_fetched env then None
      else case ev_cwd env of
             None \<Rightarrow> None
           | Some basepath \<Rightarrow>
               Some (map (\<lambda>e. filepath_Join [basepath, snd (fst e)])
                 (sort_key (\<lambda>e. - snd e) (filter (\<lambda>e. fst (fst e) = session) (ew_reads w)))))"

subsection \<open>The operating system\<close>

fun ancestors :: "nat \<Rightarrow> string \<Rightarrow> string list" where
  "ancestors 0 p = [p]"
| "ancestors (Suc n) p = (if filepath_Dir p = p then [p] else p # ancestors n (filepath_Dir p))"

definition add_dir :: "string \<Rightarrow> edit_world \<Rightarrow> edit_world" where
  "add_dir d w = (if map_of (ew_fs w) d = None then w\<lparr>ew_fs := AList.update d FsDir (ew_fs w)\<rparr> else w)"

definition os_MkdirAll :: "edit_env \<Rightarrow> string \<Rightarrow> edit_world \<Rightarrow> string option \<times> edit_world" where
  "os_MkdirAll env d w =
     (case ev_mkdir env of
        Some e \<Rightarrow> (Some e, w)
      | None \<Rightarrow> (None, fold add_dir (rev (ancestors (length d) d)) w))"

definition put_file :: "string \<Rightarrow> string \<Rightarrow> int \<Rightarrow> edit_world \<Rightarrow> edit_world" where
  "put_file path content t w = w\<lparr>ew_fs := AList.update path (FsFile content t) (ew_fs w)\<rparr>"

definition os_WriteFile :: "edit_env \<Rightarrow> string \<Rightarrow> string \<Rightarrow> edit_world \<Rightarrow> string option \<times> edit_world" where
  "os_WriteFile env path content w =
     (if map_of (ew_fs w) path = Some FsDir then (Some ''is a directory'', w)
      else case ev_write env of
             Some (e, None) \<Rightarrow> (Some e, w)
           | Some (e, Some left) \<Rightarrow> (Some e, put_file path left (ev_now env) w)
           | None \<Rightarrow> (None, put_file path content (ev_now env) w))"

subsection \<open>Committing a change\<close>

definition withWhitespaceNote :: "string \<Rightarrow> bool \<Rightarrow> string" where
  "withWhitespaceNote message corrected =
     (if \<not> corrected then message
      else message @ [NL] @ ''Note: old_string did not match exactly. The edit was applied to whitespace-equivalent text in the file and new_string was re-indented to match the file's style. Verify the result.'')"

definition store_versions :: "edit_env \<Rightarrow> string \<Rightarrow> string \<Rightarrow> string \<Rightarrow> string \<Rightarrow> string \<Rightarrow> edit_world \<Rightarrow> edit_world" where
  "store_versions env session path recorded old new w =
     (let h1 = (if recorded \<noteq> old
                then snd (CreateVersion (ev_attempts env 1) (ev_listed env) (ew_hist w) session path old)
                else ew_hist w);
          h2 = snd (CreateVersion (ev_attempts env 2) (ev_listed env) h1 session path new)
      in RecordRead env session path (w\<lparr>ew_hist := h2\<rparr>))"

text \<open>
  The history part of a change, common to both tools. \<^verbatim>\<open>file\<close> keeps the empty content of the zero
  value when the session has no version of the path yet, also after \<^verbatim>\<open>Create\<close>.
\<close>

definition record_change :: "edit_env \<Rightarrow> string \<Rightarrow> string \<Rightarrow> string \<Rightarrow> string \<Rightarrow> edit_world \<Rightarrow> string option \<times> edit_world" where
  "record_change env session path old new w =
     (case (if ev_hist_read env then GetByPathAndSession (ew_hist w) path session else Inl HistDatabase) of
        Inr file \<Rightarrow> (None, store_versions env session path (fv_content file) old new w)
      | Inl _ \<Rightarrow>
          (case Create_file (ev_attempts env 0) (ew_hist w) session path old of
             (Inl e, h) \<Rightarrow> (Some (''error creating file history: '' @ ev_err env e), w\<lparr>ew_hist := h\<rparr>)
           | (Inr _, h) \<Rightarrow> (None, store_versions env session path [] old new (w\<lparr>ew_hist := h\<rparr>))))"

definition commitFileChange :: "edit_env \<Rightarrow> string \<Rightarrow> string \<Rightarrow> string \<Rightarrow> string \<Rightarrow> edit_world \<Rightarrow> string option \<times> edit_world" where
  "commitFileChange env session path old new w =
     (case os_WriteFile env path new w of
        (Some e, w) \<Rightarrow> (Some (''failed to write file: '' @ e), w)
      | (None, w) \<Rightarrow> record_change env session path old new w)"

subsection \<open>The edit tool\<close>

definition createNewFile :: "edit_env \<Rightarrow> string \<Rightarrow> string \<Rightarrow> string \<Rightarrow> edit_world \<Rightarrow> (string + tool_reply) \<times> edit_world" where
  "createNewFile env wd path content w =
     (case (ev_stat env, map_of (ew_fs w) path) of
        (None, Some FsDir) \<Rightarrow> (Inr (text_error (''path is a directory, not a file: '' @ path)), w)
      | (None, Some (FsFile _ _)) \<Rightarrow> (Inr (text_error (''file already exists: '' @ path)), w)
      | (Some e, _) \<Rightarrow> (Inl (''failed to access file: '' @ e), w)
      | (None, None) \<Rightarrow>
          (case os_MkdirAll env (filepath_Dir path) w of
             (Some e, w) \<Rightarrow> (Inl (''failed to create parent directories: '' @ e), w)
           | (None, w) \<Rightarrow>
               if ev_session env = [] then (Inl ''session ID is required for creating a new file'', w)
               else
                 (let (_, additions, removals) = ev_diff env [] content (str_trim_prefix path wd)
                  in case os_WriteFile env path content w of
                       (Some e, w) \<Rightarrow> (Inl (''failed to write file: '' @ e), w)
                     | (None, w) \<Rightarrow>
                         (case Create_file (ev_attempts env 0) (ew_hist w) (ev_session env) path [] of
                            (Inl e, h) \<Rightarrow> (Inl (''error creating file history: '' @ ev_err env e), w\<lparr>ew_hist := h\<rparr>)
                          | (Inr _, h) \<Rightarrow>
                              (Inr \<lparr>tp_content = ''File created: '' @ path, tp_error = False,
                                    tp_meta = Some \<lparr>em_diff = [], em_additions = additions, em_removals = removals,
                                                    em_old = [], em_new = content\<rparr>\<rparr>,
                               RecordRead env (ev_session env) path
                                 (w\<lparr>ew_hist := snd (CreateVersion (ev_attempts env 1) (ev_listed env) h (ev_session env) path content)\<rparr>))))))"

datatype file_load = LoadFailed string | LoadRefused tool_reply | Loaded string bool

definition loadExistingFile :: "edit_env \<Rightarrow> string \<Rightarrow> string \<Rightarrow> edit_world \<Rightarrow> file_load" where
  "loadExistingFile env path sessionError w =
     (case ev_stat env of
        Some e \<Rightarrow> LoadFailed (''failed to access file: '' @ e)
      | None \<Rightarrow>
          (case map_of (ew_fs w) path of
             None \<Rightarrow> LoadRefused (text_error (''file not found: '' @ path))
           | Some FsDir \<Rightarrow> LoadRefused (text_error (''path is a directory, not a file: '' @ path))
           | Some (FsFile content mtime) \<Rightarrow>
               if ev_session env = [] then LoadFailed sessionError
               else
                 (let lastRead = LastReadTime env (ev_session env) path w in
                  if lastRead = zero_time
                  then LoadRefused (text_error ''you must read the file before editing it. Use the View tool first'')
                  else if seconds mtime > lastRead
                  then LoadRefused (text_error (''file '' @ path @ '' has been modified since it was last read (mod time: '' @
                         ev_time env (seconds mtime) @ '', last read: '' @ ev_time env lastRead @ '')''))
                  else case ev_read env of
                         Some e \<Rightarrow> LoadFailed (''failed to read file: '' @ e)
                       | None \<Rightarrow> (case ToUnixLineEndings content of (old, crlf) \<Rightarrow> Loaded old crlf))))"

text \<open>
  The three forms that change an existing file load it, compute the new text or refuse, convert the
  line endings back and commit. \<open>change old\<close> is the new text with the whitespace mark, or the refusal.
\<close>

definition changeExisting :: "edit_env \<Rightarrow> string \<Rightarrow> string \<Rightarrow> string \<Rightarrow> (string \<Rightarrow> string + string \<times> bool) \<Rightarrow> string \<Rightarrow>
    edit_world \<Rightarrow> (string + tool_reply) \<times> edit_world" where
  "changeExisting env wd path sessionError change message w =
     (case loadExistingFile env path sessionError w of
        LoadFailed e \<Rightarrow> (Inl e, w)
      | LoadRefused resp \<Rightarrow> (Inr resp, w)
      | Loaded old crlf \<Rightarrow>
          (case change old of
             Inl e \<Rightarrow> (Inr (text_error e), w)
           | Inr (new, corrected) \<Rightarrow>
               (let (_, additions, removals) = ev_diff env old new (str_trim_prefix path wd);
                    written = (if crlf then fst (ToWindowsLineEndings new) else new)
                in case commitFileChange env (ev_session env) path old written w of
                     (Some e, w) \<Rightarrow> (Inl e, w)
                   | (None, w) \<Rightarrow>
                       (Inr \<lparr>tp_content = withWhitespaceNote message corrected, tp_error = False,
                             tp_meta = Some \<lparr>em_diff = [], em_additions = additions, em_removals = removals,
                                             em_old = old, em_new = written\<rparr>\<rparr>, w))))"

definition deleteContent :: "edit_env \<Rightarrow> string \<Rightarrow> string \<Rightarrow> string \<Rightarrow> bool \<Rightarrow> edit_world \<Rightarrow> (string + tool_reply) \<times> edit_world" where
  "deleteContent env wd path old all w =
     changeExisting env wd path ''session ID is required for deleting content''
       (\<lambda>text. findAndReplace text old [] all) (''Content deleted from file: '' @ path) w"

definition replaceContent :: "edit_env \<Rightarrow> string \<Rightarrow> string \<Rightarrow> string \<Rightarrow> string \<Rightarrow> bool \<Rightarrow> edit_world \<Rightarrow> (string + tool_reply) \<times> edit_world" where
  "replaceContent env wd path old new all w =
     changeExisting env wd path ''session ID is required for editing a file''
       (\<lambda>text. case findAndReplace text old new all of
                 Inl e \<Rightarrow> Inl e
               | Inr (result, c) \<Rightarrow>
                   if result = text then Inl ''new content is the same as old content. No changes made.''
                   else Inr (result, c))
       (''Content replaced in file: '' @ path) w"

definition applyMultiEdit :: "edit_env \<Rightarrow> string \<Rightarrow> string \<Rightarrow> edit_operation list \<Rightarrow> edit_world \<Rightarrow> (string + tool_reply) \<times> edit_world" where
  "applyMultiEdit env wd path edits w =
     changeExisting env wd path ''session ID is required for editing a file''
       (\<lambda>text. multi_edit_text text edits)
       (''Applied '' @ itoa (length edits) @ '' edits to file: '' @ path) w"

record edit_params =
  ep_path :: string
  ep_old :: string
  ep_new :: string
  ep_all :: bool
  ep_edits :: "edit_operation list"

definition edit_dispatch :: "edit_env \<Rightarrow> string \<Rightarrow> edit_params \<Rightarrow> string \<Rightarrow> edit_world \<Rightarrow> (string + tool_reply) \<times> edit_world" where
  "edit_dispatch env wd params path w =
     (if ep_edits params \<noteq> [] then
        (if ep_old params \<noteq> [] \<or> ep_new params \<noteq> []
         then (Inr (text_error ''provide either edits or old_string/new_string, not both''), w)
         else applyMultiEdit env wd path (ep_edits params) w)
      else if ep_old params = [] then createNewFile env wd path (ep_new params) w
      else if ep_new params = [] then deleteContent env wd path (ep_old params) (ep_all params) w
      else replaceContent env wd path (ep_old params) (ep_new params) (ep_all params) w)"

definition EditTool :: "edit_env \<Rightarrow> string \<Rightarrow> edit_params \<Rightarrow> edit_world \<Rightarrow> (string + tool_reply) \<times> edit_world" where
  "EditTool env wd params w =
     (if ep_path params = [] then (Inr (text_error ''file_path is required''), w)
      else
        (case edit_dispatch env wd params (SmartJoin wd (ep_path params)) w of
           (Inl e, w) \<Rightarrow> (Inl e, w)
         | (Inr resp, w) \<Rightarrow>
             if tp_error resp then (Inr resp, w)
             else (Inr (resp\<lparr>tp_content := ''<result>'' @ [NL] @ tp_content resp @ [NL] @ ''</result>'' @ [NL]\<rparr>), w)))"

subsection \<open>The write tool\<close>

definition write_commit :: "edit_env \<Rightarrow> string \<Rightarrow> string \<Rightarrow> string \<Rightarrow> edit_world \<Rightarrow> (string + tool_reply) \<times> edit_world" where
  "write_commit env wd path content w =
     (case os_MkdirAll env (filepath_Dir path) w of
        (Some e, w) \<Rightarrow> (Inl (''error creating directory: '' @ e), w)
      | (None, w) \<Rightarrow>
          (let old = (case map_of (ew_fs w) path of
                        Some (FsFile c _) \<Rightarrow> (if ev_read env = None then c else [])
                      | _ \<Rightarrow> []);
               (text, additions, removals) = ev_diff env old content (str_trim_prefix path wd)
           in case os_WriteFile env path content w of
                (Some e, w) \<Rightarrow> (Inl (''error writing file: '' @ e), w)
              | (None, w) \<Rightarrow>
                  (case record_change env (ev_session env) path old content w of
                     (Some e, w) \<Rightarrow> (Inl e, w)
                   | (None, w) \<Rightarrow>
                       (Inr \<lparr>tp_content = ''<result>'' @ [NL] @ ''File successfully written: '' @ path @ [NL] @ ''</result>'',
                             tp_error = False,
                             tp_meta = Some \<lparr>em_diff = text, em_additions = additions, em_removals = removals,
                                             em_old = [], em_new = []\<rparr>\<rparr>, w))))"

definition WriteTool :: "edit_env \<Rightarrow> string \<Rightarrow> string \<Rightarrow> string \<Rightarrow> edit_world \<Rightarrow> (string + tool_reply) \<times> edit_world" where
  "WriteTool env wd file content w =
     (if file = [] then (Inr (text_error ''file_path is required''), w)
      else if ev_session env = [] then (Inl ''session_id is required'', w)
      else
        (let path = SmartJoin wd file in
         case (ev_stat env, map_of (ew_fs w) path) of
           (Some e, _) \<Rightarrow> (Inl (''error checking file: '' @ e), w)
         | (None, Some FsDir) \<Rightarrow> (Inr (text_error (''Path is a directory, not a file: '' @ path)), w)
         | (None, Some (FsFile c mtime)) \<Rightarrow>
             (let lastRead = LastReadTime env (ev_session env) path w in
              if seconds mtime > lastRead then
                (Inr (text_error (''File '' @ path @ '' has been modified since it was last read.'' @ [NL] @
                   ''Last modification: '' @ ev_time env (seconds mtime) @ [NL] @ ''Last read: '' @ ev_time env lastRead @ [NL, NL] @
                   ''Please read the file again before modifying it.'')), w)
              else if ev_read env = None \<and> c = content then
                (Inr (text_error (''File '' @ path @ '' already contains the exact content. No changes made.'')), w)
              else write_commit env wd path content w)
         | (None, None) \<Rightarrow> write_commit env wd path content w))"

datatype file_tool = UseEdit edit_params | UseWrite string string

fun run_file_tool :: "edit_env \<Rightarrow> string \<Rightarrow> file_tool \<Rightarrow> edit_world \<Rightarrow> (string + tool_reply) \<times> edit_world" where
  "run_file_tool env wd (UseEdit params) w = EditTool env wd params w"
| "run_file_tool env wd (UseWrite file content) w = WriteTool env wd file content w"

fun tool_path :: "string \<Rightarrow> file_tool \<Rightarrow> string" where
  "tool_path wd (UseEdit params) = SmartJoin wd (ep_path params)"
| "tool_path wd (UseWrite file content) = SmartJoin wd file"

end
