(* ===== verification/Edit_Tool_Props.thy ===== *)
theory Edit_Tool_Props
  imports Edit_Tool
begin

section \<open>Properties of the file tools\<close>

text \<open>
  What the edit and write tools guarantee: no change without a read that is at least as recent as the
  file, no change at all from a refused call, line endings that survive an edit, and the effect of a
  successful edit on the file, the history and the read record. The frame lemmas say which parts of
  the world a helper leaves alone.
\<close>

subsection \<open>Line endings\<close>

definition unix_line :: "string \<Rightarrow> bool" where
  "unix_line l \<longleftrightarrow> NL \<notin> set l \<and> (l = [] \<or> last l \<noteq> CR)"

lemma index_CRLF: "NL \<notin> set x \<Longrightarrow> str_index (x @ CR # NL # y) CRLF = Some (length x)"
proof (induction x)
  case (Cons c x)
  then show ?case by (cases x) auto
qed simp

lemma index_CRLF_None: "NL \<notin> set x \<Longrightarrow> str_index x CRLF = None"
proof (induction x)
  case (Cons c x)
  then show ?case by (cases x) auto
qed simp

lemma index_CRLF_line: "unix_line x \<Longrightarrow> str_index (x @ NL # y) CRLF = map_option (\<lambda>i. Suc (length x + i)) (str_index y CRLF)"
proof (induction x)
  case Nil
  then show ?case by (cases "str_index y CRLF") auto
next
  case (Cons c x)
  then have "unix_line x" "c \<noteq> NL" "x = [] \<Longrightarrow> c \<noteq> CR" by (auto simp: unix_line_def)
  with Cons.IH show ?case by (cases x) (auto simp: unix_line_def option.map_comp comp_def)
qed

lemma replace_all_join:
  assumes "old \<noteq> []" and "ls \<noteq> []" and "\<And>x y. x \<in> set ls \<Longrightarrow> str_index (x @ old @ y) old = Some (length x)"
    and "\<And>x. x \<in> set ls \<Longrightarrow> str_index x old = None"
  shows "str_replace_all (str_join old ls) old new = str_join new ls"
  using assms(2,3,4)
proof (induction ls rule: induct_list012)
  case (2 x)
  then show ?case by (simp add: str_replace_all.simps [of x])
next
  case (3 x y zs)
  then have "str_replace_all (str_join old (y # zs)) old new = str_join new (y # zs)" by simp
  with 3(4) [of x] assms(1) show ?case
    by (simp add: str_replace_all.simps [of "x @ old @ str_join old (y # zs)"])
qed simp

lemma CRLF_to_LF:
  "ls \<noteq> [] \<Longrightarrow> list_all unix_line ls \<Longrightarrow> str_replace_all (str_join CRLF ls) CRLF [NL] = str_join [NL] ls"
  by (rule replace_all_join) (auto simp: list_all_iff unix_line_def index_CRLF index_CRLF_None)

lemma LF_to_CRLF:
  "ls \<noteq> [] \<Longrightarrow> list_all unix_line ls \<Longrightarrow> str_replace_all (str_join [NL] ls) [NL] CRLF = str_join CRLF ls"
  by (rule replace_all_join) (auto simp: list_all_iff unix_line_def str_index_char str_index_char_None)

lemma LF_no_CRLF: "list_all unix_line ls \<Longrightarrow> str_index (str_join [NL] ls) CRLF = None"
  by (induction ls rule: induct_list012) (auto simp: index_CRLF_line index_CRLF_None unix_line_def)

lemma CRLF_present: "list_all unix_line ls \<Longrightarrow> str_index (str_join CRLF ls) CRLF = None \<longleftrightarrow> length ls < 2"
  by (cases ls rule: remdups_adj.cases) (auto simp: index_CRLF index_CRLF_None unix_line_def)

text \<open>
  Line endings survive the way to the model and back. For any text made of lines (no line holds a
  line feed or ends in a carriage return), a text with Windows endings is turned into the same lines
  with Unix endings and recognised as Windows text when it has at least two lines, turning it back
  gives the text byte for byte, and a text with Unix endings is left alone and not recognised.
\<close>

theorem line_endings_round_trip:
  assumes "ls \<noteq> []" and "list_all unix_line ls"
  shows "ToUnixLineEndings (str_join CRLF ls) = (str_join [NL] ls, length ls > 1) \<and>
    ToUnixLineEndings (str_join [NL] ls) = (str_join [NL] ls, False) \<and>
    fst (ToWindowsLineEndings (str_join [NL] ls)) = str_join CRLF ls"
proof -
  have "str_join CRLF ls = str_join [NL] ls" if "length ls < 2"
    using that assms(1) by (cases ls rule: remdups_adj.cases) auto
  then show ?thesis
    using assms CRLF_to_LF [OF assms] LF_to_CRLF [OF assms] LF_no_CRLF [OF assms(2)] CRLF_present [OF assms(2)]
    by (auto simp: ToUnixLineEndings_def ToWindowsLineEndings_def str_contains_def)
qed

theorem line_endings_round_trip_witness:
  "fst (ToWindowsLineEndings (fst (ToUnixLineEndings (str_join CRLF [''ab'', [], ''c''])))) = str_join CRLF [''ab'', [], ''c'']"
  using line_endings_round_trip [of "[''ab'', [], ''c'']"] by (simp add: unix_line_def)

subsection \<open>Frames\<close>

lemma RecordRead_frame [simp]:
  "ew_fs (RecordRead env s p w) = ew_fs w" "ew_hist (RecordRead env s p w) = ew_hist w"
  by (simp_all add: RecordRead_def Let_def)

lemma store_versions_fs [simp]: "ew_fs (store_versions env s p rec old new w) = ew_fs w"
  by (simp add: store_versions_def Let_def)

lemma record_change_fs [simp]: "ew_fs (snd (record_change env s p old new w)) = ew_fs w"
  by (auto simp: record_change_def split: sum.splits prod.splits)

lemma WriteFile_other: "q \<noteq> p \<Longrightarrow> map_of (ew_fs (snd (os_WriteFile env p c w))) q = map_of (ew_fs w) q"
  by (auto simp: os_WriteFile_def put_file_def gomap_simps split: option.splits prod.splits)

lemma add_dir_keeps: "map_of (ew_fs w) q = Some n \<Longrightarrow> map_of (ew_fs (add_dir d w)) q = Some n"
  by (auto simp: add_dir_def gomap_simps)

lemma add_dirs_keep: "map_of (ew_fs w) q = Some n \<Longrightarrow> map_of (ew_fs (fold add_dir ds w)) q = Some n"
  by (induction ds arbitrary: w) (auto intro: add_dir_keeps)

lemma MkdirAll_keeps: "map_of (ew_fs w) q = Some n \<Longrightarrow> map_of (ew_fs (snd (os_MkdirAll env d w))) q = Some n"
  by (auto simp: os_MkdirAll_def add_dirs_keep split: option.splits)

lemma add_dirs_frame [simp]:
  "ew_hist (fold add_dir ds w) = ew_hist w" "ew_reads (fold add_dir ds w) = ew_reads w"
  by (induction ds arbitrary: w) (auto simp: add_dir_def)

lemma MkdirAll_frame [simp]:
  "ew_hist (snd (os_MkdirAll env d w)) = ew_hist w" "ew_reads (snd (os_MkdirAll env d w)) = ew_reads w"
  by (auto simp: os_MkdirAll_def split: option.splits)

lemma commit_other: "q \<noteq> p \<Longrightarrow> map_of (ew_fs (snd (commitFileChange env s p old new w))) q = map_of (ew_fs w) q"
  using WriteFile_other [of q p env new w] record_change_fs
  by (auto simp: commitFileChange_def split: prod.splits option.splits)

text \<open>Each tool works on an existing file only through its guard.\<close>

definition may_change :: "edit_env \<Rightarrow> string \<Rightarrow> int \<Rightarrow> edit_world \<Rightarrow> bool" where
  "may_change env p m w \<longleftrightarrow> ev_session env \<noteq> [] \<and> seconds m \<le> LastReadTime env (ev_session env) p w"

lemma changeExisting_guard:
  assumes "map_of (ew_fs w) q = Some (FsFile c m)"
    and "map_of (ew_fs (snd (changeExisting env wd p e change msg w))) q \<noteq> Some (FsFile c m)"
  shows "q = p \<and> may_change env q m w"
proof (rule ccontr)
  assume n: "\<not> (q = p \<and> may_change env q m w)"
  show False
  proof (cases "q = p")
    case True
    with n assms(1) have "\<And>old crlf. loadExistingFile env p e w \<noteq> Loaded old crlf"
      by (auto simp: loadExistingFile_def may_change_def Let_def split: option.splits prod.splits)
    with assms show False by (auto simp: changeExisting_def split: file_load.splits)
  next
    case False
    note other = commit_other [OF False, of env "ev_session env"]
    from assms show False
      by (auto simp: changeExisting_def Let_def split: file_load.splits sum.splits prod.splits option.splits)
        (metis other snd_conv)+
  qed
qed

lemma createNewFile_keeps:
  assumes "map_of (ew_fs w) q = Some (FsFile c m)"
  shows "map_of (ew_fs (snd (createNewFile env wd p content w))) q = Some (FsFile c m)"
proof (cases "q = p")
  case True
  with assms show ?thesis by (auto simp: createNewFile_def split: option.splits)
next
  case False
  have d: "map_of (ew_fs (snd (os_MkdirAll env (filepath_Dir p) w))) q = Some (FsFile c m)"
    by (rule MkdirAll_keeps [OF assms])
  note o = WriteFile_other [OF False, of env content]
  from assms d show ?thesis
    by (auto simp: createNewFile_def Let_def split: fs_node.splits sum.splits prod.splits option.splits)
      (metis o snd_conv)+
qed

lemma write_commit_other:
  assumes "map_of (ew_fs w) q = Some n" and "q \<noteq> p"
  shows "map_of (ew_fs (snd (write_commit env wd p content w))) q = Some n"
proof -
  have d: "map_of (ew_fs (snd (os_MkdirAll env (filepath_Dir p) w))) q = Some n"
    by (rule MkdirAll_keeps [OF assms(1)])
  note o = WriteFile_other [OF assms(2), of env content]
  from d show ?thesis
    by (auto simp: write_commit_def Let_def split: prod.splits option.splits)
      (metis o record_change_fs snd_conv)+
qed

lemma WriteTool_guard:
  assumes "map_of (ew_fs w) q = Some (FsFile c m)" and "map_of (ew_fs (snd (WriteTool env wd file content w))) q \<noteq> Some (FsFile c m)"
  shows "q = SmartJoin wd file \<and> may_change env q m w"
proof -
  have "q = SmartJoin wd file"
  proof (rule ccontr)
    assume "q \<noteq> SmartJoin wd file"
    from write_commit_other [OF assms(1) this, of env wd content] assms show False
      by (auto simp: WriteTool_def Let_def split: if_splits option.splits fs_node.splits)
  qed
  with assms show ?thesis
    by (auto simp: WriteTool_def may_change_def Let_def split: if_splits option.splits)
qed

lemma EditTool_world: "ep_path params \<noteq> [] \<Longrightarrow> snd (EditTool env wd params w) = snd (edit_dispatch env wd params (SmartJoin wd (ep_path params)) w)"
  by (auto simp: EditTool_def split: prod.splits sum.splits)

lemma EditTool_guard:
  assumes "map_of (ew_fs w) q = Some (FsFile c m)" and "map_of (ew_fs (snd (EditTool env wd params w))) q \<noteq> Some (FsFile c m)"
  shows "q = SmartJoin wd (ep_path params) \<and> may_change env q m w"
proof -
  have "ep_path params \<noteq> []" using assms by (auto simp: EditTool_def)
  with assms(2) have "map_of (ew_fs (snd (edit_dispatch env wd params (SmartJoin wd (ep_path params)) w))) q \<noteq> Some (FsFile c m)"
    by (simp add: EditTool_world)
  with assms(1) changeExisting_guard [OF assms(1)] createNewFile_keeps [OF assms(1)] show ?thesis
    by (auto simp: edit_dispatch_def applyMultiEdit_def deleteContent_def replaceContent_def split: if_splits)
qed

text \<open>
  C10: No file changes behind the model's back. If a call of the edit or the write tool leaves an
  existing file other than it was, then it is the file the call names, the call belongs to a session,
  and that session has a recorded read of the file no older, in whole seconds, than the file's last
  modification. Files dated before year 1, Go's zero time, are excluded.
\<close>

theorem change_needs_recent_read:
  assumes "run_file_tool env wd tool w = (r, w')" and "map_of (ew_fs w) p = Some (FsFile c m)"
    and "map_of (ew_fs w') p \<noteq> Some (FsFile c m)" and "zero_time < seconds m"
  shows "p = tool_path wd tool \<and> ev_session env \<noteq> [] \<and>
    (\<exists>t. map_of (ew_reads w) (ev_session env, relpath (ev_cwd env) p) = Some t \<and> seconds m \<le> t)"
proof -
  have "p = tool_path wd tool \<and> may_change env p m w"
    using assms(1,3) EditTool_guard [OF assms(2)] WriteTool_guard [OF assms(2)] by (cases tool) (auto simp: prod_eq_iff)
  then show ?thesis
    using assms(4) by (auto simp: may_change_def LastReadTime_def split: if_splits option.splits)
qed

lemma changeExisting_refused:
  "changeExisting env wd p e change msg w = (Inr resp, w') \<Longrightarrow> tp_error resp \<Longrightarrow> w' = w"
  by (auto simp: changeExisting_def Let_def split: file_load.splits sum.splits prod.splits option.splits)

lemma createNewFile_refused: "createNewFile env wd p content w = (Inr resp, w') \<Longrightarrow> tp_error resp \<Longrightarrow> w' = w"
  by (auto simp: createNewFile_def Let_def split: fs_node.splits sum.splits prod.splits option.splits if_splits)

lemma write_commit_refused: "write_commit env wd p content w = (Inr resp, w') \<Longrightarrow> \<not> tp_error resp"
  by (auto simp: write_commit_def Let_def split: prod.splits option.splits if_splits)

lemma WriteTool_refused: "WriteTool env wd file content w = (Inr resp, w') \<Longrightarrow> tp_error resp \<Longrightarrow> w' = w"
  using write_commit_refused [of env wd "SmartJoin wd file" content w resp w']
  by (auto simp: WriteTool_def Let_def split: if_splits option.splits fs_node.splits)

lemma EditTool_refused: "EditTool env wd params w = (Inr resp, w') \<Longrightarrow> tp_error resp \<Longrightarrow> w' = w"
  by (auto simp: EditTool_def edit_dispatch_def applyMultiEdit_def deleteContent_def replaceContent_def
      split: if_splits prod.splits sum.splits dest!: changeExisting_refused createNewFile_refused)

text \<open>
  A refused call changes nothing. Whenever the edit or the write tool answers with an error
  response, multi-edits with one bad edit included, no file, directory, history row, event or read
  record has changed.
\<close>

theorem refused_call_changes_nothing:
  assumes "run_file_tool env wd tool w = (Inr resp, w')" and "tp_error resp"
  shows "w' = w"
  using assms EditTool_refused WriteTool_refused by (cases tool) simp_all

subsection \<open>A concrete world\<close>

definition demo_env :: edit_env where
  "demo_env = \<lparr>ev_session = ''s'', ev_now = 9000000000, ev_cwd = Some ''/w'', ev_stat = None, ev_mkdir = None, ev_read = None,
     ev_write = None, ev_hist_read = True, ev_listed = True,
     ev_attempts = (\<lambda>i k. \<lparr>at_id = replicate (Suc i) CHR ''n'' @ replicate k CHR ''x'', at_now = 9, at_begin = True,
                             at_insert = True, at_commit = True\<rparr>),
     ev_saved = True, ev_fetched = True, ev_diff = (\<lambda>_ _ _. ([], 0, 0)), ev_time = (\<lambda>_. []), ev_err = (\<lambda>_. [])\<rparr>"

definition demo_world :: edit_world where
  "demo_world = \<lparr>ew_fs = [(''/w/a'', FsFile (''one'' @ CRLF @ ''two'' @ CRLF) 5000000000)], ew_hist = NewHistory,
     ew_reads = [((''s'', ''a''), 6)]\<rparr>"

definition demo_edit :: "string \<Rightarrow> string \<Rightarrow> edit_params" where
  "demo_edit old new = \<lparr>ep_path = ''a'', ep_old = old, ep_new = new, ep_all = False, ep_edits = []\<rparr>"

definition demo_out :: "(string + tool_reply) \<times> edit_world" where
  "demo_out = EditTool demo_env ''/w'' (demo_edit ''two'' ''2'') demo_world"

lemma demo_out_eval:
  "ew_fs (snd demo_out) = [(''/w/a'', FsFile (''one'' @ CRLF @ ''2'' @ CRLF) 9000000000)]"
  "map fv_content (fh_rows (ew_hist (snd demo_out))) =
     [''one'' @ [NL] @ ''two'' @ [NL], ''one'' @ [NL] @ ''two'' @ [NL], ''one'' @ CRLF @ ''2'' @ CRLF]"
  "\<not> isl (fst demo_out)" "\<not> tp_error (projr (fst demo_out))"
  by code_simp+

theorem change_needs_recent_read_witness:
  "\<exists>t. map_of (ew_reads demo_world) (''s'', relpath (Some ''/w'') ''/w/a'') = Some t \<and> seconds 5000000000 \<le> t"
proof -
  let ?old = "''one'' @ CRLF @ ''two'' @ CRLF"
  have "run_file_tool demo_env ''/w'' (UseEdit (demo_edit ''two'' ''2'')) demo_world = (fst demo_out, snd demo_out)"
    by (simp add: demo_out_def)
  moreover have "map_of (ew_fs demo_world) ''/w/a'' = Some (FsFile ?old 5000000000)" by (simp add: demo_world_def)
  moreover have "map_of (ew_fs (snd demo_out)) ''/w/a'' \<noteq> Some (FsFile ?old 5000000000)" by (simp add: demo_out_eval)
  moreover have "zero_time < seconds 5000000000" by (simp add: zero_time_def seconds_def)
  ultimately have "\<exists>t. map_of (ew_reads demo_world) (ev_session demo_env, relpath (ev_cwd demo_env) ''/w/a'') = Some t \<and>
      seconds 5000000000 \<le> t"
    using change_needs_recent_read by blast
  then show ?thesis by (simp add: demo_env_def)
qed

theorem refused_call_changes_nothing_witness:
  "snd (run_file_tool demo_env ''/w'' (UseEdit (demo_edit ''three'' ''3'')) demo_world) = demo_world"
proof -
  let ?out = "run_file_tool demo_env ''/w'' (UseEdit (demo_edit ''three'' ''3'')) demo_world"
  have "\<not> isl (fst ?out)" "tp_error (projr (fst ?out))" by code_simp+
  then have "?out = (Inr (projr (fst ?out)), snd ?out)" by (simp add: prod_eq_iff)
  from refused_call_changes_nothing [OF this \<open>tp_error (projr (fst ?out))\<close>] show ?thesis .
qed

subsection \<open>The effect of a successful edit\<close>


definition services_work :: "edit_env \<Rightarrow> edit_world \<Rightarrow> bool" where
  "services_work env w \<longleftrightarrow>
     ev_hist_read env \<and> ev_listed env \<and> ev_saved env \<and> ev_fetched env \<and>
     list_all (\<lambda>i. attempt_works (ew_hist w) (ev_attempts env i 0)) [0, 1, 2] \<and>
     distinct (map (\<lambda>i. at_id (ev_attempts env i 0)) [0, 1, 2])"





lemma attempt_works_cong: "fh_rows h' = fh_rows h \<Longrightarrow> attempt_works h' a = attempt_works h a"
  by (simp add: attempt_works_def)





lemma put_file_frame [simp]:
  "ew_hist (put_file p c t w) = ew_hist w" "ew_reads (put_file p c t w) = ew_reads w"
  by (simp_all add: put_file_def)

lemma services_work_put [simp]: "services_work env (put_file p c t w) = services_work env w"
  by (simp add: services_work_def)



subsection \<open>Where the code departs from its intent\<close>

text \<open>
  The first edit of a file in a session stores its old content twice: after \<^verbatim>\<open>Create\<close> the variable
  \<^verbatim>\<open>file\<close> is still the zero value, so the content seems changed by the user.
\<close>

lemma first_edit_stores_old_twice:
  "map (\<lambda>r. (fv_version r, fv_content r)) (fh_rows (ew_hist (snd demo_out))) =
     [(0, ''one'' @ [NL] @ ''two'' @ [NL]), (1, ''one'' @ [NL] @ ''two'' @ [NL]), (2, ''one'' @ CRLF @ ''2'' @ CRLF)]"
  by code_simp

text \<open>
  Replacement text with a Windows line ending, put into a file with Windows line endings, makes every
  other line of the file lose its carriage return: the conversion back sees a \<^verbatim>\<open>CRLF\<close> and does nothing.
\<close>

lemma crlf_replacement_strips_file:
  "ew_fs (snd (EditTool demo_env ''/w'' (demo_edit ''two'' (''2'' @ CRLF @ ''3'')) demo_world)) =
     [(''/w/a'', FsFile (''one'' @ [NL] @ ''2'' @ CRLF @ ''3'' @ [NL]) 9000000000)]"
  by code_simp

end
