(* ===== verification/Edit_Match_Props.thy ===== *)
theory Edit_Match_Props
  imports Edit_Match
begin

section \<open>What the edit matcher guarantees\<close>

text \<open>
  The byte search of \<open>findNormalizedMatches\<close> is the left-to-right scan for line windows whose
  normalised lines are those of the pattern (\<open>ref_windows\<close>), so a replacement touches whole lines
  only. An exact edit replaces the one occurrence; a multi-edit is the simultaneous replacement of
  disjoint spans and does not depend on the order of the edits.
\<close>

subsection \<open>Lines of a joined text\<close>

definition line_pre :: "string list \<Rightarrow> nat \<Rightarrow> string" where
  "line_pre ls i = concat (map (\<lambda>l. l @ [NL]) (take i ls))"

definition line_off :: "string list \<Rightarrow> nat \<Rightarrow> nat" where
  "line_off ls i = length (line_pre ls i)"

abbreviation NL_free :: "string list \<Rightarrow> bool" where
  "NL_free ls \<equiv> \<forall>l\<in>set ls. NL \<notin> set l"

lemma line_off_0 [simp]: "line_off ls 0 = 0"
  by (simp add: line_off_def line_pre_def)

lemma line_off_Cons [simp]: "line_off (l # ls) (Suc i) = length l + 1 + line_off ls i"
  by (simp add: line_off_def line_pre_def)

lemma line_off_Suc: "i < length ls \<Longrightarrow> line_off ls (Suc i) = line_off ls i + length (ls ! i) + 1"
  by (simp add: line_off_def line_pre_def take_Suc_conv_app_nth)

lemma line_off_mono: "i < j \<Longrightarrow> i < length ls \<Longrightarrow> j \<le> length ls \<Longrightarrow> line_off ls i < line_off ls j"
proof (induction j)
  case (Suc j)
  then show ?case using line_off_Suc [of j ls] by (cases "i = j") auto
qed simp

lemma line_off_add: "i + j \<le> length ls \<Longrightarrow> line_off ls (i + j) = line_off ls i + line_off (drop i ls) j"
  by (simp add: line_off_def line_pre_def take_add)

lemma str_join_at:
  "i < length ls \<Longrightarrow> str_join [NL] ls = line_pre ls i @ str_join [NL] (drop i ls)"
proof (induction ls arbitrary: i)
  case (Cons l ls)
  show ?case
  proof (cases i)
    case (Suc j)
    then have "j < length ls" using Cons.prems by simp
    then have "ls \<noteq> []" by auto
    then show ?thesis using Cons.IH [OF \<open>j < length ls\<close>] Suc by (simp add: line_pre_def str_join_Cons)
  qed (simp add: line_pre_def)
qed simp

lemma length_str_join: "ls \<noteq> [] \<Longrightarrow> length (str_join [NL] ls) + 1 = line_off ls (length ls)"
proof (induction ls)
  case (Cons l ls)
  then show ?case by (cases ls) (simp_all add: str_join_Cons)
qed simp

lemma drop_join: "i < length ls \<Longrightarrow> drop (line_off ls i) (str_join [NL] ls) = str_join [NL] (drop i ls)"
  by (subst str_join_at [of i]) (simp_all add: line_off_def)

lemma line_off_le: "i < length ls \<Longrightarrow> line_off ls i \<le> length (str_join [NL] ls)"
  by (subst str_join_at [of i]) (simp_all add: line_off_def)

lemma line_off_start:
  assumes "0 < i" "i < length ls"
  shows "str_join [NL] ls ! (line_off ls i - 1) = NL" "0 < line_off ls i"
proof -
  obtain j where j: "i = Suc j" using assms(1) by (cases i) auto
  have e: "line_pre ls i = line_pre ls j @ ls ! j @ [NL]"
    using assms(2) j by (simp add: line_pre_def take_Suc_conv_app_nth)
  show "0 < line_off ls i" by (simp add: line_off_def e)
  show "str_join [NL] ls ! (line_off ls i - 1) = NL"
    using assms(2) by (subst str_join_at [of i]) (simp_all add: line_off_def e nth_append)
qed

text \<open>A line start of a joined text is the offset of a line.\<close>

lemma line_start_is_off:
  assumes "NL_free ls" "ls \<noteq> []" "p \<le> length (str_join [NL] ls)" "p = 0 \<or> str_join [NL] ls ! (p - 1) = NL"
  shows "\<exists>i < length ls. p = line_off ls i"
  using assms
proof (induction ls arbitrary: p)
  case (Cons l ls)
  show ?case
  proof (cases "p = 0")
    case True
    then show ?thesis by (intro exI [of _ 0]) simp
  next
    case False
    have nl: "str_join [NL] (l # ls) ! (p - 1) = NL" using Cons.prems False by simp
    have "\<not> p - 1 < length l"
    proof
      assume "p - 1 < length l"
      then have "str_join [NL] (l # ls) ! (p - 1) = l ! (p - 1)" by (cases ls) (simp_all add: nth_append str_join_Cons)
      then show False using nl Cons.prems(1) \<open>p - 1 < length l\<close> nth_mem by fastforce
    qed
    then have ge: "p \<ge> Suc (length l)" using False by simp
    have ne: "ls \<noteq> []" using ge Cons.prems(3) by (cases ls) auto
    define q where "q = p - Suc (length l)"
    have pq: "p = Suc (length l) + q" using ge by (simp add: q_def)
    have "q = 0 \<or> str_join [NL] ls ! (q - 1) = NL"
    proof (cases q)
      case (Suc r)
      then show ?thesis using nl ne by (simp add: str_join_Cons pq nth_append)
    qed simp
    moreover have "q \<le> length (str_join [NL] ls)" using Cons.prems(3) ne by (simp add: str_join_Cons pq)
    ultimately obtain i where "i < length ls" "q = line_off ls i" using Cons.IH [of q] Cons.prems(1) ne by auto
    then show ?thesis by (intro exI [of _ "Suc i"]) (simp add: pq)
  qed
qed simp

text \<open>A joined pattern that ends at a line end is a window of lines.\<close>

lemma split_join_prefix:
  "ol \<noteq> [] \<Longrightarrow> NL_free ol \<Longrightarrow> str_split (str_join [NL] ol @ NL # r) [NL] = ol @ str_split r [NL]"
  by (induction ol rule: induct_list012) (auto simp: str_split_char_Cons)

lemma window_iff:
  assumes "NL_free ls" "NL_free ol" "ls \<noteq> []" "ol \<noteq> []"
  shows "(\<exists>r. str_join [NL] ls = str_join [NL] ol @ r \<and> (r = [] \<or> hd r = NL)) \<longleftrightarrow> take (length ol) ls = ol"
proof
  assume "\<exists>r. str_join [NL] ls = str_join [NL] ol @ r \<and> (r = [] \<or> hd r = NL)"
  then obtain r where r: "str_join [NL] ls = str_join [NL] ol @ r" "r = [] \<or> hd r = NL" by blast
  have ls: "ls = str_split (str_join [NL] ls) [NL]" using assms by (simp add: str_split_join_char)
  show "take (length ol) ls = ol"
  proof (cases r)
    case Nil
    then have "ls = ol" using ls r(1) assms by (simp add: str_split_join_char)
    then show ?thesis by simp
  next
    case (Cons c s)
    then have "ls = ol @ str_split s [NL]" using ls r split_join_prefix [OF assms(4,2)] by simp
    then show ?thesis by simp
  qed
next
  assume t: "take (length ol) ls = ol"
  then obtain rst where ls: "ls = ol @ rst" by (metis append_take_drop_id)
  have "str_join [NL] (ol @ rst) = str_join [NL] ol @ (if rst = [] then [] else NL # str_join [NL] rst)"
    using assms(4) by (induction ol rule: induct_list012) (auto simp: str_join_Cons)
  then show "\<exists>r. str_join [NL] ls = str_join [NL] ol @ r \<and> (r = [] \<or> hd r = NL)" by (auto simp: ls)
qed

lemma lineAtOffset_off:
  "i < length ls \<Longrightarrow> lineAtOffset_from n p ls (p + line_off ls i) = n + i"
proof (induction ls arbitrary: n p i)
  case (Cons l ls)
  show ?case
  proof (cases i)
    case (Suc j)
    then show ?thesis using Cons.IH [of j "Suc n" "p + length l + 1"] Cons.prems by (simp add: add.assoc)
  qed simp
qed simp

subsection \<open>The byte search is the scan for line windows\<close>

function ref_windows :: "string list \<Rightarrow> string list \<Rightarrow> nat \<Rightarrow> (nat \<times> nat) list" where
  "ref_windows ls ol i =
     (if ol = [] \<or> length ls < i + length ol then []
      else if take (length ol) (drop i ls) = ol then (i, i + length ol - 1) # ref_windows ls ol (i + length ol)
      else ref_windows ls ol (Suc i))"
  by pat_completeness auto
termination
  by (relation "measure (\<lambda>(ls, ol, i). Suc (length ls) - i)") (auto simp: neq_Nil_conv)

declare ref_windows.simps [simp del]

definition window_at :: "string list \<Rightarrow> string list \<Rightarrow> nat \<Rightarrow> bool" where
  "window_at ls ol i \<longleftrightarrow> i < length ls \<and> take (length ol) (drop i ls) = ol"

lemma window_at_len: "window_at ls ol i \<Longrightarrow> i + length ol \<le> length ls"
  unfolding window_at_def by (metis add.commute diff_le_self le_diff_conv2 length_drop length_take less_imp_le min.absorb_iff2 min.commute)

lemma ref_windows_skip:
  assumes "i \<le> i'" "\<And>j. i \<le> j \<Longrightarrow> j < i' \<Longrightarrow> \<not> window_at ls ol j" "ol \<noteq> []" "i' \<le> length ls"
  shows "ref_windows ls ol i = ref_windows ls ol i'"
  using assms
proof (induction "i' - i" arbitrary: i)
  case (Suc n)
  have "\<not> window_at ls ol i" using Suc.hyps(2) Suc.prems(2) by simp
  then have no: "take (length ol) (drop i ls) \<noteq> ol" using Suc.hyps(2) Suc.prems(4) by (simp add: window_at_def)
  have IH: "ref_windows ls ol (Suc i) = ref_windows ls ol i'"
    using Suc.hyps(1) [of "Suc i"] Suc.hyps(2) Suc.prems by simp
  show ?case
  proof (cases "length ls < i + length ol")
    case True
    then have "ref_windows ls ol (Suc i) = []" by (subst ref_windows.simps) simp
    then show ?thesis using IH True by (subst ref_windows.simps) simp
  next
    case False
    then show ?thesis using IH no Suc.prems(3) by (subst ref_windows.simps) simp
  qed
qed simp

lemma ref_windows_none:
  assumes "\<And>j. i \<le> j \<Longrightarrow> \<not> window_at ls ol j" "ol \<noteq> []"
  shows "ref_windows ls ol i = []"
proof (cases "i \<le> length ls")
  case True
  then have "ref_windows ls ol i = ref_windows ls ol (length ls)" using ref_windows_skip assms by blast
  then show ?thesis using assms(2) by (simp add: ref_windows.simps)
qed (simp add: ref_windows.simps)

text \<open>Occurrences of the pattern, aligned with line ends, are windows.\<close>

definition aligned :: "string \<Rightarrow> string \<Rightarrow> nat \<Rightarrow> bool" where
  "aligned nc no p \<longleftrightarrow> p \<le> length nc \<and> str_prefix no (drop p nc) \<and> (p = 0 \<or> nc ! (p - 1) = NL) \<and>
     (p + length no = length nc \<or> nc ! (p + length no) = NL)"

lemma aligned_iff:
  assumes "NL_free ls" "NL_free ol" "ls \<noteq> []" "ol \<noteq> []"
  shows "aligned (str_join [NL] ls) (str_join [NL] ol) p \<longleftrightarrow> (\<exists>i. p = line_off ls i \<and> window_at ls ol i)"
proof -
  let ?nc = "str_join [NL] ls" and ?no = "str_join [NL] ol"
  have main: "str_prefix ?no (drop (line_off ls i) ?nc) \<and>
      (line_off ls i + length ?no = length ?nc \<or> ?nc ! (line_off ls i + length ?no) = NL) \<longleftrightarrow> window_at ls ol i"
    if i: "i < length ls" for i
  proof -
    have d: "drop (line_off ls i) ?nc = str_join [NL] (drop i ls)" by (rule drop_join [OF i])
    have ce: "?nc ! (line_off ls i + n) = str_join [NL] (drop i ls) ! n" for n
      using d [symmetric] line_off_le [OF i] by (simp add: nth_drop)
    have le: "length ?nc = line_off ls i + length (str_join [NL] (drop i ls))"
      using d line_off_le [OF i] by (metis le_add_diff_inverse length_drop)
    have "(str_prefix ?no (str_join [NL] (drop i ls)) \<and>
        (length ?no = length (str_join [NL] (drop i ls)) \<or> str_join [NL] (drop i ls) ! length ?no = NL)) \<longleftrightarrow>
      (\<exists>r. str_join [NL] (drop i ls) = ?no @ r \<and> (r = [] \<or> hd r = NL))"
      by (auto simp: str_prefix_iff nth_append) (metis hd_conv_nth)+
    also have "\<dots> \<longleftrightarrow> take (length ol) (drop i ls) = ol"
      using assms i by (intro window_iff) (auto dest: in_set_dropD)
    finally show ?thesis using i by (simp add: d ce le window_at_def)
  qed
  show ?thesis
  proof
    assume a: "aligned ?nc ?no p"
    then obtain i where "i < length ls" "p = line_off ls i"
      using line_start_is_off [OF assms(1,3)] by (auto simp: aligned_def)
    then show "\<exists>i. p = line_off ls i \<and> window_at ls ol i" using a main by (auto simp: aligned_def)
  next
    assume "\<exists>i. p = line_off ls i \<and> window_at ls ol i"
    then obtain i where i: "p = line_off ls i" "window_at ls ol i" by blast
    then have il: "i < length ls" by (simp add: window_at_def)
    have "p = 0 \<or> ?nc ! (p - 1) = NL" using line_off_start(1) [of i ls] il i(1) by (cases i) auto
    then show "aligned ?nc ?no p" using main [OF il] i line_off_le [OF il] by (simp add: aligned_def)
  qed
qed

text \<open>The line the search position stands before.\<close>

definition next_line :: "string list \<Rightarrow> nat \<Rightarrow> nat \<Rightarrow> bool" where
  "next_line ls p i \<longleftrightarrow> i \<le> length ls \<and> (\<forall>j < length ls. j < i \<longleftrightarrow> line_off ls j < p)"

lemma next_line_ex: "\<exists>i. next_line ls p i"
proof -
  define i where "i = (LEAST i. i = length ls \<or> p \<le> line_off ls i)"
  have i: "i = length ls \<or> p \<le> line_off ls i" unfolding i_def by (rule LeastI [of _ "length ls"]) simp
  have low: "line_off ls j < p \<and> j \<noteq> length ls" if "j < i" for j
    using not_less_Least [of j "\<lambda>i. i = length ls \<or> p \<le> line_off ls i"] that by (auto simp: i_def)
  have le: "i \<le> length ls" unfolding i_def by (rule Least_le) simp
  moreover have "p \<le> line_off ls j" if "i \<le> j" "j < length ls" for j
    using i that line_off_mono [of i j ls] by (cases "i = j") auto
  ultimately show ?thesis using low by (intro exI [of _ i]) (force simp: next_line_def not_less [symmetric])
qed

lemma str_index_at:
  assumes "str_prefix sub (drop q s)" "p \<le> q" "q \<le> length s"
  shows "\<exists>i. str_index (drop p s) sub = Some i \<and> p + i \<le> q"
proof -
  obtain v where v: "drop q s = sub @ v" using assms(1) by (auto simp: str_prefix_iff)
  have "drop p s = take (q - p) (drop p s) @ drop q s" using assms(2) by (metis append_take_drop_id drop_drop le_add_diff_inverse2)
  then have "drop p s = take (q - p) (drop p s) @ sub @ v" by (simp only: v)
  then obtain i where "str_index (drop p s) sub = Some i" "i \<le> length (take (q - p) (drop p s))"
    using str_index_append by metis
  then show ?thesis using assms(2) by (intro exI [of _ i]) auto
qed

lemma match_loop_ref:
  assumes "NL_free ls" "NL_free ol" "ls \<noteq> []" "ol \<noteq> []" "str_join [NL] ol \<noteq> []" "next_line ls p i"
  shows "match_loop (str_join [NL] ls) (str_join [NL] ol) ls (length ol) p = ref_windows ls ol i"
  using assms(6)
proof (induction "Suc (length (str_join [NL] ls)) - p" arbitrary: p i rule: less_induct)
  case less
  let ?nc = "str_join [NL] ls" and ?no = "str_join [NL] ol"
  note AL = aligned_iff [OF assms(1-4)]
  have win_al: "aligned ?nc ?no (line_off ls j)" if "window_at ls ol j" for j using AL that by blast
  have nl: "j < i \<longleftrightarrow> line_off ls j < p" if "j < length ls" for j using less.prems that by (simp add: next_line_def)
  have ile: "i \<le> length ls" using less.prems by (simp add: next_line_def)
  show ?case
  proof (cases "p > length ?nc")
    case True
    have "\<not> window_at ls ol j" if "i \<le> j" for j
      using nl [of j] line_off_le [of j ls] True that by (auto simp: window_at_def)
    then show ?thesis using True assms(4) ref_windows_none by (simp add: match_loop.simps [of ?nc])
  next
    case False
    show ?thesis
    proof (cases "str_index (drop p ?nc) ?no")
      case None
      have "\<not> window_at ls ol j" if "i \<le> j" for j
      proof
        assume w: "window_at ls ol j"
        then have "p \<le> line_off ls j" using nl [of j] that by (auto simp: window_at_def)
        then show False using str_index_at [of ?no "line_off ls j" ?nc p] win_al [OF w] None by (auto simp: aligned_def)
      qed
      then show ?thesis using False None assms(4) ref_windows_none by (simp add: match_loop.simps [of ?nc])
    next
      case (Some idx)
      define a where "a = p + idx"
      have first: "p + idx \<le> q" if "str_prefix ?no (drop q ?nc)" "p \<le> q" "q \<le> length ?nc" for q
        using str_index_at [OF that] Some by auto
      have occ: "str_prefix ?no (drop a ?nc)" "a \<le> length ?nc" "a + length ?no \<le> length ?nc"
        using str_index_SomeD [OF Some] str_index_bound [OF Some] False
        by (auto simp: a_def str_prefix_iff) (metis add.commute append_eq_conv_conj drop_drop)
      have none: "\<not> window_at ls ol j" if "i \<le> j" "line_off ls j < a" for j
      proof
        assume w: "window_at ls ol j"
        have "p \<le> line_off ls j" using nl [of j] that(1) w by (auto simp: window_at_def)
        then show False using first [of "line_off ls j"] win_al [OF w] that(2) by (auto simp: aligned_def a_def)
      qed
      let ?al = "(a = 0 \<or> ?nc ! (a - 1) = NL) \<and> (a + length ?no = length ?nc \<or> ?nc ! (a + length ?no) = NL)"
      have unf: "match_loop ?nc ?no ls (length ol) p =
         (if \<not> ?al then match_loop ?nc ?no ls (length ol) (a + 1)
          else if lineAtOffset ls a + length ol - 1 \<ge> length ls then []
          else (lineAtOffset ls a, lineAtOffset ls a + length ol - 1) # match_loop ?nc ?no ls (length ol) (a + length ?no + 1))"
        using False Some assms(5) by (subst match_loop.simps) (auto simp: Let_def a_def)
      show ?thesis
      proof (cases ?al)
        case True
        then have "aligned ?nc ?no a" using occ by (simp add: aligned_def)
        then obtain j where j: "a = line_off ls j" "window_at ls ol j" using AL by blast
        have jl: "j + length ol \<le> length ls" "j < length ls" using window_at_len [OF j(2)] j(2) by (auto simp: window_at_def)
        have ij: "i \<le> j" using nl [OF jl(2)] j(1) by (auto simp: a_def not_less [symmetric])
        have at: "lineAtOffset ls a = j" using lineAtOffset_off [OF jl(2), of 0 0] by (simp add: lineAtOffset_def j(1))
        have off: "line_off (drop j ls) (length ol) = length ?no + 1"
        proof -
          have "line_off (drop j ls) (length ol) = line_off ol (length ol)"
            using j(2) by (simp add: window_at_def line_off_def line_pre_def)
          then show ?thesis using length_str_join [OF assms(4)] by simp
        qed
        have p': "a + length ?no + 1 = line_off ls (j + length ol)" using line_off_add [OF jl(1)] off j(1) by simp
        have "next_line ls (a + length ?no + 1) (j + length ol)"
          unfolding next_line_def p' using jl(1) line_off_mono by (auto simp: not_less) (metis leD le_eq_less_or_eq nat_neq_iff)
        then have "match_loop ?nc ?no ls (length ol) (a + length ?no + 1) = ref_windows ls ol (j + length ol)"
          using False by (intro less.hyps) (auto simp: a_def)
        moreover have "ref_windows ls ol i = ref_windows ls ol j"
          using none line_off_mono jl(2) by (intro ref_windows_skip [OF ij _ assms(4)]) (auto simp: j(1))
        moreover have "ref_windows ls ol j = (j, j + length ol - 1) # ref_windows ls ol (j + length ol)"
          using j(2) jl assms(4) by (subst ref_windows.simps) (simp add: window_at_def)
        moreover have "\<not> j + length ol - 1 \<ge> length ls" using jl assms(4) by (cases ol) auto
        ultimately show ?thesis using True by (simp add: unf at)
      next
        case mis: False
        obtain i' where i': "next_line ls (a + 1) i'" using next_line_ex by blast
        have nl': "j < i' \<longleftrightarrow> line_off ls j < a + 1" if "j < length ls" for j using i' that by (simp add: next_line_def)
        have i'l: "i' \<le> length ls" using i' by (simp add: next_line_def)
        have ii: "i \<le> i'"
        proof (rule ccontr)
          assume "\<not> i \<le> i'"
          then have "i' < length ls" "i' < i" using ile by auto
          then show False using nl [of i'] nl' [of i'] by (simp add: a_def)
        qed
        have "\<not> window_at ls ol j" if "i \<le> j" "j < i'" for j
        proof (cases "line_off ls j = a")
          case True
          then show ?thesis using win_al [of j] mis by (auto simp: aligned_def)
        next
          case False
          then show ?thesis using none [of j] that nl' [of j] i'l by auto
        qed
        then have "ref_windows ls ol i = ref_windows ls ol i'" by (intro ref_windows_skip [OF ii _ assms(4) i'l])
        moreover have "match_loop ?nc ?no ls (length ol) (a + 1) = ref_windows ls ol i'"
          using False i' by (intro less.hyps) (auto simp: a_def)
        ultimately show ?thesis using mis by (simp add: unf)
      qed
    qed
  qed
qed

lemma normalizeWS_NL_free: "NL \<notin> set (normalizeWS l)"
  using set_str_join [of NL "'' ''" "str_fields l"] str_fields_no_NL [of l] by (auto simp: normalizeWS_def)

lemma trim_space_Nil [simp]: "trim_space [] = []"
  by (simp add: trim_space_def trim_left_space.simps trim_right_space.simps space_suffix_len_def)

lemma matches_eq:
  "findNormalizedMatches content old =
     (if trim_space (joinNormalized (str_split old [NL])) = [] then []
      else ref_windows (map normalizeWS (str_split content [NL])) (map normalizeWS (str_split old [NL])) 0)"
proof (cases "trim_space (joinNormalized (str_split old [NL])) = []")
  case False
  let ?ls = "map normalizeWS (str_split content [NL])" and ?ol = "map normalizeWS (str_split old [NL])"
  have ne: "str_join [NL] ?ol \<noteq> []" using False by (auto simp: joinNormalized_def)
  have "next_line ?ls 0 0" by (auto simp: next_line_def)
  then have "match_loop (str_join [NL] ?ls) (str_join [NL] ?ol) ?ls (length ?ol) 0 = ref_windows ?ls ?ol 0"
    by (intro match_loop_ref) (use ne normalizeWS_NL_free in auto)
  then show ?thesis using False by (simp add: findNormalizedMatches_def joinNormalized_def Let_def)
qed (simp add: findNormalizedMatches_def Let_def)

text \<open>
  C16: The whitespace-normalised search is the scan for line windows: \<^verbatim>\<open>findNormalizedMatches\<close>, which
  searches the joined normalised text byte by byte and maps offsets back to lines, returns exactly
  what a left-to-right scan over the lines returns that reports each window of lines whose
  normalised lines equal the normalised pattern lines and goes on after it; a blank pattern has no
  match.
\<close>

theorem normalized_search_is_line_scan:
  "findNormalizedMatches content old =
     (if trim_space (joinNormalized (str_split old [NL])) = [] then []
      else ref_windows (map normalizeWS (str_split content [NL])) (map normalizeWS (str_split old [NL])) 0)"
  by (rule matches_eq)

lemma ref_windows_mem: "m \<in> set (ref_windows ls ol i) \<Longrightarrow> \<exists>j \<ge> i. window_at ls ol j \<and> m = (j, j + length ol - 1)"
proof (induction ls ol i rule: ref_windows.induct)
  case (1 ls ol i)
  show ?case
  proof (cases "ol = [] \<or> length ls < i + length ol")
    case True
    then show ?thesis using "1.prems" by (subst (asm) ref_windows.simps) simp
  next
    case False
    then show ?thesis
      using "1.prems" "1.IH" by (subst (asm) ref_windows.simps) (fastforce simp: window_at_def split: if_splits)
  qed
qed

subsection \<open>The text a match covers\<close>

lemma trim_NLs: "trim_space (replicate n NL) = []"
proof -
  have "trim_left_space (replicate n NL) = []"
    by (induction n) (simp_all add: trim_left_space.simps [of "[]"] trim_left_space.simps [of "NL # x" for x])
  then show ?thesis by (simp add: trim_space_def trim_right_space.simps space_suffix_len_def)
qed

lemma join_blanks: "\<forall>l\<in>set ls. l = [] \<Longrightarrow> \<exists>n. str_join [NL] ls = replicate n NL"
proof (induction ls rule: induct_list012)
  case (3 x y zs)
  then obtain n where "str_join [NL] (y # zs) = replicate n NL" by auto
  then show ?case using 3 by (intro exI [of _ "Suc n"]) simp
qed (auto intro: exI [of _ 0])

lemma pattern_not_blank:
  assumes "trim_space (joinNormalized ol) \<noteq> []"
  shows "\<exists>l\<in>set ol. normalizeWS l \<noteq> []"
proof (rule ccontr)
  assume "\<not> (\<exists>l\<in>set ol. normalizeWS l \<noteq> [])"
  then obtain n where "joinNormalized ol = replicate n NL"
    using join_blanks [of "map normalizeWS ol"] by (auto simp: joinNormalized_def)
  then show False using assms trim_NLs by simp
qed

lemma normalizeWS_Nil [simp]: "normalizeWS [] = []"
  by (simp add: normalizeWS_def str_fields_def)

lemma match_window:
  assumes "m \<in> set (findNormalizedMatches content old)"
  defines "ls \<equiv> str_split content [NL]" and "ol \<equiv> str_split old [NL]"
  shows "fst m + length ol \<le> length ls" "snd m + 1 = fst m + length ol"
    "map normalizeWS (take (length ol) (drop (fst m) ls)) = map normalizeWS ol"
    "\<exists>l \<in> set (take (length ol) (drop (fst m) ls)). l \<noteq> []"
proof -
  have nb: "trim_space (joinNormalized ol) \<noteq> []" and m: "m \<in> set (ref_windows (map normalizeWS ls) (map normalizeWS ol) 0)"
    using assms by (auto simp: matches_eq split: if_splits)
  obtain j where w: "window_at (map normalizeWS ls) (map normalizeWS ol) j" and mj: "m = (j, j + length ol - 1)"
    using ref_windows_mem [OF m] by auto
  have ne: "ol \<noteq> []" by (simp add: ol_def)
  then have l1: "length ol \<ge> 1" by (cases ol) auto
  show "fst m + length ol \<le> length ls" using window_at_len [OF w] mj by simp
  show "snd m + 1 = fst m + length ol" using mj l1 by simp
  show eq: "map normalizeWS (take (length ol) (drop (fst m) ls)) = map normalizeWS ol"
    using w mj by (simp add: window_at_def take_map drop_map)
  obtain l where "l \<in> set ol" "normalizeWS l \<noteq> []" using pattern_not_blank [OF nb] by blast
  then have "normalizeWS l \<in> set (map normalizeWS (take (length ol) (drop (fst m) ls)))" unfolding eq by simp
  then obtain x where "x \<in> set (take (length ol) (drop (fst m) ls))" "normalizeWS x = normalizeWS l" by auto
  then show "\<exists>l \<in> set (take (length ol) (drop (fst m) ls)). l \<noteq> []" using \<open>normalizeWS l \<noteq> []\<close> by (metis normalizeWS_Nil)
qed

lemma line_start_off: "line_start ls n = line_off ls n"
proof (induction ls arbitrary: n)
  case (Cons l ls)
  then show ?case by (cases n) (simp_all add: line_start_def)
qed (simp add: line_start_def line_off_def line_pre_def)

lemma length_join_sum: "ls \<noteq> [] \<Longrightarrow> length (str_join [NL] ls) = sum_list (map length ls) + (length ls - 1)"
proof (induction ls)
  case (Cons l ls)
  then show ?case by (cases ls) (simp_all add: str_join_Cons)
qed simp

lemma join_nonempty: "l \<in> set ls \<Longrightarrow> l \<noteq> [] \<Longrightarrow> str_join sep ls \<noteq> []"
  by (induction ls rule: induct_list012) auto

lemma join_prefix: "ws \<noteq> [] \<Longrightarrow> \<exists>r. str_join [NL] (ws @ rst) = str_join [NL] ws @ r"
proof (induction ws)
  case (Cons w ws)
  show ?case
  proof (cases "ws = []")
    case True
    then show ?thesis by (cases rst) (simp_all add: str_join_Cons)
  next
    case False
    then obtain r where "str_join [NL] (ws @ rst) = str_join [NL] ws @ r" using Cons.IH by blast
    then show ?thesis using False by (simp add: str_join_Cons)
  qed
qed simp

lemma covered_text:
  assumes "i + k \<le> length ls" "0 < k"
  shows "take (length (str_join [NL] (take k (drop i ls)))) (drop (line_off ls i) (str_join [NL] ls)) = str_join [NL] (take k (drop i ls))"
    "line_off ls i + length (str_join [NL] (take k (drop i ls))) \<le> length (str_join [NL] ls)"
proof -
  have i: "i < length ls" using assms by simp
  have "take k (drop i ls) \<noteq> []" using assms by simp
  then obtain r where r: "str_join [NL] (drop i ls) = str_join [NL] (take k (drop i ls)) @ r"
    using join_prefix [of "take k (drop i ls)" "drop k (drop i ls)"] unfolding append_take_drop_id by blast
  show "take (length (str_join [NL] (take k (drop i ls)))) (drop (line_off ls i) (str_join [NL] ls)) = str_join [NL] (take k (drop i ls))"
    unfolding drop_join [OF i] r by simp
  have "length (str_join [NL] ls) = line_off ls i + length (str_join [NL] (drop i ls))"
    by (subst str_join_at [OF i]) (simp add: line_off_def)
  then show "line_off ls i + length (str_join [NL] (take k (drop i ls))) \<le> length (str_join [NL] ls)" by (simp add: r)
qed

subsection \<open>One edit\<close>



subsection \<open>Several edits\<close>

text \<open>Where one edit goes: its span, its new text, and whether white space was ignored.\<close>

type_synonym target = "nat \<times> nat \<times> string"

definition edit_target :: "string \<Rightarrow> edit_operation \<Rightarrow> (target \<times> bool) option" where
  "edit_target content e =
     (case locateUniqueEdit content (eo_old e) of (start, fin, corrected, found) \<Rightarrow>
        if eo_old e = [] \<or> \<not> found \<or> fin < 0 then None
        else Some ((start, nat fin,
          if corrected then adaptIndentation (take (nat fin - start) (drop start content)) (eo_old e) (eo_new e)
                             (detectIndentUnit (str_split content [NL]))
          else eo_new e), corrected))"

definition targets_overlap :: "target \<Rightarrow> target \<Rightarrow> bool" where
  "targets_overlap s t \<longleftrightarrow> fst s < fst (snd t) \<and> fst t < fst (snd s)"

definition span_target :: "edit_span \<Rightarrow> target" where
  "span_target s = (es_start s, es_end s, es_new s)"

lemma spans_overlap_target: "spans_overlap s t \<longleftrightarrow> targets_overlap (span_target s) (span_target t)"
  by (auto simp: spans_overlap_def targets_overlap_def span_target_def)

lemma targets_overlap_sym: "targets_overlap s t \<longleftrightarrow> targets_overlap t s"
  by (auto simp: targets_overlap_def)

lemma next_span_iff:
  "next_span content i e spans = Inr (sp, c) \<longleftrightarrow>
     (\<exists>t. edit_target content e = Some (t, c) \<and> (\<forall>s\<in>set spans. \<not> targets_overlap t (span_target s)) \<and>
        sp = \<lparr>es_start = fst t, es_end = fst (snd t), es_index = i, es_new = snd (snd t)\<rparr>)"
proof -
  have ov: "first_some (\<lambda>s. if spans_overlap x s then Some (es_index s) else None) spans = None \<longleftrightarrow>
      (\<forall>s\<in>set spans. \<not> targets_overlap (span_target x) (span_target s))" for x
    by (auto simp: first_some_None spans_overlap_target)
  obtain a b k f where l: "locateUniqueEdit content (eo_old e) = (a, b, k, f)" by (cases "locateUniqueEdit content (eo_old e)") auto
  show ?thesis
  proof (cases "eo_old e = [] \<or> \<not> f \<or> b < 0")
    case True
    then show ?thesis by (auto simp: next_span_def edit_target_def l Let_def)
  next
    case False
    define nt where "nt = (if k then adaptIndentation (take (nat b - a) (drop a content)) (eo_old e) (eo_new e)
        (detectIndentUnit (str_split content [NL])) else eo_new e)"
    define x where "x = \<lparr>es_start = a, es_end = nat b, es_index = i, es_new = nt\<rparr>"
    have t: "edit_target content e = Some ((a, nat b, nt), k)" using False by (simp add: edit_target_def l nt_def)
    have xt: "span_target x = (a, nat b, nt)" by (simp add: x_def span_target_def)
    have ns: "next_span content i e spans =
       (case first_some (\<lambda>s. if spans_overlap x s then Some (es_index s) else None) spans of
          Some j \<Rightarrow> Inl (''edit '' @ itoa (i + 1) @ '': match overlaps with edit '' @ itoa (j + 1) @ ''; make the edits target distinct regions'')
        | None \<Rightarrow> Inr (x, k))"
      using False unfolding next_span_def Let_def l prod.case nt_def [symmetric] x_def [symmetric] by simp
    show ?thesis
    proof (cases "\<forall>s\<in>set spans. \<not> targets_overlap (a, nat b, nt) (span_target s)")
      case True
      then have "next_span content i e spans = Inr (x, k)" using ov [of x] by (simp add: ns xt)
      then show ?thesis using True by (auto simp: t x_def)
    next
      case no: False
      then obtain j where "first_some (\<lambda>s. if spans_overlap x s then Some (es_index s) else None) spans = Some j"
        using ov [of x] xt by (metis not_None_eq)
      then have "next_span content i e spans \<noteq> Inr (sp, c)" by (simp add: ns)
      then show ?thesis using no by (auto simp: t)
    qed
  qed
qed

text \<open>The loop succeeds exactly when every edit has a target and no two targets overlap.\<close>

definition placed :: "nat \<Rightarrow> (target \<times> bool) list \<Rightarrow> edit_span list" where
  "placed i ts = map2 (\<lambda>j t. \<lparr>es_start = fst (fst t), es_end = fst (snd (fst t)), es_index = j, es_new = snd (snd (fst t))\<rparr>)
     [i ..< i + length ts] ts"

lemma placed_Cons: "placed i (t # ts) = \<lparr>es_start = fst (fst t), es_end = fst (snd (fst t)), es_index = i, es_new = snd (snd (fst t))\<rparr> # placed (Suc i) ts"
proof -
  have "[i ..< i + length (t # ts)] = i # [Suc i ..< Suc i + length ts]"
    using upt_conv_Cons [of i "i + length (t # ts)"] by simp
  then show ?thesis by (simp add: placed_def del: upt_Suc)
qed

definition disjoint_targets :: "edit_span list \<Rightarrow> (target \<times> bool) list \<Rightarrow> bool" where
  "disjoint_targets spans ts \<longleftrightarrow> sorted_wrt (\<lambda>s t. \<not> targets_overlap s t) (map fst ts) \<and>
     (\<forall>t\<in>set ts. \<forall>s\<in>set spans. \<not> targets_overlap (fst t) (span_target s))"

lemma disjoint_targets_Cons:
  assumes "span_target sp = fst t"
  shows "disjoint_targets spans (t # ts) \<longleftrightarrow>
     (\<forall>s\<in>set spans. \<not> targets_overlap (fst t) (span_target s)) \<and> disjoint_targets (spans @ [sp]) ts"
  using assms by (auto simp: disjoint_targets_def targets_overlap_sym)

lemma collect_iff:
  "collect_spans content i es spans c = Inr (ss, c') \<longleftrightarrow>
     (\<exists>ts. map (edit_target content) es = map Some ts \<and> disjoint_targets spans ts \<and>
        ss = spans @ placed i ts \<and> c' = (c \<or> (\<exists>t\<in>set ts. snd t)))"
proof (induction es arbitrary: i spans c)
  case Nil
  then show ?case by (auto simp: disjoint_targets_def placed_def)
next
  case (Cons e es)
  show ?case
  proof (cases "edit_target content e")
    case None
    then have "collect_spans content i (e # es) spans c \<noteq> Inr (ss, c')"
      using next_span_iff [of content i e spans] by (auto split: sum.splits)
    then show ?thesis using None by (auto simp: Cons_eq_map_conv)
  next
    case (Some tk)
    define sp where "sp = \<lparr>es_start = fst (fst tk), es_end = fst (snd (fst tk)), es_index = i, es_new = snd (snd (fst tk))\<rparr>"
    have spt: "span_target sp = fst tk" by (simp add: sp_def span_target_def)
    show ?thesis
    proof (cases "\<forall>s\<in>set spans. \<not> targets_overlap (fst tk) (span_target s)")
      case False
      then have "collect_spans content i (e # es) spans c \<noteq> Inr (ss, c')"
        using next_span_iff [of content i e spans] Some by (auto split: sum.splits)
      then show ?thesis using Some disjoint_targets_Cons [OF spt] False by (auto simp: Cons_eq_map_conv)
    next
      case True
      then have n: "next_span content i e spans = Inr (sp, snd tk)"
        using next_span_iff [of content i e spans sp "snd tk"] Some by (auto simp: sp_def)
      have 1: "collect_spans content i (e # es) spans c = collect_spans content (Suc i) es (spans @ [sp]) (c \<or> snd tk)"
        by (simp add: n)
      have 2: "map (edit_target content) (e # es) = map Some ts' \<longleftrightarrow> (\<exists>ts. ts' = tk # ts \<and> map (edit_target content) es = map Some ts)" for ts'
        using Some by (cases ts') auto
      have 3: "disjoint_targets spans (tk # ts) \<longleftrightarrow> disjoint_targets (spans @ [sp]) ts" for ts
        using disjoint_targets_Cons [OF spt] True by blast
      have 4: "spans @ placed i (tk # ts) = (spans @ [sp]) @ placed (Suc i) ts" for ts
        by (simp add: placed_Cons sp_def)
      have 5: "(c \<or> (\<exists>t\<in>set (tk # ts). snd t)) = ((c \<or> snd tk) \<or> (\<exists>t\<in>set ts. snd t))" for ts by auto
      show ?thesis
        unfolding 1 Cons.IH 2
      proof (intro iffI; elim exE conjE)
        fix ts
        assume "map (edit_target content) es = map Some ts" "disjoint_targets (spans @ [sp]) ts"
          "ss = (spans @ [sp]) @ placed (Suc i) ts" "c' = ((c \<or> snd tk) \<or> (\<exists>t\<in>set ts. snd t))"
        then show "\<exists>ts'. (\<exists>ts. ts' = tk # ts \<and> map (edit_target content) es = map Some ts) \<and>
            disjoint_targets spans ts' \<and> ss = spans @ placed i ts' \<and> c' = (c \<or> (\<exists>t\<in>set ts'. snd t))"
          by (intro exI [of _ "tk # ts"]) (simp only: 3 4 5, simp)
      next
        fix ts' ts
        assume "ts' = tk # ts" "map (edit_target content) es = map Some ts" "disjoint_targets spans ts'"
          "ss = spans @ placed i ts'" "c' = (c \<or> (\<exists>t\<in>set ts'. snd t))"
        then show "\<exists>ts. map (edit_target content) es = map Some ts \<and> disjoint_targets (spans @ [sp]) ts \<and>
            ss = (spans @ [sp]) @ placed (Suc i) ts \<and> c' = ((c \<or> snd tk) \<or> (\<exists>t\<in>set ts. snd t))"
          using 3 [of ts] 4 [of ts] by (intro exI [of _ ts]) auto
      qed
    qed
  qed
qed

text \<open>A target is a non-empty span inside the content; it covers the old text, up to white space.\<close>

lemma str_count_one_index: "str_count s sub = 1 \<Longrightarrow> sub \<noteq> [] \<Longrightarrow> \<exists>i. str_index s sub = Some i"
  by (subst (asm) str_count.simps) (auto split: option.splits)

lemma target_span:
  assumes "edit_target content e = Some ((a, b, nt), k)"
  shows "a < b" "b \<le> length content"
    "if k then map normalizeWS (str_split (take (b - a) (drop a content)) [NL]) = map normalizeWS (str_split (eo_old e) [NL])
     else take (b - a) (drop a content) = eo_old e \<and> nt = eo_new e"
proof -
  obtain fin f where l: "locateUniqueEdit content (eo_old e) = (a, fin, k, f)" and ok: "eo_old e \<noteq> []" "f" "0 \<le> fin" "b = nat fin"
    and nt: "nt = (if k then adaptIndentation (take (nat fin - a) (drop a content)) (eo_old e) (eo_new e)
        (detectIndentUnit (str_split content [NL])) else eo_new e)"
    using assms by (auto simp: edit_target_def split: prod.splits if_splits)
  have "a < b \<and> b \<le> length content \<and>
    (if k then map normalizeWS (str_split (take (b - a) (drop a content)) [NL]) = map normalizeWS (str_split (eo_old e) [NL])
     else take (b - a) (drop a content) = eo_old e \<and> nt = eo_new e)"
  proof (cases "str_count content (eo_old e) = 0")
    case False
    then have one: "str_count content (eo_old e) = 1" using l ok by (auto simp: locateUniqueEdit_def Let_def split: if_splits)
    obtain i where i: "str_index content (eo_old e) = Some i" using str_count_one_index [OF one ok(1)] by blast
    then have "a = i" "b = i + length (eo_old e)" "\<not> k" using l one ok by (auto simp: locateUniqueEdit_def Let_def)
    then show ?thesis using str_index_bound [OF i] str_index_SomeD [OF i] ok(1) nt by auto
  next
    case True
    define ls where "ls = str_split content [NL]"
    define n where "n = length (str_split (eo_old e) [NL])"
    obtain m where m: "findNormalizedMatches content (eo_old e) = [m]"
      using l True ok by (cases "findNormalizedMatches content (eo_old e)"; cases "tl (findNormalizedMatches content (eo_old e))")
        (auto simp: locateUniqueEdit_def Let_def)
    note W = match_window [of m content "eo_old e", folded ls_def n_def]
    have w: "fst m + n \<le> length ls" "snd m + 1 = fst m + n" using W(1,2) m by auto
    have n1: "0 < n" by (simp add: n_def)
    define cov where "cov = take n (drop (fst m) ls)"
    have lc: "length cov = n" using w(1) by (simp add: cov_def)
    then have cn: "cov \<noteq> []" using n1 by auto
    have "a = line_off ls (fst m) \<and> fin = int (line_off ls (fst m) + length (str_join [NL] cov)) \<and> k"
    proof -
      have "snd m + 1 - fst m = n" "snd m - fst m = n - 1" using w(2) by auto
      then show ?thesis
        using l True m length_join_sum [OF cn] lc
        by (simp add: locateUniqueEdit_def Let_def ls_def [symmetric] cov_def [symmetric] line_start_off)
    qed
    then have ab: "a = line_off ls (fst m)" "b = a + length (str_join [NL] cov)" "k" using ok(4) by auto
    have cj: "str_join [NL] ls = content" by (simp add: ls_def str_join_split)
    note C = covered_text [OF w(1) n1, folded cov_def, unfolded cj]
    have covt: "take (b - a) (drop a content) = str_join [NL] cov" using C(1) ab by simp
    have "\<exists>l\<in>set cov. l \<noteq> []" using W(4) m by (simp add: cov_def)
    then have "str_join [NL] cov \<noteq> []" using join_nonempty by blast
    then have "a < b" using ab by (cases "str_join [NL] cov") auto
    moreover have "b \<le> length content" using C(2) ab by simp
    moreover have "set cov \<subseteq> set ls" by (auto simp: cov_def dest: in_set_takeD in_set_dropD)
    then have "NL_free cov" using str_split_char_free [of content NL] by (auto simp: ls_def)
    then have "str_split (str_join [NL] cov) [NL] = cov" by (rule str_split_join_char [OF cn])
    then have "map normalizeWS (str_split (take (b - a) (drop a content)) [NL]) = map normalizeWS (str_split (eo_old e) [NL])"
      using W(3) m by (simp add: covt cov_def)
    ultimately show ?thesis using ab(3) by simp
  qed
  then show "a < b" "b \<le> length content"
    "if k then map normalizeWS (str_split (take (b - a) (drop a content)) [NL]) = map normalizeWS (str_split (eo_old e) [NL])
     else take (b - a) (drop a content) = eo_old e \<and> nt = eo_new e" by auto
qed

lemma placed_facts:
  "map span_target (placed i ts) = map fst ts" "map es_index (placed i ts) = [i ..< i + length ts]"
  "length (placed i ts) = length ts"
proof (induction ts arbitrary: i)
  case (Cons t ts)
  { case 1 show ?case using Cons by (simp add: placed_Cons span_target_def) }
  { case 2
    have "[i ..< i + length (t # ts)] = i # [Suc i ..< Suc i + length ts]"
      using upt_conv_Cons [of i "i + length (t # ts)"] by simp
    then show ?case using Cons by (simp add: placed_Cons del: upt_Suc) }
  { case 3 show ?case using Cons by (simp add: placed_Cons) }
qed (simp_all add: placed_def)

lemma sorted_wrt_symmetric:
  assumes "\<And>t. t \<in> set xs \<Longrightarrow> ov t t" "\<And>s t. ov s t \<longleftrightarrow> ov t s"
  shows "sorted_wrt (\<lambda>s t. \<not> ov s t) xs \<longleftrightarrow> distinct xs \<and> (\<forall>s\<in>set xs. \<forall>t\<in>set xs. s \<noteq> t \<longrightarrow> \<not> ov s t)"
  using assms(1)
proof (induction xs)
  case (Cons x xs)
  have 1: "(\<forall>y\<in>set xs. \<not> ov x y) \<longleftrightarrow> x \<notin> set xs \<and> (\<forall>y\<in>set xs. x \<noteq> y \<longrightarrow> \<not> ov x y \<and> \<not> ov y x)"
  proof -
    have "ov x x" using Cons.prems by simp
    then show ?thesis using assms(2) [of _ x] by metis
  qed
  have 2: "sorted_wrt (\<lambda>s t. \<not> ov s t) xs \<longleftrightarrow> distinct xs \<and> (\<forall>s\<in>set xs. \<forall>t\<in>set xs. s \<noteq> t \<longrightarrow> \<not> ov s t)"
    using Cons.prems by (intro Cons.IH) simp
  have "sorted_wrt (\<lambda>s t. \<not> ov s t) (x # xs) \<longleftrightarrow> (\<forall>y\<in>set xs. \<not> ov x y) \<and> sorted_wrt (\<lambda>s t. \<not> ov s t) xs" by simp
  also have "\<dots> \<longleftrightarrow> distinct (x # xs) \<and> (\<forall>s\<in>set (x # xs). \<forall>t\<in>set (x # xs). s \<noteq> t \<longrightarrow> \<not> ov s t)"
    unfolding 1 2 by auto
  finally show ?case .
qed simp

lemma sorted_wrt_weaken:
  "sorted_wrt P xs \<Longrightarrow> distinct xs \<Longrightarrow> (\<And>s t. s \<in> set xs \<Longrightarrow> t \<in> set xs \<Longrightarrow> s \<noteq> t \<Longrightarrow> P s t \<Longrightarrow> Q s t) \<Longrightarrow> sorted_wrt Q xs"
  by (induction xs) auto

lemma splice_cong: "map span_target ss = map span_target ss' \<Longrightarrow> splice_spans content p ss = splice_spans content p ss'"
proof (induction ss arbitrary: ss' p)
  case (Cons s ss)
  show ?case
  proof (cases ss')
    case Nil
    then show ?thesis using Cons.prems by simp
  next
    case (Cons t ts)
    then have "span_target s = span_target t" "map span_target ss = map span_target ts" using Cons.prems by simp_all
    moreover have "splice_spans content (es_end s) ss = splice_spans content (es_end s) ts"
      using Cons.IH \<open>map span_target ss = map span_target ts\<close> by blast
    ultimately show ?thesis using Cons by (simp add: span_target_def)
  qed
qed simp

lemma splice_restore:
  assumes "sorted_wrt (\<lambda>s t. es_end s \<le> es_start t) ss" "\<forall>s\<in>set ss. es_start s < es_end s \<and> es_end s \<le> length content"
    "\<forall>s\<in>set ss. p \<le> es_start s"
  shows "splice_spans content p (map (\<lambda>s. s\<lparr>es_new := take (es_end s - es_start s) (drop (es_start s) content)\<rparr>) ss) = drop p content"
  using assms
proof (induction ss arbitrary: p)
  case (Cons s ss)
  have IH: "splice_spans content (es_end s) (map (\<lambda>s. s\<lparr>es_new := take (es_end s - es_start s) (drop (es_start s) content)\<rparr>) ss) = drop (es_end s) content"
    using Cons.prems by (intro Cons.IH) auto
  have "drop p content = take (es_start s - p) (drop p content) @ drop (es_start s) content"
    using Cons.prems(3) by (metis append_take_drop_id drop_drop le_add_diff_inverse2 list.set_intros(1))
  moreover have "drop (es_start s) content = take (es_end s - es_start s) (drop (es_start s) content) @ drop (es_end s) content"
    using Cons.prems(2) by (metis append_take_drop_id drop_drop le_add_diff_inverse2 less_imp_le list.set_intros(1))
  ultimately show ?case using IH by simp
qed simp

lemma sort_targets:
  assumes "inj_on fst (set (map fst ts))"
  shows "map span_target (sort_key es_start (placed i ts)) = sort_key fst (map fst ts)"
proof -
  have "sort_key fst (map fst ts) = map span_target (sort_key es_start (placed i ts))"
  proof (rule sort_key_inj_key_eq [OF _ assms])
    have "mset (map span_target (sort_key es_start (placed i ts))) = mset (map span_target (placed i ts))" by simp
    then show "mset (map fst ts) = mset (map span_target (sort_key es_start (placed i ts)))" by (simp only: placed_facts)
    have "fst \<circ> span_target = es_start" by (auto simp: span_target_def)
    then show "sorted (map fst (map span_target (sort_key es_start (placed i ts))))" by simp
  qed
  then show ?thesis by simp
qed

text \<open>The targets of a successful multi-edit: pairwise disjoint, so their starts tell them apart.\<close>

lemma multi_edit_targets:
  assumes "multi_edit_text content edits = Inr (r, ws)"
  obtains ts where "map (edit_target content) edits = map Some ts" and "ws = (\<exists>t\<in>set ts. snd t)"
    and "r = splice_spans content 0 (sort_key es_start (placed 0 ts))" and "r \<noteq> content" and "distinct (map fst ts)"
    and "\<And>a b. a \<in> set (map fst ts) \<Longrightarrow> b \<in> set (map fst ts) \<Longrightarrow> a \<noteq> b \<Longrightarrow> \<not> targets_overlap a b"
    and "\<And>a. a \<in> set (map fst ts) \<Longrightarrow> targets_overlap a a" and "inj_on fst (set (map fst ts))"
proof -
  obtain ts where t: "map (edit_target content) edits = map Some ts" "disjoint_targets [] ts" "ws = (\<exists>t\<in>set ts. snd t)"
    and r: "r = splice_spans content 0 (sort_key es_start (placed 0 ts))" "r \<noteq> content"
    using assms by (auto simp: multi_edit_text_def collect_iff Let_def split: sum.splits if_splits)
  have len: "length ts = length edits" using t(1) by (metis length_map)
  have at: "edit_target content (edits ! j) = Some (ts ! j)" if "j < length edits" for j
    using t(1) that len by (metis nth_map)
  have mem: "\<exists>e. edit_target content e = Some x" if "x \<in> set ts" for x
    using that t(1) by (metis (no_types, lifting) image_iff list.set_map)
  have lt: "fst a < fst (snd a)" if a: "a \<in> set (map fst ts)" for a
  proof -
    obtain x where "x \<in> set ts" "a = fst x" using a by auto
    then show ?thesis using mem target_span(1) by (metis prod.collapse)
  qed
  then have ov: "targets_overlap a a" if "a \<in> set (map fst ts)" for a using that by (auto simp: targets_overlap_def)
  have sw: "distinct (map fst ts) \<and> (\<forall>a\<in>set (map fst ts). \<forall>b\<in>set (map fst ts). a \<noteq> b \<longrightarrow> \<not> targets_overlap a b)"
    using t(2) by (intro iffD1 [OF sorted_wrt_symmetric] ov targets_overlap_sym) (simp_all add: disjoint_targets_def)
  then have dis: "distinct (map fst ts)" "\<And>a b. a \<in> set (map fst ts) \<Longrightarrow> b \<in> set (map fst ts) \<Longrightarrow> a \<noteq> b \<Longrightarrow> \<not> targets_overlap a b"
    by blast+
  have inj: "inj_on fst (set (map fst ts))"
  proof (rule inj_onI)
    fix a b assume "a \<in> set (map fst ts)" "b \<in> set (map fst ts)" "fst a = fst b"
    then show "a = b" using dis(2) [of a b] lt by (force simp: targets_overlap_def)
  qed
  show thesis by (rule that [OF t(1,3) r dis ov inj])
qed

lemma edit_target_at:
  assumes "map (edit_target content) edits = map Some ts"
  shows "length ts = length edits" and "j < length edits \<Longrightarrow> edit_target content (edits ! j) = Some (ts ! j)"
proof -
  show len: "length ts = length edits" using assms by (metis length_map)
  show "edit_target content (edits ! j) = Some (ts ! j)" if "j < length edits" using assms that len by (metis nth_map)
qed

lemma multi_edit_spans:
  assumes "multi_edit_text content edits = Inr (r, ws)"
  shows "\<exists>ss. mset (map es_index ss) = mset [0 ..< length edits] \<and>
       sorted_wrt (\<lambda>s t. es_end s \<le> es_start t) ss \<and>
       (\<forall>s\<in>set ss. es_start s < es_end s \<and> es_end s \<le> length content \<and>
          (let e = edits ! es_index s; old = take (es_end s - es_start s) (drop (es_start s) content)
           in old = eo_old e \<and> es_new s = eo_new e \<or>
              ws \<and> map normalizeWS (str_split old [NL]) = map normalizeWS (str_split (eo_old e) [NL]))) \<and>
       r = splice_spans content 0 ss \<and>
       content = splice_spans content 0 (map (\<lambda>s. s\<lparr>es_new := take (es_end s - es_start s) (drop (es_start s) content)\<rparr>) ss)"
proof -
  obtain ts where t: "map (edit_target content) edits = map Some ts" "ws = (\<exists>t\<in>set ts. snd t)"
    and r: "r = splice_spans content 0 (sort_key es_start (placed 0 ts))" and d: "distinct (map fst ts)"
    and dis: "\<And>a b. a \<in> set (map fst ts) \<Longrightarrow> b \<in> set (map fst ts) \<Longrightarrow> a \<noteq> b \<Longrightarrow> \<not> targets_overlap a b"
    using multi_edit_targets [OF assms] by metis
  note len = edit_target_at(1) [OF t(1)] and at = edit_target_at(2) [OF t(1)]
  define ss where "ss = sort_key es_start (placed 0 ts)"
  have sset: "set ss = set (placed 0 ts)" by (simp add: ss_def)
  have s_at: "s = placed 0 ts ! es_index s \<and> es_index s < length edits \<and> span_target s = fst (ts ! es_index s)" if s: "s \<in> set ss" for s
  proof -
    obtain j where j: "j < length ts" "s = placed 0 ts ! j" using s by (auto simp: sset in_set_conv_nth placed_facts)
    have "es_index s = j" using j placed_facts(2,3) [of 0 ts] by (metis add.left_neutral nth_map nth_upt)
    moreover have "span_target s = fst (ts ! j)" using j placed_facts(1,3) [of 0 ts] by (metis nth_map)
    ultimately show ?thesis using j len by simp
  qed
  have s_mem: "span_target s \<in> set (map fst ts)" if "s \<in> set ss" for s
    using s_at [OF that] len by simp
  have inj_s: "s = s'" if "s \<in> set ss" "s' \<in> set ss" "span_target s = span_target s'" for s s'
  proof -
    have "fst (ts ! es_index s) = fst (ts ! es_index s')" using s_at that by metis
    moreover have "es_index s < length (map fst ts)" "es_index s' < length (map fst ts)"
      using s_at [OF that(1)] s_at [OF that(2)] len by simp_all
    ultimately have "es_index s = es_index s'" using nth_eq_iff_index_eq [OF d] by simp
    then show ?thesis using s_at that by metis
  qed
  have bound: "es_start s < es_end s \<and> es_end s \<le> length content \<and>
      (let e = edits ! es_index s; old = take (es_end s - es_start s) (drop (es_start s) content)
       in old = eo_old e \<and> es_new s = eo_new e \<or>
          ws \<and> map normalizeWS (str_split old [NL]) = map normalizeWS (str_split (eo_old e) [NL]))" if "s \<in> set ss" for s
  proof -
    define k where "k = snd (ts ! es_index s)"
    have k: "ts ! es_index s = (span_target s, k)" using s_at [OF that] by (simp add: k_def prod_eq_iff)
    have e: "edit_target content (edits ! es_index s) = Some ((es_start s, es_end s, es_new s), k)"
      using at s_at [OF that] k by (simp add: span_target_def)
    have "k \<Longrightarrow> ws" using t(2) k s_at [OF that] len by (metis nth_mem snd_conv)
    then show ?thesis using target_span [OF e] by (cases k) (simp_all add: Let_def)
  qed
  have "distinct (map span_target (placed 0 ts))" using d by (simp only: placed_facts)
  then have dss: "distinct ss" by (simp add: ss_def distinct_map)
  have sss: "sorted_wrt (\<lambda>s t. es_start s \<le> es_start t) ss"
    using sorted_sort_key [of es_start "placed 0 ts"] by (simp add: ss_def sorted_wrt_map)
  have nxt: "es_end s \<le> es_start s'" if "s \<in> set ss" "s' \<in> set ss" "s \<noteq> s'" "es_start s \<le> es_start s'" for s s'
    using dis [OF s_mem [OF that(1)] s_mem [OF that(2)]] inj_s [OF that(1,2)] that(3,4) bound [OF that(1)] bound [OF that(2)]
    by (fastforce simp: targets_overlap_def span_target_def)
  have srt: "sorted_wrt (\<lambda>s t. es_end s \<le> es_start t) ss" by (rule sorted_wrt_weaken [OF sss dss nxt])
  have "mset (map es_index ss) = mset [0 ..< length edits]"
    using placed_facts(2) [of 0 ts] len by (metis add.left_neutral mset_map mset_sort ss_def)
  moreover have "content = splice_spans content 0 (map (\<lambda>s. s\<lparr>es_new := take (es_end s - es_start s) (drop (es_start s) content)\<rparr>) ss)"
    using splice_restore [OF srt, of content 0] bound by simp
  ultimately show ?thesis using srt bound r unfolding ss_def [symmetric] by (intro exI [of _ ss]) blast
qed

lemma multi_edit_any_order:
  assumes "multi_edit_text content edits = Inr (r, ws)" and perm: "mset edits' = mset edits"
  shows "multi_edit_text content edits' = Inr (r, ws)"
proof -
  obtain ts where t: "map (edit_target content) edits = map Some ts" "ws = (\<exists>t\<in>set ts. snd t)"
    and r: "r = splice_spans content 0 (sort_key es_start (placed 0 ts))" "r \<noteq> content" and d: "distinct (map fst ts)"
    and dis: "\<And>a b. a \<in> set (map fst ts) \<Longrightarrow> b \<in> set (map fst ts) \<Longrightarrow> a \<noteq> b \<Longrightarrow> \<not> targets_overlap a b"
    and ov: "\<And>a. a \<in> set (map fst ts) \<Longrightarrow> targets_overlap a a" and inj: "inj_on fst (set (map fst ts))"
    using multi_edit_targets [OF assms(1)] by metis
  note len = edit_target_at(1) [OF t(1)] and at = edit_target_at(2) [OF t(1)]
  define ts' where "ts' = map (the \<circ> edit_target content) edits'"
  have set': "set edits' = set edits" using perm by (metis set_mset_mset)
  have all: "edit_target content e \<noteq> None" if "e \<in> set edits" for e
    using at that by (metis in_set_conv_nth option.distinct(1))
  then have t': "map (edit_target content) edits' = map Some ts'" by (auto simp: ts'_def set')
  have ts: "ts = map (the \<circ> edit_target content) edits"
    using at len by (intro nth_equalityI) (simp_all add: o_def)
  have m: "mset ts' = mset ts" unfolding ts ts'_def mset_map perm ..
  then have mf: "mset (map fst ts') = mset (map fst ts)" by simp
  then have sf: "set (map fst ts') = set (map fst ts)" by (metis set_mset_mset)
  have "distinct (map fst ts')" using d mf by (metis mset_eq_imp_distinct_iff)
  then have "disjoint_targets [] ts'"
    using sorted_wrt_symmetric [of "map fst ts'" targets_overlap, OF _ targets_overlap_sym] ov dis
    by (simp add: disjoint_targets_def sf del: set_map)
  moreover have "ws = (\<exists>t\<in>set ts'. snd t)" using t(2) m by (metis set_mset_mset)
  ultimately have "collect_spans content 0 edits' [] False = Inr (placed 0 ts', ws)"
    using t' by (auto simp: collect_iff)
  moreover have "splice_spans content 0 (sort_key es_start (placed 0 ts')) = r"
    unfolding r(1)
  proof (rule splice_cong)
    have "sort_key fst (map fst ts') = sort_key fst (map fst ts)"
      using inj sf mf by (intro sort_key_inj_key_eq) simp_all
    then show "map span_target (sort_key es_start (placed 0 ts')) = map span_target (sort_key es_start (placed 0 ts))"
      using sort_targets [of ts' 0] sort_targets [OF inj, of 0] inj sf by simp
  qed
  ultimately show ?thesis using r(2) by (simp add: multi_edit_text_def)
qed

text \<open>
  C17: A multi-edit is one simultaneous replacement. If it succeeds, every edit gets one non-empty
  span of the content, the spans are disjoint, each covers the edit's old text (up to white space
  only where the correction is reported), the result is the content with each span replaced by its
  edit's new text and everything between the spans kept (putting the covered texts back gives the
  content again), and any other order of the same edits succeeds with the same result.
\<close>

theorem multi_edit_simultaneous:
  assumes "multi_edit_text content edits = Inr (r, ws)"
  shows "(\<exists>ss. mset (map es_index ss) = mset [0 ..< length edits] \<and>
       sorted_wrt (\<lambda>s t. es_end s \<le> es_start t) ss \<and>
       (\<forall>s\<in>set ss. es_start s < es_end s \<and> es_end s \<le> length content \<and>
          (let e = edits ! es_index s; old = take (es_end s - es_start s) (drop (es_start s) content)
           in old = eo_old e \<and> es_new s = eo_new e \<or>
              ws \<and> map normalizeWS (str_split old [NL]) = map normalizeWS (str_split (eo_old e) [NL]))) \<and>
       r = splice_spans content 0 ss \<and>
       content = splice_spans content 0 (map (\<lambda>s. s\<lparr>es_new := take (es_end s - es_start s) (drop (es_start s) content)\<rparr>) ss)) \<and>
     (\<forall>edits'. mset edits' = mset edits \<longrightarrow> multi_edit_text content edits' = Inr (r, ws))"
  using multi_edit_spans [OF assms] multi_edit_any_order [OF assms] by blast

theorem multi_edit_simultaneous_witness:
  "multi_edit_text ''ab cd ef'' [\<lparr>eo_old = ''ef'', eo_new = ''x''\<rparr>, \<lparr>eo_old = ''ab'', eo_new = ''yz''\<rparr>] = Inr (''yz cd x'', False) \<and>
   multi_edit_text ''ab cd ef'' [\<lparr>eo_old = ''ab'', eo_new = ''yz''\<rparr>, \<lparr>eo_old = ''ef'', eo_new = ''x''\<rparr>] = Inr (''yz cd x'', False)"
proof -
  let ?e = "\<lparr>eo_old = ''ab'', eo_new = ''yz''\<rparr>" and ?f = "\<lparr>eo_old = ''ef'', eo_new = ''x''\<rparr>"
  have f: "multi_edit_text ''ab cd ef'' [?f, ?e] = Inr (''yz cd x'', False)" by code_simp
  have "mset [?e, ?f] = mset [?f, ?e]" by simp
  then show ?thesis using multi_edit_simultaneous [OF f] f by blast
qed

subsection \<open>Where the code departs from what it says\<close>

text \<open>
  \<^verbatim>\<open>applyMultiEdit\<close> promises that every old text matches exactly once, but \<^verbatim>\<open>locateUniqueEdit\<close> counts
  with \<^verbatim>\<open>strings.Count\<close>, which skips overlapping occurrences: a text that occurs twice is accepted,
  and the single edit form rejects the same edit.
\<close>

lemma overlapping_match_accepted:
  "\<not> occurs_once ''aXaXa'' ''aXa'' \<and>
   multi_edit_text ''aXaXa'' [\<lparr>eo_old = ''aXa'', eo_new = ''b''\<rparr>] = Inr (''bXa'', False) \<and>
   findAndReplace ''aXaXa'' ''aXa'' ''b'' False = Inl ambiguous_msg"
proof -
  have i: "str_index ''aXaXa'' ''aXa'' = Some 0" "str_last_index ''aXaXa'' ''aXa'' = Some 2" by code_simp+
  have "\<not> occurs_once ''aXaXa'' ''aXa''" using str_index_eq_last_iff [OF i(1)] i(2) by simp
  moreover have "multi_edit_text ''aXaXa'' [\<lparr>eo_old = ''aXa'', eo_new = ''b''\<rparr>] = Inr (''bXa'', False)" by code_simp
  moreover have "findAndReplace ''aXaXa'' ''aXa'' ''b'' False = Inl ambiguous_msg" by code_simp
  ultimately show ?thesis by blast
qed

end
