(* ===== verification/Pubsub.thy ===== *)
theory Pubsub
  imports Csync
begin

section \<open>The event broker: \<^verbatim>\<open>internal/pubsub\<close>\<close>

text \<open>
  One \<^verbatim>\<open>Broker\<close>: its live subscriber channels with the events they buffer, its counters and
  its shutdown flag. A channel is a number; \<open>br_subs\<close> gives the buffer of every channel in
  \<^verbatim>\<open>b.subs\<close>, \<open>br_closed\<close> lists the channels closed so far (closing one twice is a panic in Go,
  so the invariant keeps that list distinct), \<open>br_watchers\<close> the subscriptions whose goroutine
  still waits on its context. \<^verbatim>\<open>Shutdown\<close> closes \<^verbatim>\<open>done\<close> without the lock and then takes it, so it
  is two steps, \<open>Shutdown_mark\<close> and \<open>Shutdown_drain\<close>, with other steps possible in between.
  The consumers of the channels are outside the broker: \<open>Receive\<close> is a receive on one channel.
\<close>

record 'a event =
  ev_type :: string
  ev_payload :: 'a

definition CreatedEvent :: string where "CreatedEvent = ''created''"
definition UpdatedEvent :: string where "UpdatedEvent = ''updated''"
definition DeletedEvent :: string where "DeletedEvent = ''deleted''"

record 'a broker =
  br_subs :: "(nat, 'a event list) gomap"
  br_done :: bool
  br_draining :: bool
  br_sub_count :: int
  br_chan_size :: nat
  br_timeout :: int
  br_drop_count :: go_uint64
  br_must_drop_count :: go_uint64
  br_closed :: "nat list"
  br_watchers :: "nat list"
  br_next :: nat

definition bufferSize :: nat where
  "bufferSize = 4096"

text \<open>50 ms in nanoseconds.\<close>

definition defaultMustDeliverTimeout :: int where
  "defaultMustDeliverTimeout = 50 * 1000000"

definition NewBrokerWithOptions :: "nat \<Rightarrow> 'a broker" where
  "NewBrokerWithOptions channelBufferSize =
     \<lparr>br_subs = [], br_done = False, br_draining = False, br_sub_count = 0,
      br_chan_size = channelBufferSize, br_timeout = defaultMustDeliverTimeout,
      br_drop_count = 0, br_must_drop_count = 0, br_closed = [], br_watchers = [], br_next = 0\<rparr>"

definition NewBroker :: "'a broker" where
  "NewBroker = NewBrokerWithOptions bufferSize"

definition SetMustDeliverTimeout :: "'a broker \<Rightarrow> int \<Rightarrow> 'a broker" where
  "SetMustDeliverTimeout b d =
     (if d \<le> 0 then b\<lparr>br_timeout := defaultMustDeliverTimeout\<rparr> else b\<lparr>br_timeout := d\<rparr>)"

subsection \<open>Shutdown and subscription\<close>

text \<open>\<^verbatim>\<open>close(b.done)\<close>: \<open>None\<close> is the panic of closing a closed channel.\<close>

definition Shutdown_close :: "'a broker \<Rightarrow> 'a broker option" where
  "Shutdown_close b = (if br_done b then None else Some (b\<lparr>br_done := True, br_draining := True\<rparr>))"

definition Shutdown_mark :: "'a broker \<Rightarrow> 'a broker" where
  "Shutdown_mark b =
     (if br_done b then b else case Shutdown_close b of None \<Rightarrow> b | Some b' \<Rightarrow> b')"

definition Shutdown_drain :: "'a broker \<Rightarrow> 'a broker" where
  "Shutdown_drain b =
     b\<lparr>br_closed := br_closed b @ map fst (br_subs b), br_subs := [], br_sub_count := 0,
       br_draining := False\<rparr>"

definition Shutdown :: "'a broker \<Rightarrow> 'a broker" where
  "Shutdown b = (if br_done b then b else Shutdown_drain (Shutdown_mark b))"

definition Subscribe :: "'a broker \<Rightarrow> nat \<times> 'a broker" where
  "Subscribe b =
     (let ch = br_next b; b = b\<lparr>br_next := Suc ch\<rparr> in
      if br_done b then (ch, b\<lparr>br_closed := br_closed b @ [ch]\<rparr>)
      else (ch, b\<lparr>br_subs := AList.update ch [] (br_subs b), br_sub_count := br_sub_count b + 1,
                  br_watchers := ch # br_watchers b\<rparr>))"

text \<open>The goroutine of \<^verbatim>\<open>Subscribe\<close>, run once when the subscriber's context is done.\<close>

definition Unsubscribe :: "'a broker \<Rightarrow> nat \<Rightarrow> 'a broker" where
  "Unsubscribe b sub =
     (let b = b\<lparr>br_watchers := removeAll sub (br_watchers b)\<rparr> in
      if br_done b then b
      else b\<lparr>br_subs := AList.delete sub (br_subs b), br_closed := br_closed b @ [sub],
             br_sub_count := br_sub_count b - 1\<rparr>)"

definition GetSubscriberCount :: "'a broker \<Rightarrow> int" where
  "GetSubscriberCount b = br_sub_count b"

definition DropCount :: "'a broker \<Rightarrow> go_uint64" where
  "DropCount b = br_drop_count b"

definition MustDeliverDropCount :: "'a broker \<Rightarrow> go_uint64" where
  "MustDeliverDropCount b = br_must_drop_count b"

definition Receive :: "'a broker \<Rightarrow> nat \<Rightarrow> 'a broker" where
  "Receive b ch =
     (case map_of (br_subs b) ch of
        Some (e # es) \<Rightarrow> b\<lparr>br_subs := AList.update ch es (br_subs b)\<rparr>
      | _ \<Rightarrow> b)"

subsection \<open>Publishing\<close>

fun publish_loop :: "nat \<Rightarrow> 'a event \<Rightarrow> (nat, 'a event list) gomap \<Rightarrow> go_uint64 \<Rightarrow>
    (nat, 'a event list) gomap \<times> go_uint64" where
  "publish_loop cap ev [] drops = ([], drops)"
| "publish_loop cap ev ((sub, buf) # subs) drops =
     (if length buf < cap
      then (let (rest, d) = publish_loop cap ev subs drops in ((sub, buf @ [ev]) # rest, d))
      else (let (rest, d) = publish_loop cap ev subs (drops + 1) in ((sub, buf) # rest, d)))"

definition Publish :: "'a broker \<Rightarrow> string \<Rightarrow> 'a \<Rightarrow> 'a broker" where
  "Publish b t payload =
     (if br_done b then b
      else let (subs, drops) =
             publish_loop (br_chan_size b) \<lparr>ev_type = t, ev_payload = payload\<rparr> (br_subs b) (br_drop_count b)
           in b\<lparr>br_subs := subs, br_drop_count := drops\<rparr>)"

text \<open>
  The slow path of \<^verbatim>\<open>PublishMustDeliver\<close> waits on three channels at once. The environment says
  what happens first for a subscriber whose buffer is full: its consumer takes \<open>n\<close> events, and
  the send goes through if that made room and otherwise runs into the timeout; the timer fires;
  or the caller's context ends.
\<close>

datatype slow_path = Consumer nat | Timer | CtxDone

fun must_loop :: "nat \<Rightarrow> (nat \<Rightarrow> slow_path) \<Rightarrow> 'a event \<Rightarrow> (nat, 'a event list) gomap \<Rightarrow>
    go_uint64 \<Rightarrow> (nat, 'a event list) gomap \<times> go_uint64" where
  "must_loop cap env ev [] drops = ([], drops)"
| "must_loop cap env ev ((sub, buf) # subs) drops =
     (if length buf < cap
      then (let (rest, d) = must_loop cap env ev subs drops in ((sub, buf @ [ev]) # rest, d))
      else (case env sub of
              Consumer n \<Rightarrow>
                (if length (drop n buf) < cap
                 then (let (rest, d) = must_loop cap env ev subs drops
                       in ((sub, drop n buf @ [ev]) # rest, d))
                 else (let (rest, d) = must_loop cap env ev subs (drops + 1)
                       in ((sub, buf) # rest, d)))
            | Timer \<Rightarrow>
                (let (rest, d) = must_loop cap env ev subs (drops + 1) in ((sub, buf) # rest, d))
            | CtxDone \<Rightarrow> ((sub, buf) # subs, drops)))"

definition PublishMustDeliver :: "'a broker \<Rightarrow> (nat \<Rightarrow> slow_path) \<Rightarrow> string \<Rightarrow> 'a \<Rightarrow> 'a broker" where
  "PublishMustDeliver b env t payload =
     (if br_done b then b
      else let (subs, drops) =
             must_loop (br_chan_size b) env \<lparr>ev_type = t, ev_payload = payload\<rparr> (br_subs b)
               (br_must_drop_count b)
           in b\<lparr>br_subs := subs, br_must_drop_count := drops\<rparr>)"

lemma publish_loop_spec:
  "publish_loop cap ev subs drops =
     (map (\<lambda>(s, buf). (s, if length buf < cap then buf @ [ev] else buf)) subs,
      drops + of_nat (length (filter (\<lambda>(s, buf). \<not> length buf < cap) subs)))"
  by (induction cap ev subs drops rule: publish_loop.induct) auto

lemma must_loop_keys: "map fst (fst (must_loop cap env ev subs drops)) = map fst subs"
  by (induction subs arbitrary: drops) (auto split: slow_path.splits prod.splits simp: split_beta)

lemma must_loop_bounded:
  assumes "\<forall>x\<in>set subs. length (snd x) \<le> cap"
  shows "\<forall>x\<in>set (fst (must_loop cap env ev subs drops)). length (snd x) \<le> cap"
  using assms
proof (induction subs arbitrary: drops)
  case (Cons x subs)
  then show ?case by (cases x; cases "env (fst x)") (simp_all add: split_beta Let_def)
qed simp

lemma publish_keys [simp]: "map fst (br_subs (Publish b t p)) = map fst (br_subs b)"
  by (auto simp: Publish_def publish_loop_spec comp_def split_beta)

lemma publish_must_keys [simp]:
  "map fst (br_subs (PublishMustDeliver b env t p)) = map fst (br_subs b)"
  using must_loop_keys [of "br_chan_size b" env _ "br_subs b"]
  by (auto simp: PublishMustDeliver_def split_beta)

lemma publish_fields [simp]:
  "br_done (Publish b t p) = br_done b" "br_sub_count (Publish b t p) = br_sub_count b"
  "br_chan_size (Publish b t p) = br_chan_size b" "br_closed (Publish b t p) = br_closed b"
  "br_watchers (Publish b t p) = br_watchers b" "br_next (Publish b t p) = br_next b"
  "br_draining (Publish b t p) = br_draining b"
  by (auto simp: Publish_def split_beta)

lemma publish_must_fields [simp]:
  "br_done (PublishMustDeliver b env t p) = br_done b"
  "br_sub_count (PublishMustDeliver b env t p) = br_sub_count b"
  "br_chan_size (PublishMustDeliver b env t p) = br_chan_size b"
  "br_closed (PublishMustDeliver b env t p) = br_closed b"
  "br_watchers (PublishMustDeliver b env t p) = br_watchers b"
  "br_next (PublishMustDeliver b env t p) = br_next b"
  "br_draining (PublishMustDeliver b env t p) = br_draining b"
  by (auto simp: PublishMustDeliver_def split_beta)

subsection \<open>Reachable brokers\<close>

inductive broker_step :: "'a broker \<Rightarrow> 'a broker \<Rightarrow> bool" where
  st_subscribe: "broker_step b (snd (Subscribe b))"
| st_ctx_done: "ch \<in> set (br_watchers b) \<Longrightarrow> broker_step b (Unsubscribe b ch)"
| st_mark: "broker_step b (Shutdown_mark b)"
| st_drain: "br_draining b \<Longrightarrow> broker_step b (Shutdown_drain b)"
| st_publish: "broker_step b (Publish b t p)"
| st_must: "broker_step b (PublishMustDeliver b env t p)"
| st_receive: "broker_step b (Receive b ch)"
| st_timeout: "broker_step b (SetMustDeliverTimeout b d)"

definition broker_start :: "'a broker \<Rightarrow> bool" where
  "broker_start b \<longleftrightarrow> (\<exists>n. b = NewBrokerWithOptions n)"

text \<open>
  The count agrees with the map, no buffer exceeds the channel capacity, no channel was closed
  twice, no live channel is closed, every live channel of a running broker has exactly one
  waiting goroutine, and a broker that has finished its shutdown has no channel left.
\<close>

definition broker_inv :: "'a broker \<Rightarrow> bool" where
  "broker_inv b \<longleftrightarrow>
     gomap_ok (br_subs b) \<and>
     br_sub_count b = int (length (br_subs b)) \<and>
     (\<forall>x\<in>set (br_subs b). length (snd x) \<le> br_chan_size b) \<and>
     distinct (br_closed b) \<and>
     gomap_keys (br_subs b) \<inter> set (br_closed b) = {} \<and>
     (\<forall>ch\<in>gomap_keys (br_subs b) \<union> set (br_closed b) \<union> set (br_watchers b). ch < br_next b) \<and>
     distinct (br_watchers b) \<and>
     (\<not> br_done b \<longrightarrow> set (br_watchers b) = gomap_keys (br_subs b)) \<and>
     (br_done b \<and> \<not> br_draining b \<longrightarrow> br_subs b = []) \<and>
     (br_draining b \<longrightarrow> br_done b)"

lemma broker_inv_Subscribe: "broker_inv b \<Longrightarrow> broker_inv (snd (Subscribe b))"
proof -
  assume inv: "broker_inv b"
  have fresh: "map_of (br_subs b) (br_next b) = None"
    using inv by (auto simp: broker_inv_def map_of_eq_None_iff)
  show ?thesis
    using inv
    by (auto simp: broker_inv_def Subscribe_def Let_def gomap_set_fresh [OF fresh] less_Suc_eq image_iff)
qed

lemma broker_inv_Unsubscribe:
  assumes inv: "broker_inv b" and ch: "ch \<in> set (br_watchers b)"
  shows "broker_inv (Unsubscribe b ch)"
proof (cases "br_done b")
  case True
  then show ?thesis using inv by (auto simp: broker_inv_def Unsubscribe_def Let_def distinct_removeAll)
next
  case False
  then have live: "map_of (br_subs b) ch \<noteq> None"
    using inv ch by (auto simp: broker_inv_def map_of_eq_None_iff image_iff)
  then have "br_subs b \<noteq> []" by auto
  then show ?thesis
    using inv ch live False gomap_del_subset [of ch "br_subs b"] gomap_keys_del [of ch "br_subs b"]
    by (auto simp: broker_inv_def Unsubscribe_def Let_def gomap_length_del distinct_removeAll
        of_nat_diff Suc_le_eq)
qed

lemma broker_inv_Shutdown_mark: "broker_inv b \<Longrightarrow> broker_inv (Shutdown_mark b)"
  by (auto simp: broker_inv_def Shutdown_mark_def Shutdown_close_def)

lemma broker_inv_Shutdown_drain: "broker_inv b \<Longrightarrow> br_draining b \<Longrightarrow> broker_inv (Shutdown_drain b)"
  by (auto simp: broker_inv_def Shutdown_drain_def)

lemma broker_inv_Receive: "broker_inv b \<Longrightarrow> broker_inv (Receive b ch)"
proof (cases "map_of (br_subs b) ch")
  case (Some buf)
  assume inv: "broker_inv b"
  show ?thesis
  proof (cases buf)
    case Nil
    then show ?thesis using inv Some by (simp add: Receive_def)
  next
    case (Cons e es)
    have len: "length es \<le> br_chan_size b"
      using inv Some Cons by (auto simp: broker_inv_def dest!: map_of_SomeD)
    have mem: "ch \<in> gomap_keys (br_subs b)"
      using Some by (auto dest!: map_of_SomeD intro: rev_image_eqI)
    then show ?thesis
      using inv Some Cons len gomap_keys_set [of ch es "br_subs b"]
      by (auto simp: broker_inv_def Receive_def gomap_length_set insert_absorb dest!: gomap_set_mem)
  qed
qed (simp add: Receive_def)

lemma broker_inv_keys_cong:
  assumes "map fst (br_subs b') = map fst (br_subs b)"
    and "\<forall>x\<in>set (br_subs b'). length (snd x) \<le> br_chan_size b"
    and "br_done b' = br_done b" "br_draining b' = br_draining b" "br_sub_count b' = br_sub_count b"
      "br_chan_size b' = br_chan_size b" "br_closed b' = br_closed b"
      "br_watchers b' = br_watchers b" "br_next b' = br_next b"
    and inv: "broker_inv b"
  shows "broker_inv b'"
proof -
  have "gomap_keys (br_subs b') = gomap_keys (br_subs b)" "length (br_subs b') = length (br_subs b)"
    using assms(1) by (metis list.set_map, metis length_map)
  then show ?thesis using assms inv by (auto simp: broker_inv_def)
qed

lemma broker_inv_Publish:
  assumes inv: "broker_inv b"
  shows "broker_inv (Publish b t p)"
proof (rule broker_inv_keys_cong [OF _ _ _ _ _ _ _ _ _ inv])
  show "\<forall>x\<in>set (br_subs (Publish b t p)). length (snd x) \<le> br_chan_size b"
    using inv by (auto simp: broker_inv_def Publish_def publish_loop_spec split_beta)
qed simp_all

lemma broker_inv_PublishMustDeliver:
  assumes inv: "broker_inv b"
  shows "broker_inv (PublishMustDeliver b env t p)"
proof (rule broker_inv_keys_cong [OF _ _ _ _ _ _ _ _ _ inv])
  have "\<forall>x\<in>set (br_subs b). length (snd x) \<le> br_chan_size b"
    using inv by (simp add: broker_inv_def)
  from must_loop_bounded [OF this]
  show "\<forall>x\<in>set (br_subs (PublishMustDeliver b env t p)). length (snd x) \<le> br_chan_size b"
    using inv by (auto simp: PublishMustDeliver_def split_beta broker_inv_def)
qed simp_all

lemma broker_inv_start: "broker_start b \<Longrightarrow> broker_inv b"
  by (auto simp: broker_start_def broker_inv_def NewBrokerWithOptions_def)

lemma broker_inv_step: "broker_step b b' \<Longrightarrow> broker_inv b \<Longrightarrow> broker_inv b'"
proof (induction rule: broker_step.induct)
  case (st_timeout b d)
  then show ?case by (auto simp: SetMustDeliverTimeout_def broker_inv_def)
qed (simp_all add: broker_inv_Subscribe broker_inv_Unsubscribe broker_inv_Shutdown_mark
    broker_inv_Shutdown_drain broker_inv_Publish broker_inv_PublishMustDeliver broker_inv_Receive)

text \<open>Channel numbers are handed out once: the next one only grows.\<close>

interpretation broker: monotone_system broker_start broker_step broker_inv br_next
proof unfold_locales
  fix b b' :: "'a broker"
  assume "broker_step b b'"
  then show "br_next b \<le> br_next b'"
    by cases (auto simp: Subscribe_def Let_def Unsubscribe_def Shutdown_mark_def Shutdown_close_def
        Shutdown_drain_def Receive_def SetMustDeliverTimeout_def split: option.splits list.splits)
qed (auto intro: broker_inv_start broker_inv_step)

text \<open>In every state a broker can reach, whatever the interleaving of subscriptions, contexts that
  end, publishes, receives and the two halves of \<^verbatim>\<open>Shutdown\<close>, the subscriber count is the number of
  live channels, no channel has been closed twice (which would panic), no live channel is closed
  (sending on it would panic), and no buffer exceeds the channel capacity.\<close>

theorem broker_reachable_safe:
  assumes "broker_start b" and "broker_step\<^sup>*\<^sup>* b b'"
  shows "GetSubscriberCount b' = int (length (br_subs b')) \<and> distinct (br_closed b') \<and>
    gomap_keys (br_subs b') \<inter> set (br_closed b') = {} \<and>
    (\<forall>x\<in>set (br_subs b'). length (snd x) \<le> br_chan_size b')"
  using broker.reachable_inv [OF assms] by (simp add: broker_inv_def GetSubscriberCount_def)

text \<open>A broker that is shut down while a subscriber's goroutine has yet to run.\<close>

definition demo_broker :: "nat broker" where
  "demo_broker =
     Unsubscribe (Shutdown_drain (Shutdown_mark (Publish (Publish (snd (Subscribe (NewBrokerWithOptions 1)))
       CreatedEvent 5) UpdatedEvent 6))) 0"

lemma demo_broker_reachable: "broker_step\<^sup>*\<^sup>* (NewBrokerWithOptions 1) demo_broker"
proof -
  let ?b1 = "snd (Subscribe (NewBrokerWithOptions 1 :: nat broker))"
  let ?b3 = "Publish (Publish ?b1 CreatedEvent 5) UpdatedEvent 6"
  let ?b5 = "Shutdown_drain (Shutdown_mark ?b3)"
  have s1: "broker_step\<^sup>*\<^sup>* (NewBrokerWithOptions 1) ?b3"
    by (meson rtranclp.rtrancl_refl rtranclp.rtrancl_into_rtrancl st_subscribe st_publish)
  have "br_draining (Shutdown_mark ?b3)"
    by (simp add: Shutdown_mark_def Shutdown_close_def Subscribe_def NewBrokerWithOptions_def Let_def)
  with s1 have s2: "broker_step\<^sup>*\<^sup>* (NewBrokerWithOptions 1) ?b5"
    by (meson rtranclp.rtrancl_into_rtrancl st_mark st_drain)
  have "0 \<in> set (br_watchers ?b5)"
    by (simp add: Shutdown_mark_def Shutdown_close_def Shutdown_drain_def Subscribe_def
        NewBrokerWithOptions_def Let_def)
  with s2 show ?thesis
    unfolding demo_broker_def by (meson rtranclp.rtrancl_into_rtrancl st_ctx_done)
qed

theorem broker_reachable_safe_witness:
  "GetSubscriberCount demo_broker = 0 \<and> br_closed demo_broker = [0] \<and> DropCount demo_broker = 1 \<and>
   distinct (br_closed demo_broker)"
proof -
  have "broker_start (NewBrokerWithOptions 1 :: nat broker)" by (auto simp: broker_start_def)
  from broker_reachable_safe [OF this demo_broker_reachable]
  show ?thesis
    by (simp add: demo_broker_def Unsubscribe_def Shutdown_mark_def Shutdown_close_def DropCount_def
        Shutdown_drain_def Subscribe_def Publish_def publish_loop_spec NewBrokerWithOptions_def Let_def)
qed

subsection \<open>What a burst of events delivers\<close>

fun publish_all :: "'a broker \<Rightarrow> 'a event list \<Rightarrow> 'a broker" where
  "publish_all b [] = b"
| "publish_all b (e # es) = publish_all (Publish b (ev_type e) (ev_payload e)) es"

definition bufs_ok :: "'a broker \<Rightarrow> bool" where
  "bufs_ok b \<longleftrightarrow> (\<forall>x\<in>set (br_subs b). length (snd x) \<le> br_chan_size b)"

lemma Publish_subs:
  "\<not> br_done b \<Longrightarrow> br_subs (Publish b (ev_type e) (ev_payload e)) =
     map (\<lambda>(s, buf). (s, if length buf < br_chan_size b then buf @ [e] else buf)) (br_subs b)"
  by (simp add: Publish_def publish_loop_spec split_beta)

lemma Publish_drops:
  "\<not> br_done b \<Longrightarrow> br_drop_count (Publish b t p) =
     br_drop_count b + of_nat (\<Sum>(s, buf)\<leftarrow>br_subs b. if length buf < br_chan_size b then 0 else 1)"
proof -
  have "length (filter (\<lambda>(s, buf). \<not> length buf < n) m) = (\<Sum>(s, buf)\<leftarrow>m. if length buf < n then 0 else 1)"
    for n and m :: "(nat \<times> 'a event list) list"
    by (induction m) auto
  then show "\<not> br_done b \<Longrightarrow> ?thesis" by (simp add: Publish_def publish_loop_spec split_beta)
qed

lemma publish_all_done [simp]: "br_done (publish_all b es) = br_done b"
  by (induction es arbitrary: b) auto

lemma publish_all_subs:
  assumes "\<not> br_done b" and "bufs_ok b"
  shows "br_subs (publish_all b es) =
    map (\<lambda>(s, buf). (s, take (br_chan_size b) (buf @ es))) (br_subs b)"
  using assms
proof (induction es arbitrary: b)
  case Nil
  then show ?case by (auto simp: bufs_ok_def split_beta intro!: map_idI [symmetric])
next
  case (Cons e es)
  let ?b = "Publish b (ev_type e) (ev_payload e)"
  have "bufs_ok ?b" using Cons.prems by (auto simp: bufs_ok_def Publish_subs)
  with Cons show ?case
    by (auto simp: Publish_subs bufs_ok_def take_Cons' dest!: bspec)
qed

lemma publish_all_drops:
  assumes "\<not> br_done b" and "bufs_ok b"
  shows "br_drop_count (publish_all b es) =
    br_drop_count b + of_nat (\<Sum>(s, buf)\<leftarrow>br_subs b. length buf + length es - br_chan_size b)"
  using assms
proof (induction es arbitrary: b)
  case Nil
  then have zero: "(\<Sum>(s, buf)\<leftarrow>br_subs b. length buf + length ([] :: 'a event list) - br_chan_size b) = 0"
    by (auto simp: bufs_ok_def)
  show ?case unfolding zero by simp
next
  case (Cons e es)
  let ?b = "Publish b (ev_type e) (ev_payload e)"
  have ok: "bufs_ok ?b" using Cons.prems by (auto simp: bufs_ok_def Publish_subs)
  have "(\<Sum>(s, buf)\<leftarrow>m. if length buf < n then 0 else 1) +
      (\<Sum>(s, buf)\<leftarrow>map (\<lambda>(s, buf). (s, if length buf < n then buf @ [e] else buf)) m. length buf + length es - n)
      = (\<Sum>(s, buf)\<leftarrow>m. length buf + length (e # es) - n)"
    if "\<forall>x\<in>set m. length (snd x) \<le> n" for n and m :: "(nat \<times> 'a event list) list"
    using that by (induction m) auto
  from this [of "br_subs b" "br_chan_size b"] Cons ok show ?case
    by (simp add: Publish_subs Publish_drops bufs_ok_def flip: of_nat_add)
qed

text \<open>\<^verbatim>\<open>Publish\<close> is lossy only when a buffer is full, keeps order and counts every loss. After a
  burst of events with no receive in between, every subscriber of a running broker holds what it
  had followed by the burst, cut at the channel capacity: the oldest events survive, in order and
  without duplicates. The drop counter has grown by exactly the number of events cut off, over all
  subscribers (modulo the wrap-around of the 64-bit counter).\<close>

theorem publish_burst:
  assumes "\<not> br_done b" and "bufs_ok b"
  shows "br_subs (publish_all b es) =
      map (\<lambda>(s, buf). (s, take (br_chan_size b) (buf @ es))) (br_subs b) \<and>
    DropCount (publish_all b es) =
      DropCount b + of_nat (\<Sum>(s, buf)\<leftarrow>br_subs b. length buf + length es - br_chan_size b)"
  using publish_all_subs [OF assms] publish_all_drops [OF assms] by (simp add: DropCount_def)

theorem publish_burst_witness:
  "DropCount (publish_all (snd (Subscribe (NewBrokerWithOptions 2)))
     [\<lparr>ev_type = UpdatedEvent, ev_payload = n\<rparr>. n \<leftarrow> [1::nat, 2, 3]]) = 1"
  using publish_burst [of "snd (Subscribe (NewBrokerWithOptions 2 :: nat broker))"
      "[\<lparr>ev_type = UpdatedEvent, ev_payload = n\<rparr>. n \<leftarrow> [1::nat, 2, 3]]"]
  by (simp add: Subscribe_def NewBrokerWithOptions_def bufs_ok_def DropCount_def Let_def)

subsection \<open>What a must-deliver publish guarantees\<close>

text \<open>The outcome for one subscriber: the new buffer, or \<open>None\<close> for a counted loss.\<close>

definition must_outcome :: "nat \<Rightarrow> (nat \<Rightarrow> slow_path) \<Rightarrow> 'a event \<Rightarrow> nat \<Rightarrow> 'a event list \<Rightarrow> 'a event list option" where
  "must_outcome cap env ev s buf =
     (if length buf < cap then Some (buf @ [ev])
      else case env s of
        Consumer n \<Rightarrow> if length (drop n buf) < cap then Some (drop n buf @ [ev]) else None
      | _ \<Rightarrow> None)"

lemma must_loop_spec:
  assumes "\<forall>x\<in>set subs. env (fst x) \<noteq> CtxDone"
  shows "must_loop cap env ev subs drops =
    (map (\<lambda>(s, buf). (s, case must_outcome cap env ev s buf of Some buf' \<Rightarrow> buf' | None \<Rightarrow> buf)) subs,
     drops + of_nat (length (filter (\<lambda>(s, buf). must_outcome cap env ev s buf = None) subs)))"
  using assms
proof (induction subs arbitrary: drops)
  case (Cons x subs)
  then show ?case
    by (cases x; cases "env (fst x)") (simp_all add: must_outcome_def Let_def)
qed simp

lemma must_outcome_last: "must_outcome cap env ev s buf = Some buf' \<Longrightarrow> last buf' = ev"
  by (auto simp: must_outcome_def split: if_splits slow_path.splits)

text \<open>\<^verbatim>\<open>PublishMustDeliver\<close> accounts for every subscriber. While the caller's context lives, each
  subscriber ends up either with the event as the last one of its buffer, having lost none of the
  events it had not consumed, or unchanged and counted in the must-deliver drop counter; the
  latter only if its buffer was full and its consumer did not make room before the timeout. The
  lossy counter of \<^verbatim>\<open>Publish\<close> is not touched.\<close>

theorem must_deliver_accounts:
  fixes b :: "'a broker" and env :: "nat \<Rightarrow> slow_path" and t :: string and p :: 'a
  assumes "\<not> br_done b" and "\<forall>x\<in>set (br_subs b). env (fst x) \<noteq> CtxDone"
  defines "out \<equiv> must_outcome (br_chan_size b) env \<lparr>ev_type = t, ev_payload = p\<rparr>"
  shows "br_subs (PublishMustDeliver b env t p) =
      map (\<lambda>(s, buf). (s, case out s buf of Some buf' \<Rightarrow> buf' | None \<Rightarrow> buf)) (br_subs b) \<and>
    MustDeliverDropCount (PublishMustDeliver b env t p) =
      MustDeliverDropCount b + of_nat (length (filter (\<lambda>(s, buf). out s buf = None) (br_subs b))) \<and>
    DropCount (PublishMustDeliver b env t p) = DropCount b"
  using assms(1,2)
  by (simp add: PublishMustDeliver_def must_loop_spec out_def MustDeliverDropCount_def DropCount_def)

theorem must_deliver_accounts_witness:
  "MustDeliverDropCount (PublishMustDeliver
     (NewBrokerWithOptions 1\<lparr>br_subs := [(0, [\<lparr>ev_type = CreatedEvent, ev_payload = 1::nat\<rparr>]), (1, [])]\<rparr>)
     (\<lambda>_. Timer) UpdatedEvent 2) = 1"
  using must_deliver_accounts [of
      "NewBrokerWithOptions 1\<lparr>br_subs := [(0, [\<lparr>ev_type = CreatedEvent, ev_payload = 1::nat\<rparr>]), (1, [])]\<rparr>"
      "\<lambda>_. Timer" UpdatedEvent 2]
  by (simp add: NewBrokerWithOptions_def must_outcome_def MustDeliverDropCount_def)

text \<open>When the caller's context ends in the slow path, the subscribers not yet visited keep their
  buffers: the call returns without a drop count for them.\<close>

lemma must_loop_ctx_done:
  "length buf \<ge> cap \<Longrightarrow> env s = CtxDone \<Longrightarrow>
     must_loop cap env ev ((s, buf) # subs) drops = ((s, buf) # subs, drops)"
  by simp

text \<open>Two callers of \<^verbatim>\<open>Shutdown\<close> that both find \<^verbatim>\<open>done\<close> open before either closes it: the second
  close is a panic, as the check and the close are not under the lock.\<close>

lemma shutdown_close_twice:
  "\<not> br_done b \<Longrightarrow> Option.bind (Shutdown_close b) Shutdown_close = None"
  by (simp add: Shutdown_close_def)

end
