(* ===== verification/Permission.thy ===== *)
theory Permission
  imports Pubsub Go_Strings
begin

section \<open>Tool permissions: \<^verbatim>\<open>internal/permission/permission.go\<close>\<close>

text \<open>
  \<^verbatim>\<open>permissionService\<close> as a state. A goroutine inside \<^verbatim>\<open>Request\<close> holds \<^verbatim>\<open>requestMu\<close> from the first
  notification to its return, so at most one request waits: \<open>ps_waiter\<close> is that goroutine with its
  request and its response channel, and the mutex is held exactly while it is there. A response
  channel is a number; \<open>ps_chans\<close> is what it buffers (capacity 1). \<^verbatim>\<open>Request\<close> is split where it
  blocks: \<open>Request_begin\<close> runs up to the \<^verbatim>\<open>select\<close>, \<open>Request_finish\<close> and \<open>Request_cancel\<close> are its two
  arms with the deferred clean-up. The published events are logs; delivery is the broker's.
  \<^verbatim>\<open>os.Stat\<close> and \<^verbatim>\<open>uuid.New\<close> are arguments, \<open>Params\<close> is opaque.

  \<open>ps_used\<close> and \<open>ps_resolved\<close> only record history (the request IDs drawn, the resolutions that
  won with their outcome); no operation reads them.
\<close>

record create_permission_request =
  cr_session :: string
  cr_tool_call :: string
  cr_tool :: string
  cr_description :: string
  cr_action :: string
  cr_params :: string
  cr_path :: string

record permission_notification =
  pn_tool_call :: string
  pn_granted :: bool
  pn_denied :: bool

record permission_request =
  pr_id :: string
  pr_session :: string
  pr_tool_call :: string
  pr_tool :: string
  pr_description :: string
  pr_action :: string
  pr_params :: string
  pr_path :: string

record permission_key =
  pk_session :: string
  pk_tool :: string
  pk_action :: string
  pk_path :: string

record permission_service =
  ps_working_dir :: string
  ps_session_perms :: "(permission_key, bool) smap"
  ps_pending :: "(string, nat) smap"
  ps_auto :: "(string, bool) gomap"
  ps_skip :: bool
  ps_allowed :: "string list"
  ps_active :: "permission_request option"
  ps_waiter :: "(permission_request \<times> nat) option"
  ps_chans :: "nat \<Rightarrow> bool list"
  ps_next_chan :: nat
  ps_notes :: "permission_notification list"
  ps_requests :: "permission_request list"
  ps_used :: "string list"
  ps_resolved :: "(string \<times> bool) list"

datatype stat_result = StatError | StatDir | StatFile

datatype request_outcome = Granted | Waiting permission_request nat

definition NewPermissionService :: "string \<Rightarrow> bool \<Rightarrow> string list \<Rightarrow> permission_service" where
  "NewPermissionService workingDir skip allowedTools =
     \<lparr>ps_working_dir = workingDir, ps_session_perms = NewMap, ps_pending = NewMap, ps_auto = [],
      ps_skip = skip, ps_allowed = allowedTools, ps_active = None, ps_waiter = None,
      ps_chans = (\<lambda>_. []), ps_next_chan = 0, ps_notes = [], ps_requests = [],
      ps_used = [], ps_resolved = []\<rparr>"

definition permission_key_of :: "permission_request \<Rightarrow> permission_key" where
  "permission_key_of p =
     \<lparr>pk_session = pr_session p, pk_tool = pr_tool p, pk_action = pr_action p, pk_path = pr_path p\<rparr>"

definition publish_note :: "permission_service \<Rightarrow> string \<Rightarrow> bool \<Rightarrow> bool \<Rightarrow> permission_service" where
  "publish_note s toolCallID granted denied =
     s\<lparr>ps_notes := ps_notes s @
        [\<lparr>pn_tool_call = toolCallID, pn_granted = granted, pn_denied = denied\<rparr>]\<rparr>"

subsection \<open>Resolving a request\<close>

text \<open>
  \<^verbatim>\<open>resolve\<close>; the outer \<open>None\<close> is a send that would block on a full response channel.
\<close>

definition resolve :: "permission_service \<Rightarrow> permission_request \<Rightarrow> bool \<Rightarrow> bool \<Rightarrow>
    (permission_service \<Rightarrow> permission_service) option \<Rightarrow> (bool \<times> permission_service) option" where
  "resolve s permission granted denied onResolve =
     (case Map_Take (ps_pending s) (pr_id permission) of
        (None, pending) \<Rightarrow> Some (False, s\<lparr>ps_pending := pending\<rparr>)
      | (Some respCh, pending) \<Rightarrow>
          (let s = s\<lparr>ps_pending := pending\<rparr>;
               s = (case onResolve of Some f \<Rightarrow> f s | None \<Rightarrow> s);
               s = publish_note s (pr_tool_call permission) granted denied
           in if length (ps_chans s respCh) \<ge> 1 then None
              else
                let s = s\<lparr>ps_chans := (ps_chans s)(respCh := ps_chans s respCh @ [granted]),
                          ps_resolved := ps_resolved s @ [(pr_id permission, granted)]\<rparr>
                in Some (True,
                     case ps_active s of
                       Some a \<Rightarrow> if pr_id a = pr_id permission then s\<lparr>ps_active := None\<rparr> else s
                     | None \<Rightarrow> s)))"

definition record_session_permission :: "permission_request \<Rightarrow> permission_service \<Rightarrow> permission_service" where
  "record_session_permission permission s =
     s\<lparr>ps_session_perms := Map_Set (ps_session_perms s) (permission_key_of permission) True\<rparr>"

definition GrantPersistent :: "permission_service \<Rightarrow> permission_request \<Rightarrow> (bool \<times> permission_service) option" where
  "GrantPersistent s permission =
     resolve s permission True False (Some (record_session_permission permission))"

definition Grant :: "permission_service \<Rightarrow> permission_request \<Rightarrow> (bool \<times> permission_service) option" where
  "Grant s permission = resolve s permission True False None"

definition Deny :: "permission_service \<Rightarrow> permission_request \<Rightarrow> (bool \<times> permission_service) option" where
  "Deny s permission = resolve s permission False True None"

subsection \<open>Requesting a permission\<close>

text \<open>The checks before the mutex: skipped requests and the allowlist.\<close>

definition Request_gate :: "permission_service \<Rightarrow> create_permission_request \<Rightarrow> bool" where
  "Request_gate s opts \<longleftrightarrow>
     ps_skip s \<or>
     (let commandKey = cr_tool opts @ '':'' @ cr_action opts in
      commandKey \<in> set (ps_allowed s) \<or> cr_tool opts \<in> set (ps_allowed s))"

definition request_dir :: "(string \<Rightarrow> stat_result) \<Rightarrow> permission_service \<Rightarrow> create_permission_request \<Rightarrow> string" where
  "request_dir stat s opts =
     (let dir = (case stat (cr_path opts) of
                   StatError \<Rightarrow> cr_path opts
                 | StatDir \<Rightarrow> cr_path opts
                 | StatFile \<Rightarrow> filepath_Dir (cr_path opts))
      in if dir = ''.'' then ps_working_dir s else dir)"

definition build_permission :: "string \<Rightarrow> string \<Rightarrow> create_permission_request \<Rightarrow> permission_request" where
  "build_permission uuid dir opts =
     \<lparr>pr_id = uuid, pr_session = cr_session opts, pr_tool_call = cr_tool_call opts,
      pr_tool = cr_tool opts, pr_description = cr_description opts, pr_action = cr_action opts,
      pr_params = cr_params opts, pr_path = dir\<rparr>"

definition Request_begin :: "(string \<Rightarrow> stat_result) \<Rightarrow> string \<Rightarrow> permission_service \<Rightarrow>
    create_permission_request \<Rightarrow> request_outcome \<times> permission_service" where
  "Request_begin stat uuid s opts =
     (if Request_gate s opts then (Granted, s)
      else
        let s = publish_note s (cr_tool_call opts) False False in
        if map_of (ps_auto s) (cr_session opts) = Some True
        then (Granted, publish_note s (cr_tool_call opts) True False)
        else
          let permission = build_permission uuid (request_dir stat s opts) opts;
              s = s\<lparr>ps_used := uuid # ps_used s\<rparr> in
          if Map_Get (ps_session_perms s) (permission_key_of permission) \<noteq> None
          then (Granted, publish_note s (cr_tool_call opts) True False)
          else
            let respCh = ps_next_chan s in
            (Waiting permission respCh,
             s\<lparr>ps_active := Some permission,
               ps_next_chan := Suc respCh,
               ps_chans := (ps_chans s)(respCh := []),
               ps_pending := Map_Set (ps_pending s) uuid respCh,
               ps_requests := ps_requests s @ [permission],
               ps_waiter := Some (permission, respCh)\<rparr>))"

text \<open>The arms of the final \<^verbatim>\<open>select\<close>, each with the deferred deletion and unlock.\<close>

definition Request_leave :: "permission_service \<Rightarrow> permission_request \<Rightarrow> permission_service" where
  "Request_leave s permission =
     s\<lparr>ps_pending := Map_Del (ps_pending s) (pr_id permission), ps_waiter := None\<rparr>"

definition Request_finish :: "permission_service \<Rightarrow> (bool \<times> permission_service) option" where
  "Request_finish s =
     (case ps_waiter s of
        None \<Rightarrow> None
      | Some (permission, respCh) \<Rightarrow>
          (case ps_chans s respCh of
             [] \<Rightarrow> None
           | granted # rest \<Rightarrow>
               Some (granted, Request_leave (s\<lparr>ps_chans := (ps_chans s)(respCh := rest)\<rparr>) permission)))"

definition Request_cancel :: "permission_service \<Rightarrow> permission_service option" where
  "Request_cancel s = map_option (\<lambda>(permission, respCh). Request_leave s permission) (ps_waiter s)"

definition AutoApproveSession :: "permission_service \<Rightarrow> string \<Rightarrow> permission_service" where
  "AutoApproveSession s sessionID = s\<lparr>ps_auto := AList.update sessionID True (ps_auto s)\<rparr>"

definition SetSkipRequests :: "permission_service \<Rightarrow> bool \<Rightarrow> permission_service" where
  "SetSkipRequests s skip = s\<lparr>ps_skip := skip\<rparr>"

definition SkipRequests :: "permission_service \<Rightarrow> bool" where
  "SkipRequests s = ps_skip s"

lemmas perm_defs = publish_note_def record_session_permission_def Request_leave_def
  AutoApproveSession_def SetSkipRequests_def GrantPersistent_def Grant_def Deny_def

subsection \<open>Reachable services\<close>

text \<open>\<^verbatim>\<open>uuid.New\<close> draws an ID that was not drawn before.\<close>

inductive perm_step :: "permission_service \<Rightarrow> permission_service \<Rightarrow> bool" where
  ps_begin: "ps_waiter s = None \<Longrightarrow> uuid \<notin> set (ps_used s) \<Longrightarrow>
     Request_begin stat uuid s opts = (out, s') \<Longrightarrow> perm_step s s'"
| ps_finish: "Request_finish s = Some (g, s') \<Longrightarrow> perm_step s s'"
| ps_cancel: "Request_cancel s = Some s' \<Longrightarrow> perm_step s s'"
| ps_grant: "Grant s p = Some (b, s') \<Longrightarrow> perm_step s s'"
| ps_grant_persistent: "GrantPersistent s p = Some (b, s') \<Longrightarrow> perm_step s s'"
| ps_deny: "Deny s p = Some (b, s') \<Longrightarrow> perm_step s s'"
| ps_auto: "perm_step s (AutoApproveSession s sid)"
| ps_set_skip: "perm_step s (SetSkipRequests s k)"

definition perm_start :: "permission_service \<Rightarrow> bool" where
  "perm_start s \<longleftrightarrow> (\<exists>wd skip allowed. s = NewPermissionService wd skip allowed)"

text \<open>
  A pending entry belongs to the waiting goroutine and its channel is empty; once the entry is
  taken the channel holds the outcome that was recorded for the request; no request is resolved
  twice.
\<close>

definition perm_inv :: "permission_service \<Rightarrow> bool" where
  "perm_inv s \<longleftrightarrow>
     (\<forall>id ch. Map_Get (ps_pending s) id = Some ch \<longrightarrow>
        (\<exists>p. ps_waiter s = Some (p, ch) \<and> pr_id p = id) \<and> ps_chans s ch = [] \<and> map_of (ps_resolved s) id = None) \<and>
     (\<forall>p ch. ps_waiter s = Some (p, ch) \<longrightarrow> pr_id p \<in> set (ps_used s) \<and>
        (Map_Get (ps_pending s) (pr_id p) = Some ch \<or>
         (\<exists>g. ps_chans s ch = [g] \<and> map_of (ps_resolved s) (pr_id p) = Some g))) \<and>
     (\<forall>id g. map_of (ps_resolved s) id = Some g \<longrightarrow> id \<in> set (ps_used s)) \<and>
     distinct (map fst (ps_resolved s))"

lemma perm_inv_start: "perm_start s \<Longrightarrow> perm_inv s"
  by (auto simp: perm_start_def perm_inv_def NewPermissionService_def smap_defs)

text \<open>What a winning resolution does to the fields the invariant reads.\<close>

lemma resolve_won:
  assumes res: "resolve s p g d f = Some (True, s')"
    and f: "f \<in> {None, Some (record_session_permission p)}"
  obtains ch where "Map_Get (ps_pending s) (pr_id p) = Some ch"
    "ps_chans s ch = []" "ps_chans s' = (ps_chans s)(ch := [g])"
    "ps_resolved s' = ps_resolved s @ [(pr_id p, g)]"
    "ps_pending s' = Map_Del (ps_pending s) (pr_id p)"
    "ps_waiter s' = ps_waiter s" "ps_used s' = ps_used s"
    "ps_session_perms s' = (if f = None then ps_session_perms s
       else Map_Set (ps_session_perms s) (permission_key_of p) True)"
  using assms
  by (auto simp: resolve_def Map_Take_def Map_Get_def Map_Del_def perm_defs Let_def Suc_le_eq
      split: option.splits if_splits)

lemma resolve_lost:
  assumes "resolve s p g d f = Some (False, s')"
  shows "s' = s"
  using assms
  by (auto simp: resolve_def Map_Take_def Let_def gomap_delete_notin split: option.splits if_splits)

lemma perm_inv_resolve:
  assumes res: "resolve s p g d f = Some (b, s')" and inv: "perm_inv s"
    and f: "f \<in> {None, Some (record_session_permission p)}"
  shows "perm_inv s'"
proof (cases b)
  case False
  with res inv show ?thesis using resolve_lost [of s p g d f s'] by simp
next
  case True
  with res have "resolve s p g d f = Some (True, s')" by simp
  from resolve_won [OF this f] obtain ch where
    ch: "Map_Get (ps_pending s) (pr_id p) = Some ch" "ps_chans s ch = []"
    and upd: "ps_chans s' = (ps_chans s)(ch := [g])" "ps_resolved s' = ps_resolved s @ [(pr_id p, g)]"
      "ps_pending s' = Map_Del (ps_pending s) (pr_id p)" "ps_waiter s' = ps_waiter s" "ps_used s' = ps_used s"
    by metis
  from inv ch(1) have "\<exists>q. ps_waiter s = Some (q, ch) \<and> pr_id q = pr_id p"
    and "map_of (ps_resolved s) (pr_id p) = None"
    unfolding perm_inv_def by blast+
  then obtain q where q: "ps_waiter s = Some (q, ch)" "pr_id q = pr_id p"
    "map_of (ps_resolved s) (pr_id p) = None" by blast
  moreover from q inv have "pr_id p \<in> set (ps_used s)" unfolding perm_inv_def by metis
  moreover have "Map_Get (ps_pending s) id = None" if "id \<noteq> pr_id p" for id
    using inv that q by (cases "Map_Get (ps_pending s) id") (fastforce simp: perm_inv_def)+
  moreover from q have "pr_id p \<notin> gomap_keys (ps_resolved s)" by (simp add: map_of_eq_None_iff)
  ultimately show ?thesis
    using inv by (auto simp: perm_inv_def upd csync_map.get_del map_add_def split: option.splits simp del: map_of_eq_Some_iff)
qed

lemma perm_inv_begin:
  assumes beg: "Request_begin stat uuid s opts = (out, s')"
    and idle: "ps_waiter s = None" "uuid \<notin> set (ps_used s)" and inv: "perm_inv s"
  shows "perm_inv s'"
proof -
  have none: "Map_Get (ps_pending s) id = None" for id
    using inv idle(1) by (cases "Map_Get (ps_pending s) id") (auto simp: perm_inv_def)
  show ?thesis
  proof (cases "Request_gate s opts")
    case True
    then show ?thesis using beg inv by (simp add: Request_begin_def)
  next
    case False
    then show ?thesis
      using beg inv idle
      by (auto simp: Request_begin_def Let_def perm_defs perm_inv_def build_permission_def
          csync_map.get_put none split: if_splits simp del: map_of_eq_Some_iff)
  qed
qed

lemma perm_inv_leave:
  assumes inv: "perm_inv s" and w: "ps_waiter s = Some (p, ch)"
    and s': "s' = Request_leave (s\<lparr>ps_chans := (ps_chans s)(ch := rest)\<rparr>) p"
  shows "perm_inv s'"
proof -
  have "Map_Get (ps_pending s) id = None" if "id \<noteq> pr_id p" for id
    using inv that w by (cases "Map_Get (ps_pending s) id") (fastforce simp: perm_inv_def)+
  then show ?thesis
    using inv by (auto simp: perm_inv_def s' Request_leave_def csync_map.get_del simp del: map_of_eq_Some_iff)
qed

lemma perm_inv_step: "perm_step s s' \<Longrightarrow> perm_inv s \<Longrightarrow> perm_inv s'"
proof (induction rule: perm_step.induct)
  case (ps_begin s uuid stat opts out s')
  then show ?case by (blast intro: perm_inv_begin)
next
  case (ps_finish s g s')
  then show ?case
    by (auto simp: Request_finish_def split: option.splits list.splits intro: perm_inv_leave)
next
  case (ps_cancel s s')
  then obtain p ch where w: "ps_waiter s = Some (p, ch)" and s': "s' = Request_leave s p"
    by (auto simp: Request_cancel_def)
  then show ?case
    using perm_inv_leave [OF ps_cancel(2) w, of s' "ps_chans s ch"] by simp
next
  case (ps_auto s sid)
  then show ?case by (simp add: perm_inv_def perm_defs del: map_of_eq_Some_iff)
next
  case (ps_set_skip s k)
  then show ?case by (simp add: perm_inv_def perm_defs del: map_of_eq_Some_iff)
qed (auto simp: Grant_def GrantPersistent_def Deny_def intro: perm_inv_resolve)

text \<open>Resolutions are only ever added.\<close>

interpretation permission: monotone_system perm_start perm_step perm_inv "\<lambda>s. length (ps_resolved s)"
proof unfold_locales
  fix s t
  assume "perm_step s t"
  then show "length (ps_resolved s) \<le> length (ps_resolved t)"
    by cases (auto simp: Request_begin_def Request_finish_def Request_cancel_def resolve_def Let_def
        perm_defs Map_Take_def split: option.splits list.splits if_splits prod.splits)
qed (auto intro: perm_inv_start perm_inv_step)

subsection \<open>What the service guarantees\<close>

text \<open>C13: a permission request is resolved at most once, whatever callers race on it. In every
  reachable state the recorded resolutions name distinct requests; of two resolutions of one
  request the second reports \<open>False\<close> and changes nothing; and the send to the waiting goroutine
  never blocks, because its channel is empty whenever a resolution takes the pending entry.\<close>

theorem permission_single_resolution:
  assumes "perm_start s0" and "perm_step\<^sup>*\<^sup>* s0 s"
    and "onR \<in> {None, Some (record_session_permission p)}"
  shows "distinct (map fst (ps_resolved s)) \<and>
    (\<exists>b s'. resolve s p g d onR = Some (b, s') \<and>
       (b \<longleftrightarrow> Map_Get (ps_pending s) (pr_id p) \<noteq> None) \<and>
       resolve s' p g' d' onR' = Some (False, s'))"
proof -
  from assms(1,2) have inv: "perm_inv s" by (rule permission.reachable_inv)
  have lost: "resolve t p x y h = Some (False, t)" if "Map_Get (ps_pending t) (pr_id p) = None" for t x y h
    using that by (simp add: resolve_def Map_Take_def Map_Get_def gomap_delete_notin)
  show ?thesis
  proof (cases "Map_Get (ps_pending s) (pr_id p)")
    case None
    with lost inv show ?thesis by (auto simp: perm_inv_def)
  next
    case (Some ch)
    with inv have "ps_chans s ch = []" by (simp add: perm_inv_def)
    with Some obtain s' where s': "resolve s p g d onR = Some (True, s')"
      using assms(3) by (auto simp: resolve_def Map_Take_def Map_Get_def perm_defs Let_def)
    from resolve_won [OF this assms(3)] have "Map_Get (ps_pending s') (pr_id p) = None"
      by (metis csync_map.get_del)
    with lost s' Some inv show ?thesis by (auto simp: perm_inv_def)
  qed
qed

definition demo_opts :: create_permission_request where
  "demo_opts = \<lparr>cr_session = ''s1'', cr_tool_call = ''t1'', cr_tool = ''bash'', cr_description = [],
     cr_action = ''run'', cr_params = [], cr_path = ''/w/a.txt''\<rparr>"

definition demo_perm :: permission_service where
  "demo_perm = snd (Request_begin (\<lambda>_. StatFile) ''u1'' (NewPermissionService ''/w'' False []) demo_opts)"

definition demo_request :: permission_request where
  "demo_request = build_permission ''u1'' ''/w'' demo_opts"

lemma demo_dir: "request_dir (\<lambda>_. StatFile) s demo_opts = ''/w''"
proof -
  have "filepath_Dir ''/w/a.txt'' = ''/w''" by code_simp
  then show ?thesis by (simp add: request_dir_def demo_opts_def)
qed

lemma demo_perm_eval:
  "Request_begin (\<lambda>_. StatFile) ''u1'' (NewPermissionService ''/w'' False []) demo_opts =
     (Waiting demo_request 0, demo_perm)"
  "ps_pending demo_perm = \<lparr>inner = [(''u1'', 0)]\<rparr>" "ps_chans demo_perm = (\<lambda>_. [])"
  "ps_waiter demo_perm = Some (demo_request, 0)" "ps_active demo_perm = Some demo_request"
  "ps_session_perms demo_perm = NewMap" "ps_resolved demo_perm = []"
  by (auto simp: demo_perm_def Request_begin_def Request_gate_def NewPermissionService_def demo_dir
      perm_defs smap_defs Let_def demo_request_def)

lemma demo_perm_reachable:
  "perm_start (NewPermissionService ''/w'' False [])"
  "perm_step\<^sup>*\<^sup>* (NewPermissionService ''/w'' False []) demo_perm"
proof -
  show "perm_start (NewPermissionService ''/w'' False [])" by (auto simp: perm_start_def)
  show "perm_step\<^sup>*\<^sup>* (NewPermissionService ''/w'' False []) demo_perm"
    by (rule r_into_rtranclp, rule ps_begin [OF _ _ demo_perm_eval(1)])
       (simp_all add: NewPermissionService_def)
qed

theorem permission_single_resolution_witness:
  "\<exists>s'. Deny demo_perm demo_request = Some (True, s') \<and> GrantPersistent s' demo_request = Some (False, s')"
  using permission_single_resolution [OF demo_perm_reachable, of None demo_request False True True False
      "Some (record_session_permission demo_request)"]
  by (auto simp: Deny_def GrantPersistent_def demo_perm_eval Map_Get_def demo_request_def build_permission_def)

text \<open>A goroutine leaves \<^verbatim>\<open>Request\<close> with an answer only after some caller resolved its request
  with exactly that answer: in a reachable state a granted wait has a recorded grant, a denied one a
  recorded denial.\<close>

theorem permission_answer_is_resolution:
  assumes "perm_start s0" and "perm_step\<^sup>*\<^sup>* s0 s" and "Request_finish s = Some (granted, s')"
  shows "\<exists>p ch. ps_waiter s = Some (p, ch) \<and> (pr_id p, granted) \<in> set (ps_resolved s) \<and> ps_waiter s' = None"
proof -
  from assms(1,2) have inv: "perm_inv s" by (rule permission.reachable_inv)
  from assms(3) obtain p ch rest where w: "ps_waiter s = Some (p, ch)" "ps_chans s ch = granted # rest"
    "ps_waiter s' = None"
    by (auto simp: Request_finish_def Request_leave_def split: option.splits list.splits)
  with inv have "map_of (ps_resolved s) (pr_id p) = Some granted"
    unfolding perm_inv_def by (metis list.distinct(1) list.inject)
  with w show ?thesis by (auto dest: map_of_SomeD)
qed

theorem permission_answer_is_resolution_witness:
  "\<exists>s1 s2. Grant demo_perm demo_request = Some (True, s1) \<and> Request_finish s1 = Some (True, s2) \<and>
     (''u1'', True) \<in> set (ps_resolved s1)"
proof -
  obtain s1 where s1: "Grant demo_perm demo_request = Some (True, s1)"
    by (simp add: Grant_def resolve_def demo_perm_eval Map_Take_def demo_request_def build_permission_def
        Let_def perm_defs)
  then have reach: "perm_step\<^sup>*\<^sup>* (NewPermissionService ''/w'' False []) s1"
    by (meson demo_perm_reachable(2) ps_grant rtranclp.rtrancl_into_rtrancl)
  have "ps_waiter s1 = Some (demo_request, 0)" "ps_chans s1 0 = [True]"
    using s1 by (auto simp: Grant_def resolve_def demo_perm_eval Map_Take_def demo_request_def
        build_permission_def Let_def perm_defs)
  then obtain s2 where s2: "Request_finish s1 = Some (True, s2)"
    by (simp add: Request_finish_def)
  from permission_answer_is_resolution [OF demo_perm_reachable(1) reach s2] \<open>ps_waiter s1 = _\<close> s1 s2
  show ?thesis by (auto simp: demo_request_def build_permission_def)
qed

text \<open>The recorded session permissions never disappear.\<close>

lemma session_perms_step:
  "perm_step s t \<Longrightarrow> Map_Get (ps_session_perms s) k \<noteq> None \<Longrightarrow> Map_Get (ps_session_perms t) k \<noteq> None"
proof (induction rule: perm_step.induct)
  case (ps_begin s uuid stat opts out s')
  then show ?case by (auto simp: Request_begin_def Let_def perm_defs split: if_splits)
next
  case (ps_grant_persistent s p b s')
  then show ?case
    by (cases b) (auto simp: GrantPersistent_def csync_map.get_put dest: resolve_lost elim!: resolve_won)
next
  case (ps_grant s p b s')
  then show ?case by (cases b) (auto simp: Grant_def dest: resolve_lost elim!: resolve_won)
next
  case (ps_deny s p b s')
  then show ?case by (cases b) (auto simp: Deny_def dest: resolve_lost elim!: resolve_won)
qed (auto simp: Request_finish_def Request_cancel_def perm_defs split: option.splits list.splits)

lemma session_perms_steps:
  "perm_step\<^sup>*\<^sup>* s t \<Longrightarrow> Map_Get (ps_session_perms s) k \<noteq> None \<Longrightarrow> Map_Get (ps_session_perms t) k \<noteq> None"
  by (induction rule: rtranclp_induct) (auto dest: session_perms_step)

text \<open>A persistent grant is remembered. Once \<^verbatim>\<open>GrantPersistent\<close> has won for a permission, every
  later request of the same session for the same tool, action and resolved directory is granted at
  once, without asking, however the service has moved on since.\<close>

theorem persistent_grant_remembered:
  assumes "GrantPersistent s p = Some (True, s')" and "perm_step\<^sup>*\<^sup>* s' t"
    and "cr_session opts = pr_session p" and "cr_tool opts = pr_tool p"
    and "cr_action opts = pr_action p" and "request_dir stat t opts = pr_path p"
  shows "fst (Request_begin stat uuid t opts) = Granted"
proof -
  have "Map_Get (ps_session_perms s') (permission_key_of p) \<noteq> None"
    using assms(1) by (auto simp: GrantPersistent_def csync_map.get_put elim!: resolve_won)
  then have rec: "Map_Get (ps_session_perms t) (permission_key_of p) \<noteq> None"
    using assms(2) by (rule session_perms_steps [rotated])
  have "permission_key_of (build_permission uuid (request_dir stat t' opts) opts) = permission_key_of p"
    if "ps_working_dir t' = ps_working_dir t" for t'
  proof -
    have "request_dir stat t' opts = request_dir stat t opts" using that by (simp add: request_dir_def Let_def)
    then show ?thesis using assms(3-6) by (simp add: permission_key_of_def build_permission_def)
  qed
  with rec show ?thesis by (simp add: Request_begin_def Let_def perm_defs)
qed

theorem persistent_grant_remembered_witness:
  "\<exists>s'. GrantPersistent demo_perm demo_request = Some (True, s') \<and>
     fst (Request_begin (\<lambda>_. StatFile) ''u2'' s' demo_opts) = Granted"
proof -
  obtain s' where s': "GrantPersistent demo_perm demo_request = Some (True, s')"
    by (simp add: GrantPersistent_def resolve_def demo_perm_eval Map_Take_def demo_request_def
        build_permission_def Let_def perm_defs)
  have "fst (Request_begin (\<lambda>_. StatFile) ''u2'' s' demo_opts) = Granted"
    by (rule persistent_grant_remembered [OF s' rtranclp.rtrancl_refl])
       (simp_all add: demo_dir demo_request_def build_permission_def)
  with s' show ?thesis by blast
qed

text \<open>A denial leaks no permission. \<^verbatim>\<open>Deny\<close>, \<^verbatim>\<open>Grant\<close> and a \<^verbatim>\<open>GrantPersistent\<close> that lost the race leave
  the session permissions as they are; and a request that is granted without asking was covered by
  the skip flag, the allowlist, an auto-approved session or a recorded session permission.\<close>

theorem permission_no_leak:
  assumes "Deny s p = Some (b1, s1)" and "GrantPersistent s1 p = Some (False, s2)"
  shows "ps_session_perms s2 = ps_session_perms s \<and>
    (fst (Request_begin stat uuid s2 opts) = Granted \<longleftrightarrow>
       Request_gate s opts \<or> map_of (ps_auto s) (cr_session opts) = Some True \<or>
       Map_Get (ps_session_perms s)
         (permission_key_of (build_permission uuid (request_dir stat s opts) opts)) \<noteq> None)"
proof -
  have "s2 = s1" using assms(2) by (simp add: GrantPersistent_def resolve_lost)
  moreover have "ps_session_perms s1 = ps_session_perms s" "ps_auto s1 = ps_auto s"
    "ps_skip s1 = ps_skip s" "ps_allowed s1 = ps_allowed s" "ps_working_dir s1 = ps_working_dir s"
    using assms(1) by (auto simp: Deny_def resolve_def Let_def perm_defs Map_Take_def
        split: option.splits if_splits)
  ultimately show ?thesis
    by (auto simp: Request_begin_def Let_def perm_defs Request_gate_def request_dir_def)
qed

theorem permission_no_leak_witness:
  "\<exists>s1. Deny demo_perm demo_request = Some (True, s1) \<and> GrantPersistent s1 demo_request = Some (False, s1) \<and>
     ps_session_perms s1 = NewMap"
proof -
  obtain s1 where s1: "Deny demo_perm demo_request = Some (True, s1)"
    "Map_Get (ps_pending s1) (pr_id demo_request) = None"
    by (simp add: Deny_def resolve_def demo_perm_eval Map_Take_def demo_request_def Map_Get_def
        build_permission_def Let_def perm_defs)
  then have s2: "GrantPersistent s1 demo_request = Some (False, s1)"
    by (simp add: GrantPersistent_def resolve_def Map_Take_def Map_Get_def gomap_delete_notin)
  from permission_no_leak [OF s1(1) s2] s1 s2 show ?thesis by (auto simp: demo_perm_eval)
qed

end
