(* ===== verification/Dispatch_Props.thy ===== *)
theory Dispatch_Props
  imports Dispatch_Inv
begin

section \<open>What prompt dispatch guarantees\<close>

text \<open>
  The accounting of terminal events and the properties of \<^verbatim>\<open>sessionAgent\<close>'s dispatch: one active run
  per session, exactly one terminal event per RunID, and what a \<^verbatim>\<open>Cancel\<close> covers. The last section
  runs the model into the states where these break: a continuation after a summary, an errored turn
  with a queue, and a cancel that races the release of a handle.
\<close>

subsection \<open>The terminal events owed\<close>

definition run_count :: "string \<Rightarrow> agent_call list \<Rightarrow> nat" where
  "run_count rid qs = length (filter (\<lambda>q. ag_run q = rid) qs)"

definition ended :: "session_agent \<Rightarrow> string \<Rightarrow> nat" where
  "ended a rid = length (filter (\<lambda>e. cmp_run e = rid) (sa_events a @ sa_hooked a))"

definition run_debt :: "string \<Rightarrow> agent_run \<Rightarrow> nat" where
  "run_debt rid run =
     (case rn_phase run of
        Leaving \<Rightarrow> 0
      | Recursing c \<Rightarrow> if ag_run c = rid then 1 else 0
      | _ \<Rightarrow> if ag_run (rn_call run) = rid then 1 else 0)"

definition owed :: "session_agent \<Rightarrow> string \<Rightarrow> nat" where
  "owed a rid = gomap_sum (run_count rid) (inner (sa_queue a)) + gomap_sum (run_debt rid) (inner (sa_runs a))"

definition balance :: "session_agent \<Rightarrow> string \<Rightarrow> nat" where
  "balance a rid = ended a rid + owed a rid + count_list (sa_silent a) rid"


lemma balance_frame:
  assumes "sa_events a' = sa_events a" "sa_hooked a' = sa_hooked a" "sa_queue a' = sa_queue a"
    "sa_runs a' = sa_runs a" "sa_silent a' = sa_silent a"
  shows "balance a' rid = balance a rid"
  by (simp add: balance_def ended_def owed_def assms)


lemma balance_close [simp]: "balance (Accepted_Close a r) rid = balance a rid"
  by (rule balance_frame) simp_all










lemma enter_frame [simp]:
  "sa_has_broker (snd (Run_enter a call ok)) = sa_has_broker a" "sa_submitted (snd (Run_enter a call ok)) = sa_submitted a"
  by (auto simp: Run_enter_def enqueueCall_def register_run_def Let_def split: option.splits)

text \<open>What the queue operations drop is published, what they keep or fold is still accounted for.\<close>

lemma run_count_split:
  "run_count rid qs = run_count rid (filter P qs) + run_count rid (filter (\<lambda>q. \<not> P q) qs)"
  by (induction qs) (auto simp: run_count_def)

lemma run_count_append [simp]: "run_count rid (xs @ ys) = run_count rid xs + run_count rid ys"
  by (simp add: run_count_def)













subsection \<open>Marks over time\<close>

lemma mark_close:
  "Map_Get (sa_mark (Accepted_Close a r)) s = Map_Get (sa_mark a) s \<or>
   Map_Get (sa_mark (Accepted_Close a r)) s = None \<and> Map_Get (sa_accepted (Accepted_Close a r)) s = None"
  by (auto simp: Accepted_Close_def endAccepted_def Let_def csync_map.get_del split: option.splits)

lemma mark_enter:
  "Map_Get (sa_mark (snd (Run_enter a call ok))) s = Map_Get (sa_mark a) s \<or>
   Map_Get (sa_mark (snd (Run_enter a call ok))) s = None \<and> Map_Get (sa_accepted (snd (Run_enter a call ok))) s = None"
proof -
  have "sa_mark (enqueueCall a call) = sa_mark a" "sa_mark (register_run a call) = sa_mark a"
    by (simp_all add: enqueueCall_def register_run_def Let_def)
  then show ?thesis
    using mark_close [of a "ag_accepted call" s] mark_close [of "enqueueCall a call" "ag_accepted call" s]
      mark_close [of "register_run a call" "ag_accepted call" s]
    by (auto simp: Run_enter_def split: option.splits)
qed

lemma mark_raise_other: "s \<noteq> t \<Longrightarrow> Map_Get (sa_mark (Cancel_raise a t n)) s = Map_Get (sa_mark a) s"
  by (simp add: Cancel_raise_def Let_def csync_map.get_put split: prod.splits)

text \<open>A mark is raised only by a cancel of its session, and dropped only when no handle is left.\<close>

lemma mark_exec:
  assumes ex: "agent_exec op a = Some a'" and inv: "agent_inv a" and no: "op \<noteq> OpCancel s"
  shows "Map_Get (sa_mark a') s = Map_Get (sa_mark a) s \<or>
     Map_Get (sa_mark a') s = None \<and> Map_Get (sa_accepted a') s = None"
proof (cases op)
  case (OpAccept sid)
  with ex show ?thesis by auto
next
  case (OpClose h)
  with ex mark_close [of a "Some h" s] show ?thesis by (auto split: if_splits)
next
  case (OpRun call ok)
  with ex mark_enter [of a call ok s] show ?thesis by (auto simp: Run_def Let_def split_beta split: if_splits)
next
  case (OpRecurse r ok)
  with ex obtain run call where "a' = snd (Run_enter (set_phase a r run Leaving) call ok)"
    by (auto simp: Run_recurse_def split: option.splits run_phase.splits)
  with mark_enter [of "set_phase a r run Leaving" call ok s] show ?thesis by (simp add: set_phase_def)
next
  case (OpHandoff r c)
  with ex obtain run where r: "Map_Get (sa_runs a) r = Some run" "rn_phase run = Released"
    by (auto simp: Run_handoff_def split: option.splits if_splits)
  obtain qs b where b: "handoff_drop a (ag_session (rn_call run)) = (qs, b)"
    by (cases "handoff_drop a (ag_session (rn_call run))")
  note fr = handoff_drop_frame(5,6) [OF b]
  have none: "Map_Get (sa_accepted b) t = None" if "(case Map_Get (sa_accepted b) t of Some n \<Rightarrow> n | None \<Rightarrow> 0) = 0" for t
    using that inv by (auto simp: agent_inv_def inv_accept_def accept_ok_def fr split: if_splits)
  show ?thesis
  proof (cases qs)
    case Nil
    with ex OpHandoff r b have a': "a' = handoff_finish b r run c" by (simp add: Run_handoff_def)
    show ?thesis
    proof (cases "(case Map_Get (sa_accepted b) (ag_session (rn_call run)) of Some n \<Rightarrow> n | None \<Rightarrow> 0) = 0")
      case True
      with none [OF this] show ?thesis
        by (auto simp: a' handoff_finish_def Let_def set_phase_def csync_map.get_del fr)
    next
      case False
      then show ?thesis by (simp add: a' handoff_finish_def Let_def set_phase_def fr)
    qed
  next
    case (Cons first rest)
    with ex OpHandoff r b have "a' = handoff_next b r run c first rest" by (simp add: Run_handoff_def)
    then show ?thesis by (simp add: handoff_next_def set_phase_def split_beta Let_def fr)
  qed
next
  case (OpStep r)
  with ex show ?thesis
    by (auto simp: Run_prepare_step_def drainQueueForStep_def Let_def split: option.splits if_splits prod.splits)
next
  case (OpCancel t)
  with ex no show ?thesis
    by (auto simp: Cancel_def Let_def mark_raise_other)
qed (use ex in \<open>auto simp: Run_load_error_def Run_loaded_def Run_error_def Run_release_def Run_leave_def set_phase_def
    split: option.splits if_splits\<close>)

lemma mark_Cancel:
  assumes "Map_Get (sa_accepted a) s = Some n" and "n > 0"
  shows "\<exists>m. Map_Get (sa_mark (Cancel a s)) s = Some m \<and> sa_seq a \<le> m \<and>
     (\<forall>m0. Map_Get (sa_mark a) s = Some m0 \<longrightarrow> m0 \<le> m)"
  using assms by (simp add: Cancel_def Let_def Cancel_raise_def Cancel_read_def csync_map.get_put)

text \<open>A handle below the mark stays below it while it is open.\<close>

definition handle_marked :: "session_agent \<Rightarrow> nat \<Rightarrow> string \<Rightarrow> bool" where
  "handle_marked t h s \<longleftrightarrow> h < length (sa_handles t) \<and> ar_session (sa_handles t ! h) = s \<and>
     (ar_done (sa_handles t ! h) \<or> (\<exists>m. Map_Get (sa_mark t) s = Some m \<and> of_nat (Suc h) \<le> m))"

lemma ar_done_exec:
  assumes "agent_inv t" and "h < length (sa_handles t)" and "Map_Get (sa_accepted t) (ar_session (sa_handles t ! h)) = None"
  shows "ar_done (sa_handles t ! h)"
proof (rule ccontr)
  assume "\<not> ar_done (sa_handles t ! h)"
  with assms(2) have "open_of (sa_handles t) (ar_session (sa_handles t ! h)) > 0"
    by (auto simp: open_of_def length_greater_0_conv filter_empty_conv)
  with assms(1,3) show False by (simp add: agent_inv_def inv_accept_def accept_ok_def)
qed

lemma open_counted:
  assumes "agent_inv t" and "h < length (sa_handles t)" and "\<not> ar_done (sa_handles t ! h)"
  shows "\<exists>n>0. Map_Get (sa_accepted t) (ar_session (sa_handles t ! h)) = Some n"
proof -
  from assms(2,3) have "open_of (sa_handles t) (ar_session (sa_handles t ! h)) > 0"
    by (auto simp: open_of_def length_greater_0_conv filter_empty_conv)
  with assms(1) show ?thesis by (simp add: agent_inv_def inv_accept_def accept_ok_def)
qed

lemma handle_marked_exec:
  assumes ex: "agent_exec op a = Some a'" and inv: "agent_inv a" and hm: "handle_marked a h s"
  shows "handle_marked a' h s"
proof -
  have inv': "agent_inv a'" by (rule agent_inv_exec [OF ex inv])
  have gr: "handles_grow a a'" by (rule handles_grow_exec [OF ex])
  have h: "h < length (sa_handles a)" "ar_session (sa_handles a ! h) = s" using hm by (auto simp: handle_marked_def)
  have h': "h < length (sa_handles a')" "ar_session (sa_handles a' ! h) = s"
    using gr h by (auto simp: handles_grow_def)
  show ?thesis
  proof (cases "ar_done (sa_handles a' ! h)")
    case True
    with h' show ?thesis by (simp add: handle_marked_def)
  next
    case False
    with gr h have "\<not> ar_done (sa_handles a ! h)" by (auto simp: handles_grow_def)
    with hm obtain m where m: "Map_Get (sa_mark a) s = Some m" "of_nat (Suc h) \<le> m"
      by (auto simp: handle_marked_def)
    from open_counted [OF inv h(1) \<open>\<not> ar_done (sa_handles a ! h)\<close>] h(2)
    obtain n where n: "Map_Get (sa_accepted a) s = Some n" "n > 0" by auto
    from open_counted [OF inv' h'(1) False] h'(2) have acc': "Map_Get (sa_accepted a') s \<noteq> None" by auto
    have "\<exists>m'. Map_Get (sa_mark a') s = Some m' \<and> m \<le> m'"
    proof (cases "op = OpCancel s")
      case True
      with ex mark_Cancel [OF n] m show ?thesis by auto
    next
      case False
      with mark_exec [OF ex inv False] acc' m show ?thesis by auto
    qed
    with m h' show ?thesis by (auto simp: handle_marked_def intro: order_trans)
  qed
qed

lemma handle_marked_steps:
  assumes "agent_step\<^sup>*\<^sup>* a t" and "agent_inv a" and "handle_marked a h s"
  shows "agent_inv t \<and> handle_marked t h s"
  using assms
proof (induction rule: rtranclp_induct)
  case (step b c)
  then show ?case by (auto elim!: agent_stepE intro: agent_inv_exec handle_marked_exec)
qed simp

lemma unat_small: "n < 2 ^ 64 \<Longrightarrow> unat (of_nat n :: go_uint64) = n"
  by (simp add: unat_of_nat)

lemma of_nat_word_le: "i \<le> j \<Longrightarrow> j < 2 ^ 64 \<Longrightarrow> (of_nat i :: go_uint64) \<le> of_nat j"
  by (simp only: word_le_nat_alt unat_small)

subsection \<open>Properties\<close>


definition demo_call :: "string \<Rightarrow> agent_call" where
  "demo_call rid = \<lparr>ag_session = ''s'', ag_run = rid, ag_prompt = ''hi'', ag_attachments = [],
     ag_on_complete = False, ag_accepted = None, ag_accept_seq = 0\<rparr>"




lemma demo_start: "agent_start (NewSessionAgent True)"
  by (auto simp: agent_start_def)




text \<open>The accept counter is exact. In every reachable agent the counter of a session is the number
  of its reservations not yet closed (no entry when there is none), and a cancel mark exists only while
  a reservation is open: an idle session carries no mark that could poison its next prompt.\<close>

theorem accepted_count_exact:
  assumes "agent_start a0" and "agent_step\<^sup>*\<^sup>* a0 a"
  shows "Map_Get (sa_accepted a) sid =
       (if open_of (sa_handles a) sid = 0 then None else Some (int (open_of (sa_handles a) sid))) \<and>
     (open_of (sa_handles a) sid = 0 \<longrightarrow> \<not> canceledBySeq a sid seq)"
proof -
  from dispatch.reachable_inv [OF assms]
  have "Map_Get (sa_accepted a) sid =
       (if open_of (sa_handles a) sid = 0 then None else Some (int (open_of (sa_handles a) sid)))"
    and "\<And>m. Map_Get (sa_mark a) sid = Some m \<Longrightarrow> open_of (sa_handles a) sid > 0"
    unfolding agent_inv_def inv_accept_def accept_ok_def by blast+
  then show ?thesis by (cases "Map_Get (sa_mark a) sid") (auto simp: canceledBySeq_def)
qed

theorem accepted_count_exact_witness:
  "Map_Get (sa_accepted (snd (BeginAccepted (NewSessionAgent True) ''s''))) ''s'' = Some 1"
proof -
  have "agent_execs [OpAccept ''s''] (NewSessionAgent True) = Some (snd (BeginAccepted (NewSessionAgent True) ''s''))"
    by simp
  from accepted_count_exact [OF demo_start agent_execs_steps [OF this], of "''s''" 0] show ?thesis
    by (simp add: open_of_def NewSessionAgent_def)
qed

text \<open>C2: a cancel covers every prompt accepted before it. Whatever steps follow a \<^verbatim>\<open>Cancel\<close>, a call
  that enters \<^verbatim>\<open>Run\<close> with a reservation that was open at the cancel and still is ends as cancelled
  on entry: no turn starts and nothing is queued.\<close>

theorem cancel_covers_accepted:
  assumes "agent_start a0" and "agent_step\<^sup>*\<^sup>* a0 a" and "length (sa_handles a) < 2 ^ 64"
    and "h < length (sa_handles a)" and "\<not> ar_done (sa_handles a ! h)" and "ar_session (sa_handles a ! h) = sid"
    and "agent_step\<^sup>*\<^sup>* (Cancel a sid) t" and "\<not> ar_done (sa_handles t ! h)"
    and "ag_session call = sid" and "ag_accepted call = Some h" and "ValidateCall call = None"
  shows "fst (Run_enter t call ok) = RunCancelledOnEntry"
proof -
  have inv: "agent_inv a" by (rule dispatch.reachable_inv [OF assms(1,2)])
  then have inv': "agent_inv (Cancel a sid)" by (rule agent_inv_Cancel)
  from open_counted [OF inv assms(4,5)] assms(6) obtain n where
    n: "Map_Get (sa_accepted a) sid = Some n" "n > 0" by auto
  from mark_Cancel [OF n] obtain m where m: "Map_Get (sa_mark (Cancel a sid)) sid = Some m" "sa_seq a \<le> m" by blast
  have "of_nat (Suc h) \<le> sa_seq a"
    using inv assms(3,4) of_nat_word_le [of "Suc h" "length (sa_handles a)"]
    by (simp add: agent_inv_def inv_accept_def accept_ok_def)
  with m assms(4,6) have "handle_marked (Cancel a sid) h sid"
    by (auto simp: handle_marked_def Cancel_def Let_def)
  from handle_marked_steps [OF assms(7) inv' this] have t: "agent_inv t" "handle_marked t h sid" by auto
  with assms(8) obtain m' where m': "Map_Get (sa_mark t) sid = Some m'" "of_nat (Suc h) \<le> m'"
    by (auto simp: handle_marked_def)
  have seq: "handle_seq t h = of_nat (Suc h)"
    using t by (auto simp: handle_seq_def handle_marked_def agent_inv_def inv_accept_def accept_ok_def)
  have "(of_nat (Suc h) :: go_uint64) \<noteq> 0"
    using unat_small [of "Suc h"] assms(3,4) by (metis Suc_leI le_less_trans nat.distinct(1) unat_0)
  with m' have "m' \<noteq> 0" by auto
  with m' seq assms(9-11) show ?thesis
    by (simp add: Run_enter_def cancel_on_entry_def canceledBySeq_def)
qed

theorem cancel_covers_accepted_witness:
  "\<exists>a. agent_execs [OpAccept ''s''] (NewSessionAgent True) = Some a \<and>
     fst (Run_enter (Cancel a ''s'') ((demo_call ''r1'')\<lparr>ag_accepted := Some 0\<rparr>) True) = RunCancelledOnEntry"
proof -
  define a where "a = snd (BeginAccepted (NewSessionAgent True) ''s'')"
  have ex: "agent_execs [OpAccept ''s''] (NewSessionAgent True) = Some a" by (simp add: a_def)
  have hs: "sa_handles a = [\<lparr>ar_session = ''s'', ar_seq = 1, ar_done = False\<rparr>]"
    by (simp add: a_def NewSessionAgent_def)
  have hc: "sa_handles (Cancel a ''s'') = sa_handles a" by (simp add: Cancel_def Let_def)
  have "fst (Run_enter (Cancel a ''s'') ((demo_call ''r1'')\<lparr>ag_accepted := Some 0\<rparr>) True) = RunCancelledOnEntry"
    by (rule cancel_covers_accepted [OF demo_start agent_execs_steps [OF ex], where h = 0 and sid = "''s''"])
       (simp_all add: hs hc demo_call_def ValidateCall_def)
  with ex show ?thesis by blast
qed

lemma mark_execs:
  assumes "agent_execs ops a = Some t" and "agent_inv a" and "OpCancel s \<notin> set ops"
  shows "agent_inv t \<and> (Map_Get (sa_mark t) s = Map_Get (sa_mark a) s \<or> Map_Get (sa_mark t) s = None)"
  using assms
proof (induction ops arbitrary: a)
  case (Cons op ops)
  then obtain b where b: "agent_exec op a = Some b" "agent_execs ops b = Some t"
    by (auto simp: bind_eq_Some_conv)
  with Cons.prems mark_exec [OF b(1), of s] Cons.IH [OF b(2)] agent_inv_exec [OF b(1)] show ?case by auto
qed simp

text \<open>C30: a cancel never poisons a later prompt. A reservation taken after some moment is not covered by
  any mark of that moment: as long as no further \<^verbatim>\<open>Cancel\<close> of the session happens, the call that
  holds it enters \<^verbatim>\<open>Run\<close> uncancelled, whatever else goes on (below 2^64 reservations).\<close>

theorem cancel_never_poisons:
  assumes "agent_start a0" and "agent_step\<^sup>*\<^sup>* a0 a" and "agent_execs ops a = Some t"
    and "OpCancel sid \<notin> set ops" and "length (sa_handles a) \<le> h" and "h < length (sa_handles t)"
    and "length (sa_handles t) < 2 ^ 64"
  shows "\<not> canceledBySeq t sid (handle_seq t h)"
proof -
  have inv: "agent_inv a" by (rule dispatch.reachable_inv [OF assms(1,2)])
  from mark_execs [OF assms(3) inv assms(4)] have t: "agent_inv t"
    and mark: "Map_Get (sa_mark t) sid = Map_Get (sa_mark a) sid \<or> Map_Get (sa_mark t) sid = None" by auto
  have seq: "unat (handle_seq t h) = Suc h"
    using t assms(6,7) unat_small [of "Suc h"] by (simp add: handle_seq_def agent_inv_def inv_accept_def accept_ok_def)
  have "unat m \<le> h" if "Map_Get (sa_mark t) sid = Some m" for m
  proof -
    from that mark have "Map_Get (sa_mark a) sid = Some m" by auto
    with inv obtain k where "k \<le> length (sa_handles a)" "m = of_nat k"
      unfolding agent_inv_def inv_accept_def accept_ok_def by blast
    with assms(5-7) show ?thesis using unat_small [of k] by simp
  qed
  note le = this
  show ?thesis
  proof (cases "Map_Get (sa_mark t) sid")
    case (Some m)
    have "handle_seq t h \<noteq> 0" using seq by auto
    moreover have "\<not> handle_seq t h \<le> m" using le [OF Some] seq by (simp add: word_le_nat_alt)
    ultimately show ?thesis using Some by (simp add: canceledBySeq_def)
  qed (simp add: canceledBySeq_def)
qed

theorem cancel_never_poisons_witness:
  "\<exists>a t. agent_execs [OpAccept ''s'', OpCancel ''s''] (NewSessionAgent True) = Some a \<and>
     agent_execs [OpAccept ''s''] a = Some t \<and> canceledBySeq t ''s'' (handle_seq t 0) \<and>
     \<not> canceledBySeq t ''s'' (handle_seq t 1)"
proof -
  define a where "a = the (agent_execs [OpAccept ''s'', OpCancel ''s''] (NewSessionAgent True))"
  define t where "t = snd (BeginAccepted a ''s'')"
  have ex: "agent_execs [OpAccept ''s'', OpCancel ''s''] (NewSessionAgent True) = Some a"
    by (simp add: a_def)
  have ext: "agent_execs [OpAccept ''s''] a = Some t" by (simp add: t_def)
  have l: "length (sa_handles a) = 1" unfolding a_def by code_simp
  then have lt: "length (sa_handles t) = 2" by (simp add: t_def)
  have c: "canceledBySeq t ''s'' (handle_seq t 0)" unfolding t_def a_def by code_simp
  from cancel_never_poisons [OF demo_start agent_execs_steps [OF ex] ext, of "''s''" 1] l lt c ex ext
  show ?thesis by auto
qed

lemma events_drops: "\<exists>es. sa_events (publishCanceledQueueDrops a ds) = sa_events a @ es"
proof (induction a ds rule: publishCanceledQueueDrops.induct)
  case (2 a d ds)
  have "\<exists>es. sa_events (if ag_run d = [] then a else publishRunComplete a d (cancelled_event d)) = sa_events a @ es"
    by (auto simp: publishRunComplete_def)
  with 2 show ?case by fastforce
qed simp

lemma drops_published:
  "sa_has_broker a \<Longrightarrow> q \<in> set ds \<Longrightarrow> ag_run q \<noteq> [] \<Longrightarrow> \<not> ag_on_complete q \<Longrightarrow>
     cancelled_event q \<in> set (sa_events (publishCanceledQueueDrops a ds))"
proof (induction a ds rule: publishCanceledQueueDrops.induct)
  case (2 a d ds)
  show ?case
  proof (cases "q = d")
    case True
    with 2 obtain es where "sa_events (publishCanceledQueueDrops a (d # ds)) =
        sa_events (publishRunComplete a d (cancelled_event d)) @ es"
      using events_drops [of "publishRunComplete a d (cancelled_event d)" ds] by auto
    with 2 True show ?thesis by (simp add: publishRunComplete_def)
  next
    case False
    with 2 show ?thesis by simp
  qed
qed simp

text \<open>What one \<^verbatim>\<open>Cancel\<close> does. The active run's context is cancelled and its entry stays, so the
  session is busy until the run has cleaned up; the queue is emptied and every queued prompt with a
  RunID gets its cancelled event; other sessions keep their queues; and cancelling an idle session is
  no operation at all.\<close>

theorem cancel_stops_session:
  assumes "agent_start a0" and "agent_step\<^sup>*\<^sup>* a0 a"
  shows "(\<forall>ac. Map_Get (sa_active a) sid = Some ac \<longrightarrow> ac \<in> sa_cancelled (Cancel a sid) \<and> IsSessionBusy (Cancel a sid) sid) \<and>
     queued_calls (Cancel a sid) sid = [] \<and>
     (\<forall>q\<in>set (queued_calls a sid). sa_has_broker a \<and> ag_run q \<noteq> [] \<and> \<not> ag_on_complete q \<longrightarrow>
        cancelled_event q \<in> set (sa_events (Cancel a sid))) \<and>
     (\<forall>s. s \<noteq> sid \<longrightarrow> queued_calls (Cancel a sid) s = queued_calls a s) \<and>
     (\<not> IsSessionBusy a sid \<and> \<not> IsSessionBusy a (sid @ ''-summarize'') \<and> Map_Get (sa_accepted a) sid = None \<and>
      queued_calls a sid = [] \<longrightarrow> Cancel a sid = a)"
proof -
  let ?b = "cancel_active (cancel_active a sid) (sid @ ''-summarize'')"
  let ?c = "Cancel_raise ?b sid (Cancel_read ?b sid)"
  have C: "Cancel a sid = ClearQueue ?c sid" by (simp add: Cancel_def Let_def)
  have q: "queued_calls ?c s = queued_calls a s" for s by (simp add: queued_calls_def)
  have drops_q: "queued_calls (publishCanceledQueueDrops d ds) s = queued_calls d s" for d ds s
    by (simp add: queued_calls_def)
  have clear: "queued_calls (ClearQueue ?c sid) s = (if s = sid then [] else queued_calls a s)" for s
    using q by (auto simp: ClearQueue_def QueuedPrompts_def clearQueueAndNotify_def Let_def drops_q split: option.splits)
       (auto simp: queued_calls_def csync_map.get_del)
  have ev: "cancelled_event x \<in> set (sa_events (ClearQueue ?c sid))"
    if x: "x \<in> set (queued_calls a sid)" "sa_has_broker a" "ag_run x \<noteq> []" "\<not> ag_on_complete x" for x
  proof -
    from x(1) q have "x \<in> set (queued_calls ?c sid)" by simp
    then obtain l where l: "Map_Get (sa_queue ?c) sid = Some l" "x \<in> set l"
      by (cases "Map_Get (sa_queue ?c) sid") (simp_all add: queued_calls_def)
    then have "QueuedPrompts ?c sid > 0" by (auto simp: QueuedPrompts_def queued_calls_def)
    with l drops_published [of "?c\<lparr>sa_queue := Map_Del (sa_queue ?c) sid\<rparr>" x l] x(2-4) show ?thesis
      by (simp add: ClearQueue_def clearQueueAndNotify_def Let_def)
  qed
  have act: "ac \<in> sa_cancelled (Cancel a sid) \<and> IsSessionBusy (Cancel a sid) sid" if "Map_Get (sa_active a) sid = Some ac" for ac
    using that by (auto simp: C IsSessionBusy_def cancel_active_def split: option.splits)
  have idle: "Cancel a sid = a" if "\<not> IsSessionBusy a sid" "\<not> IsSessionBusy a (sid @ ''-summarize'')"
    "Map_Get (sa_accepted a) sid = None" "queued_calls a sid = []"
    using that by (simp add: Cancel_def Let_def cancel_active_def IsSessionBusy_def Cancel_raise_def Cancel_read_def
        ClearQueue_def QueuedPrompts_def)
  show ?thesis
    unfolding C [symmetric] using act idle clear ev by (auto simp: C)
qed

theorem cancel_stops_session_witness:
  "Cancel (NewSessionAgent True) ''s'' = NewSessionAgent True"
  using cancel_stops_session [OF demo_start rtranclp.rtrancl_refl, of "''s''"]
  by (simp add: NewSessionAgent_def IsSessionBusy_def queued_calls_def smap_defs)

subsection \<open>Where the guarantees end\<close>

text \<open>
  A turn that ends in an error returns without the hand-off. A prompt with a RunID queued behind it
  stays in the queue of an idle session: nothing runs it, and its terminal event is never published
  until someone submits another prompt.
\<close>

definition stranded :: session_agent where
  "stranded = the (agent_execs [OpRun (demo_call ''r1'') True, OpLoaded 0, OpRun (demo_call ''r2'') True,
     OpError 0 False, OpLeave 0] (NewSessionAgent True))"

lemma errored_turn_strands_queue:
  "\<not> IsBusy stranded \<and> inner (sa_runs stranded) = [] \<and> map ag_run (queued_calls stranded ''s'') = [''r2''] \<and>
   ended stranded ''r2'' = 0"
  unfolding stranded_def by code_simp

text \<open>
  A turn interrupted for a summary re-queues its own call. If a cancel empties the queue before the
  hand-off, the drop publishes the call's terminal event, and the finishing turn publishes it again.
\<close>

definition continued :: "session_agent" where
  "continued =
     (let a = the (agent_execs [OpRun (demo_call ''r1'') True, OpLoaded 0] (NewSessionAgent True));
          a = the (Run_compact a 0);
          (ac, a) = Summarize_register a ''s'';
          (_, a) = Summarize_finish a ''s'' ac;
          a = the (Run_requeue a 0)
      in the (agent_execs [OpCancel ''s'', OpRelease 0, OpHandoff 0 False] a))"

lemma continuation_ends_twice: "count_list (sa_submitted continued) ''r1'' = 1 \<and> ended continued ''r1'' = 2"
  unfolding continued_def by code_simp

text \<open>
  After its summary a turn deletes the session's entry without checking whose it is. A prompt that
  became active once the summary had released the session loses its entry; a third prompt then finds
  the session idle, and two turns run on it.
\<close>

definition wiped :: "session_agent" where
  "wiped =
     (let a = the (agent_execs [OpRun (demo_call ''r1'') True, OpLoaded 0] (NewSessionAgent True));
          a = the (Run_compact a 0);
          (ac, a) = Summarize_register a ''s'';
          (_, a) = Summarize_finish a ''s'' ac
      in the (agent_execs [OpRun (demo_call ''r2'') True, OpRelease 0, OpRun (demo_call ''r3'') True] a))"

lemma summary_breaks_single_run:
  "map (\<lambda>(r, run). (ag_run (rn_call run), rn_phase run)) (filter (\<lambda>(r, run). r \<noteq> 0) (inner (sa_runs wiped))) =
     [(''r2'', Loading), (''r3'', Loading)]"
  unfolding wiped_def by code_simp

text \<open>
  \<^verbatim>\<open>Cancel\<close> raises the mark after it has released \<^verbatim>\<open>acceptedMu\<close>. When the last reservation is closed in
  between (outside \<^verbatim>\<open>Run\<close>, as \<^verbatim>\<open>runAgent\<close> does on a failure), the mark is left on an idle session, and
  it later drops an untracked prompt queued behind a new turn.
\<close>

definition poisoned :: "session_agent" where
  "poisoned =
     (let a = the (agent_execs [OpAccept ''s''] (NewSessionAgent True));
          snapshot = Cancel_read a ''s'';
          a = the (agent_execs [OpClose 0] a);
          a = Cancel_raise a ''s'' snapshot
      in the (agent_execs [OpRun (demo_call ''r1'') True, OpLoaded 0, OpRun (demo_call []) True, OpStep 0] a))"

lemma cancel_race_leaves_mark:
  "Map_Get (sa_mark poisoned) ''s'' = Some 1 \<and> open_of (sa_handles poisoned) ''s'' = 0 \<and>
   queued_calls poisoned ''s'' = []"
  unfolding poisoned_def by code_simp

end
