(* ===== verification/Message_Store.thy ===== *)
theory Message_Store
  imports Message_Content
begin

section \<open>The message store: \<^verbatim>\<open>internal/message/message.go\<close>\<close>

text \<open>
  The store buffers streaming updates and writes them behind the caller. Its state is the database
  table, the map from message IDs to coalescing buffers (\<^verbatim>\<open>*pendingState\<close>, a pointer into
  \<open>ms_heap\<close>: a flusher keeps its pointer when a deletion removes the entry), and the SQL writes in
  flight. \<^verbatim>\<open>flushOne\<close> is split where it gives up the mutex: \<open>flush_begin\<close> up to the write,
  \<open>flush_write\<close> (the SQL statement, whose success is an argument), \<open>flush_end\<close> after it.
  \<^verbatim>\<open>Update\<close> up to its unlock is \<open>Update_accept\<close>, \<^verbatim>\<open>Delete\<close> is \<open>Delete_row\<close> and \<open>Delete_pending\<close>.

  The parts column holds one wrapper per part, its type tag and its JSON value of type \<open>'j\<close>;
  encoding and decoding one part are the arguments \<open>enc\<close> and \<open>dec\<close>. \<open>ms_used\<close> records the IDs drawn,
  so that a fresh UUID is one not in it.
\<close>

subsection \<open>Encoding of parts\<close>

fun part_type :: "content_part \<Rightarrow> string" where
  "part_type (TextContent _) = ''text''"
| "part_type (Reasoning _) = ''reasoning''"
| "part_type (ImageURLContent _ _) = ''image_url''"
| "part_type (Binary _) = ''binary''"
| "part_type (ToolCall _) = ''tool_call''"
| "part_type (ToolResult _) = ''tool_result''"
| "part_type (Finish _) = ''finish''"
| "part_type (Shell _) = ''shell_command''"

definition known_types :: "string list" where
  "known_types = [''reasoning'', ''text'', ''image_url'', ''binary'', ''tool_call'', ''tool_result'', ''finish'',
     ''shell_command'']"

definition marshalParts :: "(content_part \<Rightarrow> 'j) \<Rightarrow> content_part list \<Rightarrow> (string \<times> 'j) list" where
  "marshalParts enc parts = map (\<lambda>p. (part_type p, enc p)) parts"

fun unmarshalParts :: "(string \<Rightarrow> 'j \<Rightarrow> content_part option) \<Rightarrow> (string \<times> 'j) list \<Rightarrow> content_part list option" where
  "unmarshalParts dec [] = Some []"
| "unmarshalParts dec ((typ, data) # ws) =
     (if typ \<notin> set known_types then None
      else case dec typ data of
             None \<Rightarrow> None
           | Some p \<Rightarrow> map_option ((#) p) (unmarshalParts dec ws))"

lemma unmarshal_marshal:
  assumes "\<And>p. p \<in> set parts \<Longrightarrow> dec (part_type p) (enc p) = Some p"
  shows "unmarshalParts dec (marshalParts enc parts) = Some parts"
  using assms
proof (induction parts)
  case (Cons p parts)
  have "part_type p \<in> set known_types" by (cases p) (simp_all add: known_types_def)
  with Cons show ?case by (simp add: marshalParts_def)
qed (simp add: marshalParts_def)

subsection \<open>State\<close>

record 'j message_row =
  mr_id :: string
  mr_session :: string
  mr_role :: message_role
  mr_parts :: "(string \<times> 'j) list"
  mr_model :: "string option"
  mr_provider :: "string option"
  mr_finished :: "int option"
  mr_created :: int
  mr_updated :: int
  mr_summary :: bool

record pending_state =
  pd_latest :: chat_message
  pd_dirty :: bool
  pd_flushing :: bool
  pd_timer :: bool
  pd_last :: "chat_message option"

record inflight_write =
  iw_ptr :: nat
  iw_snap :: chat_message
  iw_terminal :: bool
  iw_done :: "bool option"

datatype store_event = StoreCreated chat_message | StoreUpdated chat_message bool | StoreDeleted chat_message

record 'j message_store =
  ms_rows :: "(string, 'j message_row) gomap"
  ms_debounce :: int
  ms_pending :: "(string, nat) gomap"
  ms_heap :: "nat \<Rightarrow> pending_state"
  ms_next :: nat
  ms_inflight :: "(nat, inflight_write) gomap"
  ms_next_write :: nat
  ms_events :: "store_event list"
  ms_used :: "string list"

datatype store_error = ErrNoRows | ErrParts | ErrDatabase

definition blank_chat :: chat_message where
  "blank_chat = \<lparr>cm_id = [], cm_role = User, cm_session = [], cm_parts = [], cm_model = [], cm_provider = [],
     cm_created = 0, cm_updated = 0, cm_summary = False\<rparr>"

definition new_pending :: pending_state where
  "new_pending = \<lparr>pd_latest = blank_chat, pd_dirty = False, pd_flushing = False, pd_timer = False, pd_last = None\<rparr>"

definition NewService :: "int \<Rightarrow> 'j message_store" where
  "NewService debounce = \<lparr>ms_rows = [], ms_debounce = debounce, ms_pending = [], ms_heap = (\<lambda>_. new_pending), ms_next = 0,
     ms_inflight = [], ms_next_write = 0, ms_events = [], ms_used = []\<rparr>"

subsection \<open>Reading\<close>

definition fromDBItem :: "(string \<Rightarrow> 'j \<Rightarrow> content_part option) \<Rightarrow> 'j message_row \<Rightarrow> chat_message option" where
  "fromDBItem dec item =
     map_option (\<lambda>parts. \<lparr>cm_id = mr_id item, cm_role = mr_role item, cm_session = mr_session item, cm_parts = parts,
         cm_model = (case mr_model item of Some s \<Rightarrow> s | None \<Rightarrow> []),
         cm_provider = (case mr_provider item of Some s \<Rightarrow> s | None \<Rightarrow> []),
         cm_created = mr_created item, cm_updated = mr_updated item, cm_summary = mr_summary item\<rparr>)
       (unmarshalParts dec (mr_parts item))"

definition Get_message :: "(string \<Rightarrow> 'j \<Rightarrow> content_part option) \<Rightarrow> 'j message_store \<Rightarrow> string \<Rightarrow> store_error + chat_message" where
  "Get_message dec s i =
     (case map_of (ms_rows s) i of
        None \<Rightarrow> Inl ErrNoRows
      | Some item \<Rightarrow> (case fromDBItem dec item of None \<Rightarrow> Inl ErrParts | Some m \<Rightarrow> Inr m))"

fun from_items :: "(string \<Rightarrow> 'j \<Rightarrow> content_part option) \<Rightarrow> 'j message_row list \<Rightarrow> store_error + chat_message list" where
  "from_items dec [] = Inr []"
| "from_items dec (x # xs) =
     (case fromDBItem dec x of
        None \<Rightarrow> Inl ErrParts
      | Some m \<Rightarrow> (case from_items dec xs of Inl e \<Rightarrow> Inl e | Inr ms \<Rightarrow> Inr (m # ms)))"

definition table :: "'j message_store \<Rightarrow> 'j message_row list" where
  "table s = map snd (ms_rows s)"

definition List_messages :: "(string \<Rightarrow> 'j \<Rightarrow> content_part option) \<Rightarrow> 'j message_store \<Rightarrow> string \<Rightarrow> store_error + chat_message list" where
  "List_messages dec s sid =
     from_items dec (sort_key mr_created (filter (\<lambda>r. mr_session r = sid) (table s)))"

definition ListUserMessages :: "(string \<Rightarrow> 'j \<Rightarrow> content_part option) \<Rightarrow> 'j message_store \<Rightarrow> string \<Rightarrow> store_error + chat_message list" where
  "ListUserMessages dec s sid =
     from_items dec (sort_key (\<lambda>r. - mr_created r) (filter (\<lambda>r. mr_session r = sid \<and> mr_role r = User) (table s)))"

definition ListAllUserMessages :: "(string \<Rightarrow> 'j \<Rightarrow> content_part option) \<Rightarrow> 'j message_store \<Rightarrow> store_error + chat_message list" where
  "ListAllUserMessages dec s =
     from_items dec (sort_key (\<lambda>r. - mr_created r) (filter (\<lambda>r. mr_role r = User) (table s)))"

definition GetLastAssistantMessage :: "(string \<Rightarrow> 'j \<Rightarrow> content_part option) \<Rightarrow> 'j message_store \<Rightarrow> string \<Rightarrow> store_error + chat_message" where
  "GetLastAssistantMessage dec s sid =
     (case sort_key (\<lambda>r. - mr_created r)
             (filter (\<lambda>r. mr_session r = sid \<and> mr_role r = Assistant \<and> \<not> mr_summary r) (table s)) of
        [] \<Rightarrow> Inl ErrNoRows
      | item # _ \<Rightarrow> (case fromDBItem dec item of None \<Rightarrow> Inl ErrParts | Some m \<Rightarrow> Inr m))"

subsection \<open>Creating\<close>

definition insert_row :: "'j message_store \<Rightarrow> 'j message_row \<Rightarrow> chat_message \<Rightarrow> 'j message_store" where
  "insert_row s row m = s\<lparr>ms_rows := ms_rows s @ [(mr_id row, row)], ms_used := mr_id row # ms_used s,
     ms_events := ms_events s @ [StoreCreated m]\<rparr>"

definition created_parts :: "message_role \<Rightarrow> content_part list \<Rightarrow> content_part list" where
  "created_parts role parts =
     (if role \<noteq> Assistant
      then parts @ [Finish \<lparr>fc_reason = FinishReasonOther ''stop'', fc_time = 0, fc_message = [], fc_details = []\<rparr>]
      else parts)"

text \<open>\<open>ok\<close> is the success of the insert; \<open>uuid\<close> the identifier drawn, \<open>now\<close> the database clock.\<close>

definition Create_message :: "(content_part \<Rightarrow> 'j) \<Rightarrow> (string \<Rightarrow> 'j \<Rightarrow> content_part option) \<Rightarrow> string \<Rightarrow> int \<Rightarrow> bool \<Rightarrow>
    'j message_store \<Rightarrow> string \<Rightarrow> message_role \<Rightarrow> content_part list \<Rightarrow> string \<Rightarrow> string \<Rightarrow> bool \<Rightarrow>
    (store_error + chat_message) \<times> 'j message_store" where
  "Create_message enc dec uuid now ok s sid role parts model provider is_summary =
     (if \<not> ok then (Inl ErrDatabase, s)
      else
        let row = \<lparr>mr_id = uuid, mr_session = sid, mr_role = role, mr_parts = marshalParts enc (created_parts role parts),
                   mr_model = Some model, mr_provider = (if provider \<noteq> [] then Some provider else None),
                   mr_finished = None, mr_created = now, mr_updated = now, mr_summary = is_summary\<rparr>
        in case fromDBItem dec row of
             None \<Rightarrow> (Inl ErrParts, s\<lparr>ms_rows := ms_rows s @ [(uuid, row)], ms_used := uuid # ms_used s\<rparr>)
           | Some m \<Rightarrow> (Inr m, insert_row s row m))"

definition CloneToSession :: "(content_part \<Rightarrow> 'j) \<Rightarrow> (string \<Rightarrow> 'j \<Rightarrow> content_part option) \<Rightarrow> string \<Rightarrow> int \<Rightarrow> bool \<Rightarrow>
    'j message_store \<Rightarrow> string \<Rightarrow> chat_message \<Rightarrow> (store_error + chat_message) \<times> 'j message_store" where
  "CloneToSession enc dec uuid now ok s sid source =
     (if \<not> ok then (Inl ErrDatabase, s)
      else
        let row = \<lparr>mr_id = uuid, mr_session = sid, mr_role = cm_role source, mr_parts = marshalParts enc (cm_parts source),
                   mr_model = (if cm_model source \<noteq> [] then Some (cm_model source) else None),
                   mr_provider = (if cm_provider source \<noteq> [] then Some (cm_provider source) else None),
                   mr_finished = None, mr_created = now, mr_updated = now, mr_summary = cm_summary source\<rparr>
        in case fromDBItem dec row of
             None \<Rightarrow> (Inl ErrParts, s\<lparr>ms_rows := ms_rows s @ [(uuid, row)], ms_used := uuid # ms_used s\<rparr>)
           | Some m \<Rightarrow> (Inr m, insert_row s row m))"

subsection \<open>Updating\<close>

fun calls_differ :: "tool_call list \<Rightarrow> tool_call list \<Rightarrow> bool" where
  "calls_differ (n # ns) (p # ps) = (tc_finished n \<noteq> tc_finished p \<or> calls_differ ns ps)"
| "calls_differ _ _ = False"

definition shouldFlushNow :: "chat_message option \<Rightarrow> chat_message \<Rightarrow> bool" where
  "shouldFlushNow prev nxt =
     (if IsFinished nxt then True
      else
        let prevCalls = (case prev of Some p \<Rightarrow> ToolCalls p | None \<Rightarrow> []);
            prevReasoningFinishedAt = (case prev of Some p \<Rightarrow> rc_finished (ReasoningContent p) | None \<Rightarrow> 0);
            nextCalls = ToolCalls nxt
        in if length nextCalls \<noteq> length prevCalls then True
           else if calls_differ nextCalls prevCalls then True
           else rc_finished (ReasoningContent nxt) > 0 \<and> prevReasoningFinishedAt = 0)"

text \<open>The entry of an ID, allocated when it is missing.\<close>

definition pending_entry :: "'j message_store \<Rightarrow> string \<Rightarrow> nat \<times> 'j message_store" where
  "pending_entry s i =
     (case map_of (ms_pending s) i of
        Some p \<Rightarrow> (p, s)
      | None \<Rightarrow> (ms_next s, s\<lparr>ms_pending := AList.update i (ms_next s) (ms_pending s),
                            ms_heap := (ms_heap s)(ms_next s := new_pending), ms_next := Suc (ms_next s)\<rparr>))"

definition put_heap :: "'j message_store \<Rightarrow> nat \<Rightarrow> pending_state \<Rightarrow> 'j message_store" where
  "put_heap s p st = s\<lparr>ms_heap := (ms_heap s)(p := st)\<rparr>"

text \<open>\<^verbatim>\<open>Update\<close> up to its unlock; the result says whether it goes on to flush synchronously.\<close>

definition Update_accept :: "'j message_store \<Rightarrow> chat_message \<Rightarrow> bool \<times> 'j message_store" where
  "Update_accept s msg =
     (let (p, s) = pending_entry s (cm_id msg);
          st = (ms_heap s p)\<lparr>pd_latest := msg, pd_dirty := True\<rparr> in
      if ms_debounce s \<le> 0 then (True, put_heap s p st)
      else if shouldFlushNow (pd_last st) msg then (True, put_heap s p (st\<lparr>pd_timer := False\<rparr>))
      else if \<not> pd_timer st \<and> \<not> pd_flushing st then (False, put_heap s p (st\<lparr>pd_timer := True\<rparr>))
      else (False, put_heap s p st))"

subsection \<open>Flushing\<close>

datatype flush_result = FlushReturn | FlushWait | FlushWrite nat

definition flush_begin :: "'j message_store \<Rightarrow> string \<Rightarrow> bool \<Rightarrow> flush_result \<times> 'j message_store" where
  "flush_begin s i syncCaller =
     (case map_of (ms_pending s) i of
        None \<Rightarrow> (FlushReturn, s)
      | Some p \<Rightarrow>
          let st = ms_heap s p in
          if pd_flushing st then (if \<not> syncCaller then FlushReturn else FlushWait, s)
          else if \<not> pd_dirty st then (FlushReturn, s)
          else
            let snap = pd_latest st; w = ms_next_write s in
            (FlushWrite w,
             put_heap (s\<lparr>ms_next_write := Suc w,
                         ms_inflight := AList.update w
                           \<lparr>iw_ptr = p, iw_snap = snap, iw_terminal = shouldFlushNow (pd_last st) snap, iw_done = None\<rparr>
                           (ms_inflight s)\<rparr>)
               p (st\<lparr>pd_timer := False, pd_flushing := True, pd_dirty := False\<rparr>)))"

definition update_row :: "(content_part \<Rightarrow> 'j) \<Rightarrow> int \<Rightarrow> chat_message \<Rightarrow> 'j message_store \<Rightarrow> 'j message_store" where
  "update_row enc now msg s =
     (case map_of (ms_rows s) (cm_id msg) of
        None \<Rightarrow> s
      | Some r \<Rightarrow> s\<lparr>ms_rows := AList.update (cm_id msg)
          (r\<lparr>mr_parts := marshalParts enc (cm_parts msg), mr_finished := map_option fc_time (FinishPart msg), mr_updated := now\<rparr>)
          (ms_rows s)\<rparr>)"

definition flush_write :: "(content_part \<Rightarrow> 'j) \<Rightarrow> int \<Rightarrow> bool \<Rightarrow> 'j message_store \<Rightarrow> nat \<Rightarrow> 'j message_store option" where
  "flush_write enc now ok s w =
     (case map_of (ms_inflight s) w of
        None \<Rightarrow> None
      | Some iw \<Rightarrow>
          if iw_done iw \<noteq> None then None
          else
            let s = (if ok then update_row enc now (iw_snap iw) s else s) in
            Some (s\<lparr>ms_inflight := AList.update w (iw\<lparr>iw_done := Some ok\<rparr>) (ms_inflight s)\<rparr>))"

text \<open>The result: whether the write failed, and whether a synchronous caller goes round again.\<close>

definition flush_end :: "'j message_store \<Rightarrow> nat \<Rightarrow> (bool \<times> bool \<times> 'j message_store) option" where
  "flush_end s w =
     (case map_of (ms_inflight s) w of
        None \<Rightarrow> None
      | Some iw \<Rightarrow>
          (case iw_done iw of
             None \<Rightarrow> None
           | Some ok \<Rightarrow>
               let p = iw_ptr iw; st = (ms_heap s p)\<lparr>pd_flushing := False\<rparr>;
                   st = (if ok then st\<lparr>pd_last := Some (iw_snap iw)\<rparr> else st\<lparr>pd_dirty := True\<rparr>);
                   s = put_heap (s\<lparr>ms_inflight := AList.delete w (ms_inflight s)\<rparr>) p st
               in Some (if \<not> ok then (True, False, s)
                        else (False, pd_dirty st,
                              s\<lparr>ms_events := ms_events s @ [StoreUpdated (iw_snap iw) (iw_terminal iw)]\<rparr>))))"

definition FlushAll_ids :: "'j message_store \<Rightarrow> string list" where
  "FlushAll_ids s = map fst (filter (\<lambda>(i, p). pd_dirty (ms_heap s p) \<or> pd_flushing (ms_heap s p)) (ms_pending s))"

text \<open>
  \<^verbatim>\<open>flushOne\<close> by one goroutine that nobody disturbs: one round writes all there is, so a second finds
  the entry clean. \<open>None\<close> is waiting for a write in flight. \<^verbatim>\<open>FlushAll\<close> keeps the first error.
\<close>

definition flushOne :: "(content_part \<Rightarrow> 'j) \<Rightarrow> int \<Rightarrow> bool \<Rightarrow> 'j message_store \<Rightarrow> string \<Rightarrow> (bool \<times> 'j message_store) option" where
  "flushOne enc now ok s i =
     (case flush_begin s i True of
        (FlushReturn, s) \<Rightarrow> Some (True, s)
      | (FlushWait, s) \<Rightarrow> None
      | (FlushWrite w, s) \<Rightarrow>
          (case flush_write enc now ok s w of
             None \<Rightarrow> None
           | Some s \<Rightarrow> map_option (\<lambda>(err, again, s). (\<not> err, s)) (flush_end s w)))"

fun flush_ids :: "(content_part \<Rightarrow> 'j) \<Rightarrow> int \<Rightarrow> (string \<Rightarrow> bool) \<Rightarrow> 'j message_store \<Rightarrow> string list \<Rightarrow> bool \<Rightarrow>
    (bool \<times> 'j message_store) option" where
  "flush_ids enc now ok s [] good = Some (good, s)"
| "flush_ids enc now ok s (i # is) good =
     (case flushOne enc now (ok i) s i of
        None \<Rightarrow> None
      | Some (fine, s) \<Rightarrow> flush_ids enc now ok s is (good \<and> fine))"

definition FlushAll :: "(content_part \<Rightarrow> 'j) \<Rightarrow> int \<Rightarrow> (string \<Rightarrow> bool) \<Rightarrow> 'j message_store \<Rightarrow> (bool \<times> 'j message_store) option" where
  "FlushAll enc now ok s = flush_ids enc now ok s (FlushAll_ids s) True"

subsection \<open>Deleting\<close>

definition Delete_row :: "(string \<Rightarrow> 'j \<Rightarrow> content_part option) \<Rightarrow> bool \<Rightarrow> 'j message_store \<Rightarrow> string \<Rightarrow>
    (store_error + chat_message) \<times> 'j message_store" where
  "Delete_row dec ok s i =
     (case Get_message dec s i of
        Inl e \<Rightarrow> (Inl e, s)
      | Inr m \<Rightarrow> if \<not> ok then (Inl ErrDatabase, s) else (Inr m, s\<lparr>ms_rows := AList.delete (cm_id m) (ms_rows s)\<rparr>))"

definition Delete_pending :: "'j message_store \<Rightarrow> string \<Rightarrow> chat_message \<Rightarrow> 'j message_store" where
  "Delete_pending s i m =
     (let s = (case map_of (ms_pending s) i of
                 None \<Rightarrow> s
               | Some p \<Rightarrow> (put_heap s p ((ms_heap s p)\<lparr>pd_timer := False\<rparr>))\<lparr>ms_pending := AList.delete i (ms_pending s)\<rparr>)
      in s\<lparr>ms_events := ms_events s @ [StoreDeleted m]\<rparr>)"

definition Delete_message :: "(string \<Rightarrow> 'j \<Rightarrow> content_part option) \<Rightarrow> bool \<Rightarrow> 'j message_store \<Rightarrow> string \<Rightarrow>
    store_error option \<times> 'j message_store" where
  "Delete_message dec ok s i =
     (case Delete_row dec ok s i of
        (Inl e, s) \<Rightarrow> (Some e, s)
      | (Inr m, s) \<Rightarrow> (None, Delete_pending s i m))"

fun delete_all :: "(string \<Rightarrow> 'j \<Rightarrow> content_part option) \<Rightarrow> bool \<Rightarrow> string \<Rightarrow> 'j message_store \<Rightarrow> chat_message list \<Rightarrow>
    store_error option \<times> 'j message_store" where
  "delete_all dec ok sid s [] = (None, s)"
| "delete_all dec ok sid s (m # ms) =
     (if cm_session m = sid then
        (case Delete_message dec ok s (cm_id m) of
           (Some e, s) \<Rightarrow> (Some e, s)
         | (None, s) \<Rightarrow> delete_all dec ok sid s ms)
      else delete_all dec ok sid s ms)"

definition DeleteSessionMessages :: "(string \<Rightarrow> 'j \<Rightarrow> content_part option) \<Rightarrow> bool \<Rightarrow> 'j message_store \<Rightarrow> string \<Rightarrow>
    store_error option \<times> 'j message_store" where
  "DeleteSessionMessages dec ok s sid =
     (case List_messages dec s sid of
        Inl e \<Rightarrow> (Some e, s)
      | Inr ms \<Rightarrow> delete_all dec ok sid s ms)"

end
