(* ===== verification/Message_Store_Props.thy ===== *)
theory Message_Store_Props
  imports Message_Store
begin

section \<open>What the message store guarantees\<close>

text \<open>
  The store as a step relation, any number of goroutines updating, flushing, creating and deleting,
  and its invariant \<open>store_inv\<close>: an entry that is neither dirty nor being flushed agrees with its row,
  and while a row exists at most one write for it is in flight, so writes are never reordered.
  \<^verbatim>\<open>Flush\<close>'s contract follows. The last lemma reaches the state the contract of \<^verbatim>\<open>Update\<close> excludes: a
  buffered update that no timer will ever write.
\<close>

inductive store_step :: "(content_part \<Rightarrow> 'j) \<Rightarrow> (string \<Rightarrow> 'j \<Rightarrow> content_part option) \<Rightarrow>
    'j message_store \<Rightarrow> 'j message_store \<Rightarrow> bool" for enc dec where
  st_create: "uuid \<notin> set (ms_used s) \<Longrightarrow>
     store_step enc dec s (snd (Create_message enc dec uuid now ok s sid role parts model provider sm))"
| st_clone: "uuid \<notin> set (ms_used s) \<Longrightarrow> store_step enc dec s (snd (CloneToSession enc dec uuid now ok s sid source))"
| st_update: "cm_id msg \<in> set (ms_used s) \<Longrightarrow> store_step enc dec s (snd (Update_accept s msg))"
| st_begin: "store_step enc dec s (snd (flush_begin s i sync))"
| st_write: "flush_write enc now ok s w = Some s' \<Longrightarrow> store_step enc dec s s'"
| st_end: "flush_end s w = Some (err, again, s') \<Longrightarrow> store_step enc dec s s'"
| st_delete_row: "store_step enc dec s (snd (Delete_row dec ok s i))"
| st_delete_pending: "map_of (ms_rows s) i = None \<Longrightarrow> store_step enc dec s (Delete_pending s i m)"

inductive_cases store_stepE: "store_step enc dec s s'"

definition store_start :: "'j message_store \<Rightarrow> bool" where
  "store_start s \<longleftrightarrow> (\<exists>d. s = NewService d)"

definition pending_ok :: "'j message_store \<Rightarrow> string \<Rightarrow> nat \<Rightarrow> bool" where
  "pending_ok s i p \<longleftrightarrow> p < ms_next s \<and> cm_id (pd_latest (ms_heap s p)) = i \<and> i \<in> set (ms_used s) \<and>
     (pd_timer (ms_heap s p) \<longrightarrow> pd_dirty (ms_heap s p) \<and> \<not> pd_flushing (ms_heap s p))"

definition inflight_ok :: "'j message_store \<Rightarrow> nat \<Rightarrow> inflight_write \<Rightarrow> bool" where
  "inflight_ok s w iw \<longleftrightarrow> w < ms_next_write s \<and> iw_ptr iw < ms_next s \<and> pd_flushing (ms_heap s (iw_ptr iw)) \<and>
     cm_id (iw_snap iw) = cm_id (pd_latest (ms_heap s (iw_ptr iw))) \<and> cm_id (iw_snap iw) \<in> set (ms_used s) \<and>
     (\<not> pd_dirty (ms_heap s (iw_ptr iw)) \<longrightarrow> iw_snap iw = pd_latest (ms_heap s (iw_ptr iw)))"

definition stored :: "(content_part \<Rightarrow> 'j) \<Rightarrow> 'j message_row \<Rightarrow> chat_message \<Rightarrow> bool" where
  "stored enc r m \<longleftrightarrow> mr_parts r = marshalParts enc (cm_parts m)"

definition row_flight_ok :: "(content_part \<Rightarrow> 'j) \<Rightarrow> 'j message_store \<Rightarrow> string \<Rightarrow> 'j message_row \<Rightarrow> inflight_write \<Rightarrow> bool" where
  "row_flight_ok enc s i r iw \<longleftrightarrow> cm_id (iw_snap iw) = i \<longrightarrow>
     map_of (ms_pending s) i = Some (iw_ptr iw) \<and> (iw_done iw = Some True \<longrightarrow> stored enc r (iw_snap iw))"

definition row_clean_ok :: "(content_part \<Rightarrow> 'j) \<Rightarrow> 'j message_store \<Rightarrow> 'j message_row \<Rightarrow> nat \<Rightarrow> bool" where
  "row_clean_ok enc s r p \<longleftrightarrow> \<not> pd_dirty (ms_heap s p) \<and> \<not> pd_flushing (ms_heap s p) \<longrightarrow>
     stored enc r (pd_latest (ms_heap s p))"

definition store_inv :: "(content_part \<Rightarrow> 'j) \<Rightarrow> 'j message_store \<Rightarrow> bool" where
  "store_inv enc s \<longleftrightarrow> gomap_ok (ms_rows s) \<and>
     (\<forall>i p. map_of (ms_pending s) i = Some p \<longrightarrow> pending_ok s i p) \<and>
     (\<forall>w iw. map_of (ms_inflight s) w = Some iw \<longrightarrow> inflight_ok s w iw) \<and>
     (\<forall>w v iw iv. map_of (ms_inflight s) w = Some iw \<longrightarrow> map_of (ms_inflight s) v = Some iv \<longrightarrow>
        iw_ptr iw = iw_ptr iv \<longrightarrow> w = v) \<and>
     (\<forall>i r. map_of (ms_rows s) i = Some r \<longrightarrow> i \<in> set (ms_used s) \<and> mr_id r = i) \<and>
     (\<forall>i r w iw. map_of (ms_rows s) i = Some r \<longrightarrow> map_of (ms_inflight s) w = Some iw \<longrightarrow> row_flight_ok enc s i r iw) \<and>
     (\<forall>i r p. map_of (ms_rows s) i = Some r \<longrightarrow> map_of (ms_pending s) i = Some p \<longrightarrow> row_clean_ok enc s r p)"

lemma store_invI:
  assumes "gomap_ok (ms_rows s)"
    and "\<And>i p. map_of (ms_pending s) i = Some p \<Longrightarrow> pending_ok s i p"
    and "\<And>w iw. map_of (ms_inflight s) w = Some iw \<Longrightarrow> inflight_ok s w iw"
    and "\<And>w v iw iv. map_of (ms_inflight s) w = Some iw \<Longrightarrow> map_of (ms_inflight s) v = Some iv \<Longrightarrow>
        iw_ptr iw = iw_ptr iv \<Longrightarrow> w = v"
    and "\<And>i r. map_of (ms_rows s) i = Some r \<Longrightarrow> i \<in> set (ms_used s) \<and> mr_id r = i"
    and "\<And>i r w iw. map_of (ms_rows s) i = Some r \<Longrightarrow> map_of (ms_inflight s) w = Some iw \<Longrightarrow> row_flight_ok enc s i r iw"
    and "\<And>i r p. map_of (ms_rows s) i = Some r \<Longrightarrow> map_of (ms_pending s) i = Some p \<Longrightarrow> row_clean_ok enc s r p"
  shows "store_inv enc s"
  unfolding store_inv_def using assms by blast

lemma store_invD:
  assumes "store_inv enc s"
  shows "gomap_ok (ms_rows s)"
    and "map_of (ms_pending s) i = Some p \<Longrightarrow> pending_ok s i p"
    and "map_of (ms_inflight s) w = Some iw \<Longrightarrow> inflight_ok s w iw"
    and "map_of (ms_inflight s) w = Some iw \<Longrightarrow> map_of (ms_inflight s) v = Some iv \<Longrightarrow> iw_ptr iw = iw_ptr iv \<Longrightarrow> w = v"
    and "map_of (ms_rows s) i = Some r \<Longrightarrow> i \<in> set (ms_used s) \<and> mr_id r = i"
    and "map_of (ms_rows s) i = Some r \<Longrightarrow> map_of (ms_inflight s) w = Some iw \<Longrightarrow> row_flight_ok enc s i r iw"
    and "map_of (ms_rows s) i = Some r \<Longrightarrow> map_of (ms_pending s) i = Some p \<Longrightarrow> row_clean_ok enc s r p"
  using assms unfolding store_inv_def by blast+

lemmas entry_defs = pending_ok_def inflight_ok_def row_flight_ok_def row_clean_ok_def

lemma store_inv_start: "store_start s \<Longrightarrow> store_inv enc s"
  by (auto simp: store_start_def NewService_def store_inv_def)

text \<open>Two entries never share a pointer.\<close>

lemma pending_inj:
  assumes "store_inv enc s" and "map_of (ms_pending s) i = Some p" and "map_of (ms_pending s) j = Some p"
  shows "i = j"
  using store_invD(2) [OF assms(1,2)] store_invD(2) [OF assms(1,3)] by (simp add: pending_ok_def)

text \<open>A new row: its identifier is in no entry and no write.\<close>

lemma store_inv_insert:
  assumes inv: "store_inv enc s" and fresh: "uuid \<notin> set (ms_used s)" and id: "mr_id row = uuid"
  shows "store_inv enc (s\<lparr>ms_rows := ms_rows s @ [(uuid, row)], ms_used := uuid # ms_used s, ms_events := ev\<rparr>)"
    (is "store_inv enc ?t")
proof -
  note D = store_invD [OF inv]
  have norow: "map_of (ms_rows s) uuid = None"
    using D(5) fresh by (cases "map_of (ms_rows s) uuid") (auto simp del: map_of_eq_Some_iff)
  have rows: "map_of (ms_rows ?t) i = (if i = uuid then Some row else map_of (ms_rows s) i)" for i
    using norow by (simp add: map_add_def split: option.splits)
  have pend: "i \<noteq> uuid" if "map_of (ms_pending s) i = Some p" for i p
    using D(2) [OF that] fresh by (auto simp: pending_ok_def)
  have fly: "cm_id (iw_snap iw) \<noteq> uuid" if "map_of (ms_inflight s) w = Some iw" for w iw
    using D(3) [OF that] fresh by (auto simp: inflight_ok_def)
  show ?thesis
  proof (rule store_invI)
    show "gomap_ok (ms_rows ?t)" using D(1) norow by (auto simp: map_of_eq_None_iff)
    show "pending_ok ?t i p" if "map_of (ms_pending ?t) i = Some p" for i p
      using D(2) [of i p] that by (simp add: pending_ok_def)
    show "inflight_ok ?t w iw" if "map_of (ms_inflight ?t) w = Some iw" for w iw
      using D(3) [of w iw] that by (auto simp: inflight_ok_def)
    show "w = v" if "map_of (ms_inflight ?t) w = Some iw" "map_of (ms_inflight ?t) v = Some iv" "iw_ptr iw = iw_ptr iv" for w v iw iv
      using D(4) [of w iw v iv] that by simp
    show "i \<in> set (ms_used ?t) \<and> mr_id r = i" if "map_of (ms_rows ?t) i = Some r" for i r
      using D(5) [of i r] that id unfolding rows by (auto split: if_splits)
    show "row_flight_ok enc ?t i r iw" if "map_of (ms_rows ?t) i = Some r" "map_of (ms_inflight ?t) w = Some iw" for i r w iw
      using D(6) [of i r w iw] fly [of w iw] that unfolding rows by (auto simp: row_flight_ok_def split: if_splits)
    show "row_clean_ok enc ?t r p" if "map_of (ms_rows ?t) i = Some r" "map_of (ms_pending ?t) i = Some p" for i r p
      using D(7) [of i r p] pend [of i p] that unfolding rows by (auto simp: row_clean_ok_def split: if_splits)
  qed
qed

lemma store_inv_create:
  "store_inv enc s \<Longrightarrow> uuid \<notin> set (ms_used s) \<Longrightarrow>
     store_inv enc (snd (Create_message enc dec uuid now ok s sid role parts model provider sm))"
  using store_inv_insert [of enc s uuid _ "ms_events s"]
  by (auto simp: Create_message_def insert_row_def Let_def store_inv_insert split: option.splits)

lemma store_inv_clone:
  "store_inv enc s \<Longrightarrow> uuid \<notin> set (ms_used s) \<Longrightarrow> store_inv enc (snd (CloneToSession enc dec uuid now ok s sid source))"
  using store_inv_insert [of enc s uuid _ "ms_events s"]
  by (auto simp: CloneToSession_def insert_row_def Let_def store_inv_insert split: option.splits)

lemma store_inv_latest:
  assumes inv: "store_inv enc s" and p: "map_of (ms_pending s) (cm_id msg) = Some p"
    and t: "t \<longrightarrow> \<not> pd_flushing (ms_heap s p)"
  shows "store_inv enc (put_heap s p ((ms_heap s p)\<lparr>pd_latest := msg, pd_dirty := True, pd_timer := t\<rparr>))"
    (is "store_inv enc ?t")
proof -
  note D = store_invD [OF inv]
  have pid: "cm_id (pd_latest (ms_heap s p)) = cm_id msg" using D(2) [OF p] by (simp add: pending_ok_def)
  show ?thesis
  proof (rule store_invI)
    show "gomap_ok (ms_rows ?t)" using D(1) by (simp add: put_heap_def)
    show "pending_ok ?t i q" if "map_of (ms_pending ?t) i = Some q" for i q
      using D(2) [of i q] pending_inj [OF inv p, of i] that t by (auto simp: pending_ok_def put_heap_def simp del: map_of_eq_Some_iff)
    show "inflight_ok ?t w iw" if "map_of (ms_inflight ?t) w = Some iw" for w iw
      using D(3) [of w iw] that pid by (auto simp: inflight_ok_def put_heap_def simp del: map_of_eq_Some_iff)
    show "w = v" if "map_of (ms_inflight ?t) w = Some iw" "map_of (ms_inflight ?t) v = Some iv" "iw_ptr iw = iw_ptr iv" for w v iw iv
      using D(4) [of w iw v iv] that by (simp add: put_heap_def)
    show "i \<in> set (ms_used ?t) \<and> mr_id r = i" if "map_of (ms_rows ?t) i = Some r" for i r
      using D(5) [of i r] that by (simp add: put_heap_def)
    show "row_flight_ok enc ?t i r iw" if "map_of (ms_rows ?t) i = Some r" "map_of (ms_inflight ?t) w = Some iw" for i r w iw
      using D(6) [of i r w iw] that by (simp add: row_flight_ok_def put_heap_def)
    show "row_clean_ok enc ?t r q" if "map_of (ms_rows ?t) i = Some r" "map_of (ms_pending ?t) i = Some q" for i r q
      using D(7) [of i r q] that by (auto simp: row_clean_ok_def put_heap_def)
  qed
qed

lemma store_inv_alloc:
  assumes inv: "store_inv enc s" and none: "map_of (ms_pending s) (cm_id msg) = None"
    and used: "cm_id msg \<in> set (ms_used s)"
  shows "store_inv enc (s\<lparr>ms_pending := AList.update (cm_id msg) (ms_next s) (ms_pending s),
     ms_next := Suc (ms_next s),
     ms_heap := (ms_heap s)(ms_next s := new_pending\<lparr>pd_latest := msg, pd_dirty := True, pd_timer := t\<rparr>)\<rparr>)" (is "store_inv enc ?t")
proof -
  note D = store_invD [OF inv]
  have pend: "map_of (ms_pending ?t) i = (if i = cm_id msg then Some (ms_next s) else map_of (ms_pending s) i)" for i
    by (simp add: put_heap_def gomap_simps)
  have old: "q \<noteq> ms_next s" if "map_of (ms_pending s) i = Some q" for i q
    using D(2) [OF that] by (auto simp: pending_ok_def)
  have fly: "iw_ptr iw \<noteq> ms_next s" if "map_of (ms_inflight s) w = Some iw" for w iw
    using D(3) [OF that] by (auto simp: inflight_ok_def)
  have heap: "ms_heap ?t q = ms_heap s q" if "q \<noteq> ms_next s" for q using that by (simp add: put_heap_def)
  show ?thesis
  proof (rule store_invI)
    show "gomap_ok (ms_rows ?t)" using D(1) by (simp add: put_heap_def)
    show "pending_ok ?t i q" if "map_of (ms_pending ?t) i = Some q" for i q
      using D(2) [of i q] that used old [of i q] unfolding pend
      by (auto simp: pending_ok_def put_heap_def new_pending_def simp del: map_of_eq_Some_iff split: if_splits)
    show "inflight_ok ?t w iw" if w: "map_of (ms_inflight ?t) w = Some iw" for w iw
    proof -
      from w have "map_of (ms_inflight s) w = Some iw" by (simp add: put_heap_def del: map_of_eq_Some_iff)
      from D(3) [OF this] fly [OF this] show ?thesis by (auto simp: inflight_ok_def put_heap_def)
    qed
    show "w = v" if "map_of (ms_inflight ?t) w = Some iw" "map_of (ms_inflight ?t) v = Some iv" "iw_ptr iw = iw_ptr iv" for w v iw iv
      using D(4) [of w iw v iv] that by (simp add: put_heap_def)
    show "i \<in> set (ms_used ?t) \<and> mr_id r = i" if "map_of (ms_rows ?t) i = Some r" for i r
      using D(5) [of i r] that by (simp add: put_heap_def)
    show "row_flight_ok enc ?t i r iw" if "map_of (ms_rows ?t) i = Some r" "map_of (ms_inflight ?t) w = Some iw" for i r w iw
    proof -
      have "map_of (ms_rows s) i = Some r" "map_of (ms_inflight s) w = Some iw"
        using that by (simp_all add: put_heap_def del: map_of_eq_Some_iff)
      from D(6) [OF this] none show ?thesis unfolding row_flight_ok_def pend by auto
    qed
    show "row_clean_ok enc ?t r q" if "map_of (ms_rows ?t) i = Some r" "map_of (ms_pending ?t) i = Some q" for i r q
    proof (cases "i = cm_id msg")
      case True
      with that(2) have "q = ms_next s" unfolding pend by simp
      then show ?thesis by (simp add: row_clean_ok_def put_heap_def)
    next
      case False
      with that have "map_of (ms_rows s) i = Some r" "map_of (ms_pending s) i = Some q"
        unfolding pend by (simp_all add: put_heap_def del: map_of_eq_Some_iff)
      from D(7) [OF this] old [OF this(2)] show ?thesis by (simp add: row_clean_ok_def put_heap_def)
    qed
  qed
qed

lemma store_inv_update:
  assumes inv: "store_inv enc s" and used: "cm_id msg \<in> set (ms_used s)"
  shows "store_inv enc (snd (Update_accept s msg))"
proof (cases "map_of (ms_pending s) (cm_id msg)")
  case (Some p)
  have "pd_timer (ms_heap s p) \<longrightarrow> \<not> pd_flushing (ms_heap s p)"
    using store_invD(2) [OF inv Some] by (simp add: pending_ok_def)
  then show ?thesis
    using store_inv_latest [OF inv Some, of "pd_timer (ms_heap s p)"] store_inv_latest [OF inv Some, of False]
      store_inv_latest [OF inv Some, of True] Some
    by (auto simp: Update_accept_def pending_entry_def Let_def)
next
  case None
  show ?thesis
    using store_inv_alloc [OF inv None used, of True] store_inv_alloc [OF inv None used, of False] None
    by (auto simp: Update_accept_def pending_entry_def Let_def put_heap_def new_pending_def)
qed

lemma store_inv_begin:
  assumes inv: "store_inv enc s"
  shows "store_inv enc (snd (flush_begin s i sync))"
proof (cases "\<exists>p. map_of (ms_pending s) i = Some p \<and> \<not> pd_flushing (ms_heap s p) \<and> pd_dirty (ms_heap s p)")
  case False
  then have "snd (flush_begin s i sync) = s" by (auto simp: flush_begin_def Let_def split: option.splits)
  with inv show ?thesis by simp
next
  case True
  then obtain p where p: "map_of (ms_pending s) i = Some p" "\<not> pd_flushing (ms_heap s p)" "pd_dirty (ms_heap s p)" by blast
  define nw where "nw = \<lparr>iw_ptr = p, iw_snap = pd_latest (ms_heap s p),
     iw_terminal = shouldFlushNow (pd_last (ms_heap s p)) (pd_latest (ms_heap s p)), iw_done = None\<rparr>"
  define t where "t = snd (flush_begin s i sync)"
  have t: "ms_rows t = ms_rows s" "ms_pending t = ms_pending s" "ms_used t = ms_used s" "ms_next t = ms_next s"
    "ms_next_write t = Suc (ms_next_write s)" "ms_inflight t = AList.update (ms_next_write s) nw (ms_inflight s)"
    "ms_heap t = (ms_heap s)(p := (ms_heap s p)\<lparr>pd_timer := False, pd_flushing := True, pd_dirty := False\<rparr>)"
    using p by (simp_all add: t_def nw_def flush_begin_def Let_def put_heap_def)
  note D = store_invD [OF inv]
  have pid: "cm_id (pd_latest (ms_heap s p)) = i" "p < ms_next s" "i \<in> set (ms_used s)"
    using D(2) [OF p(1)] by (auto simp: pending_ok_def)
  have noflight: "iw_ptr iw \<noteq> p" if "map_of (ms_inflight s) w = Some iw" for w iw
    using D(3) [OF that] p(2) by (auto simp: inflight_ok_def)
  have fly: "map_of (ms_inflight t) w = (if w = ms_next_write s then Some nw else map_of (ms_inflight s) w)" for w
    by (simp add: t gomap_simps)
  have "store_inv enc t"
  proof (rule store_invI)
    show "gomap_ok (ms_rows t)" using D(1) by (simp add: t)
    show "pending_ok t j q" if "map_of (ms_pending t) j = Some q" for j q
      using D(2) [of j q] that by (auto simp: pending_ok_def t)
    show "inflight_ok t w iw" if w: "map_of (ms_inflight t) w = Some iw" for w iw
    proof (cases "w = ms_next_write s")
      case True
      with w have "iw = nw" unfolding fly by simp
      with True pid show ?thesis by (simp add: inflight_ok_def t nw_def)
    next
      case False
      with w have old: "map_of (ms_inflight s) w = Some iw" unfolding fly by simp
      from D(3) [OF old] noflight [OF old] show ?thesis by (auto simp: inflight_ok_def t)
    qed
    show "w = v" if "map_of (ms_inflight t) w = Some iw" "map_of (ms_inflight t) v = Some iv" "iw_ptr iw = iw_ptr iv" for w v iw iv
      using that noflight [of w iw] noflight [of v iv] D(4) [of w iw v iv] unfolding fly
      by (auto simp: nw_def simp del: map_of_eq_Some_iff split: if_splits)
    show "j \<in> set (ms_used t) \<and> mr_id r = j" if "map_of (ms_rows t) j = Some r" for j r
      using D(5) [of j r] that by (simp add: t)
    show "row_flight_ok enc t j r iw" if "map_of (ms_rows t) j = Some r" "map_of (ms_inflight t) w = Some iw" for j r w iw
    proof (cases "w = ms_next_write s")
      case True
      with that(2) have "iw = nw" unfolding fly by simp
      with pid p(1) show ?thesis by (auto simp: row_flight_ok_def t nw_def)
    next
      case False
      with that have "map_of (ms_rows s) j = Some r" "map_of (ms_inflight s) w = Some iw"
        unfolding fly by (simp_all add: t)
      from D(6) [OF this] show ?thesis by (simp add: row_flight_ok_def t)
    qed
    show "row_clean_ok enc t r q" if "map_of (ms_rows t) j = Some r" "map_of (ms_pending t) j = Some q" for j r q
      using D(7) [of j r q] that by (simp add: row_clean_ok_def t)
  qed
  then show ?thesis by (simp add: t_def)
qed

lemma update_row_lookup:
  "map_of (ms_rows (update_row enc now m s)) i =
     (if i = cm_id m then map_option (\<lambda>r. r\<lparr>mr_parts := marshalParts enc (cm_parts m),
        mr_finished := map_option fc_time (FinishPart m), mr_updated := now\<rparr>) (map_of (ms_rows s) i)
      else map_of (ms_rows s) i)"
  by (auto simp: update_row_def gomap_simps split: option.splits)

lemma update_row_frame [simp]:
  "ms_pending (update_row enc now m s) = ms_pending s" "ms_heap (update_row enc now m s) = ms_heap s"
  "ms_next (update_row enc now m s) = ms_next s" "ms_inflight (update_row enc now m s) = ms_inflight s"
  "ms_next_write (update_row enc now m s) = ms_next_write s" "ms_used (update_row enc now m s) = ms_used s"
  "ms_events (update_row enc now m s) = ms_events s"
  "gomap_ok (ms_rows s) \<Longrightarrow> gomap_ok (ms_rows (update_row enc now m s))"
  by (auto simp: update_row_def split: option.splits)

lemma store_inv_write:
  assumes fw: "flush_write enc now ok s w = Some t" and inv: "store_inv enc s"
  shows "store_inv enc t"
proof -
  from fw obtain iw where iw: "map_of (ms_inflight s) w = Some iw" "iw_done iw = None"
    and t: "t = (let s = (if ok then update_row enc now (iw_snap iw) s else s) in
         s\<lparr>ms_inflight := AList.update w (iw\<lparr>iw_done := Some ok\<rparr>) (ms_inflight s)\<rparr>)"
    by (auto simp: flush_write_def Let_def split: option.splits if_splits)
  note D = store_invD [OF inv]
  have fr: "ms_pending t = ms_pending s" "ms_heap t = ms_heap s" "ms_next t = ms_next s"
    "ms_next_write t = ms_next_write s" "ms_used t = ms_used s"
    by (simp_all add: t Let_def)
  have fly: "map_of (ms_inflight t) v = (if v = w then Some (iw\<lparr>iw_done := Some ok\<rparr>) else map_of (ms_inflight s) v)" for v
    by (simp add: t Let_def gomap_simps)
  have rows: "map_of (ms_rows t) i = (if ok \<and> i = cm_id (iw_snap iw)
      then map_option (\<lambda>r. r\<lparr>mr_parts := marshalParts enc (cm_parts (iw_snap iw)),
        mr_finished := map_option fc_time (FinishPart (iw_snap iw)), mr_updated := now\<rparr>) (map_of (ms_rows s) i)
      else map_of (ms_rows s) i)" for i
    by (simp add: t Let_def update_row_lookup)
  have oldrow: "\<exists>r0. map_of (ms_rows s) i = Some r0 \<and> mr_id r0 = mr_id r \<and>
      (\<not> (ok \<and> i = cm_id (iw_snap iw)) \<longrightarrow> r0 = r) \<and> (ok \<and> i = cm_id (iw_snap iw) \<longrightarrow> stored enc r (iw_snap iw))"
    if "map_of (ms_rows t) i = Some r" for i r
    using that unfolding rows by (auto simp: stored_def simp del: map_of_eq_Some_iff split: if_splits)
  have flying: "pd_flushing (ms_heap s (iw_ptr iw))" using D(3) [OF iw(1)] by (simp add: inflight_ok_def)
  show ?thesis
  proof (rule store_invI)
    show "gomap_ok (ms_rows t)" using D(1) by (simp add: t Let_def)
    show "pending_ok t j q" if "map_of (ms_pending t) j = Some q" for j q
      using D(2) [of j q] that by (simp add: pending_ok_def fr)
    show "inflight_ok t v iv" if "map_of (ms_inflight t) v = Some iv" for v iv
      using D(3) [of v iv] D(3) [OF iw(1)] that unfolding fly
      by (auto simp: inflight_ok_def fr simp del: map_of_eq_Some_iff split: if_splits)
    show "u = v" if "map_of (ms_inflight t) u = Some iu" "map_of (ms_inflight t) v = Some iv" "iw_ptr iu = iw_ptr iv" for u v iu iv
      using that D(4) [of u iu v iv] D(4) [OF iw(1), of v iv] D(4) [OF _ iw(1), of u iu] unfolding fly
      by (auto simp del: map_of_eq_Some_iff split: if_splits)
    show "j \<in> set (ms_used t) \<and> mr_id r = j" if "map_of (ms_rows t) j = Some r" for j r
      using D(5) oldrow [OF that] by (auto simp: fr simp del: map_of_eq_Some_iff)
    show "row_flight_ok enc t j r iv" if r: "map_of (ms_rows t) j = Some r" and v: "map_of (ms_inflight t) v = Some iv" for j r v iv
    proof -
      obtain r0 where r0: "map_of (ms_rows s) j = Some r0" "\<not> (ok \<and> j = cm_id (iw_snap iw)) \<longrightarrow> r0 = r"
        "ok \<and> j = cm_id (iw_snap iw) \<longrightarrow> stored enc r (iw_snap iw)" using oldrow [OF r] by blast
      show ?thesis
      proof (cases "v = w")
        case True
        with v have "iv = iw\<lparr>iw_done := Some ok\<rparr>" unfolding fly by simp
        with r0 D(6) [OF r0(1) iw(1)] show ?thesis by (auto simp: row_flight_ok_def fr)
      next
        case False
        with v have v': "map_of (ms_inflight s) v = Some iv" unfolding fly by simp
        have "cm_id (iw_snap iv) \<noteq> j" if "j = cm_id (iw_snap iw)"
        proof
          assume "cm_id (iw_snap iv) = j"
          with that D(6) [OF r0(1) iw(1)] D(6) [OF r0(1) v'] have "iw_ptr iw = iw_ptr iv" by (simp add: row_flight_ok_def)
          with D(4) [OF iw(1) v'] False show False by simp
        qed
        with r0 D(6) [OF r0(1) v'] show ?thesis by (auto simp: row_flight_ok_def fr)
      qed
    qed
    show "row_clean_ok enc t r q" if r: "map_of (ms_rows t) j = Some r" and q: "map_of (ms_pending t) j = Some q" for j r q
    proof -
      obtain r0 where r0: "map_of (ms_rows s) j = Some r0" "\<not> (ok \<and> j = cm_id (iw_snap iw)) \<longrightarrow> r0 = r"
        using oldrow [OF r] by blast
      have "q = iw_ptr iw" if "j = cm_id (iw_snap iw)"
        using D(6) [OF r0(1) iw(1)] q that by (simp add: row_flight_ok_def fr)
      with D(7) [OF r0(1), of q] q r0(2) flying show ?thesis by (auto simp: row_clean_ok_def fr)
    qed
  qed
qed

lemma store_inv_end:
  assumes fe: "flush_end s w = Some (err, again, t)" and inv: "store_inv enc s"
  shows "store_inv enc t"
proof -
  from fe obtain iw ok where iw: "map_of (ms_inflight s) w = Some iw" "iw_done iw = Some ok"
    by (auto simp: flush_end_def split: option.splits)
  define st where "st = (if ok then (ms_heap s (iw_ptr iw))\<lparr>pd_flushing := False, pd_last := Some (iw_snap iw)\<rparr>
     else (ms_heap s (iw_ptr iw))\<lparr>pd_flushing := False, pd_dirty := True\<rparr>)"
  have t: "ms_rows t = ms_rows s" "ms_pending t = ms_pending s" "ms_used t = ms_used s" "ms_next t = ms_next s"
    "ms_next_write t = ms_next_write s" "ms_inflight t = AList.delete w (ms_inflight s)"
    "ms_heap t = (ms_heap s)(iw_ptr iw := st)"
    using fe iw by (auto simp: flush_end_def Let_def put_heap_def st_def split: if_splits)
  note D = store_invD [OF inv]
  have fly: "map_of (ms_inflight t) v = (if v = w then None else map_of (ms_inflight s) v)" for v
    by (simp add: t gomap_simps)
  have st: "pd_latest st = pd_latest (ms_heap s (iw_ptr iw))" "\<not> pd_flushing st"
    "\<not> pd_dirty st \<Longrightarrow> ok \<and> \<not> pd_dirty (ms_heap s (iw_ptr iw))" "pd_timer st = pd_timer (ms_heap s (iw_ptr iw))"
    "pd_dirty (ms_heap s (iw_ptr iw)) \<Longrightarrow> pd_dirty st"
    by (auto simp: st_def split: if_splits)
  have others: "iw_ptr iv \<noteq> iw_ptr iw" if "map_of (ms_inflight s) v = Some iv" "v \<noteq> w" for v iv
    using D(4) [OF that(1) iw(1)] that(2) by auto
  show ?thesis
  proof (rule store_invI)
    show "gomap_ok (ms_rows t)" using D(1) by (simp add: t)
    show "pending_ok t j q" if "map_of (ms_pending t) j = Some q" for j q
      using D(2) [of j q] that st by (auto simp: pending_ok_def t)
    show "inflight_ok t v iv" if "map_of (ms_inflight t) v = Some iv" for v iv
      using D(3) [of v iv] others [of v iv] that unfolding fly
      by (auto simp: inflight_ok_def t simp del: map_of_eq_Some_iff split: if_splits)
    show "u = v" if "map_of (ms_inflight t) u = Some iu" "map_of (ms_inflight t) v = Some iv" "iw_ptr iu = iw_ptr iv" for u v iu iv
      using that D(4) [of u iu v iv] unfolding fly by (auto split: if_splits)
    show "j \<in> set (ms_used t) \<and> mr_id r = j" if "map_of (ms_rows t) j = Some r" for j r
      using D(5) [of j r] that by (simp add: t)
    show "row_flight_ok enc t j r iv" if "map_of (ms_rows t) j = Some r" "map_of (ms_inflight t) v = Some iv" for j r v iv
      using D(6) [of j r v iv] that unfolding fly by (auto simp: row_flight_ok_def t split: if_splits)
    show "row_clean_ok enc t r q" if r: "map_of (ms_rows t) j = Some r" and q: "map_of (ms_pending t) j = Some q" for j r q
    proof (cases "q = iw_ptr iw")
      case False
      with D(7) [of j r q] r q show ?thesis by (simp add: row_clean_ok_def t)
    next
      case True
      have r': "map_of (ms_rows s) j = Some r" and q': "map_of (ms_pending s) j = Some q" using r q by (simp_all add: t)
      have "stored enc r (pd_latest st)" if "\<not> pd_dirty st"
      proof -
        from st(3) [OF that] D(3) [OF iw(1)] have snap: "iw_snap iw = pd_latest st" "ok"
          by (auto simp: inflight_ok_def st(1))
        have "cm_id (iw_snap iw) = j" using D(2) [OF q'] True snap st(1) by (simp add: pending_ok_def)
        with D(6) [OF r' iw(1)] iw(2) snap show ?thesis by (simp add: row_flight_ok_def)
      qed
      with True show ?thesis by (simp add: row_clean_ok_def t)
    qed
  qed
qed

lemma store_inv_delete_row:
  assumes inv: "store_inv enc s"
  shows "store_inv enc (snd (Delete_row dec ok s i))"
proof -
  have "store_inv enc (s\<lparr>ms_rows := AList.delete k (ms_rows s)\<rparr>)" (is "store_inv enc ?t") for k
  proof (rule store_invI)
    note D = store_invD [OF inv]
    have rows: "map_of (ms_rows s) j = Some r" if "map_of (ms_rows ?t) j = Some r" for j r
      using that by (simp add: gomap_simps split: if_splits)
    show "gomap_ok (ms_rows ?t)" using D(1) by simp
    show "pending_ok ?t j q" if "map_of (ms_pending ?t) j = Some q" for j q
      using D(2) [of j q] that by (simp add: pending_ok_def)
    show "inflight_ok ?t v iv" if "map_of (ms_inflight ?t) v = Some iv" for v iv
      using D(3) [of v iv] that by (auto simp: inflight_ok_def)
    show "u = v" if "map_of (ms_inflight ?t) u = Some iu" "map_of (ms_inflight ?t) v = Some iv" "iw_ptr iu = iw_ptr iv" for u v iu iv
      using that D(4) [of u iu v iv] by simp
    show "j \<in> set (ms_used ?t) \<and> mr_id r = j" if "map_of (ms_rows ?t) j = Some r" for j r
      using D(5) [OF rows [OF that]] by simp
    show "row_flight_ok enc ?t j r iv" if "map_of (ms_rows ?t) j = Some r" "map_of (ms_inflight ?t) v = Some iv" for j r v iv
      using D(6) [OF rows [OF that(1)], of v iv] that(2) by (simp add: row_flight_ok_def)
    show "row_clean_ok enc ?t r q" if "map_of (ms_rows ?t) j = Some r" "map_of (ms_pending ?t) j = Some q" for j r q
      using D(7) [OF rows [OF that(1)], of q] that(2) by (simp add: row_clean_ok_def)
  qed
  then show ?thesis using inv by (auto simp: Delete_row_def split: sum.splits)
qed

lemma store_inv_delete_pending:
  assumes inv: "store_inv enc s" and none: "map_of (ms_rows s) i = None"
  shows "store_inv enc (Delete_pending s i m)"
proof -
  note D = store_invD [OF inv]
  let ?t = "Delete_pending s i m"
  have fr: "ms_rows ?t = ms_rows s" "ms_inflight ?t = ms_inflight s" "ms_used ?t = ms_used s" "ms_next ?t = ms_next s"
    "ms_next_write ?t = ms_next_write s"
    by (simp_all add: Delete_pending_def Let_def put_heap_def split: option.splits)
  have pend: "map_of (ms_pending ?t) j = (if j = i then None else map_of (ms_pending s) j)" for j
    by (auto simp: Delete_pending_def Let_def put_heap_def gomap_simps split: option.splits)
  have heap: "pd_latest (ms_heap ?t q) = pd_latest (ms_heap s q)" "pd_dirty (ms_heap ?t q) = pd_dirty (ms_heap s q)"
    "pd_flushing (ms_heap ?t q) = pd_flushing (ms_heap s q)" "pd_timer (ms_heap ?t q) \<Longrightarrow> pd_timer (ms_heap s q)" for q
    by (auto simp: Delete_pending_def Let_def put_heap_def split: option.splits if_splits)
  have norow: "j \<noteq> i" if "map_of (ms_rows s) j = Some r" for j r using that none by auto
  show ?thesis
  proof (rule store_invI)
    show "gomap_ok (ms_rows ?t)" using D(1) by (simp add: fr)
    show "pending_ok ?t j q" if "map_of (ms_pending ?t) j = Some q" for j q
      using D(2) [of j q] heap(4) [of q] that unfolding pend
      by (auto simp: pending_ok_def fr heap(1-3) simp del: map_of_eq_Some_iff split: if_splits)
    show "inflight_ok ?t v iv" if "map_of (ms_inflight ?t) v = Some iv" for v iv
      using D(3) [of v iv] that by (auto simp: inflight_ok_def fr heap(1-3))
    show "u = v" if "map_of (ms_inflight ?t) u = Some iu" "map_of (ms_inflight ?t) v = Some iv" "iw_ptr iu = iw_ptr iv" for u v iu iv
      using that D(4) [of u iu v iv] by (simp add: fr)
    show "j \<in> set (ms_used ?t) \<and> mr_id r = j" if "map_of (ms_rows ?t) j = Some r" for j r
      using D(5) [of j r] that by (simp add: fr)
    show "row_flight_ok enc ?t j r iv" if "map_of (ms_rows ?t) j = Some r" "map_of (ms_inflight ?t) v = Some iv" for j r v iv
      using D(6) [of j r v iv] norow [of j r] that unfolding row_flight_ok_def pend by (simp add: fr)
    show "row_clean_ok enc ?t r q" if "map_of (ms_rows ?t) j = Some r" "map_of (ms_pending ?t) j = Some q" for j r q
      using D(7) [of j r q] norow [of j r] that unfolding row_clean_ok_def pend heap(1-3) by (simp add: fr split: if_splits)
  qed
qed

lemma store_inv_step: "store_step enc dec s t \<Longrightarrow> store_inv enc s \<Longrightarrow> store_inv enc t"
  by (induction rule: store_step.induct)
     (blast intro: store_inv_create store_inv_clone store_inv_update store_inv_begin store_inv_write store_inv_end
       store_inv_delete_row store_inv_delete_pending)+

interpretation message_store: transition_system store_start "store_step enc dec" "store_inv enc" for enc dec
  by unfold_locales (auto intro: store_inv_start store_inv_step)

subsection \<open>A concrete store\<close>

text \<open>Parts encoded as themselves; a message created, updated and being flushed.\<close>

definition demo_enc :: "content_part \<Rightarrow> content_part" where
  "demo_enc p = p"

definition demo_dec :: "string \<Rightarrow> content_part \<Rightarrow> content_part option" where
  "demo_dec t p = (if part_type p = t then Some p else None)"

definition demo_msg :: "content_part list \<Rightarrow> chat_message" where
  "demo_msg ps = \<lparr>cm_id = ''m1'', cm_role = Assistant, cm_session = ''s'', cm_parts = ps, cm_model = [], cm_provider = [],
     cm_created = 1, cm_updated = 1, cm_summary = False\<rparr>"

definition demo_created :: "content_part message_store" where
  "demo_created = snd (Create_message demo_enc demo_dec ''m1'' 1 True (NewService 33) ''s'' Assistant [] [] [] False)"

definition demo_updated :: "content_part message_store" where
  "demo_updated = snd (Update_accept demo_created (demo_msg [TextContent ''a'']))"

definition demo_flushing :: "content_part message_store" where
  "demo_flushing = snd (flush_begin demo_updated ''m1'' False)"

definition demo_written :: "content_part message_store" where
  "demo_written = the (flush_write demo_enc 2 True demo_flushing 0)"

lemma demo_store_steps:
  "(store_step demo_enc demo_dec)\<^sup>*\<^sup>* (NewService 33) demo_flushing"
  "(store_step demo_enc demo_dec)\<^sup>*\<^sup>* (NewService 33) demo_written"
proof -
  have 1: "store_step demo_enc demo_dec (NewService 33) demo_created"
    unfolding demo_created_def by (rule st_create) (simp add: NewService_def)
  have "''m1'' \<in> set (ms_used demo_created)" by code_simp
  then have 2: "store_step demo_enc demo_dec demo_created demo_updated"
    unfolding demo_updated_def by (intro st_update) (simp add: demo_msg_def)
  have 3: "store_step demo_enc demo_dec demo_updated demo_flushing"
    unfolding demo_flushing_def by (rule st_begin)
  have "flush_write demo_enc 2 True demo_flushing 0 \<noteq> None" by code_simp
  then have 4: "store_step demo_enc demo_dec demo_flushing demo_written"
    by (intro st_write [of demo_enc 2 True demo_flushing 0]) (simp add: demo_written_def)
  from 1 2 3 show a: "(store_step demo_enc demo_dec)\<^sup>*\<^sup>* (NewService 33) demo_flushing"
    by (meson rtranclp.rtrancl_into_rtrancl rtranclp.rtrancl_refl)
  with 4 show "(store_step demo_enc demo_dec)\<^sup>*\<^sup>* (NewService 33) demo_written"
    by (meson rtranclp.rtrancl_into_rtrancl)
qed

lemma demo_store_start: "store_start (NewService 33)"
  by (auto simp: store_start_def)

subsection \<open>Properties\<close>

text \<open>C7: the contract of \<^verbatim>\<open>Flush\<close>. When a synchronous flusher finds nothing left to do, or finishes its
  write with nothing new to write, the row of the message (if it still has one) holds the parts of the
  last accepted update, whatever other goroutines did in between.\<close>

theorem flush_contract:
  assumes "store_start s0" and "(store_step enc dec)\<^sup>*\<^sup>* s0 s"
    and "flush_begin s i True = (FlushReturn, t) \<or>
         (\<exists>w iw. map_of (ms_inflight s) w = Some iw \<and> flush_end s w = Some (False, False, t) \<and> cm_id (iw_snap iw) = i)"
    and "map_of (ms_rows t) i = Some r" and "map_of (ms_pending t) i = Some p"
  shows "stored enc r (pd_latest (ms_heap t p))"
proof -
  have inv: "store_inv enc s" by (rule message_store.reachable_inv [OF assms(1,2)])
  from assms(3) show ?thesis
  proof
    assume b: "flush_begin s i True = (FlushReturn, t)"
    then have t: "t = s" by (auto simp: flush_begin_def Let_def split: option.splits if_splits)
    with b assms(5) have "\<not> pd_dirty (ms_heap s p)" "\<not> pd_flushing (ms_heap s p)"
      by (auto simp: flush_begin_def Let_def simp del: map_of_eq_Some_iff split: if_splits)
    with store_invD(7) [OF inv, of i r p] assms(4,5) t show ?thesis by (simp add: row_clean_ok_def)
  next
    assume "\<exists>w iw. map_of (ms_inflight s) w = Some iw \<and> flush_end s w = Some (False, False, t) \<and> cm_id (iw_snap iw) = i"
    then obtain w iw where w: "map_of (ms_inflight s) w = Some iw" "flush_end s w = Some (False, False, t)" "cm_id (iw_snap iw) = i"
      by blast
    have t: "ms_rows t = ms_rows s" "ms_pending t = ms_pending s"
      and h: "\<not> pd_dirty (ms_heap t (iw_ptr iw))" "\<not> pd_flushing (ms_heap t (iw_ptr iw))"
      using w(1,2) by (auto simp: flush_end_def Let_def put_heap_def split: option.splits if_splits)
    from store_invD(6) [OF inv, of i r w iw] assms(4,5) w t have "p = iw_ptr iw" by (simp add: row_flight_ok_def)
    with h store_invD(7) [OF store_inv_end [OF w(2) inv], of i r p] assms(4,5) show ?thesis by (simp add: row_clean_ok_def)
  qed
qed

theorem flush_contract_witness:
  "\<exists>t r p. flush_end demo_written 0 = Some (False, False, t) \<and> map_of (ms_rows t) ''m1'' = Some r \<and>
     map_of (ms_pending t) ''m1'' = Some p \<and> stored demo_enc r (pd_latest (ms_heap t p))"
proof -
  define t where "t = snd (snd (the (flush_end demo_written 0)))"
  have fe: "map_option (\<lambda>(e, a, t). (e, a)) (flush_end demo_written 0) = Some (False, False)" by code_simp
  then have fe': "flush_end demo_written 0 = Some (False, False, t)"
    by (cases "flush_end demo_written 0") (auto simp: t_def)
  have w: "map_option (\<lambda>iw. cm_id (iw_snap iw)) (map_of (ms_inflight demo_written) 0) = Some ''m1''" by code_simp
  then obtain iw where iw: "map_of (ms_inflight demo_written) 0 = Some iw" "cm_id (iw_snap iw) = ''m1''" by auto
  have "map_of (ms_rows t) ''m1'' \<noteq> None" "map_of (ms_pending t) ''m1'' \<noteq> None"
    unfolding t_def by code_simp+
  then obtain r p where rp: "map_of (ms_rows t) ''m1'' = Some r" "map_of (ms_pending t) ''m1'' = Some p" by blast
  from flush_contract [OF demo_store_start demo_store_steps(2) _ rp] fe' iw rp show ?thesis by blast
qed

text \<open>C8: writes are never reordered: while a message has its row, at most one SQL write for it is in
  flight, and that write belongs to its buffer.\<close>

theorem writes_serialized:
  assumes "store_start s0" and "(store_step enc dec)\<^sup>*\<^sup>* s0 s"
    and "map_of (ms_rows s) i = Some r"
    and "map_of (ms_inflight s) w = Some iw" and "map_of (ms_inflight s) v = Some iv"
    and "cm_id (iw_snap iw) = i" and "cm_id (iw_snap iv) = i"
  shows "w = v \<and> map_of (ms_pending s) i = Some (iw_ptr iw)"
proof -
  have inv: "store_inv enc s" by (rule message_store.reachable_inv [OF assms(1,2)])
  from store_invD(6) [OF inv assms(3,4)] store_invD(6) [OF inv assms(3,5)] assms(6,7)
  show ?thesis using store_invD(4) [OF inv assms(4,5)] by (simp add: row_flight_ok_def)
qed

theorem writes_serialized_witness:
  "\<exists>r iw. map_of (ms_rows demo_flushing) ''m1'' = Some r \<and> map_of (ms_inflight demo_flushing) 0 = Some iw \<and>
     map_of (ms_pending demo_flushing) ''m1'' = Some (iw_ptr iw)"
proof -
  have "map_option (\<lambda>iw. cm_id (iw_snap iw)) (map_of (ms_inflight demo_flushing) 0) = Some ''m1''"
    "map_of (ms_rows demo_flushing) ''m1'' \<noteq> None" by code_simp+
  then obtain iw r where *: "map_of (ms_inflight demo_flushing) 0 = Some iw" "cm_id (iw_snap iw) = ''m1''"
    "map_of (ms_rows demo_flushing) ''m1'' = Some r" by auto
  from writes_serialized [OF demo_store_start demo_store_steps(1) *(3) *(1) *(1) *(2) *(2)] * show ?thesis by blast
qed

text \<open>A terminal update is on disk when \<^verbatim>\<open>Update\<close> returns. With no write of the message in flight, an
  update that carries a finish part takes the synchronous path, its flush succeeds in one round, the row
  then holds exactly its parts and finish time, and the event goes out on the must-deliver path.\<close>

theorem terminal_update_lands:
  assumes "map_of (ms_rows s) (cm_id msg) = Some r" and "FinishPart msg = Some f"
    and "\<forall>p. map_of (ms_pending s) (cm_id msg) = Some p \<longrightarrow> \<not> pd_flushing (ms_heap s p)"
    and "\<forall>w. map_of (ms_inflight s) w \<noteq> None \<longrightarrow> w < ms_next_write s"
  shows "\<exists>s1 s2 r2. Update_accept s msg = (True, s1) \<and> flushOne enc now True s1 (cm_id msg) = Some (True, s2) \<and>
     map_of (ms_rows s2) (cm_id msg) = Some r2 \<and> stored enc r2 msg \<and> mr_finished r2 = Some (fc_time f) \<and>
     ms_events s2 = ms_events s @ [StoreUpdated msg True]"
proof -
  have fin: "shouldFlushNow prev msg" for prev
    using assms(2) by (auto simp: shouldFlushNow_def IsFinished_def FinishPart_def dest: first_some_SomeD)
  define s1 where "s1 = snd (Update_accept s msg)"
  obtain p where p: "map_of (ms_pending s1) (cm_id msg) = Some p" "pd_latest (ms_heap s1 p) = msg"
    "pd_dirty (ms_heap s1 p)" "\<not> pd_flushing (ms_heap s1 p)"
    and fr: "ms_rows s1 = ms_rows s" "ms_inflight s1 = ms_inflight s" "ms_next_write s1 = ms_next_write s"
      "ms_events s1 = ms_events s" and acc: "Update_accept s msg = (True, s1)"
  proof (cases "map_of (ms_pending s) (cm_id msg)")
    case None
    show ?thesis
      by (rule that [of "ms_next s"])
         (simp_all add: s1_def Update_accept_def pending_entry_def None Let_def fin put_heap_def new_pending_def gomap_simps)
  next
    case (Some q)
    then show ?thesis
      using assms(3) by (intro that [of q])
        (simp_all add: s1_def Update_accept_def pending_entry_def Let_def fin put_heap_def del: map_of_eq_Some_iff)
  qed
  have nw: "map_of (ms_inflight s) (ms_next_write s) = None" using assms(4) by blast
  let ?r = "r\<lparr>mr_parts := marshalParts enc (cm_parts msg), mr_finished := Some (fc_time f), mr_updated := now\<rparr>"
  obtain s2 where s2: "flushOne enc now True s1 (cm_id msg) = Some (True, s2)"
    "map_of (ms_rows s2) (cm_id msg) = Some ?r" "ms_events s2 = ms_events s @ [StoreUpdated msg True]"
    using p fr assms(1,2) fin nw
    by (simp add: flushOne_def flush_begin_def flush_write_def flush_end_def Let_def put_heap_def gomap_simps
        update_row_def del: map_of_eq_Some_iff)
  then show ?thesis using acc by (auto simp: stored_def)
qed

theorem terminal_update_lands_witness:
  "\<exists>s1. Update_accept demo_created (demo_msg [Finish \<lparr>fc_reason = FinishReasonEndTurn, fc_time = 7, fc_message = [], fc_details = []\<rparr>])
     = (True, s1)"
proof -
  let ?m = "demo_msg [Finish \<lparr>fc_reason = FinishReasonEndTurn, fc_time = 7, fc_message = [], fc_details = []\<rparr>]"
  have "map_of (ms_rows demo_created) ''m1'' \<noteq> None" by code_simp
  then obtain r where r: "map_of (ms_rows demo_created) (cm_id ?m) = Some r" by (auto simp: demo_msg_def)
  have f: "FinishPart ?m = Some \<lparr>fc_reason = FinishReasonEndTurn, fc_time = 7, fc_message = [], fc_details = []\<rparr>" by code_simp
  have "ms_pending demo_created = []" "ms_inflight demo_created = []"
    by (simp_all add: demo_created_def Create_message_def insert_row_def NewService_def Let_def split: option.splits)
  with terminal_update_lands [OF r f] show ?thesis by fastforce
qed

text \<open>A created message reads back. If every part decodes to itself, a successful \<^verbatim>\<open>Create\<close> under a
  fresh identifier returns the message with its session, role and parts (and the stop marker for every
  role but the assistant's), and \<^verbatim>\<open>Get\<close> returns that same message, while every other message reads
  as before.\<close>

theorem created_message_reads_back:
  assumes "\<And>p. dec (part_type p) (enc p) = Some p" and "map_of (ms_rows s) uuid = None"
  shows "\<exists>m t. Create_message enc dec uuid now True s sid role parts model provider sm = (Inr m, t) \<and>
     Get_message dec t uuid = Inr m \<and> cm_id m = uuid \<and> cm_session m = sid \<and> cm_role m = role \<and> cm_provider m = provider \<and>
     cm_parts m = created_parts role parts \<and> (\<forall>j. j \<noteq> uuid \<longrightarrow> Get_message dec t j = Get_message dec s j)"
proof -
  have um: "unmarshalParts dec (marshalParts enc ps) = Some ps" for ps
    by (rule unmarshal_marshal) (simp add: assms(1))
  show ?thesis
    using assms(2)
    by (auto simp: Create_message_def Let_def fromDBItem_def um insert_row_def Get_message_def map_add_def
        split: option.splits)
qed

theorem created_message_reads_back_witness:
  "\<exists>m t. Create_message (\<lambda>p. p) (\<lambda>t p. Some p) ''m1'' 1 True (NewService 33) ''s'' User [TextContent ''hi''] [] [] False = (Inr m, t) \<and>
     Get_message (\<lambda>t p. Some p) t ''m1'' = Inr m \<and> cm_session m = ''s''"
  using created_message_reads_back [of "\<lambda>t p. Some p" "\<lambda>p. p" "NewService 33" "''m1''" 1 "''s''" User "[TextContent ''hi'']" "[]" "[]" False]
  by (auto simp: NewService_def)

subsection \<open>A stranded update\<close>

text \<open>
  An update that arrives while a timer-fired write is in flight marks the buffer dirty without arming a
  timer, and the flusher, not being synchronous, leaves it so: the buffer is dirty, no timer is armed and
  no write is in flight, so nothing but a later \<^verbatim>\<open>Update\<close> or an explicit \<^verbatim>\<open>Flush\<close> will ever write it.
\<close>

definition stranded_store :: "content_part message_store" where
  "stranded_store =
     (let s = snd (Update_accept demo_flushing (demo_msg [TextContent ''ab'']));
          s = the (flush_write demo_enc 2 True s 0)
      in snd (snd (the (flush_end s 0))))"

lemma update_stranded_without_timer:
  "(let st = ms_heap stranded_store 0 in pd_dirty st \<and> \<not> pd_timer st \<and> \<not> pd_flushing st) \<and>
   ms_inflight stranded_store = [] \<and> map_of (ms_pending stranded_store) ''m1'' = Some 0"
  unfolding stranded_store_def by code_simp

end
