(* ===== verification/Hooks.thy ===== *)
theory Hooks
  imports Prelude Go_Strings
begin

section \<open>Tool hooks: \<^verbatim>\<open>internal/hooks\<close> and the gate in \<^verbatim>\<open>internal/agent/execution_trace.go\<close>\<close>

text \<open>
  User commands that run before a tool call and may deny it, halt the turn, add context or patch the
  tool's input. A decoded JSON value is \<open>json\<close>; decoding (\<open>unmarshal\<close>), the raw text of a value
  (\<open>raw\<close>), \<^verbatim>\<open>sjson.SetRawBytes\<close> (\<open>set_raw\<close>) and regular expressions are arguments, and what one shell
  command did is a value of \<open>shell_outcome\<close> with its two output streams. \<^verbatim>\<open>Decision\<close> is a linear
  order, the order of its Go constants; the aggregate's decision is the maximum.
\<close>

subsection \<open>Decisions\<close>

datatype decision = DecisionNone | DecisionAllow | DecisionDeny

instantiation decision :: linorder
begin

fun decision_rank :: "decision \<Rightarrow> nat" where
  "decision_rank DecisionNone = 0"
| "decision_rank DecisionAllow = 1"
| "decision_rank DecisionDeny = 2"

definition less_eq_decision :: "decision \<Rightarrow> decision \<Rightarrow> bool" where
  "less_eq_decision a b \<longleftrightarrow> decision_rank a \<le> decision_rank b"

definition less_decision :: "decision \<Rightarrow> decision \<Rightarrow> bool" where
  "less_decision a b \<longleftrightarrow> decision_rank a < decision_rank b"

instance
proof
  fix a b c :: decision
  show "a < b \<longleftrightarrow> a \<le> b \<and> \<not> b \<le> a" by (auto simp: less_eq_decision_def less_decision_def)
  show "a \<le> a" by (simp add: less_eq_decision_def)
  show "a \<le> b \<Longrightarrow> b \<le> c \<Longrightarrow> a \<le> c" by (simp add: less_eq_decision_def)
  show "a \<le> b \<Longrightarrow> b \<le> a \<Longrightarrow> a = b" by (cases a; cases b) (simp_all add: less_eq_decision_def)
  show "a \<le> b \<or> b \<le> a" by (auto simp: less_eq_decision_def)
qed

end

definition Decision_String :: "decision \<Rightarrow> string" where
  "Decision_String d =
     (case d of DecisionAllow \<Rightarrow> ''allow'' | DecisionDeny \<Rightarrow> ''deny'' | DecisionNone \<Rightarrow> ''none'')"

record hook_result =
  hr_decision :: decision
  hr_halt :: bool
  hr_reason :: string
  hr_context :: string
  hr_updated :: string

record hook_info =
  hi_name :: string
  hi_matcher :: string
  hi_decision :: string
  hi_halt :: bool
  hi_reason :: string
  hi_rewrite :: bool

record aggregate_result =
  agg_decision :: decision
  agg_halt :: bool
  agg_count :: nat
  agg_hooks :: "hook_info list"
  agg_reason :: string
  agg_context :: string
  agg_updated :: string

definition no_result :: hook_result where
  "no_result = \<lparr>hr_decision = DecisionNone, hr_halt = False, hr_reason = [], hr_context = [], hr_updated = []\<rparr>"

definition no_aggregate :: aggregate_result where
  "no_aggregate = \<lparr>agg_decision = DecisionNone, agg_halt = False, agg_count = 0, agg_hooks = [], agg_reason = [],
     agg_context = [], agg_updated = []\<rparr>"

subsection \<open>JSON\<close>

datatype json =
    JNull
  | JBool bool
  | JNum "int option"
  | JStr string
  | JArr "json list"
  | JObj "(string \<times> json) list"

definition lower_char :: "char \<Rightarrow> char" where
  "lower_char c = (let n = of_char c :: nat in if 65 \<le> n \<and> n \<le> 90 then char_of (n + 32) else c)"

definition str_lower :: "string \<Rightarrow> string" where
  "str_lower s = map lower_char s"

text \<open>
  Decoding a struct field: field names match regardless of case, a later key overrides an earlier one,
  null leaves the field alone and a value of another type is an error.
\<close>

definition field_values :: "string \<Rightarrow> (string \<times> json) list \<Rightarrow> json list" where
  "field_values name flds = map snd (filter (\<lambda>(k, v). str_lower k = str_lower name) flds)"

fun last_string :: "string \<Rightarrow> json list \<Rightarrow> string option" where
  "last_string cur [] = Some cur"
| "last_string cur (JStr s # vs) = last_string s vs"
| "last_string cur (JNull # vs) = last_string cur vs"
| "last_string cur (_ # vs) = None"

fun last_bool :: "bool \<Rightarrow> json list \<Rightarrow> bool option" where
  "last_bool cur [] = Some cur"
| "last_bool cur (JBool b # vs) = last_bool b vs"
| "last_bool cur (JNull # vs) = last_bool cur vs"
| "last_bool cur (_ # vs) = None"

fun last_int :: "int \<Rightarrow> json list \<Rightarrow> int option" where
  "last_int cur [] = Some cur"
| "last_int cur (JNum (Some n) # vs) = last_int n vs"
| "last_int cur (JNull # vs) = last_int cur vs"
| "last_int cur (_ # vs) = None"

definition last_raw :: "json list \<Rightarrow> json option" where
  "last_raw vs = (if vs = [] then None else Some (last vs))"

subsection \<open>Parsing a hook's output\<close>

definition parseDecision :: "string \<Rightarrow> decision" where
  "parseDecision s =
     (let l = str_lower s in
      if l = ''allow'' then DecisionAllow else if l = ''deny'' then DecisionDeny else DecisionNone)"

fun string_items :: "json list \<Rightarrow> string list option" where
  "string_items [] = Some []"
| "string_items (JStr s # vs) = map_option ((#) s) (string_items vs)"
| "string_items (JNull # vs) = map_option ((#) []) (string_items vs)"
| "string_items (_ # vs) = None"

definition parseContext :: "json option \<Rightarrow> string" where
  "parseContext v =
     (case v of
        Some (JStr s) \<Rightarrow> s
      | Some (JArr vs) \<Rightarrow>
          (case string_items vs of
             None \<Rightarrow> []
           | Some items \<Rightarrow> str_join [NL] (filter (\<lambda>s. s \<noteq> []) items))
      | _ \<Rightarrow> [])"

definition rawToString :: "(json \<Rightarrow> string) \<Rightarrow> json option \<Rightarrow> string" where
  "rawToString raw v =
     (case v of
        None \<Rightarrow> []
      | Some JNull \<Rightarrow> []
      | Some (JStr s) \<Rightarrow> s
      | Some j \<Rightarrow> raw j)"

definition parseClaudeCodeOutput :: "(json \<Rightarrow> string) \<Rightarrow> json \<Rightarrow> hook_result" where
  "parseClaudeCodeOutput raw data =
     (case data of
        JNull \<Rightarrow> no_result
      | JObj flds \<Rightarrow>
          (case (last_string [] (field_values ''permissionDecision'' flds),
                 last_string [] (field_values ''permissionDecisionReason'' flds),
                 last_string [] (field_values ''additionalContext'' flds)) of
             (Some d, Some r, Some c) \<Rightarrow>
               \<lparr>hr_decision = parseDecision d, hr_halt = False, hr_reason = r, hr_context = c,
                hr_updated = (case last_raw (field_values ''updatedInput'' flds) of
                                None \<Rightarrow> [] | Some JNull \<Rightarrow> [] | Some j \<Rightarrow> raw j)\<rparr>
           | _ \<Rightarrow> no_result)
      | _ \<Rightarrow> no_result)"

definition parseStdout :: "(string \<Rightarrow> json option) \<Rightarrow> (json \<Rightarrow> string) \<Rightarrow> string \<Rightarrow> hook_result" where
  "parseStdout unmarshal raw stdout =
     (let stdout = trim_space stdout in
      if stdout = [] then no_result
      else case unmarshal stdout of
             Some JNull \<Rightarrow> no_result
           | Some (JObj flds) \<Rightarrow>
               (case filter (\<lambda>(k, v). k = ''hookSpecificOutput'') flds of
                  hso # rest \<Rightarrow> parseClaudeCodeOutput raw (snd (last (hso # rest)))
                | [] \<Rightarrow>
                    (case (last_int 0 (field_values ''version'' flds), last_string [] (field_values ''decision'' flds),
                           last_bool False (field_values ''halt'' flds), last_string [] (field_values ''reason'' flds)) of
                       (Some version, Some d, Some halt, Some reason) \<Rightarrow>
                         \<lparr>hr_decision = parseDecision d, hr_halt = halt, hr_reason = reason,
                          hr_context = parseContext (last_raw (field_values ''context'' flds)),
                          hr_updated = rawToString raw (last_raw (field_values ''updated_input'' flds))\<rparr>
                     | _ \<Rightarrow> no_result))
           | _ \<Rightarrow> no_result)"

subsection \<open>Running one hook\<close>

text \<open>
  What the interpreter did: never yielded within the grace period, was interrupted, or ended with an
  exit code.
\<close>

datatype shell_outcome = ShellAbandoned | ShellInterrupted | ShellExit int

definition HaltExitCode :: int where
  "HaltExitCode = 49"

definition runOne :: "(string \<Rightarrow> json option) \<Rightarrow> (json \<Rightarrow> string) \<Rightarrow> shell_outcome \<Rightarrow> string \<Rightarrow> string \<Rightarrow> hook_result" where
  "runOne unmarshal raw outcome stdout stderr =
     (case outcome of
        ShellAbandoned \<Rightarrow> no_result
      | ShellInterrupted \<Rightarrow> no_result
      | ShellExit code \<Rightarrow>
          if code = 0 then parseStdout unmarshal raw stdout
          else if code = 2 then
            no_result\<lparr>hr_decision := DecisionDeny,
              hr_reason := (let reason = trim_space stderr in if reason = [] then ''blocked by hook'' else reason)\<rparr>
          else if code = HaltExitCode then
            no_result\<lparr>hr_decision := DecisionDeny, hr_halt := True,
              hr_reason := (let reason = trim_space stderr in if reason = [] then ''turn halted by hook'' else reason)\<rparr>
          else no_result)"

subsection \<open>Aggregation\<close>

text \<open>\<^verbatim>\<open>patchMap\<close> is a Go map: one entry per key, the last one given; \<open>order\<close> is its iteration order.\<close>

fun set_all :: "(string \<Rightarrow> string \<Rightarrow> json \<Rightarrow> string option) \<Rightarrow> string \<Rightarrow> (string \<times> json) list \<Rightarrow> string option" where
  "set_all set_raw out [] = Some out"
| "set_all set_raw out ((k, v) # kvs) =
     (case set_raw out k v of None \<Rightarrow> None | Some out' \<Rightarrow> set_all set_raw out' kvs)"

definition patch_map :: "(string \<times> json) list \<Rightarrow> (string, json) gomap" where
  "patch_map flds = foldl (\<lambda>m (k, v). AList.update k v m) [] flds"

definition shallowMerge :: "(string \<Rightarrow> json option) \<Rightarrow> ((string, json) gomap \<Rightarrow> (string, json) gomap) \<Rightarrow>
    (string \<Rightarrow> string \<Rightarrow> json \<Rightarrow> string option) \<Rightarrow> string \<Rightarrow> string \<Rightarrow> string option" where
  "shallowMerge unmarshal order set_raw base patch =
     (let base = (if base = [] then ''{}'' else base) in
      case unmarshal base of
        Some (JObj _) \<Rightarrow>
          (case unmarshal patch of
             Some (JObj flds) \<Rightarrow> set_all set_raw base (order (patch_map flds))
           | Some JNull \<Rightarrow> Some base
           | _ \<Rightarrow> None)
      | _ \<Rightarrow> None)"

record agg_state =
  as_decision :: decision
  as_halt :: bool
  as_reasons :: "string list"
  as_contexts :: "string list"
  as_merged :: string
  as_patched :: bool

definition agg_step :: "(string \<Rightarrow> string \<Rightarrow> string option) \<Rightarrow> agg_state \<Rightarrow> hook_result \<Rightarrow> agg_state" where
  "agg_step merge a r =
     (let a = (case hr_decision r of
                 DecisionDeny \<Rightarrow> a\<lparr>as_decision := DecisionDeny,
                   as_reasons := (if hr_reason r \<noteq> [] then as_reasons a @ [hr_reason r] else as_reasons a)\<rparr>
               | DecisionAllow \<Rightarrow> (if as_decision a \<noteq> DecisionDeny then a\<lparr>as_decision := DecisionAllow\<rparr> else a)
               | DecisionNone \<Rightarrow> a);
          a = (if hr_halt r
               then a\<lparr>as_halt := True,
                      as_reasons := (if hr_reason r \<noteq> [] \<and> hr_decision r \<noteq> DecisionDeny
                                     then as_reasons a @ [hr_reason r] else as_reasons a)\<rparr>
               else a);
          a = (if hr_context r \<noteq> [] then a\<lparr>as_contexts := as_contexts a @ [hr_context r]\<rparr> else a)
      in if hr_updated r \<noteq> [] then
           (case merge (as_merged a) (hr_updated r) of
              None \<Rightarrow> a
            | Some nxt \<Rightarrow> a\<lparr>as_merged := nxt, as_patched := True\<rparr>)
         else a)"

definition aggregate :: "(string \<Rightarrow> string \<Rightarrow> string option) \<Rightarrow> hook_result list \<Rightarrow> string \<Rightarrow> aggregate_result" where
  "aggregate merge results origToolInput =
     (let a = foldl (agg_step merge)
            \<lparr>as_decision = DecisionNone, as_halt = False, as_reasons = [], as_contexts = [],
             as_merged = origToolInput, as_patched = False\<rparr> results
      in \<lparr>agg_decision = as_decision a, agg_halt = as_halt a, agg_count = length results, agg_hooks = [],
          agg_reason = str_join [NL] (as_reasons a), agg_context = str_join [NL] (as_contexts a),
          agg_updated = (if as_patched a then as_merged a else [])\<rparr>)"

subsection \<open>The runner\<close>

record hook_config =
  hc_name :: string
  hc_matcher :: string
  hc_command :: string
  hc_timeout :: int

definition DisplayName :: "hook_config \<Rightarrow> string" where
  "DisplayName h = (if hc_name h \<noteq> [] then hc_name h else hc_command h)"

definition TimeoutDuration :: "hook_config \<Rightarrow> int" where
  "TimeoutDuration h = (if hc_timeout h \<le> 0 then 30 else hc_timeout h)"

text \<open>\<open>compiles\<close> and \<open>matches\<close> are the regular expression engine. A runner is its list of usable hooks.\<close>

definition NewRunner :: "(string \<Rightarrow> bool) \<Rightarrow> hook_config list \<Rightarrow> hook_config list" where
  "NewRunner compiles hooks = filter (\<lambda>h. hc_matcher h = [] \<or> compiles (hc_matcher h)) hooks"

definition matchingHooks :: "(string \<Rightarrow> string \<Rightarrow> bool) \<Rightarrow> hook_config list \<Rightarrow> string \<Rightarrow> hook_config list" where
  "matchingHooks matches hooks toolName =
     filter (\<lambda>h. hc_matcher h = [] \<or> matches (hc_matcher h) toolName) hooks"

fun dedupe :: "string list \<Rightarrow> hook_config list \<Rightarrow> hook_config list" where
  "dedupe seen [] = []"
| "dedupe seen (h # hs) =
     (if hc_command h \<in> set seen then dedupe seen hs else h # dedupe (hc_command h # seen) hs)"

definition hook_info_of :: "hook_config \<Rightarrow> hook_result \<Rightarrow> hook_info" where
  "hook_info_of h r = \<lparr>hi_name = DisplayName h, hi_matcher = hc_matcher h, hi_decision = Decision_String (hr_decision r),
     hi_halt = hr_halt r, hi_reason = hr_reason r, hi_rewrite = hr_updated r \<noteq> []\<rparr>"

definition Runner_Run :: "(string \<Rightarrow> string \<Rightarrow> bool) \<Rightarrow> (hook_config \<Rightarrow> hook_result) \<Rightarrow>
    (string \<Rightarrow> string \<Rightarrow> string option) \<Rightarrow> hook_config list \<Rightarrow> string \<Rightarrow> string \<Rightarrow> aggregate_result" where
  "Runner_Run matches run merge hooks toolName toolInput =
     (let matching = matchingHooks matches hooks toolName in
      if matching = [] then no_aggregate
      else
        let deduped = dedupe [] matching; results = map run deduped
        in (aggregate merge results toolInput)\<lparr>agg_hooks := map2 hook_info_of deduped results\<rparr>)"

text \<open>The environment of a hook: \<open>get\<close> is \<^verbatim>\<open>gjson.Get\<close> with the value as a string.\<close>

definition BuildEnv :: "(string \<Rightarrow> string \<Rightarrow> string option) \<Rightarrow> string list \<Rightarrow> string list \<Rightarrow>
    string \<Rightarrow> string \<Rightarrow> string \<Rightarrow> string \<Rightarrow> string \<Rightarrow> string \<Rightarrow> string list" where
  "BuildEnv get environ markers eventName toolName sessionID cwd projectDir toolInputJSON =
     environ @ markers @
     [''TACK_EVENT='' @ eventName, ''TACK_TOOL_NAME='' @ toolName, ''TACK_SESSION_ID='' @ sessionID,
      ''TACK_CWD='' @ cwd, ''TACK_PROJECT_DIR='' @ projectDir] @
     (if toolInputJSON \<noteq> [] then
        (case get toolInputJSON ''command'' of
           Some c \<Rightarrow> [''TACK_TOOL_INPUT_COMMAND='' @ c] | None \<Rightarrow> []) @
        (case get toolInputJSON ''file_path'' of
           Some f \<Rightarrow> [''TACK_TOOL_INPUT_FILE_PATH='' @ f] | None \<Rightarrow> [])
      else [])"

subsection \<open>The gate in front of a tool\<close>

record tool_response =
  tp_content :: string
  tp_is_error :: bool
  tp_stop :: bool

definition runPreToolUseHooks :: "(string \<Rightarrow> string \<Rightarrow> aggregate_result) option \<Rightarrow> string \<Rightarrow> string \<Rightarrow>
    aggregate_result \<times> bool \<times> string" where
  "runPreToolUseHooks hooks name input =
     (case hooks of
        None \<Rightarrow> (no_aggregate, False, input)
      | Some run \<Rightarrow>
          let agg = run name input in
          if agg_decision agg = DecisionDeny then (agg, True, input)
          else (agg, False, if agg_updated agg \<noteq> [] then agg_updated agg else input))"

definition deniedHookResponse :: "aggregate_result \<Rightarrow> tool_response" where
  "deniedHookResponse agg =
     (let reason = trim_space (agg_reason agg) in
      \<lparr>tp_content = (if reason = [] then ''blocked by PreToolUse hook'' else reason), tp_is_error = True,
       tp_stop = agg_halt agg\<rparr>)"

definition joinHookContext :: "string \<Rightarrow> string \<Rightarrow> string" where
  "joinHookContext content hookContext = (if content = [] then hookContext else content @ [NL, NL] @ hookContext)"

text \<open>
  \<^verbatim>\<open>tracedTool.Run\<close>: the tool itself is \<open>tool\<close>; the first result says whether it was called, and on
  which input. The hook metadata merged into the response is left out.
\<close>

definition tool_Run :: "(string \<Rightarrow> string \<Rightarrow> aggregate_result) option \<Rightarrow> (string \<Rightarrow> tool_response) \<Rightarrow>
    string \<Rightarrow> string \<Rightarrow> string option \<times> tool_response" where
  "tool_Run hooks tool name input =
     (case runPreToolUseHooks hooks name input of
        (agg, denied, input') \<Rightarrow>
          if denied then (None, deniedHookResponse agg)
          else
            let response = tool input' in
            (Some input',
             if agg_count agg > 0 \<and> agg_context agg \<noteq> []
             then response\<lparr>tp_content := joinHookContext (tp_content response) (agg_context agg)\<rparr> else response))"

subsection \<open>Lemmas\<close>

lemma decision_max: "max a b = (if decision_rank a \<le> decision_rank b then b else a)" for a b :: decision
  by (simp add: max_def less_eq_decision_def)

lemma agg_step_decision: "as_decision (agg_step merge a r) = max (as_decision a) (hr_decision r)"
  by (cases "hr_decision r"; cases "as_decision a")
     (auto simp: agg_step_def Let_def decision_max split: option.splits)

lemma agg_step_halt: "as_halt (agg_step merge a r) \<longleftrightarrow> as_halt a \<or> hr_halt r"
  by (auto simp: agg_step_def Let_def split: decision.splits option.splits)

lemma agg_fold_decision:
  "as_decision (foldl (agg_step merge) a rs) = Max (insert (as_decision a) (hr_decision ` set rs))"
proof (induction rs arbitrary: a)
  case (Cons r rs)
  have "Max (insert (max (as_decision a) (hr_decision r)) (hr_decision ` set rs)) =
      Max (insert (as_decision a) (insert (hr_decision r) (hr_decision ` set rs)))"
    by (cases "set rs = {}") (simp_all add: max.assoc)
  with Cons show ?case by (simp add: agg_step_decision)
qed simp

lemma agg_fold_halt: "as_halt (foldl (agg_step merge) a rs) \<longleftrightarrow> as_halt a \<or> (\<exists>r\<in>set rs. hr_halt r)"
  by (induction rs arbitrary: a) (auto simp: agg_step_halt)

lemma decision_Max_deny:
  fixes A :: "decision set"
  assumes "finite A" "A \<noteq> {}"
  shows "Max A = DecisionDeny \<longleftrightarrow> DecisionDeny \<in> A"
proof
  assume "Max A = DecisionDeny"
  with Max_in [OF assms] show "DecisionDeny \<in> A" by simp
next
  assume d: "DecisionDeny \<in> A"
  have "DecisionDeny \<le> Max A" by (rule Max_ge [OF assms(1) d])
  then show "Max A = DecisionDeny" by (cases "Max A") (simp_all add: less_eq_decision_def)
qed

lemma dedupe_commands: "hc_command ` set (dedupe seen hs) = hc_command ` set hs - set seen"
  by (induction seen hs rule: dedupe.induct) auto

lemma dedupe_distinct: "distinct (map hc_command (dedupe seen hs))"
  by (induction seen hs rule: dedupe.induct) (auto simp flip: image_set simp: dedupe_commands)

lemma dedupe_subset: "set (dedupe seen hs) \<subseteq> set hs"
  by (induction seen hs rule: dedupe.induct) auto

lemma map2_hook_info: "map hi_name (map2 hook_info_of hs (map run hs)) = map DisplayName hs"
  by (induction hs) (simp_all add: hook_info_of_def)

subsection \<open>Properties\<close>

text \<open>Deny wins over allow, allow over none, whatever the order of the hooks: the aggregate decision
  is the maximum of the hooks' decisions (none when there is no hook), the turn is halted exactly when
  some hook asked for it, and every hook is counted.\<close>

theorem aggregate_decision_is_max:
  "agg_decision (aggregate merge rs input) = Max (insert DecisionNone (hr_decision ` set rs)) \<and>
   (agg_halt (aggregate merge rs input) \<longleftrightarrow> (\<exists>r\<in>set rs. hr_halt r)) \<and>
   agg_count (aggregate merge rs input) = length rs"
  by (simp add: aggregate_def Let_def agg_fold_decision agg_fold_halt)

text \<open>C25: one denying hook blocks the tool. With a result that depends only on the command, a tool call is
  blocked (the tool is not run at all, and the answer is a non-empty error) exactly when some hook that
  matches the tool denies; each command runs once, and hooks that fail or say nothing never block.\<close>

theorem deny_blocks_tool:
  assumes "\<And>h. run h = result (hc_command h)"
  shows "(fst (tool_Run (Some (Runner_Run matches run merge hooks)) tool name input) = None \<longleftrightarrow>
      (\<exists>h\<in>set (matchingHooks matches hooks name). hr_decision (run h) = DecisionDeny)) \<and>
    (fst (tool_Run (Some (Runner_Run matches run merge hooks)) tool name input) = None \<longrightarrow>
      tp_is_error (snd (tool_Run (Some (Runner_Run matches run merge hooks)) tool name input)) \<and>
      tp_content (snd (tool_Run (Some (Runner_Run matches run merge hooks)) tool name input)) \<noteq> []) \<and>
    distinct (map hc_command (dedupe [] (matchingHooks matches hooks name)))"
proof -
  let ?ms = "matchingHooks matches hooks name"
  let ?agg = "Runner_Run matches run merge hooks name input"
  have dec: "agg_decision ?agg = Max (insert DecisionNone (hr_decision ` set (map run (dedupe [] ?ms))))"
  proof (cases "?ms = []")
    case True
    then show ?thesis by (simp add: Runner_Run_def Let_def no_aggregate_def)
  next
    case False
    then show ?thesis by (simp add: Runner_Run_def Let_def aggregate_def agg_fold_decision)
  qed
  have "agg_decision ?agg = DecisionDeny \<longleftrightarrow> DecisionDeny \<in> insert DecisionNone (hr_decision ` set (map run (dedupe [] ?ms)))"
    unfolding dec by (rule decision_Max_deny) simp_all
  also have "\<dots> \<longleftrightarrow> (\<exists>c\<in>hc_command ` set (dedupe [] ?ms). hr_decision (result c) = DecisionDeny)"
    by (simp add: assms image_iff) metis
  also have "\<dots> \<longleftrightarrow> (\<exists>h\<in>set ?ms. hr_decision (run h) = DecisionDeny)"
    by (auto simp: dedupe_commands assms)
  finally have deny: "agg_decision ?agg = DecisionDeny \<longleftrightarrow> (\<exists>h\<in>set ?ms. hr_decision (run h) = DecisionDeny)" .
  show ?thesis
    using deny dedupe_distinct [of "[]" ?ms]
    by (auto simp: tool_Run_def runPreToolUseHooks_def Let_def deniedHookResponse_def)
qed

definition demo_hook :: hook_config where
  "demo_hook = \<lparr>hc_name = [], hc_matcher = [], hc_command = ''./guard'', hc_timeout = 0\<rparr>"

theorem deny_blocks_tool_witness:
  "fst (tool_Run (Some (Runner_Run (\<lambda>_ _. True) (\<lambda>h. runOne (\<lambda>_. None) (\<lambda>_. []) (ShellExit 2) [] ''no'') (\<lambda>_ _. None) [demo_hook]))
     (\<lambda>i. \<lparr>tp_content = i, tp_is_error = False, tp_stop = False\<rparr>) ''bash'' ''{}'') = None"
  using deny_blocks_tool [where run = "\<lambda>h. runOne (\<lambda>_. None) (\<lambda>_. []) (ShellExit 2) [] ''no''"
      and result = "\<lambda>_. runOne (\<lambda>_. None) (\<lambda>_. []) (ShellExit 2) [] ''no''" and hooks = "[demo_hook]"]
  by (simp add: matchingHooks_def demo_hook_def runOne_def)

text \<open>Which hooks can block. A hook denies exactly when it exits with 2 or 49, or exits with 0 and its
  output says so; it halts only by exiting with 49 or by a Tack-format output that asks for it; and a hook
  that is abandoned, times out or fails any other way has no effect at all.\<close>

theorem hook_exit_codes:
  "(hr_decision (runOne unmarshal raw outcome out err) = DecisionDeny \<longleftrightarrow>
      outcome = ShellExit 2 \<or> outcome = ShellExit 49 \<or>
      outcome = ShellExit 0 \<and> hr_decision (parseStdout unmarshal raw out) = DecisionDeny) \<and>
   (hr_halt (runOne unmarshal raw outcome out err) \<longleftrightarrow>
      outcome = ShellExit 49 \<or> outcome = ShellExit 0 \<and> hr_halt (parseStdout unmarshal raw out)) \<and>
   (outcome \<notin> {ShellExit 0, ShellExit 2, ShellExit 49} \<longrightarrow> runOne unmarshal raw outcome out err = no_result)"
  by (cases outcome) (auto simp: runOne_def HaltExitCode_def no_result_def)

theorem hook_exit_codes_witness: "runOne (\<lambda>_. None) (\<lambda>_. []) (ShellExit 7) ''x'' ''y'' = no_result"
  using hook_exit_codes [of "\<lambda>_. None" "\<lambda>_. []" "ShellExit 7" "''x''" "''y''"] by simp

text \<open>
  A halt without a denial is recorded but has no effect: the hook says \<^verbatim>\<open>{"halt": true}\<close>, the aggregate
  carries the halt, and yet the tool runs and its response does not stop the turn.
\<close>

lemma halt_without_deny_ignored:
  "let run = (\<lambda>h. runOne (\<lambda>_. Some (JObj [(''halt'', JBool True)])) (\<lambda>_. []) (ShellExit 0) ''{}'' []);
       agg = Runner_Run (\<lambda>_ _. True) run (\<lambda>_ _. None) [demo_hook] ''bash'' ''{}'';
       res = tool_Run (Some (Runner_Run (\<lambda>_ _. True) run (\<lambda>_ _. None) [demo_hook]))
               (\<lambda>i. \<lparr>tp_content = i, tp_is_error = False, tp_stop = False\<rparr>) ''bash'' ''{}''
   in agg_halt agg \<and> fst res = Some ''{}'' \<and> \<not> tp_stop (snd res)"
  by code_simp

end
