(* ===== verification/Session_Store.thy ===== *)
theory Session_Store
  imports Go_Strings
begin

section \<open>Sessions: \<^verbatim>\<open>internal/session/session.go\<close>\<close>

text \<open>
  The session service over its table, the event log it publishes, and the in-memory map of sessions
  whose usage is estimated. The SQL of \<^verbatim>\<open>internal/db/sql/sessions.sql\<close> is written out with what the
  schema adds: the primary key, the \<^verbatim>\<open>CHECK\<close> constraints on tokens and cost, and the trigger that
  stamps \<^verbatim>\<open>updated_at\<close> on every update; \<^verbatim>\<open>RETURNING\<close> reports the row before the trigger. Deleting a
  session deletes its messages and files in one transaction (\<open>ss_messages\<close>, \<open>ss_files\<close> list the owners
  of those rows by ID).

  Costs are floating-point numbers: a type \<open>'c\<close> with the addition SQLite makes and its test for
  being non-negative as arguments (\<open>cost_ops\<close>). JSON is the pair \<open>enc\<close>, \<open>dec\<close>. \<open>db_ok\<close> is whether
  the database carries out the statement, \<open>now\<close> the clock, an ID drawn by \<^verbatim>\<open>uuid.New\<close> an argument.
\<close>

record todo =
  td_content :: string
  td_status :: string
  td_active :: string

record 'c chat_session =
  se_id :: string
  se_parent :: string
  se_title :: string
  se_messages :: int
  se_prompt :: int
  se_completion :: int
  se_estimated :: bool
  se_summary :: string
  se_cost :: 'c
  se_todos :: "todo list"
  se_created :: int
  se_updated :: int

record 'c session_row =
  sr_id :: string
  sr_parent :: "string option"
  sr_title :: string
  sr_messages :: int
  sr_prompt :: int
  sr_completion :: int
  sr_summary :: "string option"
  sr_cost :: 'c
  sr_todos :: "string option"
  sr_created :: int
  sr_updated :: int

datatype 'c session_event =
  SessionCreated "'c chat_session" | SessionUpdated "'c chat_session" | SessionDeleted "'c chat_session"

record 'c session_store =
  ss_rows :: "(string, 'c session_row) gomap"
  ss_messages :: "(string \<times> string) list"
  ss_files :: "(string \<times> string) list"
  ss_estimated :: "(string, bool) gomap"
  ss_events :: "'c session_event list"

record 'c cost_ops =
  co_add :: "'c \<Rightarrow> 'c \<Rightarrow> 'c"
  co_nonneg :: "'c \<Rightarrow> bool"
  co_zero :: 'c

datatype session_error = SesNoRows | SesConstraint | SesDatabase | SesJSON

type_synonym todo_dec = "string \<Rightarrow> todo list option"
type_synonym todo_enc = "todo list \<Rightarrow> string option"

definition NewSessionService :: "'c session_store" where
  "NewSessionService = \<lparr>ss_rows = [], ss_messages = [], ss_files = [], ss_estimated = [], ss_events = []\<rparr>"

definition publish_session :: "'c session_event \<Rightarrow> 'c session_store \<Rightarrow> 'c session_store" where
  "publish_session e st = st\<lparr>ss_events := ss_events st @ [e]\<rparr>"

subsection \<open>Rows and sessions\<close>

definition marshalTodos :: "todo_enc \<Rightarrow> todo list \<Rightarrow> string option" where
  "marshalTodos enc todos = (if todos = [] then Some [] else enc todos)"

definition unmarshalTodos :: "todo_dec \<Rightarrow> string \<Rightarrow> todo list" where
  "unmarshalTodos dec data = (if data = [] then [] else case dec data of None \<Rightarrow> [] | Some ts \<Rightarrow> ts)"

definition null_string :: "string option \<Rightarrow> string" where
  "null_string s = (case s of None \<Rightarrow> [] | Some x \<Rightarrow> x)"

definition valid_string :: "string \<Rightarrow> string option" where
  "valid_string s = (if s \<noteq> [] then Some s else None)"

definition session_fromDBItem :: "todo_dec \<Rightarrow> 'c session_row \<Rightarrow> 'c chat_session" where
  "session_fromDBItem dec r =
     \<lparr>se_id = sr_id r, se_parent = null_string (sr_parent r), se_title = sr_title r, se_messages = sr_messages r,
      se_prompt = sr_prompt r, se_completion = sr_completion r, se_estimated = False,
      se_summary = null_string (sr_summary r), se_cost = sr_cost r,
      se_todos = unmarshalTodos dec (null_string (sr_todos r)), se_created = sr_created r, se_updated = sr_updated r\<rparr>"

definition applyEstimatedUsageState :: "'c session_store \<Rightarrow> 'c chat_session \<Rightarrow> 'c chat_session" where
  "applyEstimatedUsageState st s = s\<lparr>se_estimated := (map_of (ss_estimated st) (se_id s) = Some True)\<rparr>"

definition setEstimatedUsageState :: "string \<Rightarrow> bool \<Rightarrow> 'c session_store \<Rightarrow> 'c session_store" where
  "setEstimatedUsageState i e st =
     st\<lparr>ss_estimated := (if e then AList.update i True (ss_estimated st) else AList.delete i (ss_estimated st))\<rparr>"

definition clearEstimatedUsageState :: "string \<Rightarrow> 'c session_store \<Rightarrow> 'c session_store" where
  "clearEstimatedUsageState i st = st\<lparr>ss_estimated := AList.delete i (ss_estimated st)\<rparr>"

subsection \<open>Creating\<close>

definition insert_session :: "'c cost_ops \<Rightarrow> bool \<Rightarrow> int \<Rightarrow> todo_dec \<Rightarrow> string \<Rightarrow> string option \<Rightarrow> string \<Rightarrow> 'c session_store \<Rightarrow>
    (session_error + 'c chat_session) \<times> 'c session_store" where
  "insert_session co db_ok now dec i parent title st =
     (if \<not> db_ok then (Inl SesDatabase, st)
      else if map_of (ss_rows st) i \<noteq> None then (Inl SesConstraint, st)
      else
        (let r = \<lparr>sr_id = i, sr_parent = parent, sr_title = title, sr_messages = 0, sr_prompt = 0, sr_completion = 0,
                  sr_summary = None, sr_cost = co_zero co, sr_todos = None, sr_created = now, sr_updated = now\<rparr>;
             s = session_fromDBItem dec r
         in (Inr s, publish_session (SessionCreated s) (st\<lparr>ss_rows := ss_rows st @ [(i, r)]\<rparr>))))"

definition Create_session where
  "Create_session co db_ok now dec uuid title st = insert_session co db_ok now dec uuid None title st"

definition CreateChild where
  "CreateChild co db_ok now dec uuid parent title st = insert_session co db_ok now dec uuid (valid_string parent) title st"

definition CreateTaskSession where
  "CreateTaskSession co db_ok now dec toolCallID parent title st =
     insert_session co db_ok now dec toolCallID (Some parent) title st"

definition CreateTitleSession where
  "CreateTitleSession co db_ok now dec parent st =
     insert_session co db_ok now dec (''title-'' @ parent) (Some parent) ''Generate a title'' st"

subsection \<open>Reading\<close>

definition read_session :: "todo_dec \<Rightarrow> 'c session_store \<Rightarrow> 'c session_row \<Rightarrow> 'c chat_session" where
  "read_session dec st r = applyEstimatedUsageState st (session_fromDBItem dec r)"

definition Get_session :: "todo_dec \<Rightarrow> 'c session_store \<Rightarrow> string \<Rightarrow> session_error + 'c chat_session" where
  "Get_session dec st i =
     (case map_of (ss_rows st) i of None \<Rightarrow> Inl SesNoRows | Some r \<Rightarrow> Inr (read_session dec st r))"

definition by_update :: "'c session_row list \<Rightarrow> 'c session_row list" where
  "by_update rows = sort_key (\<lambda>r. - sr_updated r) rows"

definition GetLast_session :: "todo_dec \<Rightarrow> 'c session_store \<Rightarrow> session_error + 'c chat_session" where
  "GetLast_session dec st =
     (case by_update (map snd (ss_rows st)) of [] \<Rightarrow> Inl SesNoRows | r # _ \<Rightarrow> Inr (read_session dec st r))"

definition List_sessions :: "todo_dec \<Rightarrow> 'c session_store \<Rightarrow> 'c chat_session list" where
  "List_sessions dec st = map (read_session dec st) (by_update (filter (\<lambda>r. sr_parent r = None) (map snd (ss_rows st))))"

subsection \<open>Updating\<close>

definition row_allowed :: "'c cost_ops \<Rightarrow> 'c session_row \<Rightarrow> bool" where
  "row_allowed co r \<longleftrightarrow> sr_messages r \<ge> 0 \<and> sr_prompt r \<ge> 0 \<and> sr_completion r \<ge> 0 \<and> co_nonneg co (sr_cost r)"

text \<open>
  An \<^verbatim>\<open>UPDATE ... WHERE id = ?\<close> with its constraints and its trigger: the row it reports, if there is
  one, and the store after the trigger.
\<close>

definition update_session :: "'c cost_ops \<Rightarrow> bool \<Rightarrow> int \<Rightarrow> string \<Rightarrow> ('c session_row \<Rightarrow> 'c session_row) \<Rightarrow> 'c session_store \<Rightarrow>
    (session_error + 'c session_row option) \<times> 'c session_store" where
  "update_session co db_ok now i f st =
     (if \<not> db_ok then (Inl SesDatabase, st)
      else case map_of (ss_rows st) i of
             None \<Rightarrow> (Inr None, st)
           | Some r \<Rightarrow>
               if \<not> row_allowed co (f r) then (Inl SesConstraint, st)
               else (Inr (Some (f r)), st\<lparr>ss_rows := AList.update i ((f r)\<lparr>sr_updated := now\<rparr>) (ss_rows st)\<rparr>))"

definition publishSessionUpdate :: "todo_dec \<Rightarrow> string \<Rightarrow> 'c session_store \<Rightarrow> 'c session_store" where
  "publishSessionUpdate dec i st =
     (case Get_session dec st i of Inl _ \<Rightarrow> st | Inr s \<Rightarrow> publish_session (SessionUpdated s) st)"

definition saved_row :: "'c chat_session \<Rightarrow> string \<Rightarrow> 'c session_row \<Rightarrow> 'c session_row" where
  "saved_row s json r = r\<lparr>sr_title := se_title s, sr_prompt := se_prompt s, sr_completion := se_completion s,
     sr_summary := valid_string (se_summary s), sr_cost := se_cost s, sr_todos := valid_string json\<rparr>"

definition Save_session :: "'c cost_ops \<Rightarrow> bool \<Rightarrow> int \<Rightarrow> todo_enc \<Rightarrow> todo_dec \<Rightarrow> 'c chat_session \<Rightarrow> 'c session_store \<Rightarrow>
    (session_error + 'c chat_session) \<times> 'c session_store" where
  "Save_session co db_ok now enc dec s st =
     (case marshalTodos enc (se_todos s) of
        None \<Rightarrow> (Inl SesJSON, st)
      | Some json \<Rightarrow>
          (case update_session co db_ok now (se_id s) (saved_row s json) st of
             (Inl e, st) \<Rightarrow> (Inl e, st)
           | (Inr None, st) \<Rightarrow> (Inl SesNoRows, st)
           | (Inr (Some r), st) \<Rightarrow>
               (let st = setEstimatedUsageState (se_id s) (se_estimated s) st;
                    out = (session_fromDBItem dec r)\<lparr>se_estimated := se_estimated s\<rparr>
                in (Inr out, publish_session (SessionUpdated out) st))))"

definition UpdateTitleAndUsage :: "'c cost_ops \<Rightarrow> bool \<Rightarrow> int \<Rightarrow> todo_dec \<Rightarrow> string \<Rightarrow> string \<Rightarrow> int \<Rightarrow> int \<Rightarrow> 'c \<Rightarrow> 'c session_store \<Rightarrow>
    session_error option \<times> 'c session_store" where
  "UpdateTitleAndUsage co db_ok now dec i title prompt completion cost st =
     (case update_session co db_ok now i
             (\<lambda>r. r\<lparr>sr_title := title, sr_prompt := sr_prompt r + prompt, sr_completion := sr_completion r + completion,
                    sr_cost := co_add co (sr_cost r) cost, sr_updated := now\<rparr>) st of
        (Inl e, st) \<Rightarrow> (Some e, st)
      | (Inr _, st) \<Rightarrow> (None, publishSessionUpdate dec i st))"

definition Rename_session :: "'c cost_ops \<Rightarrow> bool \<Rightarrow> int \<Rightarrow> todo_dec \<Rightarrow> string \<Rightarrow> string \<Rightarrow> 'c session_store \<Rightarrow>
    session_error option \<times> 'c session_store" where
  "Rename_session co db_ok now dec i title st =
     (case update_session co db_ok now i (\<lambda>r. r\<lparr>sr_title := title\<rparr>) st of
        (Inl e, st) \<Rightarrow> (Some e, st)
      | (Inr _, st) \<Rightarrow> (None, publishSessionUpdate dec i st))"

subsection \<open>Deleting\<close>

definition Delete_session :: "bool \<Rightarrow> todo_dec \<Rightarrow> string \<Rightarrow> 'c session_store \<Rightarrow> session_error option \<times> 'c session_store" where
  "Delete_session db_ok dec i st =
     (case map_of (ss_rows st) i of
        None \<Rightarrow> (Some SesNoRows, st)
      | Some r \<Rightarrow>
          if \<not> db_ok then (Some SesDatabase, st)
          else
            (None, publish_session (SessionDeleted (session_fromDBItem dec r))
               (clearEstimatedUsageState i
                 (st\<lparr>ss_rows := AList.delete i (ss_rows st),
                     ss_messages := filter (\<lambda>m. snd m \<noteq> i) (ss_messages st),
                     ss_files := filter (\<lambda>m. snd m \<noteq> i) (ss_files st)\<rparr>))))"

subsection \<open>IDs of agent tool sessions\<close>

definition CreateAgentToolSessionID :: "string \<Rightarrow> string \<Rightarrow> string" where
  "CreateAgentToolSessionID messageID toolCallID = messageID @ ''$$'' @ toolCallID"

definition ParseAgentToolSessionID :: "string \<Rightarrow> (string \<times> string) option" where
  "ParseAgentToolSessionID sessionID =
     (case str_split sessionID ''$$'' of [m, t] \<Rightarrow> Some (m, t) | _ \<Rightarrow> None)"

definition IsAgentToolSession :: "string \<Rightarrow> bool" where
  "IsAgentToolSession sessionID \<longleftrightarrow> ParseAgentToolSessionID sessionID \<noteq> None"

subsection \<open>The store invariant\<close>

definition session_ok :: "'c cost_ops \<Rightarrow> 'c session_store \<Rightarrow> bool" where
  "session_ok co st \<longleftrightarrow> gomap_ok (ss_rows st) \<and> (\<forall>i r. map_of (ss_rows st) i = Some r \<longrightarrow> sr_id r = i \<and> row_allowed co r)"

lemma publish_session_frame [simp]:
  "ss_rows (publish_session e st) = ss_rows st" "ss_estimated (publish_session e st) = ss_estimated st"
  "ss_messages (publish_session e st) = ss_messages st" "ss_files (publish_session e st) = ss_files st"
  by (simp_all add: publish_session_def)

lemma publishSessionUpdate_frame [simp]:
  "ss_rows (publishSessionUpdate dec i st) = ss_rows st" "ss_estimated (publishSessionUpdate dec i st) = ss_estimated st"
  by (simp_all add: publishSessionUpdate_def split: sum.splits)

lemma setEstimated_frame [simp]: "ss_rows (setEstimatedUsageState i e st) = ss_rows st"
  by (simp add: setEstimatedUsageState_def)

lemma session_ok_cong: "ss_rows st' = ss_rows st \<Longrightarrow> session_ok co st' = session_ok co st"
  by (simp add: session_ok_def)

lemma update_session_ok:
  assumes "session_ok co st" and "\<And>r. sr_id (f r) = sr_id r"
  shows "session_ok co (snd (update_session co db_ok now i f st))"
  using assms
  by (auto simp: update_session_def session_ok_def gomap_get_set row_allowed_def simp del: map_of_eq_Some_iff split: option.splits)

lemma insert_session_ok:
  assumes "session_ok co st" and "co_nonneg co (co_zero co)"
  shows "session_ok co (snd (insert_session co db_ok now dec i parent title st))"
  using assms by (auto simp: insert_session_def session_ok_def row_allowed_def Let_def map_of_eq_None_iff
      map_add_def simp del: map_of_eq_Some_iff split: option.splits if_splits)

text \<open>The operations that write, as one datatype; every one of them keeps the invariant.\<close>

datatype 'c session_op =
    OpCreate string string
  | OpChild string string string
  | OpTask string string string
  | OpTitle string
  | OpSave "'c chat_session"
  | OpUsage string string int int 'c
  | OpRename string string
  | OpDelete string

fun session_do :: "'c cost_ops \<Rightarrow> todo_enc \<Rightarrow> todo_dec \<Rightarrow> bool \<times> int \<times> 'c session_op \<Rightarrow> 'c session_store \<Rightarrow> 'c session_store" where
  "session_do co enc dec (ok, now, OpCreate u t) st = snd (Create_session co ok now dec u t st)"
| "session_do co enc dec (ok, now, OpChild u p t) st = snd (CreateChild co ok now dec u p t st)"
| "session_do co enc dec (ok, now, OpTask u p t) st = snd (CreateTaskSession co ok now dec u p t st)"
| "session_do co enc dec (ok, now, OpTitle p) st = snd (CreateTitleSession co ok now dec p st)"
| "session_do co enc dec (ok, now, OpSave s) st = snd (Save_session co ok now enc dec s st)"
| "session_do co enc dec (ok, now, OpUsage i t p c k) st = snd (UpdateTitleAndUsage co ok now dec i t p c k st)"
| "session_do co enc dec (ok, now, OpRename i t) st = snd (Rename_session co ok now dec i t st)"
| "session_do co enc dec (ok, now, OpDelete i) st = snd (Delete_session ok dec i st)"

lemma Save_rows:
  "ss_rows (snd (Save_session co ok now enc dec s st)) =
     (case marshalTodos enc (se_todos s) of None \<Rightarrow> ss_rows st
      | Some j \<Rightarrow> ss_rows (snd (update_session co ok now (se_id s) (saved_row s j) st)))"
  by (auto simp: Save_session_def Let_def split: option.splits sum.splits prod.splits)

lemma Save_ok:
  assumes "session_ok co st"
  shows "session_ok co (snd (Save_session co ok now enc dec s st))"
proof (cases "marshalTodos enc (se_todos s)")
  case None
  with assms show ?thesis by (simp add: Save_session_def)
next
  case (Some j)
  have "session_ok co (snd (update_session co ok now (se_id s) (saved_row s j) st))"
    by (rule update_session_ok [OF assms]) (simp add: saved_row_def)
  moreover have "ss_rows (snd (Save_session co ok now enc dec s st)) = ss_rows (snd (update_session co ok now (se_id s) (saved_row s j) st))"
    by (simp add: Save_rows Some)
  ultimately show ?thesis using session_ok_cong by blast
qed

lemma Usage_rows:
  "ss_rows (snd (UpdateTitleAndUsage co ok now dec i t p c k st)) =
     ss_rows (snd (update_session co ok now i (\<lambda>r. r\<lparr>sr_title := t, sr_prompt := sr_prompt r + p,
       sr_completion := sr_completion r + c, sr_cost := co_add co (sr_cost r) k, sr_updated := now\<rparr>) st))"
  by (auto simp: UpdateTitleAndUsage_def split: sum.splits prod.splits)

lemma Usage_ok:
  assumes "session_ok co st"
  shows "session_ok co (snd (UpdateTitleAndUsage co ok now dec i t p c k st))"
  unfolding session_ok_cong [OF Usage_rows] by (rule update_session_ok [OF assms]) simp

lemma Rename_rows:
  "ss_rows (snd (Rename_session co ok now dec i t st)) = ss_rows (snd (update_session co ok now i (\<lambda>r. r\<lparr>sr_title := t\<rparr>) st))"
  by (auto simp: Rename_session_def split: sum.splits prod.splits)

lemma Rename_ok:
  assumes "session_ok co st"
  shows "session_ok co (snd (Rename_session co ok now dec i t st))"
  unfolding session_ok_cong [OF Rename_rows] by (rule update_session_ok [OF assms]) simp

lemma Delete_ok: "session_ok co st \<Longrightarrow> session_ok co (snd (Delete_session ok dec i st))"
  by (auto simp: Delete_session_def clearEstimatedUsageState_def session_ok_def gomap_get_del
      simp del: map_of_eq_Some_iff split: option.splits)

lemma session_do_ok:
  "session_ok co st \<Longrightarrow> co_nonneg co (co_zero co) \<Longrightarrow> session_ok co (session_do co enc dec op st)"
  by (cases "(co, enc, dec, op, st)" rule: session_do.cases)
    (auto simp: Create_session_def CreateChild_def CreateTaskSession_def CreateTitleSession_def
      intro: insert_session_ok Save_ok Usage_ok Rename_ok Delete_ok)

interpretation session_sys: transition_system
  "\<lambda>(co, st). st = NewSessionService \<and> co_nonneg co (co_zero co)"
  "\<lambda>(co, st) (co', st'). co' = co \<and> (\<exists>enc dec op. st' = session_do co enc dec op st)"
  "\<lambda>(co, st). session_ok co st \<and> co_nonneg co (co_zero co)"
proof unfold_locales
  show "case s of (co, st) \<Rightarrow> session_ok co st \<and> co_nonneg co (co_zero co)"
    if "case s of (co, st) \<Rightarrow> st = NewSessionService \<and> co_nonneg co (co_zero co)" for s :: "'a cost_ops \<times> 'a session_store"
    using that by (auto simp: NewSessionService_def session_ok_def)
  show "case t of (co, st) \<Rightarrow> session_ok co st \<and> co_nonneg co (co_zero co)"
    if "(case s of (co, st) \<Rightarrow> \<lambda>(co', st'). co' = co \<and> (\<exists>enc dec op. st' = session_do co enc dec op st)) t"
      and "case s of (co, st) \<Rightarrow> session_ok co st \<and> co_nonneg co (co_zero co)" for s t :: "'a cost_ops \<times> 'a session_store"
    using that session_do_ok by (auto split: prod.splits)
qed

subsection \<open>Properties\<close>

text \<open>
  C35: A saved session reads back. If \<^verbatim>\<open>Save\<close> succeeds and JSON decoding undoes its encoding of the todo
  list, then reading the session gives the title, token counts, cost, summary, todos and the
  estimated-usage mark that were saved, with parent, message count and creation time as before and
  the update time now; the session \<^verbatim>\<open>Save\<close> returns is the same up to its update time, which is the
  old one; and every other session reads as before.
\<close>

theorem saved_session_reads_back:
  assumes "Save_session co db_ok now enc dec s st = (Inr out, st')" and "session_ok co st"
    and "se_todos s \<noteq> [] \<Longrightarrow> enc (se_todos s) = Some json \<and> json \<noteq> [] \<and> dec json = Some (se_todos s)"
  shows "\<exists>g. Get_session dec st (se_id s) = Inr g \<and>
    out = s\<lparr>se_parent := se_parent g, se_messages := se_messages g, se_created := se_created g, se_updated := se_updated g\<rparr> \<and>
    Get_session dec st' (se_id s) = Inr (out\<lparr>se_updated := now\<rparr>) \<and>
    (i \<noteq> se_id s \<longrightarrow> Get_session dec st' i = Get_session dec st i)"
proof -
  obtain j r where j: "marshalTodos enc (se_todos s) = Some j" and r: "map_of (ss_rows st) (se_id s) = Some r"
    and u: "update_session co db_ok now (se_id s) (saved_row s j) st =
      (Inr (Some (saved_row s j r)), st\<lparr>ss_rows := AList.update (se_id s) ((saved_row s j r)\<lparr>sr_updated := now\<rparr>) (ss_rows st)\<rparr>)"
    using assms(1) by (auto simp: Save_session_def update_session_def simp del: map_of_eq_Some_iff
        split: option.splits if_splits prod.splits sum.splits)
  have out: "out = (session_fromDBItem dec (saved_row s j r))\<lparr>se_estimated := se_estimated s\<rparr>"
    and st': "ss_rows st' = AList.update (se_id s) ((saved_row s j r)\<lparr>sr_updated := now\<rparr>) (ss_rows st)"
    "ss_estimated st' = (if se_estimated s then AList.update (se_id s) True (ss_estimated st) else AList.delete (se_id s) (ss_estimated st))"
    using assms(1) j u by (auto simp: Save_session_def Let_def setEstimatedUsageState_def)
  have id: "sr_id r = se_id s" using assms(2) r by (auto simp: session_ok_def simp del: map_of_eq_Some_iff)
  have todos: "unmarshalTodos dec (null_string (valid_string j)) = se_todos s"
    using j assms(3) by (cases "se_todos s = []")
      (auto simp: marshalTodos_def unmarshalTodos_def null_string_def valid_string_def)
  have sum: "null_string (valid_string x) = x" for x by (simp add: null_string_def valid_string_def)
  note f = session_fromDBItem_def saved_row_def read_session_def applyEstimatedUsageState_def
  have "out = s\<lparr>se_parent := null_string (sr_parent r), se_messages := sr_messages r, se_created := sr_created r, se_updated := sr_updated r\<rparr>"
    unfolding out by (cases s) (use id todos in \<open>simp add: f sum\<close>)
  moreover have "Get_session dec st' (se_id s) = Inr (out\<lparr>se_updated := now\<rparr>)"
    unfolding out by (simp add: Get_session_def st' f gomap_simps id)
  moreover have "Get_session dec st' i = Get_session dec st i" if "i \<noteq> se_id s"
  proof (cases "map_of (ss_rows st) i")
    case None
    with that show ?thesis by (simp add: Get_session_def st' gomap_simps)
  next
    case (Some q)
    then have "sr_id q = i" using assms(2) by (auto simp: session_ok_def simp del: map_of_eq_Some_iff)
    with Some that show ?thesis by (simp add: Get_session_def st' f gomap_simps)
  qed
  moreover have "Get_session dec st (se_id s) = Inr (read_session dec st r)" by (simp add: Get_session_def r)
  ultimately show ?thesis by (intro exI [of _ "read_session dec st r"]) (simp add: f)
qed

definition demo_todo :: todo where
  "demo_todo = \<lparr>td_content = ''c'', td_status = ''pending'', td_active = ''a''\<rparr>"

definition demo_costs :: "int cost_ops" where
  "demo_costs = \<lparr>co_add = (+), co_nonneg = (\<lambda>c. 0 \<le> c), co_zero = 0\<rparr>"

definition demo_sessions :: "int session_store" where
  "demo_sessions = foldl (\<lambda>st op. session_do demo_costs (\<lambda>_. Some ''j'') (\<lambda>_. Some [demo_todo]) op st) NewSessionService
     [(True, 5, OpCreate ''a'' ''first''), (True, 6, OpChild ''b'' ''a'' ''second'')]"

definition demo_saved :: "int chat_session" where
  "demo_saved = \<lparr>se_id = ''a'', se_parent = [], se_title = ''new'', se_messages = 0, se_prompt = 3, se_completion = 4,
     se_estimated = True, se_summary = ''m'', se_cost = 2, se_todos = [demo_todo], se_created = 0, se_updated = 0\<rparr>"

theorem saved_session_reads_back_witness:
  "\<exists>g. Get_session (\<lambda>_. Some [demo_todo])
      (snd (Save_session demo_costs True 9 (\<lambda>_. Some ''j'') (\<lambda>_. Some [demo_todo]) demo_saved demo_sessions)) ''a'' = Inr g \<and>
    se_title g = ''new'' \<and> se_todos g = [demo_todo] \<and> se_estimated g \<and> se_updated g = 9"
proof -
  let ?out = "Save_session demo_costs True 9 (\<lambda>_. Some ''j'') (\<lambda>_. Some [demo_todo]) demo_saved demo_sessions"
  have "\<not> isl (fst ?out)" by code_simp
  then have e: "?out = (Inr (projr (fst ?out)), snd ?out)" by (simp add: prod_eq_iff)
  have "session_ok demo_costs NewSessionService" by (simp add: session_ok_def NewSessionService_def)
  moreover have "co_nonneg demo_costs (co_zero demo_costs)" by (simp add: demo_costs_def)
  ultimately have ok: "session_ok demo_costs demo_sessions"
    unfolding demo_sessions_def foldl.simps by (intro session_do_ok)
  have t: "(\<lambda>_. Some ''j'') (se_todos demo_saved) = Some ''j'' \<and> ''j'' \<noteq> [] \<and> (\<lambda>_. Some [demo_todo]) ''j'' = Some (se_todos demo_saved)"
    by (simp add: demo_saved_def)
  from saved_session_reads_back [OF e ok t, of "''a''"] obtain g :: "int chat_session" where
    o: "projr (fst ?out) = demo_saved\<lparr>se_parent := se_parent g, se_messages := se_messages g, se_created := se_created g,
      se_updated := se_updated g\<rparr>"
    and g: "Get_session (\<lambda>_. Some [demo_todo]) (snd ?out) (se_id demo_saved) = Inr ((projr (fst ?out))\<lparr>se_updated := 9\<rparr>)"
    by blast
  have "se_id demo_saved = ''a''" by (simp add: demo_saved_def)
  with g o show ?thesis by (simp add: demo_saved_def)
qed

lemma split_two_iff:
  assumes "sep \<noteq> []"
  shows "str_split (m @ sep @ t) sep = [m, t] \<longleftrightarrow> str_index (m @ sep @ t) sep = Some (length m) \<and> str_index t sep = None"
proof
  assume l: "str_split (m @ sep @ t) sep = [m, t]"
  then obtain i where i: "str_index (m @ sep @ t) sep = Some i" "take i (m @ sep @ t) = m"
    "str_split (drop (i + length sep) (m @ sep @ t)) sep = [t]"
    using assms by (subst (asm) str_split.simps) (auto split: option.splits)
  have "i \<le> length (m @ sep @ t)" using str_index_bound [OF i(1)] by simp
  then have "i = length m" using i(2) by (metis length_take min.absorb2)
  moreover from this i(3) assms have "str_split t sep = [t]" by simp
  then have "str_index t sep = None"
    using assms by (subst (asm) str_split.simps) (auto split: option.splits)
  ultimately show "str_index (m @ sep @ t) sep = Some (length m) \<and> str_index t sep = None" using i(1) by simp
next
  assume "str_index (m @ sep @ t) sep = Some (length m) \<and> str_index t sep = None"
  then show "str_split (m @ sep @ t) sep = [m, t]"
    using assms by (subst str_split.simps) (simp add: str_split.simps [of t])
qed

lemma index_dollars: "str_index (m @ ''$$'' @ t) ''$$'' = Some (length m) \<longleftrightarrow> str_index (m @ ''$'') ''$$'' = None"
proof (induction m)
  case (Cons c m)
  then show ?case by (cases m) auto
qed simp

text \<open>
  The ID of an agent tool session can be taken apart exactly when that is unambiguous: parsing the
  ID made of a message ID and a tool call ID gives the two back if and only if neither holds
  \<^verbatim>\<open>$$\<close> and the message ID does not end in \<^verbatim>\<open>$\<close>.
\<close>

theorem agent_tool_id_parses:
  "ParseAgentToolSessionID (CreateAgentToolSessionID m t) = Some (m, t) \<longleftrightarrow>
     \<not> str_contains (m @ ''$'') ''$$'' \<and> \<not> str_contains t ''$$''"
proof -
  have "ParseAgentToolSessionID (CreateAgentToolSessionID m t) = Some (m, t) \<longleftrightarrow> str_split (m @ ''$$'' @ t) ''$$'' = [m, t]"
    by (auto simp: ParseAgentToolSessionID_def CreateAgentToolSessionID_def split: list.splits)
  also have "\<dots> \<longleftrightarrow> str_index (m @ ''$$'' @ t) ''$$'' = Some (length m) \<and> str_index t ''$$'' = None"
    by (rule split_two_iff) simp
  also have "str_index (m @ ''$$'' @ t) ''$$'' = Some (length m) \<longleftrightarrow> str_index (m @ ''$'') ''$$'' = None"
    by (rule index_dollars)
  finally show ?thesis by (simp add: str_contains_def)
qed

text \<open>
  \<^verbatim>\<open>Rename\<close> is documented to leave \<^verbatim>\<open>updated_at\<close> alone; the trigger of the table stamps it on every
  update, so a renamed session moves to the top of the list.
\<close>

lemma rename_touches_updated_at:
  "map sr_updated (map snd (ss_rows demo_sessions)) = [5, 6] \<and>
   map sr_updated (map snd (ss_rows (snd (Rename_session demo_costs True 9 (\<lambda>_. Some []) ''a'' ''t'' demo_sessions)))) = [9, 6]"
  by code_simp

text \<open>A deleted session leaves no row, message, file or usage mark behind, and touches no other session.\<close>

lemma deleted_session_is_gone:
  assumes "Delete_session db_ok dec i st = (None, st')" and "gomap_ok (ss_rows st)"
  shows "Get_session dec st' i = Inl SesNoRows \<and> i \<notin> snd ` set (ss_messages st') \<and> i \<notin> snd ` set (ss_files st') \<and>
    map_of (ss_estimated st') i = None \<and> (j \<noteq> i \<longrightarrow> map_of (ss_rows st') j = map_of (ss_rows st) j)"
  using assms
  by (auto simp: Delete_session_def clearEstimatedUsageState_def Get_session_def gomap_get_del
      simp del: map_of_eq_Some_iff split: option.splits if_splits)

end
