(* ===== verification/Db_Pool.thy ===== *)
theory Db_Pool
  imports Go_Strings
begin

section \<open>The shared database connections: \<^verbatim>\<open>internal/db/connect.go\<close>\<close>

text \<open>
  Workspaces with the same data directory share one connection, counted by references. The pool maps
  the absolute database path to an entry with the connection, its count and the lock of the data
  directory. \<open>dp_open\<close> and \<open>dp_locks\<close> are the connections and locks open in the process, so a leak
  shows. Opening, locking, pinging and migrating are outside: a \<open>conn_env\<close> says how each ends.
  \<^verbatim>\<open>filepath.Abs\<close> is the argument \<open>absp\<close> (with its fallback), \<open>dir\<close> the data directory.

  The abstract system counts the holders of each path: connecting adds one, releasing takes one
  away. The pool refines it.
\<close>

record pool_entry =
  pe_db :: nat
  pe_refs :: int
  pe_lock :: "nat option"

record db_pool =
  dp_pool :: "(string, pool_entry) gomap"
  dp_open :: "nat list"
  dp_locks :: "nat list"
  dp_next :: nat

record conn_env =
  ce_mkdir :: bool
  ce_skip :: bool
  ce_lock :: bool
  ce_open :: bool
  ce_ping :: bool
  ce_goose :: bool
  ce_up :: bool

datatype db_error = DbNoDir | DbMkdir | DbLocked | DbOpen | DbPing | DbGoose | DbMigrate | DbClose

definition EmptyPool :: db_pool where
  "EmptyPool = \<lparr>dp_pool = [], dp_open = [], dp_locks = [], dp_next = 0\<rparr>"

definition resolveDBPath :: "string \<Rightarrow> string" where
  "resolveDBPath dir = filepath_Clean (dir @ ''/tack.db'')"

definition pool_key :: "(string \<Rightarrow> string option) \<Rightarrow> string \<Rightarrow> string" where
  "pool_key absp dir = (case absp (resolveDBPath dir) of None \<Rightarrow> resolveDBPath dir | Some p \<Rightarrow> p)"

definition lock_release :: "nat option \<Rightarrow> db_pool \<Rightarrow> db_pool" where
  "lock_release l s = (case l of None \<Rightarrow> s | Some i \<Rightarrow> s\<lparr>dp_locks := remove1 i (dp_locks s)\<rparr>)"

definition conn_close :: "nat \<Rightarrow> db_pool \<Rightarrow> db_pool" where
  "conn_close c s = s\<lparr>dp_open := remove1 c (dp_open s)\<rparr>"

text \<open>Everything after the connection is open: ping, goose, migrations, and the new entry.\<close>

definition Connect_open :: "conn_env \<Rightarrow> string \<Rightarrow> nat option \<Rightarrow> nat \<Rightarrow> db_pool \<Rightarrow> (db_error + nat) \<times> db_pool" where
  "Connect_open env key lock conn s =
     (let fail = (\<lambda>e. (Inl e, lock_release lock (conn_close conn s))) in
      if \<not> ce_ping env then fail DbPing
      else if \<not> ce_goose env then fail DbGoose
      else if \<not> ce_up env then fail DbMigrate
      else (Inr conn, s\<lparr>dp_pool := AList.update key \<lparr>pe_db = conn, pe_refs = 1, pe_lock = lock\<rparr> (dp_pool s)\<rparr>))"

definition Connect_locked :: "conn_env \<Rightarrow> string \<Rightarrow> nat option \<Rightarrow> db_pool \<Rightarrow> (db_error + nat) \<times> db_pool" where
  "Connect_locked env key lock s =
     (if \<not> ce_open env then (Inl DbOpen, lock_release lock s)
      else
        (let conn = dp_next s
         in Connect_open env key lock conn (s\<lparr>dp_open := conn # dp_open s, dp_next := Suc conn\<rparr>)))"

definition Connect :: "(string \<Rightarrow> string option) \<Rightarrow> conn_env \<Rightarrow> string \<Rightarrow> bool \<Rightarrow> db_pool \<Rightarrow> (db_error + nat) \<times> db_pool" where
  "Connect absp env dir lockDataDir s =
     (if dir = [] then (Inl DbNoDir, s)
      else
        (let key = pool_key absp dir in
         case map_of (dp_pool s) key of
           Some e \<Rightarrow> (Inr (pe_db e), s\<lparr>dp_pool := AList.update key (e\<lparr>pe_refs := pe_refs e + 1\<rparr>) (dp_pool s)\<rparr>)
         | None \<Rightarrow>
             if \<not> ce_mkdir env then (Inl DbMkdir, s)
             else if lockDataDir \<and> \<not> ce_skip env then
               (if \<not> ce_lock env then (Inl DbLocked, s)
                else
                  (let l = dp_next s
                   in Connect_locked env key (Some l) (s\<lparr>dp_locks := l # dp_locks s, dp_next := Suc l\<rparr>)))
             else Connect_locked env key None s))"

text \<open>The result of \<^verbatim>\<open>Release\<close> is the error of closing; \<open>closed\<close> is whether closing succeeds.\<close>

definition Release :: "(string \<Rightarrow> string option) \<Rightarrow> bool \<Rightarrow> string \<Rightarrow> db_pool \<Rightarrow> db_error option \<times> db_pool" where
  "Release absp closed dir s =
     (let key = pool_key absp dir in
      case map_of (dp_pool s) key of
        None \<Rightarrow> (None, s)
      | Some e \<Rightarrow>
          (let e = e\<lparr>pe_refs := pe_refs e - 1\<rparr> in
           if pe_refs e > 0 then (None, s\<lparr>dp_pool := AList.update key e (dp_pool s)\<rparr>)
           else
             (if closed then None else Some DbClose,
              lock_release (pe_lock e) (conn_close (pe_db e) (s\<lparr>dp_pool := AList.delete key (dp_pool s)\<rparr>)))))"

subsection \<open>Steps, invariant, abstraction\<close>

inductive pool_step :: "(string \<Rightarrow> string option) \<Rightarrow> db_pool \<Rightarrow> db_pool \<Rightarrow> bool" for absp where
  connect: "pool_step absp s (snd (Connect absp env dir l s))"
| release: "pool_step absp s (snd (Release absp c dir s))"

inductive_cases pool_stepE: "pool_step absp s t"

definition entry_lock :: "string \<times> pool_entry \<Rightarrow> nat list" where
  "entry_lock e = (case pe_lock (snd e) of None \<Rightarrow> [] | Some l \<Rightarrow> [l])"

definition pool_dbs :: "(string, pool_entry) gomap \<Rightarrow> nat list" where
  "pool_dbs p = map (pe_db \<circ> snd) p"

definition pool_locks :: "(string, pool_entry) gomap \<Rightarrow> nat list" where
  "pool_locks p = concat (map entry_lock p)"

definition books_ok :: "nat list \<Rightarrow> nat list \<Rightarrow> nat \<Rightarrow> nat list \<Rightarrow> nat list \<Rightarrow> bool" where
  "books_ok opened locked next dbs locks \<longleftrightarrow>
     distinct (opened @ locked) \<and> (\<forall>i\<in>set (opened @ locked). i < next) \<and>
     distinct dbs \<and> set opened = set dbs \<and> distinct locks \<and> set locked = set locks"

definition pool_ok :: "db_pool \<Rightarrow> bool" where
  "pool_ok s \<longleftrightarrow>
     gomap_ok (dp_pool s) \<and> list_all (\<lambda>e. pe_refs (snd e) \<ge> 1) (dp_pool s) \<and>
     books_ok (dp_open s) (dp_locks s) (dp_next s) (pool_dbs (dp_pool s)) (pool_locks (dp_pool s))"

definition holders :: "db_pool \<Rightarrow> string \<Rightarrow> nat" where
  "holders s key = (case map_of (dp_pool s) key of None \<Rightarrow> 0 | Some e \<Rightarrow> nat (pe_refs e))"

inductive count_step :: "(string \<Rightarrow> nat) \<Rightarrow> (string \<Rightarrow> nat) \<Rightarrow> bool" where
  hold: "count_step h (h(key := Suc (h key)))"
| drop: "count_step h (h(key := h key - 1))"
| refused: "count_step h h"

lemma pool_lists [simp]:
  "pool_dbs [] = []" "pool_locks [] = []"
  "pool_dbs (x # p) = pe_db (snd x) # pool_dbs p" "pool_locks (x # p) = entry_lock x @ pool_locks p"
  "pool_dbs (p @ q) = pool_dbs p @ pool_dbs q" "pool_locks (p @ q) = pool_locks p @ pool_locks q"
  by (simp_all add: pool_dbs_def pool_locks_def)

lemma books_grow: "books_ok os ls n ds ks \<Longrightarrow> n \<le> m \<Longrightarrow> books_ok os ls m ds ks"
  by (auto simp: books_ok_def dest: bspec)

lemma books_open:
  assumes "books_ok os ls n ds ks" and "n \<le> c" "c < m"
  shows "books_ok (c # os) ls m (ds @ [c]) ks"
proof -
  have "c \<notin> set (os @ ls)" using assms by (auto simp: books_ok_def dest: bspec)
  with books_grow [OF assms(1), of m] assms(2,3) show ?thesis by (auto simp: books_ok_def)
qed

lemma books_lock:
  assumes "books_ok os ls n ds ks" and "n \<le> c" "c < m"
  shows "books_ok os (c # ls) m ds (ks @ [c])"
proof -
  have "c \<notin> set (os @ ls)" using assms by (auto simp: books_ok_def dest: bspec)
  with books_grow [OF assms(1), of m] assms(2,3) show ?thesis by (auto simp: books_ok_def)
qed

lemma books_close: "books_ok os ls n (us @ c # vs) ks \<Longrightarrow> books_ok (remove1 c os) ls n (us @ vs) ks"
  by (auto simp: books_ok_def)

lemma books_unlock: "books_ok os ls n ds (us @ c # vs) \<Longrightarrow> books_ok os (remove1 c ls) n ds (us @ vs)"
  by (auto simp: books_ok_def)

lemma pool_ok_update:
  assumes "pool_ok s" and "map_of (dp_pool s) key = Some e" and "pe_db e' = pe_db e" "pe_lock e' = pe_lock e" "pe_refs e' \<ge> 1"
  shows "pool_ok (s\<lparr>dp_pool := AList.update key e' (dp_pool s)\<rparr>)"
proof -
  obtain us vs where m: "dp_pool s = us @ (key, e) # vs" and u: "AList.update key e' (dp_pool s) = us @ (key, e') # vs"
    using gomap_split [OF assms(2)] by blast
  have "gomap_ok (AList.update key e' (dp_pool s))" using assms(1) by (simp add: pool_ok_def)
  with assms show ?thesis unfolding pool_ok_def by (simp add: u [unfolded m] m entry_lock_def)
qed

lemma pool_ok_new:
  assumes "gomap_ok (dp_pool s)" and "map_of (dp_pool s) key = None" and "pe_refs e = 1"
    and "list_all (\<lambda>e. pe_refs (snd e) \<ge> 1) (dp_pool s)"
    and "books_ok os ls n (pool_dbs (dp_pool s) @ [pe_db e]) (pool_locks (dp_pool s) @ entry_lock (key, e))"
  shows "pool_ok (s\<lparr>dp_pool := AList.update key e (dp_pool s), dp_open := os, dp_locks := ls, dp_next := n\<rparr>)"
proof -
  have "gomap_ok (AList.update key e (dp_pool s))" using assms(1) by simp
  with assms(2-5) show ?thesis by (simp add: pool_ok_def gomap_set_fresh)
qed

lemma pool_ok_delete:
  assumes "pool_ok s" and "map_of (dp_pool s) key = Some e"
  shows "pool_ok (lock_release (pe_lock e) (conn_close (pe_db e) (s\<lparr>dp_pool := AList.delete key (dp_pool s)\<rparr>)))"
proof -
  have g: "gomap_ok (dp_pool s)" using assms(1) by (simp add: pool_ok_def)
  then obtain us vs where m: "dp_pool s = us @ (key, e) # vs" and d: "AList.delete key (dp_pool s) = us @ vs"
    using gomap_split [OF assms(2)] by blast
  have g': "gomap_ok (us @ vs)" using g d gomap_ok_del by metis
  have "books_ok (dp_open s) (dp_locks s) (dp_next s) (pool_dbs us @ pe_db e # pool_dbs vs) (pool_locks (dp_pool s))"
    using assms(1) by (simp add: pool_ok_def m)
  from books_close [OF this] have c: "books_ok (remove1 (pe_db e) (dp_open s)) (dp_locks s) (dp_next s) (pool_dbs (us @ vs))
      (pool_locks us @ entry_lock (key, e) @ pool_locks vs)" by (simp add: m)
  have "books_ok (remove1 (pe_db e) (dp_open s)) (dp_locks (lock_release (pe_lock e) s)) (dp_next s) (pool_dbs (us @ vs)) (pool_locks (us @ vs))"
    using c books_unlock by (cases "pe_lock e") (simp_all add: entry_lock_def lock_release_def)
  with g' assms(1) show ?thesis
    by (cases "pe_lock e") (simp_all add: pool_ok_def d [unfolded m] m lock_release_def conn_close_def)
qed

text \<open>What \<^verbatim>\<open>Connect\<close> does, by its outcome; a failure leaves only the counter of IDs behind.\<close>

lemma Connect_cases:
  fixes r s'
  assumes "Connect absp env dir l s = (r, s')"
  obtains
    (shared) e where "map_of (dp_pool s) (pool_key absp dir) = Some e" and "r = Inr (pe_db e)"
      and "s' = s\<lparr>dp_pool := AList.update (pool_key absp dir) (e\<lparr>pe_refs := pe_refs e + 1\<rparr>) (dp_pool s)\<rparr>"
  | (failed) e where "r = Inl e" and "dp_pool s' = dp_pool s" and "dp_open s' = dp_open s" and "dp_locks s' = dp_locks s"
      and "dp_next s \<le> dp_next s'"
  | (opened) "map_of (dp_pool s) (pool_key absp dir) = None" and "r = Inr (dp_next s)"
      and "s' = s\<lparr>dp_pool := AList.update (pool_key absp dir) \<lparr>pe_db = dp_next s, pe_refs = 1, pe_lock = None\<rparr> (dp_pool s),
        dp_open := dp_next s # dp_open s, dp_next := Suc (dp_next s)\<rparr>"
  | (locked) "map_of (dp_pool s) (pool_key absp dir) = None" and "r = Inr (Suc (dp_next s))"
      and "s' = s\<lparr>dp_pool := AList.update (pool_key absp dir) \<lparr>pe_db = Suc (dp_next s), pe_refs = 1, pe_lock = Some (dp_next s)\<rparr> (dp_pool s),
        dp_open := Suc (dp_next s) # dp_open s, dp_locks := dp_next s # dp_locks s, dp_next := Suc (Suc (dp_next s))\<rparr>"
proof (cases "map_of (dp_pool s) (pool_key absp dir)")
  case (Some e)
  show thesis
  proof (cases "dir = []")
    case True
    with assms failed [of DbNoDir] show thesis by (simp add: Connect_def)
  next
    case False
    with assms Some shared show thesis by (simp add: Connect_def)
  qed
next
  case None
  show thesis
  proof (cases "\<exists>e. r = Inl e")
    case True
    with assms None failed show thesis
      by (auto simp: Connect_def Connect_locked_def Connect_open_def lock_release_def conn_close_def Let_def split: if_splits)
  next
    case False
    note d = Connect_def Connect_locked_def Connect_open_def
    have ok: "dir \<noteq> []" "ce_mkdir env" "ce_open env" "ce_ping env" "ce_goose env" "ce_up env" "l \<and> \<not> ce_skip env \<Longrightarrow> ce_lock env"
      using assms None False by (auto simp: d Let_def split: if_splits)
    show thesis
    proof (cases "l \<and> \<not> ce_skip env")
      case True
      have "Connect absp env dir l s = (Inr (Suc (dp_next s)),
        s\<lparr>dp_pool := AList.update (pool_key absp dir) \<lparr>pe_db = Suc (dp_next s), pe_refs = 1, pe_lock = Some (dp_next s)\<rparr> (dp_pool s),
          dp_open := Suc (dp_next s) # dp_open s, dp_locks := dp_next s # dp_locks s, dp_next := Suc (Suc (dp_next s))\<rparr>)"
        using ok None True by (simp add: d Let_def)
      with assms show thesis by (intro locked [OF None]) simp_all
    next
      case False
      have "Connect absp env dir l s = (Inr (dp_next s),
        s\<lparr>dp_pool := AList.update (pool_key absp dir) \<lparr>pe_db = dp_next s, pe_refs = 1, pe_lock = None\<rparr> (dp_pool s),
          dp_open := dp_next s # dp_open s, dp_next := Suc (dp_next s)\<rparr>)"
        using ok None False by (auto simp: d Let_def)
      with assms show thesis by (intro opened [OF None]) simp_all
    qed
  qed
qed

lemma Connect_ok:
  assumes "pool_ok s"
  shows "pool_ok (snd (Connect absp env dir l s))"
proof (cases "Connect absp env dir l s")
  case (Pair r s')
  note B = assms [unfolded pool_ok_def, THEN conjunct2, THEN conjunct2]
  note G = assms [unfolded pool_ok_def, THEN conjunct1] and R = assms [unfolded pool_ok_def, THEN conjunct2, THEN conjunct1]
  from Pair show ?thesis
  proof (cases rule: Connect_cases)
    case (shared e)
    have "pe_refs e \<ge> 1" using R map_of_SomeD [OF shared(1)] by (auto simp: list_all_iff)
    with shared Pair pool_ok_update [OF assms shared(1)] show ?thesis by simp
  next
    case (failed e)
    have "books_ok (dp_open s') (dp_locks s') (dp_next s') (pool_dbs (dp_pool s')) (pool_locks (dp_pool s'))"
      using books_grow [OF B failed(5)] failed(2-4) by simp
    with Pair failed G R show ?thesis by (simp add: pool_ok_def)
  next
    case opened
    note b = books_open [OF B order_refl lessI]
    show ?thesis unfolding Pair snd_conv opened(3)
      using pool_ok_new [OF G opened(1) _ R, where e = "\<lparr>pe_db = dp_next s, pe_refs = 1, pe_lock = None\<rparr>"
          and os = "dp_next s # dp_open s" and ls = "dp_locks s" and n = "Suc (dp_next s)"] b
      by (simp add: entry_lock_def)
  next
    case locked
    note b = books_open [OF books_lock [OF B order_refl lessI] order_refl lessI]
    show ?thesis unfolding Pair snd_conv locked(3)
      using pool_ok_new [OF G locked(1) _ R, where e = "\<lparr>pe_db = Suc (dp_next s), pe_refs = 1, pe_lock = Some (dp_next s)\<rparr>"
          and os = "Suc (dp_next s) # dp_open s" and ls = "dp_next s # dp_locks s" and n = "Suc (Suc (dp_next s))"] b
      by (simp add: entry_lock_def)
  qed
qed

lemma Release_ok:
  assumes "pool_ok s"
  shows "pool_ok (snd (Release absp c dir s))"
proof (cases "map_of (dp_pool s) (pool_key absp dir)")
  case None
  with assms show ?thesis by (simp add: Release_def)
next
  case (Some e)
  with assms show ?thesis
    using pool_ok_update [OF assms Some] pool_ok_delete [OF assms Some] by (auto simp: Release_def Let_def)
qed

subsection \<open>Counting holders\<close>

lemma refs_pos: "pool_ok s \<Longrightarrow> map_of (dp_pool s) key = Some e \<Longrightarrow> pe_refs e \<ge> 1"
  by (auto simp: pool_ok_def list_all_iff dest!: map_of_SomeD)

lemma holders_some: "map_of (dp_pool s) key = Some e \<Longrightarrow> holders s key = nat (pe_refs e)"
  by (simp add: holders_def)

lemma holders_none: "map_of (dp_pool s) key = None \<Longrightarrow> holders s key = 0"
  by (simp add: holders_def)

lemma holders_update: "dp_pool s' = AList.update key e (dp_pool s) \<Longrightarrow> holders s' = (holders s)(key := nat (pe_refs e))"
  by (auto simp: holders_def gomap_get_set fun_eq_iff)

lemma holders_delete: "dp_pool s' = AList.delete key (dp_pool s) \<Longrightarrow> holders s' = (holders s)(key := 0)"
  by (auto simp: holders_def gomap_get_del fun_eq_iff)

lemma Connect_counts:
  assumes "pool_ok s" and "Connect absp env dir l s = (Inr c, s')"
  shows "holders s' = (holders s)(pool_key absp dir := Suc (holders s (pool_key absp dir))) \<and> c \<in> set (dp_open s') \<and>
    (0 < holders s (pool_key absp dir) \<longrightarrow> dp_open s' = dp_open s \<and> dp_locks s' = dp_locks s)"
  using assms(2)
proof (cases rule: Connect_cases)
  case (shared e)
  have "pe_db e \<in> set (pool_dbs (dp_pool s))" using map_of_SomeD [OF shared(1)] by (force simp: pool_dbs_def)
  then have "pe_db e \<in> set (dp_open s)" using assms(1) by (simp add: pool_ok_def books_ok_def)
  moreover have "dp_pool s' = AList.update (pool_key absp dir) (e\<lparr>pe_refs := pe_refs e + 1\<rparr>) (dp_pool s)" using shared(3) by simp
  from holders_update [OF this] refs_pos [OF assms(1) shared(1)]
  have "holders s' = (holders s)(pool_key absp dir := Suc (holders s (pool_key absp dir)))"
    by (simp add: holders_some [OF shared(1)] Suc_nat_eq_nat_zadd1 add.commute)
  ultimately show ?thesis using shared by simp
next
  case opened
  then have "dp_pool s' = AList.update (pool_key absp dir) \<lparr>pe_db = dp_next s, pe_refs = 1, pe_lock = None\<rparr> (dp_pool s)" by simp
  from holders_update [OF this] opened show ?thesis by (simp add: holders_none)
next
  case locked
  then have "dp_pool s' = AList.update (pool_key absp dir) \<lparr>pe_db = Suc (dp_next s), pe_refs = 1, pe_lock = Some (dp_next s)\<rparr> (dp_pool s)" by simp
  from holders_update [OF this] locked show ?thesis by (simp add: holders_none)
qed simp

lemma Connect_fails: 
  assumes "Connect absp env dir l s = (Inl e, s')"
  shows "holders s' = holders s \<and> dp_open s' = dp_open s \<and> dp_locks s' = dp_locks s"
  using assms by (cases rule: Connect_cases) (auto simp: holders_def fun_eq_iff)

lemma opened_length: "pool_ok s \<Longrightarrow> length (dp_open s) = length (dp_pool s)"
  by (auto simp: pool_ok_def books_ok_def pool_dbs_def dest!: distinct_card)

lemma Release_counts:
  assumes "pool_ok s" and "Release absp ok dir s = (r, s')"
  shows "holders s' = (holders s)(pool_key absp dir := holders s (pool_key absp dir) - 1) \<and>
    (if holders s (pool_key absp dir) = 1 then length (dp_open s') + 1 = length (dp_open s)
     else dp_open s' = dp_open s \<and> dp_locks s' = dp_locks s)"
proof (cases "map_of (dp_pool s) (pool_key absp dir)")
  case None
  with assms(2) show ?thesis by (auto simp: Release_def holders_none fun_eq_iff)
next
  case (Some e)
  note pos = refs_pos [OF assms(1) Some]
  show ?thesis
  proof (cases "pe_refs e = 1")
    case True
    have p: "dp_pool s' = AList.delete (pool_key absp dir) (dp_pool s)"
      using assms(2) Some True by (cases "pe_lock e") (auto simp: Release_def Let_def lock_release_def conn_close_def)
    have "pool_ok s'" using Release_ok [OF assms(1), of absp ok dir] assms(2) by simp
    moreover have "length (dp_pool s') + 1 = length (dp_pool s)"
      using gomap_split [OF Some] assms(1) by (auto simp: p pool_ok_def)
    ultimately show ?thesis using opened_length [of s'] opened_length [OF assms(1)] holders_delete [OF p] holders_some [OF Some] True by simp
  next
    case False
    then have "s' = s\<lparr>dp_pool := AList.update (pool_key absp dir) (e\<lparr>pe_refs := pe_refs e - 1\<rparr>) (dp_pool s)\<rparr>"
      using assms(2) Some pos by (auto simp: Release_def Let_def split: if_splits)
    with False pos holders_some [OF Some] holders_update [of s' "pool_key absp dir" _ s] show ?thesis by (simp add: nat_diff_distrib)
  qed
qed

lemma EmptyPool_ok: "pool_ok EmptyPool"
  by (simp add: EmptyPool_def pool_ok_def books_ok_def)

lemma pool_step_ok: "pool_step absp s t \<Longrightarrow> pool_ok s \<Longrightarrow> pool_ok t"
  by (erule pool_stepE) (simp_all add: Connect_ok Release_ok)

lemma pool_step_count:
  assumes "pool_step absp s t" and "pool_ok s"
  shows "count_step (holders s) (holders t)"
  using assms(1)
proof (cases rule: pool_step.cases)
  case (connect env dir l)
  show ?thesis
  proof (cases "Connect absp env dir l s")
    case (Pair r s')
    with connect Connect_counts [OF assms(2), of absp env dir l _ s'] Connect_fails [of absp env dir l s _ s'] show ?thesis
      by (cases r) (auto intro: count_step.intros)
  qed
next
  case (release c dir)
  with Release_counts [OF assms(2), of absp c dir] show ?thesis
    by (cases "Release absp c dir s") (simp add: count_step.drop [unfolded One_nat_def])
qed

interpretation pool_sys: refinement "\<lambda>s. s = EmptyPool" "pool_step absp" pool_ok holders count_step for absp
  by unfold_locales (auto intro: EmptyPool_ok pool_step_ok pool_step_count)

text \<open>
  C21: The pool counts holders. From the empty pool, any run of \<^verbatim>\<open>Connect\<close> and \<^verbatim>\<open>Release\<close> is a run of the
  abstract system that only counts the holders of each path, and exactly one connection is open per
  held path. A successful \<^verbatim>\<open>Connect\<close> returns an open connection and opens nothing for a path already
  held; a failed one leaks neither connection nor lock; \<^verbatim>\<open>Release\<close> closes exactly one connection
  when the last holder leaves and otherwise none.
\<close>

theorem pool_counts_holders:
  assumes "(pool_step absp)\<^sup>*\<^sup>* EmptyPool s"
  shows "count_step\<^sup>*\<^sup>* (\<lambda>_. 0) (holders s) \<and> length (dp_open s) = length (dp_pool s) \<and>
    (Connect absp env dir l s = (Inr c, s1) \<longrightarrow>
       holders s1 = (holders s)(pool_key absp dir := Suc (holders s (pool_key absp dir))) \<and> c \<in> set (dp_open s1) \<and>
       (0 < holders s (pool_key absp dir) \<longrightarrow> dp_open s1 = dp_open s \<and> dp_locks s1 = dp_locks s)) \<and>
    (Connect absp env dir l s = (Inl e, s2) \<longrightarrow> holders s2 = holders s \<and> dp_open s2 = dp_open s \<and> dp_locks s2 = dp_locks s) \<and>
    (Release absp ok dir s = (r, s3) \<longrightarrow>
       holders s3 = (holders s)(pool_key absp dir := holders s (pool_key absp dir) - 1) \<and>
       (if holders s (pool_key absp dir) = 1 then length (dp_open s3) + 1 = length (dp_open s)
        else dp_open s3 = dp_open s \<and> dp_locks s3 = dp_locks s))"
proof -
  note inv = pool_sys.reachable_inv [OF refl assms]
  have "holders EmptyPool = (\<lambda>_. 0)" by (simp add: holders_def EmptyPool_def fun_eq_iff)
  with pool_sys.runs_refine [OF assms EmptyPool_ok] have "count_step\<^sup>*\<^sup>* (\<lambda>_. 0) (holders s)" by simp
  then show ?thesis
    using opened_length [OF inv] Connect_counts [OF inv] Connect_fails Release_counts [OF inv]
    by (intro conjI impI) blast+
qed

definition env_works :: conn_env where
  "env_works = \<lparr>ce_mkdir = True, ce_skip = False, ce_lock = True, ce_open = True, ce_ping = True, ce_goose = True, ce_up = True\<rparr>"

definition demo_pool :: db_pool where
  "demo_pool = snd (Connect Some env_works ''/d'' False (snd (Connect Some env_works ''/d'' True EmptyPool)))"

theorem pool_counts_holders_witness:
  "holders demo_pool ''/d/tack.db'' = 2 \<and> length (dp_open demo_pool) = 1 \<and>
   dp_open (snd (Release Some True ''/d'' demo_pool)) = dp_open demo_pool"
proof -
  have "pool_step Some EmptyPool (snd (Connect Some env_works ''/d'' True EmptyPool))"
    "pool_step Some (snd (Connect Some env_works ''/d'' True EmptyPool)) demo_pool"
    unfolding demo_pool_def by (rule pool_step.connect)+
  then have r: "(pool_step Some)\<^sup>*\<^sup>* EmptyPool demo_pool" by (meson rtranclp.simps)
  have h: "holders demo_pool ''/d/tack.db'' = 2" "length (dp_pool demo_pool) = 1" "pool_key Some ''/d'' = ''/d/tack.db''" by code_simp+
  obtain x s3 where rel: "Release Some True ''/d'' demo_pool = (x, s3)" by fastforce
  from pool_counts_holders [OF r, where dir = "''/d''" and ok = True] h rel show ?thesis by auto
qed

text \<open>
  A release without a matching connect is not noticed while others hold the path: two workspaces
  share a connection, one of them is released twice, and the connection the other one still uses is
  closed.
\<close>

lemma extra_release_closes_shared:
  "dp_open (snd (Release Some True ''/d'' (snd (Release Some True ''/d'' demo_pool)))) = [] \<and>
   snd (Release Some True ''/d'' EmptyPool) = EmptyPool"
  by code_simp

end
