(* ===== verification/Question.thy ===== *)
theory Question
  imports Go_Strings
begin

section \<open>Questions to the user: \<^verbatim>\<open>internal/question/question.go\<close>\<close>

text \<open>
  The validation of a request and the service that blocks the question tool until the user answers.
  A pair of channels is a number: \<open>qs_buffers\<close> is what the answer channel buffers (capacity 1),
  \<open>qs_closed\<close> whether the cancel channel is closed. Each critical section of the mutex and each
  channel operation between them is one step, so any number of \<^verbatim>\<open>Ask\<close>, \<^verbatim>\<open>Answer\<close> and \<^verbatim>\<open>Cancel\<close>
  calls may interleave; a step that blocks is not enabled. A second close of a channel panics and is
  counted. \<^verbatim>\<open>uuid.New\<close> is an argument, delivery of the published events is the broker's.
  \<open>qs_batch\<close>, \<open>qs_sent\<close>, \<open>qs_closed_for\<close> and \<open>qs_returned\<close> only record history.
\<close>

subsection \<open>Requests\<close>

abbreviation "TypeYesNo \<equiv> ''yes_no''"
abbreviation "TypeSingleChoice \<equiv> ''single_choice''"
abbreviation "TypeMultiChoice \<equiv> ''multi_choice''"
abbreviation "TypeFreeText \<equiv> ''free_text''"

record question_choice =
  ch_id :: string
  ch_label :: string
  ch_description :: string

record question =
  qn_id :: string
  qn_type :: string
  qn_label :: string
  qn_text :: string
  qn_description :: string
  qn_choices :: "question_choice list"

record question_answer =
  an_question :: string
  an_selected :: "string list"
  an_fill_in :: string
  an_yes :: "bool option"
  an_notes :: "(string, string) gomap"

record question_request =
  qr_id :: string
  qr_session :: string
  qr_tool_call :: string
  qr_questions :: "question list"
  qr_confirm_title :: string
  qr_confirm_description :: string

definition HasNotes :: "question_answer \<Rightarrow> bool" where
  "HasNotes a \<longleftrightarrow> length (an_notes a) > 0"

definition MaxQuestionLength :: nat where "MaxQuestionLength = 240"
definition MaxDescriptionLength :: nat where "MaxDescriptionLength = 600"
definition MaxChoiceLabelLength :: nat where "MaxChoiceLabelLength = 200"
definition MaxChoiceDescriptionLength :: nat where "MaxChoiceDescriptionLength = 200"
definition MaxChoices :: nat where "MaxChoices = 5"
definition MaxQuestions :: nat where "MaxQuestions = 5"

lemmas question_limits = MaxQuestionLength_def MaxDescriptionLength_def MaxChoiceLabelLength_def
  MaxChoiceDescriptionLength_def MaxChoices_def MaxQuestions_def

text \<open>The errors, one constructor per message, with the values the message prints.\<close>

datatype question_error =
    NoQuestions
  | TooManyQuestions nat
  | InQuestion nat question_error
  | TextRequired string
  | TextTooLong string nat
  | DescriptionRequired string
  | DescriptionTooLong string nat
  | TooFewChoices string string nat
  | TooManyChoices string nat
  | ChoiceWithoutID string nat
  | DuplicateChoice string nat string
  | ChoiceWithoutLabel string nat string
  | ChoiceLabelTooLong string nat nat
  | ChoiceDescriptionTooLong string nat nat
  | UnknownType string string

definition ellipsis :: string where
  "ellipsis = [CHR 0xE2, CHR 0x80, CHR 0xA6]"

definition question_identifier :: "question \<Rightarrow> string" where
  "question_identifier q =
     (if qn_label q \<noteq> [] then ''['' @ qn_label q @ '']''
      else if qn_text q \<noteq> [] then
        (let t = (if length (qn_text q) > 40 then take 40 (qn_text q) @ ellipsis else qn_text q) in ''['' @ t @ '']'')
      else ''[unnamed question]'')"

fun Validate_choices :: "string \<Rightarrow> nat \<Rightarrow> string list \<Rightarrow> question_choice list \<Rightarrow> question_error option" where
  "Validate_choices label i seen [] = None"
| "Validate_choices label i seen (c # cs) =
     (if ch_id c = [] then Some (ChoiceWithoutID label (i + 1))
      else if ch_id c \<in> set seen then Some (DuplicateChoice label (i + 1) (ch_id c))
      else if ch_label c = [] then Some (ChoiceWithoutLabel label (i + 1) (ch_id c))
      else if length (ch_label c) > MaxChoiceLabelLength then Some (ChoiceLabelTooLong label (i + 1) (length (ch_label c)))
      else if length (ch_description c) > MaxChoiceDescriptionLength
      then Some (ChoiceDescriptionTooLong label (i + 1) (length (ch_description c)))
      else Validate_choices label (i + 1) (ch_id c # seen) cs)"

definition Validate_question :: "question \<Rightarrow> question_error option" where
  "Validate_question q =
     (let label = question_identifier q in
      if qn_text q = [] then Some (TextRequired label)
      else if length (qn_text q) > MaxQuestionLength then Some (TextTooLong label (length (qn_text q)))
      else if qn_description q = [] then Some (DescriptionRequired label)
      else if length (qn_description q) > MaxDescriptionLength
      then Some (DescriptionTooLong label (length (qn_description q)))
      else if qn_type q = TypeYesNo \<or> qn_type q = TypeFreeText then None
      else if qn_type q = TypeSingleChoice \<or> qn_type q = TypeMultiChoice then
        (if length (qn_choices q) < 2 then Some (TooFewChoices label (qn_type q) (length (qn_choices q)))
         else if length (qn_choices q) > MaxChoices then Some (TooManyChoices label (length (qn_choices q)))
         else Validate_choices label 0 [] (qn_choices q))
      else Some (UnknownType label (qn_type q)))"

fun Validate_questions :: "nat \<Rightarrow> question list \<Rightarrow> question_error option" where
  "Validate_questions i [] = None"
| "Validate_questions i (q # qs) =
     (case Validate_question q of Some e \<Rightarrow> Some (InQuestion (i + 1) e) | None \<Rightarrow> Validate_questions (i + 1) qs)"

definition Validate_request :: "question_request \<Rightarrow> question_error option" where
  "Validate_request r =
     (if length (qr_questions r) = 0 then Some NoQuestions
      else if length (qr_questions r) > MaxQuestions then Some (TooManyQuestions (length (qr_questions r)))
      else Validate_questions 0 (qr_questions r))"

text \<open>The start of \<^verbatim>\<open>Ask\<close>: drawn IDs and the defaults of the confirmation.\<close>

definition Ask_prepare :: "string \<Rightarrow> (nat \<Rightarrow> string) \<Rightarrow> question_request \<Rightarrow> question_request" where
  "Ask_prepare rid qids req =
     (let req = (if qr_id req = [] then req\<lparr>qr_id := rid\<rparr> else req);
          req = req\<lparr>qr_questions := map (\<lambda>(i, q). if qn_id q = [] then q\<lparr>qn_id := qids i\<rparr> else q)
                                      (enumerate 0 (qr_questions req))\<rparr>
      in if length (qr_questions req) \<ge> 2 then
           (let req = (if qr_confirm_title req = [] then req\<lparr>qr_confirm_title := ''Ready to go?''\<rparr> else req)
            in if qr_confirm_description req = []
               then req\<lparr>qr_confirm_description := ''Review your answers above and confirm.''\<rparr> else req)
         else req)"

subsection \<open>The service\<close>

datatype ask_result = AskAnswers "question_answer list" | AskCancelled | AskContextDone
datatype ask_phase = AskRegistered | AskWaiting "nat option" "nat option" | AskLeaving ask_result

record ask_call =
  ak_req :: question_request
  ak_chan :: nat
  ak_phase :: ask_phase

record answer_call =
  aw_batch :: string
  aw_chan :: nat
  aw_answers :: "question_answer list"
  aw_done :: bool

record question_service =
  qs_pending :: "nat option"
  qs_cancelled :: "nat option"
  qs_pending_id :: string
  qs_next :: nat
  qs_buffers :: "nat \<Rightarrow> question_answer list list"
  qs_closed :: "nat \<Rightarrow> bool"
  qs_asks :: "(nat, ask_call) gomap"
  qs_answering :: "(nat, answer_call) gomap"
  qs_cancelling :: "(nat, answer_call) gomap"
  qs_calls :: nat
  qs_requests :: "question_request list"
  qs_notes :: "string list"
  qs_panics :: nat
  qs_batch :: "nat \<Rightarrow> string"
  qs_sent :: "(string \<times> question_answer list) list"
  qs_closed_for :: "string list"
  qs_returned :: "(string \<times> ask_result) list"

definition NewQuestionService :: question_service where
  "NewQuestionService =
     \<lparr>qs_pending = None, qs_cancelled = None, qs_pending_id = [], qs_next = 0, qs_buffers = (\<lambda>_. []),
      qs_closed = (\<lambda>_. False), qs_asks = [], qs_answering = [], qs_cancelling = [], qs_calls = 0,
      qs_requests = [], qs_notes = [], qs_panics = 0, qs_batch = (\<lambda>_. []), qs_sent = [], qs_closed_for = [],
      qs_returned = []\<rparr>"

definition Ask_begin :: "string \<Rightarrow> (nat \<Rightarrow> string) \<Rightarrow> question_request \<Rightarrow> question_service \<Rightarrow>
    (question_error + nat) \<times> question_service" where
  "Ask_begin rid qids req0 s =
     (let req = Ask_prepare rid qids req0 in
      case Validate_request req of
        Some e \<Rightarrow> (Inl e, s)
      | None \<Rightarrow>
          (let k = qs_next s in
           (Inr k, s\<lparr>qs_pending := Some k, qs_cancelled := Some k, qs_pending_id := qr_id req, qs_next := Suc k,
                     qs_batch := (qs_batch s)(k := qr_id req),
                     qs_asks := AList.update k \<lparr>ak_req = req, ak_chan = k, ak_phase = AskRegistered\<rparr> (qs_asks s)\<rparr>)))"

definition set_ask :: "nat \<Rightarrow> ask_call \<Rightarrow> ask_phase \<Rightarrow> question_service \<Rightarrow> question_service" where
  "set_ask k a p s = s\<lparr>qs_asks := AList.update k (a\<lparr>ak_phase := p\<rparr>) (qs_asks s)\<rparr>"

text \<open>Publishing the request and entering the \<^verbatim>\<open>select\<close>, which reads both fields without the mutex.\<close>

definition Ask_select :: "nat \<Rightarrow> question_service \<Rightarrow> question_service option" where
  "Ask_select k s =
     (case map_of (qs_asks s) k of
        Some a \<Rightarrow>
          if ak_phase a = AskRegistered
          then Some (set_ask k a (AskWaiting (qs_pending s) (qs_cancelled s)) (s\<lparr>qs_requests := qs_requests s @ [ak_req a]\<rparr>))
          else None
      | None \<Rightarrow> None)"

text \<open>The three arms of the \<^verbatim>\<open>select\<close>. A nil channel is never ready.\<close>

definition Ask_answered :: "nat \<Rightarrow> question_service \<Rightarrow> question_service option" where
  "Ask_answered k s =
     (case map_of (qs_asks s) k of
        Some a \<Rightarrow>
          (case ak_phase a of
             AskWaiting (Some p) _ \<Rightarrow>
               (case qs_buffers s p of
                  x # rest \<Rightarrow> Some (set_ask k a (AskLeaving (AskAnswers x)) (s\<lparr>qs_buffers := (qs_buffers s)(p := rest)\<rparr>))
                | [] \<Rightarrow> None)
           | _ \<Rightarrow> None)
      | None \<Rightarrow> None)"

definition Ask_cancelled :: "nat \<Rightarrow> question_service \<Rightarrow> question_service option" where
  "Ask_cancelled k s =
     (case map_of (qs_asks s) k of
        Some a \<Rightarrow>
          (case ak_phase a of
             AskWaiting _ (Some c) \<Rightarrow> if qs_closed s c then Some (set_ask k a (AskLeaving AskCancelled) s) else None
           | _ \<Rightarrow> None)
      | None \<Rightarrow> None)"

definition Ask_done :: "nat \<Rightarrow> question_service \<Rightarrow> question_service option" where
  "Ask_done k s =
     (case map_of (qs_asks s) k of
        Some a \<Rightarrow> (case ak_phase a of AskWaiting _ _ \<Rightarrow> Some (set_ask k a (AskLeaving AskContextDone) s) | _ \<Rightarrow> None)
      | None \<Rightarrow> None)"

definition Ask_leave :: "nat \<Rightarrow> question_service \<Rightarrow> question_service option" where
  "Ask_leave k s =
     (case map_of (qs_asks s) k of
        Some a \<Rightarrow>
          (case ak_phase a of
             AskLeaving r \<Rightarrow>
               Some (s\<lparr>qs_pending := None, qs_cancelled := None, qs_pending_id := [], qs_asks := AList.delete k (qs_asks s),
                       qs_returned := qs_returned s @ [(qr_id (ak_req a), r)]\<rparr>)
           | _ \<Rightarrow> None)
      | None \<Rightarrow> None)"

text \<open>\<^verbatim>\<open>Answer\<close> and \<^verbatim>\<open>Cancel\<close>: the locked read (with the immediate result \<open>False\<close>), the channel
  operation, and the notification with the result \<open>True\<close>.\<close>

definition Answer_begin :: "question_answer list \<Rightarrow> question_service \<Rightarrow> bool option \<times> question_service" where
  "Answer_begin answers s =
     (case qs_pending s of
        None \<Rightarrow> (Some False, s)
      | Some ch \<Rightarrow>
          (None, s\<lparr>qs_calls := Suc (qs_calls s),
                   qs_answering := AList.update (qs_calls s)
                     \<lparr>aw_batch = qs_pending_id s, aw_chan = ch, aw_answers = answers, aw_done = False\<rparr> (qs_answering s)\<rparr>))"

definition Answer_send :: "nat \<Rightarrow> question_service \<Rightarrow> question_service option" where
  "Answer_send j s =
     (case map_of (qs_answering s) j of
        Some c \<Rightarrow>
          if \<not> aw_done c \<and> length (qs_buffers s (aw_chan c)) < 1
          then Some (s\<lparr>qs_buffers := (qs_buffers s)(aw_chan c := qs_buffers s (aw_chan c) @ [aw_answers c]),
                       qs_answering := AList.update j (c\<lparr>aw_done := True\<rparr>) (qs_answering s),
                       qs_sent := qs_sent s @ [(aw_batch c, aw_answers c)]\<rparr>)
          else None
      | None \<Rightarrow> None)"

definition notify_batch :: "string \<Rightarrow> question_service \<Rightarrow> question_service" where
  "notify_batch b s = (if b \<noteq> [] then s\<lparr>qs_notes := qs_notes s @ [b]\<rparr> else s)"

definition Answer_finish :: "nat \<Rightarrow> question_service \<Rightarrow> (bool \<times> question_service) option" where
  "Answer_finish j s =
     (case map_of (qs_answering s) j of
        Some c \<Rightarrow>
          if aw_done c then Some (True, notify_batch (aw_batch c) (s\<lparr>qs_answering := AList.delete j (qs_answering s)\<rparr>))
          else None
      | None \<Rightarrow> None)"

definition Cancel_begin :: "question_service \<Rightarrow> bool option \<times> question_service" where
  "Cancel_begin s =
     (case qs_cancelled s of
        None \<Rightarrow> (Some False, s)
      | Some ch \<Rightarrow>
          (None, s\<lparr>qs_calls := Suc (qs_calls s),
                   qs_cancelling := AList.update (qs_calls s)
                     \<lparr>aw_batch = qs_pending_id s, aw_chan = ch, aw_answers = [], aw_done = False\<rparr> (qs_cancelling s)\<rparr>))"

definition Cancel_close :: "nat \<Rightarrow> question_service \<Rightarrow> question_service option" where
  "Cancel_close j s =
     (case map_of (qs_cancelling s) j of
        Some c \<Rightarrow>
          if aw_done c then None
          else if qs_closed s (aw_chan c)
          then Some (s\<lparr>qs_panics := Suc (qs_panics s), qs_cancelling := AList.delete j (qs_cancelling s)\<rparr>)
          else Some (s\<lparr>qs_closed := (qs_closed s)(aw_chan c := True),
                       qs_cancelling := AList.update j (c\<lparr>aw_done := True\<rparr>) (qs_cancelling s),
                       qs_closed_for := qs_closed_for s @ [aw_batch c]\<rparr>)
      | None \<Rightarrow> None)"

definition Cancel_finish :: "nat \<Rightarrow> question_service \<Rightarrow> (bool \<times> question_service) option" where
  "Cancel_finish j s =
     (case map_of (qs_cancelling s) j of
        Some c \<Rightarrow>
          if aw_done c then Some (True, notify_batch (aw_batch c) (s\<lparr>qs_cancelling := AList.delete j (qs_cancelling s)\<rparr>))
          else None
      | None \<Rightarrow> None)"

subsection \<open>Steps\<close>

datatype question_op =
    QAsk string "nat \<Rightarrow> string" question_request
  | QSelect nat | QAnswered nat | QCancelled nat | QDone nat | QLeave nat
  | QAnswer "question_answer list" | QSend nat | QSent nat
  | QCancel | QClose nat | QClosed nat

fun question_exec :: "question_op \<Rightarrow> question_service \<Rightarrow> question_service option" where
  "question_exec (QAsk rid qids req) s = Some (snd (Ask_begin rid qids req s))"
| "question_exec (QSelect k) s = Ask_select k s"
| "question_exec (QAnswered k) s = Ask_answered k s"
| "question_exec (QCancelled k) s = Ask_cancelled k s"
| "question_exec (QDone k) s = Ask_done k s"
| "question_exec (QLeave k) s = Ask_leave k s"
| "question_exec (QAnswer xs) s = Some (snd (Answer_begin xs s))"
| "question_exec (QSend j) s = Answer_send j s"
| "question_exec (QSent j) s = map_option snd (Answer_finish j s)"
| "question_exec QCancel s = Some (snd (Cancel_begin s))"
| "question_exec (QClose j) s = Cancel_close j s"
| "question_exec (QClosed j) s = map_option snd (Cancel_finish j s)"

fun question_execs :: "question_op list \<Rightarrow> question_service \<Rightarrow> question_service option" where
  "question_execs [] s = Some s"
| "question_execs (op # ops) s = Option.bind (question_exec op s) (question_execs ops)"

text \<open>The documented discipline: the tool asks one question at a time.\<close>

fun one_at_a_time :: "question_op \<Rightarrow> question_service \<Rightarrow> bool" where
  "one_at_a_time (QAsk _ _ _) s = (qs_asks s = [])"
| "one_at_a_time _ s = True"

inductive question_step :: "question_service \<Rightarrow> question_service \<Rightarrow> bool" where
  question_stepI: "one_at_a_time op s \<Longrightarrow> question_exec op s = Some s' \<Longrightarrow> question_step s s'"

inductive_cases question_stepE: "question_step s s'"

fun question_solo :: "question_op list \<Rightarrow> question_service \<Rightarrow> bool" where
  "question_solo [] s = True"
| "question_solo (op # ops) s =
     (one_at_a_time op s \<and> (case question_exec op s of Some t \<Rightarrow> question_solo ops t | None \<Rightarrow> False))"

lemma question_solo_steps: "question_solo ops s \<Longrightarrow> question_execs ops s = Some t \<Longrightarrow> question_step\<^sup>*\<^sup>* s t"
  by (induction ops arbitrary: s)
     (auto simp: bind_eq_Some_conv split: option.splits intro: converse_rtranclp_into_rtranclp question_stepI)

subsection \<open>What validation accepts\<close>

definition choice_ok :: "question_choice \<Rightarrow> bool" where
  "choice_ok c \<longleftrightarrow> ch_id c \<noteq> [] \<and> ch_label c \<noteq> [] \<and> length (ch_label c) \<le> 200 \<and> length (ch_description c) \<le> 200"

definition question_ok :: "question \<Rightarrow> bool" where
  "question_ok q \<longleftrightarrow>
     length (qn_text q) \<in> {1..240} \<and> length (qn_description q) \<in> {1..600} \<and>
     (qn_type q \<in> {TypeYesNo, TypeFreeText} \<or>
      qn_type q \<in> {TypeSingleChoice, TypeMultiChoice} \<and> length (qn_choices q) \<in> {2..5} \<and>
      distinct (map ch_id (qn_choices q)) \<and> list_all choice_ok (qn_choices q))"

lemma Validate_choices_None:
  "Validate_choices l i seen cs = None \<longleftrightarrow>
     list_all choice_ok cs \<and> distinct (map ch_id cs) \<and> set (map ch_id cs) \<inter> set seen = {}"
  by (induction l i seen cs rule: Validate_choices.induct) (auto simp: choice_ok_def question_limits)

lemma Validate_question_None: "Validate_question q = None \<longleftrightarrow> question_ok q"
  by (auto simp: Validate_question_def question_ok_def Let_def Validate_choices_None question_limits Suc_le_eq)

lemma Validate_questions_None: "Validate_questions i qs = None \<longleftrightarrow> list_all question_ok qs"
  by (induction i qs rule: Validate_questions.induct) (auto simp: Validate_question_None [symmetric] split: option.splits)

lemma Validate_question_ok: "question_ok q \<Longrightarrow> Validate_question q = None"
  by (simp add: Validate_question_None)

lemma Validate_questions_Some:
  "Validate_questions i qs = Some e \<longleftrightarrow>
     (\<exists>m e'. m < length qs \<and> list_all question_ok (take m qs) \<and> Validate_question (qs ! m) = Some e' \<and> e = InQuestion (i + m + 1) e')"
proof (induction i qs rule: Validate_questions.induct)
  case (2 i q qs)
  show ?case
  proof (cases "Validate_question q")
    case (Some x)
    then have "\<not> question_ok q" by (simp flip: Validate_question_None)
    with Some show ?thesis by (auto simp: take_Cons' less_Suc_eq_0_disj split: if_splits)
  next
    case None
    then have ok: "question_ok q" by (simp add: Validate_question_None)
    have "Validate_questions i (q # qs) = Some e \<longleftrightarrow>
      (\<exists>m e'. m < length qs \<and> list_all question_ok (take m qs) \<and> Validate_question (qs ! m) = Some e' \<and> e = InQuestion (i + 1 + m + 1) e')"
      using None "2.IH" by simp
    also have "\<dots> \<longleftrightarrow> (\<exists>m e'. m < length (q # qs) \<and> list_all question_ok (take m (q # qs)) \<and>
      Validate_question ((q # qs) ! m) = Some e' \<and> e = InQuestion (i + m + 1) e')" (is "?l \<longleftrightarrow> ?r")
    proof
      assume ?l
      then obtain m e' where "m < length qs" "list_all question_ok (take m qs)" "Validate_question (qs ! m) = Some e'"
        "e = InQuestion (i + 1 + m + 1) e'" by blast
      with ok show ?r by (intro exI [of _ "Suc m"] exI [of _ e']) auto
    next
      assume ?r
      then obtain m e' where m: "m < length (q # qs)" "list_all question_ok (take m (q # qs))"
        "Validate_question ((q # qs) ! m) = Some e'" "e = InQuestion (i + m + 1) e'" by blast
      with None obtain n where "m = Suc n" by (cases m) auto
      with m show ?l by (intro exI [of _ n] exI [of _ e']) auto
    qed
    finally show ?thesis .
  qed
qed simp

text \<open>
  \<^verbatim>\<open>Validate\<close> accepts exactly the requests with one to five well-formed questions (texts within
  their bounds; choice questions with two to five labelled choices of different IDs), and an error
  inside a question names the first question that is not well-formed.
\<close>

theorem question_validation_exact:
  "(Validate_request r = None \<longleftrightarrow> length (qr_questions r) \<in> {1..5} \<and> list_all question_ok (qr_questions r)) \<and>
   (Validate_request r = Some (InQuestion k e) \<longleftrightarrow>
      length (qr_questions r) \<in> {1..5} \<and> k \<in> {1..length (qr_questions r)} \<and>
      list_all question_ok (take (k - 1) (qr_questions r)) \<and> Validate_question (qr_questions r ! (k - 1)) = Some e)"
proof
  show "Validate_request r = None \<longleftrightarrow> length (qr_questions r) \<in> {1..5} \<and> list_all question_ok (qr_questions r)"
    by (auto simp: Validate_request_def Validate_questions_None question_limits Suc_le_eq)
  have "Validate_questions 0 (qr_questions r) = Some (InQuestion k e) \<longleftrightarrow>
      k \<in> {1..length (qr_questions r)} \<and> list_all question_ok (take (k - 1) (qr_questions r)) \<and>
      Validate_question (qr_questions r ! (k - 1)) = Some e"
    unfolding Validate_questions_Some by (cases k) auto
  then show "Validate_request r = Some (InQuestion k e) \<longleftrightarrow>
      length (qr_questions r) \<in> {1..5} \<and> k \<in> {1..length (qr_questions r)} \<and>
      list_all question_ok (take (k - 1) (qr_questions r)) \<and> Validate_question (qr_questions r ! (k - 1)) = Some e"
    by (auto simp: Validate_request_def question_limits)
qed

subsection \<open>The invariant of one question at a time\<close>

definition ask_ok :: "question_service \<Rightarrow> ask_call \<Rightarrow> bool" where
  "ask_ok s a \<longleftrightarrow>
     qs_pending s = Some (ak_chan a) \<and> qs_cancelled s = Some (ak_chan a) \<and> qs_pending_id s = qr_id (ak_req a) \<and>
     ak_chan a < qs_next s \<and> qs_batch s (ak_chan a) = qr_id (ak_req a) \<and>
     (\<forall>p c. ak_phase a = AskWaiting p c \<longrightarrow> p = Some (ak_chan a) \<and> c = Some (ak_chan a)) \<and>
     (\<forall>x. ak_phase a = AskLeaving (AskAnswers x) \<longrightarrow> (qr_id (ak_req a), x) \<in> set (qs_sent s)) \<and>
     (ak_phase a = AskLeaving AskCancelled \<longrightarrow> qr_id (ak_req a) \<in> set (qs_closed_for s))"

definition call_ok :: "question_service \<Rightarrow> answer_call \<Rightarrow> bool" where
  "call_ok s c \<longleftrightarrow> aw_chan c < qs_next s \<and> qs_batch s (aw_chan c) = aw_batch c"

definition chan_ok :: "question_service \<Rightarrow> nat \<Rightarrow> bool" where
  "chan_ok s ch \<longleftrightarrow>
     (\<forall>x\<in>set (qs_buffers s ch). ch < qs_next s \<and> (qs_batch s ch, x) \<in> set (qs_sent s)) \<and>
     (qs_closed s ch \<longrightarrow> ch < qs_next s \<and> qs_batch s ch \<in> set (qs_closed_for s))"

definition asks_ok :: "question_service \<Rightarrow> bool" where
  "asks_ok s \<longleftrightarrow>
     qs_asks s = [] \<and> qs_pending s = None \<and> qs_cancelled s = None \<or>
     (\<exists>k a. qs_asks s = [(k, a)] \<and> ask_ok s a)"

definition returned_ok :: "question_service \<Rightarrow> string \<times> ask_result \<Rightarrow> bool" where
  "returned_ok s r \<longleftrightarrow>
     (\<forall>x. snd r = AskAnswers x \<longrightarrow> (fst r, x) \<in> set (qs_sent s)) \<and>
     (snd r = AskCancelled \<longrightarrow> fst r \<in> set (qs_closed_for s))"

definition question_inv :: "question_service \<Rightarrow> bool" where
  "question_inv s \<longleftrightarrow>
     asks_ok s \<and> (\<forall>ch. chan_ok s ch) \<and>
     (\<forall>j c. map_of (qs_answering s) j = Some c \<longrightarrow> call_ok s c) \<and>
     (\<forall>j c. map_of (qs_cancelling s) j = Some c \<longrightarrow> call_ok s c) \<and>
     (\<forall>r\<in>set (qs_returned s). returned_ok s r)"

lemmas question_ok_defs = question_inv_def asks_ok_def ask_ok_def chan_ok_def call_ok_def returned_ok_def

lemma one_ask:
  assumes "asks_ok s" and "map_of (qs_asks s) k = Some a"
  shows "qs_asks s = [(k, a)]" and "ask_ok s a"
  using assms by (auto simp: asks_ok_def split: if_splits)

lemma question_inv_Ask:
  assumes "question_inv s" and "qs_asks s = []"
  shows "question_inv (snd (Ask_begin rid qids req s))"
  using assms by (fastforce simp: Ask_begin_def Let_def question_ok_defs split: option.splits)

lemma question_inv_set_ask:
  assumes "question_inv s" and "map_of (qs_asks s) k = Some a" and "ask_ok s (a\<lparr>ak_phase := p\<rparr>)"
  shows "question_inv (set_ask k a p s)"
proof -
  from assms(1) have "asks_ok s" by (simp add: question_inv_def)
  from one_ask [OF this assms(2)] assms show ?thesis by (auto simp: set_ask_def question_ok_defs)
qed

lemma question_inv_select: "Ask_select k s = Some s' \<Longrightarrow> question_inv s \<Longrightarrow> question_inv s'"
proof -
  assume e: "Ask_select k s = Some s'" and inv: "question_inv s"
  then obtain a where a: "map_of (qs_asks s) k = Some a" "ak_phase a = AskRegistered"
    "s' = set_ask k a (AskWaiting (qs_pending s) (qs_cancelled s)) (s\<lparr>qs_requests := qs_requests s @ [ak_req a]\<rparr>)"
    by (auto simp: Ask_select_def simp del: map_of_eq_Some_iff split: option.splits if_splits)
  let ?s = "s\<lparr>qs_requests := qs_requests s @ [ak_req a]\<rparr>"
  have i: "question_inv ?s" using inv by (simp add: question_ok_defs)
  have "ask_ok s a" using one_ask(2) [OF _ a(1)] inv by (simp add: question_inv_def)
  then have "ask_ok ?s (a\<lparr>ak_phase := AskWaiting (qs_pending s) (qs_cancelled s)\<rparr>)" using a(2) by (auto simp: ask_ok_def)
  from question_inv_set_ask [OF i _ this] a show ?thesis by simp
qed


text \<open>A channel operation of an \<^verbatim>\<open>Ask\<close> leads to its return.\<close>

lemma question_inv_answered: "Ask_answered k s = Some s' \<Longrightarrow> question_inv s \<Longrightarrow> question_inv s'"
proof -
  assume e: "Ask_answered k s = Some s'" and inv: "question_inv s"
  then obtain a p c x rest where a: "map_of (qs_asks s) k = Some a" "ak_phase a = AskWaiting (Some p) c"
    "qs_buffers s p = x # rest" "s' = set_ask k a (AskLeaving (AskAnswers x)) (s\<lparr>qs_buffers := (qs_buffers s)(p := rest)\<rparr>)"
    by (auto simp: Ask_answered_def simp del: map_of_eq_Some_iff split: option.splits ask_phase.splits list.splits)
  let ?s = "s\<lparr>qs_buffers := (qs_buffers s)(p := rest)\<rparr>"
  have chans: "chan_ok s ch" for ch using inv by (simp add: question_inv_def)
  have "chan_ok ?s ch" for ch using chans [of ch] a(3) by (auto simp: chan_ok_def)
  then have i: "question_inv ?s" using inv by (simp add: question_inv_def asks_ok_def ask_ok_def call_ok_def returned_ok_def)
  have k: "ask_ok s a" using one_ask(2) [OF _ a(1)] inv by (simp add: question_inv_def)
  then have "p = ak_chan a" "qs_batch s (ak_chan a) = qr_id (ak_req a)" using a(2) by (auto simp: ask_ok_def)
  with chans [of p] a(3) k have "ask_ok ?s (a\<lparr>ak_phase := AskLeaving (AskAnswers x)\<rparr>)" by (auto simp: ask_ok_def chan_ok_def)
  from question_inv_set_ask [OF i _ this] a show ?thesis by simp
qed

lemma question_inv_cancelled: "Ask_cancelled k s = Some s' \<Longrightarrow> question_inv s \<Longrightarrow> question_inv s'"
proof -
  assume e: "Ask_cancelled k s = Some s'" and inv: "question_inv s"
  then obtain a p c where a: "map_of (qs_asks s) k = Some a" "ak_phase a = AskWaiting p (Some c)" "qs_closed s c"
    "s' = set_ask k a (AskLeaving AskCancelled) s"
    by (auto simp: Ask_cancelled_def simp del: map_of_eq_Some_iff split: option.splits ask_phase.splits if_splits)
  have k: "ask_ok s a" using one_ask(2) [OF _ a(1)] inv by (simp add: question_inv_def)
  have "chan_ok s c" using inv by (simp add: question_inv_def)
  with k a(2,3) have "ask_ok s (a\<lparr>ak_phase := AskLeaving AskCancelled\<rparr>)" by (auto simp: ask_ok_def chan_ok_def)
  from question_inv_set_ask [OF inv a(1) this] a(4) show ?thesis by simp
qed

lemma question_inv_done: "Ask_done k s = Some s' \<Longrightarrow> question_inv s \<Longrightarrow> question_inv s'"
proof -
  assume e: "Ask_done k s = Some s'" and inv: "question_inv s"
  then obtain a where a: "map_of (qs_asks s) k = Some a" "s' = set_ask k a (AskLeaving AskContextDone) s"
    by (auto simp: Ask_done_def simp del: map_of_eq_Some_iff split: option.splits ask_phase.splits)
  have "ask_ok s a" using one_ask(2) [OF _ a(1)] inv by (simp add: question_inv_def)
  then have "ask_ok s (a\<lparr>ak_phase := AskLeaving AskContextDone\<rparr>)" by (auto simp: ask_ok_def)
  from question_inv_set_ask [OF inv a(1) this] a(2) show ?thesis by simp
qed

lemma question_inv_leave: "Ask_leave k s = Some s' \<Longrightarrow> question_inv s \<Longrightarrow> question_inv s'"
proof -
  assume e: "Ask_leave k s = Some s'" and inv: "question_inv s"
  then obtain a r where a: "map_of (qs_asks s) k = Some a" "ak_phase a = AskLeaving r"
    and s': "s' = s\<lparr>qs_pending := None, qs_cancelled := None, qs_pending_id := [], qs_asks := AList.delete k (qs_asks s),
                   qs_returned := qs_returned s @ [(qr_id (ak_req a), r)]\<rparr>"
    by (auto simp: Ask_leave_def simp del: map_of_eq_Some_iff split: option.splits ask_phase.splits)
  have "asks_ok s" using inv by (simp add: question_inv_def)
  from one_ask [OF this a(1)] a(2) inv show ?thesis
    by (auto simp: s' question_inv_def asks_ok_def ask_ok_def chan_ok_def call_ok_def returned_ok_def)
qed

text \<open>The callers of \<^verbatim>\<open>Answer\<close> and \<^verbatim>\<open>Cancel\<close> have read the channel of the batch they hold.\<close>

lemma pending_call_ok:
  assumes "question_inv s" and "qs_pending s = Some ch \<or> qs_cancelled s = Some ch"
  shows "ch < qs_next s \<and> qs_batch s ch = qs_pending_id s"
  using assms by (auto simp: question_inv_def asks_ok_def ask_ok_def)

lemma question_inv_calls:
  assumes "question_inv s" and "call_ok s c"
  shows "question_inv (s\<lparr>qs_calls := n, qs_answering := AList.update j c (qs_answering s)\<rparr>)"
    and "question_inv (s\<lparr>qs_calls := n, qs_cancelling := AList.update j c (qs_cancelling s)\<rparr>)"
  using assms by (simp_all add: question_inv_def asks_ok_def ask_ok_def chan_ok_def call_ok_def returned_ok_def gomap_get_set
      del: map_of_eq_Some_iff)

lemma question_inv_Answer: "question_inv s \<Longrightarrow> question_inv (snd (Answer_begin xs s))"
proof (cases "qs_pending s")
  case (Some ch)
  assume inv: "question_inv s"
  from pending_call_ok [OF inv, of ch] Some
  have "call_ok s \<lparr>aw_batch = qs_pending_id s, aw_chan = ch, aw_answers = xs, aw_done = False\<rparr>" by (simp add: call_ok_def)
  from question_inv_calls(1) [OF inv this] Some show ?thesis by (simp add: Answer_begin_def)
qed (simp add: Answer_begin_def)

lemma question_inv_Cancel: "question_inv s \<Longrightarrow> question_inv (snd (Cancel_begin s))"
proof (cases "qs_cancelled s")
  case (Some ch)
  assume inv: "question_inv s"
  from pending_call_ok [OF inv, of ch] Some
  have "call_ok s \<lparr>aw_batch = qs_pending_id s, aw_chan = ch, aw_answers = [], aw_done = False\<rparr>" by (simp add: call_ok_def)
  from question_inv_calls(2) [OF inv this] Some show ?thesis by (simp add: Cancel_begin_def)
qed (simp add: Cancel_begin_def)

text \<open>Recording more sends and closes keeps what rests on the records.\<close>

lemma ask_ok_more:
  "ask_ok s a \<Longrightarrow> set (qs_sent s) \<subseteq> set sent \<Longrightarrow> set (qs_closed_for s) \<subseteq> set cl \<Longrightarrow>
   ask_ok (s\<lparr>qs_sent := sent, qs_closed_for := cl\<rparr>) a"
  by (auto simp: ask_ok_def)

lemma returned_ok_more:
  "returned_ok s r \<Longrightarrow> set (qs_sent s) \<subseteq> set sent \<Longrightarrow> set (qs_closed_for s) \<subseteq> set cl \<Longrightarrow>
   returned_ok (s\<lparr>qs_sent := sent, qs_closed_for := cl\<rparr>) r"
  by (auto simp: returned_ok_def)

lemma question_inv_more:
  assumes "question_inv s" and "set (qs_sent s) \<subseteq> set sent" and "set (qs_closed_for s) \<subseteq> set cl"
  shows "question_inv (s\<lparr>qs_sent := sent, qs_closed_for := cl\<rparr>)"
proof -
  have "asks_ok (s\<lparr>qs_sent := sent, qs_closed_for := cl\<rparr>)"
    using assms ask_ok_more [OF _ assms(2,3)] by (auto simp: question_inv_def asks_ok_def)
  moreover have "\<forall>r\<in>set (qs_returned s). returned_ok (s\<lparr>qs_sent := sent, qs_closed_for := cl\<rparr>) r"
    using assms returned_ok_more [OF _ assms(2,3)] by (auto simp: question_inv_def)
  ultimately show ?thesis
    using assms by (fastforce simp: question_inv_def chan_ok_def call_ok_def)
qed

lemma question_inv_send: "Answer_send j s = Some s' \<Longrightarrow> question_inv s \<Longrightarrow> question_inv s'"
proof -
  assume e: "Answer_send j s = Some s'" and inv: "question_inv s"
  then obtain c where c: "map_of (qs_answering s) j = Some c"
    and s': "s' = s\<lparr>qs_buffers := (qs_buffers s)(aw_chan c := qs_buffers s (aw_chan c) @ [aw_answers c]),
      qs_answering := AList.update j (c\<lparr>aw_done := True\<rparr>) (qs_answering s), qs_sent := qs_sent s @ [(aw_batch c, aw_answers c)]\<rparr>"
    by (auto simp: Answer_send_def simp del: map_of_eq_Some_iff split: option.splits if_splits)
  have ok: "call_ok s c" using inv c unfolding question_inv_def by blast
  have "question_inv (s\<lparr>qs_sent := qs_sent s @ [(aw_batch c, aw_answers c)], qs_closed_for := qs_closed_for s\<rparr>)"
    by (rule question_inv_more [OF inv]) auto
  then have m: "asks_ok s'" "\<forall>r\<in>set (qs_returned s'). returned_ok s' r"
    by (auto simp: s' question_inv_def asks_ok_def ask_ok_def returned_ok_def)
  have "chan_ok s ch" for ch using inv by (simp add: question_inv_def)
  then have "chan_ok s' ch" for ch using ok by (fastforce simp: s' chan_ok_def call_ok_def)
  with m ok inv show ?thesis
    by (simp add: s' question_inv_def call_ok_def gomap_get_set del: map_of_eq_Some_iff)
qed

lemma question_inv_close: "Cancel_close j s = Some s' \<Longrightarrow> question_inv s \<Longrightarrow> question_inv s'"
proof -
  assume e: "Cancel_close j s = Some s'" and inv: "question_inv s"
  then obtain c where c: "map_of (qs_cancelling s) j = Some c"
    and s': "s' = s\<lparr>qs_panics := Suc (qs_panics s), qs_cancelling := AList.delete j (qs_cancelling s)\<rparr> \<or>
      s' = s\<lparr>qs_closed := (qs_closed s)(aw_chan c := True), qs_cancelling := AList.update j (c\<lparr>aw_done := True\<rparr>) (qs_cancelling s),
             qs_closed_for := qs_closed_for s @ [aw_batch c]\<rparr>"
    by (auto simp: Cancel_close_def simp del: map_of_eq_Some_iff split: option.splits if_splits)
  have ok: "call_ok s c" using inv c unfolding question_inv_def by blast
  have "question_inv (s\<lparr>qs_sent := qs_sent s, qs_closed_for := qs_closed_for s @ [aw_batch c]\<rparr>)"
    by (rule question_inv_more [OF inv]) auto
  with ok inv s' show ?thesis
    by (elim disjE) (auto simp: question_inv_def asks_ok_def ask_ok_def chan_ok_def call_ok_def returned_ok_def gomap_get_set gomap_get_del
        simp del: map_of_eq_Some_iff split: if_splits)
qed

lemma question_inv_drop:
  "question_inv s \<Longrightarrow> question_inv (s\<lparr>qs_answering := AList.delete j (qs_answering s)\<rparr>)"
  "question_inv s \<Longrightarrow> question_inv (s\<lparr>qs_cancelling := AList.delete j (qs_cancelling s)\<rparr>)"
  "question_inv s \<Longrightarrow> question_inv (notify_batch b s)"
  by (auto simp: question_inv_def asks_ok_def ask_ok_def chan_ok_def call_ok_def returned_ok_def gomap_get_del notify_batch_def
      simp del: map_of_eq_Some_iff split: if_splits)

lemma question_inv_exec: "question_exec op s = Some s' \<Longrightarrow> one_at_a_time op s \<Longrightarrow> question_inv s \<Longrightarrow> question_inv s'"
  by (cases op)
     (auto simp: Answer_finish_def Cancel_finish_def simp del: map_of_eq_Some_iff split: option.splits if_splits
       intro: question_inv_Ask question_inv_select question_inv_answered question_inv_cancelled question_inv_done
         question_inv_leave question_inv_Answer question_inv_Cancel question_inv_send question_inv_close question_inv_drop)

interpretation questions: transition_system "\<lambda>s. s = NewQuestionService" question_step question_inv
proof
  show "s = NewQuestionService \<Longrightarrow> question_inv s" for s
    by (simp add: NewQuestionService_def question_inv_def asks_ok_def chan_ok_def)
  show "question_step s t \<Longrightarrow> question_inv s \<Longrightarrow> question_inv t" for s t
    by (auto elim!: question_stepE intro: question_inv_exec)
qed

subsection \<open>What the service guarantees\<close>

text \<open>
  C14: As long as questions are asked one at a time, an answer \<^verbatim>\<open>Ask\<close> returns was sent by a call of
  \<^verbatim>\<open>Answer\<close> that had read this very request as the pending one (answers never leak into a later
  question), \<^verbatim>\<open>ErrCancelled\<close> is returned only after a \<^verbatim>\<open>Cancel\<close> of this request, and \<^verbatim>\<open>Answer\<close> and
  \<^verbatim>\<open>Cancel\<close> report that no question is pending exactly when none is.
\<close>

theorem question_answers_belong:
  assumes "question_step\<^sup>*\<^sup>* NewQuestionService s"
  shows "((i, AskAnswers x) \<in> set (qs_returned s) \<longrightarrow> (i, x) \<in> set (qs_sent s)) \<and>
    ((i, AskCancelled) \<in> set (qs_returned s) \<longrightarrow> i \<in> set (qs_closed_for s)) \<and>
    (fst (Answer_begin xs s) = Some False \<longleftrightarrow> qs_asks s = []) \<and> (fst (Cancel_begin s) = Some False \<longleftrightarrow> qs_asks s = [])"
proof -
  have inv: "question_inv s" by (rule questions.reachable_inv [OF refl assms])
  then have "qs_pending s = None \<longleftrightarrow> qs_asks s = []" "qs_cancelled s = None \<longleftrightarrow> qs_asks s = []"
    by (auto simp: question_inv_def asks_ok_def ask_ok_def)
  then have "fst (Answer_begin xs s) = Some False \<longleftrightarrow> qs_asks s = []" "fst (Cancel_begin s) = Some False \<longleftrightarrow> qs_asks s = []"
    by (auto simp: Answer_begin_def Cancel_begin_def split: option.splits)
  moreover have "returned_ok s r" if "r \<in> set (qs_returned s)" for r
    using inv that by (simp add: question_inv_def)
  ultimately show ?thesis by (fastforce simp: returned_ok_def)
qed

definition demo_question :: question_request where
  "demo_question = \<lparr>qr_id = ''q1'', qr_session = ''s'', qr_tool_call = ''t'',
     qr_questions = [\<lparr>qn_id = [], qn_type = TypeYesNo, qn_label = [], qn_text = ''Go?'', qn_description = ''d'', qn_choices = []\<rparr>],
     qr_confirm_title = [], qr_confirm_description = []\<rparr>"

definition demo_yes :: "bool \<Rightarrow> question_answer list" where
  "demo_yes b = [\<lparr>an_question = ''x'', an_selected = [], an_fill_in = [], an_yes = Some b, an_notes = []\<rparr>]"

text \<open>Two clients answer; the second one sends after the first answer was taken.\<close>

definition demo_question_ops :: "question_op list" where
  "demo_question_ops = [QAsk ''u'' (\<lambda>_. ''x'') demo_question, QSelect 0, QAnswer (demo_yes True), QAnswer (demo_yes False),
     QSend 0, QAnswered 0, QSend 1, QLeave 0]"

definition demo_questions :: question_service where
  "demo_questions = the (question_execs demo_question_ops NewQuestionService)"

lemma demo_questions_exec: "question_execs demo_question_ops NewQuestionService = Some demo_questions"
proof -
  have "question_execs demo_question_ops NewQuestionService \<noteq> None" by code_simp
  then show ?thesis by (auto simp: demo_questions_def)
qed

theorem question_answers_belong_witness:
  "qs_returned demo_questions = [(''q1'', AskAnswers (demo_yes True))] \<and> (''q1'', demo_yes True) \<in> set (qs_sent demo_questions)"
proof -
  have "question_solo demo_question_ops NewQuestionService" by code_simp
  note steps = question_solo_steps [OF this demo_questions_exec]
  have "qs_returned demo_questions = [(''q1'', AskAnswers (demo_yes True))]" unfolding demo_questions_def by code_simp
  with question_answers_belong [OF steps, of "''q1''" "demo_yes True"] show ?thesis by simp
qed

text \<open>
  The second answer is lost, but its caller is told that it resolved the question; while the first
  one is not yet taken the second caller blocks, and it stays blocked when the question ends in
  another way.
\<close>

lemma second_answer_lost:
  "map_option fst (Answer_finish 1 demo_questions) = Some True \<and> (''q1'', demo_yes False) \<in> set (qs_sent demo_questions) \<and>
   qs_returned demo_questions = [(''q1'', AskAnswers (demo_yes True))]"
  unfolding demo_questions_def by code_simp

lemma second_answer_blocks:
  "question_solo (take 5 demo_question_ops @ [QDone 0, QLeave 0]) NewQuestionService \<and>
   question_execs (take 5 demo_question_ops @ [QDone 0, QLeave 0, QSend 1]) NewQuestionService = None"
  by code_simp

text \<open>Two clients cancel the same question: the second close panics.\<close>

lemma second_cancel_panics:
  "question_solo [QAsk ''u'' (\<lambda>_. ''x'') demo_question, QSelect 0, QCancel, QCancel, QClose 0, QClose 1] NewQuestionService \<and>
   map_option qs_panics (question_execs [QAsk ''u'' (\<lambda>_. ''x'') demo_question, QSelect 0, QCancel, QCancel, QClose 0, QClose 1]
     NewQuestionService) = Some 1"
  by code_simp

end
