(* ===== verification/Prompt_History.thy ===== *)
theory Prompt_History
  imports Message_Content
begin

section \<open>The history sent to the model: \<^verbatim>\<open>agent/history_selection.go\<close>, \<^verbatim>\<open>agent.go\<close>\<close>

text \<open>
  Which stored messages of a session reach the model (\<^verbatim>\<open>selectHistoryWithAnchor\<close>), how they become
  the provider library's messages with orphaned tool results dropped and missing ones added
  (\<^verbatim>\<open>preparePromptForModel\<close>), and the conversion of media in tool results for providers that do not
  accept it. A message of the library is an \<open>ai_message\<close> of the content theory; cloning is the
  identity, sets of IDs are lists read as sets. \<open>strip\<close>, \<open>dec\<close> and \<open>enc\<close> are the arguments of
  \<open>ToAIMessage\<close>; \<open>native\<close> lists the provider names (constants of the model catalogue) that accept
  media in tool results. \<^verbatim>\<open>fantasy.NewUserMessage\<close> is a user message of the text and the files.
\<close>

subsection \<open>Selecting the history\<close>





definition hasUserTextMessage :: "chat_message list \<Rightarrow> bool" where
  "hasUserTextMessage msgs \<longleftrightarrow>
     list_ex (\<lambda>m. cm_role m = User \<and> list_ex (\<lambda>p. as_text p \<noteq> None \<and> as_text p \<noteq> Some []) (cm_parts m)) msgs"

subsection \<open>Preparing the prompt\<close>

definition knownToolCallIDs :: "chat_message list \<Rightarrow> string list" where
  "knownToolCallIDs msgs = concat (map (\<lambda>m. if cm_role m = Assistant then map tc_id (ToolCalls m) else []) msgs)"

definition knownToolResultIDs :: "chat_message list \<Rightarrow> string list" where
  "knownToolResultIDs msgs = concat (map (\<lambda>m. if cm_role m = Tool then map tr_call (ToolResults m) else []) msgs)"

definition drop_responses :: "content_part \<Rightarrow> content_part" where
  "drop_responses p = (case as_reasoning p of Some r \<Rightarrow> Reasoning (r\<lparr>rc_responses := None\<rparr>) | None \<Rightarrow> p)"

definition withoutResponsesReasoning :: "chat_message \<Rightarrow> chat_message" where
  "withoutResponsesReasoning m = m\<lparr>cm_parts := map drop_responses (cm_parts m)\<rparr>"

datatype prompt_error = DuplicateItem string

fun responses_item :: "content_part \<Rightarrow> string option" where
  "responses_item (Reasoning r) =
     (case rc_responses r of None \<Rightarrow> None | Some d \<Rightarrow> if rd_item d = [] then None else Some (rd_item d))"
| "responses_item _ = None"

fun collect_items :: "string \<Rightarrow> content_part list \<Rightarrow> string list \<Rightarrow> prompt_error + string list" where
  "collect_items mid [] seen = Inr seen"
| "collect_items mid (p # ps) seen =
     (case responses_item p of
        None \<Rightarrow> collect_items mid ps seen
      | Some i \<Rightarrow> if i \<in> set seen then Inl (DuplicateItem mid) else collect_items mid ps (i # seen))"

definition collectResponsesItemIDs :: "chat_message \<Rightarrow> string list \<Rightarrow> prompt_error + string list" where
  "collectResponsesItemIDs m seen = collect_items (cm_id m) (cm_parts m) seen"

fun is_file_part :: "ai_part \<Rightarrow> bool" where
  "is_file_part (AIFile _ _ _) = True" | "is_file_part _ = False"

definition filterFileParts :: "ai_part list \<Rightarrow> ai_part list" where
  "filterFileParts parts = filter (\<lambda>p. \<not> is_file_part p) parts"

definition filterOrphanedToolResults :: "(string \<Rightarrow> string) \<Rightarrow> (string \<Rightarrow> string option) \<Rightarrow> (string \<Rightarrow> string) \<Rightarrow>
    chat_message \<Rightarrow> string list \<Rightarrow> ai_message option" where
  "filterOrphanedToolResults strip dec enc m known =
     (case ToAIMessage strip dec enc m of
        [] \<Rightarrow> None
      | a # _ \<Rightarrow>
          (let valid = filter (\<lambda>p. case ai_result p of None \<Rightarrow> True | Some i \<Rightarrow> i \<in> set known) (ai_content a)
           in if valid = [] then None else Some (a\<lparr>ai_content := valid\<rparr>)))"

definition interrupted_error :: string where
  "interrupted_error =
     ''tool call was interrupted and did not produce a result, you may retry this call if the result is still needed''"

definition syntheticToolResultsForOrphanedCalls :: "chat_message \<Rightarrow> string list \<Rightarrow> ai_message option" where
  "syntheticToolResultsForOrphanedCalls m known =
     (let parts = map (\<lambda>c. AIToolResult (tc_id c) (OutputError interrupted_error))
                    (filter (\<lambda>c. tc_id c \<notin> set known) (ToolCalls m))
      in if parts = [] then None else Some \<lparr>ai_role = Tool, ai_content = parts\<rparr>)"

definition empty_assistant :: "chat_message \<Rightarrow> bool" where
  "empty_assistant m \<longleftrightarrow> cm_role m = Assistant \<and> ToolCalls m = [] \<and> Content m = [] \<and> ReasoningContents m = []"

definition for_provider :: "string \<Rightarrow> string \<Rightarrow> chat_message \<Rightarrow> chat_message" where
  "for_provider provider modelID m =
     (if provider \<noteq> [] \<and> cm_role m = Assistant \<and> (cm_provider m \<noteq> provider \<or> cm_model m \<noteq> modelID)
      then withoutResponsesReasoning m else m)"

definition strip_images :: "bool \<Rightarrow> ai_message \<Rightarrow> ai_message" where
  "strip_images supportsImages a =
     (if \<not> supportsImages \<and> ai_role a = User then a\<lparr>ai_content := filterFileParts (ai_content a)\<rparr> else a)"

fun prepare_history :: "(string \<Rightarrow> string) \<Rightarrow> (string \<Rightarrow> string option) \<Rightarrow> (string \<Rightarrow> string) \<Rightarrow> bool \<Rightarrow> string \<Rightarrow> string \<Rightarrow>
    string list \<Rightarrow> string list \<Rightarrow> string list \<Rightarrow> chat_message list \<Rightarrow> prompt_error + ai_message list" where
  "prepare_history strip dec enc img provider modelID cids rids seen [] = Inr []"
| "prepare_history strip dec enc img provider modelID cids rids seen (m # ms) =
     (if cm_parts m = [] \<or> empty_assistant m then prepare_history strip dec enc img provider modelID cids rids seen ms
      else if cm_role m = Tool then
        (case filterOrphanedToolResults strip dec enc m cids of
           Some a \<Rightarrow> map_sum id ((#) a) (prepare_history strip dec enc img provider modelID cids rids seen ms)
         | None \<Rightarrow> prepare_history strip dec enc img provider modelID cids rids seen ms)
      else
        (let m = for_provider provider modelID m in
         case collectResponsesItemIDs m seen of
           Inl e \<Rightarrow> Inl e
         | Inr seen' \<Rightarrow>
             (let aiMsgs = map (strip_images img) (ToAIMessage strip dec enc m);
                  synthetic = (if cm_role m = Assistant
                               then (case syntheticToolResultsForOrphanedCalls m rids of Some a \<Rightarrow> [a] | None \<Rightarrow> [])
                               else [])
              in map_sum id (\<lambda>h. aiMsgs @ synthetic @ h)
                   (prepare_history strip dec enc img provider modelID cids rids seen' ms))))"

definition preparePromptForModel :: "(string \<Rightarrow> string) \<Rightarrow> (string \<Rightarrow> string option) \<Rightarrow> (string \<Rightarrow> string) \<Rightarrow>
    chat_message list \<Rightarrow> bool \<Rightarrow> string \<Rightarrow> string \<Rightarrow> attachment list \<Rightarrow> prompt_error + (ai_message list \<times> ai_part list)" where
  "preparePromptForModel strip dec enc msgs supportsImages provider modelID attachments =
     map_sum id (\<lambda>history.
         (history, map (\<lambda>a. AIFile (at_name a) (at_content a) (at_mime a))
                     (filter (\<lambda>a. \<not> IsText a \<and> supportsImages) attachments)))
       (prepare_history strip dec enc supportsImages provider modelID (knownToolCallIDs msgs) (knownToolResultIDs msgs) [] msgs)"

subsection \<open>Media in tool results\<close>

definition media_part :: "(string \<Rightarrow> string option) \<Rightarrow> bool \<Rightarrow> ai_part \<Rightarrow> ai_part \<times> ai_part list" where
  "media_part dec supportsImages p =
     (case p of
        AIToolResult i (OutputMedia d mime) \<Rightarrow>
          if \<not> supportsImages then (AIToolResult i (OutputText ''[Image/media content not supported by this model]''), [])
          else (case dec d of
                  None \<Rightarrow> (p, [])
                | Some decoded \<Rightarrow>
                    (AIToolResult i (OutputText ''[Image/media content loaded - see attached file]''),
                     [AIFile (''tool-result-'' @ i) decoded mime]))
      | _ \<Rightarrow> (p, []))"

definition media_message :: "(string \<Rightarrow> string option) \<Rightarrow> bool \<Rightarrow> ai_message \<Rightarrow> ai_message list" where
  "media_message dec supportsImages msg =
     (if ai_role msg \<noteq> Tool then [msg]
      else (let files = concat (map (snd \<circ> media_part dec supportsImages) (ai_content msg)) in
            \<lparr>ai_role = Tool, ai_content = map (fst \<circ> media_part dec supportsImages) (ai_content msg)\<rparr> #
            (if files = [] then []
             else [\<lparr>ai_role = User, ai_content = AIText ''Here is the media content from the tool result:'' # files\<rparr>])))"

definition workaroundProviderMediaLimitations :: "(string \<Rightarrow> string option) \<Rightarrow> string list \<Rightarrow> string \<Rightarrow> bool \<Rightarrow>
    ai_message list \<Rightarrow> ai_message list" where
  "workaroundProviderMediaLimitations dec native provider supportsImages messages =
     (if provider \<in> set native then messages
      else concat (map (media_message dec supportsImages) messages))"

subsection \<open>The selected history\<close>







subsection \<open>The prepared prompt\<close>

definition hist_calls :: "ai_message list \<Rightarrow> string list" where
  "hist_calls h = concat (map (\<lambda>a. map fst (List.map_filter ai_call (ai_content a))) h)"

definition hist_results :: "ai_message list \<Rightarrow> string list" where
  "hist_results h = concat (map (\<lambda>a. List.map_filter ai_result (ai_content a)) h)"

lemma hist_simps [simp]:
  "hist_calls [] = []" "hist_results [] = []"
  "hist_calls (a # h) = map fst (List.map_filter ai_call (ai_content a)) @ hist_calls h"
  "hist_results (a # h) = List.map_filter ai_result (ai_content a) @ hist_results h"
  "hist_calls (h @ h') = hist_calls h @ hist_calls h'" "hist_results (h @ h') = hist_results h @ hist_results h'"
  by (simp_all add: hist_calls_def hist_results_def)

lemma known_simps [simp]:
  "knownToolCallIDs [] = []" "knownToolResultIDs [] = []"
  "knownToolCallIDs (m # ms) = (if cm_role m = Assistant then map tc_id (ToolCalls m) else []) @ knownToolCallIDs ms"
  "knownToolResultIDs (m # ms) = (if cm_role m = Tool then map tr_call (ToolResults m) else []) @ knownToolResultIDs ms"
  by (simp_all add: knownToolCallIDs_def knownToolResultIDs_def)

lemma map_filter_filter_irrelevant:
  "(\<And>p. \<not> keep p \<Longrightarrow> f p = None) \<Longrightarrow> List.map_filter f (filter keep ps) = List.map_filter f ps"
  by (induction ps) (auto simp: List.map_filter_simps split: option.splits)

lemma hist_strip_images [simp]:
  "hist_calls (map (strip_images img) h) = hist_calls h" "hist_results (map (strip_images img) h) = hist_results h"
proof -
  have "List.map_filter ai_call (ai_content (strip_images img a)) = List.map_filter ai_call (ai_content a)"
    "List.map_filter ai_result (ai_content (strip_images img a)) = List.map_filter ai_result (ai_content a)" for a
    by (auto simp: strip_images_def filterFileParts_def intro!: map_filter_filter_irrelevant elim: is_file_part.elims)
  then show "hist_calls (map (strip_images img) h) = hist_calls h" "hist_results (map (strip_images img) h) = hist_results h"
    by (simp_all add: hist_calls_def hist_results_def comp_def)
qed

lemma no_assistant_results: "List.map_filter ai_result (List.map_filter assistant_part ps) = []"
proof (induction ps)
  case (Cons p ps)
  then show ?case by (cases p) (simp_all add: List.map_filter_simps Let_def)
qed (simp add: List.map_filter_simps)

lemma user_no_tools:
  "List.map_filter ai_call (user_parts strip m) = []" "List.map_filter ai_result (user_parts strip m) = []"
proof -
  have "List.map_filter ai_call (map (\<lambda>b. AIFile (f b) (g b) (k b)) xs) = []"
    "List.map_filter ai_result (map (\<lambda>b. AIFile (f b) (g b) (k b)) xs) = []" for f g k and xs :: "binary_content list"
    by (induction xs) (simp_all add: List.map_filter_simps)
  then show "List.map_filter ai_call (user_parts strip m) = []" "List.map_filter ai_result (user_parts strip m) = []"
    by (simp_all add: user_parts_def Let_def List.map_filter_simps)
qed

lemma hist_ToAIMessage:
  assumes "cm_role m \<noteq> Tool"
  shows "hist_calls (ToAIMessage strip dec enc m) = (if cm_role m = Assistant then map tc_id (ToolCalls m) else [])"
    and "hist_results (ToAIMessage strip dec enc m) = []"
  using assms
  by (cases "cm_role m"; simp add: ToAIMessage_def user_no_tools no_assistant_results assistant_calls ToolCalls_def comp_def)+

lemma view_drop_responses: "List.map_filter as_call (map drop_responses ps) = List.map_filter as_call ps"
proof (induction ps)
  case (Cons p ps)
  then show ?case by (cases p) (simp_all add: List.map_filter_simps drop_responses_def)
qed (simp add: List.map_filter_simps)

lemma for_provider_frame [simp]:
  "cm_role (for_provider p i m) = cm_role m" "ToolCalls (for_provider p i m) = ToolCalls m" "cm_id (for_provider p i m) = cm_id m"
  by (simp_all add: for_provider_def withoutResponsesReasoning_def ToolCalls_def view_drop_responses)

lemma filter_results_map:
  "filter (\<lambda>p. case ai_result p of None \<Rightarrow> True | Some i \<Rightarrow> Q i) (map (\<lambda>r. AIToolResult (f r) (g r)) rs) =
   map (\<lambda>r. AIToolResult (f r) (g r)) (filter (\<lambda>r. Q (f r)) rs)"
  by (induction rs) auto

lemma no_calls_in_results: "List.map_filter ai_call (map (\<lambda>r. AIToolResult (f r) (g r)) rs) = []"
  by (induction rs) (simp_all add: List.map_filter_simps)

lemma orphaned_results:
  assumes "cm_role m = Tool"
  shows "(case filterOrphanedToolResults strip dec enc m known of Some a \<Rightarrow> hist_calls [a] | None \<Rightarrow> []) = []"
    and "(case filterOrphanedToolResults strip dec enc m known of Some a \<Rightarrow> hist_results [a] | None \<Rightarrow> []) =
      map tr_call (filter (\<lambda>r. tr_call r \<in> set known) (ToolResults m))"
  using assms
  by (simp_all add: filterOrphanedToolResults_def ToAIMessage_def filter_results_map no_calls_in_results results_map)

lemma synthetic_results:
  "hist_calls (case syntheticToolResultsForOrphanedCalls m known of Some a \<Rightarrow> [a] | None \<Rightarrow> []) = []"
  "hist_results (case syntheticToolResultsForOrphanedCalls m known of Some a \<Rightarrow> [a] | None \<Rightarrow> []) =
     map tc_id (filter (\<lambda>c. tc_id c \<notin> set known) (ToolCalls m))"
  by (simp_all add: syntheticToolResultsForOrphanedCalls_def Let_def no_calls_in_results results_map)

lemma prepare_history_ids:
  "prepare_history strip dec enc img provider modelID cids rids seen ms = Inr h \<Longrightarrow>
     set (hist_calls h) = set (knownToolCallIDs ms) \<and>
     set (hist_results h) = set (knownToolResultIDs ms) \<inter> set cids \<union> (set (knownToolCallIDs ms) - set rids)"
proof (induction ms arbitrary: seen h)
  case (Cons m ms)
  let ?rest = "prepare_history strip dec enc img provider modelID cids rids"
  consider (skip) "cm_parts m = [] \<or> empty_assistant m" | (tool) "cm_parts m \<noteq> []" "\<not> empty_assistant m" "cm_role m = Tool"
    | (other) "cm_parts m \<noteq> []" "\<not> empty_assistant m" "cm_role m \<noteq> Tool" by blast
  then show ?case
  proof cases
    case skip
    then have "(if cm_role m = Assistant then map tc_id (ToolCalls m) else []) = []"
      "(if cm_role m = Tool then map tr_call (ToolResults m) else []) = []"
      by (auto simp: empty_assistant_def ToolCalls_def ToolResults_def List.map_filter_simps)
    with Cons skip show ?thesis by simp
  next
    case tool
    note o = orphaned_results [OF tool(3), of strip dec enc cids]
    from tool Cons.prems obtain h' where h': "?rest seen ms = Inr h'"
      and h: "h = (case filterOrphanedToolResults strip dec enc m cids of Some a \<Rightarrow> [a] | None \<Rightarrow> []) @ h'"
      by (cases "?rest seen ms") (auto split: option.splits)
    have "hist_calls h = hist_calls h'" "hist_results h = map tr_call (filter (\<lambda>r. tr_call r \<in> set cids) (ToolResults m)) @ hist_results h'"
      using o by (simp_all add: h split: option.splits)
    with Cons.IH [OF h'] tool show ?thesis by auto
  next
    case other
    let ?m = "for_provider provider modelID m"
    from other Cons.prems obtain seen' where seen': "collectResponsesItemIDs ?m seen = Inr seen'"
      by (cases "collectResponsesItemIDs ?m seen") (simp_all add: Let_def)
    from other Cons.prems seen' obtain h' where h': "?rest seen' ms = Inr h'"
      by (cases "?rest seen' ms") (simp_all add: Let_def)
    have h: "h = map (strip_images img) (ToAIMessage strip dec enc ?m) @
        (if cm_role m = Assistant then (case syntheticToolResultsForOrphanedCalls ?m rids of Some a \<Rightarrow> [a] | None \<Rightarrow> []) else []) @ h'"
      using other Cons.prems seen' h' by (simp add: Let_def)
    have "hist_calls h = (if cm_role m = Assistant then map tc_id (ToolCalls m) else []) @ hist_calls h'"
      "hist_results h = (if cm_role m = Assistant then map tc_id (filter (\<lambda>c. tc_id c \<notin> set rids) (ToolCalls m)) else []) @ hist_results h'"
      using other by (simp_all add: h hist_ToAIMessage synthetic_results)
    with Cons.IH [OF h'] other show ?thesis by auto
  qed
qed simp

text \<open>The item IDs a request would replay.\<close>

definition replayed_items :: "string \<Rightarrow> string \<Rightarrow> chat_message list \<Rightarrow> string list" where
  "replayed_items provider modelID msgs =
     concat (map (\<lambda>m. if cm_parts m = [] \<or> empty_assistant m \<or> cm_role m = Tool then []
                     else List.map_filter responses_item (cm_parts (for_provider provider modelID m))) msgs)"

lemma collect_items_iff:
  "collect_items mid ps seen = Inr seen' \<longleftrightarrow>
     distinct (List.map_filter responses_item ps) \<and> set (List.map_filter responses_item ps) \<inter> set seen = {} \<and>
     seen' = rev (List.map_filter responses_item ps) @ seen"
  by (induction mid ps seen rule: collect_items.induct) (auto simp: List.map_filter_simps split: option.splits)

lemma prepare_history_total:
  "(\<exists>h. prepare_history strip dec enc img provider modelID cids rids seen ms = Inr h) \<longleftrightarrow>
     distinct (replayed_items provider modelID ms) \<and> set (replayed_items provider modelID ms) \<inter> set seen = {}"
proof (induction ms arbitrary: seen)
  case Nil
  show ?case by (simp add: replayed_items_def)
next
  case (Cons m ms)
  let ?items = "List.map_filter responses_item (cm_parts (for_provider provider modelID m))"
  have map_Inr: "(\<exists>h. map_sum id f (x :: prompt_error + ai_message list) = Inr h) \<longleftrightarrow> (\<exists>h. x = Inr h)" for f x
    by (cases x) auto
  show ?case
  proof (cases "cm_parts m = [] \<or> empty_assistant m \<or> cm_role m = Tool")
    case True
    then have "replayed_items provider modelID (m # ms) = replayed_items provider modelID ms" by (simp add: replayed_items_def)
    with True Cons show ?thesis by (auto simp: map_Inr split: option.splits)
  next
    case False
    then have r: "replayed_items provider modelID (m # ms) = ?items @ replayed_items provider modelID ms"
      by (simp add: replayed_items_def)
    show ?thesis
    proof (cases "collectResponsesItemIDs (for_provider provider modelID m) seen")
      case (Inl e)
      then have "\<not> (distinct ?items \<and> set ?items \<inter> set seen = {})"
        using collect_items_iff [of "cm_id m" "cm_parts (for_provider provider modelID m)" seen]
        by (auto simp: collectResponsesItemIDs_def)
      with False Inl show ?thesis unfolding r by (auto simp: Let_def)
    next
      case (Inr seen')
      then have "distinct ?items \<and> set ?items \<inter> set seen = {} \<and> seen' = rev ?items @ seen"
        by (simp add: collectResponsesItemIDs_def collect_items_iff)
      with False Inr show ?thesis unfolding r by (auto simp: Let_def map_Inr Cons.IH)
    qed
  qed
qed

text \<open>
  C19: A prompt is sent exactly when no reasoning item would be replayed twice, and then the model
  gets every tool call of the history together with a result for each and no result without a call,
  whatever calls or results the stored messages lack.
\<close>

theorem prompt_calls_answered:
  "(isl (preparePromptForModel strip dec enc msgs img provider modelID atts) \<longleftrightarrow>
      \<not> distinct (replayed_items provider modelID msgs)) \<and>
   (preparePromptForModel strip dec enc msgs img provider modelID atts = Inr (h, files) \<longrightarrow>
      set (hist_calls h) = set (knownToolCallIDs msgs) \<and> set (hist_results h) = set (hist_calls h))"
proof (intro conjI impI)
  let ?h = "prepare_history strip dec enc img provider modelID (knownToolCallIDs msgs) (knownToolResultIDs msgs) [] msgs"
  have "isl ?h \<longleftrightarrow> \<not> (\<exists>h. ?h = Inr h)" by (cases ?h) auto
  then have "isl ?h \<longleftrightarrow> \<not> distinct (replayed_items provider modelID msgs)" unfolding prepare_history_total by simp
  then show "isl (preparePromptForModel strip dec enc msgs img provider modelID atts) \<longleftrightarrow> \<not> distinct (replayed_items provider modelID msgs)"
    by (cases ?h) (simp_all add: preparePromptForModel_def)
  assume "preparePromptForModel strip dec enc msgs img provider modelID atts = Inr (h, files)"
  then have "?h = Inr h" by (cases ?h) (auto simp: preparePromptForModel_def)
  from prepare_history_ids [OF this]
  show "set (hist_calls h) = set (knownToolCallIDs msgs)" "set (hist_results h) = set (hist_calls h)" by auto
qed

text \<open>A call without result and a result without call, both mended.\<close>

definition demo_history :: "chat_message list" where
  "demo_history =
     [(blank_message User)\<lparr>cm_parts := [TextContent ''hi'']\<rparr>,
      (blank_message Assistant)\<lparr>cm_parts := [ToolCall \<lparr>tc_id = ''c1'', tc_name = ''view'', tc_input = ''{}'',
         tc_provider_executed = False, tc_finished = True\<rparr>]\<rparr>,
      (blank_message Tool)\<lparr>cm_parts := [ToolResult \<lparr>tr_call = ''c9'', tr_name = ''view'', tr_content = ''x'', tr_data = [],
         tr_mime = [], tr_metadata = [], tr_is_error = False\<rparr>]\<rparr>]"

definition demo_prompt :: "ai_message list" where
  "demo_prompt = [\<lparr>ai_role = User, ai_content = [AIText ''hi'']\<rparr>,
     \<lparr>ai_role = Assistant, ai_content = [AIToolCall ''c1'' ''view'' ''{}'' False]\<rparr>,
     \<lparr>ai_role = Tool, ai_content = [AIToolResult ''c1'' (OutputError interrupted_error)]\<rparr>]"

theorem prompt_calls_answered_witness:
  "preparePromptForModel id Some id demo_history True ''p'' ''m'' [] = Inr (demo_prompt, []) \<and>
   set (hist_results demo_prompt) = set (hist_calls demo_prompt) \<and> hist_calls demo_prompt = [''c1'']"
proof -
  have p: "preparePromptForModel id Some id demo_history True ''p'' ''m'' [] = Inr (demo_prompt, [])"
    and c: "hist_calls demo_prompt = [''c1'']" by code_simp+
  from prompt_calls_answered [where h = demo_prompt and files = "[]" and msgs = demo_history] p c show ?thesis by blast
qed

subsection \<open>The converted media\<close>

lemma media_part_ids:
  "ai_result (fst (media_part dec img p)) = ai_result p" "ai_call (fst (media_part dec img p)) = ai_call p"
  by (auto simp: media_part_def split: ai_part.splits ai_output.splits option.splits)

lemma media_files: "q \<in> set (snd (media_part dec img p)) \<Longrightarrow> ai_result q = None \<and> ai_call q = None"
  by (auto simp: media_part_def split: ai_part.splits ai_output.splits option.splits if_splits)

lemma map_filter_map_same: "(\<And>x. g (f x) = g x) \<Longrightarrow> List.map_filter g (map f xs) = List.map_filter g xs"
  by (induction xs) (auto simp: List.map_filter_simps split: option.split)

lemma map_filter_none: "(\<And>x. x \<in> set xs \<Longrightarrow> g x = None) \<Longrightarrow> List.map_filter g xs = []"
  by (induction xs) (auto simp: List.map_filter_simps)

lemma media_message_ids:
  "hist_calls (media_message dec img a) = hist_calls [a]" "hist_results (media_message dec img a) = hist_results [a]"
proof -
  let ?files = "concat (map (snd \<circ> media_part dec img) (ai_content a))"
  have "List.map_filter ai_call ?files = []" "List.map_filter ai_result ?files = []"
    by (auto intro!: map_filter_none dest: media_files)
  then show "hist_calls (media_message dec img a) = hist_calls [a]" "hist_results (media_message dec img a) = hist_results [a]"
    by (auto simp: media_message_def Let_def media_part_ids map_filter_map_same comp_def List.map_filter_simps)
qed

definition has_media :: "ai_message \<Rightarrow> bool" where
  "has_media a \<longleftrightarrow> ai_role a = Tool \<and> list_ex (\<lambda>p. \<exists>i d m. p = AIToolResult i (OutputMedia d m)) (ai_content a)"

lemma media_message_clean:
  assumes "\<not> img \<or> (\<forall>d. dec d \<noteq> None)" and "b \<in> set (media_message dec img a)"
  shows "\<not> has_media b"
proof -
  have "fst (media_part dec img p) \<noteq> AIToolResult i (OutputMedia d m)" for p i d m
  proof -
    have "img \<Longrightarrow> dec d \<noteq> None" using assms(1) by blast
    then show ?thesis by (auto simp: media_part_def split: ai_part.splits ai_output.splits option.splits)
  qed
  then have "\<not> list_ex (\<lambda>p. \<exists>i d m. p = AIToolResult i (OutputMedia d m)) (map (fst \<circ> media_part dec img) ps)" for ps
    by (simp add: list_ex_iff)
  with assms(2) show ?thesis
    by (auto simp: media_message_def has_media_def Let_def split: if_splits)
qed

text \<open>
  For a provider without media in tool results the conversion keeps every tool call and every result
  in order and leaves no media in a tool message (images that do not decode apart).
\<close>

theorem media_workaround_sound:
  assumes "provider \<notin> set native" and "\<not> img \<or> (\<forall>d. dec d \<noteq> None)"
  shows "hist_calls (workaroundProviderMediaLimitations dec native provider img msgs) = hist_calls msgs \<and>
    hist_results (workaroundProviderMediaLimitations dec native provider img msgs) = hist_results msgs \<and>
    list_all (\<lambda>a. \<not> has_media a) (workaroundProviderMediaLimitations dec native provider img msgs)"
proof -
  have "hist_calls (concat (map (media_message dec img) msgs)) = hist_calls msgs"
    "hist_results (concat (map (media_message dec img) msgs)) = hist_results msgs"
    by (induction msgs) (simp_all add: media_message_ids)
  moreover have "\<not> has_media b" if "b \<in> set (concat (map (media_message dec img) msgs))" for b
    using that media_message_clean [OF assms(2)] by auto
  ultimately show ?thesis using assms(1) by (auto simp: workaroundProviderMediaLimitations_def list_all_iff)
qed

text \<open>
  Each tool result is stored as a message of its own. When a turn made two calls and the first
  returned an image, the user message with the file separates the results: the second one no longer
  follows the assistant message or another result.
\<close>

lemma media_splits_results:
  "map ai_role (workaroundProviderMediaLimitations Some [''anthropic''] ''openai'' True
     [\<lparr>ai_role = Assistant, ai_content = [AIToolCall ''a'' ''view'' ''{}'' False, AIToolCall ''b'' ''view'' ''{}'' False]\<rparr>,
      \<lparr>ai_role = Tool, ai_content = [AIToolResult ''a'' (OutputMedia ''d'' ''image/png'')]\<rparr>,
      \<lparr>ai_role = Tool, ai_content = [AIToolResult ''b'' (OutputText ''t'')]\<rparr>]) = [Assistant, Tool, User, Tool]"
  by code_simp

end
