(* ===== verification/Agent_Steps.thy ===== *)
theory Agent_Steps
  imports Prompt_History Session_Store "HOL-Library.While_Combinator" "HOL-Library.List_Lexorder" "HOL-Library.Char_ord"
begin

section \<open>Between the steps of a turn: \<^verbatim>\<open>agent.go\<close>, \<^verbatim>\<open>loop_detection.go\<close>, \<^verbatim>\<open>usage_fallback.go\<close>\<close>

text \<open>
  What the agent computes around each model call of a turn: the todo reminder put in front of the
  history, the tool result it stores, the usage it books, and the three conditions that stop the loop
  (context used up, the same tool interaction over and over, input budget). Token counts are integers;
  \<^verbatim>\<open>sha256\<close> (with the hex encoding) and the JSON codec are arguments.
\<close>

subsection \<open>The todo reminder\<close>

abbreviation DQ :: char where "DQ \<equiv> CHR 0x22"

definition maxTodoReminderTasks :: nat where "maxTodoReminderTasks = 64"
definition maxTodoReminderBytes :: nat where "maxTodoReminderBytes = 16 * 1024"
definition todoReminderOverheadBytes :: nat where "todoReminderOverheadBytes = 256"

lemmas todo_limits = maxTodoReminderTasks_def maxTodoReminderBytes_def todoReminderOverheadBytes_def

definition xml_char :: "char \<Rightarrow> string" where
  "xml_char c =
     (if c = CHR ''&'' then ''&amp;'' else if c = CHR ''<'' then ''&lt;'' else if c = CHR ''>'' then ''&gt;''
      else if c = DQ then ''&quot;'' else if c = CHR 0x27 then ''&apos;'' else [c])"

definition todoXMLReplacer :: "string \<Rightarrow> string" where
  "todoXMLReplacer s = concat (map xml_char s)"

definition todo_item :: "todo \<Rightarrow> string" where
  "todo_item t =
     ''<todo status='' @ [DQ] @ todoXMLReplacer (td_status t) @ [DQ] @ ''>'' @ todoXMLReplacer (td_content t) @ ''</todo>''"

fun render_todos :: "string \<Rightarrow> nat \<Rightarrow> todo list \<Rightarrow> string \<times> nat" where
  "render_todos body rendered [] = (body, rendered)"
| "render_todos body rendered (t # ts) =
     (if rendered \<ge> maxTodoReminderTasks then (body, rendered)
      else (let item = todo_item t in
            if length body + length item + todoReminderOverheadBytes > maxTodoReminderBytes then (body, rendered)
            else render_todos (body @ item) (rendered + 1) ts))"

definition sortedStatusNames :: "string list \<Rightarrow> string list" where
  "sortedStatusNames statuses = sort (remdups statuses)"

definition omitted_status :: "todo list \<Rightarrow> string" where
  "omitted_status ts =
     str_join '' '' (map (\<lambda>s. s @ ''='' @ itoa (count_list (map td_status ts) s)) (sortedStatusNames (map td_status ts)))"

definition reminder_start :: string where
  "reminder_start = ''<system_reminder><todos source='' @ [DQ] @ ''engine-state'' @ [DQ] @ ''>''"

definition renderTodoReminder :: "todo list \<Rightarrow> string" where
  "renderTodoReminder todos =
     (let start = reminder_start;
          body = (if todos = [] then
                    start @ ''<state>empty</state><instruction>Use the todos tool when task tracking would help.</instruction>''
                  else
                    (let allCompleted = list_all (\<lambda>t. td_status t = ''completed'') todos;
                         (body, rendered) = render_todos start 0 todos;
                         omitted = length todos - rendered;
                         body = (if omitted > 0 then
                                   body @ ''<truncated>true</truncated>'' @ ''<omitted>'' @ itoa omitted @ ''</omitted>'' @
                                   ''<omitted-status '' @ omitted_status (drop rendered todos) @ ''/>''
                                 else body)
                     in body @ ''<total>'' @ itoa (length todos) @ ''</total>'' @
                        (if allCompleted then ''<state>all-completed</state>'' else ''<state>active</state>'')))
      in body @ ''</todos></system_reminder>'')"

definition insertTodoReminder :: "ai_message list \<Rightarrow> todo list \<Rightarrow> ai_message list" where
  "insertTodoReminder messages todos =
     takeWhile (\<lambda>a. ai_role a = System) messages @
     \<lparr>ai_role = User, ai_content = [AIText (renderTodoReminder todos)]\<rparr> #
     dropWhile (\<lambda>a. ai_role a = System) messages"

definition buildSummaryPrompt :: "todo list \<Rightarrow> string" where
  "buildSummaryPrompt todos =
     ''Provide a detailed summary of our conversation above.'' @
     (if todos \<noteq> [] then
        [NL, NL] @ ''## Current Todo List'' @ [NL, NL] @
        concat (map (\<lambda>t. ''- ['' @ td_status t @ ''] '' @ td_content t @ [NL]) todos) @
        [NL] @ ''Include these tasks and their statuses in your summary. '' @
        ''Instruct the resuming assistant to use the `todos` tool to continue tracking progress on these tasks.''
      else [])"

subsection \<open>Tool results and usage\<close>

text \<open>A tool result as the provider library reports it: text, error (nil or a message), media, none.\<close>

datatype tool_value = ValueText string | ValueError "string option" | ValueMedia string string string | ValueNone

record step_result =
  sr_call :: string
  sr_name :: string
  sr_metadata :: string
  sr_provider_executed :: bool
  sr_stop :: bool
  sr_value :: tool_value

datatype step_content =
    StepText string
  | StepReasoning string
  | StepFile string string
  | StepSource string string string string string string
  | StepToolCall string string string
  | StepToolResult step_result

record token_usage =
  us_input :: int
  us_output :: int
  us_total :: int
  us_reasoning :: int
  us_cache_creation :: int
  us_cache_read :: int

record agent_step_result =
  as_content :: "step_content list"
  as_usage :: token_usage

definition sanitizeToolInput :: "(string \<Rightarrow> bool) \<Rightarrow> string \<Rightarrow> string \<times> bool" where
  "sanitizeToolInput json_valid input = (if \<not> json_valid input then (''{}'', True) else (input, False))"

text \<open>\<^verbatim>\<open>convertToToolResult\<close>; a nil error panics (\<open>None\<close>).\<close>

definition convertToToolResult :: "(string \<Rightarrow> string option) \<Rightarrow> (string \<Rightarrow> string) \<Rightarrow> step_result \<Rightarrow> tool_result option" where
  "convertToToolResult dec enc r =
     (let base = \<lparr>tr_call = sr_call r, tr_name = sr_name r, tr_content = [], tr_data = [], tr_mime = [],
                  tr_metadata = sr_metadata r, tr_is_error = False\<rparr>
      in case sr_value r of
           ValueText t \<Rightarrow> Some (base\<lparr>tr_content := t\<rparr>)
         | ValueError (Some e) \<Rightarrow> Some (base\<lparr>tr_content := e, tr_is_error := True\<rparr>)
         | ValueError None \<Rightarrow> None
         | ValueMedia mime t d \<Rightarrow>
             if \<not> IsValidBase64 dec enc d
             then Some (base\<lparr>tr_content := ''Tool returned image data with invalid encoding'', tr_is_error := True\<rparr>)
             else Some (base\<lparr>tr_content := (if t = [] then ''Loaded '' @ mime @ '' content'' else t), tr_data := d, tr_mime := mime\<rparr>)
         | ValueNone \<Rightarrow> Some base)"

definition zero_usage :: token_usage where
  "zero_usage = \<lparr>us_input = 0, us_output = 0, us_total = 0, us_reasoning = 0, us_cache_creation = 0, us_cache_read = 0\<rparr>"

definition usageIsZero :: "token_usage \<Rightarrow> bool" where
  "usageIsZero u \<longleftrightarrow> us_input u = 0 \<and> us_output u = 0 \<and> us_total u = 0 \<and> us_reasoning u = 0 \<and>
     us_cache_creation u = 0 \<and> us_cache_read u = 0"

definition approxTokenCount :: "string \<Rightarrow> int" where
  "approxTokenCount s = (if s = [] then 0 else int ((length s + 3) div 4))"

definition estimateToolCallTokens :: "string \<Rightarrow> string \<Rightarrow> int" where
  "estimateToolCallTokens toolName input = approxTokenCount toolName + approxTokenCount input"

definition estimateMediaTokens :: "string \<Rightarrow> string \<Rightarrow> nat \<Rightarrow> int" where
  "estimateMediaTokens mediaType t dataBytes =
     (if dataBytes = 0 then approxTokenCount mediaType + approxTokenCount t
      else approxTokenCount (mediaType @ '' '' @ t @ '' '' @ itoa dataBytes @ '' bytes''))"

definition estimateToolResultContentTokens :: "string \<Rightarrow> string \<Rightarrow> string \<Rightarrow> tool_value \<Rightarrow> int" where
  "estimateToolResultContentTokens toolCallID toolName metadata out =
     approxTokenCount toolCallID + approxTokenCount toolName + approxTokenCount metadata +
     (case out of
        ValueText t \<Rightarrow> approxTokenCount t
      | ValueError (Some e) \<Rightarrow> approxTokenCount e
      | ValueError None \<Rightarrow> 0
      | ValueMedia mime t d \<Rightarrow> estimateMediaTokens mime t (length d)
      | ValueNone \<Rightarrow> 0)"

definition estimateGeneratedFileTokens :: "string \<Rightarrow> string \<Rightarrow> int" where
  "estimateGeneratedFileTokens mediaType d = estimateMediaTokens mediaType [] (length d)"

definition estimateFilePartTokens :: "string \<Rightarrow> string \<Rightarrow> string \<Rightarrow> int" where
  "estimateFilePartTokens filename d mediaType = estimateMediaTokens mediaType filename (length d)"

definition estimateSourceTokens :: "string list \<Rightarrow> int" where
  "estimateSourceTokens fs = sum_list (map approxTokenCount fs)"

text \<open>What \<open>ToAIMessage\<close> builds carries no media text and always an error message.\<close>

fun value_of :: "ai_output \<Rightarrow> tool_value" where
  "value_of (OutputText t) = ValueText t"
| "value_of (OutputError e) = ValueError (Some e)"
| "value_of (OutputMedia d mime) = ValueMedia mime [] d"

fun estimateMessagePartTokens :: "ai_part \<Rightarrow> int" where
  "estimateMessagePartTokens (AIText t) = approxTokenCount t"
| "estimateMessagePartTokens (AIReasoning t _) = approxTokenCount t"
| "estimateMessagePartTokens (AIFile f d mime) = estimateFilePartTokens f d mime"
| "estimateMessagePartTokens (AIToolCall _ n input _) = estimateToolCallTokens n input"
| "estimateMessagePartTokens (AIToolResult i out) = estimateToolResultContentTokens i [] [] (value_of out)"

definition estimateMessageTokens :: "(message_role \<Rightarrow> string) \<Rightarrow> ai_message list \<Rightarrow> int" where
  "estimateMessageTokens role_name messages =
     sum_list (map (\<lambda>a. approxTokenCount (role_name (ai_role a)) + sum_list (map estimateMessagePartTokens (ai_content a))) messages)"

fun estimate_content :: "step_content \<Rightarrow> int" where
  "estimate_content (StepText t) = approxTokenCount t"
| "estimate_content (StepReasoning t) = approxTokenCount t"
| "estimate_content (StepFile mime d) = estimateGeneratedFileTokens mime d"
| "estimate_content (StepSource a b c d e f) = estimateSourceTokens [a, b, c, d, e, f]"
| "estimate_content (StepToolCall _ n input) = estimateToolCallTokens n input"
| "estimate_content (StepToolResult r) =
     (if sr_provider_executed r then estimateToolResultContentTokens (sr_call r) (sr_name r) (sr_metadata r) (sr_value r) else 0)"

definition estimateStepCompletionTokens :: "agent_step_result \<Rightarrow> int" where
  "estimateStepCompletionTokens s = sum_list (map estimate_content (as_content s))"

definition fallbackStepUsage :: "(message_role \<Rightarrow> string) \<Rightarrow> ai_message list \<Rightarrow> agent_step_result \<Rightarrow> token_usage \<times> bool" where
  "fallbackStepUsage role_name messages s =
     (if \<not> usageIsZero (as_usage s) then (as_usage s, False)
      else (let inputTokens = estimateMessageTokens role_name messages; outputTokens = estimateStepCompletionTokens s in
            if inputTokens = 0 \<and> outputTokens = 0 then (zero_usage, False)
            else (zero_usage\<lparr>us_input := inputTokens, us_output := outputTokens, us_total := inputTokens + outputTokens\<rparr>, True)))"

definition updateSessionTokenCounters :: "token_usage \<Rightarrow> int \<times> int \<Rightarrow> int \<times> int" where
  "updateSessionTokenCounters u counters =
     (case counters of (prompt, completion) \<Rightarrow>
        (if us_input u + us_cache_read u \<noteq> 0 then us_input u + us_cache_read u else prompt,
         if us_output u \<noteq> 0 then us_output u else completion))"

subsection \<open>When the loop stops\<close>

text \<open>
  The reserve of a small model is a fifth of its window. The code computes it in floating point and
  truncates: for windows up to 200000 the product differs from the exact fifth by less than the
  distance to the next integer, so truncation gives the integer quotient.
\<close>

definition autoSummarizeTokenLimit :: "int \<Rightarrow> int" where
  "autoSummarizeTokenLimit contextWindow =
     (if contextWindow \<le> 0 then 0
      else (let reserve = (if contextWindow > 200000 then 20000 else contextWindow div 5);
                safeLimit = contextWindow - reserve
            in if safeLimit \<le> 0 then 0 else if safeLimit > 128000 then 128000 else safeLimit))"

definition reviewInputBudgetReached :: "int \<Rightarrow> int \<Rightarrow> bool" where
  "reviewInputBudgetReached used budget \<longleftrightarrow> budget > 0 \<and> used \<ge> budget"

definition toolResultOutputString :: "tool_value \<Rightarrow> string" where
  "toolResultOutputString v =
     (case v of
        ValueNone \<Rightarrow> [] | ValueText t \<Rightarrow> t | ValueError (Some e) \<Rightarrow> e | ValueError None \<Rightarrow> [] | ValueMedia _ _ d \<Rightarrow> d)"

text \<open>\<open>unm\<close> is \<^verbatim>\<open>json.Unmarshal\<close> into a map of raw values (\<open>Some None\<close> the nil map), \<open>mar\<close> is \<^verbatim>\<open>json.Marshal\<close>.\<close>

definition normalizedToolInput :: "(string \<Rightarrow> (string, string) gomap option option) \<Rightarrow> ((string, string) gomap \<Rightarrow> string option) \<Rightarrow>
    string \<Rightarrow> string \<Rightarrow> string" where
  "normalizedToolInput unm mar name input =
     (case unm input of
        Some (Some fs) \<Rightarrow>
          (let fs = (if name = ''bash'' then AList.delete ''description'' fs else fs)
           in case mar fs of None \<Rightarrow> input | Some encoded \<Rightarrow> encoded)
      | _ \<Rightarrow> input)"

fun step_calls :: "step_content list \<Rightarrow> (string \<times> string \<times> string) list" where
  "step_calls [] = []"
| "step_calls (StepToolCall i n input # cs) = (i, n, input) # step_calls cs"
| "step_calls (_ # cs) = step_calls cs"

fun step_results :: "step_content list \<Rightarrow> step_result list" where
  "step_results [] = []"
| "step_results (StepToolResult r # cs) = r # step_results cs"
| "step_results (_ # cs) = step_results cs"

definition getToolInteractionSignature :: "(string \<Rightarrow> string) \<Rightarrow> (string \<Rightarrow> (string, string) gomap option option) \<Rightarrow>
    ((string, string) gomap \<Rightarrow> string option) \<Rightarrow> step_content list \<Rightarrow> string" where
  "getToolInteractionSignature sha unm mar content =
     (if step_calls content = [] then []
      else (let results = foldl (\<lambda>m r. AList.update (sr_call r) (toolResultOutputString (sr_value r)) m) [] (step_results content)
            in sha (concat (map (\<lambda>(i, n, input).
                 n @ [CHR 0x00] @ normalizedToolInput unm mar n input @ [CHR 0x00] @
                 (case map_of results i of Some out \<Rightarrow> out | None \<Rightarrow> []) @ [CHR 0x00]) (step_calls content)))))"

fun repeats :: "nat \<Rightarrow> (string, nat) gomap \<Rightarrow> string list \<Rightarrow> bool" where
  "repeats maxRepeats counts [] = False"
| "repeats maxRepeats counts (sig # sigs) =
     (if sig = [] then repeats maxRepeats counts sigs
      else (let n = (case map_of counts sig of Some k \<Rightarrow> k | None \<Rightarrow> 0) + 1 in
            if n > maxRepeats then True else repeats maxRepeats (AList.update sig n counts) sigs))"

definition hasRepeatedToolCalls :: "(string \<Rightarrow> string) \<Rightarrow> (string \<Rightarrow> (string, string) gomap option option) \<Rightarrow>
    ((string, string) gomap \<Rightarrow> string option) \<Rightarrow> agent_step_result list \<Rightarrow> nat \<Rightarrow> nat \<Rightarrow> bool" where
  "hasRepeatedToolCalls sha unm mar steps windowSize maxRepeats =
     (if length steps < windowSize then False
      else repeats maxRepeats []
        (map (\<lambda>s. getToolInteractionSignature sha unm mar (as_content s)) (drop (length steps - windowSize) steps)))"


subsection \<open>The loop detection\<close>

lemma repeats_iff:
  assumes "\<And>k n. map_of counts k = Some n \<Longrightarrow> n \<le> m"
  shows "repeats m counts sigs \<longleftrightarrow>
    (\<exists>sig. sig \<noteq> [] \<and> sig \<in> set sigs \<and> m < (case map_of counts sig of Some k \<Rightarrow> k | None \<Rightarrow> 0) + count_list sigs sig)"
  using assms
proof (induction m counts sigs rule: repeats.induct)
  case (2 m counts sig sigs)
  let ?c = "\<lambda>cs k. case map_of cs k of Some n \<Rightarrow> n | None \<Rightarrow> 0"
  show ?case
  proof (cases "sig = []")
    case True
    have "repeats m counts sigs \<longleftrightarrow> (\<exists>s. s \<noteq> [] \<and> s \<in> set sigs \<and> m < ?c counts s + count_list sigs s)"
      by (rule "2.IH"(1) [OF True]) (rule "2.prems")
    moreover have "s \<noteq> [] \<Longrightarrow> count_list (sig # sigs) s = count_list sigs s" for s using True by simp
    ultimately show ?thesis using True by (auto simp del: count_list.simps)
  next
    case False
    show ?thesis
    proof (cases "?c counts sig + 1 > m")
      case True
      with False show ?thesis by (auto intro!: exI [of _ sig])
    next
      case le: False
      let ?cs = "AList.update sig (?c counts sig + 1) counts"
      have bound: "n \<le> m" if "map_of ?cs k = Some n" for k n
        using that le "2.prems" by (auto simp: gomap_get_set split: if_splits)
      have step: "repeats m counts (sig # sigs) \<longleftrightarrow> repeats m ?cs sigs" using False le by (simp add: Let_def)
      have IH: "repeats m ?cs sigs \<longleftrightarrow> (\<exists>s. s \<noteq> [] \<and> s \<in> set sigs \<and> m < ?c ?cs s + count_list sigs s)"
        using "2.IH"(2) [OF False refl _ bound] le by simp
      have eq: "?c ?cs s + count_list sigs s = ?c counts s + count_list (sig # sigs) s" for s
        by (simp add: gomap_get_set)
      have "s \<in> set sigs" if "s \<noteq> []" "m < ?c counts s + count_list (sig # sigs) s" "s \<in> set (sig # sigs)" for s
      proof (rule ccontr)
        assume "s \<notin> set sigs"
        with that(3) have "s = sig" "count_list sigs sig = 0" by (auto simp: count_list_0_iff)
        with that(2) le show False by simp
      qed
      with IH show ?thesis unfolding step by (simp only: eq) (auto simp del: count_list.simps)
    qed
  qed
qed simp

lemma hasRepeated_iff:
  "hasRepeatedToolCalls sha unm mar steps w m \<longleftrightarrow>
     w \<le> length steps \<and>
     (\<exists>sig. sig \<noteq> [] \<and>
        m < count_list (map (getToolInteractionSignature sha unm mar \<circ> as_content) (drop (length steps - w) steps)) sig)"
proof (cases "length steps < w")
  case False
  let ?sigs = "map (getToolInteractionSignature sha unm mar \<circ> as_content) (drop (length steps - w) steps)"
  have "repeats m [] ?sigs \<longleftrightarrow> (\<exists>sig. sig \<noteq> [] \<and> sig \<in> set ?sigs \<and> m < count_list ?sigs sig)"
    by (subst repeats_iff) auto
  also have "\<dots> \<longleftrightarrow> (\<exists>sig. sig \<noteq> [] \<and> m < count_list ?sigs sig)"
    by (metis count_notin not_less_zero)
  finally show ?thesis using False by (simp add: hasRepeatedToolCalls_def comp_def)
qed (simp add: hasRepeatedToolCalls_def)

text \<open>
  C28: The loop is broken exactly when at least \<^verbatim>\<open>windowSize\<close> steps were made and one signature of a
  step with tool calls occurs more than \<^verbatim>\<open>maxRepeats\<close> times among the last \<^verbatim>\<open>windowSize\<close> of them, however
  the occurrences are spread.
\<close>

theorem loop_detection_exact:
  "hasRepeatedToolCalls sha unm mar steps w m \<longleftrightarrow>
     w \<le> length steps \<and>
     (\<exists>sig. sig \<noteq> [] \<and>
        m < count_list (map (getToolInteractionSignature sha unm mar \<circ> as_content) (drop (length steps - w) steps)) sig)"
  by (rule hasRepeated_iff)





text \<open>The description a model gives of a shell command does not hide a repetition.\<close>

lemma bash_description_ignored:
  assumes "unm input1 = Some (Some f1)" and "unm input2 = Some (Some f2)"
    and "AList.delete ''description'' f1 = AList.delete ''description'' f2"
    and "mar (AList.delete ''description'' f1) \<noteq> None"
  shows "normalizedToolInput unm mar ''bash'' input1 = normalizedToolInput unm mar ''bash'' input2"
  using assms by (auto simp: normalizedToolInput_def)

subsection \<open>The limits\<close>

lemma autoSummarize_bounds:
  "0 < autoSummarizeTokenLimit w \<longleftrightarrow> 0 < w"
  "0 < w \<Longrightarrow> autoSummarizeTokenLimit w \<le> 128000 \<and> 5 * autoSummarizeTokenLimit w \<le> 5 * w \<and>
     (w \<le> 160000 \<longrightarrow> autoSummarizeTokenLimit w = w - w div 5)"
  by (auto simp: autoSummarizeTokenLimit_def Let_def)

lemma approxTokenCount_bounds: "int (length s) \<le> 4 * approxTokenCount s" "4 * approxTokenCount s \<le> int (length s) + 3"
  by (auto simp: approxTokenCount_def)

lemma estimates_nonneg:
  "0 \<le> approxTokenCount s" "0 \<le> estimateMediaTokens a b n" "0 \<le> estimateToolCallTokens a b"
  "0 \<le> estimateToolResultContentTokens a b c v"
  by (auto simp: approxTokenCount_def estimateMediaTokens_def estimateToolCallTokens_def estimateToolResultContentTokens_def
      split: tool_value.split option.split intro!: add_nonneg_nonneg)

lemma part_nonneg: "0 \<le> estimateMessagePartTokens p"
  by (cases p) (auto simp: estimates_nonneg estimateFilePartTokens_def)

lemma content_nonneg: "0 \<le> estimate_content c"
  by (cases c) (auto simp: estimates_nonneg estimateGeneratedFileTokens_def estimateSourceTokens_def)

text \<open>Estimates are never negative, and what the provider reported is never replaced.\<close>

lemma fallback_usage_sound:
  "fallbackStepUsage role_name msgs s = (u, estimated) \<Longrightarrow>
     (if usageIsZero (as_usage s) then us_total u = us_input u + us_output u \<and> 0 \<le> us_input u \<and> 0 \<le> us_output u \<and>
        (estimated \<longleftrightarrow> \<not> usageIsZero u)
      else u = as_usage s \<and> \<not> estimated)"
proof -
  have "0 \<le> estimateMessageTokens role_name msgs" "0 \<le> estimateStepCompletionTokens s"
    by (auto simp: estimateMessageTokens_def estimateStepCompletionTokens_def estimates_nonneg part_nonneg content_nonneg
        intro!: sum_list_nonneg add_nonneg_nonneg)
  then show "fallbackStepUsage role_name msgs s = (u, estimated) \<Longrightarrow> ?thesis"
    by (auto simp: fallbackStepUsage_def Let_def zero_usage_def usageIsZero_def split: if_splits)
qed

subsection \<open>The size of the reminder\<close>

lemma render_todos_bound:
  "render_todos body r todos = (body', r') \<Longrightarrow> length body + 256 \<le> 16384 \<Longrightarrow> length body' + 256 \<le> 16384 \<and> r' \<le> r + length todos"
proof (induction body r todos rule: render_todos.induct)
  case (2 body r t ts)
  show ?case
  proof (cases "maxTodoReminderTasks \<le> r \<or> maxTodoReminderBytes < length body + length (todo_item t) + todoReminderOverheadBytes")
    case True
    with "2.prems" show ?thesis by (auto simp: Let_def split: if_splits)
  next
    case False
    then have "length (body @ todo_item t) + 256 \<le> 16384" by (simp add: todo_limits)
    with "2.IH" "2.prems" False show ?thesis by (auto simp: Let_def)
  qed
qed simp

lemma str_join_length: "length (str_join '' '' xs) \<le> sum_list (map length xs) + (length xs - 1)"
  by (induction "'' '' :: string" xs rule: str_join.induct) auto

lemma sum_list_map_set_le:
  fixes f :: "'a \<Rightarrow> nat"
  assumes "distinct xs" and "set xs \<subseteq> set ys" and "distinct ys"
  shows "sum_list (map f xs) \<le> sum_list (map f ys)"
  using assms by (simp add: sum_list_distinct_conv_sum_set sum_mono2)

text \<open>The three statuses the code knows.\<close>

abbreviation known_statuses :: "string list" where
  "known_statuses \<equiv> [''pending'', ''in_progress'', ''completed'']"

lemma omitted_status_length:
  assumes "list_all (\<lambda>t. td_status t \<in> set known_statuses) ts" and "length ts < 10 ^ 18"
  shows "length (omitted_status ts) \<le> 86"
proof -
  let ?names = "sortedStatusNames (map td_status ts)" and ?n = "\<lambda>s. itoa (count_list (map td_status ts) s)"
  have names: "distinct ?names" "set ?names \<subseteq> set known_statuses"
    using assms(1) by (auto simp: sortedStatusNames_def list_all_iff)
  have len: "length (?n s) \<le> 18" for s
  proof (rule itoa_length_le)
    show "count_list (map td_status ts) s < 10 ^ 18" using count_le_length [of "map td_status ts" s] assms(2) by simp
  qed simp
  have "sum_list (map length (map (\<lambda>s. s @ ''='' @ ?n s) ?names)) = sum_list (map (\<lambda>s. length s + 1 + length (?n s)) ?names)"
    by (simp add: comp_def)
  also have "\<dots> \<le> sum_list (map (\<lambda>s. length s + 1 + 18) ?names)" by (intro sum_list_mono) (use len in auto)
  also have "\<dots> \<le> sum_list (map (\<lambda>s. length s + 1 + 18) known_statuses)" by (rule sum_list_map_set_le) (use names in auto)
  also have "\<dots> = 84" by simp
  finally have "length (omitted_status ts) \<le> 84 + (length ?names - 1)"
    unfolding omitted_status_def using str_join_length [of "map (\<lambda>s. s @ ''='' @ ?n s) ?names"] by simp
  moreover have "length ?names \<le> 3"
    using names card_mono [OF _ names(2)] distinct_card [OF names(1)] by simp
  ultimately show ?thesis by simp
qed

text \<open>
  With the statuses the code knows and fewer than \<open>10^18\<close> tasks the rendered reminder never
  exceeds its 16 KiB: the 256 bytes kept back cover the closing markers in the worst case (they need
  at most 255).
\<close>

theorem todo_reminder_bounded:
  assumes "list_all (\<lambda>t. td_status t \<in> set known_statuses) todos" and "length todos < 10 ^ 18"
  shows "length (renderTodoReminder todos) \<le> 16384"
proof (cases "todos = []")
  case True
  then show ?thesis by (simp add: renderTodoReminder_def reminder_start_def)
next
  case False
  obtain body r where br: "render_todos reminder_start 0 todos = (body, r)" by (cases "render_todos reminder_start 0 todos") auto
  have b: "length body + 256 \<le> 16384" using render_todos_bound [OF br] by (simp add: reminder_start_def)
  have digits: "length (itoa n) \<le> 18" if "n \<le> length todos" for n
    using that assms(2) by (intro itoa_length_le) auto
  have "list_all (\<lambda>t. td_status t \<in> set known_statuses) (drop r todos)"
    using assms(1) by (auto simp: list_all_iff dest: in_set_dropD)
  from omitted_status_length [OF this] assms(2) have o: "length (omitted_status (drop r todos)) \<le> 86" by simp
  from b o digits [of "length todos - r"] digits [of "length todos"] False show ?thesis
    by (simp add: renderTodoReminder_def Let_def br del: length_drop)
qed

definition demo_todos :: "todo list" where
  "demo_todos = replicate 65 \<lparr>td_content = ''<a>'', td_status = ''pending'', td_active = []\<rparr>"

theorem todo_reminder_bounded_witness:
  "length demo_todos = 65 \<and> length (renderTodoReminder demo_todos) \<le> 16384"
proof -
  have "list_all (\<lambda>t. td_status t \<in> set known_statuses) demo_todos" "length demo_todos = 65" by code_simp+
  with todo_reminder_bounded [of demo_todos] show ?thesis by simp
qed

text \<open>
  Statuses are not validated where sessions are saved. The markers of omitted tasks print them in
  full and unescaped, so a status of 16 KiB makes the reminder exceed its bound.
\<close>

lemma long_status_exceeds:
  assumes "16384 \<le> length s"
  shows "16384 < length (renderTodoReminder [\<lparr>td_content = [], td_status = s, td_active = []\<rparr>])"
proof -
  have "length (todoXMLReplacer s) \<ge> length s" for s
    unfolding todoXMLReplacer_def by (induction s) (auto simp: xml_char_def)
  with assms have "16384 \<le> length (todoXMLReplacer s)" by (meson order_trans)
  then show ?thesis
    using assms by (simp add: renderTodoReminder_def Let_def todo_item_def todo_limits omitted_status_def sortedStatusNames_def)
qed

end
