(* ===== verification/Mcp_Lifecycle.thy ===== *)
theory Mcp_Lifecycle
  imports Csync Go_Strings
begin

section \<open>MCP servers: \<^verbatim>\<open>agent/tools/mcp/init.go\<close>, \<^verbatim>\<open>lifecycle.go\<close>, \<^verbatim>\<open>tools.go\<close>, \<^verbatim>\<open>prompts.go\<close>, \<^verbatim>\<open>resources.go\<close>\<close>

text \<open>
  The process-global registry of MCP servers: sessions, states, generations and the tools, prompts
  and resources each server offers. A session is a number; \<open>mg_closes\<close> records every call of
  \<^verbatim>\<open>Close\<close> on one. A goroutine connecting a server (\<^verbatim>\<open>initClient\<close>, or the renewal inside
  \<^verbatim>\<open>getOrRenewClient\<close>) is an attempt; each of its accesses to the registry between two blocking calls
  is one step, so attempts, teardowns and refreshes interleave freely. What a server answers (a
  session or an error, and whether the error says that its OAuth token is no longer good, the listed
  tools, prompts and resources) is an argument of the step.

  Transports, OAuth handlers and the clearing of a persisted token are not part of the state. An
  error is its message; the time of a connection is left out.

  \<open>mg_teardowns\<close>, \<open>at_launched\<close> and \<open>at_checked\<close> only record history: how often a server was torn
  down, and that count when an attempt was launched and when it last compared generations.
\<close>

subsection \<open>Configuration\<close>

record mcp_config =
  mc_command :: string
  mc_env :: "(string, string) gomap"
  mc_args :: "string list"
  mc_type :: string
  mc_url :: string
  mc_disabled :: bool
  mc_disabled_tools :: "string list"
  mc_enabled_tools :: "string list"
  mc_timeout :: int
  mc_sessionless :: "bool option"
  mc_headers :: "(string, string) gomap"
  mc_oauth :: bool
  mc_oauth_client_id :: string
  mc_oauth_client_secret :: string
  mc_oauth_callback_port :: int
  mc_oauth_token :: "string option"

definition zero_config :: mcp_config where
  "zero_config = \<lparr>mc_command = [], mc_env = [], mc_args = [], mc_type = [], mc_url = [], mc_disabled = False,
     mc_disabled_tools = [], mc_enabled_tools = [], mc_timeout = 0, mc_sessionless = None, mc_headers = [], mc_oauth = False,
     mc_oauth_client_id = [], mc_oauth_client_secret = [], mc_oauth_callback_port = 0, mc_oauth_token = None\<rparr>"

text \<open>\<^verbatim>\<open>maps.Equal\<close> on Go maps, \<^verbatim>\<open>boolPtrEqual\<close>, and the comparison of configurations.\<close>

definition maps_Equal :: "(string, string) gomap \<Rightarrow> (string, string) gomap \<Rightarrow> bool" where
  "maps_Equal a b \<longleftrightarrow> length a = length b \<and> list_all (\<lambda>(k, v). map_of b k = Some v) a"

definition boolPtrEqual :: "bool option \<Rightarrow> bool option \<Rightarrow> bool" where
  "boolPtrEqual a b \<longleftrightarrow> (case (a, b) of (Some x, Some y) \<Rightarrow> x = y | (None, None) \<Rightarrow> True | _ \<Rightarrow> False)"

definition mcpConfigEqual :: "mcp_config \<Rightarrow> mcp_config \<Rightarrow> bool" where
  "mcpConfigEqual a b \<longleftrightarrow>
     mc_command a = mc_command b \<and> maps_Equal (mc_env a) (mc_env b) \<and> mc_args a = mc_args b \<and>
     mc_type a = mc_type b \<and> mc_url a = mc_url b \<and> mc_disabled a = mc_disabled b \<and>
     mc_disabled_tools a = mc_disabled_tools b \<and> mc_enabled_tools a = mc_enabled_tools b \<and>
     mc_timeout a = mc_timeout b \<and> boolPtrEqual (mc_sessionless a) (mc_sessionless b) \<and>
     maps_Equal (mc_headers a) (mc_headers b) \<and> mc_oauth a = mc_oauth b \<and>
     mc_oauth_client_id a = mc_oauth_client_id b \<and> mc_oauth_client_secret a = mc_oauth_client_secret b \<and>
     mc_oauth_callback_port a = mc_oauth_callback_port b"

definition hasUsableToken :: "string option \<Rightarrow> bool" where
  "hasUsableToken tok \<longleftrightarrow> (case tok of None \<Rightarrow> False | Some access \<Rightarrow> access \<noteq> [])"

definition mcpTimeout :: "mcp_config \<Rightarrow> int" where
  "mcpTimeout m = (if mc_timeout m > 0 then mc_timeout m else if mc_oauth m then 30 else 10)"

definition filterTools :: "mcp_config \<Rightarrow> string list \<Rightarrow> string list" where
  "filterTools c tools =
     (let tools = (if length (mc_enabled_tools c) > 0 then filter (\<lambda>t. t \<in> set (mc_enabled_tools c)) tools else tools)
      in if length (mc_disabled_tools c) > 0 then filter (\<lambda>t. t \<notin> set (mc_disabled_tools c)) tools else tools)"

subsection \<open>The registry\<close>

datatype mcp_state = StateDisabled | StateStarting | StateConnected | StateError | StateNeedsAuth

record mcp_counts =
  ct_tools :: nat
  ct_prompts :: nat
  ct_resources :: nat

definition no_counts :: mcp_counts where
  "no_counts = \<lparr>ct_tools = 0, ct_prompts = 0, ct_resources = 0\<rparr>"

record client_info =
  ci_name :: string
  ci_state :: mcp_state
  ci_error :: "string option"
  ci_client :: "nat option"
  ci_counts :: mcp_counts
  ci_config :: mcp_config
  ci_pending :: "mcp_config option"

definition zero_info :: client_info where
  "zero_info = \<lparr>ci_name = [], ci_state = StateDisabled, ci_error = None, ci_client = None, ci_counts = no_counts,
     ci_config = zero_config, ci_pending = None\<rparr>"

datatype attempt_phase =
    Launched
  | Connecting
  | Created nat
  | Listing nat
  | Listed nat nat
  | Prompted nat nat "string list"
  | Resourced nat nat "string list" nat
  | Committing nat mcp_counts "string list"

record mcp_attempt =
  at_server :: string
  at_config :: mcp_config
  at_gen :: go_uint64
  at_renew :: bool
  at_phase :: attempt_phase
  at_launched :: nat
  at_checked :: nat

datatype mcp_event = StateChanged string mcp_state "string option" mcp_counts

record mcp_global =
  mg_sessions :: "(string, nat) smap"
  mg_states :: "(string, client_info) smap"
  mg_gens :: "(string, go_uint64) smap"
  mg_tools :: "(string, string list) smap"
  mg_prompts :: "(string, string list) smap"
  mg_resources :: "(string, string list) smap"
  mg_next :: nat
  mg_closes :: "nat list"
  mg_attempts :: "(nat, mcp_attempt) gomap"
  mg_next_attempt :: nat
  mg_refreshes :: "(nat, string \<times> nat) gomap"
  mg_next_refresh :: nat
  mg_events :: "mcp_event list"
  mg_shutdowns :: nat
  mg_teardowns :: "string \<Rightarrow> nat"

definition McpStart :: mcp_global where
  "McpStart = \<lparr>mg_sessions = NewMap, mg_states = NewMap, mg_gens = NewMap, mg_tools = NewMap, mg_prompts = NewMap,
     mg_resources = NewMap, mg_next = 0, mg_closes = [], mg_attempts = [], mg_next_attempt = 0, mg_refreshes = [],
     mg_next_refresh = 0, mg_events = [], mg_shutdowns = 0, mg_teardowns = (\<lambda>_. 0)\<rparr>"

definition closeSession :: "nat \<Rightarrow> mcp_global \<Rightarrow> mcp_global" where
  "closeSession s g = g\<lparr>mg_closes := mg_closes g @ [s]\<rparr>"

text \<open>\<^verbatim>\<open>sessions.Take\<close> followed by a close of what was taken.\<close>

definition take_close :: "string \<Rightarrow> mcp_global \<Rightarrow> mcp_global" where
  "take_close name g =
     (let (taken, m) = Map_Take (mg_sessions g) name; g = g\<lparr>mg_sessions := m\<rparr>
      in case taken of Some s \<Rightarrow> closeSession s g | None \<Rightarrow> g)"

definition clear_lists :: "string \<Rightarrow> mcp_global \<Rightarrow> mcp_global" where
  "clear_lists name g =
     g\<lparr>mg_tools := Map_Del (mg_tools g) name, mg_prompts := Map_Del (mg_prompts g) name,
       mg_resources := Map_Del (mg_resources g) name\<rparr>"

definition clearMCPData :: "string \<Rightarrow> mcp_global \<Rightarrow> mcp_global" where
  "clearMCPData name g = clear_lists name g"

definition withConfig :: "mcp_config \<Rightarrow> client_info \<Rightarrow> client_info" where
  "withConfig m i = i\<lparr>ci_config := m, ci_pending := None\<rparr>"

definition withPending :: "mcp_config \<Rightarrow> client_info \<Rightarrow> client_info" where
  "withPending m i = i\<lparr>ci_pending := Some m\<rparr>"

definition updateState :: "string \<Rightarrow> mcp_state \<Rightarrow> string option \<Rightarrow> nat option \<Rightarrow> mcp_counts \<Rightarrow> (client_info \<Rightarrow> client_info) \<Rightarrow>
    mcp_global \<Rightarrow> mcp_global" where
  "updateState name state err client counts opt g =
     (let prev = (case Map_Get (mg_states g) name of Some i \<Rightarrow> i | None \<Rightarrow> zero_info);
          info = opt (prev\<lparr>ci_name := name, ci_state := state, ci_error := err, ci_client := client, ci_counts := counts\<rparr>);
          info = (if state = StateDisabled then info\<lparr>ci_config := zero_config, ci_pending := None\<rparr> else info);
          g = (if state = StateError then clear_lists name (take_close name g) else g)
      in g\<lparr>mg_states := Map_Set (mg_states g) name info, mg_events := mg_events g @ [StateChanged name state err counts]\<rparr>)"

definition currentGen :: "mcp_global \<Rightarrow> string \<Rightarrow> go_uint64" where
  "currentGen g name = (case Map_Get (mg_gens g) name of Some n \<Rightarrow> n | None \<Rightarrow> 0)"

definition mcp_teardown :: "string \<Rightarrow> mcp_global \<Rightarrow> mcp_global" where
  "mcp_teardown name g =
     clearMCPData name (take_close name
       (g\<lparr>mg_gens := Map_Set (mg_gens g) name (currentGen g name + 1),
          mg_teardowns := (mg_teardowns g)(name := Suc (mg_teardowns g name))\<rparr>))"

definition DisableSingle :: "string \<Rightarrow> mcp_global \<Rightarrow> mcp_global" where
  "DisableSingle name g = updateState name StateDisabled None None no_counts id (mcp_teardown name g)"

definition removeServer :: "string \<Rightarrow> mcp_global \<Rightarrow> mcp_global" where
  "removeServer name g =
     (let g = mcp_teardown name g in g\<lparr>mg_states := Map_Del (mg_states g) name, mg_gens := Map_Del (mg_gens g) name\<rparr>)"

definition updateTools :: "mcp_config option \<Rightarrow> string \<Rightarrow> string list \<Rightarrow> mcp_global \<Rightarrow> nat \<times> mcp_global" where
  "updateTools live name tools g =
     (let tools = (case live of Some c \<Rightarrow> filterTools c tools | None \<Rightarrow> tools)
      in if tools = [] then (0, g\<lparr>mg_tools := Map_Del (mg_tools g) name\<rparr>)
         else (length tools, g\<lparr>mg_tools := Map_Set (mg_tools g) name tools\<rparr>))"

definition updatePrompts :: "string \<Rightarrow> string list \<Rightarrow> mcp_global \<Rightarrow> mcp_global" where
  "updatePrompts name prompts g =
     (if prompts = [] then g\<lparr>mg_prompts := Map_Del (mg_prompts g) name\<rparr>
      else g\<lparr>mg_prompts := Map_Set (mg_prompts g) name prompts\<rparr>)"

definition updateResources :: "string \<Rightarrow> string list \<Rightarrow> mcp_global \<Rightarrow> nat \<times> mcp_global" where
  "updateResources name resources g =
     (if resources = [] then (0, g\<lparr>mg_resources := Map_Del (mg_resources g) name\<rparr>)
      else (length resources, g\<lparr>mg_resources := Map_Set (mg_resources g) name resources\<rparr>))"

subsection \<open>Connecting a server\<close>

definition put_attempt :: "nat \<Rightarrow> mcp_attempt \<Rightarrow> mcp_global \<Rightarrow> mcp_global" where
  "put_attempt k a g = g\<lparr>mg_attempts := AList.update k a (mg_attempts g)\<rparr>"

definition drop_attempt :: "nat \<Rightarrow> mcp_global \<Rightarrow> mcp_global" where
  "drop_attempt k g = g\<lparr>mg_attempts := AList.delete k (mg_attempts g)\<rparr>"

definition new_attempt :: "bool \<Rightarrow> attempt_phase \<Rightarrow> string \<Rightarrow> mcp_config \<Rightarrow> mcp_global \<Rightarrow> mcp_attempt" where
  "new_attempt renew ph name m g =
     \<lparr>at_server = name, at_config = m, at_gen = currentGen g name, at_renew = renew, at_phase = ph,
      at_launched = mg_teardowns g name, at_checked = mg_teardowns g name\<rparr>"

definition launch :: "mcp_attempt \<Rightarrow> mcp_global \<Rightarrow> mcp_global" where
  "launch a g =
     g\<lparr>mg_attempts := AList.update (mg_next_attempt g) a (mg_attempts g), mg_next_attempt := Suc (mg_next_attempt g)\<rparr>"

definition goInitClient :: "string \<Rightarrow> mcp_config \<Rightarrow> mcp_global \<Rightarrow> mcp_global" where
  "goInitClient name m g = launch (new_attempt False Launched name m g) g"

text \<open>\<^verbatim>\<open>initClient\<close> up to the connect: an OAuth server without a usable token waits for the user.\<close>

definition oauth_http :: "mcp_config \<Rightarrow> bool" where
  "oauth_http m \<longleftrightarrow> mc_oauth m \<and> mc_type m = ''http''"

definition initClient_begin :: "nat \<Rightarrow> mcp_attempt \<Rightarrow> mcp_global \<Rightarrow> mcp_global" where
  "initClient_begin k a g =
     (let m = at_config a; name = at_server a in
      if oauth_http m \<and> \<not> hasUsableToken (mc_oauth_token m)
      then drop_attempt k (clearMCPData name (updateState name StateNeedsAuth None None no_counts id g))
      else put_attempt k (a\<lparr>at_phase := Connecting\<rparr>) (updateState name StateStarting None None no_counts (withPending m) g))"

definition session_created :: "nat \<Rightarrow> mcp_attempt \<Rightarrow> mcp_global \<Rightarrow> mcp_global" where
  "session_created k a g = put_attempt k (a\<lparr>at_phase := Created (mg_next g)\<rparr>) (g\<lparr>mg_next := Suc (mg_next g)\<rparr>)"

text \<open>What follows an error inside an attempt; \<open>oauth\<close> says whether it is about the token.\<close>

definition init_failed :: "bool \<Rightarrow> mcp_attempt \<Rightarrow> mcp_global \<Rightarrow> mcp_global" where
  "init_failed oauth a g =
     (if oauth_http (at_config a) \<and> oauth then updateState (at_server a) StateNeedsAuth None None no_counts id g else g)"

definition renew_failed :: "mcp_attempt \<Rightarrow> mcp_global \<Rightarrow> mcp_global" where
  "renew_failed a g =
     (let g = clearMCPData (at_server a) g
      in if oauth_http (at_config a) then updateState (at_server a) StateNeedsAuth None None no_counts id g else g)"

definition create_failed :: "nat \<Rightarrow> mcp_attempt \<Rightarrow> string \<Rightarrow> bool \<Rightarrow> mcp_global \<Rightarrow> mcp_global" where
  "create_failed k a e oauth g =
     (let g = updateState (at_server a) StateError (Some e) None no_counts id g
      in drop_attempt k (if at_renew a then renew_failed a g else init_failed oauth a g))"

definition list_failed :: "nat \<Rightarrow> mcp_attempt \<Rightarrow> nat \<Rightarrow> string \<Rightarrow> bool \<Rightarrow> mcp_global \<Rightarrow> mcp_global" where
  "list_failed k a s e oauth g =
     (let g = closeSession s (updateState (at_server a) StateError (Some e) None no_counts id g)
      in drop_attempt k (if at_renew a then g else init_failed oauth a g))"

definition discard_stale :: "nat \<Rightarrow> nat \<Rightarrow> mcp_global \<Rightarrow> mcp_global" where
  "discard_stale k s g = drop_attempt k (closeSession s g)"

definition check_gen :: "nat \<Rightarrow> mcp_attempt \<Rightarrow> nat \<Rightarrow> attempt_phase \<Rightarrow> mcp_global \<Rightarrow> mcp_global" where
  "check_gen k a s next g =
     (if currentGen g (at_server a) \<noteq> at_gen a then discard_stale k s g
      else put_attempt k (a\<lparr>at_phase := next, at_checked := mg_teardowns g (at_server a)\<rparr>) g)"

definition commit_session :: "nat \<Rightarrow> mcp_attempt \<Rightarrow> nat \<Rightarrow> mcp_counts \<Rightarrow> string list \<Rightarrow> mcp_global \<Rightarrow> mcp_global" where
  "commit_session k a s counts prompts g =
     (let g = (if at_renew a then g else updatePrompts (at_server a) prompts g);
          g = g\<lparr>mg_sessions := Map_Set (mg_sessions g) (at_server a) s\<rparr>
      in drop_attempt k (updateState (at_server a) StateConnected None (Some s) counts (withConfig (at_config a)) g))"

text \<open>
  One step of an attempt. \<open>AnswerOk xs\<close> and \<open>AnswerError e oauth\<close> are what the server answered; the
  live configuration is read when the tools are filtered.
\<close>

datatype mcp_answer = AnswerOk "string list" | AnswerError string bool

definition attempt_step :: "mcp_config option \<Rightarrow> mcp_answer \<Rightarrow> nat \<Rightarrow> mcp_global \<Rightarrow> mcp_global option" where
  "attempt_step live ans k g =
     (case map_of (mg_attempts g) k of
        None \<Rightarrow> None
      | Some a \<Rightarrow>
          Some (case at_phase a of
              Launched \<Rightarrow> initClient_begin k a g
            | Connecting \<Rightarrow>
                (case ans of AnswerError e oauth \<Rightarrow> create_failed k a e oauth g | AnswerOk _ \<Rightarrow> session_created k a g)
            | Created s \<Rightarrow> check_gen k a s (Listing s) g
            | Listing s \<Rightarrow>
                (case ans of
                   AnswerError e oauth \<Rightarrow> list_failed k a s e oauth g
                 | AnswerOk xs \<Rightarrow> (let (n, g) = updateTools live (at_server a) xs g in put_attempt k (a\<lparr>at_phase := Listed s n\<rparr>) g))
            | Listed s n \<Rightarrow>
                (case ans of
                   AnswerError e oauth \<Rightarrow> list_failed k a s e oauth g
                 | AnswerOk xs \<Rightarrow>
                     (let g = (if at_renew a then updatePrompts (at_server a) xs g else g)
                      in put_attempt k (a\<lparr>at_phase := Prompted s n xs\<rparr>) g))
            | Prompted s n ps \<Rightarrow>
                if at_renew a then
                  (case ans of
                     AnswerError e oauth \<Rightarrow> list_failed k a s e oauth g
                   | AnswerOk xs \<Rightarrow>
                       (let (r, g) = updateResources (at_server a) xs g
                        in put_attempt k (a\<lparr>at_phase := Resourced s n ps r\<rparr>) g))
                else check_gen k a s (Committing s \<lparr>ct_tools = n, ct_prompts = length ps, ct_resources = 0\<rparr> ps) g
            | Resourced s n ps r \<Rightarrow>
                check_gen k a s (Committing s \<lparr>ct_tools = n, ct_prompts = length ps, ct_resources = r\<rparr> ps) g
            | Committing s counts ps \<Rightarrow> commit_session k a s counts ps g))"

text \<open>
  The renewal of a session whose ping failed with \<open>e\<close>, under the renewal lock of the server: the dead
  session is dropped, then the generation is read.
\<close>

definition renew_begin :: "string \<Rightarrow> mcp_config \<Rightarrow> string \<Rightarrow> mcp_global \<Rightarrow> mcp_global option" where
  "renew_begin name m e g =
     (if Map_Get (mg_sessions g) name = None \<or> list_ex (\<lambda>(k, a). at_renew a \<and> at_server a = name) (mg_attempts g) then None
      else (let counts = (case Map_Get (mg_states g) name of Some i \<Rightarrow> ci_counts i | None \<Rightarrow> no_counts);
                g = updateState name StateError (Some e) None counts id g
            in Some (launch (new_attempt True Connecting name m g) g)))"

subsection \<open>Refreshing the lists of a session\<close>

datatype refresh_kind = RefreshTools | RefreshPrompts | RefreshResources

definition refresh_begin :: "string \<Rightarrow> mcp_global \<Rightarrow> mcp_global option" where
  "refresh_begin name g =
     (case Map_Get (mg_sessions g) name of
        None \<Rightarrow> None
      | Some s \<Rightarrow> Some (g\<lparr>mg_refreshes := AList.update (mg_next_refresh g) (name, s) (mg_refreshes g),
                          mg_next_refresh := Suc (mg_next_refresh g)\<rparr>))"

definition refresh_end :: "refresh_kind \<Rightarrow> mcp_config option \<Rightarrow> mcp_answer \<Rightarrow> nat \<Rightarrow> mcp_global \<Rightarrow> mcp_global option" where
  "refresh_end kind live ans r g =
     (case map_of (mg_refreshes g) r of
        None \<Rightarrow> None
      | Some (name, s) \<Rightarrow>
          (let g = g\<lparr>mg_refreshes := AList.delete r (mg_refreshes g)\<rparr> in
           case ans of
             AnswerError e _ \<Rightarrow> Some (updateState name StateError (Some e) None no_counts id g)
           | AnswerOk xs \<Rightarrow>
               (let counts = (case Map_Get (mg_states g) name of Some i \<Rightarrow> ci_counts i | None \<Rightarrow> no_counts)
                in Some (case kind of
                     RefreshTools \<Rightarrow>
                       (let (n, g) = updateTools live name xs g
                        in updateState name StateConnected None (Some s) (counts\<lparr>ct_tools := n\<rparr>) id g)
                   | RefreshPrompts \<Rightarrow>
                       updateState name StateConnected None (Some s) (counts\<lparr>ct_prompts := length xs\<rparr>) id (updatePrompts name xs g)
                   | RefreshResources \<Rightarrow>
                       (let (n, g) = updateResources name xs g
                        in updateState name StateConnected None (Some s) (counts\<lparr>ct_resources := n\<rparr>) id g)))))"

subsection \<open>Reconciling with the configuration\<close>

datatype reinit_action = ReinitDisable | ReinitRemove | ReinitStart

definition action_for :: "mcp_config \<Rightarrow> client_info option \<Rightarrow> reinit_action option" where
  "action_for m running =
     (if mc_disabled m then
        (case running of Some i \<Rightarrow> if ci_state i \<noteq> StateDisabled then Some ReinitDisable else None | None \<Rightarrow> None)
      else
        (case running of
           None \<Rightarrow> Some ReinitStart
         | Some i \<Rightarrow>
             (case ci_state i of
                StateStarting \<Rightarrow>
                  (case ci_pending i of
                     Some p \<Rightarrow> if mcpConfigEqual p m then None else Some ReinitStart
                   | None \<Rightarrow> Some ReinitStart)
              | StateConnected \<Rightarrow> if mcpConfigEqual (ci_config i) m then None else Some ReinitStart
              | _ \<Rightarrow> Some ReinitStart)))"

definition reconcile :: "(string, mcp_config) gomap \<Rightarrow> (string, client_info) gomap \<Rightarrow> (string \<times> reinit_action) list" where
  "reconcile current running =
     List.map_filter (\<lambda>(name, i). if map_of current name = None then Some (name, ReinitRemove) else None) running @
     List.map_filter (\<lambda>(name, m). map_option (Pair name) (action_for m (map_of running name))) current"

definition apply_action :: "(string, mcp_config) gomap \<Rightarrow> mcp_global \<Rightarrow> string \<times> reinit_action \<Rightarrow> mcp_global" where
  "apply_action current g act =
     (case act of
        (name, ReinitRemove) \<Rightarrow> removeServer name g
      | (name, ReinitDisable) \<Rightarrow> DisableSingle name g
      | (name, ReinitStart) \<Rightarrow>
          (case map_of current name of
             None \<Rightarrow> g
           | Some m \<Rightarrow>
               goInitClient name m (updateState name StateStarting None None no_counts (withPending m) (mcp_teardown name g))))"

definition reconcileOnce :: "(string, mcp_config) gomap \<Rightarrow> mcp_global \<Rightarrow> mcp_global" where
  "reconcileOnce current g = foldl (apply_action current) g (reconcile current (Map_Copy (mg_states g)))"

definition mcp_Initialize :: "(string, mcp_config) gomap \<Rightarrow> mcp_global \<Rightarrow> mcp_global" where
  "mcp_Initialize current g =
     foldl (\<lambda>g (name, m). if mc_disabled m then updateState name StateDisabled None None no_counts id g else goInitClient name m g)
       g current"

definition InitializeSingle :: "(string, mcp_config) gomap \<Rightarrow> string \<Rightarrow> mcp_global \<Rightarrow> mcp_global option" where
  "InitializeSingle current name g =
     (case map_of current name of
        None \<Rightarrow> None
      | Some m \<Rightarrow>
          Some (if mc_disabled m then updateState name StateDisabled None None no_counts id g else goInitClient name m g))"

text \<open>\<^verbatim>\<open>Close\<close>: every registered session is closed; the map keeps them.\<close>

definition mcp_Close :: "mcp_global \<Rightarrow> mcp_global" where
  "mcp_Close g = g\<lparr>mg_closes := mg_closes g @ map snd (Map_Copy (mg_sessions g)), mg_shutdowns := Suc (mg_shutdowns g)\<rparr>"

subsection \<open>Steps\<close>

text \<open>
  Reconciliation goes server by server: the actions were computed from an earlier copy of the states,
  so an arbitrary action may be applied at any time.
\<close>

datatype mcp_op =
    McpInitialize "(string, mcp_config) gomap"
  | McpInitializeSingle "(string, mcp_config) gomap" string
  | McpAction "(string, mcp_config) gomap" "string \<times> reinit_action"
  | McpAttempt "mcp_config option" mcp_answer nat
  | McpRenew string mcp_config string
  | McpRefresh string
  | McpRefreshed refresh_kind "mcp_config option" mcp_answer nat
  | McpDisable string
  | McpClose

fun mcp_exec :: "mcp_op \<Rightarrow> mcp_global \<Rightarrow> mcp_global option" where
  "mcp_exec (McpInitialize current) g = Some (mcp_Initialize current g)"
| "mcp_exec (McpInitializeSingle current name) g = InitializeSingle current name g"
| "mcp_exec (McpAction current act) g = Some (apply_action current g act)"
| "mcp_exec (McpAttempt live ans k) g = attempt_step live ans k g"
| "mcp_exec (McpRenew name m e) g = renew_begin name m e g"
| "mcp_exec (McpRefresh name) g = refresh_begin name g"
| "mcp_exec (McpRefreshed kind live ans r) g = refresh_end kind live ans r g"
| "mcp_exec (McpDisable name) g = Some (DisableSingle name g)"
| "mcp_exec McpClose g = Some (mcp_Close g)"

fun mcp_execs :: "mcp_op list \<Rightarrow> mcp_global \<Rightarrow> mcp_global option" where
  "mcp_execs [] g = Some g"
| "mcp_execs (op # ops) g = Option.bind (mcp_exec op g) (mcp_execs ops)"

inductive mcp_step :: "mcp_global \<Rightarrow> mcp_global \<Rightarrow> bool" where
  mcp_stepI: "mcp_exec op g = Some g' \<Longrightarrow> mcp_step g g'"

inductive_cases mcp_stepE: "mcp_step g g'"

lemma mcp_execs_steps: "mcp_execs ops g = Some g' \<Longrightarrow> mcp_step\<^sup>*\<^sup>* g g'"
  by (induction ops arbitrary: g)
     (auto simp: bind_eq_Some_conv intro: converse_rtranclp_into_rtranclp mcp_stepI)

subsection \<open>Single-flighted reconciliation\<close>

text \<open>
  \<^verbatim>\<open>Reinitialize\<close>: one caller runs the loop, the others set the dirty flag. \<open>rc_version\<close> numbers the
  configurations written, \<open>rc_called\<close> is the newest one for which \<^verbatim>\<open>Reinitialize\<close> was called, \<open>rc_read\<close>
  the one the running pass reads and \<open>rc_applied\<close> the newest whose pass is complete.
\<close>

record reinit =
  rc_running :: bool
  rc_dirty :: bool
  rc_loops :: nat
  rc_version :: nat
  rc_called :: nat
  rc_read :: "nat option"
  rc_applied :: nat

definition reinit_idle :: reinit where
  "reinit_idle = \<lparr>rc_running = False, rc_dirty = False, rc_loops = 0, rc_version = 0, rc_called = 0, rc_read = None, rc_applied = 0\<rparr>"

definition config_write :: "reinit \<Rightarrow> reinit" where
  "config_write r = r\<lparr>rc_version := Suc (rc_version r)\<rparr>"

definition Reinitialize_enter :: "reinit \<Rightarrow> reinit" where
  "Reinitialize_enter r =
     (let r = r\<lparr>rc_called := rc_version r\<rparr>
      in if rc_running r then r\<lparr>rc_dirty := True\<rparr> else r\<lparr>rc_running := True, rc_loops := Suc (rc_loops r)\<rparr>)"

definition reconcile_reads :: "reinit \<Rightarrow> reinit option" where
  "reconcile_reads r = (if rc_running r \<and> rc_read r = None then Some (r\<lparr>rc_read := Some (rc_version r)\<rparr>) else None)"

definition reconcile_ends :: "reinit \<Rightarrow> reinit option" where
  "reconcile_ends r =
     (case rc_read r of
        None \<Rightarrow> None
      | Some v \<Rightarrow>
          (let r = r\<lparr>rc_read := None, rc_applied := v\<rparr>
           in if \<not> rc_dirty r then Some (r\<lparr>rc_running := False, rc_loops := rc_loops r - 1\<rparr>)
              else Some (r\<lparr>rc_dirty := False\<rparr>)))"

inductive reinit_step :: "reinit \<Rightarrow> reinit \<Rightarrow> bool" where
  reinit_write: "reinit_step r (config_write r)"
| reinit_enter: "reinit_step r (Reinitialize_enter r)"
| reinit_read: "reconcile_reads r = Some r' \<Longrightarrow> reinit_step r r'"
| reinit_end: "reconcile_ends r = Some r' \<Longrightarrow> reinit_step r r'"

end
