(* ===== verification/Mcp_Props.thy ===== *)
theory Mcp_Props
  imports Mcp_Lifecycle "HOL-Library.Multiset"
begin

section \<open>Properties of the MCP registry\<close>

text \<open>
  Where a session is (registered, held by an attempt, or closed), the generations, the reconciliation
  as a function and its single-flighting.
\<close>

subsection \<open>A session is in one place\<close>

fun phase_session :: "attempt_phase \<Rightarrow> nat option" where
  "phase_session (Created s) = Some s"
| "phase_session (Listing s) = Some s"
| "phase_session (Listed s _) = Some s"
| "phase_session (Prompted s _ _) = Some s"
| "phase_session (Resourced s _ _ _) = Some s"
| "phase_session (Committing s _ _) = Some s"
| "phase_session _ = None"

definition is_sess :: "nat \<Rightarrow> nat \<Rightarrow> nat" where
  "is_sess s v = (if v = s then 1 else 0)"

definition held :: "nat \<Rightarrow> mcp_attempt \<Rightarrow> nat" where
  "held s a = (if phase_session (at_phase a) = Some s then 1 else 0)"

definition places :: "nat \<Rightarrow> mcp_global \<Rightarrow> nat" where
  "places s g = gomap_sum (is_sess s) (inner (mg_sessions g)) + gomap_sum (held s) (mg_attempts g) + count_list (mg_closes g) s"

definition mcp_shape :: "mcp_global \<Rightarrow> bool" where
  "mcp_shape g \<longleftrightarrow> gomap_ok (inner (mg_sessions g)) \<and> gomap_ok (mg_attempts g) \<and>
     (\<forall>k. k \<in> gomap_keys (mg_attempts g) \<longrightarrow> k < mg_next_attempt g)"

lemma count_list_append1: "count_list (xs @ [x]) s = count_list xs s + is_sess s x"
  by (simp add: is_sess_def)

text \<open>The building blocks and what they do to the places of a session.\<close>

lemma closeSession_effect:
  "mcp_shape (closeSession x g) = mcp_shape g" "places s (closeSession x g) = places s g + is_sess s x"
  by (simp_all add: closeSession_def mcp_shape_def places_def count_list_append1 del: count_list_append)

lemma take_close_effect:
  assumes "mcp_shape g"
  shows "mcp_shape (take_close n g)" and "places s (take_close n g) = places s g"
proof -
  have ok: "gomap_ok (inner (mg_sessions g))" using assms by (simp add: mcp_shape_def)
  show "mcp_shape (take_close n g)"
    using assms by (auto simp: take_close_def Map_Take_def closeSession_def mcp_shape_def Let_def split: option.split)
  from gomap_sum_del [OF ok, of "is_sess s" n] show "places s (take_close n g) = places s g"
    by (auto simp: take_close_def Map_Take_def closeSession_def places_def Let_def count_list_append1 simp del: count_list_append split: option.splits)
qed

lemma clear_lists_effect [simp]:
  "mcp_shape (clear_lists n g) = mcp_shape g" "places s (clear_lists n g) = places s g" "mg_next (clear_lists n g) = mg_next g"
  "mg_attempts (clear_lists n g) = mg_attempts g" "mg_sessions (clear_lists n g) = mg_sessions g"
  "mg_next_attempt (clear_lists n g) = mg_next_attempt g"
  by (simp_all add: clear_lists_def mcp_shape_def places_def)

lemma take_close_frame [simp]:
  "mg_next (take_close n g) = mg_next g" "mg_attempts (take_close n g) = mg_attempts g"
  "mg_next_attempt (take_close n g) = mg_next_attempt g" "mg_shutdowns (take_close n g) = mg_shutdowns g"
  "mg_gens (take_close n g) = mg_gens g" "mg_teardowns (take_close n g) = mg_teardowns g"
  by (simp_all add: take_close_def Map_Take_def closeSession_def Let_def split: option.split)

lemma updateState_frame [simp]:
  "mg_next (updateState n st e c ct f g) = mg_next g" "mg_attempts (updateState n st e c ct f g) = mg_attempts g"
  "mg_next_attempt (updateState n st e c ct f g) = mg_next_attempt g" "mg_shutdowns (updateState n st e c ct f g) = mg_shutdowns g"
  "mg_gens (updateState n st e c ct f g) = mg_gens g" "mg_teardowns (updateState n st e c ct f g) = mg_teardowns g"
  by (simp_all add: updateState_def Let_def clear_lists_def)

lemma updateState_effect:
  assumes "mcp_shape g"
  shows "mcp_shape (updateState n st e c ct f g)" and "places s (updateState n st e c ct f g) = places s g"
proof -
  obtain g1 where g1: "g1 = (if st = StateError then clear_lists n (take_close n g) else g)" by simp
  have "mcp_shape g1" "places s g1 = places s g" using assms take_close_effect [OF assms] by (simp_all add: g1)
  moreover have "mcp_shape (updateState n st e c ct f g) = mcp_shape g1" "places s (updateState n st e c ct f g) = places s g1"
    by (simp_all add: updateState_def g1 Let_def mcp_shape_def places_def)
  ultimately show "mcp_shape (updateState n st e c ct f g)" "places s (updateState n st e c ct f g) = places s g" by simp_all
qed

lemma put_attempt_effect:
  assumes "mcp_shape g" and "map_of (mg_attempts g) k = Some a"
  shows "mcp_shape (put_attempt k b g)" and "places s (put_attempt k b g) + held s a = places s g + held s b"
proof -
  have "k \<in> gomap_keys (mg_attempts g)" using assms(2) by (simp add: gomap_keys_get)
  then show "mcp_shape (put_attempt k b g)" using assms(1) by (auto simp: put_attempt_def mcp_shape_def gomap_keys_set)
  from gomap_sum_set [of "held s" k b "mg_attempts g"] assms(2)
  show "places s (put_attempt k b g) + held s a = places s g + held s b" by (simp add: put_attempt_def places_def)
qed

lemma drop_attempt_effect:
  assumes "mcp_shape g" and "map_of (mg_attempts g) k = Some a"
  shows "mcp_shape (drop_attempt k g)" and "places s (drop_attempt k g) + held s a = places s g"
proof -
  show "mcp_shape (drop_attempt k g)" using assms(1) by (auto simp: drop_attempt_def mcp_shape_def gomap_keys_del)
  have "gomap_ok (mg_attempts g)" using assms(1) by (simp add: mcp_shape_def)
  from gomap_sum_del [OF this, of "held s" k] assms(2)
  show "places s (drop_attempt k g) + held s a = places s g" by (simp add: drop_attempt_def places_def)
qed

lemma launch_effect:
  assumes "mcp_shape g" and "phase_session (at_phase a) = None"
  shows "mcp_shape (launch a g)" and "places s (launch a g) = places s g"
proof -
  have "map_of (mg_attempts g) (mg_next_attempt g) = None"
    using assms(1) gomap_keys_get [of "mg_next_attempt g" "mg_attempts g"] by (auto simp: mcp_shape_def)
  with gomap_sum_set [of "held s" "mg_next_attempt g" a "mg_attempts g"] assms(2)
  show "places s (launch a g) = places s g" by (simp add: launch_def places_def held_def)
  show "mcp_shape (launch a g)" using assms(1) by (auto simp: launch_def mcp_shape_def gomap_keys_set less_Suc_eq)
qed

lemma register_effect:
  assumes "mcp_shape g"
  shows "mcp_shape (g\<lparr>mg_sessions := Map_Set (mg_sessions g) n x\<rparr>)"
    and "places s (g\<lparr>mg_sessions := Map_Set (mg_sessions g) n x\<rparr>) \<le> places s g + is_sess s x"
  using assms gomap_sum_set [of "is_sess s" n x "inner (mg_sessions g)"]
  by (auto simp: mcp_shape_def places_def Map_Set_def split: option.splits)

text \<open>A step that moves sessions between places: it makes none up beyond the next number.\<close>

definition moves :: "mcp_global \<Rightarrow> mcp_global \<Rightarrow> bool" where
  "moves g g' \<longleftrightarrow> (mcp_shape g \<longrightarrow> mcp_shape g') \<and>
     (mcp_shape g \<longrightarrow> (\<forall>s. places s g' \<le> places s g)) \<and> mg_next g' = mg_next g \<and> mg_shutdowns g' = mg_shutdowns g"

lemma moves_refl [simp]: "moves g g"
  by (simp add: moves_def)

lemma moves_trans [trans]: "moves a b \<Longrightarrow> moves b c \<Longrightarrow> moves a c"
  by (auto simp: moves_def intro: order_trans)

lemma moves_updateState: "moves g (updateState n st e c ct f g)"
  by (auto simp: moves_def updateState_effect)

lemma moves_clear: "moves g (clearMCPData n g)"
  by (simp add: moves_def clearMCPData_def clear_lists_def mcp_shape_def places_def)

lemma moves_take: "moves g (take_close n g)"
  by (simp add: moves_def take_close_effect)

lemma moves_lists:
  "moves g (snd (updateTools live n xs g))" "moves g (updatePrompts n xs g)" "moves g (snd (updateResources n xs g))"
  by (auto simp: updateTools_def updatePrompts_def updateResources_def Let_def moves_def mcp_shape_def places_def split: option.split)

lemma moves_teardown: "moves g (mcp_teardown n g)"
proof -
  let ?g = "g\<lparr>mg_gens := Map_Set (mg_gens g) n (currentGen g n + 1), mg_teardowns := (mg_teardowns g)(n := Suc (mg_teardowns g n))\<rparr>"
  have "moves g ?g" by (simp add: moves_def mcp_shape_def places_def)
  also have "moves ?g (take_close n ?g)" by (rule moves_take)
  also have "moves (take_close n ?g) (mcp_teardown n g)" unfolding mcp_teardown_def by (rule moves_clear)
  finally show ?thesis .
qed

lemma moves_DisableSingle: "moves g (DisableSingle n g)"
  unfolding DisableSingle_def by (rule moves_trans [OF moves_teardown moves_updateState])

lemma moves_remove: "moves g (removeServer n g)"
proof -
  have "moves (mcp_teardown n g) (removeServer n g)" by (simp add: removeServer_def Let_def moves_def mcp_shape_def places_def)
  with moves_teardown show ?thesis by (rule moves_trans)
qed

lemma moves_launch: "phase_session (at_phase a) = None \<Longrightarrow> moves g (launch a g)"
  by (simp add: moves_def launch_effect) (simp add: launch_def)

lemma moves_goInit: "moves g (goInitClient n m g)"
  unfolding goInitClient_def by (rule moves_launch) (simp add: new_attempt_def)

lemma moves_apply: "moves g (apply_action current g act)"
proof (cases act)
  case (Pair n a)
  have "moves g (goInitClient n m (updateState n StateStarting None None no_counts (withPending m) (mcp_teardown n g)))" for m
    by (rule moves_trans [OF moves_trans [OF moves_teardown moves_updateState] moves_goInit])
  then show ?thesis
    by (cases a) (auto simp: Pair apply_action_def moves_DisableSingle moves_remove split: option.split)
qed

lemma moves_Initialize: "moves g (mcp_Initialize current g)"
proof -
  have "moves g (foldl (\<lambda>g (name, m). if mc_disabled m then updateState name StateDisabled None None no_counts id g
    else goInitClient name m g) g xs)" for xs
  proof (induction xs arbitrary: g)
    case (Cons x xs)
    obtain n m where x: "x = (n, m)" by fastforce
    have "moves g (if mc_disabled m then updateState n StateDisabled None None no_counts id g else goInitClient n m g)"
      by (simp add: moves_updateState moves_goInit)
    from moves_trans [OF this Cons.IH] show ?case by (simp add: x)
  qed simp
  then show ?thesis by (simp add: mcp_Initialize_def)
qed

text \<open>The steps of an attempt.\<close>

definition same_attempts :: "mcp_global \<Rightarrow> mcp_global \<Rightarrow> bool" where
  "same_attempts g h \<longleftrightarrow> mg_attempts h = mg_attempts g"

lemma same_attempts_simps [simp]:
  "same_attempts g (updateState n st e c ct f h) = same_attempts g h" "same_attempts g (clearMCPData n h) = same_attempts g h"
  "same_attempts g (closeSession s h) = same_attempts g h" "same_attempts g g"
  "same_attempts g (snd (updateTools live n xs h)) = same_attempts g h" "same_attempts g (updatePrompts n xs h) = same_attempts g h"
  "same_attempts g (snd (updateResources n xs h)) = same_attempts g h"
  "same_attempts g (h\<lparr>mg_sessions := x\<rparr>) = same_attempts g h"
  by (simp_all add: same_attempts_def clearMCPData_def closeSession_def updateTools_def updatePrompts_def updateResources_def Let_def
      split: option.split)

lemma moves_put:
  assumes "map_of (mg_attempts g) k = Some a" and "phase_session (at_phase b) = phase_session (at_phase a)"
    and "moves g h" and "same_attempts g h"
  shows "moves g (put_attempt k b h)"
proof -
  have a: "map_of (mg_attempts h) k = Some a" and e: "held s b = held s a" for s
    using assms by (simp_all add: same_attempts_def held_def)
  have "places s (put_attempt k b h) = places s h" if "mcp_shape h" for s
    using put_attempt_effect(2) [OF that a, of s b] e by simp
  then have "moves h (put_attempt k b h)"
    using put_attempt_effect(1) [OF _ a] by (simp add: moves_def) (simp add: put_attempt_def)
  with assms(3) show ?thesis by (rule moves_trans)
qed

lemma moves_drop:
  assumes "map_of (mg_attempts g) k = Some a" and "moves g h" and "same_attempts g h"
  shows "moves g (drop_attempt k h)"
proof -
  have a: "map_of (mg_attempts h) k = Some a" using assms by (simp add: same_attempts_def)
  have "places s (drop_attempt k h) \<le> places s h" if "mcp_shape h" for s
    using drop_attempt_effect(2) [OF that a, of s] by simp
  then have "moves h (drop_attempt k h)"
    using drop_attempt_effect(1) [OF _ a] by (simp add: moves_def) (simp add: drop_attempt_def)
  with assms(2) show ?thesis by (rule moves_trans)
qed

text \<open>The session of the attempt goes to another place and the attempt ends.\<close>

lemma moves_place:
  assumes a: "map_of (mg_attempts g) k = Some a" "phase_session (at_phase a) = Some x"
    and h: "mcp_shape g \<Longrightarrow> mcp_shape h" "\<And>s. mcp_shape g \<Longrightarrow> places s h \<le> places s g + is_sess s x"
      "mg_next h = mg_next g" "mg_shutdowns h = mg_shutdowns g" "same_attempts g h"
  shows "moves g (drop_attempt k h)"
proof -
  have m: "map_of (mg_attempts h) k = Some a" using a h(5) by (simp add: same_attempts_def)
  have "places s (drop_attempt k h) \<le> places s g" if g: "mcp_shape g" for s
    using drop_attempt_effect(2) [OF h(1) [OF g] m, of s] h(2) [OF g, of s] a(2) by (simp add: held_def is_sess_def split: if_splits)
  then show ?thesis
    using drop_attempt_effect(1) [OF _ m] h by (simp add: moves_def) (simp add: drop_attempt_def)
qed

lemma moves_close:
  assumes a: "map_of (mg_attempts g) k = Some a" "phase_session (at_phase a) = Some x"
    and u: "moves g u" and h: "moves (closeSession x u) h" "same_attempts g h"
  shows "moves g (drop_attempt k h)"
proof (rule moves_place [OF a])
  assume g: "mcp_shape g"
  then have us: "mcp_shape u" using u by (simp add: moves_def)
  then have c: "mcp_shape (closeSession x u)" by (simp add: closeSession_effect)
  then show "mcp_shape h" using h by (simp add: moves_def)
  show "places s h \<le> places s g + is_sess s x" for s
  proof -
    have "places s h \<le> places s (closeSession x u)" using h c by (simp add: moves_def)
    also have "\<dots> = places s u + is_sess s x" by (rule closeSession_effect)
    also have "places s u \<le> places s g" using u g by (simp add: moves_def)
    finally show ?thesis by simp
  qed
next
  show "mg_next h = mg_next g" "mg_shutdowns h = mg_shutdowns g" using u h by (simp_all add: moves_def closeSession_def)
qed (rule h)

lemma moves_failed:
  "moves g (init_failed oauth a g)" "moves g (renew_failed a g)"
  "same_attempts h (init_failed oauth a g) = same_attempts h g" "same_attempts h (renew_failed a g) = same_attempts h g"
  using moves_trans [OF moves_clear moves_updateState]
  by (auto simp: init_failed_def renew_failed_def Let_def moves_updateState moves_clear)

lemma moves_check:
  assumes "map_of (mg_attempts g) k = Some a" and "phase_session (at_phase a) = Some x" and "phase_session ph = Some x"
  shows "moves g (check_gen k a x ph g)"
  unfolding check_gen_def discard_stale_def
  using moves_close [OF assms(1,2) moves_refl moves_refl] moves_put [OF assms(1) _ moves_refl] assms(2,3) by simp

lemma moves_list_failed:
  assumes "map_of (mg_attempts g) k = Some a" and "phase_session (at_phase a) = Some x"
  shows "moves g (list_failed k a x e oauth g)"
  unfolding list_failed_def Let_def
  by (rule moves_close [OF assms moves_updateState
      [of g "at_server a" StateError "Some e" None no_counts id]]) (auto simp: moves_failed)

lemma moves_commit:
  assumes a: "map_of (mg_attempts g) k = Some a" "phase_session (at_phase a) = Some x"
  shows "moves g (commit_session k a x counts ps g)"
proof -
  obtain u where u: "u = (if at_renew a then g else updatePrompts (at_server a) ps g)" by simp
  have mu: "moves g u" and su: "same_attempts g u" by (simp_all add: u moves_lists)
  let ?r = "u\<lparr>mg_sessions := Map_Set (mg_sessions u) (at_server a) x\<rparr>"
  let ?h = "updateState (at_server a) StateConnected None (Some x) counts (withConfig (at_config a)) ?r"
  have "moves g (drop_attempt k ?h)"
  proof (rule moves_place [OF a])
    assume g: "mcp_shape g"
    then have us: "mcp_shape u" using mu by (simp add: moves_def)
    note r = register_effect [OF us, where n = "at_server a" and x = x]
    show "mcp_shape ?h" by (rule updateState_effect(1) [OF r(1)])
    show "places s ?h \<le> places s g + is_sess s x" for s
      
    proof -
      have "places s ?h = places s ?r" by (rule updateState_effect(2) [OF r(1)])
      also have "\<dots> \<le> places s u + is_sess s x" by (rule r(2))
      also have "places s u \<le> places s g" using mu g by (simp add: moves_def)
      finally show ?thesis by simp
    qed
  qed (use mu su in \<open>simp_all add: moves_def\<close>)
  then show ?thesis by (simp add: commit_session_def u Let_def)
qed

lemma attempt_moves:
  assumes "attempt_step live ans k g = Some g'"
  shows "moves g g' \<or> (\<exists>a. map_of (mg_attempts g) k = Some a \<and> at_phase a = Connecting \<and> g' = session_created k a g)"
proof -
  obtain a where a: "map_of (mg_attempts g) k = Some a"
    using assms by (auto simp: attempt_step_def simp del: map_of_eq_Some_iff split: option.splits)
  show ?thesis
  proof (cases "at_phase a")
    case Launched
    have "moves g (initClient_begin k a g)"
      using Launched moves_drop [OF a moves_trans [OF moves_updateState moves_clear]] moves_put [OF a _ moves_updateState]
      by (simp add: initClient_begin_def Let_def)
    with assms a Launched show ?thesis by (simp add: attempt_step_def)
  next
    case Connecting
    have "moves g (create_failed k a e oauth g)" for e oauth
      unfolding create_failed_def Let_def
      by (rule moves_drop [OF a]) (auto simp: moves_failed intro: moves_trans [OF moves_updateState] moves_failed)
    with assms a Connecting show ?thesis by (auto simp: attempt_step_def simp del: map_of_eq_Some_iff split: mcp_answer.splits)
  next
    case (Created s)
    with assms a moves_check [OF a, of s "Listing s"] show ?thesis by (simp add: attempt_step_def)
  next
    case (Listing s)
    have "moves g (put_attempt k (a\<lparr>at_phase := Listed s n\<rparr>) (snd (updateTools live (at_server a) xs g)))" for n xs
      by (rule moves_put [OF a]) (simp_all add: Listing moves_lists)
    with assms a Listing moves_list_failed [OF a] show ?thesis
      by (auto simp: attempt_step_def case_prod_beta Let_def simp del: map_of_eq_Some_iff split: mcp_answer.splits)
  next
    case (Listed s n)
    have "moves g (put_attempt k (a\<lparr>at_phase := Prompted s n xs\<rparr>) (if at_renew a then updatePrompts (at_server a) xs g else g))" for xs
      by (rule moves_put [OF a]) (simp_all add: Listed moves_lists)
    with assms a Listed moves_list_failed [OF a] show ?thesis
      by (auto simp: attempt_step_def Let_def simp del: map_of_eq_Some_iff split: mcp_answer.splits)
  next
    case (Prompted s n ps)
    have "moves g (put_attempt k (a\<lparr>at_phase := Resourced s n ps r\<rparr>) (snd (updateResources (at_server a) xs g)))" for r xs
      by (rule moves_put [OF a]) (simp_all add: Prompted moves_lists)
    with assms a Prompted moves_list_failed [OF a] moves_check [OF a, of s "Committing s c ps" for c] show ?thesis
      by (auto simp: attempt_step_def case_prod_beta Let_def simp del: map_of_eq_Some_iff split: mcp_answer.splits if_splits)
  next
    case (Resourced s n ps r)
    with assms a moves_check [OF a, of s "Committing s c ps" for c] show ?thesis by (auto simp: attempt_step_def)
  next
    case (Committing s counts ps)
    with assms a moves_commit [OF a, of s] show ?thesis by (auto simp: attempt_step_def)
  qed
qed

definition mcp_inv :: "mcp_global \<Rightarrow> bool" where
  "mcp_inv g \<longleftrightarrow> mcp_shape g \<and> (mg_shutdowns g = 0 \<longrightarrow> (\<forall>s. places s g \<le> (if s < mg_next g then 1 else 0)))"

lemma moves_inv: "moves g g' \<Longrightarrow> mcp_inv g \<Longrightarrow> mcp_inv g'"
  unfolding moves_def mcp_inv_def by (metis order_trans)

lemma created_inv:
  assumes "map_of (mg_attempts g) k = Some a" and "at_phase a = Connecting" and "mcp_inv g"
  shows "mcp_inv (session_created k a g)"
proof -
  let ?g = "g\<lparr>mg_next := Suc (mg_next g)\<rparr>" and ?b = "a\<lparr>at_phase := Created (mg_next g)\<rparr>"
  have sh: "mcp_shape ?g" and pl: "places s ?g = places s g" for s using assms(3) by (simp_all add: mcp_inv_def mcp_shape_def places_def)
  have m: "map_of (mg_attempts ?g) k = Some a" using assms(1) by simp
  note e = put_attempt_effect [OF sh m, where b = ?b]
  have p: "places s (put_attempt k ?b ?g) = places s g + is_sess s (mg_next g)" for s
    using e(2) [where s = s] pl assms(2) by (simp add: held_def is_sess_def)
  have q: "mg_shutdowns g = 0 \<Longrightarrow> places s g \<le> (if s < mg_next g then 1 else 0)" for s
    using assms(3) by (simp add: mcp_inv_def)
  have "places s (put_attempt k ?b ?g) \<le> (if s < Suc (mg_next g) then 1 else 0)" if "mg_shutdowns g = 0" for s
    using p [of s] q [OF that, of s] by (auto simp: is_sess_def split: if_splits)
  moreover have "mg_shutdowns (put_attempt k ?b ?g) = mg_shutdowns g" "mg_next (put_attempt k ?b ?g) = Suc (mg_next g)"
    by (simp_all add: put_attempt_def)
  ultimately show ?thesis unfolding session_created_def mcp_inv_def using e(1) by presburger
qed

lemma moves_refresh:
  assumes "refresh_end kind live ans r g = Some g'"
  shows "moves g g'"
proof -
  obtain n s where r: "map_of (mg_refreshes g) r = Some (n, s)"
    using assms by (auto simp: refresh_end_def simp del: map_of_eq_Some_iff split: option.splits)
  let ?g = "g\<lparr>mg_refreshes := AList.delete r (mg_refreshes g)\<rparr>"
  have "moves g ?g" by (simp add: moves_def mcp_shape_def places_def)
  moreover have "moves ?g g'"
    using assms r moves_trans [OF moves_lists(1) moves_updateState] moves_trans [OF moves_lists(2) moves_updateState]
      moves_trans [OF moves_lists(3) moves_updateState]
    by (auto simp: refresh_end_def Let_def case_prod_beta moves_updateState simp del: map_of_eq_Some_iff
        split: mcp_answer.splits refresh_kind.splits)
  ultimately show ?thesis by (rule moves_trans)
qed

lemma mcp_inv_exec: "mcp_exec op g = Some g' \<Longrightarrow> mcp_inv g \<Longrightarrow> mcp_inv g'"
proof (cases op)
  case (McpAttempt live ans k)
  assume "mcp_exec op g = Some g'" "mcp_inv g"
  with McpAttempt attempt_moves [of live ans k g g'] moves_inv created_inv show ?thesis by auto
next
  case (McpRenew n m e)
  assume ex: "mcp_exec op g = Some g'" and inv: "mcp_inv g"
  have "moves g (launch (new_attempt True Connecting n m h) h)" if "moves g h" for h
    using that by (rule moves_trans) (rule moves_launch, simp add: new_attempt_def)
  with ex McpRenew have "moves g g'" by (auto simp: renew_begin_def Let_def moves_updateState split: if_splits)
  with inv show ?thesis by (rule moves_inv [rotated])
next
  case (McpRefreshed kind live ans r)
  assume ex: "mcp_exec op g = Some g'" and inv: "mcp_inv g"
  with McpRefreshed moves_refresh [of kind live ans r g g'] show ?thesis by (auto intro: moves_inv [OF _ inv])
next
  case (McpRefresh n)
  assume ex: "mcp_exec op g = Some g'" and inv: "mcp_inv g"
  have "moves g (g\<lparr>mg_refreshes := x, mg_next_refresh := y\<rparr>)" for x y by (simp add: moves_def mcp_shape_def places_def)
  with ex McpRefresh have "moves g g'" by (auto simp: refresh_begin_def split: option.splits)
  with inv show ?thesis by (rule moves_inv [rotated])
next
  case McpClose
  assume "mcp_exec op g = Some g'" "mcp_inv g"
  moreover have "mcp_inv (mcp_Close g)" if "mcp_shape g"
    using that by (simp add: mcp_Close_def mcp_inv_def mcp_shape_def)
  ultimately show ?thesis using McpClose by (simp add: mcp_inv_def)
next
  case (McpInitializeSingle cur n)
  assume ex: "mcp_exec op g = Some g'" and inv: "mcp_inv g"
  with McpInitializeSingle have "moves g g'" by (auto simp: InitializeSingle_def moves_updateState moves_goInit split: option.splits if_splits)
  with inv show ?thesis by (rule moves_inv [rotated])
qed (auto intro: moves_inv [OF moves_Initialize] moves_inv [OF moves_apply] moves_inv [OF moves_DisableSingle])

interpretation mcp: transition_system "\<lambda>g. g = McpStart" mcp_step mcp_inv
proof
  show "g = McpStart \<Longrightarrow> mcp_inv g" for g by (simp add: McpStart_def mcp_inv_def mcp_shape_def places_def NewMap_def)
  show "mcp_step g g' \<Longrightarrow> mcp_inv g \<Longrightarrow> mcp_inv g'" for g g' by (auto elim!: mcp_stepE intro: mcp_inv_exec)
qed

lemma gomap_sum_two:
  "map_of m k = Some v \<Longrightarrow> map_of m l = Some w \<Longrightarrow> k \<noteq> l \<Longrightarrow> gomap_sum f m \<le> 1 \<Longrightarrow> f v = 1 \<Longrightarrow> f w = 1 \<Longrightarrow> False"
  using gomap_sum_ge2 [of m k v l w f] by simp

lemma count_list_distinct: "(\<And>x. count_list xs x \<le> 1) \<Longrightarrow> distinct xs"
proof (induction xs)
  case (Cons y xs)
  have "count_list xs x \<le> 1" for x using Cons.prems [of x] by (simp split: if_splits)
  moreover have "count_list xs y = 0" using Cons.prems [of y] by simp
  ultimately show ?case using Cons.IH by (simp add: count_list_0_iff)
qed simp

text \<open>
  C11: whatever the connecting goroutines, renewals, refreshes, reconciliations and errors of the MCP
  servers do in any order, before the process closes them all no session is closed twice, and a
  registered session is open, registered under one name only and in the hands of no goroutine that
  would close it.
\<close>

theorem mcp_session_in_one_place:
  assumes "mcp_step\<^sup>*\<^sup>* McpStart g" and "mg_shutdowns g = 0"
  shows "distinct (mg_closes g) \<and>
    (Map_Get (mg_sessions g) n = Some s \<longrightarrow>
       s \<notin> set (mg_closes g) \<and> (Map_Get (mg_sessions g) n' = Some s \<longrightarrow> n' = n) \<and>
       (map_of (mg_attempts g) k = Some a \<longrightarrow> phase_session (at_phase a) \<noteq> Some s))"
proof -
  have inv: "mcp_inv g" by (rule mcp.reachable_inv [OF refl assms(1)])
  then have "places x g \<le> (if x < mg_next g then 1 else 0)" for x using assms(2) by (simp add: mcp_inv_def)
  then have le: "places x g \<le> 1" for x by (rule order_trans) simp
  have "count_list (mg_closes g) x \<le> 1" for x using le [of x] by (simp add: places_def)
  then have d: "distinct (mg_closes g)" by (rule count_list_distinct)
  show ?thesis
  proof (intro conjI impI d)
    assume "Map_Get (mg_sessions g) n = Some s"
    then have m: "map_of (inner (mg_sessions g)) n = Some s" by (simp add: Map_Get_def)
    then have one: "1 \<le> gomap_sum (is_sess s) (inner (mg_sessions g))" using gomap_sum_ge [OF m, of "is_sess s"] by (simp add: is_sess_def)
    with le [of s] have z: "gomap_sum (held s) (mg_attempts g) = 0" "count_list (mg_closes g) s = 0"
      "gomap_sum (is_sess s) (inner (mg_sessions g)) \<le> 1" by (simp_all add: places_def)
    then show "s \<notin> set (mg_closes g)" by (simp add: count_list_0_iff)
    show "n' = n" if "Map_Get (mg_sessions g) n' = Some s"
      using gomap_sum_two [OF m _ _ z(3), of n' s] that by (auto simp: Map_Get_def is_sess_def)
    show "phase_session (at_phase a) \<noteq> Some s" if "map_of (mg_attempts g) k = Some a"
      using gomap_sum_ge [OF that, of "held s"] z(1) by (auto simp: held_def split: if_splits)
  qed
qed

definition demo_mcp :: mcp_config where
  "demo_mcp = zero_config\<lparr>mc_command := ''srv'', mc_type := ''stdio''\<rparr>"

definition connect_run :: "nat \<Rightarrow> mcp_op list" where
  "connect_run k = replicate 7 (McpAttempt (Some demo_mcp) (AnswerOk [''t'']) k)"

definition demo_registry :: mcp_global where
  "demo_registry = the (mcp_execs (McpInitialize [(''a'', demo_mcp)] # connect_run 0) McpStart)"

lemma demo_registry_run: "mcp_execs (McpInitialize [(''a'', demo_mcp)] # connect_run 0) McpStart = Some demo_registry"
proof -
  have "mcp_execs (McpInitialize [(''a'', demo_mcp)] # connect_run 0) McpStart \<noteq> None" by code_simp
  then show ?thesis by (auto simp: demo_registry_def)
qed

theorem mcp_session_in_one_place_witness:
  "Map_Get (mg_sessions demo_registry) ''a'' = Some 0 \<and> 0 \<notin> set (mg_closes demo_registry)"
proof -
  have "Map_Get (mg_sessions demo_registry) ''a'' = Some 0" "mg_shutdowns demo_registry = 0" by code_simp+
  then show ?thesis
    using mcp_session_in_one_place [OF mcp_execs_steps [OF demo_registry_run], where n = "''a''" and s = 0] by blast
qed

subsection \<open>Generations\<close>







text \<open>\<open>gframe\<close>: the generations, the teardowns and the attempts are untouched.\<close>

definition gframe :: "mcp_global \<Rightarrow> mcp_global \<Rightarrow> bool" where
  "gframe g h \<longleftrightarrow> mg_gens h = mg_gens g \<and> mg_teardowns h = mg_teardowns g \<and> mg_attempts h = mg_attempts g"

lemma gframe_simps [simp]:
  "gframe g (updateState n st e c ct f h) = gframe g h" "gframe g (clearMCPData n h) = gframe g h"
  "gframe g (take_close n h) = gframe g h" "gframe g (closeSession s h) = gframe g h"
  "gframe g (snd (updateTools live n xs h)) = gframe g h" "gframe g (updatePrompts n xs h) = gframe g h"
  "gframe g (snd (updateResources n xs h)) = gframe g h" "gframe g (h\<lparr>mg_sessions := x\<rparr>) = gframe g h"
  "gframe g (init_failed oauth a h) = gframe g h" "gframe g (renew_failed a h) = gframe g h"
  "gframe g (h\<lparr>mg_refreshes := y\<rparr>) = gframe g h" "gframe g (h\<lparr>mg_next_refresh := z\<rparr>) = gframe g h"
  "gframe g (h\<lparr>mg_next := z\<rparr>) = gframe g h" "gframe g (mcp_Close h) = gframe g h" "gframe g g"
  by (simp_all add: gframe_def clearMCPData_def clear_lists_def closeSession_def updateTools_def updatePrompts_def
      updateResources_def init_failed_def renew_failed_def mcp_Close_def Let_def split: option.split)



















text \<open>
  What the comparison of generations does not see. A removal deletes the server's generation, so the
  count starts again and an attempt launched before the first teardown registers a session for a
  server that is gone.
\<close>

lemma removal_revives_stale:
  "(case mcp_execs (McpInitialize [(''a'', demo_mcp)] # take 2 (connect_run 0) @ McpAction [] (''a'', ReinitRemove) #
       drop 2 (connect_run 0)) McpStart of
      Some g \<Rightarrow> Map_Get (mg_sessions g) ''a'' = Some 0 \<and> mg_closes g = [] | None \<Rightarrow> False)"
  by code_simp

text \<open>A teardown between the last comparison and the registration: the disabled server gets a session.\<close>

lemma late_teardown_missed:
  "(case mcp_execs (McpInitialize [(''a'', demo_mcp)] # take 6 (connect_run 0) @ McpDisable ''a'' # drop 6 (connect_run 0)) McpStart of
      Some g \<Rightarrow> Map_Get (mg_sessions g) ''a'' = Some 0 \<and> mg_closes g = [] | None \<Rightarrow> False)"
  by code_simp

text \<open>A listing that fails in a stale attempt closes the session of the newer one.\<close>

lemma stale_failure_closes_newer:
  "(case mcp_execs (McpInitialize [(''a'', demo_mcp)] # take 3 (connect_run 0) @ McpAction [(''a'', demo_mcp)] (''a'', ReinitStart) #
       connect_run 1 @ [McpAttempt (Some demo_mcp) (AnswerError ''e'' False) 0]) McpStart of
      Some g \<Rightarrow> Map_Get (mg_sessions g) ''a'' = None \<and> mg_closes g = [1, 0] | None \<Rightarrow> False)"
  by code_simp

text \<open>Two attempts of one generation: the first session is replaced without being closed.\<close>

lemma double_attempt_leaks:
  "(case mcp_execs (McpInitialize [(''a'', demo_mcp)] # McpInitializeSingle [(''a'', demo_mcp)] ''a'' # connect_run 0 @ connect_run 1) McpStart of
      Some g \<Rightarrow> Map_Get (mg_sessions g) ''a'' = Some 1 \<and> mg_closes g = [] \<and> mg_attempts g = [] | None \<Rightarrow> False)"
  by code_simp

text \<open>A refresh that began before the server was disabled reports it connected, with a closed session.\<close>

lemma stale_refresh_reconnects:
  "(case mcp_execs (McpInitialize [(''a'', demo_mcp)] # connect_run 0 @
       [McpRefresh ''a'', McpDisable ''a'', McpRefreshed RefreshTools None (AnswerOk [''t'']) 0]) McpStart of
      Some g \<Rightarrow> (case Map_Get (mg_states g) ''a'' of Some i \<Rightarrow> ci_state i = StateConnected \<and> ci_client i = Some 0 | None \<Rightarrow> False) \<and>
        Map_Get (mg_sessions g) ''a'' = None \<and> mg_closes g = [0] | None \<Rightarrow> False)"
  by code_simp

subsection \<open>Reconciliation\<close>

lemma Map_Get_updateState_states:
  "Map_Get (mg_states (updateState n st e c ct f g)) n' =
     (if n' = n then
        Some (let i = f ((case Map_Get (mg_states g) n of Some i \<Rightarrow> i | None \<Rightarrow> zero_info)
                \<lparr>ci_name := n, ci_state := st, ci_error := e, ci_client := c, ci_counts := ct\<rparr>)
              in if st = StateDisabled then i\<lparr>ci_config := zero_config, ci_pending := None\<rparr> else i)
      else Map_Get (mg_states g) n')"
  by (auto simp: updateState_def Let_def Map_Get_def Map_Set_def clear_lists_def take_close_def Map_Take_def closeSession_def
      update_conv' split: option.split)

lemma teardown_states [simp]: "mg_states (mcp_teardown n g) = mg_states g"
  by (simp add: mcp_teardown_def clearMCPData_def clear_lists_def take_close_def Map_Take_def closeSession_def Let_def split: option.split)

lemma launch_states [simp]: "mg_states (launch a g) = mg_states g"
  by (simp add: launch_def)

lemma smap_ok_updateState: "smap_ok (mg_states g) \<Longrightarrow> smap_ok (mg_states (updateState n st e c ct f g))"
  by (auto simp: updateState_def Let_def smap_ok_def Map_Set_def clear_lists_def take_close_def Map_Take_def closeSession_def
      split: option.split)

lemma smap_ok_apply: "smap_ok (mg_states g) \<Longrightarrow> smap_ok (mg_states (apply_action current g act))"
proof (cases act)
  case (Pair n a)
  assume ok: "smap_ok (mg_states g)"
  have "smap_ok (Map_Del (mg_states g) n)" using ok by (auto simp: smap_ok_def Map_Del_def)
  then show ?thesis
    using ok smap_ok_updateState [of "mcp_teardown n g"]
    by (cases a) (auto simp: Pair apply_action_def removeServer_def DisableSingle_def goInitClient_def Let_def split: option.split)
qed

text \<open>What an action leaves for its server, given as what a reconciliation reads.\<close>

definition settled :: "(string, mcp_config) gomap \<Rightarrow> string \<Rightarrow> reinit_action \<Rightarrow> client_info option \<Rightarrow> bool" where
  "settled current n a i \<longleftrightarrow>
     (a = ReinitRemove \<longrightarrow> i = None) \<and>
     (a = ReinitDisable \<longrightarrow> (\<exists>x. i = Some x \<and> ci_state x = StateDisabled)) \<and>
     (a = ReinitStart \<longrightarrow> map_of current n \<noteq> None \<longrightarrow> (\<exists>x. i = Some x \<and> ci_state x = StateStarting \<and> ci_pending x = map_of current n))"

lemma apply_action_states:
  "settled current n a (Map_Get (mg_states (apply_action current g (n, a))) n)"
  "n' \<noteq> n \<Longrightarrow> Map_Get (mg_states (apply_action current g (n, a))) n' = Map_Get (mg_states g) n'"
proof -
  have r: "Map_Get (mg_states (removeServer n g)) x = (if x = n then None else Map_Get (mg_states g) x)" for x
    by (simp add: removeServer_def Let_def Map_Get_def Map_Del_def delete_conv')
  have d: "\<exists>i. Map_Get (mg_states (DisableSingle n g)) n = Some i \<and> ci_state i = StateDisabled"
    by (simp add: DisableSingle_def Map_Get_updateState_states)
  have d': "x \<noteq> n \<Longrightarrow> Map_Get (mg_states (DisableSingle n g)) x = Map_Get (mg_states g) x" for x
    by (simp add: DisableSingle_def Map_Get_updateState_states)
  show "settled current n a (Map_Get (mg_states (apply_action current g (n, a))) n)"
    using d by (cases a; cases "map_of current n")
      (simp_all add: settled_def apply_action_def r goInitClient_def Map_Get_updateState_states withPending_def)
  show "n' \<noteq> n \<Longrightarrow> Map_Get (mg_states (apply_action current g (n, a))) n' = Map_Get (mg_states g) n'"
    by (cases a; cases "map_of current n")
      (simp_all add: apply_action_def r d' goInitClient_def Map_Get_updateState_states)
qed

lemma apply_actions_states:
  assumes "distinct (map fst acts)"
  shows "n \<notin> fst ` set acts \<Longrightarrow> Map_Get (mg_states (foldl (apply_action current) g acts)) n = Map_Get (mg_states g) n"
    and "(n, a) \<in> set acts \<Longrightarrow> settled current n a (Map_Get (mg_states (foldl (apply_action current) g acts)) n)"
proof -
  have same: "n \<notin> fst ` set acts \<Longrightarrow> Map_Get (mg_states (foldl (apply_action current) g acts)) n = Map_Get (mg_states g) n" for acts g
    by (induction acts arbitrary: g) (auto simp: apply_action_states(2))
  then show "n \<notin> fst ` set acts \<Longrightarrow> Map_Get (mg_states (foldl (apply_action current) g acts)) n = Map_Get (mg_states g) n" .
  show "(n, a) \<in> set acts \<Longrightarrow> settled current n a (Map_Get (mg_states (foldl (apply_action current) g acts)) n)"
    using assms
  proof (induction acts arbitrary: g)
    case (Cons x acts)
    show ?case
    proof (cases "x = (n, a)")
      case True
      with Cons.prems(2) have "n \<notin> fst ` set acts" by simp
      from same [OF this] True apply_action_states(1) [of current n a g] show ?thesis by simp
    next
      case False
      with Cons show ?thesis by simp
    qed
  qed simp
qed

lemma reconcile_iff:
  "(n, a) \<in> set (reconcile current running) \<longleftrightarrow>
     n \<in> gomap_keys running \<and> map_of current n = None \<and> a = ReinitRemove \<or>
     (\<exists>m. (n, m) \<in> set current \<and> action_for m (map_of running n) = Some a)"
proof -
  have "(\<exists>x. x \<in> set running \<and> (case x of (name, i) \<Rightarrow> if map_of current name = None then Some (name, ReinitRemove) else None) = Some (n, a)) \<longleftrightarrow>
    n \<in> gomap_keys running \<and> map_of current n = None \<and> a = ReinitRemove"
    by (auto simp: image_iff simp del: map_of_eq_None_iff split: if_splits) (metis fst_conv surj_pair)
  then show ?thesis unfolding reconcile_def set_append Un_iff in_map_filter by (auto simp del: map_of_eq_None_iff)
qed

lemma reconcile_distinct:
  assumes "gomap_ok current" and "gomap_ok running"
  shows "distinct (map fst (reconcile current running))"
proof -
  have f: "distinct (map fst (List.map_filter (\<lambda>(n, x). map_option (Pair n) (h n x)) m)) \<and>
    fst ` set (List.map_filter (\<lambda>(n, x). map_option (Pair n) (h n x)) m) \<subseteq> gomap_keys m" if "gomap_ok m"
    for h :: "string \<Rightarrow> 'x \<Rightarrow> reinit_action option" and m
    using that
  proof (induction m)
    case (Cons x m)
    obtain n y where x: "x = (n, y)" by fastforce
    from Cons show ?case by (cases "h n y") (auto simp: x List.map_filter_simps image_subset_iff in_map_filter)
  qed (simp add: List.map_filter_simps)
  let ?h = "\<lambda>n. \<lambda>_ :: client_info. if map_of current n = None then Some ReinitRemove else None"
  have r: "(\<lambda>(name, i). if map_of current name = None then Some (name, ReinitRemove) else None) =
    (\<lambda>(n, x :: client_info). map_option (Pair n) (?h n x))"
    by (auto simp: fun_eq_iff)
  have "fst ` set (List.map_filter (\<lambda>(n, x). map_option (Pair n) (?h n x)) running) \<inter> gomap_keys current = {}"
    by (force simp: in_map_filter map_of_eq_None_iff split: if_splits)
  then show ?thesis
    using f [OF assms(2), of ?h] f [OF assms(1), of "\<lambda>n m. action_for m (map_of running n)"]
    unfolding reconcile_def r map_append distinct_append set_map by blast
qed

lemma mcpConfigEqual_refl: "gomap_ok (mc_env m) \<Longrightarrow> gomap_ok (mc_headers m) \<Longrightarrow> mcpConfigEqual m m"
  by (auto simp: mcpConfigEqual_def maps_Equal_def boolPtrEqual_def list_all_iff split: option.split)

lemma Map_Copy_states:
  "Map_Copy m = inner m" "map_of (inner m) x = Map_Get m x" "x \<in> gomap_keys (inner m) \<longleftrightarrow> Map_Get m x \<noteq> None"
  by (simp_all add: Map_Copy_def Map_Get_def gomap_keys_get del: map_of_eq_None_iff)

lemma reconcile_settles:
  assumes "gomap_ok current" and "smap_ok (mg_states g)"
    and "\<forall>(n, m) \<in> set current. gomap_ok (mc_env m) \<and> gomap_ok (mc_headers m)"
    and "mset acts = mset (reconcile current (Map_Copy (mg_states g)))"
    and "g' = foldl (apply_action current) g acts"
  shows "map_of current x = None \<Longrightarrow> Map_Get (mg_states g') x = None"
    and "map_of current x = Some m \<Longrightarrow> action_for m (Map_Get (mg_states g') x) = None"
proof -
  let ?run = "\<lambda>n. Map_Get (mg_states g) n" and ?after = "\<lambda>n. Map_Get (mg_states g') n"
  have sa: "set acts = set (reconcile current (inner (mg_states g)))" using assms(4) by (metis Map_Copy_states(1) set_mset_mset)
  have "distinct (map fst (reconcile current (inner (mg_states g))))"
    using reconcile_distinct assms(1,2) by (simp add: smap_ok_def)
  then have d: "distinct (map fst acts)" using assms(4) mset_map [of fst acts] mset_map [of fst "reconcile current (inner (mg_states g))"]
    by (metis Map_Copy_states(1) mset_eq_imp_distinct_iff)
  have mem: "(x, a) \<in> set acts \<longleftrightarrow> ?run x \<noteq> None \<and> map_of current x = None \<and> a = ReinitRemove \<or>
      (\<exists>m. map_of current x = Some m \<and> action_for m (?run x) = Some a)" for x a
    unfolding sa reconcile_iff Map_Copy_states by (simp add: gomap_get_in [OF assms(1)] del: map_of_eq_None_iff map_of_eq_Some_iff)
  have fin: "(x, a) \<in> set acts \<Longrightarrow> settled current x a (?after x)" for x a
    unfolding assms(5) by (rule apply_actions_states(2) [OF d])
  have keep: "(\<And>a. (x, a) \<notin> set acts) \<Longrightarrow> ?after x = ?run x" for x
    unfolding assms(5) by (rule apply_actions_states(1) [OF d]) auto
  show "?after x = None" if "map_of current x = None"
  proof (cases "?run x")
    case None then show ?thesis using keep [of x] mem that by simp
  next
    case (Some i) then show ?thesis using fin [of x ReinitRemove] mem that by (simp add: settled_def)
  qed
  show "action_for m (?after x) = None" if m: "map_of current x = Some m"
  proof (cases "action_for m (?run x)")
    case None
    then have "(x, a) \<notin> set acts" for a using mem m by simp
    with keep None show ?thesis by simp
  next
    case (Some a)
    then have s: "settled current x a (?after x)" using fin mem m by blast
    have "(x, m) \<in> set current" using m by (rule map_of_SomeD)
    then have e: "mcpConfigEqual m m" using assms(3) by (auto intro: mcpConfigEqual_refl)
    have "a = ReinitDisable \<and> mc_disabled m \<or> a = ReinitStart \<and> \<not> mc_disabled m"
      using Some by (auto simp: action_for_def split: if_splits option.splits mcp_state.splits)
    with s e m show ?thesis by (auto simp: settled_def action_for_def)
  qed
qed

text \<open>
  C26: a reconciliation carries out its actions in any order and leaves nothing to do: run again on the same
  configuration it finds no action; a server gone from the configuration has no state left, and an enabled one is
  connecting with its configuration or connected with an equal one.
\<close>

theorem reconcile_converges:
  assumes "gomap_ok current" and "smap_ok (mg_states g)"
    and "\<forall>(n, m) \<in> set current. gomap_ok (mc_env m) \<and> gomap_ok (mc_headers m)"
    and "mset acts = mset (reconcile current (Map_Copy (mg_states g)))"
    and "g' = foldl (apply_action current) g acts"
  shows "reconcile current (Map_Copy (mg_states g')) = [] \<and>
    (map_of current n = None \<longrightarrow> Map_Get (mg_states g') n = None) \<and>
    (map_of current n = Some m \<and> \<not> mc_disabled m \<longrightarrow>
      (\<exists>i. Map_Get (mg_states g') n = Some i \<and>
         (ci_state i = StateStarting \<and> (\<exists>p. ci_pending i = Some p \<and> mcpConfigEqual p m) \<or>
          ci_state i = StateConnected \<and> mcpConfigEqual (ci_config i) m)))"
proof -
  let ?after = "\<lambda>n. Map_Get (mg_states g') n"
  note gone = reconcile_settles(1) [OF assms] and rest = reconcile_settles(2) [OF assms]
  have "(x, a) \<notin> set (reconcile current (inner (mg_states g')))" for x a
    unfolding reconcile_iff Map_Copy_states using gone rest
    by (auto simp: gomap_get_in [OF assms(1)] simp del: map_of_eq_None_iff map_of_eq_Some_iff)
  then have "reconcile current (Map_Copy (mg_states g')) = []" unfolding Map_Copy_states by (metis list.set_intros(1) neq_Nil_conv surj_pair)
  moreover have "\<exists>i. ?after n = Some i \<and>
         (ci_state i = StateStarting \<and> (\<exists>p. ci_pending i = Some p \<and> mcpConfigEqual p m) \<or>
          ci_state i = StateConnected \<and> mcpConfigEqual (ci_config i) m)" if "map_of current n = Some m \<and> \<not> mc_disabled m"
    using rest [of n m] that by (auto simp: action_for_def split: option.splits mcp_state.splits if_splits)
  ultimately show ?thesis using gone by blast
qed

theorem reconcile_converges_witness:
  "reconcile [(''b'', demo_mcp)] (Map_Copy (mg_states (reconcileOnce [(''b'', demo_mcp)] demo_registry))) = [] \<and>
   Map_Get (mg_states (reconcileOnce [(''b'', demo_mcp)] demo_registry)) ''a'' = None"
proof -
  let ?c = "[(''b'', demo_mcp)]"
  have "gomap_ok ?c" "smap_ok (mg_states demo_registry)" "\<forall>(n, m) \<in> set ?c. gomap_ok (mc_env m) \<and> gomap_ok (mc_headers m)"
    by code_simp+
  from reconcile_converges [OF this refl refl, where n = "''a''"] show ?thesis by (simp add: reconcileOnce_def)
qed

subsection \<open>Single-flighted reconciliation\<close>

definition reinit_inv :: "reinit \<Rightarrow> bool" where
  "reinit_inv r \<longleftrightarrow> rc_loops r = (if rc_running r then 1 else 0) \<and> rc_called r \<le> rc_version r \<and>
     (\<not> rc_running r \<longrightarrow> \<not> rc_dirty r \<and> rc_read r = None \<and> rc_called r \<le> rc_applied r) \<and>
     (\<forall>v. rc_read r = Some v \<longrightarrow> v \<le> rc_version r \<and> (\<not> rc_dirty r \<longrightarrow> rc_called r \<le> v))"

interpretation reinit: transition_system "\<lambda>r. r = reinit_idle" reinit_step reinit_inv
proof
  show "r = reinit_idle \<Longrightarrow> reinit_inv r" for r by (simp add: reinit_idle_def reinit_inv_def)
  show "reinit_inv r'" if "reinit_step r r'" "reinit_inv r" for r r'
    using that by cases (auto simp: reinit_inv_def config_write_def Reinitialize_enter_def reconcile_reads_def reconcile_ends_def Let_def
      split: if_splits option.splits)
qed





end
