(* ===== verification/Skills.thy ===== *)
theory Skills
  imports Go_Strings "HOL-Library.List_Lexorder" "HOL-Library.Char_ord" "HOL-Library.Product_Lexorder" "HOL-Library.Multiset"
begin

section \<open>Skills: \<^verbatim>\<open>internal/skills\<close>\<close>

text \<open>
  Parsing and validation of skill files, discovery, deduplication, the prompt, the catalog, the
  manager of a workspace and the tracker of a session.

  The YAML decoder is the argument \<open>yaml\<close>, reading a file the argument \<open>readFile\<close> (an error or the
  bytes), \<^verbatim>\<open>strings.ToLower\<close> and \<^verbatim>\<open>strings.EqualFold\<close> beyond ASCII the arguments \<open>lower\<close> and \<open>foldEq\<close>,
  the home directory \<open>homedir\<close>. What a walk of a directory delivers is a list of entries. Skills and
  states are immutable once made, so a pointer is its value. Log lines are left out.
\<close>

subsection \<open>Skills and their validation\<close>

record skill =
  sk_name :: string
  sk_description :: string
  sk_user_invocable :: bool
  sk_disable_model :: bool
  sk_license :: string
  sk_compatibility :: string
  sk_metadata :: "(string, string) gomap"
  sk_instructions :: string
  sk_path :: string
  sk_file :: string
  sk_builtin :: bool

datatype discovery_state = DiscoveryNormal | DiscoveryError

record skill_state =
  ss_name :: string
  ss_path :: string
  ss_state :: discovery_state
  ss_err :: "string option"

definition SkillFileName :: string where "SkillFileName = ''SKILL.md''"
definition MaxNameLength :: nat where "MaxNameLength = 64"
definition MaxSkillDescriptionLength :: nat where "MaxSkillDescriptionLength = 1024"
definition MaxCompatibilityLength :: nat where "MaxCompatibilityLength = 500"

definition is_alnum :: "char \<Rightarrow> bool" where
  "is_alnum c \<longleftrightarrow> (let n = (of_char c :: nat) in 48 \<le> n \<and> n \<le> 57 \<or> 65 \<le> n \<and> n \<le> 90 \<or> 97 \<le> n \<and> n \<le> 122)"

text \<open>The automaton of \<^verbatim>\<open>^[a-zA-Z0-9]+(-[a-zA-Z0-9]+)*$\<close>; the flag says that the string may end here.\<close>

fun name_run :: "bool \<Rightarrow> string \<Rightarrow> bool" where
  "name_run ok [] \<longleftrightarrow> ok"
| "name_run ok (c # cs) \<longleftrightarrow> (if is_alnum c then name_run True cs else ok \<and> c = CHR ''-'' \<and> name_run False cs)"

definition namePattern :: "string \<Rightarrow> bool" where
  "namePattern s \<longleftrightarrow> name_run False s"

definition Validate_skill :: "skill \<Rightarrow> string option" where
  "Validate_skill s =
     (let errs =
        (if sk_name s = [] then [''name is required'']
         else (if length (sk_name s) > MaxNameLength then [''name exceeds 64 characters''] else []) @
              (if \<not> namePattern (sk_name s)
               then [''name must be alphanumeric with hyphens, no leading/trailing/consecutive hyphens''] else [])) @
        (if sk_description s = [] then [''description is required'']
         else if length (sk_description s) > MaxSkillDescriptionLength then [''description exceeds 1024 characters''] else []) @
        (if length (sk_compatibility s) > MaxCompatibilityLength then [''compatibility exceeds 500 characters''] else [])
      in if errs = [] then None else Some (str_join [NL] errs))"

subsection \<open>Parsing\<close>

definition BOM :: string where
  "BOM = [char_of (0xEF :: nat), char_of (0xBB :: nat), char_of (0xBF :: nat)]"

abbreviation CR :: char where "CR \<equiv> char_of (13 :: nat)"

definition normalize_newlines :: "string \<Rightarrow> string" where
  "normalize_newlines content = str_replace_all (str_replace_all content [CR, NL] [NL]) [CR] [NL]"

definition splitFrontmatter :: "string \<Rightarrow> string + string \<times> string" where
  "splitFrontmatter content =
     (let lines = str_split (normalize_newlines (str_trim_prefix content BOM)) [NL] in
      case IndexFunc (\<lambda>line. trim_space line \<noteq> []) lines of
        None \<Rightarrow> Inl ''no YAML frontmatter found''
      | Some start \<Rightarrow>
          if trim_space (lines ! start) \<noteq> ''---'' then Inl ''no YAML frontmatter found''
          else
            (let rest = drop (start + 1) lines in
             case IndexFunc (\<lambda>line. trim_space line = ''---'') rest of
               None \<Rightarrow> Inl ''unclosed frontmatter''
             | Some endOffset \<Rightarrow> Inr (str_join [NL] (take endOffset rest), str_join [NL] (drop (endOffset + 1) rest))))"

definition ParseContent :: "(string \<Rightarrow> string + skill) \<Rightarrow> string \<Rightarrow> string + skill" where
  "ParseContent yaml content =
     (case splitFrontmatter content of
        Inl e \<Rightarrow> Inl e
      | Inr (frontmatter, body) \<Rightarrow>
          (case yaml frontmatter of
             Inl e \<Rightarrow> Inl (''parsing frontmatter: '' @ e)
           | Inr sk \<Rightarrow> Inr (sk\<lparr>sk_instructions := trim_space body\<rparr>)))"

definition Parse_skill :: "(string \<Rightarrow> string + string) \<Rightarrow> (string \<Rightarrow> string + skill) \<Rightarrow> string \<Rightarrow> string + skill" where
  "Parse_skill readFile yaml path =
     (case readFile path of
        Inl e \<Rightarrow> Inl e
      | Inr content \<Rightarrow>
          (case ParseContent yaml content of
             Inl e \<Rightarrow> Inl e
           | Inr sk \<Rightarrow> Inr (sk\<lparr>sk_path := filepath_Dir path, sk_file := path\<rparr>)))"

subsection \<open>Discovery\<close>

text \<open>What a parsed or failed file contributes; a file that is not strict fails silently.\<close>

definition load_outcome :: "(string \<Rightarrow> string + string) \<Rightarrow> (string \<Rightarrow> string + skill) \<Rightarrow> string \<times> bool \<Rightarrow> skill option \<times> skill_state option" where
  "load_outcome readFile yaml =
     (\<lambda>(path, strict).
        (case Parse_skill readFile yaml path of
           Inl e \<Rightarrow>
             (None, if strict then Some \<lparr>ss_name = [], ss_path = path, ss_state = DiscoveryError, ss_err = Some e\<rparr> else None)
         | Inr sk \<Rightarrow>
             (case Validate_skill sk of
                Some e \<Rightarrow>
                  (None, if strict then Some \<lparr>ss_name = sk_name sk, ss_path = path, ss_state = DiscoveryError, ss_err = Some e\<rparr> else None)
              | None \<Rightarrow> (Some sk, Some \<lparr>ss_name = sk_name sk, ss_path = path, ss_state = DiscoveryNormal, ss_err = None\<rparr>))))"

text \<open>
  The walk calls back from several goroutines: a task is a call of \<^verbatim>\<open>load\<close> and its locked sections are
  steps: claiming the path, appending the skill, appending the state.
\<close>

datatype load_task = LoadClaim string bool | LoadSkill skill "skill_state option" | LoadState skill_state

record discovery =
  dc_seen :: "string list"
  dc_skills :: "skill list"
  dc_states :: "skill_state list"
  dc_tasks :: "load_task list"

definition task_done :: "nat \<Rightarrow> discovery \<Rightarrow> discovery" where
  "task_done k d = d\<lparr>dc_tasks := take k (dc_tasks d) @ drop (Suc k) (dc_tasks d)\<rparr>"

definition task_goes_on :: "nat \<Rightarrow> skill option \<times> skill_state option \<Rightarrow> discovery \<Rightarrow> discovery" where
  "task_goes_on k out d =
     (case out of
        (Some sk, st) \<Rightarrow> d\<lparr>dc_tasks := (dc_tasks d)[k := LoadSkill sk st]\<rparr>
      | (None, Some st) \<Rightarrow> d\<lparr>dc_tasks := (dc_tasks d)[k := LoadState st]\<rparr>
      | (None, None) \<Rightarrow> task_done k d)"

definition load_step :: "(string \<Rightarrow> string + string) \<Rightarrow> (string \<Rightarrow> string + skill) \<Rightarrow> nat \<Rightarrow> discovery \<Rightarrow> discovery option" where
  "load_step readFile yaml k d =
     (if k < length (dc_tasks d) then
        Some (case dc_tasks d ! k of
            LoadClaim path strict \<Rightarrow>
              if path \<in> set (dc_seen d) then task_done k d
              else task_goes_on k (load_outcome readFile yaml (path, strict)) (d\<lparr>dc_seen := path # dc_seen d\<rparr>)
          | LoadSkill sk st \<Rightarrow> task_goes_on k (None, st) (d\<lparr>dc_skills := dc_skills d @ [sk]\<rparr>)
          | LoadState st \<Rightarrow> task_done k (d\<lparr>dc_states := dc_states d @ [st]\<rparr>))
      else None)"

text \<open>
  What the goroutines are started for. A file given as a base and an entry of a walk are loaded
  strictly when they are named as the standard says; the second result of a callback skips the
  directory.
\<close>

definition isAgentsSkillsRoot :: "(string \<Rightarrow> string \<Rightarrow> bool) \<Rightarrow> string \<Rightarrow> bool" where
  "isAgentsSkillsRoot foldEq path \<longleftrightarrow>
     (let clean = filepath_Clean path
      in foldEq (filepath_Base clean) ''skills'' \<and> foldEq (filepath_Base (filepath_Dir clean)) ''.agents'')"

definition skillCandidate :: "(string \<Rightarrow> string \<Rightarrow> bool) \<Rightarrow> string \<Rightarrow> string \<Rightarrow> bool \<Rightarrow> bool \<times> bool" where
  "skillCandidate foldEq base path isDir =
     (if isDir then (False, False)
      else if foldEq (filepath_Base path) SkillFileName then (True, True)
      else if \<not> foldEq (filepath_Ext (filepath_Base path)) ''.md'' then (False, False)
      else
        (case filepath_Rel base path of
           None \<Rightarrow> (False, False)
         | Some rel \<Rightarrow>
             (let nested = filepath_Dir rel \<noteq> ''.''
              in if isAgentsSkillsRoot foldEq base then (nested, False) else (\<not> nested, False))))"

definition walk_error :: "string \<Rightarrow> string \<Rightarrow> load_task" where
  "walk_error path e = LoadState \<lparr>ss_name = [], ss_path = path, ss_state = DiscoveryError, ss_err = Some e\<rparr>"

definition walk_callback :: "(string \<Rightarrow> string \<Rightarrow> bool) \<Rightarrow> string \<Rightarrow> string \<Rightarrow> bool \<Rightarrow> string option \<Rightarrow> load_task option \<times> bool" where
  "walk_callback foldEq base path isDir err =
     (case err of
        Some e \<Rightarrow> (Some (walk_error path e), False)
      | None \<Rightarrow>
          if isDir \<and> filepath_Base path = ''.archive'' then (None, True)
          else
            (let (candidate, strict) = skillCandidate foldEq base path isDir
             in (if candidate then Some (LoadClaim path strict) else None, False)))"

text \<open>\<open>Inl\<close> is an error of \<^verbatim>\<open>os.Stat\<close> (with whether the file is missing), \<open>Inr\<close> says whether the base is a directory.\<close>

definition base_task :: "(string \<Rightarrow> string \<Rightarrow> bool) \<Rightarrow> string \<Rightarrow> string \<times> bool + bool \<Rightarrow> load_task option" where
  "base_task foldEq base stat =
     (case stat of
        Inr isDir \<Rightarrow>
          if \<not> isDir \<and> foldEq (filepath_Ext base) ''.md''
          then Some (LoadClaim base (foldEq (filepath_Base base) SkillFileName)) else None
      | Inl (e, missing) \<Rightarrow> if missing then None else Some (walk_error base e))"

inductive discovery_step :: "(string \<Rightarrow> string \<Rightarrow> bool) \<Rightarrow> (string \<Rightarrow> string + string) \<Rightarrow> (string \<Rightarrow> string + skill) \<Rightarrow>
    discovery \<Rightarrow> discovery \<Rightarrow> bool"
  for foldEq readFile yaml where
  load: "load_step readFile yaml k d = Some d' \<Longrightarrow> discovery_step foldEq readFile yaml d d'"
| callback: "fst (walk_callback foldEq base path isDir err) = Some t \<Longrightarrow>
    discovery_step foldEq readFile yaml d (d\<lparr>dc_tasks := dc_tasks d @ [t]\<rparr>)"
| base: "base_task foldEq base stat = Some t \<Longrightarrow>
    discovery_step foldEq readFile yaml d (d\<lparr>dc_tasks := dc_tasks d @ [t]\<rparr>)"

definition discovery_start :: discovery where
  "discovery_start = \<lparr>dc_seen = [], dc_skills = [], dc_states = [], dc_tasks = []\<rparr>"

definition skill_key :: "(string \<Rightarrow> string) \<Rightarrow> skill \<Rightarrow> string \<times> string" where
  "skill_key lower s = (lower (sk_path s), lower (sk_name s))"

definition discovered :: "(string \<Rightarrow> string) \<Rightarrow> discovery \<Rightarrow> skill list \<times> skill_state list" where
  "discovered lower d = (sort_key (skill_key lower) (dc_skills d), sort_key (\<lambda>s. lower (ss_path s)) (dc_states d))"

subsection \<open>Built-in skills\<close>

definition BuiltinPrefix :: string where "BuiltinPrefix = ''tack://skills/''"

text \<open>One entry of the embedded file system: its path, whether it is a directory, its content.\<close>

definition builtin_entry :: "(string \<Rightarrow> string + skill) \<Rightarrow> string \<times> bool \<times> (string + string) \<Rightarrow> skill list \<times> skill_state list" where
  "builtin_entry yaml =
     (\<lambda>(path, isDir, content).
        if isDir \<or> filepath_Base path \<noteq> SkillFileName then ([], [])
        else
          (case content of
             Inl e \<Rightarrow> ([], [\<lparr>ss_name = [], ss_path = path, ss_state = DiscoveryError, ss_err = Some e\<rparr>])
           | Inr c \<Rightarrow>
               (case ParseContent yaml c of
                  Inl e \<Rightarrow> ([], [\<lparr>ss_name = [], ss_path = path, ss_state = DiscoveryError, ss_err = Some e\<rparr>])
                | Inr sk \<Rightarrow>
                    (let rel = (case filepath_Rel ''builtin'' path of Some r \<Rightarrow> r | None \<Rightarrow> []);
                         sk = sk\<lparr>sk_file := BuiltinPrefix @ rel, sk_path := BuiltinPrefix @ filepath_Dir rel, sk_builtin := True\<rparr>
                     in case Validate_skill sk of
                          Some e \<Rightarrow> ([], [\<lparr>ss_name = sk_name sk, ss_path = path, ss_state = DiscoveryError, ss_err = Some e\<rparr>])
                        | None \<Rightarrow> ([sk], [\<lparr>ss_name = sk_name sk, ss_path = sk_file sk, ss_state = DiscoveryNormal, ss_err = None\<rparr>])))))"

definition DiscoverBuiltinWithStates ::
  "(string \<Rightarrow> string + skill) \<Rightarrow> (string \<times> bool \<times> (string + string)) list \<Rightarrow> skill list \<times> skill_state list" where
  "DiscoverBuiltinWithStates yaml entries =
     (concat (map (fst \<circ> builtin_entry yaml) entries), concat (map (snd \<circ> builtin_entry yaml) entries))"

subsection \<open>Deduplication and filtering\<close>

text \<open>The map from a name to its last index.\<close>

definition last_index :: "('a \<Rightarrow> string) \<Rightarrow> 'a list \<Rightarrow> (string, nat) gomap" where
  "last_index name xs = foldl (\<lambda>m (i, x). AList.update (name x) i m) [] (enumerate 0 xs)"

definition Deduplicate :: "skill list \<Rightarrow> skill list" where
  "Deduplicate xs = map snd (filter (\<lambda>(i, s). map_of (last_index sk_name xs) (sk_name s) = Some i) (enumerate 0 xs))"

definition DeduplicateStates :: "skill_state list \<Rightarrow> skill_state list" where
  "DeduplicateStates xs =
     (let seen = foldl (\<lambda>m (i, s). if ss_name s \<noteq> [] then AList.update (ss_name s) i m else m) [] (enumerate 0 xs)
      in map snd (filter (\<lambda>(i, s). ss_name s = [] \<or> map_of seen (ss_name s) = Some i) (enumerate 0 xs)))"

definition Filter_skills :: "skill list \<Rightarrow> string list \<Rightarrow> skill list" where
  "Filter_skills xs disabled = (if disabled = [] then xs else filter (\<lambda>s. sk_name s \<notin> set disabled) xs)"

definition home_Long :: "string \<Rightarrow> string \<Rightarrow> string" where
  "home_Long homedir p = (if homedir = [] \<or> \<not> str_prefix ''~'' p then p else homedir @ drop 1 p)"

record discovery_config =
  dg_paths :: "string list"
  dg_disabled :: "string list"
  dg_working_dir :: string
  dg_resolver :: "(string \<Rightarrow> string + string) option"

definition ResolvePaths :: "string \<Rightarrow> discovery_config \<Rightarrow> string list" where
  "ResolvePaths homedir c =
     map (\<lambda>pth.
       (let expanded = home_Long homedir pth in
        case dg_resolver c of
          Some f \<Rightarrow> if str_prefix ''$'' expanded then (case f expanded of Inr r \<Rightarrow> r | Inl _ \<Rightarrow> expanded) else expanded
        | None \<Rightarrow> expanded)) (dg_paths c)"

text \<open>\<^verbatim>\<open>DiscoverFromConfig\<close>, given what the two discoveries found.\<close>

definition DiscoverFromConfig ::
  "(string \<Rightarrow> string) \<Rightarrow> skill list \<times> skill_state list \<Rightarrow> (string list \<Rightarrow> skill list \<times> skill_state list) \<Rightarrow> string \<Rightarrow> discovery_config \<Rightarrow>
   skill list \<times> skill list \<times> skill_state list" where
  "DiscoverFromConfig lower builtin walk homedir cfg =
     (let userPaths = ResolvePaths homedir cfg;
          user = (if userPaths \<noteq> [] then walk userPaths else ([], []));
          allSkills = Deduplicate (fst builtin @ fst user)
      in (allSkills, Filter_skills allSkills (dg_disabled cfg),
          sort_key (\<lambda>s. lower (ss_path s)) (DeduplicateStates (snd builtin @ snd user))))"

subsection \<open>The prompt\<close>

definition escape_char :: "char \<Rightarrow> string" where
  "escape_char c =
     (if c = CHR ''&'' then ''&amp;'' else if c = CHR ''<'' then ''&lt;'' else if c = CHR ''>'' then ''&gt;''
      else if c = char_of (34 :: nat) then ''&quot;'' else if c = char_of (39 :: nat) then ''&apos;'' else [c])"

definition escape :: "string \<Rightarrow> string" where
  "escape s = concat (map escape_char s)"

definition skill_entry :: "skill \<Rightarrow> string" where
  "skill_entry s =
     ''  <skill>'' @ [NL] @
     ''    <name>'' @ escape (sk_name s) @ ''</name>'' @ [NL] @
     ''    <description>'' @ escape (sk_description s) @ ''</description>'' @ [NL] @
     ''    <location>'' @ escape (sk_file s) @ ''</location>'' @ [NL] @
     (if sk_builtin s then ''    <type>builtin</type>'' @ [NL] else []) @
     ''  </skill>'' @ [NL]"

definition ToPromptXML :: "skill list \<Rightarrow> string" where
  "ToPromptXML skills =
     (if skills = [] then []
      else ''<available_skills>'' @ [NL] @ concat (map skill_entry (filter (\<lambda>s. \<not> sk_disable_model s) skills)) @ ''</available_skills>'')"

definition FormatInvocation :: "skill \<Rightarrow> string" where
  "FormatInvocation s =
     ''<loaded_skill>'' @ [NL] @
     ''  <name>'' @ escape (sk_name s) @ ''</name>'' @ [NL] @
     ''  <description>'' @ escape (sk_description s) @ ''</description>'' @ [NL] @
     ''  <location>'' @ escape (sk_file s) @ ''</location>'' @ [NL] @
     ''  <instructions>'' @ [NL] @ escape (sk_instructions s) @ [NL] @ ''  </instructions>'' @ [NL] @
     ''</loaded_skill>''"

definition ApproxTokenCount :: "string \<Rightarrow> nat" where
  "ApproxTokenCount s = (if s = [] then 0 else (length s + 3) div 4)"

subsection \<open>The catalog\<close>

text \<open>The quoted identifier inside the error messages of \<^verbatim>\<open>ReadContent\<close> is left out.\<close>

datatype source_type = SourceSystem | SourceUser | SourceProject

fun source_name :: "source_type \<Rightarrow> string" where
  "source_name SourceSystem = ''system''"
| "source_name SourceUser = ''user''"
| "source_name SourceProject = ''project''"

record catalog_entry =
  ce_id :: string
  ce_name :: string
  ce_description :: string
  ce_label :: string
  ce_source :: source_type
  ce_user_invocable :: bool

definition escapesParent :: "string \<Rightarrow> bool" where
  "escapesParent rel \<longleftrightarrow> rel = ''..'' \<or> str_prefix ''../'' rel"

text \<open>\<open>absPath\<close> is \<^verbatim>\<open>filepath.Abs\<close>.\<close>

definition isProjectSkillPath :: "(string \<Rightarrow> string option) \<Rightarrow> string \<Rightarrow> string \<Rightarrow> bool" where
  "isProjectSkillPath absPath basePath workingDir \<longleftrightarrow>
     workingDir \<noteq> [] \<and>
     (case absPath basePath of
        None \<Rightarrow> False
      | Some absBase \<Rightarrow>
          (case absPath workingDir of
             None \<Rightarrow> False
           | Some absWD \<Rightarrow>
               (case filepath_Rel (filepath_Clean absWD) (filepath_Clean absBase) of
                  None \<Rightarrow> False
                | Some rel \<Rightarrow> \<not> escapesParent rel)))"

fun label_under :: "(string \<Rightarrow> string option) \<Rightarrow> string \<Rightarrow> string \<Rightarrow> string list \<Rightarrow> string \<times> source_type" where
  "label_under absPath workingDir cleanFile [] = (''user:'' @ filepath_Base (filepath_Dir cleanFile), SourceUser)"
| "label_under absPath workingDir cleanFile (base # bases) =
     (let cleanBase = filepath_Clean base in
      case filepath_Rel cleanBase cleanFile of
        None \<Rightarrow> label_under absPath workingDir cleanFile bases
      | Some rel \<Rightarrow>
          if escapesParent rel then label_under absPath workingDir cleanFile bases
          else
            (let source = (if isProjectSkillPath absPath cleanBase workingDir then SourceProject else SourceUser)
             in (source_name source @ '':'' @ filepath_Base (filepath_Dir cleanFile), source)))"

definition skillLabel :: "(string \<Rightarrow> string option) \<Rightarrow> string list \<Rightarrow> string \<Rightarrow> skill \<Rightarrow> string \<times> source_type" where
  "skillLabel absPath skillPaths workingDir s =
     (if sk_builtin s then (''system:'' @ sk_name s, SourceSystem)
      else label_under absPath workingDir (filepath_Clean (sk_file s)) skillPaths)"

definition Catalog :: "(string \<Rightarrow> string option) \<Rightarrow> skill list \<Rightarrow> string list \<Rightarrow> string \<Rightarrow> catalog_entry list" where
  "Catalog absPath active skillPaths workingDir =
     map (\<lambda>s.
       (let (label, source) = skillLabel absPath skillPaths workingDir s
        in \<lparr>ce_id = sk_file s, ce_name = sk_name s, ce_description = sk_description s, ce_label = label, ce_source = source,
            ce_user_invocable = sk_user_invocable s\<rparr>)) active"

definition FindEffective :: "skill list \<Rightarrow> string \<Rightarrow> string + skill" where
  "FindEffective active skillID =
     (case find (\<lambda>s. sk_file s = skillID) active of Some s \<Rightarrow> Inr s | None \<Rightarrow> Inl (''skill not found: '' @ skillID))"

record skill_read =
  sr_name :: string
  sr_description :: string
  sr_source :: source_type
  sr_builtin :: bool

definition ReadContent ::
  "(string \<Rightarrow> string option) \<Rightarrow> (string \<Rightarrow> string + string) \<Rightarrow> (string \<Rightarrow> string + string) \<Rightarrow> skill list \<Rightarrow> string list \<Rightarrow> string \<Rightarrow> string \<Rightarrow>
   string + string \<times> skill_read" where
  "ReadContent absPath embedded readFile active skillPaths workingDir skillID =
     (case FindEffective active skillID of
        Inl e \<Rightarrow> Inl e
      | Inr s \<Rightarrow>
          (let result = \<lparr>sr_name = sk_name s, sr_description = sk_description s,
                         sr_source = snd (skillLabel absPath skillPaths workingDir s), sr_builtin = sk_builtin s\<rparr>
           in if sk_builtin s then
                (case embedded (''builtin/'' @ str_trim_prefix (sk_file s) BuiltinPrefix) of
                   Inl e \<Rightarrow> Inl (''read builtin skill: '' @ e) | Inr c \<Rightarrow> Inr (c, result))
              else (case readFile (sk_file s) of Inl e \<Rightarrow> Inl (''read skill: '' @ e) | Inr c \<Rightarrow> Inr (c, result))))"

subsection \<open>The manager\<close>

text \<open>
  \<^verbatim>\<open>Refresh\<close> swaps the snapshot under the lock and publishes afterwards, so the two halves are
  separate operations. \<open>sm_events\<close> are the events handed to the broker.
\<close>

record skill_manager =
  sm_all :: "skill list"
  sm_active :: "skill list"
  sm_states :: "skill_state list"
  sm_paths :: "string list"
  sm_working_dir :: string
  sm_events :: "skill_state list list"

definition NewManager :: "skill list \<Rightarrow> skill list \<Rightarrow> skill_state list \<Rightarrow> string list \<Rightarrow> string \<Rightarrow> skill_manager" where
  "NewManager allSkills active states paths dir =
     \<lparr>sm_all = allSkills, sm_active = active, sm_states = states, sm_paths = paths, sm_working_dir = dir, sm_events = []\<rparr>"

definition Refresh_swap ::
  "skill list \<times> skill list \<times> skill_state list \<Rightarrow> string list \<Rightarrow> string \<Rightarrow> skill_manager \<Rightarrow> bool \<times> skill_manager" where
  "Refresh_swap found paths dir m =
     (case found of
        (allSkills, active, states) \<Rightarrow>
          (let changed = (sm_all m \<noteq> allSkills \<or> sm_active m \<noteq> active \<or> sm_states m \<noteq> states \<or> sm_paths m \<noteq> paths \<or> sm_working_dir m \<noteq> dir)
           in (changed,
               if changed then m\<lparr>sm_all := allSkills, sm_active := active, sm_states := states, sm_paths := paths, sm_working_dir := dir\<rparr>
               else m)))"

definition SetLatestStates :: "skill_state list \<Rightarrow> skill_manager \<Rightarrow> skill_manager" where
  "SetLatestStates states m = m\<lparr>sm_states := states\<rparr>"

definition PublishStates :: "skill_state list \<Rightarrow> skill_manager \<Rightarrow> skill_manager" where
  "PublishStates states m = (SetLatestStates states m)\<lparr>sm_events := sm_events m @ [states]\<rparr>"

definition Refresh_skills ::
  "skill list \<times> skill list \<times> skill_state list \<Rightarrow> string list \<Rightarrow> string \<Rightarrow> skill_manager \<Rightarrow> bool \<times> skill_manager" where
  "Refresh_skills found paths dir m =
     (let (changed, m) = Refresh_swap found paths dir m
      in if \<not> changed then (False, m) else (True, PublishStates (snd (snd found)) m))"

subsection \<open>The tracker\<close>

record skill_tracker =
  st_loaded :: "(string, bool) gomap"
  st_active :: "(string, bool) gomap"

definition name_set :: "skill list \<Rightarrow> (string, bool) gomap" where
  "name_set skills = foldl (\<lambda>m s. AList.update (sk_name s) True m) [] skills"

text \<open>Reading a Go map of booleans: an absent key reads false.\<close>

definition map_true :: "(string, bool) gomap \<Rightarrow> string \<Rightarrow> bool" where
  "map_true m n \<longleftrightarrow> (case map_of m n of Some b \<Rightarrow> b | None \<Rightarrow> False)"

definition NewTracker :: "skill list \<Rightarrow> skill_tracker" where
  "NewTracker active = \<lparr>st_loaded = [], st_active = name_set active\<rparr>"

definition SetActiveSkills :: "skill list \<Rightarrow> skill_tracker \<Rightarrow> skill_tracker" where
  "SetActiveSkills active t =
     (let activeNames = name_set active
      in t\<lparr>st_active := activeNames, st_loaded := filter (\<lambda>(n, _). map_true activeNames n) (st_loaded t)\<rparr>)"

definition MarkLoaded :: "string \<Rightarrow> skill_tracker \<Rightarrow> skill_tracker" where
  "MarkLoaded n t = (if map_true (st_active t) n then t\<lparr>st_loaded := AList.update n True (st_loaded t)\<rparr> else t)"

definition IsLoaded :: "skill_tracker \<Rightarrow> string \<Rightarrow> bool" where
  "IsLoaded t n \<longleftrightarrow> map_true (st_loaded t) n"

definition LoadedNames :: "skill_tracker \<Rightarrow> string list" where
  "LoadedNames t = sort (map fst (st_loaded t))"

definition LoadedCount :: "skill_tracker \<Rightarrow> nat" where
  "LoadedCount t = length (st_loaded t)"

end
