(* ===== verification/Skills_Props.thy ===== *)
theory Skills_Props
  imports Skills Csync
begin

section \<open>Properties of skills\<close>

text \<open>
  Names, front matter, the order in which files are found, deduplication, the prompt, the manager and
  the tracker.
\<close>

subsection \<open>Names\<close>

lemma str_split_char_step:
  "str_split (d # s) [c] = (if d = c then [] # str_split s [c] else (d # hd (str_split s [c])) # tl (str_split s [c]))"
proof (cases "c \<in> set s")
  case True
  then obtain x y where s: "s = x @ c # y" "c \<notin> set x" by (meson split_list_first)
  show ?thesis
    using str_split_char_Cons [of c "[]" s] str_split_char_Cons [OF s(2), of y] str_split_char_Cons [of c "d # x" y] s by auto
next
  case False
  then show ?thesis
    using str_split_char_Cons [of c "[]" s] str_split_char_None [of c s] str_split_char_None [of c "d # s"] by auto
qed

lemma name_run_split:
  "name_run ok s \<longleftrightarrow> (ok \<or> hd (str_split s ''-'') \<noteq> []) \<and> list_all is_alnum (hd (str_split s ''-'')) \<and>
     (\<forall>p\<in>set (tl (str_split s ''-'')). p \<noteq> [] \<and> list_all is_alnum p)"
proof (induction s arbitrary: ok)
  case Nil
  then show ?case by (simp add: str_split_char_None)
next
  case (Cons c s)
  obtain p ps where sp: "str_split s ''-'' = p # ps" by (meson neq_Nil_conv str_split_nonempty list.distinct(1))
  have "\<not> is_alnum CHR ''-''" by code_simp
  with Cons show ?case by (auto simp: str_split_char_step sp)
qed

lemma namePattern_parts:
  "namePattern s \<longleftrightarrow> (\<forall>p\<in>set (str_split s ''-''). p \<noteq> [] \<and> list_all is_alnum p)"
proof -
  obtain p ps where "str_split s ''-'' = p # ps" by (meson neq_Nil_conv str_split_nonempty list.distinct(1))
  then show ?thesis by (auto simp: namePattern_def name_run_split)
qed

text \<open>
  A skill passes validation exactly when its name consists of non-empty alphanumeric parts joined by hyphens
  and the name, the description and the compatibility note are within their bounds.
\<close>

theorem skill_validation_exact:
  "Validate_skill s = None \<longleftrightarrow>
     list_all (\<lambda>p. p \<noteq> [] \<and> list_all is_alnum p) (str_split (sk_name s) ''-'') \<and> length (sk_name s) \<le> 64 \<and>
     1 \<le> length (sk_description s) \<and> length (sk_description s) \<le> 1024 \<and> length (sk_compatibility s) \<le> 500"
proof -
  have "\<not> namePattern []" by (simp add: namePattern_def)
  then show ?thesis
    by (auto simp: Validate_skill_def Let_def MaxNameLength_def MaxSkillDescriptionLength_def MaxCompatibilityLength_def
        namePattern_parts list_all_iff Suc_le_eq)
qed

subsection \<open>Front matter\<close>

lemma IndexFunc_Some:
  "IndexFunc p xs = Some i \<longleftrightarrow> (\<exists>us x vs. xs = us @ x # vs \<and> length us = i \<and> (\<forall>u\<in>set us. \<not> p u) \<and> p x)"
proof
  assume "IndexFunc p xs = Some i"
  then have e: "list_ex p xs" and i: "i = length (takeWhile (\<lambda>x. \<not> p x) xs)" by (auto simp: IndexFunc_def split: if_splits)
  from e have "dropWhile (\<lambda>x. \<not> p x) xs \<noteq> []" by (auto simp: list_ex_iff)
  then obtain x vs where d: "dropWhile (\<lambda>x. \<not> p x) xs = x # vs" unfolding neq_Nil_conv by blast
  then have "p x" using hd_dropWhile [of "\<lambda>x. \<not> p x" xs] by simp
  moreover have "xs = takeWhile (\<lambda>x. \<not> p x) xs @ x # vs" using takeWhile_dropWhile_id [of "\<lambda>x. \<not> p x" xs] d by simp
  ultimately show "\<exists>us x vs. xs = us @ x # vs \<and> length us = i \<and> (\<forall>u\<in>set us. \<not> p u) \<and> p x"
    using i by (metis set_takeWhileD)
next
  assume "\<exists>us x vs. xs = us @ x # vs \<and> length us = i \<and> (\<forall>u\<in>set us. \<not> p u) \<and> p x"
  then obtain us x vs where x: "xs = us @ x # vs" "length us = i" "\<forall>u\<in>set us. \<not> p u" "p x" by blast
  then have "takeWhile (\<lambda>x. \<not> p x) xs = us" by (simp add: takeWhile_append2)
  with x show "IndexFunc p xs = Some i" by (simp add: IndexFunc_def)
qed

definition skill_lines :: "string \<Rightarrow> string list" where
  "skill_lines content = str_split (normalize_newlines (str_trim_prefix content BOM)) [NL]"

text \<open>
  A skill file has front matter exactly when its lines are some blank lines, a line of three hyphens, the front
  matter without such a line, another such line, and the body; blanks around the hyphens do not count.
\<close>

theorem frontmatter_exact:
  "splitFrontmatter content = Inr (frontmatter, body) \<longleftrightarrow>
     (\<exists>blank opening fm closing rest.
        skill_lines content = blank @ opening # fm @ closing # rest \<and> list_all (\<lambda>l. trim_space l = []) blank \<and>
        trim_space opening = ''---'' \<and> list_all (\<lambda>l. trim_space l \<noteq> ''---'') fm \<and> trim_space closing = ''---'' \<and>
        frontmatter = str_join [NL] fm \<and> body = str_join [NL] rest)" (is "?l \<longleftrightarrow> ?r")
proof
  assume ?l
  then obtain i j where i: "IndexFunc (\<lambda>line. trim_space line \<noteq> []) (skill_lines content) = Some i"
    and op: "trim_space (skill_lines content ! i) = ''---''"
    and j: "IndexFunc (\<lambda>line. trim_space line = ''---'') (drop (i + 1) (skill_lines content)) = Some j"
    and f: "frontmatter = str_join [NL] (take j (drop (i + 1) (skill_lines content)))"
    and b: "body = str_join [NL] (drop (j + 1) (drop (i + 1) (skill_lines content)))"
    unfolding splitFrontmatter_def Let_def skill_lines_def [symmetric] by (auto split: option.splits if_splits)
  from i obtain us x vs where x: "skill_lines content = us @ x # vs" "length us = i" "\<forall>u\<in>set us. trim_space u = []"
    unfolding IndexFunc_Some by auto
  then have d: "drop (i + 1) (skill_lines content) = vs" and "skill_lines content ! i = x" by auto
  from j obtain fm y ws where y: "vs = fm @ y # ws" "length fm = j" "\<forall>u\<in>set fm. trim_space u \<noteq> ''---''" "trim_space y = ''---''"
    unfolding d IndexFunc_Some by auto
  show ?r
    by (rule exI [of _ us], rule exI [of _ x], rule exI [of _ fm], rule exI [of _ y], rule exI [of _ ws])
       (use x y d f b op in \<open>auto simp: list_all_iff\<close>)
next
  assume ?r
  then obtain us x fm y ws where e: "skill_lines content = us @ x # fm @ y # ws" "\<forall>l\<in>set us. trim_space l = []"
      "trim_space x = ''---''" "\<forall>l\<in>set fm. trim_space l \<noteq> ''---''" "trim_space y = ''---''"
      "frontmatter = str_join [NL] fm" "body = str_join [NL] ws"
    by (auto simp: list_all_iff)
  have i: "IndexFunc (\<lambda>line. trim_space line \<noteq> []) (skill_lines content) = Some (length us)"
    unfolding IndexFunc_Some by (rule exI [of _ us], rule exI [of _ x]) (use e in auto)
  have j: "IndexFunc (\<lambda>line. trim_space line = ''---'') (fm @ y # ws) = Some (length fm)"
    unfolding IndexFunc_Some by (rule exI [of _ fm], rule exI [of _ y]) (use e in auto)
  show ?l
    unfolding splitFrontmatter_def Let_def skill_lines_def [symmetric] using e i j by simp
qed

definition demo_skill_file :: string where
  "demo_skill_file = [CR, NL] @ ''---'' @ [NL] @ ''name: a'' @ [CR, NL] @ ''--- '' @ [NL] @ ''Do it.''"

theorem frontmatter_exact_witness:
  "\<exists>blank opening fm closing rest. skill_lines demo_skill_file = blank @ opening # fm @ closing # rest \<and>
     ''name: a'' = str_join [NL] fm \<and> ''Do it.'' = str_join [NL] rest"
proof -
  have "splitFrontmatter demo_skill_file = Inr (''name: a'', ''Do it.'')" by code_simp
  then show ?thesis unfolding frontmatter_exact by blast
qed

subsection \<open>The order of discovery\<close>

text \<open>
  Every file is loaded once, by the goroutine that claims its path, and what a path contributes does
  not depend on who claims it.
\<close>

definition found_skills :: "(string \<Rightarrow> string \<Rightarrow> bool) \<Rightarrow> (string \<Rightarrow> string + string) \<Rightarrow> (string \<Rightarrow> string + skill) \<Rightarrow> string list \<Rightarrow> skill list" where
  "found_skills foldEq readFile yaml paths =
     List.map_filter (\<lambda>p. fst (load_outcome readFile yaml (p, foldEq (filepath_Base p) SkillFileName))) paths"

fun task_skills :: "load_task \<Rightarrow> skill list" where
  "task_skills (LoadSkill sk _) = [sk]"
| "task_skills _ = []"

definition discovery_inv :: "(string \<Rightarrow> string \<Rightarrow> bool) \<Rightarrow> (string \<Rightarrow> string + string) \<Rightarrow> (string \<Rightarrow> string + skill) \<Rightarrow> discovery \<Rightarrow> bool" where
  "discovery_inv foldEq readFile yaml d \<longleftrightarrow>
     distinct (dc_seen d) \<and>
     (\<forall>p strict. LoadClaim p strict \<in> set (dc_tasks d) \<longrightarrow> strict = foldEq (filepath_Base p) SkillFileName) \<and>
     mset (dc_skills d) + mset (concat (map task_skills (dc_tasks d))) = mset (found_skills foldEq readFile yaml (dc_seen d))"

lemma concat_map_update:
  assumes "k < length xs"
  shows "mset (concat (map f (take k xs @ drop (Suc k) xs))) + mset (f (xs ! k)) = mset (concat (map f xs))"
    and "mset (concat (map f (xs[k := y]))) + mset (f (xs ! k)) = mset (concat (map f xs)) + mset (f y)"
proof -
  obtain us z vs where xs: "xs = us @ z # vs" "length us = k" using assms id_take_nth_drop by (metis length_take min.absorb4)
  then have z: "xs ! k = z" by auto
  from xs z show "mset (concat (map f (take k xs @ drop (Suc k) xs))) + mset (f (xs ! k)) = mset (concat (map f xs))" by simp
  show "mset (concat (map f (xs[k := y]))) + mset (f (xs ! k)) = mset (concat (map f xs)) + mset (f y)" using xs z by (auto simp: list_update_append)
qed

lemma set_task_done: "t \<in> set (dc_tasks (task_done k d)) \<Longrightarrow> t \<in> set (dc_tasks d)"
  by (auto simp: task_done_def dest: in_set_takeD in_set_dropD)

lemma load_outcome_skill:
  "load_outcome readFile yaml (p, strict) = (sk, st) \<Longrightarrow> fst (load_outcome readFile yaml (p, strict')) = sk"
  by (auto simp: load_outcome_def split: sum.splits option.splits)

lemma discovery_goes_on:
  assumes "k < length (dc_tasks d)" and "task_skills (dc_tasks d ! k) = xs"
    and "mset (dc_skills d) + mset (concat (map task_skills (dc_tasks d))) + mset (case fst out of Some s \<Rightarrow> [s] | None \<Rightarrow> []) = M + mset xs"
  shows "mset (dc_skills (task_goes_on k out d)) + mset (concat (map task_skills (dc_tasks (task_goes_on k out d)))) = M"
    and "LoadClaim p strict \<in> set (dc_tasks (task_goes_on k out d)) \<Longrightarrow> LoadClaim p strict \<in> set (dc_tasks d)"
    and "dc_seen (task_goes_on k out d) = dc_seen d"
proof -
  note u = concat_map_update [OF assms(1), of task_skills]
  obtain sk st where o: "out = (sk, st)" by fastforce
  show "mset (dc_skills (task_goes_on k out d)) + mset (concat (map task_skills (dc_tasks (task_goes_on k out d)))) = M"
  proof (cases sk)
    case None
    show ?thesis
    proof (cases st)
      case (Some x)
      then show ?thesis using u(2) [of "LoadState x"] assms(2,3) None o
        by (simp add: task_goes_on_def) (metis add.assoc add_right_cancel)
    next
      case n: None
      then show ?thesis using u(1) assms(2,3) None o
        by (simp add: task_goes_on_def task_done_def) (metis add.assoc add_right_cancel)
    qed
  next
    case (Some s)
    then show ?thesis using u(2) [of "LoadSkill s st"] assms(2,3) o
      by (simp add: task_goes_on_def) (metis (no_types, lifting) add.assoc add_mset_add_single add_right_cancel union_mset_add_mset_right)
  qed
  show "LoadClaim p strict \<in> set (dc_tasks (task_goes_on k out d)) \<Longrightarrow> LoadClaim p strict \<in> set (dc_tasks d)"
    by (auto simp: o task_goes_on_def dest: set_task_done set_update_subset_insert [THEN subsetD] split: option.splits)
  show "dc_seen (task_goes_on k out d) = dc_seen d"
    by (simp add: o task_goes_on_def task_done_def split: option.split)
qed

lemma discovery_inv_step:
  assumes "discovery_step foldEq readFile yaml d d'" and inv: "discovery_inv foldEq readFile yaml d"
  shows "discovery_inv foldEq readFile yaml d'"
  using assms(1)
proof cases
  case (load k)
  then have k: "k < length (dc_tasks d)" by (auto simp: load_step_def split: if_splits)
  have i: "mset (dc_skills d) + mset (concat (map task_skills (dc_tasks d))) = mset (found_skills foldEq readFile yaml (dc_seen d))"
    and c: "\<And>p strict. LoadClaim p strict \<in> set (dc_tasks d) \<Longrightarrow> strict = foldEq (filepath_Base p) SkillFileName"
    and dist: "distinct (dc_seen d)" using inv by (auto simp: discovery_inv_def)
  have dn: "discovery_inv foldEq readFile yaml (task_done k d\<lparr>dc_states := x\<rparr>)" if "task_skills (dc_tasks d ! k) = []" for x
    using concat_map_update(1) [OF k, of task_skills] that i c dist
    by (auto simp: discovery_inv_def task_done_def dest: in_set_takeD in_set_dropD)
  show ?thesis
  proof (cases "dc_tasks d ! k")
    case (LoadClaim p strict)
    then have strict: "strict = foldEq (filepath_Base p) SkillFileName" using c [of p strict] k nth_mem by metis
    show ?thesis
    proof (cases "p \<in> set (dc_seen d)")
      case True
      with load k LoadClaim dn [of "dc_states (task_done k d)"] show ?thesis by (simp add: load_step_def)
    next
      case False
      let ?o = "load_outcome readFile yaml (p, strict)" and ?d = "d\<lparr>dc_seen := p # dc_seen d\<rparr>"
      have f: "found_skills foldEq readFile yaml (p # dc_seen d) =
          (case fst ?o of Some s \<Rightarrow> [s] | None \<Rightarrow> []) @ found_skills foldEq readFile yaml (dc_seen d)"
        by (simp add: found_skills_def List.map_filter_simps strict split: option.split)
      have d': "d' = task_goes_on k ?o ?d" using load k LoadClaim False by (simp add: load_step_def)
      have kd: "k < length (dc_tasks ?d)" "task_skills (dc_tasks ?d ! k) = []" using k LoadClaim by simp_all
      have "mset (dc_skills d') + mset (concat (map task_skills (dc_tasks d'))) = mset (found_skills foldEq readFile yaml (p # dc_seen d))"
        unfolding d' by (rule discovery_goes_on(1) [OF kd]) (use i f in simp)
      then show ?thesis
        using discovery_goes_on(2) [OF kd, where out = ?o, unfolded d' [symmetric]] discovery_goes_on(3) [OF kd, where out = ?o, unfolded d' [symmetric]]
          i f c dist False
        by (auto simp: discovery_inv_def)
    qed
  next
    case (LoadSkill sk st)
    let ?d = "d\<lparr>dc_skills := dc_skills d @ [sk]\<rparr>"
    have d': "d' = task_goes_on k (None, st) ?d" using load k LoadSkill by (simp add: load_step_def)
    have kd: "k < length (dc_tasks ?d)" "task_skills (dc_tasks ?d ! k) = [sk]" using k LoadSkill by simp_all
    have "mset (dc_skills d') + mset (concat (map task_skills (dc_tasks d'))) = mset (found_skills foldEq readFile yaml (dc_seen d))"
      unfolding d' by (rule discovery_goes_on(1) [OF kd]) (use i in simp)
    then show ?thesis
      using discovery_goes_on(2) [OF kd, where out = "(None, st)", unfolded d' [symmetric]]
        discovery_goes_on(3) [OF kd, where out = "(None, st)", unfolded d' [symmetric]] c dist
      by (auto simp: discovery_inv_def)
  next
    case (LoadState st)
    have "task_done k (d\<lparr>dc_states := dc_states d @ [st]\<rparr>) = task_done k d\<lparr>dc_states := dc_states d @ [st]\<rparr>"
      by (simp add: task_done_def)
    with load k LoadState dn [of "dc_states d @ [st]"] show ?thesis by (simp add: load_step_def)
  qed
next
  case (callback base path isDir err t)
  then have "task_skills t = []" "\<And>p strict. t = LoadClaim p strict \<Longrightarrow> strict = foldEq (filepath_Base p) SkillFileName"
    by (auto simp: walk_callback_def walk_error_def skillCandidate_def case_prod_beta Let_def split: option.splits if_splits)
  with inv callback show ?thesis by (auto simp: discovery_inv_def)
next
  case (base b stat t)
  then have "task_skills t = []" "\<And>p strict. t = LoadClaim p strict \<Longrightarrow> strict = foldEq (filepath_Base p) SkillFileName"
    by (auto simp: base_task_def walk_error_def split: sum.splits if_splits)
  with inv base show ?thesis by (auto simp: discovery_inv_def)
qed

interpretation discovery: transition_system "\<lambda>d. d = discovery_start" "discovery_step foldEq readFile yaml" "discovery_inv foldEq readFile yaml"
  for foldEq readFile yaml
proof
  show "d = discovery_start \<Longrightarrow> discovery_inv foldEq readFile yaml d" for d
    by (simp add: discovery_start_def discovery_inv_def found_skills_def List.map_filter_simps)
qed (rule discovery_inv_step)




text \<open>A directory with two files that name the same skill, run in two orders.\<close>

definition demo_skill :: "string \<Rightarrow> skill" where
  "demo_skill n = \<lparr>sk_name = n, sk_description = ''d'', sk_user_invocable = False, sk_disable_model = False, sk_license = [],
     sk_compatibility = [], sk_metadata = [], sk_instructions = [], sk_path = [], sk_file = [], sk_builtin = False\<rparr>"

definition demo_yaml :: "string \<Rightarrow> string + skill" where
  "demo_yaml fm = Inr (demo_skill fm)"

definition demo_read :: "string \<Rightarrow> string + string" where
  "demo_read p = Inr (''---'' @ [NL] @ ''x'' @ [NL] @ ''---'' @ [NL] @ p)"

definition run_loads :: "nat list \<Rightarrow> string list \<Rightarrow> discovery" where
  "run_loads ks paths =
     foldl (\<lambda>d k. case load_step demo_read demo_yaml k d of Some d' \<Rightarrow> d' | None \<Rightarrow> d)
       (discovery_start\<lparr>dc_tasks := map (\<lambda>p. LoadClaim p False) paths\<rparr>) ks"



text \<open>Two skills of one name in one directory: which of them survives depends on the walk.\<close>

lemma same_directory_order_matters:
  "map sk_file (Deduplicate (fst (discovered id (run_loads [1, 1, 0, 0, 0, 0] [''/s/a.md'', ''/s/b.md''])))) = [''/s/a.md'']"
  "map sk_file (Deduplicate (fst (discovered id (run_loads [0, 0, 0, 0, 0, 0] [''/s/a.md'', ''/s/b.md''])))) = [''/s/b.md'']"
  by code_simp+

subsection \<open>Deduplication\<close>

fun last_of_name :: "('a \<Rightarrow> string) \<Rightarrow> ('a \<Rightarrow> bool) \<Rightarrow> 'a list \<Rightarrow> 'a list" where
  "last_of_name name named [] = []"
| "last_of_name name named (x # xs) =
     (if named x \<and> (\<exists>y\<in>set xs. named y \<and> name y = name x) then last_of_name name named xs
      else x # last_of_name name named xs)"

definition index_map :: "('a \<Rightarrow> string) \<Rightarrow> ('a \<Rightarrow> bool) \<Rightarrow> (nat \<times> 'a) list \<Rightarrow> (string, nat) gomap \<Rightarrow> (string, nat) gomap" where
  "index_map name named ixs m = foldl (\<lambda>m (i, x). if named x then AList.update (name x) i m else m) m ixs"

lemma index_map_Cons:
  "index_map name named (enumerate k (x # xs)) m =
     index_map name named (enumerate (Suc k) xs) (if named x then AList.update (name x) k m else m)"
  by (simp add: index_map_def)

lemma index_map_other:
  "\<forall>x\<in>set xs. named x \<longrightarrow> name x \<noteq> n \<Longrightarrow> map_of (index_map name named (enumerate k xs) m) n = map_of m n"
proof (induction xs arbitrary: k m)
  case (Cons x xs)
  then show ?case unfolding index_map_Cons by (auto simp: update_conv')
qed (simp add: index_map_def)

lemma index_map_found:
  "\<exists>x\<in>set xs. named x \<and> name x = n \<Longrightarrow> \<exists>i. k \<le> i \<and> map_of (index_map name named (enumerate k xs) m) n = Some i"
proof (induction xs arbitrary: k m)
  case (Cons x xs)
  show ?case
  proof (cases "\<exists>y\<in>set xs. named y \<and> name y = n")
    case True
    then show ?thesis unfolding index_map_Cons using Cons.IH Suc_leD by blast
  next
    case False
    with Cons.prems have x: "named x" "name x = n" by auto
    from False have "\<forall>y\<in>set xs. named y \<longrightarrow> name y \<noteq> n" by blast
    from index_map_other [OF this] show ?thesis unfolding index_map_Cons by (simp add: x update_conv')
  qed
qed simp

lemma filter_last_index:
  "map snd (filter (\<lambda>(i, x). \<not> named x \<or> map_of (index_map name named (enumerate k xs) m) (name x) = Some i) (enumerate k xs)) =
   last_of_name name named xs"
proof (induction xs arbitrary: k m)
  case (Cons x xs)
  let ?m = "if named x then AList.update (name x) k m else m"
  have x: "map_of (index_map name named (enumerate (Suc k) xs) ?m) (name x) = Some k \<longleftrightarrow>
      \<not> (\<exists>y\<in>set xs. named y \<and> name y = name x)" if "named x"
  proof (cases "\<exists>y\<in>set xs. named y \<and> name y = name x")
    case True
    from index_map_found [OF this, of "Suc k" ?m] True show ?thesis by auto
  next
    case False
    then have "\<forall>y\<in>set xs. named y \<longrightarrow> name y \<noteq> name x" by blast
    from index_map_other [OF this, of "Suc k" ?m] that False show ?thesis by (simp add: update_conv')
  qed
  show ?case unfolding index_map_Cons using x Cons.IH [of "Suc k" ?m] by (cases "named x") simp_all
qed simp

lemma Deduplicate_last: "Deduplicate xs = last_of_name sk_name (\<lambda>_. True) xs"
  using filter_last_index [of "\<lambda>_. True" sk_name 0 xs "[]"] by (simp add: Deduplicate_def last_index_def index_map_def)

lemma DeduplicateStates_last: "DeduplicateStates xs = last_of_name ss_name (\<lambda>s. ss_name s \<noteq> []) xs"
  using filter_last_index [of "\<lambda>s. ss_name s \<noteq> []" ss_name 0 xs "[]"] by (simp add: DeduplicateStates_def index_map_def)

lemma last_of_name_member:
  "x \<in> set (last_of_name name (\<lambda>_. True) xs) \<longleftrightarrow> (\<exists>us vs. xs = us @ x # vs \<and> name x \<notin> name ` set vs)"
proof (induction xs)
  case (Cons y xs)
  have "(\<exists>us vs. y # xs = us @ x # vs \<and> name x \<notin> name ` set vs) \<longleftrightarrow>
    (y = x \<and> name x \<notin> name ` set xs) \<or> (\<exists>us vs. xs = us @ x # vs \<and> name x \<notin> name ` set vs)"
    by (auto simp: Cons_eq_append_conv)
  with Cons show ?case by (auto simp: image_iff)
qed simp

lemma last_of_name_names: "name ` set (last_of_name name (\<lambda>_. True) xs) = name ` set xs"
proof (induction xs)
  case (Cons x xs)
  then show ?case by (cases "\<exists>y\<in>set xs. name y = name x") (auto simp: image_iff, metis)
qed simp

lemma last_of_name_distinct: "distinct (map name (last_of_name name (\<lambda>_. True) xs))"
proof (induction xs)
  case (Cons x xs)
  have "name x \<in> name ` set (last_of_name name (\<lambda>_. True) xs) \<longleftrightarrow> name x \<in> name ` set xs" by (simp only: last_of_name_names)
  with Cons show ?case by (cases "\<exists>y\<in>set xs. name y = name x") (auto simp del: image_iff)
qed simp

text \<open>
  The skills of a workspace have different names, one for every name found; of several skills of one name the
  last found is the one, so a skill of the user replaces a built-in one; and the active ones are those not disabled.
\<close>

theorem effective_skills:
  assumes "DiscoverFromConfig lower (builtin, bs) walk homedir cfg = (allSkills, active, states)"
    and "user = (if ResolvePaths homedir cfg = [] then [] else fst (walk (ResolvePaths homedir cfg)))"
  shows "distinct (map sk_name allSkills) \<and> set (map sk_name allSkills) = set (map sk_name (builtin @ user)) \<and>
    (s \<in> set allSkills \<longleftrightarrow> (\<exists>us vs. builtin @ user = us @ s # vs \<and> sk_name s \<notin> set (map sk_name vs))) \<and>
    active = filter (\<lambda>s. sk_name s \<notin> set (dg_disabled cfg)) allSkills"
proof -
  have a: "allSkills = Deduplicate (builtin @ user)" "active = Filter_skills allSkills (dg_disabled cfg)"
    using assms by (auto simp: DiscoverFromConfig_def Let_def split: if_splits)
  then have "active = filter (\<lambda>s. sk_name s \<notin> set (dg_disabled cfg)) allSkills" by (simp add: Filter_skills_def)
  then show ?thesis
    using last_of_name_member [of s sk_name "builtin @ user"] last_of_name_names [of sk_name "builtin @ user"]
      last_of_name_distinct [of sk_name "builtin @ user"]
    by (auto simp: a(1) Deduplicate_last)
qed

theorem effective_skills_witness:
  "fst (DiscoverFromConfig id ([demo_skill ''x''], []) (\<lambda>_. ([(demo_skill ''x'')\<lparr>sk_file := ''/u/x.md''\<rparr>], [])) ''/h''
     \<lparr>dg_paths = [''~/skills''], dg_disabled = [], dg_working_dir = [], dg_resolver = None\<rparr>) = [(demo_skill ''x'')\<lparr>sk_file := ''/u/x.md''\<rparr>] \<and>
   demo_skill ''x'' \<notin> set (fst (DiscoverFromConfig id ([demo_skill ''x''], []) (\<lambda>_. ([(demo_skill ''x'')\<lparr>sk_file := ''/u/x.md''\<rparr>], [])) ''/h''
     \<lparr>dg_paths = [''~/skills''], dg_disabled = [], dg_working_dir = [], dg_resolver = None\<rparr>))"
proof -
  let ?u = "(demo_skill ''x'')\<lparr>sk_file := ''/u/x.md''\<rparr>"
  let ?c = "\<lparr>dg_paths = [''~/skills''], dg_disabled = [], dg_working_dir = [], dg_resolver = None\<rparr>"
  let ?out = "DiscoverFromConfig id ([demo_skill ''x''], []) (\<lambda>_. ([?u], [])) ''/h'' ?c"
  have "fst ?out = [?u]" by code_simp
  moreover have o: "?out = (fst ?out, fst (snd ?out), snd (snd ?out))" by simp
  have "[?u] = (if ResolvePaths ''/h'' ?c = [] then [] else fst ((\<lambda>_. ([?u], [] :: skill_state list)) (ResolvePaths ''/h'' ?c)))"
    by (simp add: ResolvePaths_def)
  from effective_skills [OF o this, where s = "demo_skill ''x''"]
  have "demo_skill ''x'' \<in> set (fst ?out) \<longleftrightarrow>
    (\<exists>us vs. [demo_skill ''x''] @ [?u] = us @ demo_skill ''x'' # vs \<and> sk_name (demo_skill ''x'') \<notin> set (map sk_name vs))" by blast
  then have "demo_skill ''x'' \<notin> set (fst ?out)" by (auto simp: Cons_eq_append_conv demo_skill_def)
  ultimately show ?thesis by blast
qed

text \<open>
  States are deduplicated on their own: a user's file that fails validation hides the state of the
  built-in skill that stays active, and the two lists are ordered by different keys, so the state kept
  can be of another file than the skill kept.
\<close>

definition demo_state :: "string \<Rightarrow> string \<Rightarrow> discovery_state \<Rightarrow> skill_state" where
  "demo_state n p st = \<lparr>ss_name = n, ss_path = p, ss_state = st, ss_err = None\<rparr>"

lemma invalid_user_skill_hides_state:
  "(case DiscoverFromConfig id ([demo_skill ''x''], [demo_state ''x'' ''tack://skills/x/SKILL.md'' DiscoveryNormal])
       (\<lambda>_. ([], [demo_state ''x'' ''/u/x/SKILL.md'' DiscoveryError])) ''/h''
       \<lparr>dg_paths = [''/u''], dg_disabled = [], dg_working_dir = [], dg_resolver = None\<rparr> of
      (allSkills, active, states) \<Rightarrow> active = [demo_skill ''x''] \<and> map ss_state states = [DiscoveryError])"
  by code_simp

lemma state_of_another_file:
  "(let at = (\<lambda>dir. (demo_skill ''x'')\<lparr>sk_path := dir, sk_file := dir @ ''/SKILL.md''\<rparr>);
        found = discovered id (discovery_start\<lparr>dc_skills := [at ''/s/a'', at ''/s/a-b''],
          dc_states := [demo_state ''x'' ''/s/a/SKILL.md'' DiscoveryNormal, demo_state ''x'' ''/s/a-b/SKILL.md'' DiscoveryNormal]\<rparr>)
    in map sk_file (Deduplicate (fst found)) = [''/s/a-b/SKILL.md''] \<and>
       map ss_path (DeduplicateStates (snd found)) = [''/s/a/SKILL.md''])"
  by code_simp

subsection \<open>The prompt\<close>

function unescape :: "string \<Rightarrow> string" where
  "unescape [] = []"
| "unescape (c # s) =
     (if c = CHR ''&'' then
        (if str_prefix ''amp;'' s then CHR ''&'' # unescape (drop 4 s)
         else if str_prefix ''lt;'' s then CHR ''<'' # unescape (drop 3 s)
         else if str_prefix ''gt;'' s then CHR ''>'' # unescape (drop 3 s)
         else if str_prefix ''quot;'' s then char_of (34 :: nat) # unescape (drop 5 s)
         else if str_prefix ''apos;'' s then char_of (39 :: nat) # unescape (drop 5 s)
         else c # unescape s)
      else c # unescape s)"
  by pat_completeness auto
termination by (relation "measure length") auto

lemma escape_Cons: "escape (c # s) = escape_char c @ escape s"
  by (simp add: escape_def)

lemma unescape_escape: "unescape (escape s) = s"
proof (induction s)
  case (Cons c s)
  have "unescape (escape_char c @ t) = c # unescape t" for t by (simp add: escape_char_def)
  with Cons show ?case by (simp add: escape_Cons)
qed (simp add: escape_def)

lemma escape_no_markup: "count_list (escape s) CHR ''<'' = 0"
  by (induction s) (simp_all add: escape_def escape_char_def)

text \<open>
  Whatever a skill file says, the prompt has exactly the tags of the list and of the visible skills, and a
  reader who decodes a field gets its text back.
\<close>

theorem skill_prompt_escaped:
  "count_list (ToPromptXML skills) CHR ''<'' =
     (if skills = [] then 0
      else 2 + sum_list (map (\<lambda>s. if sk_builtin s then 10 else 8) (filter (\<lambda>s. \<not> sk_disable_model s) skills))) \<and>
   count_list (FormatInvocation s) CHR ''<'' = 10 \<and> unescape (escape t) = t"
proof -
  have e: "count_list (skill_entry s) CHR ''<'' = (if sk_builtin s then 10 else 8)" for s
    by (simp add: skill_entry_def escape_no_markup)
  have "count_list (concat (map skill_entry xs)) CHR ''<'' = sum_list (map (\<lambda>s. if sk_builtin s then 10 else 8) xs)" for xs
    by (induction xs) (simp_all add: e)
  then show ?thesis by (simp add: ToPromptXML_def FormatInvocation_def escape_no_markup unescape_escape)
qed

subsection \<open>The manager\<close>

lemma Refresh_installs:
  "Refresh_skills found paths dir m = (changed, m') \<Longrightarrow>
     (sm_all m', sm_active m', sm_states m') = found \<and> sm_paths m' = paths \<and> sm_working_dir m' = dir \<and>
     sm_events m' = sm_events m @ (if changed then [snd (snd found)] else [])"
  by (auto simp: Refresh_skills_def Refresh_swap_def PublishStates_def SetLatestStates_def Let_def split: prod.splits if_splits)

text \<open>
  \<^verbatim>\<open>PublishStates\<close> writes the states again after the lock was released: of two refreshes, the first
  can put its states next to the skills of the second.
\<close>

lemma refresh_race:
  "(let m = NewManager [] [] [] [] [];
        s1 = [demo_state ''x'' ''/u/x.md'' DiscoveryError]; s2 = [demo_state ''x'' ''/u/x.md'' DiscoveryNormal];
        m = snd (Refresh_swap ([], [], s1) [''/u''] [] m);
        m = snd (Refresh_swap ([demo_skill ''x''], [demo_skill ''x''], s2) [''/u''] [] m);
        m = PublishStates s1 (PublishStates s2 m)
    in sm_active m = [demo_skill ''x''] \<and> sm_states m = s1 \<and> last (sm_events m) = s1)"
  by code_simp

subsection \<open>The tracker\<close>

datatype tracker_op = TrackMark string | TrackActive "skill list"

fun tracker_exec :: "skill_tracker \<Rightarrow> tracker_op \<Rightarrow> skill_tracker" where
  "tracker_exec t (TrackMark n) = MarkLoaded n t"
| "tracker_exec t (TrackActive sks) = SetActiveSkills sks t"

fun active_after :: "skill list \<Rightarrow> tracker_op list \<Rightarrow> string set" where
  "active_after sks [] = sk_name ` set sks"
| "active_after sks (TrackMark _ # ops) = active_after sks ops"
| "active_after sks (TrackActive sks' # ops) = active_after sks' ops"

lemma active_after_append:
  "active_after sks (ops @ [TrackMark n]) = active_after sks ops"
  "active_after sks (ops @ [TrackActive sks']) = sk_name ` set sks'"
  by (induction sks ops rule: active_after.induct) simp_all

lemma map_true_update: "map_true (AList.update k v m) n = (if n = k then v else map_true m n)"
  by (simp add: map_true_def update_conv')

lemma name_set_true: "map_true (name_set sks) n \<longleftrightarrow> n \<in> sk_name ` set sks"
proof -
  have "map_true (foldl (\<lambda>m s. AList.update (sk_name s) True m) m sks) n \<longleftrightarrow> map_true m n \<or> n \<in> sk_name ` set sks" for m
    by (induction sks arbitrary: m) (auto simp: map_true_update)
  from this [of "[]"] show ?thesis by (simp add: name_set_def map_true_def)
qed

definition tracker_ok :: "skill_tracker \<Rightarrow> bool" where
  "tracker_ok t \<longleftrightarrow> gomap_ok (st_loaded t) \<and> (\<forall>x\<in>set (st_loaded t). snd x)"

lemma all_true_update: "\<forall>x\<in>set m. snd x \<Longrightarrow> \<forall>x\<in>set (AList.update n True m). snd x"
  by (induction m) auto

lemma tracker_ok_exec: "tracker_ok t \<Longrightarrow> tracker_ok (tracker_exec t op)"
proof (cases op)
  case (TrackMark n)
  assume "tracker_ok t"
  then show ?thesis using all_true_update [of "st_loaded t" n] by (simp add: TrackMark MarkLoaded_def tracker_ok_def gomap_ok_set)
next
  case (TrackActive sks)
  assume "tracker_ok t"
  then show ?thesis by (auto simp: TrackActive SetActiveSkills_def tracker_ok_def Let_def)
qed

lemma tracker_ok_loaded: "tracker_ok t \<Longrightarrow> IsLoaded t n \<longleftrightarrow> n \<in> gomap_keys (st_loaded t)"
proof -
  assume ok: "tracker_ok t"
  have "b" if "map_of (st_loaded t) n = Some b" for b using ok map_of_SomeD [OF that] by (auto simp: tracker_ok_def)
  then show ?thesis unfolding IsLoaded_def map_true_def gomap_keys_get by (auto simp del: map_of_eq_None_iff split: option.split)
qed

lemma SetActive_loaded:
  assumes "tracker_ok t"
  shows "IsLoaded (SetActiveSkills sks t) n \<longleftrightarrow> IsLoaded t n \<and> n \<in> sk_name ` set sks"
proof -
  have "tracker_ok (SetActiveSkills sks t)" using tracker_ok_exec [OF assms, of "TrackActive sks"] by simp
  from tracker_ok_loaded [OF this] tracker_ok_loaded [OF assms] show ?thesis
    by (force simp: SetActiveSkills_def Let_def name_set_true)
qed

abbreviation tracker_run :: "skill list \<Rightarrow> tracker_op list \<Rightarrow> skill_tracker" where
  "tracker_run active ops \<equiv> foldl tracker_exec (NewTracker active) ops"

definition stays_active :: "string \<Rightarrow> tracker_op list \<Rightarrow> bool" where
  "stays_active n ops \<longleftrightarrow> list_all (\<lambda>op. case op of TrackActive sks \<Rightarrow> n \<in> sk_name ` set sks | TrackMark _ \<Rightarrow> True) ops"

lemma tracker_ok_run: "tracker_ok (tracker_run active ops)"
  by (induction ops rule: rev_induct) (simp_all add: tracker_ok_exec, simp add: tracker_ok_def NewTracker_def)

lemma tracker_active: "map_true (st_active (tracker_run active ops)) n \<longleftrightarrow> n \<in> active_after active ops"
proof (induction ops rule: rev_induct)
  case (snoc op ops)
  then show ?case
    by (cases op) (simp_all add: active_after_append MarkLoaded_def SetActiveSkills_def Let_def name_set_true)
qed (simp add: NewTracker_def name_set_true)

lemma tracker_marks_snoc:
  "(\<exists>before after. ops @ [op] = before @ TrackMark n # after \<and> n \<in> active_after active before \<and> stays_active n after) \<longleftrightarrow>
     (op = TrackMark n \<and> n \<in> active_after active ops) \<or>
      (stays_active n [op] \<and> (\<exists>before after. ops = before @ TrackMark n # after \<and> n \<in> active_after active before \<and> stays_active n after))"
  (is "?L \<longleftrightarrow> ?R")
proof
  assume ?L
  then obtain b a where b: "ops @ [op] = b @ TrackMark n # a" "n \<in> active_after active b" "stays_active n a" by blast
  then show ?R by (cases a rule: rev_cases) (auto simp: stays_active_def)
next
  assume ?R
  then show ?L
  proof
    assume "stays_active n [op] \<and> (\<exists>before after. ops = before @ TrackMark n # after \<and> n \<in> active_after active before \<and> stays_active n after)"
    then obtain b a where "ops = b @ TrackMark n # a" "n \<in> active_after active b" "stays_active n (a @ [op])" by (auto simp: stays_active_def)
    then show ?L by (metis append.assoc append_Cons)
  next
    assume "op = TrackMark n \<and> n \<in> active_after active ops"
    then show ?L by (intro exI [of _ ops] exI [of _ "[]"]) (simp add: stays_active_def)
  qed
qed

lemma tracker_loaded_iff:
  "IsLoaded (tracker_run active ops) n \<longleftrightarrow>
     (\<exists>before after. ops = before @ TrackMark n # after \<and> n \<in> active_after active before \<and> stays_active n after)"
proof (induction ops rule: rev_induct)
  case Nil
  show ?case by (simp add: NewTracker_def IsLoaded_def map_true_def)
next
  case (snoc op ops)
  show ?case
  proof (cases op)
    case (TrackMark m)
    have "IsLoaded (MarkLoaded m (tracker_run active ops)) n \<longleftrightarrow> (m = n \<and> n \<in> active_after active ops) \<or> IsLoaded (tracker_run active ops) n"
      using tracker_active [of active ops m] by (auto simp: MarkLoaded_def IsLoaded_def map_true_update)
    then show ?thesis unfolding tracker_marks_snoc using snoc by (simp add: TrackMark stays_active_def)
  next
    case (TrackActive sks)
    show ?thesis unfolding tracker_marks_snoc using snoc SetActive_loaded [OF tracker_ok_run, of sks active ops n] by (auto simp: TrackActive stays_active_def)
  qed
qed

lemma tracker_names: "LoadedNames (tracker_run active ops) = sorted_list_of_set {m. IsLoaded (tracker_run active ops) m}"
proof -
  have "{m. IsLoaded (tracker_run active ops) m} = set (map fst (st_loaded (tracker_run active ops)))" using tracker_ok_loaded [OF tracker_ok_run] by auto
  moreover have "distinct (map fst (st_loaded (tracker_run active ops)))" using tracker_ok_run [of active ops] by (simp add: tracker_ok_def)
  moreover have "sorted_list_of_set (set xs) = sort xs" if "distinct xs" for xs :: "string list"
    using that by (simp add: sorted_list_of_set_sort_remdups distinct_remdups_id)
  ultimately show ?thesis by (simp only: LoadedNames_def)
qed

text \<open>
  C38: After any sequence of calls a skill counts as loaded exactly when it was marked while active and has stayed
  active through every later change of the active skills; the names listed are these, sorted, each once.
\<close>

theorem tracker_loaded_exact:
  "(IsLoaded (foldl tracker_exec (NewTracker active) ops) n \<longleftrightarrow>
      (\<exists>before after. ops = before @ TrackMark n # after \<and> n \<in> active_after active before \<and>
         list_all (\<lambda>op. case op of TrackActive sks \<Rightarrow> n \<in> sk_name ` set sks | TrackMark _ \<Rightarrow> True) after)) \<and>
   LoadedNames (foldl tracker_exec (NewTracker active) ops) =
     sorted_list_of_set {m. IsLoaded (foldl tracker_exec (NewTracker active) ops) m}"
  unfolding tracker_loaded_iff tracker_names stays_active_def by blast

theorem tracker_loaded_exact_witness:
  "IsLoaded (foldl tracker_exec (NewTracker [demo_skill ''a'']) [TrackMark ''a'', TrackActive [demo_skill ''b'', demo_skill ''a'']]) ''a''"
proof -
  have "\<exists>before after. [TrackMark ''a'', TrackActive [demo_skill ''b'', demo_skill ''a'']] = before @ TrackMark ''a'' # after \<and>
      ''a'' \<in> active_after [demo_skill ''a''] before \<and>
      list_all (\<lambda>op. case op of TrackActive sks \<Rightarrow> ''a'' \<in> sk_name ` set sks | TrackMark _ \<Rightarrow> True) after"
    by (rule exI [of _ "[]"], rule exI [of _ "[TrackActive [demo_skill ''b'', demo_skill ''a'']]"]) (simp add: demo_skill_def)
  then show ?thesis using tracker_loaded_exact by blast
qed

end
