(* ===== verification/Config_Store.thy ===== *)
theory Config_Store
  imports Csync Go_Strings "HOL-Library.List_Lexorder" "HOL-Library.Char_ord"
begin

section \<open>Configuration: models and the store, \<^verbatim>\<open>internal/config\<close>\<close>

text \<open>
  Choosing models (\<^verbatim>\<open>config.go\<close>, \<^verbatim>\<open>load.go\<close>), the transactions of the store (\<^verbatim>\<open>mutation.go\<close>,
  \<^verbatim>\<open>store.go\<close>), the reload and the staleness check.

  The configuration is reduced to what these parts read and write. Sampling parameters and provider
  options are opaque values of type \<open>'v\<close>. The bytes of a configuration file are a value of type
  \<open>'d\<close>; \<open>sset\<close> and \<open>sdelete\<close> are \<^verbatim>\<open>sjson.Set\<close> and \<^verbatim>\<open>sjson.Delete\<close>. What the file system answers to
  one write is a \<open>write_env\<close>; what a reload parsed is an argument. An error is its message.
\<close>

subsection \<open>Models and providers\<close>

record 'v selected_model =
  sel_model :: string
  sel_provider :: string
  sel_effort :: string
  sel_think :: bool
  sel_max_tokens :: int
  sel_temperature :: "'v option"
  sel_top_p :: "'v option"
  sel_top_k :: "'v option"
  sel_frequency :: "'v option"
  sel_presence :: "'v option"
  sel_options :: "(string, 'v) gomap option"

definition zero_model :: "'v selected_model" where
  "zero_model = \<lparr>sel_model = [], sel_provider = [], sel_effort = [], sel_think = False, sel_max_tokens = 0, sel_temperature = None,
     sel_top_p = None, sel_top_k = None, sel_frequency = None, sel_presence = None, sel_options = None\<rparr>"

record catalog_model =
  cat_id :: string
  cat_max_tokens :: int
  cat_effort :: string

record provider_config =
  pv_id :: string
  pv_disable :: bool
  pv_models :: "catalog_model list"

record known_provider =
  kp_id :: string
  kp_large :: string
  kp_small :: string

record 'v tack_config =
  cf_models :: "(string, 'v selected_model) gomap"
  cf_recent :: "(string, 'v selected_model list) gomap"
  cf_providers :: "(string, provider_config) smap"
  cf_compact :: bool
  cf_transparent :: "bool option"

abbreviation large_type :: string where "large_type \<equiv> ''large''"
abbreviation small_type :: string where "small_type \<equiv> ''small''"

definition type_Valid :: "string \<Rightarrow> bool" where
  "type_Valid s \<longleftrightarrow> s = large_type \<or> s = small_type"

definition GetModel :: "'v tack_config \<Rightarrow> string \<Rightarrow> string \<Rightarrow> catalog_model option" where
  "GetModel c provider model =
     (case Map_Get (cf_providers c) provider of None \<Rightarrow> None | Some pc \<Rightarrow> find (\<lambda>m. cat_id m = model) (pv_models pc))"

definition IsModelAvailable :: "'v tack_config \<Rightarrow> string \<Rightarrow> string \<Rightarrow> bool" where
  "IsModelAvailable c provider model =
     (case Map_Get (cf_providers c) provider of
        None \<Rightarrow> False
      | Some pc \<Rightarrow> \<not> pv_disable pc \<and> list_ex (\<lambda>m. cat_id m = model) (pv_models pc))"

definition EnabledProviders :: "'v tack_config \<Rightarrow> provider_config list" where
  "EnabledProviders c = filter (\<lambda>p. \<not> pv_disable p) (map snd (inner (cf_providers c)))"

definition IsConfigured :: "'v tack_config \<Rightarrow> bool" where
  "IsConfigured c \<longleftrightarrow> length (EnabledProviders c) > 0"

definition GetProviderForModel :: "'v tack_config \<Rightarrow> string \<Rightarrow> provider_config option" where
  "GetProviderForModel c t =
     (case map_of (cf_models c) t of None \<Rightarrow> None | Some m \<Rightarrow> Map_Get (cf_providers c) (sel_provider m))"

definition GetModelByType :: "'v tack_config \<Rightarrow> string \<Rightarrow> catalog_model option" where
  "GetModelByType c t =
     (case map_of (cf_models c) t of None \<Rightarrow> None | Some m \<Rightarrow> GetModel c (sel_provider m) (sel_model m))"

subsection \<open>Default and selected models\<close>

text \<open>\<open>Inl\<close> is an error; the outer \<open>None\<close> below a nil pointer that is dereferenced.\<close>

definition catalog_default :: "'v tack_config \<Rightarrow> provider_config \<Rightarrow> string \<Rightarrow> string \<Rightarrow> string \<Rightarrow> string + catalog_model" where
  "catalog_default c pc slot pid mid =
     (case GetModel c pid mid of
        Some m \<Rightarrow> Inr m
      | None \<Rightarrow>
          if pv_models pc = [] then Inl (''default '' @ slot @ '' model '' @ mid @ '' not found for provider '' @ pid)
          else Inr (hd (pv_models pc)))"

definition default_selection :: "string \<Rightarrow> catalog_model \<Rightarrow> 'v selected_model" where
  "default_selection pid m =
     zero_model\<lparr>sel_provider := pid, sel_model := cat_id m, sel_max_tokens := cat_max_tokens m, sel_effort := cat_effort m\<rparr>"

fun default_known :: "'v tack_config \<Rightarrow> known_provider list \<Rightarrow> (string + 'v selected_model \<times> 'v selected_model) option" where
  "default_known c [] = None"
| "default_known c (p # ps) =
     (case Map_Get (cf_providers c) (kp_id p) of
        None \<Rightarrow> default_known c ps
      | Some pc \<Rightarrow>
          if pv_disable pc then default_known c ps
          else Some
            (case catalog_default c pc ''large'' (kp_id p) (kp_large p) of
               Inl e \<Rightarrow> Inl e
             | Inr large \<Rightarrow>
                 (case catalog_default c pc ''small'' (kp_id p) (kp_small p) of
                    Inl e \<Rightarrow> Inl e
                  | Inr small \<Rightarrow> Inr (default_selection (kp_id p) large, default_selection (kp_id p) small))))"

definition no_providers_error :: string where
  "no_providers_error = ''no providers configured, please configure at least one provider''"

definition defaultModelSelection ::
  "'v tack_config \<Rightarrow> known_provider list \<Rightarrow> (string + 'v selected_model \<times> 'v selected_model) option" where
  "defaultModelSelection c known =
     (if known = [] \<and> Map_Len (cf_providers c) = 0 then Some (Inl no_providers_error)
      else
        (case default_known c known of
           Some r \<Rightarrow> Some r
         | None \<Rightarrow>
             (case sort_key pv_id (EnabledProviders c) of
                [] \<Rightarrow> Some (Inl no_providers_error)
              | pc # _ \<Rightarrow>
                  if pv_models pc = [] then Some (Inl (''provider '' @ pv_id pc @ '' has no models configured''))
                  else
                    (case GetModel c (pv_id pc) (cat_id (hd (pv_models pc))) of
                       None \<Rightarrow> None
                     | Some m \<Rightarrow>
                         (let sel = zero_model\<lparr>sel_provider := pv_id pc, sel_model := cat_id m, sel_max_tokens := cat_max_tokens m\<rparr>
                          in Some (Inr (sel, sel)))))))"

definition or_default :: "'a option \<Rightarrow> 'a option \<Rightarrow> 'a option" where
  "or_default configured dflt = (case configured of Some x \<Rightarrow> Some x | None \<Rightarrow> dflt)"

text \<open>One slot: the selection with its defaults filled in, and whether it fell back.\<close>

definition resolve_slot :: "'v tack_config \<Rightarrow> string \<Rightarrow> 'v selected_model \<Rightarrow> 'v selected_model \<times> bool" where
  "resolve_slot c t dflt =
     (case map_of (cf_models c) t of
        None \<Rightarrow> (dflt, False)
      | Some sel \<Rightarrow>
          (let s = dflt;
               s = (if sel_model sel \<noteq> [] then s\<lparr>sel_model := sel_model sel\<rparr> else s);
               s = (if sel_provider sel \<noteq> [] then s\<lparr>sel_provider := sel_provider sel\<rparr> else s)
           in case GetModel c (sel_provider s) (sel_model s) of
                None \<Rightarrow> (dflt, True)
              | Some m \<Rightarrow>
                  (s\<lparr>sel_max_tokens := (if sel_max_tokens sel > 0 then sel_max_tokens sel else cat_max_tokens m),
                     sel_effort := (if sel_effort sel \<noteq> [] then sel_effort sel else cat_effort m),
                     sel_think := sel_think sel,
                     sel_temperature := or_default (sel_temperature sel) (sel_temperature s),
                     sel_top_p := or_default (sel_top_p sel) (sel_top_p s),
                     sel_top_k := or_default (sel_top_k sel) (sel_top_k s),
                     sel_frequency := or_default (sel_frequency sel) (sel_frequency s),
                     sel_presence := or_default (sel_presence sel) (sel_presence s),
                     sel_options := or_default (sel_options sel) (sel_options s)\<rparr>, False)))"

record 'v resolved_models =
  rm_large :: "'v selected_model"
  rm_small :: "'v selected_model"
  rm_large_fallback :: bool
  rm_small_fallback :: bool

definition resolveSelectedModels :: "'v tack_config \<Rightarrow> known_provider list \<Rightarrow> (string + 'v resolved_models) option" where
  "resolveSelectedModels c known =
     (case defaultModelSelection c known of
        None \<Rightarrow> None
      | Some (Inl e) \<Rightarrow> Some (Inl (''failed to select default models: '' @ e))
      | Some (Inr (defaultLarge, defaultSmall)) \<Rightarrow>
          (let (large, lf) = resolve_slot c large_type defaultLarge;
               (small, sf) = resolve_slot c small_type defaultSmall;
               small = (if map_of (cf_models c) small_type = None \<and> \<not> list_ex (\<lambda>kp. kp_id kp = sel_provider small) known
                        then large else small)
           in Some (Inr \<lparr>rm_large = large, rm_small = small, rm_large_fallback = lf, rm_small_fallback = sf\<rparr>)))"

subsection \<open>Recent models\<close>

definition maxRecentModelsPerType :: nat where "maxRecentModelsPerType = 5"

definition same_model :: "'v selected_model \<Rightarrow> 'v selected_model \<Rightarrow> bool" where
  "same_model a b \<longleftrightarrow> sel_provider a = sel_provider b \<and> sel_model a = sel_model b"

definition recent_of :: "'v tack_config \<Rightarrow> string \<Rightarrow> 'v selected_model list" where
  "recent_of c t = (case map_of (cf_recent c) t of Some xs \<Rightarrow> xs | None \<Rightarrow> [])"

definition nextRecentModels :: "'v tack_config \<Rightarrow> string \<Rightarrow> 'v selected_model \<Rightarrow> 'v selected_model list \<times> bool" where
  "nextRecentModels c t model =
     (if sel_provider model = [] \<or> sel_model model = [] then ([], False)
      else
        (let entry = zero_model\<lparr>sel_provider := sel_provider model, sel_model := sel_model model\<rparr>;
             current = recent_of c t;
             withoutCurrent = filter (\<lambda>existing. \<not> same_model existing entry) current;
             updated = take maxRecentModelsPerType (entry # withoutCurrent)
         in if length current = length updated \<and> list_all2 same_model current updated then (current, False)
            else (updated, True)))"

subsection \<open>The store\<close>

datatype config_scope = ScopeGlobal | ScopeWorkspace | ScopeOther

datatype 'v field_value = FieldModel "'v selected_model" | FieldRecent "'v selected_model list" | FieldBool bool

record 'v config_changes =
  cg_set :: "(string, 'v field_value) gomap"
  cg_remove :: "string list"

definition no_changes :: "'v config_changes" where
  "no_changes = \<lparr>cg_set = [], cg_remove = []\<rparr>"

record ('v, 'd) config_store =
  cs_config :: "'v tack_config"
  cs_pins :: "(string, 'v selected_model) gomap"
  cs_global :: "'d option"
  cs_workspace :: "'d option"
  cs_has_workspace :: bool

record write_env =
  we_lock :: "string option"
  we_read :: "string option"
  we_write :: "string option"

definition configPath :: "('v, 'd) config_store \<Rightarrow> config_scope \<Rightarrow> string option" where
  "configPath s scope =
     (case scope of
        ScopeGlobal \<Rightarrow> None
      | ScopeWorkspace \<Rightarrow> if cs_has_workspace s then None else Some ''no workspace config path configured''
      | ScopeOther \<Rightarrow> Some ''invalid config mutation: unsupported scope'')"

definition scope_file :: "config_scope \<Rightarrow> ('v, 'd) config_store \<Rightarrow> 'd option" where
  "scope_file scope s = (if scope = ScopeGlobal then cs_global s else cs_workspace s)"

definition put_config :: "config_scope \<Rightarrow> 'd \<Rightarrow> ('v, 'd) config_store \<Rightarrow> ('v, 'd) config_store" where
  "put_config scope d s = (if scope = ScopeGlobal then s\<lparr>cs_global := Some d\<rparr> else s\<lparr>cs_workspace := Some d\<rparr>)"

text \<open>\<open>blank\<close> is the document \<^verbatim>\<open>{}\<close> a missing file counts as.\<close>

definition atomicWrite :: "'d \<Rightarrow> write_env \<Rightarrow> config_scope \<Rightarrow> ('d \<Rightarrow> string + 'd) \<Rightarrow> ('v, 'd) config_store \<Rightarrow>
    string option \<times> ('v, 'd) config_store" where
  "atomicWrite blank env scope fn s =
     (case configPath s scope of
        Some e \<Rightarrow> (Some e, s)
      | None \<Rightarrow>
          (case we_lock env of
             Some e \<Rightarrow> (Some e, s)
           | None \<Rightarrow>
               (case we_read env of
                  Some e \<Rightarrow> (Some (''read config file: '' @ e), s)
                | None \<Rightarrow>
                    (case fn (case scope_file scope s of Some d \<Rightarrow> d | None \<Rightarrow> blank) of
                       Inl e \<Rightarrow> (Some e, s)
                     | Inr d \<Rightarrow> (case we_write env of Some e \<Rightarrow> (Some e, s) | None \<Rightarrow> (None, put_config scope d s))))))"

fun delete_fields :: "('d \<Rightarrow> string \<Rightarrow> string + 'd) \<Rightarrow> string list \<Rightarrow> 'd \<Rightarrow> string + 'd" where
  "delete_fields sdelete [] d = Inr d"
| "delete_fields sdelete (k # ks) d =
     (case sdelete d k of
        Inl e \<Rightarrow> Inl (''failed to delete config field '' @ k @ '': '' @ e)
      | Inr d \<Rightarrow> delete_fields sdelete ks d)"

fun set_fields :: "('d \<Rightarrow> string \<Rightarrow> 'v field_value \<Rightarrow> string + 'd) \<Rightarrow> (string \<Rightarrow> 'v field_value) \<Rightarrow> string list \<Rightarrow> 'd \<Rightarrow> string + 'd" where
  "set_fields sset val [] d = Inr d"
| "set_fields sset val (k # ks) d =
     (case sset d k (val k) of
        Inl e \<Rightarrow> Inl (''failed to set config field '' @ k @ '': '' @ e)
      | Inr d \<Rightarrow> set_fields sset val ks d)"

definition apply_changes :: "('d \<Rightarrow> string \<Rightarrow> string + 'd) \<Rightarrow> ('d \<Rightarrow> string \<Rightarrow> 'v field_value \<Rightarrow> string + 'd) \<Rightarrow> 'v config_changes \<Rightarrow>
    'd \<Rightarrow> string + 'd" where
  "apply_changes sdelete sset ch d =
     (case delete_fields sdelete (sort (cg_remove ch)) d of
        Inl e \<Rightarrow> Inl e
      | Inr d \<Rightarrow> set_fields sset (\<lambda>k. the (map_of (cg_set ch) k)) (sort (map fst (cg_set ch))) d)"

definition changes_empty :: "'v config_changes \<Rightarrow> bool" where
  "changes_empty ch \<longleftrightarrow> cg_set ch = [] \<and> cg_remove ch = []"

definition writeConfigChanges :: "'d \<Rightarrow> ('d \<Rightarrow> string \<Rightarrow> string + 'd) \<Rightarrow> ('d \<Rightarrow> string \<Rightarrow> 'v field_value \<Rightarrow> string + 'd) \<Rightarrow> write_env \<Rightarrow>
    config_scope \<Rightarrow> 'v config_changes \<Rightarrow> ('v, 'd) config_store \<Rightarrow> string option \<times> ('v, 'd) config_store" where
  "writeConfigChanges blank sdelete sset env scope ch s =
     (if changes_empty ch then (None, s) else atomicWrite blank env scope (apply_changes sdelete sset ch) s)"

text \<open>
  The transaction: \<open>mutate\<close> edits a clone of the configuration and the pins, and says what to write.
  On an error the pins are put back and nothing is published.
\<close>

type_synonym 'v mutator =
  "'v tack_config \<times> (string, 'v selected_model) gomap \<Rightarrow> ('v tack_config \<times> (string, 'v selected_model) gomap) \<times> 'v config_changes"

definition updateChangesLocked :: "'d \<Rightarrow> ('d \<Rightarrow> string \<Rightarrow> string + 'd) \<Rightarrow> ('d \<Rightarrow> string \<Rightarrow> 'v field_value \<Rightarrow> string + 'd) \<Rightarrow> write_env \<Rightarrow>
    config_scope \<Rightarrow> 'v mutator \<Rightarrow> ('v, 'd) config_store \<Rightarrow> string option \<times> ('v, 'd) config_store" where
  "updateChangesLocked blank sdelete sset env scope mutate s =
     (let previousPins = cs_pins s;
          ((next, pins), ch) = mutate (cs_config s, cs_pins s);
          s = s\<lparr>cs_pins := pins\<rparr>
      in if \<not> changes_empty ch then
           (case writeConfigChanges blank sdelete sset env scope ch s of
              (Some e, s) \<Rightarrow> (Some e, s\<lparr>cs_pins := previousPins\<rparr>)
            | (None, s) \<Rightarrow> (None, s\<lparr>cs_config := next\<rparr>))
         else (None, s\<lparr>cs_config := next\<rparr>))"

definition updatePreferredModelFields :: "string \<Rightarrow> 'v selected_model \<Rightarrow> 'v tack_config \<times> (string, 'v selected_model) gomap \<Rightarrow>
    ('v tack_config \<times> (string, 'v selected_model) gomap) \<times> (string, 'v field_value) gomap" where
  "updatePreferredModelFields t model =
     (\<lambda>(c, pins).
        (let c = c\<lparr>cf_models := AList.update t model (cf_models c)\<rparr>;
             pins = AList.update t model pins;
             fields = [(''models.'' @ t, FieldModel model)];
             (updated, changed) = nextRecentModels c t model
         in if changed then
              ((c\<lparr>cf_recent := AList.update t updated (cf_recent c)\<rparr>, pins),
               AList.update (''recent_models.'' @ t) (FieldRecent updated) fields)
            else ((c, pins), fields)))"

definition model_update_error :: "string \<times> 'v selected_model option \<Rightarrow> string option" where
  "model_update_error =
     (\<lambda>(t, model).
        if \<not> type_Valid t then Some (''invalid config mutation: unsupported model type '' @ t)
        else (case model of
                None \<Rightarrow> None
              | Some m \<Rightarrow>
                  if trim_space (sel_provider m) = [] \<or> trim_space (sel_model m) = []
                  then Some (''invalid config mutation: model '' @ t @ '' requires provider and model'') else None))"

definition validatePreferredModelUpdates :: "(string, 'v selected_model option) gomap \<Rightarrow> string option" where
  "validatePreferredModelUpdates updates =
     (if updates = [] then Some ''invalid config mutation: models must not be empty''
      else (case List.map_filter model_update_error updates of e # _ \<Rightarrow> Some e | [] \<Rightarrow> None))"

definition update_slot :: "(string, 'v selected_model option) gomap \<Rightarrow>
    ('v tack_config \<times> (string, 'v selected_model) gomap) \<times> 'v config_changes \<Rightarrow> string \<Rightarrow>
    ('v tack_config \<times> (string, 'v selected_model) gomap) \<times> 'v config_changes" where
  "update_slot updates =
     (\<lambda>(st, ch) t.
        (case map_of updates t of
           None \<Rightarrow> (st, ch)
         | Some None \<Rightarrow>
             (((fst st)\<lparr>cf_models := AList.delete t (cf_models (fst st))\<rparr>, AList.delete t (snd st)),
              ch\<lparr>cg_remove := cg_remove ch @ [''models.'' @ t]\<rparr>)
         | Some (Some model) \<Rightarrow>
             (let (st, fields) = updatePreferredModelFields t model st
              in (st, ch\<lparr>cg_set := foldl (\<lambda>m (k, v). AList.update k v m) (cg_set ch) fields\<rparr>))))"

definition preferred_models_mutator :: "(string, 'v selected_model option) gomap \<Rightarrow> 'v mutator" where
  "preferred_models_mutator updates st = foldl (update_slot updates) (st, no_changes) [large_type, small_type]"

definition UpdatePreferredModels :: "'d \<Rightarrow> ('d \<Rightarrow> string \<Rightarrow> string + 'd) \<Rightarrow> ('d \<Rightarrow> string \<Rightarrow> 'v field_value \<Rightarrow> string + 'd) \<Rightarrow> write_env \<Rightarrow>
    config_scope \<Rightarrow> (string, 'v selected_model option) gomap \<Rightarrow> ('v, 'd) config_store \<Rightarrow> string option \<times> ('v, 'd) config_store" where
  "UpdatePreferredModels blank sdelete sset env scope updates s =
     (case validatePreferredModelUpdates updates of
        Some e \<Rightarrow> (Some e, s)
      | None \<Rightarrow> updateChangesLocked blank sdelete sset env scope (preferred_models_mutator updates) s)"

definition OverridePreferredModel :: "string \<Rightarrow> 'v selected_model \<Rightarrow> ('v, 'd) config_store \<Rightarrow> ('v, 'd) config_store" where
  "OverridePreferredModel t model s =
     s\<lparr>cs_config := (cs_config s)\<lparr>cf_models := AList.update t model (cf_models (cs_config s))\<rparr>, cs_pins := AList.update t model (cs_pins s)\<rparr>"

definition SetCompactMode :: "'d \<Rightarrow> ('d \<Rightarrow> string \<Rightarrow> string + 'd) \<Rightarrow> ('d \<Rightarrow> string \<Rightarrow> 'v field_value \<Rightarrow> string + 'd) \<Rightarrow> write_env \<Rightarrow>
    config_scope \<Rightarrow> bool \<Rightarrow> ('v, 'd) config_store \<Rightarrow> string option \<times> ('v, 'd) config_store" where
  "SetCompactMode blank sdelete sset env scope enabled =
     updateChangesLocked blank sdelete sset env scope
       (\<lambda>(c, pins). ((c\<lparr>cf_compact := enabled\<rparr>, pins), no_changes\<lparr>cg_set := [(''options.tui.compact_mode'', FieldBool enabled)]\<rparr>))"

definition SetTransparentBackground :: "'d \<Rightarrow> ('d \<Rightarrow> string \<Rightarrow> string + 'd) \<Rightarrow> ('d \<Rightarrow> string \<Rightarrow> 'v field_value \<Rightarrow> string + 'd) \<Rightarrow> write_env \<Rightarrow>
    config_scope \<Rightarrow> bool \<Rightarrow> ('v, 'd) config_store \<Rightarrow> string option \<times> ('v, 'd) config_store" where
  "SetTransparentBackground blank sdelete sset env scope enabled =
     updateChangesLocked blank sdelete sset env scope
       (\<lambda>(c, pins). ((c\<lparr>cf_transparent := Some enabled\<rparr>, pins), no_changes\<lparr>cg_set := [(''options.tui.transparent'', FieldBool enabled)]\<rparr>))"

subsection \<open>Reloading\<close>

text \<open>
  The part of a reload after parsing: \<open>cfg\<close> is the merged configuration, \<open>configure\<close> what
  \<^verbatim>\<open>configureProviders\<close> makes of it. \<^verbatim>\<open>maps.Copy\<close> puts the pins over the models of the file.
\<close>

definition maps_Copy :: "('k, 'v) gomap \<Rightarrow> ('k, 'v) gomap \<Rightarrow> ('k, 'v) gomap" where
  "maps_Copy dst src = foldl (\<lambda>m (k, v). AList.update k v m) dst src"

definition reloadFromDisk :: "('v tack_config \<Rightarrow> string + 'v tack_config) \<Rightarrow> known_provider list \<Rightarrow> string + 'v tack_config \<Rightarrow>
    ('v, 'd) config_store \<Rightarrow> (string option \<times> ('v, 'd) config_store) option" where
  "reloadFromDisk configure known parsed s =
     (case parsed of
        Inl e \<Rightarrow> Some (Some (''failed to reload config: '' @ e), s)
      | Inr cfg \<Rightarrow>
          (let cfg = cfg\<lparr>cf_models := maps_Copy (cf_models cfg) (cs_pins s)\<rparr> in
           case configure cfg of
             Inl e \<Rightarrow> Some (Some (''failed to configure providers during reload: '' @ e), s)
           | Inr cfg \<Rightarrow>
               if \<not> IsConfigured cfg then Some (None, s\<lparr>cs_config := cfg\<rparr>)
               else
                 (case resolveSelectedModels cfg known of
                    None \<Rightarrow> None
                  | Some (Inl e) \<Rightarrow> Some (Some (''failed to configure selected models during reload: '' @ e), s)
                  | Some (Inr r) \<Rightarrow>
                      Some (None, s\<lparr>cs_config := cfg\<lparr>cf_models :=
                        AList.update small_type (rm_small r) (AList.update large_type (rm_large r) (cf_models cfg))\<rparr>\<rparr>))))"

subsection \<open>Staleness\<close>

text \<open>\<open>FileAt sz tm\<close>, a missing file, a directory, or another error of \<^verbatim>\<open>os.Stat\<close>.\<close>

datatype config_stat = FileAt int int | FileMissing | FileIsDir | StatError string

record file_snapshot =
  fs_exists :: bool
  fs_size :: int
  fs_time :: int

record staleness =
  sl_dirty :: bool
  sl_changed :: "string list"
  sl_missing :: "string list"
  sl_errors :: "(string, string) gomap"

definition take_snapshot :: "config_stat \<Rightarrow> file_snapshot" where
  "take_snapshot st =
     (case st of FileAt sz tm \<Rightarrow> \<lparr>fs_exists = True, fs_size = sz, fs_time = tm\<rparr> | _ \<Rightarrow> \<lparr>fs_exists = False, fs_size = 0, fs_time = 0\<rparr>)"

definition stale_path :: "(string \<Rightarrow> config_stat) \<Rightarrow> (string, file_snapshot) gomap \<Rightarrow> staleness \<Rightarrow> string \<Rightarrow> staleness" where
  "stale_path stat snaps r path =
     (let r = (case stat path of StatError e \<Rightarrow> r\<lparr>sl_errors := AList.update path e (sl_errors r), sl_dirty := True\<rparr> | _ \<Rightarrow> r) in
      case stat path of
        FileAt sz tm \<Rightarrow>
          (case map_of snaps path of
             Some snap \<Rightarrow>
               if \<not> fs_exists snap \<or> fs_size snap \<noteq> sz \<or> fs_time snap \<noteq> tm
               then r\<lparr>sl_changed := sl_changed r @ [path], sl_dirty := True\<rparr> else r
           | None \<Rightarrow> r\<lparr>sl_changed := sl_changed r @ [path], sl_dirty := True\<rparr>)
      | _ \<Rightarrow>
          (case map_of snaps path of
             Some snap \<Rightarrow> if fs_exists snap then r\<lparr>sl_missing := sl_missing r @ [path], sl_dirty := True\<rparr> else r
           | None \<Rightarrow> r))"

definition ConfigStaleness :: "(string \<Rightarrow> config_stat) \<Rightarrow> string list \<Rightarrow> (string, file_snapshot) gomap \<Rightarrow> staleness" where
  "ConfigStaleness stat tracked snaps =
     (let r = foldl (stale_path stat snaps) \<lparr>sl_dirty = False, sl_changed = [], sl_missing = [], sl_errors = []\<rparr> tracked
      in r\<lparr>sl_changed := sort (sl_changed r), sl_missing := sort (sl_missing r)\<rparr>)"

definition RefreshStalenessSnapshot :: "(string \<Rightarrow> config_stat) \<Rightarrow> string list \<Rightarrow> (string, file_snapshot) gomap \<Rightarrow> (string, file_snapshot) gomap" where
  "RefreshStalenessSnapshot stat tracked snaps = foldl (\<lambda>m p. AList.update p (take_snapshot (stat p)) m) snaps tracked"

text \<open>\<open>absPath\<close> is \<^verbatim>\<open>filepath.Abs\<close>; the workspace and global paths are tracked too.\<close>

definition tracked_paths :: "(string \<Rightarrow> string option) \<Rightarrow> string list \<Rightarrow> string \<Rightarrow> string \<Rightarrow> string list" where
  "tracked_paths absPath paths workspacePath globalPath =
     sort (remdups (map (\<lambda>p. case absPath p of Some a \<Rightarrow> a | None \<Rightarrow> p) (filter (\<lambda>p. p \<noteq> []) paths) @
       List.map_filter absPath (filter (\<lambda>p. p \<noteq> []) [workspacePath, globalPath])))"

definition CaptureStalenessSnapshot :: "(string \<Rightarrow> string option) \<Rightarrow> (string \<Rightarrow> config_stat) \<Rightarrow> string list \<Rightarrow> string \<Rightarrow> string \<Rightarrow>
    (string, file_snapshot) gomap \<Rightarrow> string list \<times> (string, file_snapshot) gomap" where
  "CaptureStalenessSnapshot absPath stat paths workspacePath globalPath snaps =
     (let tracked = tracked_paths absPath paths workspacePath globalPath
      in (tracked, RefreshStalenessSnapshot stat tracked snaps))"

subsection \<open>Waiting for a login\<close>

text \<open>
  \<^verbatim>\<open>WaitForTokenChange\<close> and \<^verbatim>\<open>SignalAuthComplete\<close>: channels are numbers, \<open>au_closed\<close> the closed ones,
  \<open>au_waiting\<close> the goroutines blocked with their provider and channel.
\<close>

record auth_signals =
  au_signals :: "(string, nat) gomap"
  au_closed :: "nat list"
  au_next :: nat
  au_waiting :: "(nat, string \<times> nat) gomap"
  au_next_waiter :: nat

definition no_signals :: auth_signals where
  "no_signals = \<lparr>au_signals = [], au_closed = [], au_next = 0, au_waiting = [], au_next_waiter = 0\<rparr>"

definition WaitForTokenChange :: "string \<Rightarrow> auth_signals \<Rightarrow> auth_signals" where
  "WaitForTokenChange pid a =
     (let (ch, a) = (case map_of (au_signals a) pid of
                       Some ch \<Rightarrow> (ch, a)
                     | None \<Rightarrow> (au_next a, a\<lparr>au_signals := AList.update pid (au_next a) (au_signals a), au_next := Suc (au_next a)\<rparr>))
      in a\<lparr>au_waiting := AList.update (au_next_waiter a) (pid, ch) (au_waiting a), au_next_waiter := Suc (au_next_waiter a)\<rparr>)"

text \<open>The select: the channel is closed; or the context is done.\<close>

definition wait_returns :: "nat \<Rightarrow> auth_signals \<Rightarrow> auth_signals option" where
  "wait_returns w a =
     (case map_of (au_waiting a) w of
        None \<Rightarrow> None
      | Some (pid, ch) \<Rightarrow>
          if ch \<in> set (au_closed a) then
            Some ((if map_of (au_signals a) pid = Some ch then a\<lparr>au_signals := AList.delete pid (au_signals a)\<rparr> else a)
              \<lparr>au_waiting := AList.delete w (au_waiting a)\<rparr>)
          else None)"

definition wait_cancelled :: "nat \<Rightarrow> auth_signals \<Rightarrow> auth_signals option" where
  "wait_cancelled w a =
     (case map_of (au_waiting a) w of None \<Rightarrow> None | Some _ \<Rightarrow> Some (a\<lparr>au_waiting := AList.delete w (au_waiting a)\<rparr>))"

definition SignalAuthComplete :: "string \<Rightarrow> auth_signals \<Rightarrow> auth_signals" where
  "SignalAuthComplete pid a =
     (case map_of (au_signals a) pid of
        Some ch \<Rightarrow>
          (let a = a\<lparr>au_signals := AList.delete pid (au_signals a)\<rparr>
           in if ch \<in> set (au_closed a) then a else a\<lparr>au_closed := ch # au_closed a\<rparr>)
      | None \<Rightarrow>
          a\<lparr>au_signals := AList.update pid (au_next a) (au_signals a), au_closed := au_next a # au_closed a, au_next := Suc (au_next a)\<rparr>)"

inductive auth_step :: "auth_signals \<Rightarrow> auth_signals \<Rightarrow> bool" where
  auth_wait: "auth_step a (WaitForTokenChange pid a)"
| auth_signal: "auth_step a (SignalAuthComplete pid a)"
| auth_return: "wait_returns w a = Some a' \<Longrightarrow> auth_step a a'"
| auth_cancel: "wait_cancelled w a = Some a' \<Longrightarrow> auth_step a a'"

end
