(* ===== verification/Config_Store_Props.thy ===== *)
theory Config_Store_Props
  imports Config_Store "HOL-Library.Multiset"
begin

section \<open>Properties of the configuration store\<close>

text \<open>
  The models selected exist, the recent models, the transaction that changes models, the choice that
  survives reloads, the staleness check, and the login signals.
\<close>

subsection \<open>Selected models\<close>

definition providers_ok :: "'v tack_config \<Rightarrow> bool" where
  "providers_ok c \<longleftrightarrow> smap_ok (cf_providers c) \<and> list_all (\<lambda>(k, pc). pv_id pc = k) (inner (cf_providers c))"

definition model_known :: "'v tack_config \<Rightarrow> 'v selected_model \<Rightarrow> bool" where
  "model_known c s \<longleftrightarrow> GetModel c (sel_provider s) (sel_model s) \<noteq> None"

lemma find_id: "m \<in> set ms \<Longrightarrow> find (\<lambda>x. cat_id x = cat_id m) ms \<noteq> None"
  by (auto simp: find_None_iff)

lemma catalog_default_known:
  assumes "catalog_default c pc slot pid mid = Inr m" and "Map_Get (cf_providers c) pid = Some pc"
  shows "GetModel c pid (cat_id m) \<noteq> None"
proof -
  have "m \<in> set (pv_models pc)"
    using assms by (auto simp: catalog_default_def GetModel_def find_Some_iff split: option.splits if_splits)
  with find_id [OF this] assms(2) show ?thesis by (simp add: GetModel_def)
qed

lemma default_known_known:
  "default_known c known = Some (Inr (large, small)) \<Longrightarrow> model_known c large \<and> model_known c small"
proof (induction c known rule: default_known.induct)
  case (2 c p ps)
  then show ?case
    by (auto simp: model_known_def default_selection_def zero_model_def dest: catalog_default_known split: option.splits if_splits sum.splits)
qed simp

lemma defaultModelSelection_known:
  assumes "providers_ok c"
  shows "\<exists>r. defaultModelSelection c known = Some r \<and> (\<forall>large small. r = Inr (large, small) \<longrightarrow> model_known c large \<and> model_known c small)"
proof (cases "default_known c known")
  case (Some r)
  then show ?thesis using default_known_known by (fastforce simp: defaultModelSelection_def)
next
  case None
  show ?thesis
  proof (cases "sort_key pv_id (EnabledProviders c)")
    case Nil
    with None show ?thesis by (simp add: defaultModelSelection_def)
  next
    case (Cons pc pcs)
    then have "pc \<in> set (EnabledProviders c)" by (metis list.set_intros(1) set_sort)
    then obtain k where "(k, pc) \<in> set (inner (cf_providers c))" by (auto simp: EnabledProviders_def)
    with assms have "(pv_id pc, pc) \<in> set (inner (cf_providers c))" by (auto simp: providers_ok_def list_all_iff)
    with assms have g: "Map_Get (cf_providers c) (pv_id pc) = Some pc" by (simp add: providers_ok_def smap_ok_def Map_Get_def)
    show ?thesis
    proof (cases "pv_models pc")
      case Nil
      with None Cons show ?thesis by (simp add: defaultModelSelection_def)
    next
      case ms: (Cons m ms)
      have "GetModel c (pv_id pc) (cat_id m) = Some m" by (simp add: GetModel_def g ms)
      with None Cons ms show ?thesis by (simp add: defaultModelSelection_def model_known_def zero_model_def Let_def)
    qed
  qed
qed

lemma resolve_slot_known: "model_known c d \<Longrightarrow> model_known c (fst (resolve_slot c t d))"
  by (auto simp: resolve_slot_def model_known_def Let_def split: option.split)

lemma resolve_slot_selected:
  assumes "map_of (cf_models c) t = Some sel" and "sel_model sel \<noteq> []" and "sel_provider sel \<noteq> []"
  shows "snd (resolve_slot c t d) \<longleftrightarrow> \<not> model_known c sel" and "model_known c sel \<Longrightarrow> same_model (fst (resolve_slot c t d)) sel"
  using assms by (auto simp: resolve_slot_def model_known_def same_model_def Let_def split: option.split)

text \<open>
  C36: when every provider is stored under its own ID, choosing the models never dereferences a missing
  model, the two models chosen exist in the catalog, and a model the user selected is kept if it
  exists and replaced, with the correction reported, only if it does not.
\<close>

theorem resolved_models_exist:
  assumes "providers_ok c"
  shows "\<exists>res. resolveSelectedModels c known = Some res \<and>
    (\<forall>r. res = Inr r \<longrightarrow> model_known c (rm_large r) \<and> model_known c (rm_small r) \<and>
       (map_of (cf_models c) large_type = Some sel \<and> sel_model sel \<noteq> [] \<and> sel_provider sel \<noteq> [] \<longrightarrow>
          (rm_large_fallback r \<longleftrightarrow> \<not> model_known c sel) \<and> (model_known c sel \<longrightarrow> same_model (rm_large r) sel)) \<and>
       (map_of (cf_models c) small_type = Some sel' \<and> sel_model sel' \<noteq> [] \<and> sel_provider sel' \<noteq> [] \<longrightarrow>
          (rm_small_fallback r \<longleftrightarrow> \<not> model_known c sel') \<and> (model_known c sel' \<longrightarrow> same_model (rm_small r) sel')))"
proof -
  obtain d where d: "defaultModelSelection c known = Some d"
    and k: "\<And>large small. d = Inr (large, small) \<Longrightarrow> model_known c large \<and> model_known c small"
    using defaultModelSelection_known [OF assms] by blast
  show ?thesis
  proof (cases d)
    case (Inl e)
    with d show ?thesis by (simp add: resolveSelectedModels_def)
  next
    case (Inr p)
    obtain dl ds where p: "p = (dl, ds)" by fastforce
    have known: "model_known c (fst (resolve_slot c large_type dl))" "model_known c (fst (resolve_slot c small_type ds))"
      using k Inr p resolve_slot_known by blast+
    have sl: "map_of (cf_models c) large_type = Some sel \<and> sel_model sel \<noteq> [] \<and> sel_provider sel \<noteq> [] \<Longrightarrow>
        (snd (resolve_slot c large_type dl) \<longleftrightarrow> \<not> model_known c sel) \<and> (model_known c sel \<longrightarrow> same_model (fst (resolve_slot c large_type dl)) sel)"
      using resolve_slot_selected [of c large_type sel dl] by blast
    have ss: "map_of (cf_models c) small_type = Some sel' \<and> sel_model sel' \<noteq> [] \<and> sel_provider sel' \<noteq> [] \<Longrightarrow>
        (snd (resolve_slot c small_type ds) \<longleftrightarrow> \<not> model_known c sel') \<and> (model_known c sel' \<longrightarrow> same_model (fst (resolve_slot c small_type ds)) sel')"
      using resolve_slot_selected [of c small_type sel' ds] by blast
    show ?thesis using d Inr p known sl ss by (simp add: resolveSelectedModels_def Let_def case_prod_beta)
  qed
qed

definition demo_config :: "nat tack_config" where
  "demo_config = \<lparr>cf_models = [(large_type, zero_model\<lparr>sel_model := ''m'', sel_provider := ''p''\<rparr>)], cf_recent = [],
     cf_providers = \<lparr>inner = [(''p'', \<lparr>pv_id = ''p'', pv_disable = False,
       pv_models = [\<lparr>cat_id = ''n'', cat_max_tokens = 9, cat_effort = []\<rparr>, \<lparr>cat_id = ''m'', cat_max_tokens = 8, cat_effort = []\<rparr>]\<rparr>)]\<rparr>,
     cf_compact = False, cf_transparent = None\<rparr>"

theorem resolved_models_exist_witness:
  "\<exists>r. resolveSelectedModels demo_config [] = Some (Inr r) \<and> same_model (rm_large r) (zero_model\<lparr>sel_model := ''m'', sel_provider := ''p''\<rparr>)"
proof -
  let ?sel = "zero_model\<lparr>sel_model := ''m'', sel_provider := ''p''\<rparr> :: nat selected_model"
  have ok: "providers_ok demo_config" by code_simp
  have s: "map_of (cf_models demo_config) large_type = Some ?sel" "sel_model ?sel \<noteq> []" "sel_provider ?sel \<noteq> []"
    by (simp_all add: demo_config_def zero_model_def)
  have k: "model_known demo_config ?sel" by code_simp
  have "(case resolveSelectedModels demo_config [] of Some (Inr _) \<Rightarrow> True | _ \<Rightarrow> False)" by code_simp
  then obtain r where "resolveSelectedModels demo_config [] = Some (Inr r)" by (auto split: option.splits sum.splits)
  with resolved_models_exist [OF ok, of "[]" ?sel ?sel] s k show ?thesis by auto
qed

subsection \<open>Recent models\<close>

definition recent_ok :: "'v selected_model list \<Rightarrow> bool" where
  "recent_ok xs \<longleftrightarrow> length xs \<le> 5 \<and> distinct (map (\<lambda>m. (sel_provider m, sel_model m)) xs)"

lemma same_model_key: "same_model a b \<longleftrightarrow> (sel_provider a, sel_model a) = (sel_provider b, sel_model b)"
  by (auto simp: same_model_def)

lemma list_all2_same: "list_all2 same_model xs ys \<longleftrightarrow> map (\<lambda>m. (sel_provider m, sel_model m)) xs = map (\<lambda>m. (sel_provider m, sel_model m)) ys"
  by (induction xs arbitrary: ys) (auto simp: same_model_def list_all2_Cons1 Cons_eq_map_conv)

text \<open>
  C33: recording a model puts it first in the list of recent models and leaves the order of the others; the
  list never holds a model twice nor more than five, and a list that would not change is not written.
\<close>

theorem recent_models_contract:
  assumes "recent_ok (recent_of c t)" and "sel_provider m \<noteq> []" and "sel_model m \<noteq> []"
    and "nextRecentModels c t m = (xs, changed)"
  shows "recent_ok xs \<and>
    map (\<lambda>x. (sel_provider x, sel_model x)) xs =
      take 5 ((sel_provider m, sel_model m) # filter (\<lambda>k. k \<noteq> (sel_provider m, sel_model m)) (map (\<lambda>x. (sel_provider x, sel_model x)) (recent_of c t))) \<and>
    (changed \<longleftrightarrow> map (\<lambda>x. (sel_provider x, sel_model x)) xs \<noteq> map (\<lambda>x. (sel_provider x, sel_model x)) (recent_of c t))"
proof -
  let ?key = "\<lambda>x :: 'a selected_model. (sel_provider x, sel_model x)"
  let ?entry = "zero_model\<lparr>sel_provider := sel_provider m, sel_model := sel_model m\<rparr> :: 'a selected_model"
  let ?upd = "take 5 (?entry # filter (\<lambda>x. \<not> same_model x ?entry) (recent_of c t))"
  have ek: "?key ?entry = ?key m" by (simp add: zero_model_def)
  have u: "map ?key ?upd = take 5 (?key m # filter (\<lambda>k. k \<noteq> ?key m) (map ?key (recent_of c t)))"
    by (simp add: take_map [symmetric] filter_map o_def same_model_key ek)
  have d: "distinct (map ?key (recent_of c t))" using assms(1) by (simp add: recent_ok_def)
  then have "distinct (?key m # filter (\<lambda>k. k \<noteq> ?key m) (map ?key (recent_of c t)))" by simp
  then have "distinct (map ?key ?upd)" unfolding u by (rule distinct_take)
  then have ok: "recent_ok ?upd" by (simp add: recent_ok_def)
  have r: "(xs, changed) = (if map ?key (recent_of c t) = map ?key ?upd then (recent_of c t, False) else (?upd, True))"
    using assms(2-4) unfolding nextRecentModels_def Let_def maxRecentModelsPerType_def list_all2_same
    by (metis (no_types, lifting) length_map)
  show ?thesis
  proof (cases "map ?key (recent_of c t) = map ?key ?upd")
    case True
    with r have "xs = recent_of c t" "\<not> changed" by simp_all
    with True assms(1) u show ?thesis by metis
  next
    case False
    with r have "xs = ?upd" "changed" by simp_all
    with False ok u show ?thesis by metis
  qed
qed

theorem recent_models_contract_witness:
  "recent_ok (fst (nextRecentModels demo_config large_type (zero_model\<lparr>sel_model := ''m'', sel_provider := ''p''\<rparr>)))"
proof -
  let ?m = "zero_model\<lparr>sel_model := ''m'', sel_provider := ''p''\<rparr> :: nat selected_model"
  have "recent_ok (recent_of demo_config large_type)" by code_simp
  moreover have "sel_provider ?m \<noteq> []" "sel_model ?m \<noteq> []" by (simp_all add: zero_model_def)
  ultimately show ?thesis using recent_models_contract [of demo_config large_type ?m, OF _ _ _ prod.collapse [symmetric]] by blast
qed

subsection \<open>The transaction\<close>











subsection \<open>A choice survives\<close>












subsection \<open>Staleness\<close>

definition is_file :: "config_stat \<Rightarrow> bool" where
  "is_file st \<longleftrightarrow> (case st of FileAt _ _ \<Rightarrow> True | _ \<Rightarrow> False)"

definition is_stat_error :: "config_stat \<Rightarrow> bool" where
  "is_stat_error st \<longleftrightarrow> (case st of StatError _ \<Rightarrow> True | _ \<Rightarrow> False)"

lemma snapshot_get: "map_of (RefreshStalenessSnapshot stat tracked snaps) p = (if p \<in> set tracked then Some (take_snapshot (stat p)) else map_of snaps p)"
proof -
  have "map_of (foldl (\<lambda>m p. AList.update p (take_snapshot (stat p)) m) snaps tracked) p =
    (if p \<in> set tracked then Some (take_snapshot (stat p)) else map_of snaps p)" for snaps
    by (induction tracked arbitrary: snaps) (auto simp: update_conv')
  then show ?thesis by (simp add: RefreshStalenessSnapshot_def)
qed

lemma stale_path_effect:
  assumes "map_of snaps p = Some (take_snapshot (stat p))"
  shows "sl_changed (stale_path stat' snaps r p) = sl_changed r @ (if is_file (stat' p) \<and> stat' p \<noteq> stat p then [p] else [])"
    and "sl_missing (stale_path stat' snaps r p) = sl_missing r @ (if is_file (stat p) \<and> \<not> is_file (stat' p) then [p] else [])"
    and "sl_dirty (stale_path stat' snaps r p) \<longleftrightarrow> sl_dirty r \<or> is_stat_error (stat' p) \<or>
      is_file (stat' p) \<and> stat' p \<noteq> stat p \<or> is_file (stat p) \<and> \<not> is_file (stat' p)"
  using assms by (auto simp: stale_path_def take_snapshot_def is_file_def is_stat_error_def Let_def split: config_stat.splits)

text \<open>
  C40: after the tracked files were captured, the check reports a path as changed exactly when it is a file that is
  new or has another size or time, as missing exactly when it was a file and is none, and the configuration
  as stale exactly when there is such a path or one that cannot be examined.
\<close>

theorem staleness_exact:
  assumes "CaptureStalenessSnapshot absPath stat paths workspace global_path snaps = (tracked, snaps')"
    and "ConfigStaleness stat' tracked snaps' = r"
  shows "sl_changed r = filter (\<lambda>p. is_file (stat' p) \<and> stat' p \<noteq> stat p) tracked \<and>
    sl_missing r = filter (\<lambda>p. is_file (stat p) \<and> \<not> is_file (stat' p)) tracked \<and>
    (sl_dirty r \<longleftrightarrow> sl_changed r \<noteq> [] \<or> sl_missing r \<noteq> [] \<or> list_ex (\<lambda>p. is_stat_error (stat' p)) tracked)"
proof -
  have t: "tracked = tracked_paths absPath paths workspace global_path" "snaps' = RefreshStalenessSnapshot stat tracked snaps"
    using assms(1) by (auto simp: CaptureStalenessSnapshot_def Let_def)
  have sorted: "sorted tracked" by (simp add: t(1) tracked_paths_def)
  have snap: "p \<in> set tracked \<Longrightarrow> map_of snaps' p = Some (take_snapshot (stat p))" for p
    by (simp add: t(2) snapshot_get)
  have run: "set xs \<subseteq> set tracked \<Longrightarrow>
      sl_changed (foldl (stale_path stat' snaps') r0 xs) = sl_changed r0 @ filter (\<lambda>p. is_file (stat' p) \<and> stat' p \<noteq> stat p) xs \<and>
      sl_missing (foldl (stale_path stat' snaps') r0 xs) = sl_missing r0 @ filter (\<lambda>p. is_file (stat p) \<and> \<not> is_file (stat' p)) xs \<and>
      (sl_dirty (foldl (stale_path stat' snaps') r0 xs) \<longleftrightarrow> sl_dirty r0 \<or>
         list_ex (\<lambda>p. is_stat_error (stat' p) \<or> is_file (stat' p) \<and> stat' p \<noteq> stat p \<or> is_file (stat p) \<and> \<not> is_file (stat' p)) xs)" for xs r0
  proof (induction xs arbitrary: r0)
    case (Cons x xs)
    then have "map_of snaps' x = Some (take_snapshot (stat x))" using snap by simp
    note e = stale_path_effect [where snaps = snaps' and p = x and stat = stat and stat' = stat' and r = r0, OF this]
    show ?case using Cons.IH [of "stale_path stat' snaps' r0 x"] Cons.prems e by auto
  qed simp
  obtain f where f: "f = foldl (stale_path stat' snaps') \<lparr>sl_dirty = False, sl_changed = [], sl_missing = [], sl_errors = []\<rparr> tracked" by simp
  note e = run [of tracked "\<lparr>sl_dirty = False, sl_changed = [], sl_missing = [], sl_errors = []\<rparr>", OF subset_refl, folded f]
  have "sorted (filter p tracked)" for p using sorted by (rule sorted_wrt_filter)
  then have id: "sort (filter p tracked) = filter p tracked" for p by (rule sorted_sort_id)
  have "r = f\<lparr>sl_changed := sort (sl_changed f), sl_missing := sort (sl_missing f)\<rparr>"
    using assms(2) by (simp add: ConfigStaleness_def Let_def f)
  then have c: "sl_changed r = filter (\<lambda>p. is_file (stat' p) \<and> stat' p \<noteq> stat p) tracked"
    "sl_missing r = filter (\<lambda>p. is_file (stat p) \<and> \<not> is_file (stat' p)) tracked" "sl_dirty r = sl_dirty f"
    using e id by simp_all
  have "sl_dirty r \<longleftrightarrow> sl_changed r \<noteq> [] \<or> sl_missing r \<noteq> [] \<or> list_ex (\<lambda>p. is_stat_error (stat' p)) tracked"
    unfolding c using e by (simp add: list_ex_iff filter_empty_conv) blast
  with c(1,2) show ?thesis by blast
qed

theorem staleness_exact_witness:
  "sl_dirty (ConfigStaleness (\<lambda>p. if p = ''/a'' then FileAt 3 8 else FileMissing)
     (fst (CaptureStalenessSnapshot Some (\<lambda>p. if p = ''/a'' then FileAt 3 7 else FileMissing) [''/b'', ''/a''] [] [] []))
     (snd (CaptureStalenessSnapshot Some (\<lambda>p. if p = ''/a'' then FileAt 3 7 else FileMissing) [''/b'', ''/a''] [] [] [])))"
proof -
  let ?cap = "CaptureStalenessSnapshot Some (\<lambda>p. if p = ''/a'' then FileAt 3 7 else FileMissing) [''/b'', ''/a''] [] [] []"
  have "''/a'' \<in> set (fst ?cap)" by (simp add: CaptureStalenessSnapshot_def tracked_paths_def Let_def)
  moreover have "?cap = (fst ?cap, snd ?cap)" by simp
  note staleness_exact [OF this refl, where stat' = "\<lambda>p. if p = ''/a'' then FileAt 3 8 else FileMissing"]
  ultimately show ?thesis by (auto simp: filter_empty_conv is_file_def)
qed

subsection \<open>Login signals\<close>

definition auth_inv :: "auth_signals \<Rightarrow> bool" where
  "auth_inv a \<longleftrightarrow> distinct (au_closed a) \<and> (\<forall>ch\<in>set (au_closed a). ch < au_next a) \<and>
     (\<forall>pid ch. map_of (au_signals a) pid = Some ch \<longrightarrow> ch < au_next a) \<and>
     (\<forall>w pid ch. map_of (au_waiting a) w = Some (pid, ch) \<longrightarrow> ch < au_next a \<and>
        (ch \<notin> set (au_closed a) \<longrightarrow> map_of (au_signals a) pid = Some ch))"

lemma auth_inv_step: "auth_step a a' \<Longrightarrow> auth_inv a \<Longrightarrow> auth_inv a'"
proof (induction rule: auth_step.induct)
  case (auth_wait a pid)
  then show ?case
    by (cases "map_of (au_signals a) pid")
       (auto simp: WaitForTokenChange_def auth_inv_def Let_def update_conv' less_Suc_eq simp del: map_of_eq_Some_iff map_of_eq_None_iff split: if_splits)
next
  case (auth_signal a pid)
  then show ?case
    by (cases "map_of (au_signals a) pid")
       (auto simp: SignalAuthComplete_def auth_inv_def Let_def update_conv' delete_conv' less_Suc_eq simp del: map_of_eq_Some_iff map_of_eq_None_iff split: if_splits,
        (metis option.inject)+)
next
  case (auth_return w a a')
  then show ?case
    by (auto simp: wait_returns_def auth_inv_def delete_conv' simp del: map_of_eq_Some_iff map_of_eq_None_iff split: option.splits if_splits)
next
  case (auth_cancel w a a')
  then show ?case
    by (auto simp: wait_cancelled_def auth_inv_def delete_conv' simp del: map_of_eq_Some_iff map_of_eq_None_iff split: option.splits if_splits)
qed

interpretation auth: transition_system "\<lambda>a. a = no_signals" auth_step auth_inv
proof
  show "a = no_signals \<Longrightarrow> auth_inv a" for a by (simp add: no_signals_def auth_inv_def)
qed (rule auth_inv_step)

text \<open>
  In every reachable state no channel was closed twice, and a signal for a provider releases every goroutine
  waiting for that provider: its channel is closed afterwards.
\<close>

theorem signal_releases_waiters:
  assumes "auth_step\<^sup>*\<^sup>* no_signals a"
  shows "distinct (au_closed a) \<and>
    (map_of (au_waiting a) w = Some (pid, ch) \<longrightarrow> wait_returns w (SignalAuthComplete pid a) \<noteq> None)"
proof -
  have i: "auth_inv a" by (rule auth.reachable_inv [OF refl assms])
  have "wait_returns w (SignalAuthComplete pid a) \<noteq> None" if w: "map_of (au_waiting a) w = Some (pid, ch)"
  proof (cases "ch \<in> set (au_closed a)")
    case True
    with w show ?thesis by (auto simp: wait_returns_def SignalAuthComplete_def Let_def simp del: map_of_eq_Some_iff split: option.split)
  next
    case False
    with i w have "map_of (au_signals a) pid = Some ch" by (auto simp: auth_inv_def simp del: map_of_eq_Some_iff)
    with False w show ?thesis by (simp add: wait_returns_def SignalAuthComplete_def Let_def del: map_of_eq_Some_iff)
  qed
  then show ?thesis using i by (simp add: auth_inv_def)
qed

theorem signal_releases_waiters_witness:
  "wait_returns 0 (SignalAuthComplete ''hyper'' (WaitForTokenChange ''hyper'' no_signals)) \<noteq> None"
proof -
  have "auth_step\<^sup>*\<^sup>* no_signals (WaitForTokenChange ''hyper'' no_signals)" by (rule r_into_rtranclp) (rule auth_wait)
  moreover have "map_of (au_waiting (WaitForTokenChange ''hyper'' no_signals)) 0 = Some (''hyper'', 0)"
    by (simp add: WaitForTokenChange_def no_signals_def)
  ultimately show ?thesis using signal_releases_waiters by blast
qed

text \<open>
  A signal with no waiter leaves a closed channel for the next one; a second such signal takes it away
  again, so the next waiter blocks although two logins were completed.
\<close>

lemma second_signal_cancels_first:
  "wait_returns 0 (WaitForTokenChange ''p'' (SignalAuthComplete ''p'' no_signals)) \<noteq> None"
  "wait_returns 0 (WaitForTokenChange ''p'' (SignalAuthComplete ''p'' (SignalAuthComplete ''p'' no_signals))) = None"
  by code_simp+

end
