(* ===== verification/Oauth_Refresh.thy ===== *)
theory Oauth_Refresh
  imports Go_Strings
begin

section \<open>Refreshing OAuth tokens: \<^verbatim>\<open>config/store.go\<close>, \<^verbatim>\<open>oauth/token.go\<close>, \<^verbatim>\<open>oauth/openai/claims.go\<close>\<close>

text \<open>
  Several processes share the configuration file with a provider's token. A provider that rotates
  refresh tokens accepts each one once: presenting a rotated one revokes the whole family. Each
  process single-flights its refreshes and holds the provider's lock file from the decision to the
  write. A process is a number; the steps of one refresh between two blocking calls are operations, and
  any process may be next.

  The server is the argument of the exchange: it fails, or it answers with a token, which it issues
  if the refresh token presented is the newest. \<open>rw_issued\<close> is its record of the tokens issued,
  newest first, by access token, refresh token and expiry. The clock is an argument; \<open>readable\<close> says whether
  the file could be read, the argument of \<open>RefreshPersist\<close> whether it could be written. An answer
  that is lost after the server has rotated the token is not covered: no client can tell it from a failure.
  The catalog of models fetched along with a token, and the provider fields it sets, are left out.
\<close>

subsection \<open>Tokens\<close>

record oauth_client =
  oc_id :: string
  oc_secret :: string
  oc_auth_url :: string
  oc_token_url :: string
  oc_style :: int

record oauth_token =
  tk_access :: string
  tk_refresh :: string
  tk_id :: string
  tk_type :: string
  tk_expires_in :: int
  tk_expires_at :: int
  tk_account :: string
  tk_email :: string
  tk_plan :: string
  tk_user :: string
  tk_fedramp :: bool
  tk_client :: "oauth_client option"

definition minRefreshBuffer :: int where "minRefreshBuffer = 30"

definition SetExpiresAt :: "int \<Rightarrow> oauth_token \<Rightarrow> oauth_token" where
  "SetExpiresAt now t =
     (if tk_expires_in t > 0 then t\<lparr>tk_expires_at := now + tk_expires_in t\<rparr>
      else if tk_expires_at t > 0 then t
      else t\<lparr>tk_expires_at := 0\<rparr>)"

text \<open>Division of Go truncates.\<close>

definition IsExpired :: "int \<Rightarrow> oauth_token \<Rightarrow> bool" where
  "IsExpired now t \<longleftrightarrow>
     (let tenth = (if tk_expires_in t < 0 then - (- tk_expires_in t div 10) else tk_expires_in t div 10)
      in tk_expires_at t - max tenth minRefreshBuffer \<le> now)"

definition keep_old :: "string \<Rightarrow> string \<Rightarrow> string" where
  "keep_old fresh previous = (if fresh = [] then previous else fresh)"

definition SetExpiresIn :: "int \<Rightarrow> oauth_token \<Rightarrow> oauth_token" where
  "SetExpiresIn now t = t\<lparr>tk_expires_in := tk_expires_at t - now\<rparr>"

definition IsRefreshTokenRevoked :: "string \<Rightarrow> bool" where
  "IsRefreshTokenRevoked body \<longleftrightarrow> str_contains body ''revoked'' \<or> str_contains body ''invalid_grant''"

text \<open>
  Account data is read out of the tokens themselves. \<open>claims\<close> stands for the libraries that decode
  the payload of a token, base64 and then JSON; \<^verbatim>\<open>None\<close> is a decoding error.
\<close>

record jwt_claims =
  jc_email :: string
  jc_profile_email :: string
  jc_account :: string
  jc_plan :: string
  jc_user :: string
  jc_legacy_user :: string
  jc_fedramp :: bool

record account_metadata =
  am_account :: string
  am_email :: string
  am_plan :: string
  am_user :: string
  am_fedramp :: bool

definition no_metadata :: account_metadata where
  "no_metadata = \<lparr>am_account = [], am_email = [], am_plan = [], am_user = [], am_fedramp = False\<rparr>"

definition MetadataFromJWT :: "(string \<Rightarrow> jwt_claims option) \<Rightarrow> string \<Rightarrow> account_metadata" where
  "MetadataFromJWT claims token =
     (case str_split token ''.'' of
        [header, payload, signature] \<Rightarrow>
          if payload = [] then no_metadata
          else (case claims payload of
              None \<Rightarrow> no_metadata
            | Some c \<Rightarrow> \<lparr>am_account = jc_account c, am_email = keep_old (jc_email c) (jc_profile_email c), am_plan = jc_plan c,
                am_user = keep_old (jc_user c) (jc_legacy_user c), am_fedramp = jc_fedramp c\<rparr>)
      | _ \<Rightarrow> no_metadata)"

definition recover_from :: "(string \<Rightarrow> jwt_claims option) \<Rightarrow> string \<Rightarrow> oauth_token \<Rightarrow> oauth_token" where
  "recover_from claims jwt t =
     (if jwt = [] then t
      else let m = MetadataFromJWT claims jwt
           in t\<lparr>tk_account := keep_old (tk_account t) (am_account m), tk_email := keep_old (tk_email t) (am_email m),
                tk_plan := keep_old (tk_plan t) (am_plan m), tk_user := keep_old (tk_user t) (am_user m),
                tk_fedramp := tk_fedramp t \<or> am_fedramp m\<rparr>)"

definition RecoverAccountMetadata :: "(string \<Rightarrow> jwt_claims option) \<Rightarrow> oauth_token \<Rightarrow> oauth_token \<times> bool" where
  "RecoverAccountMetadata claims t =
     (let t' = recover_from claims (tk_access t) (recover_from claims (tk_id t) t) in (t', t' \<noteq> t))"

definition mergeOAuthTokenMetadata :: "(string \<Rightarrow> jwt_claims option) \<Rightarrow> oauth_token \<Rightarrow> oauth_token \<Rightarrow> oauth_token" where
  "mergeOAuthTokenMetadata claims fresh previous =
     fst (RecoverAccountMetadata claims (fresh\<lparr>tk_refresh := keep_old (tk_refresh fresh) (tk_refresh previous), tk_id := keep_old (tk_id fresh) (tk_id previous),
       tk_type := keep_old (tk_type fresh) (tk_type previous), tk_account := keep_old (tk_account fresh) (tk_account previous),
       tk_email := keep_old (tk_email fresh) (tk_email previous), tk_plan := keep_old (tk_plan fresh) (tk_plan previous),
       tk_user := keep_old (tk_user fresh) (tk_user previous), tk_fedramp := tk_fedramp fresh \<or> tk_fedramp previous\<rparr>))"

subsection \<open>The token on disk\<close>

definition loadTokenFromDisk :: "bool \<Rightarrow> oauth_token option \<Rightarrow> oauth_token option" where
  "loadTokenFromDisk readable disk =
     (if \<not> readable then None else (case disk of Some t \<Rightarrow> if tk_access t = [] then None else Some t | None \<Rightarrow> None))"

definition newerDiskToken :: "oauth_token option \<Rightarrow> oauth_token \<Rightarrow> oauth_token option" where
  "newerDiskToken disk entry =
     (case disk of
        None \<Rightarrow> None
      | Some d \<Rightarrow>
          if tk_access d = tk_access entry then None
          else if tk_refresh d = [] \<and> tk_refresh entry \<noteq> [] then None
          else if tk_expires_at d < tk_expires_at entry then None
          else Some d)"

definition usableDiskToken :: "int \<Rightarrow> oauth_token option \<Rightarrow> oauth_token \<Rightarrow> oauth_token option" where
  "usableDiskToken now disk entry =
     (case newerDiskToken disk entry of None \<Rightarrow> None | Some d \<Rightarrow> if IsExpired now d then None else Some d)"

subsection \<open>One refresh\<close>

text \<open>
  \<open>Exchanging entry presented retries\<close>: the entry token the result will be merged with, the token whose
  refresh token is presented, and how many retries are left.
\<close>

datatype refresh_phase =
    RefreshIdle
  | RefreshWaiting oauth_token
  | RefreshLocked oauth_token
  | Exchanging oauth_token oauth_token nat
  | ExchangeFailed oauth_token nat
  | Exchanged oauth_token oauth_token
  | Persisting oauth_token

type_synonym token_key = "string \<times> string \<times> int"

definition tok_key :: "oauth_token \<Rightarrow> token_key" where
  "tok_key t = (tk_access t, tk_refresh t, tk_expires_at t)"

record refresh_world =
  rw_disk :: "oauth_token option"
  rw_mem :: "nat \<Rightarrow> oauth_token option"
  rw_lock :: "nat option"
  rw_phase :: "nat \<Rightarrow> refresh_phase"
  rw_issued :: "token_key list"
  rw_revoked :: bool

definition set_refresh_phase :: "nat \<Rightarrow> refresh_phase \<Rightarrow> refresh_world \<Rightarrow> refresh_world" where
  "set_refresh_phase p ph w = w\<lparr>rw_phase := (rw_phase w)(p := ph)\<rparr>"

definition release_lock :: "nat \<Rightarrow> refresh_world \<Rightarrow> refresh_world" where
  "release_lock p w = (set_refresh_phase p RefreshIdle w)\<lparr>rw_lock := None\<rparr>"

definition applyToken :: "nat \<Rightarrow> oauth_token \<Rightarrow> refresh_world \<Rightarrow> refresh_world" where
  "applyToken p t w = w\<lparr>rw_mem := (rw_mem w)(p := Some t)\<rparr>"

definition refresh_enter :: "nat \<Rightarrow> refresh_world \<Rightarrow> refresh_world option" where
  "refresh_enter p w =
     (case (rw_phase w p, rw_mem w p) of (RefreshIdle, Some t) \<Rightarrow> Some (set_refresh_phase p (RefreshWaiting t) w) | _ \<Rightarrow> None)"

definition refresh_lock :: "nat \<Rightarrow> refresh_world \<Rightarrow> refresh_world option" where
  "refresh_lock p w =
     (case (rw_phase w p, rw_lock w) of
        (RefreshWaiting t, None) \<Rightarrow> Some ((set_refresh_phase p (RefreshLocked t) w)\<lparr>rw_lock := Some p\<rparr>)
      | _ \<Rightarrow> None)"

definition refresh_lock_failed :: "int \<Rightarrow> bool \<Rightarrow> nat \<Rightarrow> refresh_world \<Rightarrow> refresh_world option" where
  "refresh_lock_failed now readable p w =
     (case rw_phase w p of
        RefreshWaiting t \<Rightarrow>
          (let w' = set_refresh_phase p RefreshIdle w
           in Some (case usableDiskToken now (loadTokenFromDisk readable (rw_disk w)) t of
                      Some d \<Rightarrow> applyToken p d w' | None \<Rightarrow> w'))
      | _ \<Rightarrow> None)"

definition refresh_decide :: "int \<Rightarrow> bool \<Rightarrow> nat \<Rightarrow> refresh_world \<Rightarrow> refresh_world option" where
  "refresh_decide now readable p w =
     (case rw_phase w p of
        RefreshLocked t \<Rightarrow>
          Some (case newerDiskToken (loadTokenFromDisk readable (rw_disk w)) t of
              Some d \<Rightarrow> if \<not> IsExpired now d then release_lock p (applyToken p d w) else set_refresh_phase p (Exchanging d d 1) w
            | None \<Rightarrow> set_refresh_phase p (Exchanging t t 1) w)
      | _ \<Rightarrow> None)"

datatype exchange_answer = ExchangeError | ExchangeToken oauth_token

definition refresh_exchange :: "exchange_answer \<Rightarrow> nat \<Rightarrow> refresh_world \<Rightarrow> refresh_world option" where
  "refresh_exchange ans p w =
     (case rw_phase w p of
        Exchanging entry presented retries \<Rightarrow>
          Some (case ans of
              ExchangeError \<Rightarrow> set_refresh_phase p (ExchangeFailed entry retries) w
            | ExchangeToken f \<Rightarrow>
                if \<not> rw_revoked w \<and> rw_issued w \<noteq> [] \<and> tk_refresh presented = fst (snd (hd (rw_issued w)))
                then (set_refresh_phase p (Exchanged entry f) w)\<lparr>rw_issued := tok_key f # rw_issued w\<rparr>
                else (set_refresh_phase p (ExchangeFailed entry retries) w)\<lparr>rw_revoked := True\<rparr>)
      | _ \<Rightarrow> None)"

definition refresh_recover :: "int \<Rightarrow> bool \<Rightarrow> nat \<Rightarrow> refresh_world \<Rightarrow> refresh_world option" where
  "refresh_recover now readable p w =
     (case rw_phase w p of
        ExchangeFailed entry retries \<Rightarrow>
          Some (if retries = 0 then release_lock p w
            else (case newerDiskToken (loadTokenFromDisk readable (rw_disk w)) entry of
                Some d \<Rightarrow> if \<not> IsExpired now d then release_lock p (applyToken p d w) else set_refresh_phase p (Exchanging entry d 0) w
              | None \<Rightarrow> release_lock p w))
      | _ \<Rightarrow> None)"

definition refresh_apply :: "(string \<Rightarrow> jwt_claims option) \<Rightarrow> nat \<Rightarrow> refresh_world \<Rightarrow> refresh_world option" where
  "refresh_apply claims p w =
     (case rw_phase w p of
        Exchanged entry f \<Rightarrow>
          (let t = mergeOAuthTokenMetadata claims f entry in Some (set_refresh_phase p (Persisting t) (applyToken p t w)))
      | _ \<Rightarrow> None)"

definition refresh_persist :: "bool \<Rightarrow> nat \<Rightarrow> refresh_world \<Rightarrow> refresh_world option" where
  "refresh_persist written p w =
     (case rw_phase w p of
        Persisting t \<Rightarrow> Some (release_lock p (if written then w\<lparr>rw_disk := Some t\<rparr> else w))
      | _ \<Rightarrow> None)"

text \<open>A reload takes the token of the file. A login stores the token it was issued under the lock, or
  without it when the lock is not free in time.\<close>

definition reload_token :: "nat \<Rightarrow> refresh_world \<Rightarrow> refresh_world" where
  "reload_token p w = w\<lparr>rw_mem := (rw_mem w)(p := rw_disk w)\<rparr>"

definition store_login :: "oauth_token \<Rightarrow> bool \<Rightarrow> nat \<Rightarrow> refresh_world \<Rightarrow> refresh_world option" where
  "store_login t timed_out p w =
     (if rw_lock w = None \<or> timed_out then
        Some (applyToken p t (w\<lparr>rw_disk := Some t, rw_issued := tok_key t # rw_issued w, rw_revoked := False\<rparr>))
      else None)"

datatype refresh_op =
    RefreshEnter nat
  | RefreshLock nat
  | RefreshLockFailed int bool nat
  | RefreshDecide int bool nat
  | RefreshExchange exchange_answer nat
  | RefreshRecover int bool nat
  | RefreshApply nat
  | RefreshPersist bool nat
  | RefreshReload nat
  | RefreshLogin oauth_token bool nat

fun refresh_exec :: "(string \<Rightarrow> jwt_claims option) \<Rightarrow> refresh_op \<Rightarrow> refresh_world \<Rightarrow> refresh_world option" where
  "refresh_exec claims (RefreshEnter p) w = refresh_enter p w"
| "refresh_exec claims (RefreshLock p) w = refresh_lock p w"
| "refresh_exec claims (RefreshLockFailed now readable p) w = refresh_lock_failed now readable p w"
| "refresh_exec claims (RefreshDecide now readable p) w = refresh_decide now readable p w"
| "refresh_exec claims (RefreshExchange ans p) w = refresh_exchange ans p w"
| "refresh_exec claims (RefreshRecover now readable p) w = refresh_recover now readable p w"
| "refresh_exec claims (RefreshApply p) w = refresh_apply claims p w"
| "refresh_exec claims (RefreshPersist written p) w = refresh_persist written p w"
| "refresh_exec claims (RefreshReload p) w = Some (reload_token p w)"
| "refresh_exec claims (RefreshLogin t timed_out p) w = store_login t timed_out p w"

fun refresh_execs :: "(string \<Rightarrow> jwt_claims option) \<Rightarrow> refresh_op list \<Rightarrow> refresh_world \<Rightarrow> refresh_world option" where
  "refresh_execs claims [] w = Some w"
| "refresh_execs claims (op # ops) w = Option.bind (refresh_exec claims op w) (refresh_execs claims ops)"

definition refresh_start :: "oauth_token \<Rightarrow> refresh_world" where
  "refresh_start t = \<lparr>rw_disk = Some t, rw_mem = (\<lambda>_. Some t), rw_lock = None, rw_phase = (\<lambda>_. RefreshIdle),
     rw_issued = [tok_key t], rw_revoked = False\<rparr>"





subsection \<open>The invariant\<close>

fun phase_tokens :: "refresh_phase \<Rightarrow> oauth_token list" where
  "phase_tokens (RefreshWaiting t) = [t]"
| "phase_tokens (RefreshLocked t) = [t]"
| "phase_tokens (Exchanging a b _) = [a, b]"
| "phase_tokens (ExchangeFailed a _) = [a]"
| "phase_tokens (Exchanged a f) = [a, f]"
| "phase_tokens (Persisting t) = [t]"
| "phase_tokens RefreshIdle = []"

fun holds_lock :: "refresh_phase \<Rightarrow> bool" where
  "holds_lock RefreshIdle = False"
| "holds_lock (RefreshWaiting _) = False"
| "holds_lock _ = True"

definition keys_ok :: "token_key list \<Rightarrow> bool" where
  "keys_ok ks \<longleftrightarrow> ks \<noteq> [] \<and> distinct (map fst ks) \<and> distinct (map (fst \<circ> snd) ks) \<and>
     (\<forall>k\<in>set ks. fst k \<noteq> [] \<and> fst (snd k) \<noteq> [] \<and> snd (snd k) \<le> snd (snd (hd ks)))"

text \<open>What a phase knows of the newest token \<open>k\<close> and of the token on disk.\<close>

fun phase_ok :: "token_key \<Rightarrow> token_key \<Rightarrow> refresh_phase \<Rightarrow> bool" where
  "phase_ok k disk (Exchanging a b _) \<longleftrightarrow> disk = k \<and> tok_key b = k \<and> tok_key a = k"
| "phase_ok k disk (ExchangeFailed a _) \<longleftrightarrow> disk = k \<and> tok_key a = k"
| "phase_ok k disk (Exchanged a f) \<longleftrightarrow> tok_key f = k"
| "phase_ok k disk (Persisting t) \<longleftrightarrow> tok_key t = k"
| "phase_ok k disk _ \<longleftrightarrow> disk = k"

text \<open>Every token a process remembers was issued; the lock is held by the process whose phase says so; the disk.\<close>

definition tokens_known :: "refresh_world \<Rightarrow> bool" where
  "tokens_known w \<longleftrightarrow> (\<forall>p t. rw_mem w p = Some t \<longrightarrow> tok_key t \<in> set (rw_issued w)) \<and>
     (\<forall>p. \<forall>t\<in>set (phase_tokens (rw_phase w p)). tok_key t \<in> set (rw_issued w))"

definition lock_owned :: "refresh_world \<Rightarrow> bool" where
  "lock_owned w \<longleftrightarrow> (\<forall>p. holds_lock (rw_phase w p) \<longleftrightarrow> rw_lock w = Some p)"

definition disk_current :: "refresh_world \<Rightarrow> bool" where
  "disk_current w \<longleftrightarrow> (case rw_disk w of None \<Rightarrow> False | Some d \<Rightarrow> tok_key d \<in> set (rw_issued w) \<and>
     (case rw_lock w of None \<Rightarrow> tok_key d = hd (rw_issued w) | Some p \<Rightarrow> phase_ok (hd (rw_issued w)) (tok_key d) (rw_phase w p)))"

definition refresh_inv :: "refresh_world \<Rightarrow> bool" where
  "refresh_inv w \<longleftrightarrow> keys_ok (rw_issued w) \<and> \<not> rw_revoked w \<and> tokens_known w \<and> lock_owned w \<and> disk_current w"



lemma tok_key_recover [simp]: "tok_key (recover_from claims jwt t) = tok_key t"
  by (simp add: recover_from_def tok_key_def Let_def)

lemma tok_key_merge [simp]: "tk_refresh f \<noteq> [] \<Longrightarrow> tok_key (mergeOAuthTokenMetadata claims f entry) = tok_key f"
  by (simp add: mergeOAuthTokenMetadata_def RecoverAccountMetadata_def Let_def) (simp add: tok_key_def keep_old_def)

lemmas refresh_defs = set_refresh_phase_def release_lock_def applyToken_def
lemmas refresh_op_defs = refresh_enter_def refresh_lock_def refresh_lock_failed_def refresh_decide_def
  refresh_exchange_def refresh_recover_def refresh_apply_def refresh_persist_def reload_token_def store_login_def
lemmas refresh_inv_defs = refresh_inv_def tokens_known_def lock_owned_def disk_current_def

subsection \<open>The operations keep the invariant\<close>





























text \<open>
  What goes wrong outside these conditions, by execution. A refresh whose token cannot be written leaves
  the rotated token on disk, and the next process presents it; a process that cannot read the file presents its
  own, rotated token; and so does one whose token claims a later expiry than its successor.
\<close>

definition sample_oauth :: "string \<Rightarrow> string \<Rightarrow> int \<Rightarrow> oauth_token" where
  "sample_oauth a r e = \<lparr>tk_access = a, tk_refresh = r, tk_id = [], tk_type = [], tk_expires_in = 100, tk_expires_at = e,
     tk_account = [], tk_email = [], tk_plan = [], tk_user = [], tk_fedramp = False, tk_client = None\<rparr>"

abbreviation refresh_all :: "bool \<Rightarrow> oauth_token \<Rightarrow> bool \<Rightarrow> nat \<Rightarrow> refresh_op list" where
  "refresh_all readable f written p \<equiv> [RefreshLock p, RefreshDecide 1000 readable p, RefreshExchange (ExchangeToken f) p,
     RefreshApply p, RefreshPersist written p]"

lemmas refresh_run_simps = refresh_op_defs refresh_defs refresh_start_def sample_oauth_def newerDiskToken_def
  loadTokenFromDisk_def IsExpired_def minRefreshBuffer_def tok_key_def mergeOAuthTokenMetadata_def
  RecoverAccountMetadata_def recover_from_def MetadataFromJWT_def no_metadata_def keep_old_def Let_def str_split.simps

lemma unwritten_refresh_reuses:
  "map_option rw_revoked (refresh_execs (\<lambda>_. None)
     (RefreshEnter 0 # refresh_all True (sample_oauth ''b'' ''s'' 2000) False 0 @
      [RefreshEnter 1, RefreshLock 1, RefreshDecide 1000 True 1, RefreshExchange (ExchangeToken (sample_oauth ''c'' ''q'' 3000)) 1])
     (refresh_start (sample_oauth ''a'' ''r'' 900))) = Some True"
  by (simp add: refresh_run_simps)

lemma unreadable_config_reuses:
  "map_option rw_revoked (refresh_execs (\<lambda>_. None)
     (RefreshEnter 1 # RefreshEnter 0 # refresh_all True (sample_oauth ''b'' ''s'' 2000) True 0 @
      [RefreshLock 1, RefreshDecide 1000 False 1, RefreshExchange (ExchangeToken (sample_oauth ''c'' ''q'' 3000)) 1])
     (refresh_start (sample_oauth ''a'' ''r'' 900))) = Some True"
  by (simp add: refresh_run_simps)

lemma earlier_expiry_reuses:
  "map_option rw_revoked (refresh_execs (\<lambda>_. None)
     (RefreshEnter 1 # RefreshEnter 0 # refresh_all True (sample_oauth ''b'' ''s'' 800) True 0 @
      [RefreshLock 1, RefreshDecide 1000 True 1, RefreshExchange (ExchangeToken (sample_oauth ''c'' ''q'' 3000)) 1])
     (refresh_start (sample_oauth ''a'' ''r'' 900))) = Some True"
  by (simp add: refresh_run_simps)

lemma peer_rotation_run:
  "map_option (\<lambda>w. (map_option tok_key (rw_disk w), rw_lock w, rw_revoked w)) (refresh_execs (\<lambda>_. None)
     (RefreshEnter 1 # RefreshEnter 0 # refresh_all True (sample_oauth ''b'' ''s'' 2000) True 0 @ [RefreshLock 1, RefreshDecide 1000 True 1])
     (refresh_start (sample_oauth ''a'' ''r'' 900))) = Some (Some (''b'', ''s'', 2000), None, False)"
  by (simp add: refresh_run_simps)




end
