(* ===== verification/Lsp_Edit.thy ===== *)
theory Lsp_Edit
  imports Edit_Match "HOL-Library.AList"
begin

section \<open>Workspace edits of language servers: \<^verbatim>\<open>lsp/util/edit.go\<close>\<close>

text \<open>
  Applying the edits a language server answers with to the files.

  Documented library behaviour is an argument: \<open>uri_path\<close> turns a URI into a path,
  \<open>pos16\<close> converts UTF-16 positions (\<^verbatim>\<open>powernap\<close>), \<open>sortSlice\<close> is \<^verbatim>\<open>sort.Slice\<close>, which orders elements that
  compare equal as it likes, and \<open>fails\<close> says which calls of \<^verbatim>\<open>os\<close> fail for a reason of their own. A file tree
  maps a path to the contents of a file, or to \<open>None\<close> for a directory. An error is its message.
\<close>

subsection \<open>Positions\<close>

record lsp_position =
  lp_line :: nat
  lp_char :: nat

record lsp_range =
  lr_start :: lsp_position
  lr_end :: lsp_position

record text_edit =
  te_range :: lsp_range
  te_new :: string

datatype offset_encoding = UTF8 | UTF16 | UTF32

definition rangesOverlap :: "lsp_range \<Rightarrow> lsp_range \<Rightarrow> bool" where
  "rangesOverlap r1 r2 \<longleftrightarrow>
     \<not> (lp_line (lr_start r1) > lp_line (lr_end r2) \<or> lp_line (lr_start r2) > lp_line (lr_end r1)) \<and>
     \<not> (lp_line (lr_start r1) = lp_line (lr_end r2) \<and> lp_char (lr_start r1) \<ge> lp_char (lr_end r2)) \<and>
     \<not> (lp_line (lr_start r2) = lp_line (lr_end r1) \<and> lp_char (lr_start r2) \<ge> lp_char (lr_end r1))"

text \<open>\<^verbatim>\<open>range\<close> over a string yields the offset of each rune.\<close>

function utf32_from :: "string \<Rightarrow> nat \<Rightarrow> nat" where
  "utf32_from s n = (if n = 0 \<or> s = [] then 0 else rune_len s + utf32_from (drop (rune_len s) s) (n - 1))"
  by pat_completeness auto
termination
  by (relation "measure snd") auto

declare utf32_from.simps [simp del]

definition utf32ToByteOffset :: "string \<Rightarrow> nat \<Rightarrow> nat" where
  "utf32ToByteOffset lineText codepointOffset = (if codepointOffset = 0 then 0 else utf32_from lineText codepointOffset)"

definition char_offset :: "(string \<Rightarrow> nat \<Rightarrow> int) \<Rightarrow> offset_encoding \<Rightarrow> string \<Rightarrow> nat \<Rightarrow> int" where
  "char_offset pos16 enc line ch =
     (case enc of UTF8 \<Rightarrow> int ch | UTF16 \<Rightarrow> pos16 line ch | UTF32 \<Rightarrow> int (utf32ToByteOffset line ch))"

definition clip_char :: "string \<Rightarrow> int \<Rightarrow> nat" where
  "clip_char line c = (if c < 0 \<or> c > int (length line) then length line else nat c)"

subsection \<open>One text edit\<close>

definition edited_lines :: "string \<Rightarrow> string \<Rightarrow> string \<Rightarrow> string list" where
  "edited_lines prefix suffix new =
     (if new = [] then (if prefix @ suffix \<noteq> [] then [prefix @ suffix] else [])
      else
        (let newLines = str_split new [NL]
         in if length newLines = 1 then [prefix @ hd newLines @ suffix]
            else [prefix @ hd newLines] @ take (length newLines - 2) (tl newLines) @ [last newLines @ suffix]))"

definition applyTextEdit :: "(string \<Rightarrow> nat \<Rightarrow> int) \<Rightarrow> offset_encoding \<Rightarrow> string list \<Rightarrow> text_edit \<Rightarrow> string + string list" where
  "applyTextEdit pos16 enc lines e =
     (let startLine = lp_line (lr_start (te_range e));
          endLine = lp_line (lr_end (te_range e))
      in if startLine \<ge> length lines then Inl (''invalid start line: '' @ itoa startLine)
         else
           (let endLine = (if endLine \<ge> length lines then length lines - 1 else endLine);
                startContent = lines ! startLine;
                endContent = lines ! endLine;
                startChar = clip_char startContent (char_offset pos16 enc startContent (lp_char (lr_start (te_range e))));
                endChar = clip_char endContent (char_offset pos16 enc endContent (lp_char (lr_end (te_range e))))
            in Inr (take startLine lines @ edited_lines (take startChar startContent) (drop endChar endContent) (te_new e) @
                    drop (endLine + 1) lines)))"

fun apply_each :: "(string \<Rightarrow> nat \<Rightarrow> int) \<Rightarrow> offset_encoding \<Rightarrow> text_edit list \<Rightarrow> string list \<Rightarrow> string + string list" where
  "apply_each pos16 enc [] lines = Inr lines"
| "apply_each pos16 enc (e # es) lines =
     (case applyTextEdit pos16 enc lines e of
        Inl err \<Rightarrow> Inl (''failed to apply edit: '' @ err)
      | Inr lines \<Rightarrow> apply_each pos16 enc es lines)"

subsection \<open>The edits of one file\<close>

definition later_edit :: "text_edit \<Rightarrow> text_edit \<Rightarrow> bool" where
  "later_edit a b \<longleftrightarrow>
     (let p = lr_start (te_range a); q = lr_start (te_range b)
      in if lp_line p \<noteq> lp_line q then lp_line p > lp_line q else lp_char p > lp_char q)"

definition overlapping :: "text_edit list \<Rightarrow> (nat \<times> nat) list" where
  "overlapping edits =
     concat (map (\<lambda>i. map (Pair i) (filter (\<lambda>j. rangesOverlap (te_range (edits ! i)) (te_range (edits ! j))) [i + 1..<length edits]))
       [0..<length edits])"

definition lineEnding_of :: "string \<Rightarrow> string" where
  "lineEnding_of content = (if str_contains content [CHR 0x0D, NL] then [CHR 0x0D, NL] else [NL])"

definition str_suffix :: "string \<Rightarrow> string \<Rightarrow> bool" where
  "str_suffix t s = str_prefix (rev t) (rev s)"

definition final_newline :: "string \<Rightarrow> string \<Rightarrow> string" where
  "final_newline content newContent =
     (let le = lineEnding_of content
      in if (content \<noteq> [] \<and> str_suffix le content) \<and> \<not> str_suffix le newContent then newContent @ le else newContent)"

definition edited_content :: "(string \<Rightarrow> nat \<Rightarrow> int) \<Rightarrow> ((text_edit \<Rightarrow> text_edit \<Rightarrow> bool) \<Rightarrow> text_edit list \<Rightarrow> text_edit list) \<Rightarrow>
    offset_encoding \<Rightarrow> text_edit list \<Rightarrow> string \<Rightarrow> string + string" where
  "edited_content pos16 sortSlice enc edits content =
     (case overlapping edits of
        (i, j) # _ \<Rightarrow> Inl (''overlapping edits detected between edit '' @ itoa i @ '' and '' @ itoa j)
      | [] \<Rightarrow>
          (case apply_each pos16 enc (sortSlice later_edit edits) (str_split content (lineEnding_of content)) of
             Inl err \<Rightarrow> Inl err
           | Inr lines \<Rightarrow> Inr (final_newline content (str_join (lineEnding_of content) lines))))"

subsection \<open>Files\<close>

type_synonym file_tree = "(string, string option) gomap"

datatype os_call = OsRead string | OsWrite string | OsRemove string | OsRemoveAll string | OsRename string string

record lsp_env =
  le_fails :: "os_call \<Rightarrow> string option"
  le_uri_path :: "string \<Rightarrow> string + string"
  le_pos16 :: "string \<Rightarrow> nat \<Rightarrow> int"
  le_sort :: "(text_edit \<Rightarrow> text_edit \<Rightarrow> bool) \<Rightarrow> text_edit list \<Rightarrow> text_edit list"

definition not_exist :: string where "not_exist = ''no such file or directory''"

definition under :: "string \<Rightarrow> string \<Rightarrow> bool" where
  "under dir p \<longleftrightarrow> p = dir \<or> str_prefix (dir @ ''/'') p"

definition tree_read :: "lsp_env \<Rightarrow> string \<Rightarrow> file_tree \<Rightarrow> string + string" where
  "tree_read env p fs =
     (case le_fails env (OsRead p) of
        Some e \<Rightarrow> Inl e
      | None \<Rightarrow> (case map_of fs p of Some (Some c) \<Rightarrow> Inr c | Some None \<Rightarrow> Inl ''is a directory'' | None \<Rightarrow> Inl not_exist))"

definition tree_write :: "lsp_env \<Rightarrow> string \<Rightarrow> string \<Rightarrow> file_tree \<Rightarrow> string option \<times> file_tree" where
  "tree_write env p c fs =
     (case le_fails env (OsWrite p) of
        Some e \<Rightarrow> (Some e, fs)
      | None \<Rightarrow> if map_of fs p = Some None then (Some ''is a directory'', fs) else (None, AList.update p (Some c) fs))"

definition tree_remove :: "lsp_env \<Rightarrow> string \<Rightarrow> file_tree \<Rightarrow> string option \<times> file_tree" where
  "tree_remove env p fs =
     (case le_fails env (OsRemove p) of
        Some e \<Rightarrow> (Some e, fs)
      | None \<Rightarrow>
          if map_of fs p = None then (Some not_exist, fs)
          else if list_ex (\<lambda>(q, _). q \<noteq> p \<and> under p q) fs then (Some ''directory not empty'', fs)
          else (None, AList.delete p fs))"

definition tree_remove_all :: "lsp_env \<Rightarrow> string \<Rightarrow> file_tree \<Rightarrow> string option \<times> file_tree" where
  "tree_remove_all env p fs =
     (case le_fails env (OsRemoveAll p) of
        Some e \<Rightarrow> (Some e, fs)
      | None \<Rightarrow> (None, filter (\<lambda>(q, _). \<not> under p q) fs))"

text \<open>A rename replaces the target and takes along what is below the source.\<close>

definition tree_rename :: "lsp_env \<Rightarrow> string \<Rightarrow> string \<Rightarrow> file_tree \<Rightarrow> string option \<times> file_tree" where
  "tree_rename env old new fs =
     (case le_fails env (OsRename old new) of
        Some e \<Rightarrow> (Some e, fs)
      | None \<Rightarrow>
          if map_of fs old = None then (Some not_exist, fs)
          else if old = new then (None, fs)
          else (None, map (\<lambda>(q, c). (if under old q then new @ drop (length old) q else q, c)) (filter (\<lambda>(q, _). q \<noteq> new) fs)))"

definition tree_exists :: "string \<Rightarrow> file_tree \<Rightarrow> bool" where
  "tree_exists p fs \<longleftrightarrow> map_of fs p \<noteq> None"

definition applyTextEdits :: "lsp_env \<Rightarrow> offset_encoding \<Rightarrow> string \<Rightarrow> text_edit list \<Rightarrow> file_tree \<Rightarrow> string option \<times> file_tree" where
  "applyTextEdits env enc uri edits fs =
     (case le_uri_path env uri of
        Inl e \<Rightarrow> (Some (''invalid URI: '' @ e), fs)
      | Inr path \<Rightarrow>
          (case tree_read env path fs of
             Inl e \<Rightarrow> (Some (''failed to read file: '' @ e), fs)
           | Inr content \<Rightarrow>
               (case edited_content (le_pos16 env) (le_sort env) enc edits content of
                  Inl e \<Rightarrow> (Some e, fs)
                | Inr newContent \<Rightarrow>
                    (case tree_write env path newContent fs of
                       (Some e, fs) \<Rightarrow> (Some (''failed to write file: '' @ e), fs)
                     | (None, fs) \<Rightarrow> (None, fs)))))"

subsection \<open>Document changes\<close>

text \<open>Options are pointers; a text edit may turn out to be of another kind.\<close>

record create_file =
  cr_uri :: string
  cr_options :: "(bool \<times> bool) option"

record delete_file =
  dl_uri :: string
  dl_options :: "bool option"

record rename_file =
  rn_old :: string
  rn_new :: string
  rn_options :: "bool option"

record document_edit =
  de_uri :: string
  de_edits :: "(string + text_edit) list"

record document_change =
  dc_create :: "create_file option"
  dc_delete :: "delete_file option"
  dc_rename :: "rename_file option"
  dc_edit :: "document_edit option"

text \<open>\<open>Inl\<close> leaves \<^verbatim>\<open>applyDocumentChange\<close> early, with or without an error.\<close>

type_synonym change_result = "string option \<times> file_tree + file_tree"

definition change_create :: "lsp_env \<Rightarrow> create_file \<Rightarrow> file_tree \<Rightarrow> change_result" where
  "change_create env c fs =
     (case le_uri_path env (cr_uri c) of
        Inl e \<Rightarrow> Inl (Some (''invalid URI: '' @ e), fs)
      | Inr path \<Rightarrow>
          if (case cr_options c of Some (overwrite, ignore) \<Rightarrow> \<not> overwrite \<and> ignore | None \<Rightarrow> False) \<and> tree_exists path fs
          then Inl (None, fs)
          else
            (case tree_write env path [] fs of
               (Some e, fs) \<Rightarrow> Inl (Some (''failed to create file: '' @ e), fs)
             | (None, fs) \<Rightarrow> Inr fs))"

definition change_delete :: "lsp_env \<Rightarrow> delete_file \<Rightarrow> file_tree \<Rightarrow> change_result" where
  "change_delete env d fs =
     (case le_uri_path env (dl_uri d) of
        Inl e \<Rightarrow> Inl (Some (''invalid URI: '' @ e), fs)
      | Inr path \<Rightarrow>
          if dl_options d = Some True then
            (case tree_remove_all env path fs of
               (Some e, fs) \<Rightarrow> Inl (Some (''failed to delete directory recursively: '' @ e), fs)
             | (None, fs) \<Rightarrow> Inr fs)
          else
            (case tree_remove env path fs of
               (Some e, fs) \<Rightarrow> Inl (Some (''failed to delete file: '' @ e), fs)
             | (None, fs) \<Rightarrow> Inr fs))"

definition change_rename :: "lsp_env \<Rightarrow> rename_file \<Rightarrow> file_tree \<Rightarrow> change_result" where
  "change_rename env r fs =
     (case le_uri_path env (rn_old r) of
        Inl e \<Rightarrow> Inl (Some e, fs)
      | Inr oldPath \<Rightarrow>
          (case le_uri_path env (rn_new r) of
             Inl e \<Rightarrow> Inl (Some e, fs)
           | Inr newPath \<Rightarrow>
               if rn_options r = Some False \<and> tree_exists newPath fs
               then Inl (Some (''target file already exists and overwrite is not allowed: '' @ newPath), fs)
               else
                 (case tree_rename env oldPath newPath fs of
                    (Some e, fs) \<Rightarrow> Inl (Some (''failed to rename file: '' @ e), fs)
                  | (None, fs) \<Rightarrow> Inr fs)))"

fun as_text_edits :: "(string + text_edit) list \<Rightarrow> string + text_edit list" where
  "as_text_edits [] = Inr []"
| "as_text_edits (Inl e # es) = Inl (''invalid edit type: '' @ e)"
| "as_text_edits (Inr t # es) = (case as_text_edits es of Inl e \<Rightarrow> Inl e | Inr ts \<Rightarrow> Inr (t # ts))"

definition change_edit :: "lsp_env \<Rightarrow> offset_encoding \<Rightarrow> document_edit \<Rightarrow> file_tree \<Rightarrow> string option \<times> file_tree" where
  "change_edit env enc d fs =
     (case as_text_edits (de_edits d) of Inl e \<Rightarrow> (Some e, fs) | Inr edits \<Rightarrow> applyTextEdits env enc (de_uri d) edits fs)"

definition change_part :: "'a option \<Rightarrow> ('a \<Rightarrow> file_tree \<Rightarrow> change_result) \<Rightarrow> change_result \<Rightarrow> change_result" where
  "change_part part f r =
     (case r of Inl early \<Rightarrow> Inl early | Inr fs \<Rightarrow> (case part of None \<Rightarrow> Inr fs | Some x \<Rightarrow> f x fs))"

definition applyDocumentChange :: "lsp_env \<Rightarrow> offset_encoding \<Rightarrow> document_change \<Rightarrow> file_tree \<Rightarrow> string option \<times> file_tree" where
  "applyDocumentChange env enc ch fs =
     (case change_part (dc_rename ch) (change_rename env) (change_part (dc_delete ch) (change_delete env)
             (change_part (dc_create ch) (change_create env) (Inr fs))) of
        Inl early \<Rightarrow> early
      | Inr fs \<Rightarrow> (case dc_edit ch of None \<Rightarrow> (None, fs) | Some d \<Rightarrow> change_edit env enc d fs))"

text \<open>\<open>changes\<close> lists the map of the edit in the order its iteration yields.\<close>

fun apply_changes_each :: "string \<Rightarrow> ('a \<Rightarrow> file_tree \<Rightarrow> string option \<times> file_tree) \<Rightarrow> 'a list \<Rightarrow> file_tree \<Rightarrow> string option \<times> file_tree" where
  "apply_changes_each msg f [] fs = (None, fs)"
| "apply_changes_each msg f (x # xs) fs =
     (case f x fs of (Some e, fs) \<Rightarrow> (Some (msg @ e), fs) | (None, fs) \<Rightarrow> apply_changes_each msg f xs fs)"

definition ApplyWorkspaceEdit :: "lsp_env \<Rightarrow> offset_encoding \<Rightarrow> (string, text_edit list) gomap \<Rightarrow> document_change list \<Rightarrow> file_tree \<Rightarrow>
    string option \<times> file_tree" where
  "ApplyWorkspaceEdit env enc changes documentChanges fs =
     (case apply_changes_each ''failed to apply text edits: '' (\<lambda>(uri, edits). applyTextEdits env enc uri edits) changes fs of
        (Some e, fs) \<Rightarrow> (Some e, fs)
      | (None, fs) \<Rightarrow> apply_changes_each ''failed to apply document change: '' (applyDocumentChange env enc) documentChanges fs)"

end
