(* ===== verification/Lsp_Edit_Props.thy ===== *)
theory Lsp_Edit_Props
  imports Lsp_Edit Edit_Match_Props "HOL-Library.Product_Lexorder"
begin

section \<open>Text edits are simultaneous replacements\<close>

text \<open>
  The edits of a file are applied to its lines from the last to the first. For edits that do not
  overlap the result is the file with every range replaced at once; the lemmas relate lines and
  offsets in the file, one edit and one replacement, and the replacements from the back to those from the front.
\<close>

subsection \<open>Lines and offsets\<close>

text \<open>\<open>glue\<close> ends every line with the line ending, so that it distributes over append.\<close>

definition glue :: "string \<Rightarrow> string list \<Rightarrow> string" where
  "glue le lines = concat (map (\<lambda>x. x @ le) lines)"

lemma glue_simps [simp]: "glue le [] = []" "glue le (x # xs) = x @ le @ glue le xs" "glue le (xs @ ys) = glue le xs @ glue le ys"
  by (simp_all add: glue_def)














subsection \<open>One edit\<close>







subsection \<open>All edits, from the last to the first\<close>








subsection \<open>The order of the edits\<close>











text \<open>A stable sort is one of the sorts allowed, and the one that runs on up to twelve edits.\<close>

definition stable_later :: "(text_edit \<Rightarrow> text_edit \<Rightarrow> bool) \<Rightarrow> text_edit list \<Rightarrow> text_edit list" where
  "stable_later lt = sort_key (\<lambda>e. (- int (lp_line (lr_start (te_range e))), - int (lp_char (lr_start (te_range e)))))"


definition demo_edit :: "nat \<Rightarrow> nat \<Rightarrow> nat \<Rightarrow> nat \<Rightarrow> string \<Rightarrow> text_edit" where
  "demo_edit l c l' c' new = \<lparr>te_range = \<lparr>lr_start = \<lparr>lp_line = l, lp_char = c\<rparr>, lr_end = \<lparr>lp_line = l', lp_char = c'\<rparr>\<rparr>, te_new = new\<rparr>"

definition demo_lsp :: lsp_env where
  "demo_lsp = \<lparr>le_fails = (\<lambda>_. None), le_uri_path = Inr, le_pos16 = (\<lambda>_. int), le_sort = stable_later\<rparr>"

lemmas demo_edit_simps = demo_lsp_def demo_edit_def applyTextEdits_def tree_read_def tree_write_def edited_content_def overlapping_def
  upt_rec rangesOverlap_def stable_later_def applyTextEdit_def edited_lines_def char_offset_def clip_char_def
  lineEnding_of_def str_contains_def str_split.simps final_newline_def str_suffix_def Let_def


text \<open>
  Outside these conditions, by execution: deleting all of a line removes the line; two insertions at one
  position come out in reverse; an insertion where a replacement starts is replaced with it; a range that ends
  after a last line without a newline spares that line; a text with the line ending of a CRLF file doubles the carriage returns.
\<close>

lemma deletion_drops_line:
  "applyTextEdits demo_lsp UTF8 ''f'' [demo_edit 1 0 1 1 []] [(''f'', Some [CHR ''a'', NL, CHR ''b'', NL, CHR ''c''])] =
     (None, [(''f'', Some [CHR ''a'', NL, CHR ''c''])])"
  by (simp add: demo_edit_simps)

lemma insertions_reversed:
  "applyTextEdits demo_lsp UTF8 ''f'' [demo_edit 0 0 0 0 ''A'', demo_edit 0 0 0 0 ''B''] [(''f'', Some ''c'')] =
     (None, [(''f'', Some ''BAc'')])"
  by (simp add: demo_edit_simps)

lemma insertion_replaced:
  "applyTextEdits demo_lsp UTF8 ''f'' [demo_edit 0 1 0 1 ''X'', demo_edit 0 1 0 3 ''Y''] [(''f'', Some ''abcd'')] =
     (None, [(''f'', Some ''aYcd'')])"
  by (simp add: demo_edit_simps)

lemma last_line_spared:
  "applyTextEdits demo_lsp UTF8 ''f'' [demo_edit 0 0 1 0 ''X''] [(''f'', Some ''ab'')] = (None, [(''f'', Some ''Xab'')])"
  by (simp add: demo_edit_simps)

lemma crlf_doubled:
  "applyTextEdits demo_lsp UTF8 ''f'' [demo_edit 0 0 0 1 [CHR ''x'', CHR 0x0D, NL, CHR ''y'']] [(''f'', Some [CHR ''a'', CHR 0x0D, NL])] =
     (None, [(''f'', Some [CHR ''x'', CHR 0x0D, CHR 0x0D, NL, CHR ''y'', CHR 0x0D, NL])])"
  by (simp add: demo_edit_simps)

subsection \<open>Whole workspace edits\<close>

definition no_change :: document_change where
  "no_change = \<lparr>dc_create = None, dc_delete = None, dc_rename = None, dc_edit = None\<rparr>"

lemmas demo_change_simps = no_change_def applyDocumentChange_def change_part_def change_create_def change_rename_def demo_lsp_def
  tree_exists_def tree_write_def tree_rename_def under_def

lemma create_truncates:
  "applyDocumentChange demo_lsp UTF8 (no_change\<lparr>dc_create := Some \<lparr>cr_uri = ''f'', cr_options = Some (False, False)\<rparr>\<rparr>) [(''f'', Some ''kept'')] =
     (None, [(''f'', Some [])])"
  by (simp add: demo_change_simps)

lemma rename_overwrites:
  "applyDocumentChange demo_lsp UTF8 (no_change\<lparr>dc_rename := Some \<lparr>rn_old = ''f'', rn_new = ''g'', rn_options = None\<rparr>\<rparr>)
     [(''f'', Some ''new''), (''g'', Some ''kept'')] = (None, [(''g'', Some ''new'')])"
  by (simp add: demo_change_simps)

text \<open>What an edit names, and that it changes nothing outside.\<close>

definition change_uris :: "document_change \<Rightarrow> string list" where
  "change_uris ch = (case dc_create ch of None \<Rightarrow> [] | Some c \<Rightarrow> [cr_uri c]) @ (case dc_delete ch of None \<Rightarrow> [] | Some d \<Rightarrow> [dl_uri d]) @
     (case dc_rename ch of None \<Rightarrow> [] | Some r \<Rightarrow> [rn_old r, rn_new r]) @ (case dc_edit ch of None \<Rightarrow> [] | Some d \<Rightarrow> [de_uri d])"

definition outside :: "lsp_env \<Rightarrow> string list \<Rightarrow> string \<Rightarrow> bool" where
  "outside env uris q \<longleftrightarrow> list_all (\<lambda>u. case le_uri_path env u of Inl _ \<Rightarrow> True | Inr p \<Rightarrow> \<not> under p q) uris"

lemma map_of_other [simp]: "map_of (map (\<lambda>(k, c). (f k, c)) xs) q = map_of xs q" if "\<forall>k\<in>fst ` set xs. f k = q \<longleftrightarrow> k = q"
  using that by (induction xs) auto

lemma map_of_filter_other: "P q \<Longrightarrow> map_of (filter (\<lambda>(k, _). P k) xs) q = map_of xs q"
  by (induction xs) auto

lemma under_moved: "under old k \<Longrightarrow> under new (new @ drop (length old) k)"
  by (auto simp: under_def str_prefix_iff)

lemma tree_write_other: "tree_write env p c fs = (r, fs') \<Longrightarrow> \<not> under p q \<Longrightarrow> map_of fs' q = map_of fs q"
  by (auto simp: tree_write_def under_def update_conv' split: option.splits if_splits)

lemma tree_remove_other: "tree_remove env p fs = (r, fs') \<Longrightarrow> \<not> under p q \<Longrightarrow> map_of fs' q = map_of fs q"
  by (auto simp: tree_remove_def under_def delete_conv' split: option.splits if_splits)

lemma tree_remove_all_other: "tree_remove_all env p fs = (r, fs') \<Longrightarrow> \<not> under p q \<Longrightarrow> map_of fs' q = map_of fs q"
  by (auto simp: tree_remove_all_def map_of_filter_other [of "\<lambda>k. \<not> under p k"] split: option.splits)

lemma tree_rename_other:
  assumes "tree_rename env old new fs = (r, fs')" and "\<not> under old q" and "\<not> under new q"
  shows "map_of fs' q = map_of fs q"
proof -
  have "(if under old k then new @ drop (length old) k else k) = q \<longleftrightarrow> k = q" for k
    using assms(2,3) under_moved [of old k new] by auto
  then have "map_of (map (\<lambda>(k, c). (if under old k then new @ drop (length old) k else k, c)) (filter (\<lambda>(k, _). k \<noteq> new) fs)) q = map_of fs q"
    using assms(3) by (subst map_of_other) (auto simp: map_of_filter_other [of "\<lambda>k. k \<noteq> new"] under_def)
  then show ?thesis using assms(1) by (auto simp: tree_rename_def split: option.splits if_splits)
qed

lemma text_edits_other:
  "applyTextEdits env enc uri edits fs = (r, fs') \<Longrightarrow> outside env [uri] q \<Longrightarrow> map_of fs' q = map_of fs q"
  by (auto simp: applyTextEdits_def outside_def dest: tree_write_other split: sum.splits option.splits prod.splits)

definition result_tree :: "change_result \<Rightarrow> file_tree" where
  "result_tree r = (case r of Inl (_, fs) \<Rightarrow> fs | Inr fs \<Rightarrow> fs)"

lemma change_part_other:
  assumes "map_of (result_tree r) q = map_of fs q" and "\<And>x fs. part = Some x \<Longrightarrow> map_of (result_tree (f x fs)) q = map_of fs q"
  shows "map_of (result_tree (change_part part f r)) q = map_of fs q"
proof (cases r)
  case (Inr fs')
  then have "map_of fs' q = map_of fs q" using assms(1) by (simp add: result_tree_def)
  with Inr assms(2) show ?thesis by (cases part) (auto simp: change_part_def result_tree_def)
qed (use assms(1) in \<open>simp add: change_part_def\<close>)

lemma change_create_other: "outside env [cr_uri c] q \<Longrightarrow> map_of (result_tree (change_create env c fs)) q = map_of fs q"
  by (auto simp: change_create_def result_tree_def outside_def dest: tree_write_other split: sum.splits option.splits prod.splits)

lemma change_delete_other: "outside env [dl_uri d] q \<Longrightarrow> map_of (result_tree (change_delete env d fs)) q = map_of fs q"
  by (auto simp: change_delete_def result_tree_def outside_def dest: tree_remove_other tree_remove_all_other split: sum.splits option.splits prod.splits)

lemma change_rename_other: "outside env [rn_old d, rn_new d] q \<Longrightarrow> map_of (result_tree (change_rename env d fs)) q = map_of fs q"
  by (auto simp: change_rename_def result_tree_def outside_def dest: tree_rename_other split: sum.splits option.splits prod.splits)

lemma document_change_other:
  assumes "applyDocumentChange env enc ch fs = (r, fs')" and "outside env (change_uris ch) q"
  shows "map_of fs' q = map_of fs q"
proof -
  let ?r = "change_part (dc_rename ch) (change_rename env) (change_part (dc_delete ch) (change_delete env) (change_part (dc_create ch) (change_create env) (Inr fs)))"
  have o: "dc_create ch = Some c \<Longrightarrow> outside env [cr_uri c] q" "dc_delete ch = Some d \<Longrightarrow> outside env [dl_uri d] q"
    "dc_rename ch = Some n \<Longrightarrow> outside env [rn_old n, rn_new n] q" "dc_edit ch = Some t \<Longrightarrow> outside env [de_uri t] q" for c d n t
    using assms(2) by (auto simp: change_uris_def outside_def)
  have "map_of (result_tree ?r) q = map_of fs q"
    by (intro change_part_other change_create_other change_delete_other change_rename_other o) (simp_all add: result_tree_def)
  with assms(1) o(4) show ?thesis
    by (auto simp: applyDocumentChange_def result_tree_def change_edit_def dest: text_edits_other split: sum.splits option.splits)
qed

lemma apply_each_other:
  assumes "apply_changes_each msg f xs fs = (r, fs')" and "\<And>x fs r fs'. x \<in> set xs \<Longrightarrow> f x fs = (r, fs') \<Longrightarrow> map_of fs' q = map_of fs q"
  shows "map_of fs' q = map_of fs q"
  using assms by (induction xs arbitrary: fs) (fastforce split: prod.splits option.splits)+

text \<open>
  A workspace edit, even one that fails half-way, changes nothing outside the files it names and what lies under them.
\<close>

theorem workspace_edit_confined:
  assumes "ApplyWorkspaceEdit env enc changes documentChanges fs = (r, fs')"
    and "outside env (map fst changes @ concat (map change_uris documentChanges)) q"
  shows "map_of fs' q = map_of fs q"
proof -
  have o: "outside env [u] q" if "(u, es) \<in> set changes" for u es using assms(2) that by (force simp: outside_def list_all_iff)
  have d: "outside env (change_uris ch) q" if "ch \<in> set documentChanges" for ch using assms(2) that by (auto simp: outside_def list_all_iff)
  obtain r1 fs1 where 1: "apply_changes_each ''failed to apply text edits: '' (\<lambda>(uri, edits). applyTextEdits env enc uri edits) changes fs = (r1, fs1)"
    by fastforce
  have "map_of fs1 q = map_of fs q" by (rule apply_each_other [OF 1]) (auto dest: text_edits_other o)
  moreover have "map_of fs2 q = map_of fs1 q"
    if "apply_changes_each ''failed to apply document change: '' (applyDocumentChange env enc) documentChanges fs1 = (r2, fs2)" for r2 fs2
    by (rule apply_each_other [OF that]) (auto dest: document_change_other d)
  ultimately show ?thesis using assms(1) 1 by (auto simp: ApplyWorkspaceEdit_def split: option.splits)
qed

theorem workspace_edit_confined_witness:
  "map_of (snd (ApplyWorkspaceEdit demo_lsp UTF8 [(''f'', [demo_edit 0 0 0 1 ''X''])] [] [(''f'', Some ''a''), (''g'', Some ''b'')])) ''g'' = Some (Some ''b'')"
  using workspace_edit_confined [where env = demo_lsp and enc = UTF8 and changes = "[(''f'', [demo_edit 0 0 0 1 ''X''])]" and documentChanges = "[]"
      and fs = "[(''f'', Some ''a''), (''g'', Some ''b'')]" and q = "''g''"]
  by (cases "ApplyWorkspaceEdit demo_lsp UTF8 [(''f'', [demo_edit 0 0 0 1 ''X''])] [] [(''f'', Some ''a''), (''g'', Some ''b'')]")
    (simp add: outside_def demo_lsp_def under_def)

subsection \<open>Code points\<close>

text \<open>On well-formed UTF-8 an offset in code points is the length of that many runes.\<close>

theorem utf32_offset_exact:
  assumes "\<forall>r\<in>set rs. utf8_rune r"
  shows "utf32ToByteOffset (concat rs) n = length (concat (take n rs))"
proof -
  have "utf32_from (concat rs) n = length (concat (take n rs))"
    using assms
  proof (induction rs arbitrary: n)
    case Nil
    then show ?case by (simp add: utf32_from.simps)
  next
    case (Cons r rs)
    then have "rune_len (r @ concat rs) = length r" "r \<noteq> []" by (auto simp: rune_len_append utf8_rune_def)
    with Cons show ?case by (cases n) (simp_all add: utf32_from.simps [of "r @ concat rs"])
  qed
  then show ?thesis by (simp add: utf32ToByteOffset_def)
qed

theorem utf32_offset_exact_witness:
  "utf32ToByteOffset (concat [''a'', [CHR 0xC3, CHR 0xA9], ''b'']) 2 = 3"
  using utf32_offset_exact [of "[''a'', [CHR 0xC3, CHR 0xA9], ''b'']" 2] by (simp add: utf8_rune_def cont_in_def second_ok_def rune_width_def Let_def)

end
