(* ===== verification/View_Tool.thy ===== *)
theory View_Tool
  imports Edit_Tool Skills
begin

section \<open>The read tool: \<^verbatim>\<open>agent/tools/view.go\<close>\<close>

text \<open>
  Reading a page of a file, a picture or a built-in skill, on the world of the file tools and the
  tracker of skills. \<open>view_env\<close> adds to the environment of a file tool what only this tool asks for:
  absolute paths, symbolic links, the entries of a directory, what the model can see, sniffing of pictures, the embedded
  files and the YAML decoder. Reading a file succeeds as a whole or fails when it is opened. \<open>None\<close> is a panic.
\<close>

record view_env =
  vv_tool :: edit_env
  vv_abs :: "string \<Rightarrow> string option"
  vv_links :: "string \<Rightarrow> string option"
  vv_dir :: "string \<Rightarrow> string list option"
  vv_lower :: "string \<Rightarrow> string"
  vv_images :: bool
  vv_model :: string
  vv_detect :: "string \<Rightarrow> string"
  vv_builtin :: "string \<Rightarrow> string option"
  vv_yaml :: "string \<Rightarrow> string + skill"

record view_params =
  vp_path :: string
  vp_offset :: int
  vp_limit :: int

record view_meta =
  vm_path :: string
  vm_content :: string
  vm_skill :: "(string \<times> string) option"

datatype view_reply = ViewRefused string | ViewText string view_meta | ViewImage string string

definition MaxViewSize :: nat where "MaxViewSize = 200 * 1024"
definition DefaultReadLimit :: int where "DefaultReadLimit = 200"
definition MaxLineLength :: nat where "MaxLineLength = 2000"
definition skill_limit :: int where "skill_limit = 1000000"

definition int_itoa :: "int \<Rightarrow> string" where
  "int_itoa i = (if i < 0 then ''-'' @ itoa (nat (- i)) else itoa (nat i))"

definition str_trim_suffix :: "string \<Rightarrow> string \<Rightarrow> string" where
  "str_trim_suffix s t = (if str_prefix (rev t) (rev s) then take (length s - length t) s else s)"

subsection \<open>A page of a file\<close>

text \<open>\<^verbatim>\<open>ReadString\<close>: the bytes up to and with the newline, the rest, and whether the end was met.\<close>

definition read_line :: "string \<Rightarrow> string \<times> string \<times> bool" where
  "read_line s = (case str_index s [NL] of None \<Rightarrow> (s, [], True) | Some i \<Rightarrow> (take (i + 1) s, drop (i + 1) s, False))"

fun skip_lines :: "nat \<Rightarrow> string \<Rightarrow> string option" where
  "skip_lines 0 s = Some s"
| "skip_lines (Suc n) s = (let (line, rest, eof) = read_line s in if eof then None else skip_lines n rest)"

definition cut_line :: "string \<Rightarrow> string" where
  "cut_line raw =
     (let line = str_trim_suffix (str_trim_suffix raw [NL]) [CHR 0x0D]
      in if length line > MaxLineLength then drop_invalid (take MaxLineLength line) @ ''...'' else line)"

fun read_lines :: "nat \<Rightarrow> nat \<Rightarrow> string list \<Rightarrow> nat \<Rightarrow> string \<Rightarrow> nat + string list \<times> string" where
  "read_lines 0 maxSize acc contentSize s = Inr (acc, s)"
| "read_lines (Suc n) maxSize acc contentSize s =
     (let (raw, rest, eof) = read_line s;
          line = cut_line raw;
          projectedSize = contentSize + length line + (if acc \<noteq> [] then 1 else 0)
      in if maxSize > 0 \<and> projectedSize > maxSize then Inl projectedSize
         else if eof then Inr (acc @ [line], rest)
         else read_lines n maxSize (acc @ [line]) projectedSize rest)"

definition readTextFile :: "string \<Rightarrow> int \<Rightarrow> int \<Rightarrow> nat \<Rightarrow> nat + string \<times> bool" where
  "readTextFile content offset limit maxContentSize =
     (case skip_lines (nat offset) content of
        None \<Rightarrow> Inr ([], False)
      | Some s \<Rightarrow>
          (case read_lines (nat limit) maxContentSize [] 0 s of
             Inl bytes \<Rightarrow> Inl bytes
           | Inr (lines, rest) \<Rightarrow>
               (let (peeked, rest, eof) = read_line rest
                in Inr (str_join [NL] lines, int (length lines) = limit \<and> (peeked \<noteq> [] \<or> \<not> eof)))))"

definition number_line :: "int \<Rightarrow> string \<Rightarrow> string" where
  "number_line n line =
     (let line = str_trim_suffix line [CHR 0x0D]; numStr = int_itoa n
      in (if length numStr \<ge> 6 then numStr else replicate (6 - length numStr) CHR '' '' @ numStr) @ ''|'' @ line)"

definition addLineNumbers :: "string \<Rightarrow> int \<Rightarrow> string" where
  "addLineNumbers content startLine =
     (if content = [] then []
      else
        (let lines = str_split content [NL]
         in str_join [NL] (map (\<lambda>(i, line). number_line (int i + startLine) line) (enumerate 0 lines))))"

definition view_output :: "string \<Rightarrow> int \<Rightarrow> (int option) \<Rightarrow> string" where
  "view_output content startLine beyond =
     ''<file>'' @ [NL] @ addLineNumbers content startLine @
     (case beyond of None \<Rightarrow> [] | Some n \<Rightarrow> [NL, NL] @ ''(File has more lines. Use 'offset' parameter to read beyond line '' @ int_itoa n @ '')'') @
     [NL] @ ''</file>'' @ [NL]"

subsection \<open>Pictures\<close>

definition getImageMimeType :: "(string \<Rightarrow> string) \<Rightarrow> string \<Rightarrow> string option" where
  "getImageMimeType lower path =
     (let ext = lower (filepath_Ext path)
      in if ext = ''.jpg'' \<or> ext = ''.jpeg'' then Some ''image/jpeg''
         else if ext = ''.png'' then Some ''image/png''
         else if ext = ''.gif'' then Some ''image/gif''
         else if ext = ''.webp'' then Some ''image/webp'' else None)"

definition sniffImageMimeType :: "(string \<Rightarrow> string) \<Rightarrow> string \<Rightarrow> string \<Rightarrow> string" where
  "sniffImageMimeType detect data fallback =
     (let sniffed = detect data;
          sniffed = (case str_index sniffed '';'' of Some i \<Rightarrow> trim_space (take i sniffed) | None \<Rightarrow> sniffed)
      in if sniffed \<in> set [''image/jpeg'', ''image/png'', ''image/gif'', ''image/webp''] then sniffed else fallback)"

subsection \<open>Skills\<close>

definition isInSkillsPath :: "view_env \<Rightarrow> string \<Rightarrow> string list \<Rightarrow> bool" where
  "isInSkillsPath env filePath skillsPaths =
     (if skillsPaths = [] then False
      else
        (case Option.bind (vv_abs env filePath) (vv_links env) of
           None \<Rightarrow> False
         | Some evalFilePath \<Rightarrow>
             list_ex (\<lambda>p. case Option.bind (vv_abs env p) (vv_links env) of
                 None \<Rightarrow> False
               | Some evalSkillsPath \<Rightarrow>
                   (case filepath_Rel evalSkillsPath evalFilePath of None \<Rightarrow> False | Some rel \<Rightarrow> \<not> str_prefix ''..'' rel)) skillsPaths))"

definition mark_skill :: "string + skill \<Rightarrow> view_meta \<times> skill_tracker \<Rightarrow> view_meta \<times> skill_tracker" where
  "mark_skill parsed =
     (\<lambda>(meta, tr).
        case parsed of
          Inl _ \<Rightarrow> (meta, tr)
        | Inr sk \<Rightarrow> (meta\<lparr>vm_skill := Some (sk_name sk, sk_description sk)\<rparr>, MarkLoaded (sk_name sk) tr))"

text \<open>A negative offset past \<^verbatim>\<open>min\<close> is a slice out of range.\<close>

definition readBuiltinFile :: "view_env \<Rightarrow> view_params \<Rightarrow> skill_tracker \<Rightarrow> (view_reply \<times> skill_tracker) option" where
  "readBuiltinFile env params tr =
     (case vv_builtin env (''builtin/'' @ str_trim_prefix (vp_path params) BuiltinPrefix) of
        None \<Rightarrow> Some (ViewRefused (''Builtin file not found: '' @ vp_path params), tr)
      | Some content \<Rightarrow>
          if \<not> ValidString content then Some (ViewRefused ''File content is not valid UTF-8'', tr)
          else
            (let limit = (if vp_limit params \<le> 0 then skill_limit else vp_limit params);
                 lines = str_split content [NL];
                 offset = min (vp_offset params) (int (length lines))
             in if offset < 0 then None
                else
                  (let lines = drop (nat offset) lines;
                       hasMore = int (length lines) > limit;
                       lines = (if hasMore then take (nat limit) lines else lines);
                       shown = str_join [NL] lines;
                       (meta, tr) = mark_skill (ParseContent (vv_yaml env) content) (\<lparr>vm_path = vp_path params, vm_content = shown, vm_skill = None\<rparr>, tr)
                   in Some (ViewText (view_output shown (offset + 1) (if hasMore then Some (offset + int (length lines)) else None)) meta, tr))))"

subsection \<open>The tool\<close>

definition not_found :: "view_env \<Rightarrow> string \<Rightarrow> string" where
  "not_found env path =
     (let dir = filepath_Dir path; base = filepath_Base path
      in case vv_dir env dir of
           None \<Rightarrow> ''File not found: '' @ path
         | Some entries \<Rightarrow>
             (let suggestions = take 3 (map (\<lambda>n. filepath_Join [dir, n])
                    (filter (\<lambda>n. str_contains (vv_lower env n) (vv_lower env base) \<or> str_contains (vv_lower env base) (vv_lower env n)) entries))
              in if suggestions = [] then ''File not found: '' @ path
                 else ''File not found: '' @ path @ [NL, NL] @ ''Did you mean one of these?'' @ [NL] @ str_join [NL] suggestions))"

definition view_image :: "view_env \<Rightarrow> string \<Rightarrow> string \<Rightarrow> string + view_reply" where
  "view_image env content mimeType =
     (if length content > MaxViewSize
      then Inr (ViewRefused (''Image file is too large ('' @ itoa (length content) @ '' bytes). Maximum size is '' @ itoa MaxViewSize @ '' bytes''))
      else if \<not> vv_images env then Inr (ViewRefused (''This model ('' @ vv_model env @ '') does not support image data.''))
      else (case ev_read (vv_tool env) of
              Some e \<Rightarrow> Inl (''error reading image file: '' @ e)
            | None \<Rightarrow> Inr (ViewImage content (sniffImageMimeType (vv_detect env) content mimeType))))"

type_synonym view_world = "edit_world \<times> skill_tracker"

definition view_text :: "view_env \<Rightarrow> bool \<Rightarrow> string \<Rightarrow> string \<Rightarrow> int \<Rightarrow> int \<Rightarrow> view_world \<Rightarrow> (string + view_reply) \<times> view_world" where
  "view_text env isSkillFile filePath content offset limit =
     (\<lambda>(w, tr).
        case ev_read (vv_tool env) of
          Some e \<Rightarrow> (Inl (''error reading file: '' @ e), (w, tr))
        | None \<Rightarrow>
            (case readTextFile content offset limit (if isSkillFile then 0 else MaxViewSize) of
               Inl bytes \<Rightarrow>
                 (Inr (ViewRefused (''Content section is too large ('' @ itoa bytes @ '' bytes). Maximum size is '' @ itoa MaxViewSize @ '' bytes'')), (w, tr))
             | Inr (shown, hasMore) \<Rightarrow>
                 if \<not> ValidString shown then (Inr (ViewRefused ''File content is not valid UTF-8''), (w, tr))
                 else
                   (let output = view_output shown (offset + 1) (if hasMore then Some (offset + int (length (str_split shown [NL]))) else None);
                        w = RecordRead (vv_tool env) (ev_session (vv_tool env)) filePath w;
                        meta = \<lparr>vm_path = filePath, vm_content = shown, vm_skill = None\<rparr>;
                        (meta, tr) = (if isSkillFile then mark_skill (Parse_skill (\<lambda>_. Inr content) (vv_yaml env) filePath) (meta, tr) else (meta, tr))
                    in (Inr (ViewText output meta), (w, tr)))))"

definition ViewTool :: "view_env \<Rightarrow> string \<Rightarrow> string list \<Rightarrow> view_params \<Rightarrow> view_world \<Rightarrow> ((string + view_reply) \<times> view_world) option" where
  "ViewTool env workingDir skillsPaths params =
     (\<lambda>(w, tr).
        if vp_path params = [] then Some (Inr (ViewRefused ''file_path is required''), (w, tr))
        else if str_prefix BuiltinPrefix (vp_path params) then
          map_option (\<lambda>(reply, tr). (Inr reply, (w, tr))) (readBuiltinFile env params tr)
        else
          (let filePath = SmartJoin workingDir (vp_path params)
           in case vv_abs env filePath of
                None \<Rightarrow> Some (Inl ''error resolving file path'', (w, tr))
              | Some absFilePath \<Rightarrow>
                  (let isSkillFile = isInSkillsPath env absFilePath skillsPaths
                   in if ev_session (vv_tool env) = [] then Some (Inl ''session ID is required for accessing files'', (w, tr))
                      else
                        (case ev_stat (vv_tool env) of
                           Some e \<Rightarrow> Some (Inl (''error accessing file: '' @ e), (w, tr))
                         | None \<Rightarrow>
                             (case map_of (ew_fs w) filePath of
                                None \<Rightarrow> Some (Inr (ViewRefused (not_found env filePath)), (w, tr))
                              | Some FsDir \<Rightarrow> Some (Inr (ViewRefused (''Path is a directory, not a file: '' @ filePath)), (w, tr))
                              | Some (FsFile content mtime) \<Rightarrow>
                                  (let limit = (if vp_limit params \<le> 0 then (if isSkillFile then skill_limit else DefaultReadLimit) else vp_limit params)
                                   in case getImageMimeType (vv_lower env) filePath of
                                        Some mimeType \<Rightarrow> Some (view_image env content mimeType, (w, tr))
                                      | None \<Rightarrow> Some (view_text env isSkillFile filePath content (vp_offset params) limit (w, tr))))))))"

end
