(* ===== verification/View_Tool_Props.thy ===== *)
theory View_Tool_Props
  imports View_Tool Edit_Tool_Props
begin

section \<open>What the read tool shows and what it allows\<close>

text \<open>Reading line by line against the lines of the whole content, and reading before editing.\<close>

subsection \<open>Pages\<close>

abbreviation line_list :: "string list \<Rightarrow> bool" where
  "line_list ls \<equiv> ls \<noteq> [] \<and> (\<forall>l\<in>set ls. NL \<notin> set l)"

lemma line_list_split: "line_list (str_split content [NL])"
  using str_split_char_free [of content NL] by auto

lemma read_line_join:
  assumes "NL \<notin> set l"
  shows "read_line (str_join [NL] (l # ls)) = (if ls = [] then (l, [], True) else (l @ [NL], str_join [NL] ls, False))"
  using assms by (auto simp: read_line_def str_join_Cons str_index_char str_index_char_None)

lemma skip_lines_join:
  "line_list ls \<Longrightarrow> skip_lines n (str_join [NL] ls) = (if n < length ls then Some (str_join [NL] (drop n ls)) else None)"
proof (induction n arbitrary: ls)
  case (Suc n)
  then obtain l m where ls: "ls = l # m" by (cases ls) auto
  show ?case
  proof (cases "m = []")
    case True
    then show ?thesis using Suc.prems by (simp add: ls read_line_join [of l "[]", simplified])
  next
    case False
    with Suc show ?thesis by (simp add: ls read_line_join)
  qed
qed simp

lemma trim_suffix_snoc [simp]: "str_trim_suffix (l @ [c]) [c] = l"
  by (simp add: str_trim_suffix_def)

lemma trim_suffix_free: "c \<notin> set l \<Longrightarrow> str_trim_suffix l [c] = l"
  by (cases l rule: rev_cases) (auto simp: str_trim_suffix_def)

lemma cut_line_NL: "NL \<notin> set l \<Longrightarrow> cut_line (l @ [NL]) = cut_line l"
  by (simp add: cut_line_def trim_suffix_free)

lemma cut_line_bound: "length (cut_line l) \<le> MaxLineLength + 3"
proof -
  have "length (drop_invalid (take MaxLineLength s)) \<le> MaxLineLength" for s
    using length_drop_invalid [of "take MaxLineLength s"] by simp
  then show ?thesis by (simp add: cut_line_def Let_def)
qed

lemma length_join_snoc: "length (str_join [c] (xs @ [x])) = length (str_join [c] xs) + length x + (if xs \<noteq> [] then 1 else 0)"
  by (induction xs rule: induct_list012) (auto simp: str_join_Cons)

lemma length_join_mono: "length (str_join [c] xs) \<le> length (str_join [c] (xs @ ys))"
proof (induction ys rule: rev_induct)
  case (snoc y ys)
  have "length (str_join [c] ((xs @ ys) @ [y])) \<ge> length (str_join [c] (xs @ ys))" by (simp only: length_join_snoc)
  with snoc show ?case by simp
qed simp

lemma read_line_more: "read_line s = (p, q, e) \<Longrightarrow> (p \<noteq> [] \<or> \<not> e) \<longleftrightarrow> s \<noteq> []"
  by (auto simp: read_line_def split: option.splits)

text \<open>The loop against the page it collects.\<close>

lemma read_lines_step:
  assumes "NL \<notin> set l"
  shows "read_lines (Suc n) lim acc (length (str_join [NL] acc)) (str_join [NL] (l # m)) =
    (let used = length (str_join [NL] (acc @ [cut_line l]))
     in if lim > 0 \<and> used > lim then Inl used
        else if m = [] then Inr (acc @ [cut_line l], []) else read_lines n lim (acc @ [cut_line l]) used (str_join [NL] m))"
  using assms by (simp add: read_line_join cut_line_NL length_join_snoc Let_def del: str_join.simps)

lemma read_lines_page:
  assumes "line_list ls" and "lim = 0 \<or> length (str_join [NL] acc) \<le> lim"
  shows "let page = map cut_line (take n ls); r = read_lines n lim acc (length (str_join [NL] acc)) (str_join [NL] ls)
    in if lim = 0 \<or> length (str_join [NL] (acc @ page)) \<le> lim
       then r = Inr (acc @ page, if n < length ls then str_join [NL] (drop n ls) else []) else (\<exists>b > lim. r = Inl b)"
  using assms
proof (induction n arbitrary: ls acc)
  case 0
  then show ?case by simp
next
  case (Suc n)
  then obtain l m where ls: "ls = l # m" by (cases ls) auto
  have l: "NL \<notin> set l" using Suc.prems ls by simp
  let ?rest = "map cut_line (take n m)" and ?used = "length (str_join [NL] (acc @ [cut_line l]))"
  have le: "?used \<le> length (str_join [NL] (acc @ cut_line l # ?rest))"
    using length_join_mono [of NL "acc @ [cut_line l]" ?rest] by simp
  consider (over) "lim > 0" "?used > lim" | (stop) "lim = 0 \<or> ?used \<le> lim" "m = []" | (more) "lim = 0 \<or> ?used \<le> lim" "m \<noteq> []" by linarith
  note by_cases = this
  note step = read_lines_step [OF l, of n lim acc m, unfolded Let_def]
  show ?case
  proof (cases rule: by_cases)
    case over
    then have "read_lines (Suc n) lim acc (length (str_join [NL] acc)) (str_join [NL] ls) = Inl ?used" unfolding ls step by simp
    with over le show ?thesis by (auto simp: ls Let_def)
  next
    case stop
    then have "read_lines (Suc n) lim acc (length (str_join [NL] acc)) (str_join [NL] ls) = Inr (acc @ [cut_line l], [])" unfolding ls step by auto
    with stop show ?thesis by (simp add: ls Let_def)
  next
    case more
    then have "read_lines (Suc n) lim acc (length (str_join [NL] acc)) (str_join [NL] ls) =
        read_lines n lim (acc @ [cut_line l]) ?used (str_join [NL] m)" unfolding ls step by auto
    moreover have "line_list m" using Suc.prems ls more by simp
    ultimately show ?thesis using Suc.IH [of m "acc @ [cut_line l]"] more by (simp add: ls Let_def)
  qed
qed

text \<open>
  The read tool shows the page that begins at the offset: the lines of the content from there, at most the
  limit, each with its line ending removed and cut to its maximum; it says there is more exactly when
  text is left, and refuses exactly when the page is larger than the maximum.
\<close>

theorem read_page_exact:
  assumes "0 < limit" and "lines = str_split content [NL]" and "page = map cut_line (take (nat limit) (drop (nat offset) lines))"
    and "left = drop (nat offset + nat limit) lines"
  shows "list_all (\<lambda>l. length l \<le> MaxLineLength + 3) page \<and>
    (if length lines \<le> nat offset then readTextFile content offset limit maxSize = Inr ([], False)
     else if maxSize = 0 \<or> length (str_join [NL] page) \<le> maxSize
     then readTextFile content offset limit maxSize = Inr (str_join [NL] page, str_join [NL] left \<noteq> [])
     else (\<exists>b > maxSize. readTextFile content offset limit maxSize = Inl b))"
proof (cases "length lines \<le> nat offset")
  case True
  have "line_list lines" "content = str_join [NL] lines" using line_list_split assms(2) by (auto simp: str_join_split)
  then show ?thesis using True by (simp add: readTextFile_def skip_lines_join assms(3) list_all_iff cut_line_bound)
next
  case False
  have ll: "line_list lines" "content = str_join [NL] lines" using line_list_split assms(2) by (auto simp: str_join_split)
  let ?ls = "drop (nat offset) lines"
  have dl: "line_list ?ls" using ll(1) False by (auto dest: in_set_dropD)
  have sk: "skip_lines (nat offset) content = Some (str_join [NL] ?ls)" using ll False by (simp add: skip_lines_join)
  from read_lines_page [OF dl, of maxSize "[]" "nat limit"]
  have r: "if maxSize = 0 \<or> length (str_join [NL] page) \<le> maxSize
      then read_lines (nat limit) maxSize [] 0 (str_join [NL] ?ls) = Inr (page, if nat limit < length ?ls then str_join [NL] left else [])
      else (\<exists>b > maxSize. read_lines (nat limit) maxSize [] 0 (str_join [NL] ?ls) = Inl b)"
    by (simp add: assms(3,4) Let_def add.commute)
  have more: "int (length page) = limit \<and> (p \<noteq> [] \<or> \<not> e) \<longleftrightarrow> str_join [NL] left \<noteq> []"
    if "read_line (if nat limit < length ?ls then str_join [NL] left else []) = (p, q, e)" for p q e
    using read_line_more [OF that] assms(1) by (auto simp: assms(3,4))
  have b: "list_all (\<lambda>l. length l \<le> MaxLineLength + 3) page" by (simp add: assms(3) list_all_iff cut_line_bound)
  show ?thesis
  proof (cases "maxSize = 0 \<or> length (str_join [NL] page) \<le> maxSize")
    case True
    let ?x = "if nat limit < length ?ls then str_join [NL] left else []"
    obtain p q e where x: "read_line ?x = (p, q, e)" by (cases "read_line ?x")
    have "read_lines (nat limit) maxSize [] 0 (str_join [NL] ?ls) = Inr (page, ?x)" using r True by auto
    then have "readTextFile content offset limit maxSize = Inr (str_join [NL] page, str_join [NL] left \<noteq> [])"
      using more [OF x] x by (simp add: readTextFile_def sk del: str_join.simps)
    with True False b show ?thesis by auto
  next
    case over: False
    with r obtain k where "k > maxSize" "read_lines (nat limit) maxSize [] 0 (str_join [NL] ?ls) = Inl k" by auto
    with over False b show ?thesis by (auto simp: readTextFile_def sk)
  qed
qed

theorem read_page_exact_witness:
  "readTextFile [CHR ''a'', NL, CHR ''b'', CHR 0x0D, NL, CHR ''c'', NL] 1 2 9 = Inr ([CHR ''b'', NL, CHR ''c''], False)"
  using read_page_exact [where content = "[CHR ''a'', NL, CHR ''b'', CHR 0x0D, NL, CHR ''c'', NL]" and offset = 1 and limit = 2 and maxSize = 9, OF _ refl refl refl]
  by (simp add: str_split.simps cut_line_def str_trim_suffix_def MaxLineLength_def)

subsection \<open>Reading before editing\<close>

lemma recorded_loads:
  assumes "map_of (ew_fs w) path = Some (FsFile content mtime)" and "seconds mtime \<le> seconds (ev_now env)" and "seconds (ev_now env) \<noteq> zero_time"
    and "ev_saved env" and "ev_session env \<noteq> []" and "relpath (ev_cwd env) path \<noteq> []"
    and "ev_session later = ev_session env" and "ev_cwd later = ev_cwd env" and "ev_fetched later" and "ev_stat later = None" and "ev_read later = None"
  shows "\<exists>old crlf. loadExistingFile later path err (RecordRead env (ev_session env) path w) = Loaded old crlf"
proof -
  let ?w = "RecordRead env (ev_session env) path w"
  have "map_of (ew_fs ?w) path = Some (FsFile content mtime)" using assms(1) by (simp add: RecordRead_def Let_def)
  moreover have "LastReadTime later (ev_session later) path ?w = seconds (ev_now env)"
    using assms by (simp add: LastReadTime_def RecordRead_def Let_def update_conv')
  ultimately show ?thesis using assms by (simp add: loadExistingFile_def Let_def split: prod.split)
qed

text \<open>
  Showing a file as text changes nothing in the world but the read record of that file, and with it the edit tool loads
  the file without asking to read it first, until the file is written again. When no text of a file on disk
  is shown, nothing changes.
\<close>

theorem view_unlocks_edit:
  assumes "ViewTool env wd sp params (w, tr) = Some (reply, (w', tr'))" and "\<not> str_prefix BuiltinPrefix (vp_path params)"
    and "path = SmartJoin wd (vp_path params)" and "e = vv_tool env"
  shows "if \<exists>out meta. reply = Inr (ViewText out meta)
    then w' = RecordRead e (ev_session e) path w \<and>
      (\<forall>later content mtime err. map_of (ew_fs w) path = Some (FsFile content mtime) \<and> seconds mtime \<le> seconds (ev_now e) \<and>
         seconds (ev_now e) \<noteq> zero_time \<and> ev_saved e \<and> relpath (ev_cwd e) path \<noteq> [] \<and>
         ev_session later = ev_session e \<and> ev_cwd later = ev_cwd e \<and> ev_fetched later \<and> ev_stat later = None \<and> ev_read later = None \<longrightarrow>
         (\<exists>old crlf. loadExistingFile later path err w' = Loaded old crlf))
    else w' = w \<and> tr' = tr"
proof -
  have "if \<exists>out meta. reply = Inr (ViewText out meta) then w' = RecordRead e (ev_session e) path w \<and> ev_session e \<noteq> [] else w' = w \<and> tr' = tr"
    using assms(1) [unfolded ViewTool_def view_text_def view_image_def Let_def] assms(2-4)
    by (auto split: if_splits option.splits sum.splits fs_node.splits prod.splits)
  then show ?thesis using recorded_loads by (auto split: if_splits)
qed

definition demo_view :: view_env where
  "demo_view = \<lparr>vv_tool = demo_env, vv_abs = Some, vv_links = Some, vv_dir = (\<lambda>_. None), vv_lower = id, vv_images = False,
     vv_model = ''m'', vv_detect = (\<lambda>_. []), vv_builtin = (\<lambda>p. Some ''text''), vv_yaml = (\<lambda>_. Inl [])\<rparr>"

definition unread_world :: edit_world where
  "unread_world = demo_world\<lparr>ew_reads := []\<rparr>"

definition demo_shown :: "((string + view_reply) \<times> view_world) option" where
  "demo_shown = ViewTool demo_view ''/w'' [] \<lparr>vp_path = ''a'', vp_offset = 0, vp_limit = 3\<rparr> (unread_world, NewTracker [])"

lemma demo_page: "readTextFile (''one'' @ CRLF @ ''two'' @ CRLF) 0 3 MaxViewSize = Inr (''one'' @ [NL] @ ''two'' @ [NL], False)"
  by (simp add: readTextFile_def read_line_def cut_line_def str_trim_suffix_def MaxViewSize_def MaxLineLength_def numeral_3_eq_3 Let_def)

lemma demo_facts:
  "SmartJoin ''/w'' ''a'' = ''/w/a''" "\<not> str_prefix BuiltinPrefix ''a''" "getImageMimeType id ''/w/a'' = None"
  "ValidString (''one'' @ [NL] @ ''two'' @ [NL])" "relpath (Some ''/w'') ''/w/a'' \<noteq> []"
  "map_of (ew_fs unread_world) ''/w/a'' = Some (FsFile (''one'' @ CRLF @ ''two'' @ CRLF) 5000000000)"
  by code_simp+

lemma demo_env_facts:
  "vv_tool demo_view = demo_env" "ev_session demo_env = ''s''" "ev_now demo_env = 9000000000" "ev_cwd demo_env = Some ''/w''"
  "ev_saved demo_env" "ev_fetched demo_env" "ev_stat demo_env = None" "ev_read demo_env = None" "vv_abs demo_view = Some" "vv_lower demo_view = id"
  by (simp_all add: demo_view_def demo_env_def)

lemma demo_shown_eval: "\<exists>out m w' tr'. demo_shown = Some (Inr (ViewText out m), (w', tr'))"
  using demo_page demo_facts
  by (simp add: demo_shown_def ViewTool_def view_text_def demo_env_facts isInSkillsPath_def Let_def del: append.simps append_Cons)

theorem view_unlocks_edit_witness:
  "\<exists>r w' tr'. demo_shown = Some (r, w', tr') \<and> w' = RecordRead demo_env ''s'' ''/w/a'' unread_world \<and>
     (\<exists>old crlf. loadExistingFile demo_env ''/w/a'' [] w' = Loaded old crlf)"
proof -
  obtain out m w' tr' where d: "demo_shown = Some (Inr (ViewText out m), (w', tr'))" using demo_shown_eval by blast
  note p = demo_facts(1,2) and w = demo_facts(6) and n = demo_facts(5)
  have z: "seconds 5000000000 \<le> seconds 9000000000" "seconds 9000000000 \<noteq> zero_time" by code_simp+
  note e = demo_env_facts
  note t = view_unlocks_edit [OF d [unfolded demo_shown_def], where path = "''/w/a''" and e = demo_env]
  have "w' = RecordRead demo_env ''s'' ''/w/a'' unread_world" using t p e by simp
  moreover have "\<exists>old crlf. loadExistingFile demo_env ''/w/a'' [] w' = Loaded old crlf"
    using t w n z by (auto simp: p e dest!: spec [where x = demo_env])
  ultimately show ?thesis using d by blast
qed

text \<open>A built-in file read at a negative offset panics; a file on disk is numbered from below zero.\<close>

lemma builtin_negative_offset_panics:
  "ViewTool demo_view ''/w'' [] \<lparr>vp_path = BuiltinPrefix @ ''x'', vp_offset = -1, vp_limit = 0\<rparr> s = None"
proof -
  have "ValidString ''text''" by code_simp
  then show ?thesis
    by (cases s) (simp add: ViewTool_def BuiltinPrefix_def readBuiltinFile_def demo_view_def Let_def del: str_split.simps)
qed

lemma negative_line_numbers: "addLineNumbers ''one'' (-5 + 1) = ''    -4|one''"
  by code_simp

end
