(* ===== verification/Provider_Options.thy ===== *)
theory Provider_Options
  imports Oauth_Refresh Hooks "HOL-Library.List_Lexorder" "HOL-Library.Char_ord"
begin

section \<open>The options of a model call: \<^verbatim>\<open>agent/coordinator.go\<close>, \<^verbatim>\<open>provider_option_defaults.go\<close>, \<^verbatim>\<open>config/model_route.go\<close>\<close>

text \<open>
  How the options a user configured, the catalog's and the adapter's own become those of one call. A
  JSON value is that of the hooks, an object a list of fields with different names; merging the three layers, the parsers of
  the provider packages and their model lists are libraries, collected in \<open>option_lib\<close>. Provider types and
  provider IDs are string constants of those packages: a type is the datatype \<open>api_type\<close>, an ID is
  told apart by \<open>ol_kind\<close>. An error is its message.
\<close>

type_synonym json_fields = "(string \<times> json) list"

lemma map_sum_Inr: "map_sum id f x = Inr y \<longleftrightarrow> (\<exists>z. x = Inr z \<and> y = f z)"
  by (cases x) auto

subsection \<open>Defaults below what is configured\<close>

fun withProviderDefaults :: "json_fields \<Rightarrow> json_fields \<Rightarrow> json_fields" where
  "withProviderDefaults [] merged = merged"
| "withProviderDefaults ((key, JObj child) # configured) merged =
     withProviderDefaults configured
       (AList.update key (case map_of merged key of Some (JObj fallback) \<Rightarrow> JObj (withProviderDefaults child fallback) | _ \<Rightarrow> JObj child) merged)"
| "withProviderDefaults ((key, v) # configured) merged = withProviderDefaults configured (AList.update key v merged)"

definition mergeExtraBodyDefaults :: "json_fields \<Rightarrow> json_fields \<Rightarrow> string + json_fields" where
  "mergeExtraBodyDefaults options defaults =
     (case map_of options ''extra_body'' of
        Some JNull \<Rightarrow> Inr options
      | Some (JObj body) \<Rightarrow> Inr (AList.update ''extra_body'' (JObj (withProviderDefaults body defaults)) options)
      | Some _ \<Rightarrow> Inl ''invalid provider option extra_body: must be an object''
      | None \<Rightarrow> Inr (if defaults \<noteq> [] then AList.update ''extra_body'' (JObj defaults) options else options))"

definition extra_layer :: "json \<Rightarrow> json option \<Rightarrow> json" where
  "extra_layer v body =
     (case (body, v) of (Some (JObj current), JObj next) \<Rightarrow> JObj (withProviderDefaults next current) | _ \<Rightarrow> v)"

fun extra_layers :: "json_fields list \<Rightarrow> json option \<Rightarrow> string + json option" where
  "extra_layers [] body = Inr body"
| "extra_layers (obj # layers) body =
     (case map_of obj ''extra_body'' of
        None \<Rightarrow> extra_layers layers body
      | Some v \<Rightarrow>
          if v \<noteq> JNull \<and> (case v of JObj _ \<Rightarrow> False | _ \<Rightarrow> True) then Inl ''invalid provider option extra_body: must be an object''
          else extra_layers layers (Some (extra_layer v body)))"

definition preserveExtraBodyLayers :: "json_fields \<Rightarrow> json_fields list \<Rightarrow> string + json_fields" where
  "preserveExtraBodyLayers options layers =
     (case extra_layers layers None of
        Inl e \<Rightarrow> Inl e
      | Inr None \<Rightarrow> Inr options
      | Inr (Some body) \<Rightarrow> Inr (AList.update ''extra_body'' body options))"

subsection \<open>Models, providers and routes\<close>

datatype api_type = TyOpenAI | TyAzure | TyAnthropic | TyBedrock | TyOpenRouter | TyVercel | TyGoogle | TyVertex | TyCompat | TyHyper | TyOther string

datatype provider_kind = KHyper | KIoNet | KOpenCode | KZAI | KDeepSeek | KFireworks | KBaseten | KAlibaba
  | KCopilot | KMiniMax | KBedrockEurope | KOtherKind

record model_route =
  mr_api :: string
  mr_base :: string
  mr_headers :: "(string, string) gomap"

record call_provider =
  cp_id :: string
  cp_type :: api_type
  cp_base :: string
  cp_oauth :: "oauth_token option"
  cp_headers :: "(string, string) gomap"
  cp_options :: "json_fields option"
  cp_routes :: "(string, model_route) gomap"

record call_model =
  cm_id :: string
  cm_can_reason :: bool
  cm_levels :: "string list"
  cm_default_effort :: string
  cm_catalog_options :: "json_fields option"
  cm_effort :: string
  cm_think :: bool
  cm_selected :: string
  cm_options :: "json_fields option"

definition IsSubscriptionProvider :: "string \<Rightarrow> bool" where
  "IsSubscriptionProvider providerID \<longleftrightarrow> providerID = ''codex'' \<or> providerID = ''openai''"

definition HasSubscriptionCredential :: "string \<Rightarrow> oauth_token option \<Rightarrow> bool" where
  "HasSubscriptionCredential providerID token \<longleftrightarrow> token \<noteq> None \<and> IsSubscriptionProvider providerID"

definition route_type :: "string \<Rightarrow> api_type \<Rightarrow> api_type option" where
  "route_type api ty =
     (if api = ''openai-responses'' then Some TyOpenAI
      else if api = ''openai-completions'' then Some (if ty \<noteq> TyOpenRouter \<and> ty \<noteq> TyVercel then TyCompat else ty)
      else if api = ''anthropic-messages'' then Some TyAnthropic
      else if api = ''google-generative-ai'' then Some TyGoogle
      else if api = ''google-vertex'' then Some TyVertex
      else if api = ''bedrock-converse-stream'' then Some TyBedrock
      else if api = ''azure-openai-responses'' then Some TyAzure else None)"

definition maps_copy :: "('k, 'v) gomap \<Rightarrow> ('k, 'v) gomap \<Rightarrow> ('k, 'v) gomap" where
  "maps_copy dst src = foldl (\<lambda>m (k, v). AList.update k v m) dst src"

text \<open>\<^verbatim>\<open>%q\<close> of a text without characters to escape.\<close>

definition quoted :: "string \<Rightarrow> string" where "quoted s = CHR 0x22 # s @ [CHR 0x22]"

definition ForModel :: "call_provider \<Rightarrow> string \<Rightarrow> string + call_provider" where
  "ForModel p modelID =
     (if HasSubscriptionCredential (cp_id p) (cp_oauth p) then Inr p
      else (case map_of (cp_routes p) modelID of
              None \<Rightarrow> Inr p
            | Some route \<Rightarrow>
                (case route_type (mr_api route) (cp_type p) of
                   None \<Rightarrow> Inl (''unsupported catalog api '' @ quoted (mr_api route) @ '' for provider '' @ quoted (cp_id p) @ '' model '' @ quoted modelID)
                 | Some ty \<Rightarrow>
                     Inr (p\<lparr>cp_type := ty, cp_base := (if mr_base route \<noteq> [] then mr_base route else cp_base p),
                            cp_headers := maps_copy (mr_headers route) (cp_headers p)\<rparr>))))"

definition UsesResponsesAPI :: "call_provider \<Rightarrow> string \<Rightarrow> bool \<Rightarrow> bool" where
  "UsesResponsesAPI p modelID legacy =
     (if HasSubscriptionCredential (cp_id p) (cp_oauth p) then legacy
      else (case map_of (cp_routes p) modelID of
              Some route \<Rightarrow> mr_api route = ''openai-responses'' \<or> mr_api route = ''azure-openai-responses''
            | None \<Rightarrow> legacy))"

definition effectiveReasoningEffort :: "call_model \<Rightarrow> string" where
  "effectiveReasoningEffort m =
     (if \<not> cm_can_reason m then []
      else if cm_effort m \<noteq> [] \<and> cm_effort m \<in> set (cm_levels m) then cm_effort m
      else if cm_default_effort m \<noteq> [] \<and> cm_default_effort m \<in> set (cm_levels m) then cm_default_effort m
      else (case cm_levels m of l # _ \<Rightarrow> l | [] \<Rightarrow> []))"

text \<open>A decoded option is null, an array of values, or something else.\<close>

fun include_texts :: "nat \<Rightarrow> json list \<Rightarrow> string + string list" where
  "include_texts i [] = Inr []"
| "include_texts i (JStr s # vs) = (case include_texts (Suc i) vs of Inl e \<Rightarrow> Inl e | Inr ss \<Rightarrow> Inr (s # ss))"
| "include_texts i (_ # vs) = Inl (''include['' @ itoa i @ ''] must be a string'')"

definition mergeResponsesIncludes :: "json option \<Rightarrow> string list \<Rightarrow> string + string list" where
  "mergeResponsesIncludes configured required =
     (case (case configured of
              None \<Rightarrow> Inr [] | Some JNull \<Rightarrow> Inr []
            | Some (JArr vs) \<Rightarrow> include_texts 0 vs
            | Some _ \<Rightarrow> Inl ''include must be an array of strings'') of
        Inl e \<Rightarrow> Inl e
      | Inr texts \<Rightarrow> Inr (sort (remdups (filter (\<lambda>t. t \<noteq> []) (texts @ required)))))"

subsection \<open>The options of a call\<close>

datatype option_parser = ParseResponses | ParseOpenAI | ParseAnthropic | ParseOpenRouter | ParseVercel | ParseGoogle | ParseCompat

record option_lib =
  ol_merge :: "json_fields list \<Rightarrow> string + json_fields"
  ol_kind :: "string \<Rightarrow> provider_kind"
  ol_responses :: "string \<Rightarrow> bool"
  ol_reasoning :: "string \<Rightarrow> bool"
  ol_encrypted :: string
  ol_lower :: "string \<Rightarrow> string"
  ol_custom :: "string \<Rightarrow> bool"

definition fields_or_empty :: "json_fields option \<Rightarrow> json_fields" where
  "fields_or_empty o' = (case o' of Some f \<Rightarrow> f | None \<Rightarrow> [])"

definition set_default :: "string \<Rightarrow> json \<Rightarrow> json_fields \<Rightarrow> json_fields" where
  "set_default k v options = (if map_of options k = None then AList.update k v options else options)"

definition shouldSetEffort :: "call_model \<Rightarrow> bool" where
  "shouldSetEffort m \<longleftrightarrow> cm_can_reason m \<and> effectiveReasoningEffort m \<noteq> [] \<and> effectiveReasoningEffort m \<in> set (cm_levels m)"

definition effort_default :: "string \<Rightarrow> json \<Rightarrow> call_model \<Rightarrow> json_fields \<Rightarrow> json_fields" where
  "effort_default k v m options = (if shouldSetEffort m then set_default k v options else options)"

definition summary_option :: "call_model \<Rightarrow> json_fields \<Rightarrow> string + json_fields" where
  "summary_option m options =
     (let options = (if map_of (fields_or_empty (cm_options m)) ''reasoning_summary'' = Some JNull
                     then AList.update ''reasoning_summary'' JNull options else options)
      in case map_of options ''reasoning_summary'' of
           None \<Rightarrow> Inr (AList.update ''reasoning_summary'' (JStr ''auto'') options)
         | Some JNull \<Rightarrow> Inr (AList.delete ''reasoning_summary'' options)
         | Some (JStr t) \<Rightarrow>
             if t \<in> set [''auto'', ''concise'', ''detailed''] then Inr options
             else Inl ''invalid provider option reasoning_summary: must be one of auto|concise|detailed''
         | Some _ \<Rightarrow> Inl ''invalid provider option reasoning_summary: must be a string'')"

definition include_option :: "option_lib \<Rightarrow> json_fields \<Rightarrow> string + json_fields" where
  "include_option lib options =
     (case mergeResponsesIncludes (map_of options ''include'') [ol_encrypted lib] of
        Inl e \<Rightarrow> Inl (''invalid provider option include: '' @ e)
      | Inr includes \<Rightarrow> Inr (AList.update ''include'' (JArr (map JStr includes)) options))"

definition openai_options :: "option_lib \<Rightarrow> call_model \<Rightarrow> call_provider \<Rightarrow> json_fields \<Rightarrow> string + option_parser \<times> json_fields" where
  "openai_options lib m p options =
     (let options = effort_default ''reasoning_effort'' (JStr (effectiveReasoningEffort m)) m options
      in if UsesResponsesAPI p (cm_id m) (ol_responses lib (cm_id m)) then
           if UsesResponsesAPI p (cm_id m) False \<and> cm_can_reason m \<or> ol_reasoning lib (cm_id m) then
             (case summary_option m options of
                Inl e \<Rightarrow> Inl e
              | Inr options \<Rightarrow>
                  (case include_option lib options of Inl e \<Rightarrow> Inl e | Inr options \<Rightarrow> Inr (ParseResponses, options)))
           else Inr (ParseResponses, options)
         else Inr (ParseOpenAI, options))"

definition typed :: "string \<Rightarrow> json" where "typed t = JObj [(''type'', JStr t)]"

definition thinking_switch :: "bool \<Rightarrow> json" where
  "thinking_switch on = typed (if on then ''enabled'' else ''disabled'')"

definition anthropic_options :: "option_lib \<Rightarrow> call_model \<Rightarrow> call_provider \<Rightarrow> json_fields \<Rightarrow> string + option_parser \<times> json_fields" where
  "anthropic_options lib m p options =
     (let hasEffort = map_of options ''effort'' \<noteq> None;
          hasThink = map_of options ''thinking'' \<noteq> None;
          effort = JStr (effectiveReasoningEffort m)
      in if ol_kind lib (cp_id p) = KAlibaba then
           (let extraBody = (if \<not> hasEffort \<and> shouldSetEffort m then [(''reasoning_effort'', effort)]
                             else if \<not> hasThink \<and> cm_can_reason m then [(''thinking'', thinking_switch (cm_think m))] else [])
            in case mergeExtraBodyDefaults options extraBody of Inl e \<Rightarrow> Inl e | Inr options \<Rightarrow> Inr (ParseAnthropic, options))
         else
           Inr (ParseAnthropic,
             if \<not> hasEffort \<and> shouldSetEffort m then AList.update ''effort'' effort options
             else if \<not> hasThink \<and> cm_think m then AList.update ''thinking'' (JObj [(''budget_tokens'', JNum (Some 2000))]) options
             else options))"

definition reasoning_object :: "call_model \<Rightarrow> json" where
  "reasoning_object m = JObj [(''enabled'', JBool True), (''effort'', JStr (effectiveReasoningEffort m))]"

definition google_thinking :: "call_model \<Rightarrow> json" where
  "google_thinking m =
     JObj [(if str_prefix ''gemini-2'' (cm_id m) then (''thinking_budget'', JNum (Some 2000)) else (''thinking_level'', JStr (effectiveReasoningEffort m))),
           (''include_thoughts'', JBool True)]"

definition minimax :: "option_lib \<Rightarrow> call_model \<Rightarrow> bool" where
  "minimax lib m \<longleftrightarrow> str_prefix ''minimax'' (ol_lower lib (cm_id m))"

definition compat_effort :: "option_lib \<Rightarrow> call_model \<Rightarrow> provider_kind \<Rightarrow> json_fields \<Rightarrow> json_fields \<times> json_fields" where
  "compat_effort lib m k options =
     (let effort = JStr (effectiveReasoningEffort m)
      in if map_of options ''reasoning_effort'' = None \<and> shouldSetEffort m then
           if k = KIoNet then (options, [(''reasoning'', JObj [(''effort'', effort)])])
           else if k = KOpenCode \<and> minimax lib m then (options, [])
           else (AList.update ''reasoning_effort'' effort options, [])
         else (options, []))"

definition compat_extra :: "option_lib \<Rightarrow> call_model \<Rightarrow> provider_kind \<Rightarrow> json_fields \<Rightarrow> json_fields" where
  "compat_extra lib m k extraBody =
     (let effort = effectiveReasoningEffort m; reasons = cm_think m \<or> effort \<noteq> []
      in case k of
           KHyper \<Rightarrow> AList.update ''thinking'' (JBool (cm_think m)) extraBody
         | KIoNet \<Rightarrow>
             if map_of extraBody ''reasoning'' = None \<and> cm_can_reason m
             then AList.update ''reasoning'' (JObj [(''effort'', JStr (if cm_think m then ''medium'' else ''none''))]) extraBody else extraBody
         | KZAI \<Rightarrow> AList.update ''thinking'' (thinking_switch reasons) extraBody
         | KDeepSeek \<Rightarrow> AList.update ''thinking'' (thinking_switch reasons) extraBody
         | KFireworks \<Rightarrow> if effort = [] then AList.update ''thinking'' (thinking_switch (cm_think m)) extraBody else extraBody
         | KBaseten \<Rightarrow>
             AList.update ''chat_template_args''
               (JObj [(''enable_thinking'', JBool (cm_think m \<or> effort \<noteq> [] \<and> effort \<noteq> ''none''))]) extraBody
         | KOpenCode \<Rightarrow>
             if minimax lib m then
               if cm_can_reason m \<and> reasons
               then AList.update ''reasoning_split'' (JBool True) (AList.update ''thinking'' (typed ''adaptive'') extraBody)
               else AList.update ''thinking'' (typed ''disabled'') extraBody
             else extraBody
         | KAlibaba \<Rightarrow> if cm_can_reason m then AList.update ''enable_thinking'' (JBool reasons) extraBody else extraBody
         | _ \<Rightarrow> extraBody)"

definition compat_options :: "option_lib \<Rightarrow> call_model \<Rightarrow> call_provider \<Rightarrow> json_fields \<Rightarrow> string + option_parser \<times> json_fields" where
  "compat_options lib m p options =
     (let k = ol_kind lib (cp_id p); (options, extraBody) = compat_effort lib m k options
      in case mergeExtraBodyDefaults options (compat_extra lib m k extraBody) of
           Inl e \<Rightarrow> Inl e | Inr options \<Rightarrow> Inr (ParseCompat, options))"

text \<open>What is handed to which parser; \<open>None\<close> when the type has no options.\<close>

definition type_options :: "option_lib \<Rightarrow> call_model \<Rightarrow> call_provider \<Rightarrow> json_fields \<Rightarrow> string + (option_parser \<times> json_fields) option" where
  "type_options lib m p options =
     (case (case cp_type p of
              TyOpenAI \<Rightarrow> Some (openai_options lib m p options)
            | TyAzure \<Rightarrow> Some (openai_options lib m p options)
            | TyAnthropic \<Rightarrow> Some (anthropic_options lib m p options)
            | TyBedrock \<Rightarrow> Some (anthropic_options lib m p options)
            | TyOpenRouter \<Rightarrow> Some (Inr (ParseOpenRouter, effort_default ''reasoning'' (reasoning_object m) m options))
            | TyVercel \<Rightarrow> Some (Inr (ParseVercel, effort_default ''reasoning'' (reasoning_object m) m options))
            | TyGoogle \<Rightarrow> Some (Inr (ParseGoogle, set_default ''thinking_config'' (google_thinking m) options))
            | TyCompat \<Rightarrow> Some (compat_options lib m p options)
            | TyHyper \<Rightarrow> Some (compat_options lib m p options)
            | TyVertex \<Rightarrow> None
            | TyOther t \<Rightarrow> if ol_custom lib t then Some (Inr (ParseCompat, options)) else None) of
        None \<Rightarrow> Inr None
      | Some (Inl e) \<Rightarrow> Inl e
      | Some (Inr r) \<Rightarrow> Inr (Some r))"

definition configured_options :: "option_lib \<Rightarrow> call_model \<Rightarrow> call_provider \<Rightarrow> string + json_fields" where
  "configured_options lib m p =
     (let layers = [fields_or_empty (cm_catalog_options m), fields_or_empty (cp_options p), fields_or_empty (cm_options m)]
      in case ol_merge lib layers of
           Inl e \<Rightarrow> Inl (''merge provider call options: '' @ e)
         | Inr merged \<Rightarrow> preserveExtraBodyLayers merged layers)"

definition getProviderOptions :: "option_lib \<Rightarrow> call_model \<Rightarrow> call_provider \<Rightarrow> string + (option_parser \<times> json_fields) option" where
  "getProviderOptions lib m p =
     (case ForModel p (cm_selected m) of
        Inl e \<Rightarrow> Inl e
      | Inr p \<Rightarrow>
          (case configured_options lib m p of
             Inl e \<Rightarrow> Inl e
           | Inr options \<Rightarrow> type_options lib m p options))"

subsection \<open>Sampling parameters and routing by credential\<close>

definition cmp_Or :: "'a option \<Rightarrow> 'a option \<Rightarrow> 'a option" where
  "cmp_Or a b = (case a of Some x \<Rightarrow> Some x | None \<Rightarrow> b)"

definition CodexBackendURL :: string where "CodexBackendURL = ''https://chatgpt.com/backend-api/codex''"
definition CodexClientVersion :: string where "CodexClientVersion = ''0.150.1''"

definition CodexHeaders :: "string \<Rightarrow> bool \<Rightarrow> (string, string) gomap" where
  "CodexHeaders accountID fedRAMP =
     (let headers = [(''ChatGPT-Account-Id'', accountID), (''originator'', ''gotack''), (''version'', CodexClientVersion),
            (''User-Agent'', ''gotack/'' @ CodexClientVersion)]
      in if fedRAMP then AList.update ''X-OpenAI-Fedramp'' ''true'' headers else headers)"

text \<open>Recovering the account writes into the token the provider shares.\<close>

definition applyOpenAIOAuthRouting :: "(string \<Rightarrow> jwt_claims option) \<Rightarrow> call_provider \<Rightarrow> string \<Rightarrow>
    (string, string) gomap \<Rightarrow> (string + string \<times> (string, string) gomap) \<times> call_provider" where
  "applyOpenAIOAuthRouting claims p baseURL headers =
     (case cp_oauth p of
        None \<Rightarrow> (Inr (baseURL, headers), p)
      | Some t \<Rightarrow>
          if \<not> HasSubscriptionCredential (cp_id p) (cp_oauth p) then (Inr (baseURL, headers), p)
          else if tk_access t = [] then (Inl ''OpenAI OAuth credential is missing an access token'', p)
          else
            (let t = fst (RecoverAccountMetadata claims t); p = p\<lparr>cp_oauth := Some t\<rparr>
             in if tk_account t = [] then (Inl ''OpenAI OAuth credential is missing the ChatGPT account id; sign in again'', p)
                else (Inr (CodexBackendURL, maps_copy headers (CodexHeaders (tk_account t) (tk_fedramp t))), p)))"

definition omitMaxOutputTokens :: "call_provider \<Rightarrow> bool" where
  "omitMaxOutputTokens p = HasSubscriptionCredential (cp_id p) (cp_oauth p)"

definition maxOutputTokensForModel :: "bool \<Rightarrow> int \<Rightarrow> int option" where
  "maxOutputTokensForModel omit tokens = (if tokens \<le> 0 \<or> omit then None else Some tokens)"

definition isExactoSupported :: "string \<Rightarrow> bool" where
  "isExactoSupported modelID \<longleftrightarrow> modelID \<in> set [''moonshotai/kimi-k2-0905'', ''deepseek/deepseek-v3.1-terminus'', ''z-ai/glm-4.6'',
     ''openai/gpt-oss-120b'', ''qwen/qwen3-coder'']"

end
