(* ===== verification/Provider_Options_Props.thy ===== *)
theory Provider_Options_Props
  imports Provider_Options
begin

section \<open>What the user configured is what is sent\<close>

text \<open>Merging objects path by path, and the options of a call against those configured.\<close>

subsection \<open>Paths in an object\<close>

fun get_path :: "string list \<Rightarrow> json \<Rightarrow> json option" where
  "get_path [] v = Some v"
| "get_path (k # ks) (JObj obj) = (case map_of obj k of None \<Rightarrow> None | Some v \<Rightarrow> get_path ks v)"
| "get_path (k # ks) _ = None"

fun json_ok :: "json \<Rightarrow> bool" where
  "json_ok (JObj obj) \<longleftrightarrow> distinct (map fst obj) \<and> list_all json_ok (map snd obj)"
| "json_ok (JArr vs) \<longleftrightarrow> list_all json_ok vs"
| "json_ok _ \<longleftrightarrow> True"

fun is_obj :: "json \<Rightarrow> bool" where
  "is_obj (JObj _) \<longleftrightarrow> True"
| "is_obj _ \<longleftrightarrow> False"

text \<open>A configuration says nothing about a path when it leaves it before its end without a value.\<close>

fun silent :: "string list \<Rightarrow> json \<Rightarrow> bool" where
  "silent (k # ks) (JObj obj) \<longleftrightarrow> (case map_of obj k of None \<Rightarrow> True | Some v \<Rightarrow> silent ks v)"
| "silent _ _ \<longleftrightarrow> False"

definition merged_value :: "json \<Rightarrow> json option \<Rightarrow> json" where
  "merged_value v fallback =
     (case (v, fallback) of (JObj child, Some (JObj f)) \<Rightarrow> JObj (withProviderDefaults child f) | _ \<Rightarrow> v)"

lemma defaults_step:
  "withProviderDefaults ((key, v) # configured) merged =
     withProviderDefaults configured (AList.update key (merged_value v (map_of merged key)) merged)"
  by (cases v) (auto simp: merged_value_def split: option.split json.split)

lemma defaults_lookup:
  assumes "distinct (map fst c)"
  shows "map_of (withProviderDefaults c d) k =
    (case map_of c k of None \<Rightarrow> map_of d k | Some v \<Rightarrow> Some (merged_value v (map_of d k)))"
  using assms
proof (induction c arbitrary: d)
  case (Cons kv c)
  obtain key v where kv: "kv = (key, v)" by (cases kv)
  have "key \<notin> fst ` set c" and "distinct (map fst c)" using Cons.prems kv by auto
  then have "map_of c key = None" by (simp add: map_of_eq_None_iff)
  then show ?case
    using Cons.IH [OF \<open>distinct (map fst c)\<close>] by (auto simp: kv defaults_step gomap_get_set split: option.split)
qed simp

lemma json_ok_child: "json_ok (JObj c) \<Longrightarrow> map_of c k = Some v \<Longrightarrow> json_ok v"
  by (auto simp: list_all_iff dest: map_of_SomeD)

text \<open>Every configured leaf survives, and what the configuration is silent about is the default.\<close>

lemma configured_leaf_kept:
  "json_ok (JObj c) \<Longrightarrow> get_path p (JObj c) = Some v \<Longrightarrow> \<not> is_obj v \<Longrightarrow> get_path p (JObj (withProviderDefaults c d)) = Some v"
proof (induction p arbitrary: c d)
  case (Cons k p)
  then obtain u where u: "map_of c k = Some u" "get_path p u = Some v" by (auto split: option.splits)
  show ?case
  proof (cases u)
    case (JObj child)
    have "json_ok (JObj child)" using json_ok_child [OF Cons.prems(1) u(1)] JObj by simp
    then have "get_path p (JObj (withProviderDefaults child f)) = Some v" for f using Cons u(2) JObj by blast
    then show ?thesis using Cons.prems(1) u JObj by (auto simp: defaults_lookup merged_value_def split: option.split json.split)
  qed (use Cons.prems(1) u in \<open>simp_all add: defaults_lookup merged_value_def\<close>)
qed auto

lemma silent_is_default:
  "json_ok (JObj c) \<Longrightarrow> silent p (JObj c) \<Longrightarrow> get_path p (JObj d) = Some v \<Longrightarrow> get_path p (JObj (withProviderDefaults c d)) = Some v"
proof (induction p arbitrary: c d)
  case (Cons k p)
  from Cons.prems(3) obtain w where w: "map_of d k = Some w" "get_path p w = Some v" by (auto split: option.splits)
  show ?case
  proof (cases "map_of c k")
    case None
    then show ?thesis using Cons.prems(1) w by (simp add: defaults_lookup)
  next
    case (Some u)
    with Cons.prems(2) obtain child where c: "u = JObj child" "silent p (JObj child)" by (cases u; cases p) auto
    then have "p \<noteq> []" by auto
    with w(2) obtain f where f: "w = JObj f" by (cases w; cases p) auto
    have "json_ok (JObj child)" using json_ok_child [OF Cons.prems(1) Some] c by simp
    then have "get_path p (JObj (withProviderDefaults child f)) = Some v" using Cons.IH c(2) w(2) f by blast
    then show ?thesis using Cons.prems(1) Some w(1) c(1) f by (simp add: defaults_lookup merged_value_def)
  qed
qed simp

text \<open>
  Merging defaults below a configuration keeps every configured value at its path, and adds a default only
  where the configuration is silent.
\<close>

theorem provider_defaults_exact:
  assumes "json_ok (JObj c)"
  shows "(get_path p (JObj c) = Some v \<and> \<not> is_obj v \<longrightarrow> get_path p (JObj (withProviderDefaults c d)) = Some v) \<and>
    (silent p (JObj c) \<and> get_path p (JObj d) = Some v \<longrightarrow> get_path p (JObj (withProviderDefaults c d)) = Some v)"
  using assms configured_leaf_kept silent_is_default by blast

theorem provider_defaults_exact_witness:
  "get_path [''a'', ''x''] (JObj (withProviderDefaults [(''a'', JObj [(''x'', JNum (Some 1))])] [(''a'', JObj [(''x'', JNum (Some 2)), (''y'', JNum (Some 3))])])) = Some (JNum (Some 1)) \<and>
   get_path [''a'', ''y''] (JObj (withProviderDefaults [(''a'', JObj [(''x'', JNum (Some 1))])] [(''a'', JObj [(''x'', JNum (Some 2)), (''y'', JNum (Some 3))])])) = Some (JNum (Some 3))"
  using provider_defaults_exact [of "[(''a'', JObj [(''x'', JNum (Some 1))])]" "[''a'', ''x'']" "JNum (Some 1)" "[(''a'', JObj [(''x'', JNum (Some 2)), (''y'', JNum (Some 3))])]"]
    provider_defaults_exact [of "[(''a'', JObj [(''x'', JNum (Some 1))])]" "[''a'', ''y'']" "JNum (Some 3)" "[(''a'', JObj [(''x'', JNum (Some 2)), (''y'', JNum (Some 3))])]"]
  by simp

subsection \<open>The options of a call\<close>

definition keeps_option :: "json_fields \<Rightarrow> json_fields \<Rightarrow> bool" where
  "keeps_option conf opts \<longleftrightarrow>
     (\<forall>k v. map_of conf k = Some v \<and> k \<notin> {''include'', ''reasoning_summary'', ''extra_body''} \<longrightarrow> map_of opts k = Some v)"

definition keeps_body :: "json_fields \<Rightarrow> json_fields \<Rightarrow> bool" where
  "keeps_body conf opts \<longleftrightarrow>
     (\<forall>body p v. map_of conf ''extra_body'' = Some (JObj body) \<and> json_ok (JObj body) \<and> get_path p (JObj body) = Some v \<and> \<not> is_obj v \<longrightarrow>
        (\<exists>b. map_of opts ''extra_body'' = Some (JObj b) \<and> get_path p (JObj b) = Some v))"

lemma keeps_refl [simp]: "keeps_option c c" "keeps_body c c"
  by (simp_all add: keeps_option_def keeps_body_def)

lemma keeps_trans:
  "keeps_option c o1 \<Longrightarrow> keeps_option o1 o2 \<Longrightarrow> keeps_option c o2"
  by (simp add: keeps_option_def)

text \<open>Steps that leave the body alone and change only the three options, or set what was not set.\<close>

definition minor_step :: "json_fields \<Rightarrow> json_fields \<Rightarrow> bool" where
  "minor_step o1 o2 \<longleftrightarrow> keeps_option o1 o2 \<and> map_of o2 ''extra_body'' = map_of o1 ''extra_body''"

lemma minor_refl [simp]: "minor_step x x" by (simp add: minor_step_def)

lemma minor_trans: "minor_step x y \<Longrightarrow> minor_step y z \<Longrightarrow> minor_step x z"
  by (auto simp: minor_step_def intro: keeps_trans)

lemma minor_body: "minor_step c x \<Longrightarrow> keeps_body x y \<Longrightarrow> keeps_body c y"
  by (simp add: minor_step_def keeps_body_def)

lemma minor_set: "map_of x k = None \<Longrightarrow> k \<noteq> ''extra_body'' \<Longrightarrow> minor_step x (AList.update k v x)"
  by (auto simp: minor_step_def keeps_option_def gomap_get_set)

lemma minor_default: "k \<noteq> ''extra_body'' \<Longrightarrow> minor_step x (set_default k v x)"
  by (simp add: set_default_def minor_set)

lemma minor_effort: "k \<noteq> ''extra_body'' \<Longrightarrow> minor_step x (effort_default k v m x)"
  by (simp add: effort_default_def minor_default)

lemma minor_special: "k \<in> {''include'', ''reasoning_summary''} \<Longrightarrow> minor_step x (AList.update k v x)" "minor_step x (AList.delete ''reasoning_summary'' x)"
  by (auto simp: minor_step_def keeps_option_def gomap_get_set gomap_get_del)

lemma summary_minor: "summary_option m x = Inr y \<Longrightarrow> minor_step x y"
  by (auto simp: summary_option_def Let_def intro: minor_special minor_trans [OF minor_special(1)]
      split: if_splits option.splits json.splits)

lemma include_minor: "include_option lib x = Inr y \<Longrightarrow> minor_step x y"
  by (auto simp: include_option_def intro: minor_special split: sum.splits)

lemma openai_minor: "openai_options lib m p x = Inr (parser, y) \<Longrightarrow> minor_step x y"
  using minor_effort [of "''reasoning_effort''" x "JStr (effectiveReasoningEffort m)" m]
  by (auto simp: openai_options_def Let_def dest!: summary_minor include_minor intro: minor_trans split: if_splits sum.splits)

lemma extra_body_keeps:
  assumes "mergeExtraBodyDefaults x d = Inr y"
  shows "keeps_option x y" and "keeps_body x y"
proof -
  show "keeps_option x y" using assms
    by (auto simp: mergeExtraBodyDefaults_def keeps_option_def gomap_get_set split: option.splits json.splits if_splits)
  show "keeps_body x y" using assms configured_leaf_kept
    by (auto simp: mergeExtraBodyDefaults_def keeps_body_def gomap_get_set split: option.splits json.splits if_splits)
qed

lemma minor_keeps: "minor_step x y \<Longrightarrow> keeps_option x y \<and> keeps_body x y"
  by (auto simp: minor_step_def keeps_body_def)

lemma anthropic_keeps: "anthropic_options lib m p x = Inr (parser, y) \<Longrightarrow> keeps_option x y \<and> keeps_body x y"
  by (auto simp: anthropic_options_def Let_def intro: extra_body_keeps minor_keeps [THEN conjunct1] minor_keeps [THEN conjunct2] minor_set
      split: if_splits sum.splits)

lemma compat_effort_minor: "compat_effort lib m k x = (y, e) \<Longrightarrow> minor_step x y"
  by (auto simp: compat_effort_def Let_def intro: minor_set split: if_splits)

lemma compat_keeps:
  assumes "compat_options lib m p x = Inr (parser, y)"
  shows "keeps_option x y \<and> keeps_body x y"
proof -
  obtain z e where z: "compat_effort lib m (ol_kind lib (cp_id p)) x = (z, e)" by fastforce
  then have m: "minor_step x z" by (rule compat_effort_minor)
  have "mergeExtraBodyDefaults z (compat_extra lib m (ol_kind lib (cp_id p)) e) = Inr y"
    using assms z by (simp add: compat_options_def Let_def split: sum.splits)
  from extra_body_keeps [OF this] show ?thesis using m minor_body minor_keeps keeps_trans by blast
qed

lemma type_keeps: "type_options lib m p x = Inr (Some (parser, y)) \<Longrightarrow> keeps_option x y \<and> keeps_body x y"
  using openai_minor [THEN minor_keeps] minor_keeps [OF minor_effort] minor_keeps [OF minor_default] anthropic_keeps compat_keeps
  by (fastforce simp: type_options_def split: api_type.splits option.splits sum.splits if_splits)

text \<open>
  Whatever the provider, the options handed to its parser carry every option the user or the
  catalog configured with its value, apart from the two that are completed (the includes and the
  reasoning summary), and every value configured inside the extra body at its path: defaults of the adapter never replace it.
\<close>

theorem configured_options_kept:
  assumes "getProviderOptions lib m p = Inr (Some (parser, opts))" and "ForModel p (cm_selected m) = Inr q" and "configured_options lib m q = Inr conf"
  shows "keeps_option conf opts \<and> keeps_body conf opts"
  using assms type_keeps by (simp add: getProviderOptions_def)

text \<open>A merge of layers as the library documents it: later layers win, and null counts as absent.\<close>

definition demo_merge :: "json_fields list \<Rightarrow> string + json_fields" where
  "demo_merge layers = Inr (foldl (\<lambda>m (k, v). if v = JNull then m else AList.update k v m) [] (concat layers))"

definition demo_lib :: option_lib where
  "demo_lib = \<lparr>ol_merge = demo_merge, ol_kind = (\<lambda>_. KZAI), ol_responses = (\<lambda>_. True), ol_reasoning = (\<lambda>_. True), ol_encrypted = ''e'', ol_lower = id,
     ol_custom = (\<lambda>_. False)\<rparr>"

definition demo_model :: "json_fields \<Rightarrow> call_model" where
  "demo_model configured = \<lparr>cm_id = ''m'', cm_can_reason = True, cm_levels = [''low'', ''high''], cm_default_effort = ''high'', cm_catalog_options = None,
     cm_effort = [], cm_think = True, cm_selected = ''m'', cm_options = Some configured\<rparr>"

definition demo_provider :: "api_type \<Rightarrow> json_fields option \<Rightarrow> call_provider" where
  "demo_provider ty configured = \<lparr>cp_id = ''p'', cp_type = ty, cp_base = [], cp_oauth = None, cp_headers = [], cp_options = configured, cp_routes = []\<rparr>"

lemmas demo_option_simps = getProviderOptions_def ForModel_def HasSubscriptionCredential_def configured_options_def demo_lib_def demo_merge_def
  demo_model_def demo_provider_def preserveExtraBodyLayers_def extra_layer_def fields_or_empty_def type_options_def Let_def

theorem configured_options_kept_witness:
  "case getProviderOptions demo_lib (demo_model [(''reasoning_effort'', JStr ''low''), (''extra_body'', JObj [(''thinking'', JNum (Some 1))])]) (demo_provider TyCompat None) of
     Inr (Some (parser, opts)) \<Rightarrow> map_of opts ''reasoning_effort'' = Some (JStr ''low'') \<and>
       (\<exists>b. map_of opts ''extra_body'' = Some (JObj b) \<and> get_path [''thinking''] (JObj b) = Some (JNum (Some 1)))
   | _ \<Rightarrow> False"
proof -
  let ?conf = "[(''reasoning_effort'', JStr ''low''), (''extra_body'', JObj [(''thinking'', JNum (Some 1))])]"
  let ?m = "demo_model ?conf" and ?p = "demo_provider TyCompat None"
  have c: "ForModel ?p (cm_selected ?m) = Inr ?p" "configured_options demo_lib ?m ?p = Inr ?conf" by (simp_all add: demo_option_simps)
  have "getProviderOptions demo_lib ?m ?p = Inr (Some (ParseCompat, [(''reasoning_effort'', JStr ''low''), (''extra_body'', JObj [(''thinking'', JNum (Some 1))])]))"
    by (simp add: demo_option_simps compat_options_def compat_effort_def compat_extra_def mergeExtraBodyDefaults_def thinking_switch_def typed_def)
  with configured_options_kept [OF this c] show ?thesis by (simp add: keeps_option_def keeps_body_def)
qed

text \<open>
  A null in the provider's options asks to omit the summary as one in the model's does, but only the latter is looked for
  after the merge has dropped both.
\<close>

lemma provider_null_becomes_auto:
  "case getProviderOptions demo_lib (demo_model []) (demo_provider TyOpenAI (Some [(''reasoning_summary'', JNull)])) of
     Inr (Some (_, opts)) \<Rightarrow> map_of opts ''reasoning_summary'' = Some (JStr ''auto'') | _ \<Rightarrow> False"
  "case getProviderOptions demo_lib (demo_model [(''reasoning_summary'', JNull)]) (demo_provider TyOpenAI None) of
     Inr (Some (_, opts)) \<Rightarrow> map_of opts ''reasoning_summary'' = None | _ \<Rightarrow> False"
  by (simp_all add: demo_option_simps openai_options_def UsesResponsesAPI_def summary_option_def include_option_def mergeResponsesIncludes_def
      effort_default_def set_default_def shouldSetEffort_def effectiveReasoningEffort_def)

subsection \<open>The effort and the includes\<close>

text \<open>The effort sent is one the model offers, and the user's if it is; a model that cannot reason gets none.\<close>

theorem effort_offered:
  "(cm_can_reason m \<longrightarrow> effectiveReasoningEffort m \<in> set (cm_levels m) \<or> cm_levels m = [] \<and> effectiveReasoningEffort m = []) \<and>
   (cm_can_reason m \<and> cm_effort m \<noteq> [] \<and> cm_effort m \<in> set (cm_levels m) \<longrightarrow> effectiveReasoningEffort m = cm_effort m) \<and>
   (\<not> cm_can_reason m \<longrightarrow> effectiveReasoningEffort m = [])"
  by (cases "cm_levels m") (auto simp: effectiveReasoningEffort_def)

theorem effort_offered_witness: "effectiveReasoningEffort (demo_model []) \<in> {''low'', ''high''}"
  using effort_offered [of "demo_model []"] by (auto simp: demo_model_def)

lemma include_texts_ok: "include_texts i vs = Inr ts \<Longrightarrow> vs = map JStr ts"
proof (induction vs arbitrary: i ts)
  case (Cons v vs)
  then show ?case by (cases v) (auto split: sum.splits)
qed simp

text \<open>The includes are those configured and those required, each once, in order.\<close>

theorem includes_exact:
  assumes "mergeResponsesIncludes (Some (JArr (map JStr texts))) required = Inr r"
  shows "sorted r \<and> distinct r \<and> set r = (set texts \<union> set required) - {[]}"
proof -
  have "include_texts i (map JStr ts) = Inr ts" for i ts by (induction ts arbitrary: i) simp_all
  then show ?thesis using assms by (auto simp: mergeResponsesIncludes_def)
qed

theorem includes_exact_witness: "\<exists>r. mergeResponsesIncludes (Some (JArr (map JStr [''b'', [], ''a'']))) [''b''] = Inr r \<and> set r = {''a'', ''b''}"
proof -
  obtain r where "mergeResponsesIncludes (Some (JArr (map JStr [''b'', [], ''a'']))) [''b''] = Inr r" by (simp add: mergeResponsesIncludes_def)
  with includes_exact [OF this] show ?thesis by auto
qed

subsection \<open>Where a call goes\<close>

lemma codex_headers_first:
  "map_of (maps_copy headers (CodexHeaders account fedramp)) ''ChatGPT-Account-Id'' = Some account"
  by (simp add: CodexHeaders_def maps_copy_def update_conv' Let_def)

text \<open>
  A call leaves for the subscription backend exactly when the provider holds a subscription's credential, and then
  it names a known account; otherwise endpoint and headers are those given.
\<close>

theorem codex_routing:
  assumes "applyOpenAIOAuthRouting claims p base headers = (Inr (url, sent), p')"
  shows "if omitMaxOutputTokens p then url = CodexBackendURL \<and> (\<exists>a. a \<noteq> [] \<and> map_of sent ''ChatGPT-Account-Id'' = Some a \<and> map_option tk_account (cp_oauth p') = Some a)
    else url = base \<and> sent = headers \<and> p' = p"
  using assms codex_headers_first
  by (auto simp: applyOpenAIOAuthRouting_def omitMaxOutputTokens_def HasSubscriptionCredential_def Let_def split: option.splits if_splits)

definition routed_demo :: call_provider where
  "routed_demo = (demo_provider TyOpenAI None)\<lparr>cp_id := ''codex'', cp_oauth := Some ((sample_oauth ''t'' ''r'' 0)\<lparr>tk_account := ''acc''\<rparr>)\<rparr>"

theorem codex_routing_witness:
  "\<exists>sent p'. applyOpenAIOAuthRouting (\<lambda>_. None) routed_demo ''base'' [] = (Inr (CodexBackendURL, sent), p') \<and>
     map_of sent ''ChatGPT-Account-Id'' = Some ''acc''"
proof -
  have k: "map_option tk_account (cp_oauth (snd (applyOpenAIOAuthRouting (\<lambda>_. None) routed_demo ''base'' []))) = Some ''acc''"
    "omitMaxOutputTokens routed_demo" "(case fst (applyOpenAIOAuthRouting (\<lambda>_. None) routed_demo ''base'' []) of Inr _ \<Rightarrow> True | Inl _ \<Rightarrow> False)"
    by code_simp+
  then obtain url sent p' where r: "applyOpenAIOAuthRouting (\<lambda>_. None) routed_demo ''base'' [] = (Inr (url, sent), p')"
    by (cases "applyOpenAIOAuthRouting (\<lambda>_. None) routed_demo ''base'' []") (auto split: sum.splits)
  show ?thesis using codex_routing [OF r] k r by auto
qed

end
