(* ===== verification/Provider_Build.thy ===== *)
theory Provider_Build
  imports Provider_Options
begin

section \<open>Providers and models of an agent: \<^verbatim>\<open>agent/coordinator.go\<close>, \<^verbatim>\<open>agent/model_route.go\<close>\<close>

text \<open>
  What the coordinator hands to the packages that talk to providers: which package, with which
  key, endpoint, headers and options. Expanding variables, an expired key being the empty text, the parser of thinking options, URL parsing,
  the environment, and asking a package for a model are the library \<open>build_lib\<close>. The HTTP client is the
  package's own, one that logs, or Copilot's, for which the key replaces every other credential on the wire.
\<close>

datatype http_client = ClientOwn | ClientLogging | ClientCopilot | ClientCopilotBearer string

datatype responses_choice = ResponsesByName | ResponsesByRoute | ResponsesCopilot | ResponsesNever | ResponsesAlways

record provider_setup =
  su_package :: api_type
  su_name :: string
  su_key :: "string option"
  su_base :: "string option"
  su_headers :: "(string, string) gomap"
  su_client :: http_client
  su_responses :: responses_choice
  su_version :: "string option"
  su_region :: "string option"
  su_vertex :: "(string \<times> string) option"
  su_body :: json_fields
  su_clear_env :: bool

record full_provider =
  fp_call :: call_provider
  fp_key :: string
  fp_template :: string
  fp_aws :: string
  fp_body :: "json_fields option"
  fp_params :: "(string, string) gomap"
  fp_flat :: bool

record lang_model =
  lm_provider :: string
  lm_name :: string
  lm_setup :: provider_setup

record build_lib =
  bl_opts :: option_lib
  bl_resolve :: "string \<Rightarrow> string"
  bl_claims :: "string \<Rightarrow> jwt_claims option"
  bl_thinks :: "json_fields option \<Rightarrow> bool"
  bl_debug :: bool
  bl_hyper :: string
  bl_bedrock_token :: string
  bl_url :: "string \<Rightarrow> string + string \<times> string"
  bl_set_path :: "string \<Rightarrow> string \<Rightarrow> string"
  bl_url_text :: "string \<Rightarrow> string"
  bl_model :: "provider_setup \<Rightarrow> string \<Rightarrow> string + lang_model"

definition copilotResponsesModels :: "string list" where
  "copilotResponsesModels = [''gpt-5.2'', ''gpt-5.2-codex'', ''gpt-5.3-codex'', ''gpt-5.4'', ''gpt-5.4-mini'', ''gpt-5.5'', ''gpt-5-mini'',
     ''gpt-5.6-luna'', ''gpt-5.6-terra'', ''gpt-5.6-sol'']"

definition opencodeMessagesModels :: "string list" where
  "opencodeMessagesModels = [''qwen3.7-max'']"

definition base_setup :: "build_lib \<Rightarrow> api_type \<Rightarrow> (string, string) gomap \<Rightarrow> provider_setup" where
  "base_setup lib package headers =
     \<lparr>su_package = package, su_name = [], su_key = None, su_base = None, su_headers = headers,
      su_client = (if bl_debug lib then ClientLogging else ClientOwn), su_responses = ResponsesByName, su_version = None,
      su_region = None, su_vertex = None, su_body = [], su_clear_env = False\<rparr>"

definition nonempty :: "string \<Rightarrow> string option" where
  "nonempty s = (if s = [] then None else Some s)"

subsection \<open>One package each\<close>

definition buildAnthropicProvider :: "build_lib \<Rightarrow> string \<Rightarrow> string \<Rightarrow> (string, string) gomap \<Rightarrow> provider_kind \<Rightarrow> provider_setup" where
  "buildAnthropicProvider lib baseURL apiKey headers k =
     (let authorized = (\<lambda>v. (base_setup lib TyAnthropic (AList.update ''Authorization'' v headers))\<lparr>su_base := nonempty baseURL\<rparr>)
      in if k = KCopilot then (authorized (''Bearer '' @ apiKey))\<lparr>su_client := ClientCopilotBearer apiKey\<rparr>
         else if str_prefix ''Bearer '' apiKey then (authorized apiKey)\<lparr>su_clear_env := True\<rparr>
         else if k = KMiniMax then (authorized (''Bearer '' @ apiKey))\<lparr>su_clear_env := True\<rparr>
         else (base_setup lib TyAnthropic headers)\<lparr>su_base := nonempty baseURL, su_key := nonempty apiKey\<rparr>)"

definition buildOpenaiProvider :: "build_lib \<Rightarrow> string \<Rightarrow> string \<Rightarrow> (string, string) gomap \<Rightarrow> provider_kind \<Rightarrow> provider_setup" where
  "buildOpenaiProvider lib baseURL apiKey headers k =
     (let s = (base_setup lib TyOpenAI headers)\<lparr>su_key := Some apiKey, su_base := nonempty baseURL, su_responses := ResponsesByRoute\<rparr>
      in if k = KCopilot then s\<lparr>su_client := ClientCopilot\<rparr> else s)"

definition buildOpenrouterProvider :: "build_lib \<Rightarrow> string \<Rightarrow> (string, string) gomap \<Rightarrow> provider_setup" where
  "buildOpenrouterProvider lib apiKey headers = (base_setup lib TyOpenRouter headers)\<lparr>su_key := Some apiKey\<rparr>"

definition buildVercelProvider :: "build_lib \<Rightarrow> string \<Rightarrow> (string, string) gomap \<Rightarrow> provider_setup" where
  "buildVercelProvider lib apiKey headers = (base_setup lib TyVercel headers)\<lparr>su_key := Some apiKey\<rparr>"

definition buildOpenaiCompatProvider ::
  "build_lib \<Rightarrow> string \<Rightarrow> string \<Rightarrow> (string, string) gomap \<Rightarrow> json_fields \<Rightarrow> provider_kind \<Rightarrow> string \<Rightarrow> provider_setup" where
  "buildOpenaiCompatProvider lib baseURL apiKey headers extraBody k routeAPI =
     (let s = (base_setup lib TyCompat headers)\<lparr>su_base := Some baseURL, su_key := Some apiKey, su_body := extraBody\<rparr>;
          s = (if k = KCopilot then s\<lparr>su_client := ClientCopilot, su_responses := ResponsesCopilot\<rparr> else s)
      in if routeAPI = ''openai-completions'' then s\<lparr>su_responses := ResponsesNever\<rparr> else s)"

definition buildAzureProvider :: "build_lib \<Rightarrow> string \<Rightarrow> string \<Rightarrow> (string, string) gomap \<Rightarrow> (string, string) gomap \<Rightarrow> provider_setup" where
  "buildAzureProvider lib baseURL apiKey headers options =
     (base_setup lib TyAzure headers)\<lparr>su_base := Some baseURL, su_key := Some apiKey, su_version := map_of options ''apiVersion''\<rparr>"

definition str_suffix :: "string \<Rightarrow> string \<Rightarrow> bool" where
  "str_suffix t s \<longleftrightarrow> str_prefix (rev t) (rev s)"

text \<open>\<open>bl_url\<close> gives host and path of a URL.\<close>

definition buildRoutedAzureProvider :: "build_lib \<Rightarrow> string \<Rightarrow> string \<Rightarrow> (string, string) gomap \<Rightarrow> string + provider_setup" where
  "buildRoutedAzureProvider lib baseURL apiKey headers =
     (case bl_url lib baseURL of
        Inl e \<Rightarrow> Inl e
      | Inr (host, path) \<Rightarrow>
          (let endpoint = (if str_suffix ''.azure.com'' host \<and> (path = [] \<or> path = ''/'') then bl_set_path lib baseURL ''/openai/v1'' else bl_url_text lib baseURL)
           in Inr ((base_setup lib TyOpenAI headers)\<lparr>su_name := ''azure'', su_base := Some endpoint, su_key := Some apiKey,
                 su_client := ClientOwn, su_responses := ResponsesAlways\<rparr>)))"

definition buildBedrockProvider :: "build_lib \<Rightarrow> string \<Rightarrow> (string, string) gomap \<Rightarrow> provider_kind \<Rightarrow> provider_setup" where
  "buildBedrockProvider lib apiKey headers k =
     (base_setup lib TyBedrock headers)\<lparr>su_key := (if apiKey \<noteq> [] then Some apiKey else nonempty (bl_bedrock_token lib)),
        su_region := Some (if k = KBedrockEurope then ''eu-west-1'' else ''us-east-1'')\<rparr>"

definition buildGoogleProvider :: "build_lib \<Rightarrow> string \<Rightarrow> string \<Rightarrow> (string, string) gomap \<Rightarrow> provider_setup" where
  "buildGoogleProvider lib baseURL apiKey headers = (base_setup lib TyGoogle headers)\<lparr>su_base := Some baseURL, su_key := Some apiKey\<rparr>"

definition param :: "(string, string) gomap \<Rightarrow> string \<Rightarrow> string" where
  "param options k = (case map_of options k of Some v \<Rightarrow> v | None \<Rightarrow> [])"

definition buildGoogleVertexProvider :: "build_lib \<Rightarrow> (string, string) gomap \<Rightarrow> (string, string) gomap \<Rightarrow> provider_setup" where
  "buildGoogleVertexProvider lib headers options =
     (base_setup lib TyVertex headers)\<lparr>su_vertex := Some (param options ''project'', param options ''location'')\<rparr>"

subsection \<open>The provider of a model\<close>

definition isAnthropicThinking :: "build_lib \<Rightarrow> bool \<Rightarrow> json_fields option \<Rightarrow> bool" where
  "isAnthropicThinking lib think options \<longleftrightarrow> think \<or> bl_thinks lib options"

definition thinking_header :: "(string, string) gomap \<Rightarrow> (string, string) gomap" where
  "thinking_header headers =
     AList.update ''anthropic-beta''
       (case map_of headers ''anthropic-beta'' of
          Some v \<Rightarrow> v @ '',interleaved-thinking-2025-05-14''
        | None \<Rightarrow> ''interleaved-thinking-2025-05-14'') headers"

definition routed_api :: "call_provider \<Rightarrow> string \<Rightarrow> string" where
  "routed_api p model = (case map_of (cp_routes p) model of Some r \<Rightarrow> mr_api r | None \<Rightarrow> [])"

definition trim_v1 :: "string \<Rightarrow> string" where
  "trim_v1 base = (if str_suffix ''/v1'' base then take (length base - 3) base else base)"

definition type_name :: "api_type \<Rightarrow> string" where
  "type_name ty = (case ty of TyOther t \<Rightarrow> t | _ \<Rightarrow> [])"

text \<open>
  For Z.AI the setting of \<^verbatim>\<open>tool_stream\<close> is written into the map of the configuration itself, if it has one, hence the
  provider in the result.
\<close>

definition build_typed :: "build_lib \<Rightarrow> full_provider \<Rightarrow> string \<Rightarrow> string \<Rightarrow> string \<Rightarrow> (string, string) gomap \<Rightarrow> (string + provider_setup) \<times> full_provider" where
  "build_typed lib p model apiKey baseURL headers =
     (let c = fp_call p; k = ol_kind (bl_opts lib) (cp_id c); api = routed_api c model
      in case cp_type c of
           TyOpenAI \<Rightarrow> (Inr (buildOpenaiProvider lib baseURL apiKey headers k), p)
         | TyAnthropic \<Rightarrow> (Inr (buildAnthropicProvider lib baseURL apiKey headers k), p)
         | TyOpenRouter \<Rightarrow> (Inr (buildOpenrouterProvider lib apiKey headers), p)
         | TyVercel \<Rightarrow> (Inr (buildVercelProvider lib apiKey headers), p)
         | TyAzure \<Rightarrow>
             (if api = ''azure-openai-responses'' then buildRoutedAzureProvider lib baseURL apiKey headers
              else Inr (buildAzureProvider lib baseURL apiKey headers (fp_params p)), p)
         | TyBedrock \<Rightarrow> (Inr (buildBedrockProvider lib apiKey headers k), p)
         | TyGoogle \<Rightarrow> (Inr (buildGoogleProvider lib baseURL apiKey headers), p)
         | TyVertex \<Rightarrow> (Inr (buildGoogleVertexProvider lib headers (fp_params p)), p)
         | TyOther t \<Rightarrow>
             if ol_custom (bl_opts lib) t then (Inr (buildOpenaiCompatProvider lib baseURL apiKey headers (fields_or_empty (fp_body p)) k api), p)
             else (Inl (''provider type not supported: '' @ quoted t), p)
         | _ \<Rightarrow>
             (let base = (if k = KHyper then bl_hyper lib @ ''/v1'' else baseURL);
                  streamed = AList.update ''tool_stream'' (JBool True) (fields_or_empty (fp_body p));
                  body = (if k = KZAI then streamed else fields_or_empty (fp_body p));
                  p = (if k = KZAI \<and> fp_body p \<noteq> None then p\<lparr>fp_body := Some streamed\<rparr> else p)
              in (Inr (buildOpenaiCompatProvider lib base apiKey headers body k api), p)))"

definition buildProvider ::
  "build_lib \<Rightarrow> full_provider \<Rightarrow> string \<Rightarrow> bool \<Rightarrow> json_fields option \<Rightarrow> (string + provider_setup) \<times> full_provider" where
  "buildProvider lib p model think options =
     (case ForModel (fp_call p) model of
        Inl e \<Rightarrow> (Inl e, p)
      | Inr c \<Rightarrow>
          (let headers = (if cp_type c = TyAnthropic \<and> isAnthropicThinking lib think options then thinking_header (cp_headers c) else cp_headers c);
               apiKey = bl_resolve lib (fp_key p)
           in case applyOpenAIOAuthRouting (bl_claims lib) c (bl_resolve lib (cp_base c)) headers of
                (Inl e, c) \<Rightarrow> (Inl e, p\<lparr>fp_call := (fp_call p)\<lparr>cp_oauth := cp_oauth c\<rparr>\<rparr>)
              | (Inr (baseURL, headers), c) \<Rightarrow>
                  (let kept = (\<lambda>q. q\<lparr>fp_call := (fp_call p)\<lparr>cp_oauth := cp_oauth c\<rparr>\<rparr>);
                       k = ol_kind (bl_opts lib) (cp_id c)
                   in if k = KOpenCode \<and> map_of (cp_routes c) model = None \<and> model \<in> set opencodeMessagesModels
                      then (Inr (buildAnthropicProvider lib (trim_v1 baseURL) apiKey headers k), kept p)
                      else (let (r, q) = build_typed lib (p\<lparr>fp_call := c\<rparr>) model apiKey baseURL headers in (r, kept q)))))"

subsection \<open>The models of an agent\<close>

record sampling =
  sp_temperature :: "json option"
  sp_top_p :: "json option"
  sp_top_k :: "json option"
  sp_frequency :: "json option"
  sp_presence :: "json option"

record chat_model =
  ch_id :: string
  ch_can_reason :: bool
  ch_levels :: "string list"
  ch_default_effort :: string
  ch_options :: "json_fields option"
  ch_max_tokens :: int
  ch_sampling :: sampling

record model_choice =
  mo_provider :: string
  mo_model :: string
  mo_effort :: string
  mo_think :: bool
  mo_options :: "json_fields option"
  mo_max_tokens :: int
  mo_sampling :: sampling

record agent_model =
  am_lang :: lang_model
  am_chat :: chat_model
  am_choice :: model_choice
  am_flat :: bool
  am_omit :: bool

definition call_model_of :: "chat_model \<Rightarrow> model_choice \<Rightarrow> call_model" where
  "call_model_of ch mo =
     \<lparr>cm_id = ch_id ch, cm_can_reason = ch_can_reason ch, cm_levels = ch_levels ch, cm_default_effort = ch_default_effort ch,
      cm_catalog_options = ch_options ch, cm_effort = mo_effort mo, cm_think = mo_think mo, cm_selected = mo_model mo, cm_options = mo_options mo\<rparr>"

definition merge_sampling :: "sampling \<Rightarrow> sampling \<Rightarrow> sampling" where
  "merge_sampling a b =
     \<lparr>sp_temperature = cmp_Or (sp_temperature a) (sp_temperature b), sp_top_p = cmp_Or (sp_top_p a) (sp_top_p b),
      sp_top_k = cmp_Or (sp_top_k a) (sp_top_k b), sp_frequency = cmp_Or (sp_frequency a) (sp_frequency b),
      sp_presence = cmp_Or (sp_presence a) (sp_presence b)\<rparr>"

definition mergeCallOptions :: "option_lib \<Rightarrow> agent_model \<Rightarrow> call_provider \<Rightarrow> string + (option_parser \<times> json_fields) option \<times> sampling" where
  "mergeCallOptions lib m p =
     (case getProviderOptions lib (call_model_of (am_chat m) (am_choice m)) p of
        Inl e \<Rightarrow> Inl e
      | Inr options \<Rightarrow> Inr (options, merge_sampling (mo_sampling (am_choice m)) (ch_sampling (am_chat m))))"

record agents_config =
  ac_models :: "(string, model_choice) gomap"
  ac_providers :: "(string, full_provider \<times> chat_model list) gomap"

text \<open>The loop keeps the last entry with the wanted ID.\<close>

definition last_model :: "string \<Rightarrow> chat_model list \<Rightarrow> chat_model option" where
  "last_model wanted models = find (\<lambda>m. ch_id m = wanted) (rev models)"

definition exacto :: "model_choice \<Rightarrow> string" where
  "exacto mo = mo_model mo @ (if mo_provider mo = ''openrouter'' \<and> isExactoSupported (mo_model mo) then '':exacto'' else [])"

definition put_provider :: "string \<Rightarrow> full_provider \<Rightarrow> chat_model list \<Rightarrow> agents_config \<Rightarrow> agents_config" where
  "put_provider pid p models cfg = cfg\<lparr>ac_providers := AList.update pid (p, models) (ac_providers cfg)\<rparr>"

definition built_model :: "lang_model \<Rightarrow> chat_model \<Rightarrow> model_choice \<Rightarrow> full_provider \<Rightarrow> agent_model" where
  "built_model l ch mo p = \<lparr>am_lang = l, am_chat = ch, am_choice = mo, am_flat = fp_flat p, am_omit = omitMaxOutputTokens (fp_call p)\<rparr>"

definition provider_of :: "build_lib \<Rightarrow> agents_config \<Rightarrow> model_choice \<Rightarrow> string \<Rightarrow> (string + provider_setup \<times> full_provider \<times> chat_model list) \<times> agents_config" where
  "provider_of lib cfg mo missing =
     (case map_of (ac_providers cfg) (mo_provider mo) of
        None \<Rightarrow> (Inl missing, cfg)
      | Some (p, models) \<Rightarrow>
          (let (r, p') = buildProvider lib p (mo_model mo) (mo_think mo) (mo_options mo); cfg = put_provider (mo_provider mo) p' models cfg
           in case r of Inl e \<Rightarrow> (Inl e, cfg) | Inr s \<Rightarrow> (Inr (s, p', models), cfg)))"

definition buildAgentModels :: "build_lib \<Rightarrow> agents_config \<Rightarrow> (string + agent_model \<times> agent_model) \<times> agents_config" where
  "buildAgentModels lib cfg =
     (case map_of (ac_models cfg) ''large'' of
        None \<Rightarrow> (Inl ''large model not selected'', cfg)
      | Some lmo \<Rightarrow>
          (case map_of (ac_models cfg) ''small'' of
             None \<Rightarrow> (Inl ''small model not selected'', cfg)
           | Some smo \<Rightarrow>
               (case provider_of lib cfg lmo ''large model provider not configured'' of
                  (Inl e, cfg) \<Rightarrow> (Inl e, cfg)
                | (Inr (ls, lp, lmodels), cfg) \<Rightarrow>
                    (case provider_of lib cfg smo ''small model provider not configured'' of
                       (Inl e, cfg) \<Rightarrow> (Inl e, cfg)
                     | (Inr (ss, sp, smodels), cfg) \<Rightarrow>
                         (case (last_model (mo_model lmo) lmodels, last_model (mo_model smo) smodels) of
                            (None, _) \<Rightarrow> (Inl ''large model not found in provider config'', cfg)
                          | (_, None) \<Rightarrow> (Inl ''small model not found in provider config'', cfg)
                          | (Some lch, Some sch) \<Rightarrow>
                              (case bl_model lib ls (exacto lmo) of
                                 Inl e \<Rightarrow> (Inl e, cfg)
                               | Inr lm \<Rightarrow>
                                   (case bl_model lib ss (exacto smo) of
                                      Inl e \<Rightarrow> (Inl e, cfg)
                                    | Inr sm \<Rightarrow> (Inr (built_model lm lch lmo lp, built_model sm sch smo sp), cfg))))))))"

end
