(* ===== verification/Extensions.thy ===== *)
theory Extensions
  imports Provider_Options
begin

section \<open>Extensions: \<^verbatim>\<open>extensions/extensions.go\<close>\<close>

text \<open>
  Finding extensions on disk, checking their manifests, and the answers of the processes they name.
  The file system, the JSON decoder and the operating system are the environment \<open>ext_env\<close>; a decoded document comes
  with whether only white space follows it. A schema of parameters is a JSON object; a missing one is
  empty. Errors are their messages.
\<close>

definition ManifestName :: string where "ManifestName = ''extension.json''"
definition ProtocolVersion :: string where "ProtocolVersion = ''gotack-extension/1''"
definition defaultTimeout :: "64 word" where "defaultTimeout = 120000000000"
definition maxTimeout :: "64 word" where "maxTimeout = 1800000000000"
definition maxStdoutBytes :: nat where "maxStdoutBytes = 2097152"
definition maxStderrBytes :: nat where "maxStderrBytes = 65536"
definition maxManifestBytes :: nat where "maxManifestBytes = 524288"

record tool_manifest =
  tm_name :: string
  tm_description :: string
  tm_parameters :: json_fields
  tm_required :: "string list"
  tm_parallel :: bool

record ext_manifest =
  xm_schema :: int
  xm_name :: string
  xm_executable :: string
  xm_args :: "string list"
  xm_timeout :: int
  xm_tools :: "tool_manifest list"

record ext_tool =
  xt_extension :: string
  xt_source :: string
  xt_manifest :: tool_manifest
  xt_executable :: string
  xt_args :: "string list"
  xt_timeout :: "64 word"

record ext_manager =
  xg_working :: string
  xg_global :: string
  xg_tools :: "ext_tool list"

datatype dir_listing = DirMissing | DirFailed string | DirEntries "(string \<times> bool) list"

record file_mode =
  fm_regular :: bool
  fm_executable :: bool

record ext_env =
  xe_dir :: "string \<Rightarrow> dir_listing"
  xe_stat :: "string \<Rightarrow> string + file_mode"
  xe_read :: "string \<Rightarrow> string + string"
  xe_decode :: "string \<Rightarrow> string + ext_manifest \<times> bool"
  xe_abs :: "string \<Rightarrow> string option"
  xe_windows :: bool
  xe_lower :: "string \<Rightarrow> string"

subsection \<open>Checking a manifest\<close>

definition letter :: "char \<Rightarrow> bool" where
  "letter c \<longleftrightarrow> CHR ''A'' \<le> c \<and> c \<le> CHR ''Z'' \<or> CHR ''a'' \<le> c \<and> c \<le> CHR ''z''"

definition name_match :: "char list \<Rightarrow> string \<Rightarrow> bool" where
  "name_match extra s =
     (case s of [] \<Rightarrow> False
      | c # cs \<Rightarrow> letter c \<and> list_all (\<lambda>d. letter d \<or> CHR ''0'' \<le> d \<and> d \<le> CHR ''9'' \<or> d \<in> set extra) cs \<and> length cs \<le> 127)"

definition safeName :: "string \<Rightarrow> bool" where "safeName = name_match ''_.-''"
definition safeToolName :: "string \<Rightarrow> bool" where "safeToolName = name_match ''_-''"

definition resolveExecutable :: "ext_env \<Rightarrow> string \<Rightarrow> string \<Rightarrow> string + string" where
  "resolveExecutable env base v =
     (let value = trim_space v
      in if value = [] then Inl ''executable is required''
         else
           (let path = filepath_Clean (if filepath_IsAbs value then value else filepath_Join [base, value])
            in case xe_stat env path of
                 Inl e \<Rightarrow> Inl (''executable '' @ path @ '': '' @ e)
               | Inr mode \<Rightarrow>
                   if \<not> fm_regular mode then Inl (''executable '' @ path @ '' is not a regular file'')
                   else if \<not> xe_windows env \<and> \<not> fm_executable mode then Inl (''executable '' @ path @ '' is not executable'')
                   else Inr path))"

text \<open>A duration is a signed 64-bit count of nanoseconds; the product wraps.\<close>

definition manifest_timeout :: "ext_manifest \<Rightarrow> (64 word) option" where
  "manifest_timeout mf =
     (if xm_timeout mf = 0 then Some defaultTimeout
      else
        (let timeout = word_of_int (xm_timeout mf) * 1000000000
         in if sint timeout \<le> 0 \<or> sint timeout > sint maxTimeout then None else Some timeout))"

fun required_error :: "ext_manifest \<Rightarrow> tool_manifest \<Rightarrow> string list \<Rightarrow> string list \<Rightarrow> string option" where
  "required_error mf spec seen [] = None"
| "required_error mf spec seen (required # rs) =
     (if map_of (tm_parameters spec) required = None
      then Some (''extension '' @ quoted (xm_name mf) @ '' tool '' @ quoted (tm_name spec) @ '' requires unknown parameter '' @ quoted required)
      else if required \<in> set seen
      then Some (''extension '' @ quoted (xm_name mf) @ '' tool '' @ quoted (tm_name spec) @ '' repeats required parameter '' @ quoted required)
      else required_error mf spec (required # seen) rs)"

definition tool_error :: "ext_manifest \<Rightarrow> string list \<Rightarrow> tool_manifest \<Rightarrow> string option" where
  "tool_error mf seen spec =
     (if \<not> safeToolName (tm_name spec) then Some (''extension '' @ quoted (xm_name mf) @ '' has invalid tool name '' @ quoted (tm_name spec))
      else if trim_space (tm_description spec) = []
      then Some (''extension '' @ quoted (xm_name mf) @ '' tool '' @ quoted (tm_name spec) @ '' is missing a description'')
      else if tm_name spec \<in> set seen then Some (''extension '' @ quoted (xm_name mf) @ '' repeats tool '' @ quoted (tm_name spec))
      else (case find (\<lambda>n. \<not> safeToolName n) (map fst (tm_parameters spec)) of
              Some n \<Rightarrow> Some (''extension '' @ quoted (xm_name mf) @ '' tool '' @ quoted (tm_name spec) @ '' has invalid parameter name '' @ quoted n)
            | None \<Rightarrow> required_error mf spec [] (tm_required spec)))"

fun manifest_tools :: "ext_manifest \<Rightarrow> string \<Rightarrow> string \<Rightarrow> 64 word \<Rightarrow> string list \<Rightarrow> tool_manifest list \<Rightarrow> string + ext_tool list" where
  "manifest_tools mf path executable timeout seen [] = Inr []"
| "manifest_tools mf path executable timeout seen (spec # specs) =
     (case tool_error mf seen spec of
        Some e \<Rightarrow> Inl e
      | None \<Rightarrow>
          (case manifest_tools mf path executable timeout (tm_name spec # seen) specs of
             Inl e \<Rightarrow> Inl e
           | Inr tools \<Rightarrow>
               Inr (\<lparr>xt_extension = xm_name mf, xt_source = path, xt_manifest = spec, xt_executable = executable,
                     xt_args = xm_args mf, xt_timeout = timeout\<rparr> # tools)))"

definition loadManifest :: "ext_env \<Rightarrow> string \<Rightarrow> string + ext_manifest \<times> ext_tool list" where
  "loadManifest env path =
     (let about = ''extension manifest '' @ path
      in case xe_read env path of
           Inl e \<Rightarrow> Inl e
         | Inr data \<Rightarrow>
             if length data > maxManifestBytes then Inl (about @ '' exceeds '' @ itoa maxManifestBytes @ '' bytes'')
             else
               (case xe_decode env data of
                  Inl e \<Rightarrow> Inl (''decode '' @ about @ '': '' @ e)
                | Inr (mf, atEnd) \<Rightarrow>
                    if \<not> atEnd then Inl (about @ '' contains trailing data'')
                    else if xm_schema mf \<noteq> 1
                    then Inl (about @ '' uses unsupported schema '' @ (if xm_schema mf < 0 then ''-'' else []) @ itoa (nat \<bar>xm_schema mf\<bar>))
                    else if \<not> safeName (xm_name mf) then Inl (about @ '' has invalid name '' @ quoted (xm_name mf))
                    else if xm_tools mf = [] then Inl (''extension '' @ quoted (xm_name mf) @ '' has no tools'')
                    else
                      (case resolveExecutable env (filepath_Dir path) (xm_executable mf) of
                         Inl e \<Rightarrow> Inl (''extension '' @ quoted (xm_name mf) @ '': '' @ e)
                       | Inr executable \<Rightarrow>
                           (case manifest_timeout mf of
                              None \<Rightarrow> Inl (''extension '' @ quoted (xm_name mf) @ '' timeout must be between 1 and 1800 seconds'')
                            | Some timeout \<Rightarrow>
                                map_sum id (Pair mf) (manifest_tools mf path executable timeout [] (xm_tools mf))))))"

subsection \<open>Finding extensions\<close>

definition regular_file :: "ext_env \<Rightarrow> string \<Rightarrow> bool" where
  "regular_file env path = (case xe_stat env path of Inr mode \<Rightarrow> fm_regular mode | Inl _ \<Rightarrow> False)"

definition root_manifests :: "ext_env \<Rightarrow> string \<Rightarrow> (string \<times> bool) list \<Rightarrow> string list" where
  "root_manifests env root entries =
     sort (filter (regular_file env)
       (filepath_Join [root, ManifestName] # map (\<lambda>(n, _). filepath_Join [root, n, ManifestName]) (filter snd entries)))"

fun load_each :: "ext_env \<Rightarrow> string list \<Rightarrow> string + (string \<times> ext_manifest \<times> ext_tool list) list" where
  "load_each env [] = Inr []"
| "load_each env (path # paths) =
     (case loadManifest env path of
        Inl e \<Rightarrow> Inl e
      | Inr x \<Rightarrow> map_sum id (Cons (path, x)) (load_each env paths))"

definition discoverRoot :: "ext_env \<Rightarrow> string \<Rightarrow> string + (string \<times> ext_manifest \<times> ext_tool list) list" where
  "discoverRoot env root =
     (case xe_dir env root of
        DirMissing \<Rightarrow> Inr []
      | DirFailed e \<Rightarrow> Inl (''read extension root '' @ root @ '': '' @ e)
      | DirEntries entries \<Rightarrow> load_each env (root_manifests env root entries))"

definition absolute_path :: "ext_env \<Rightarrow> string \<Rightarrow> string" where
  "absolute_path env path = (case xe_abs env (filepath_Clean path) of Some a \<Rightarrow> a | None \<Rightarrow> filepath_Clean path)"

fun unique_from :: "ext_env \<Rightarrow> string list \<Rightarrow> string list \<Rightarrow> string list" where
  "unique_from env seen [] = []"
| "unique_from env seen (path # paths) =
     (let absolute = absolute_path env path; key = (if xe_windows env then xe_lower env absolute else absolute)
      in if key \<in> set seen then unique_from env seen paths else absolute # unique_from env (key # seen) paths)"

definition uniquePaths :: "ext_env \<Rightarrow> string list \<Rightarrow> string list" where
  "uniquePaths env paths = unique_from env [] paths"

definition extension_roots :: "ext_manager \<Rightarrow> bool \<Rightarrow> string list \<Rightarrow> string list" where
  "extension_roots m projectTrusted additionalPaths =
     (if trim_space (xg_global m) \<noteq> [] then [filepath_Join [xg_global m, ''extensions'']] else []) @
     map (\<lambda>p. filepath_Clean (if filepath_IsAbs p then p else filepath_Join [xg_working m, p])) (filter (\<lambda>p. trim_space p \<noteq> []) additionalPaths) @
     (if projectTrusted then [filepath_Join [xg_working m, ''.tack'', ''extensions''], filepath_Join [xg_working m, ''.pi'', ''extensions'']] else [])"

text \<open>The names of extensions and tools seen so far, with where they were declared.\<close>

type_synonym seen_names = "(string, string) gomap"

fun add_tools :: "string \<Rightarrow> ext_tool list \<Rightarrow> seen_names \<times> ext_tool list \<Rightarrow> string + seen_names \<times> ext_tool list" where
  "add_tools source [] st = Inr st"
| "add_tools source (t # ts) (toolNames, tools) =
     (case map_of toolNames (tm_name (xt_manifest t)) of
        Some previous \<Rightarrow>
          Inl (''extension tool '' @ quoted (tm_name (xt_manifest t)) @ '' is declared by both '' @ previous @ '' and '' @ source)
      | None \<Rightarrow> add_tools source ts (AList.update (tm_name (xt_manifest t)) source toolNames, tools @ [t]))"

fun add_extensions :: "string list \<Rightarrow> (string \<times> ext_manifest \<times> ext_tool list) list \<Rightarrow> seen_names \<times> seen_names \<times> ext_tool list \<Rightarrow>
    string + seen_names \<times> seen_names \<times> ext_tool list" where
  "add_extensions disabled [] st = Inr st"
| "add_extensions disabled ((source, mf, ts) # exts) (extensionNames, st) =
     (if xm_name mf \<in> set disabled then add_extensions disabled exts (extensionNames, st)
      else
        (case map_of extensionNames (xm_name mf) of
           Some previous \<Rightarrow> Inl (''extension '' @ quoted (xm_name mf) @ '' is declared by both '' @ previous @ '' and '' @ source)
         | None \<Rightarrow>
             (case add_tools source ts st of
                Inl e \<Rightarrow> Inl e
              | Inr st \<Rightarrow> add_extensions disabled exts (AList.update (xm_name mf) source extensionNames, st))))"

fun add_roots :: "ext_env \<Rightarrow> string list \<Rightarrow> string list \<Rightarrow> seen_names \<times> seen_names \<times> ext_tool list \<Rightarrow>
    string + seen_names \<times> seen_names \<times> ext_tool list" where
  "add_roots env disabled [] st = Inr st"
| "add_roots env disabled (root # roots) st =
     (case discoverRoot env root of
        Inl e \<Rightarrow> Inl e
      | Inr exts \<Rightarrow> (case add_extensions disabled exts st of Inl e \<Rightarrow> Inl e | Inr st \<Rightarrow> add_roots env disabled roots st))"

definition NewExtManager :: "string \<Rightarrow> string \<Rightarrow> ext_manager" where
  "NewExtManager workingDir globalDir = \<lparr>xg_working = workingDir, xg_global = globalDir, xg_tools = []\<rparr>"

definition RefreshExtensions :: "ext_env \<Rightarrow> bool \<Rightarrow> string list \<Rightarrow> string list \<Rightarrow> ext_manager \<Rightarrow> string option \<times> ext_manager" where
  "RefreshExtensions env projectTrusted additionalPaths disabled m =
     (case add_roots env disabled (uniquePaths env (extension_roots m projectTrusted additionalPaths)) ([], [], []) of
        Inl e \<Rightarrow> (Some e, m)
      | Inr (_, _, tools) \<Rightarrow> (None, m\<lparr>xg_tools := sort_key (tm_name \<circ> xt_manifest) tools\<rparr>))"

subsection \<open>Calling a tool\<close>

record limited_buffer =
  lb_bytes :: string
  lb_exceeded :: bool

definition limited_Write :: "nat \<Rightarrow> string \<Rightarrow> limited_buffer \<Rightarrow> limited_buffer" where
  "limited_Write limit p b =
     (if limit \<le> length (lb_bytes b) then b\<lparr>lb_exceeded := True\<rparr>
      else (let remaining = limit - length (lb_bytes b)
            in if length p > remaining then b\<lparr>lb_exceeded := True, lb_bytes := lb_bytes b @ take remaining p\<rparr>
               else b\<lparr>lb_bytes := lb_bytes b @ p\<rparr>))"

definition limited_output :: "nat \<Rightarrow> string list \<Rightarrow> limited_buffer" where
  "limited_output limit chunks = foldl (\<lambda>b p. limited_Write limit p b) \<lparr>lb_bytes = [], lb_exceeded = False\<rparr> chunks"

record ext_request =
  xr_protocol :: string
  xr_method :: string
  xr_extension :: string
  xr_tool :: string
  xr_call :: string
  xr_workspace :: string
  xr_input :: string

record ext_response =
  xs_content :: string
  xs_error :: bool
  xs_stop :: bool
  xs_metadata :: "json option"

record ext_tool_response =
  tr_text :: string
  tr_error :: bool
  tr_stop :: bool
  tr_metadata :: "json option"

text \<open>What the process did: why it did not start, what it wrote, whether its context ended, and the error of its exit.\<close>

record ext_process =
  xp_start :: "string option"
  xp_stdout :: "string list"
  xp_stderr :: "string list"
  xp_cancelled :: bool
  xp_wait :: "string option"

record ext_call_env =
  xc_valid :: "string \<Rightarrow> bool"
  xc_process :: "ext_tool \<Rightarrow> ext_request \<Rightarrow> ext_process"
  xc_decode :: "string \<Rightarrow> string + ext_response \<times> bool"

definition error_response :: "string \<Rightarrow> ext_tool_response" where
  "error_response m = \<lparr>tr_text = m, tr_error = True, tr_stop = False, tr_metadata = None\<rparr>"

definition response_result :: "ext_response \<Rightarrow> ext_tool_response" where
  "response_result r = \<lparr>tr_text = xs_content r, tr_error = xs_error r, tr_stop = xs_stop r, tr_metadata = xs_metadata r\<rparr>"

definition ext_request_for :: "ext_tool \<Rightarrow> string \<Rightarrow> string \<Rightarrow> string \<Rightarrow> ext_request" where
  "ext_request_for t workingDir callID input =
     \<lparr>xr_protocol = ProtocolVersion, xr_method = ''tool.call'', xr_extension = xt_extension t, xr_tool = tm_name (xt_manifest t),
      xr_call = callID, xr_workspace = workingDir, xr_input = input\<rparr>"

definition process_result :: "ext_call_env \<Rightarrow> ext_tool \<Rightarrow> ext_process \<Rightarrow> ext_tool_response" where
  "process_result env t p =
     (let out = limited_output maxStdoutBytes (xp_stdout p); err = limited_output maxStderrBytes (xp_stderr p);
          about = ''extension tool '' @ quoted (tm_name (xt_manifest t))
      in if xp_cancelled p then error_response (about @ '' timed out or was cancelled'')
         else if lb_exceeded out \<or> lb_exceeded err then error_response (about @ '' exceeded its output limit'')
         else
           (case xp_wait p of
              Some e \<Rightarrow> error_response (about @ '' failed: '' @ (let message = trim_space (lb_bytes err) in if message = [] then e else message))
            | None \<Rightarrow>
                (case xc_decode env (lb_bytes out) of
                   Inl e \<Rightarrow> error_response (about @ '' returned invalid JSON: '' @ e)
                 | Inr (r, atEnd) \<Rightarrow> if \<not> atEnd then error_response (about @ '' returned trailing data'') else response_result r)))"

definition RunExtension :: "ext_call_env \<Rightarrow> ext_tool \<Rightarrow> string \<Rightarrow> string \<Rightarrow> string \<Rightarrow> string + ext_tool_response" where
  "RunExtension env t workingDir callID input =
     (if input = [] \<or> \<not> xc_valid env input then Inr (error_response ''extension tool received invalid JSON input'')
      else
        (let p = xc_process env t (ext_request_for t workingDir callID input)
         in case xp_start p of
              Some e \<Rightarrow> Inl (''start extension '' @ quoted (xt_extension t) @ '': '' @ e)
            | None \<Rightarrow> Inr (process_result env t p)))"

end
