(* ===== verification/Coordinator.thy ===== *)
theory Coordinator
  imports Provider_Build Extensions Skills
begin

section \<open>The coordinator of a workspace: \<^verbatim>\<open>agent/coordinator.go\<close>, \<^verbatim>\<open>toolregistry.go\<close>, \<^verbatim>\<open>aws_sso_refresh.go\<close>\<close>

text \<open>
  Which tools an agent has, what is rebuilt before every turn, and how credentials are renewed.
  The coordinator's state holds the configuration's models and providers, the agent's models, tools and prompt, and the
  managers of extensions and skills. What an operation meets (the file system of the extensions,
  the skills found, the text rendered for a prompt) is its \<open>coord_env\<close>; that differs from call to call.
  A tool is its entry in the registry: its constructor is told apart by \<open>ts_ext\<close>.
\<close>

subsection \<open>Tools\<close>

record tool_spec =
  ts_name :: string
  ts_snippet :: string
  ts_ext :: "ext_tool option"

definition core_tool :: "string \<Rightarrow> string \<Rightarrow> tool_spec" where
  "core_tool n snippet = \<lparr>ts_name = n, ts_snippet = snippet, ts_ext = None\<rparr>"

definition toolRegistry :: "tool_spec list" where
  "toolRegistry =
     [core_tool ''read'' ''Read file contents'',
      core_tool ''powershell'' ''Execute PowerShell commands (dir, Select-String, ...)'',
      core_tool ''edit'' ''Make surgical edits to files (find exact text and replace)'',
      core_tool ''write'' ''Create or overwrite files'',
      core_tool ''grep'' ''Search file contents for patterns (respects .gitignore)'',
      core_tool ''glob'' ''Find files by glob pattern (respects .gitignore)'']"

definition tool_info :: "tool_spec \<Rightarrow> string \<times> string" where
  "tool_info t = (ts_name t, ts_snippet t)"

definition registrySnapshots :: "string list \<Rightarrow> tool_spec list \<times> (string \<times> string) list" where
  "registrySnapshots allowed = (let specs = filter (\<lambda>t. ts_name t \<in> set allowed) toolRegistry in (specs, map tool_info specs))"

definition promptGuidelines :: "string list \<Rightarrow> string list" where
  "promptGuidelines enabled =
     (if ''powershell'' \<in> set enabled \<and> ''grep'' \<notin> set enabled \<and> ''glob'' \<notin> set enabled
      then [''Use powershell for file operations like dir, Get-ChildItem, Select-String''] else []) @
     (if ''read'' \<in> set enabled then [''Use read to examine files instead of cat or sed''] else []) @
     (if ''edit'' \<in> set enabled then [''Use edit for precise changes (old text must match exactly)''] else []) @
     (if ''write'' \<in> set enabled then [''Use write only for new files or complete rewrites''] else []) @
     [''Be concise in your responses'', ''Show file paths clearly when working with files'']"

text \<open>Broken bytes become the replacement character when runes are made a string again.\<close>

definition rune_string :: "string list \<Rightarrow> string" where
  "rune_string runes = concat (map (\<lambda>r. if utf8_rune r then r else [CHR 0xEF, CHR 0xBF, CHR 0xBD]) runes)"

definition extensionSnippet :: "string \<Rightarrow> string" where
  "extensionSnippet text' =
     (let description = str_join '' '' (str_fields text'); runes = utf8_runes description
      in if length runes \<le> 180 then description else rune_string (take 177 runes) @ ''...'')"

definition ext_spec :: "ext_tool \<Rightarrow> tool_spec" where
  "ext_spec t = \<lparr>ts_name = tm_name (xt_manifest t), ts_snippet = extensionSnippet (tm_description (xt_manifest t)), ts_ext = Some t\<rparr>"

definition enabledToolSpecs :: "ext_manager option \<Rightarrow> string list \<Rightarrow> string list \<Rightarrow> tool_spec list" where
  "enabledToolSpecs ext disabled allowed =
     (let core = fst (registrySnapshots allowed)
      in case ext of
           None \<Rightarrow> core
         | Some m \<Rightarrow> sort_key ts_name (core @ map ext_spec (filter (\<lambda>t. tm_name (xt_manifest t) \<notin> set disabled) (xg_tools m))))"

definition buildTools :: "ext_manager option \<Rightarrow> string list \<Rightarrow> string list \<Rightarrow> tool_spec list" where
  "buildTools ext disabled allowed = sort_key ts_name (enabledToolSpecs ext disabled allowed)"

subsection \<open>The agents of a configuration: \<^verbatim>\<open>config/config.go\<close>\<close>

definition allToolNames :: "string list" where
  "allToolNames = [''powershell'', ''edit'', ''glob'', ''grep'', ''read'', ''write'']"

definition filterSlice :: "string list \<Rightarrow> string list \<Rightarrow> bool \<Rightarrow> string list" where
  "filterSlice data masked including = filter (\<lambda>s. including = (s \<in> set masked)) data"

definition resolveAllowedTools :: "string list \<Rightarrow> string list option \<Rightarrow> string list" where
  "resolveAllowedTools allTools disabledTools =
     (case disabledTools of None \<Rightarrow> allTools | Some ds \<Rightarrow> filterSlice allTools ds False)"

definition resolveReadOnlyTools :: "string list \<Rightarrow> string list" where
  "resolveReadOnlyTools tools = filterSlice tools [''glob'', ''grep'', ''read''] True"

record agent_config =
  ag_allowed :: "string list"
  ag_mcp :: "((string, string list) gomap) option"
  ag_context :: "string list"

definition SetupAgents :: "string list option \<Rightarrow> string list \<Rightarrow> (string, agent_config) gomap" where
  "SetupAgents disabledTools contextPaths =
     (let allowedTools = resolveAllowedTools allToolNames disabledTools
      in [(''coder'', \<lparr>ag_allowed = allowedTools, ag_mcp = None, ag_context = contextPaths\<rparr>),
          (''task'', \<lparr>ag_allowed = resolveReadOnlyTools allowedTools, ag_mcp = Some [], ag_context = contextPaths\<rparr>)])"

definition IsProjectTrusted :: "bool option \<Rightarrow> bool" where
  "IsProjectTrusted trusted = (trusted = None \<or> trusted = Some True)"

subsection \<open>State\<close>

record coord_env =
  ce_lib :: build_lib
  ce_trusted :: "bool option"
  ce_ext_paths :: "string list"
  ce_disabled_exts :: "string list"
  ce_disabled_tools :: "string list option"
  ce_agents :: "(string, agent_config) gomap"
  ce_files :: ext_env
  ce_found :: "skill list \<times> skill list \<times> skill_state list"
  ce_skill_paths :: "string list"
  ce_dir :: string
  ce_prompt :: "skill list \<Rightarrow> (string \<times> string) list \<Rightarrow> string list \<Rightarrow> string \<Rightarrow> string \<Rightarrow> string + string"

record coord =
  co_cfg :: agents_config
  co_models :: "(agent_model \<times> agent_model) option"
  co_tools :: "tool_spec list"
  co_prompt :: string
  co_exts :: "ext_manager option"
  co_skills :: "skill_manager option"
  co_tracker :: skill_tracker
  co_dirty :: bool
  co_last :: string

definition disabled_list :: "coord_env \<Rightarrow> string list" where
  "disabled_list env = (case ce_disabled_tools env of Some ds \<Rightarrow> ds | None \<Rightarrow> [])"

definition refreshExtensions :: "coord_env \<Rightarrow> coord \<Rightarrow> string option \<times> coord" where
  "refreshExtensions env c =
     (case co_exts c of
        None \<Rightarrow> (None, c)
      | Some m \<Rightarrow>
          (case RefreshExtensions (ce_files env) (IsProjectTrusted (ce_trusted env)) (ce_ext_paths env) (ce_disabled_exts env) m of
             (Some e, m) \<Rightarrow> (Some e, c\<lparr>co_exts := Some m\<rparr>)
           | (None, m) \<Rightarrow>
               (case find (\<lambda>t. tm_name (xt_manifest t) \<in> ts_name ` set toolRegistry) (xg_tools m) of
                  Some t \<Rightarrow> (Some (''extension tool '' @ quoted (tm_name (xt_manifest t)) @ '' conflicts with a built-in tool''), c\<lparr>co_exts := Some m\<rparr>)
                | None \<Rightarrow> (None, c\<lparr>co_exts := Some m\<rparr>))))"

definition coder_allowed :: "coord_env \<Rightarrow> string list" where
  "coder_allowed env = (case map_of (ce_agents env) ''coder'' of Some a \<Rightarrow> ag_allowed a | None \<Rightarrow> [])"

definition toolPromptOption :: "coord_env \<Rightarrow> coord \<Rightarrow> (string \<times> string) list \<times> string list" where
  "toolPromptOption env c =
     (let specs = enabledToolSpecs (co_exts c) (disabled_list env) (coder_allowed env)
      in (map tool_info specs, promptGuidelines (map ts_name specs)))"

definition coder_prompt :: "coord_env \<Rightarrow> coord \<Rightarrow> skill list \<Rightarrow> string \<Rightarrow> string \<Rightarrow> string + string" where
  "coder_prompt env c active provider model =
     (let (infos, rules) = toolPromptOption env c in ce_prompt env active infos rules provider model)"

definition refreshSkills :: "coord_env \<Rightarrow> string \<Rightarrow> string \<Rightarrow> coord \<Rightarrow> string option \<times> coord" where
  "refreshSkills env provider model c =
     (case co_skills c of
        None \<Rightarrow> (None, c)
      | Some m \<Rightarrow>
          (let (changed, m) = Refresh_skills (ce_found env) (ce_skill_paths env) (ce_dir env) m;
               c = c\<lparr>co_skills := Some m, co_dirty := co_dirty c \<or> changed,
                     co_tracker := (if changed then SetActiveSkills (sm_active m) (co_tracker c) else co_tracker c)\<rparr>
           in case coder_prompt env c (sm_active m) provider model of
                Inl e \<Rightarrow> (Some e, c)
              | Inr text' \<Rightarrow>
                  (let c = (if co_last c \<noteq> text' \<or> co_dirty c then c\<lparr>co_prompt := text', co_last := text'\<rparr> else c)
                   in (None, c\<lparr>co_dirty := False\<rparr>))))"

definition UpdateModels :: "coord_env \<Rightarrow> coord \<Rightarrow> string option \<times> coord" where
  "UpdateModels env c =
     (case buildAgentModels (ce_lib env) (co_cfg c) of
        (Inl e, cfg) \<Rightarrow> (Some e, c\<lparr>co_cfg := cfg\<rparr>)
      | (Inr (large, small), cfg) \<Rightarrow>
          (case refreshExtensions env (c\<lparr>co_cfg := cfg, co_models := Some (large, small)\<rparr>) of
             (Some e, c) \<Rightarrow> (Some (''failed to refresh extensions: '' @ e), c)
           | (None, c) \<Rightarrow>
               (case refreshSkills env (lm_provider (am_lang large)) (lm_name (am_lang large)) c of
                  (Some e, c) \<Rightarrow> (Some (''failed to refresh skills: '' @ e), c)
                | (None, c) \<Rightarrow>
                    (case map_of (ce_agents env) ''coder'' of
                       None \<Rightarrow> (Some ''coder agent not configured'', c)
                     | Some a \<Rightarrow> (None, c\<lparr>co_tools := buildTools (co_exts c) (disabled_list env) (ag_allowed a)\<rparr>)))))"

text \<open>It is called when the agent is ready; \<open>co_models\<close> is then set.\<close>

definition RefreshPrompt :: "coord_env \<Rightarrow> coord \<Rightarrow> string option \<times> coord" where
  "RefreshPrompt env c =
     (case refreshExtensions env c of
        (Some e, c) \<Rightarrow> (Some (''refresh extensions: '' @ e), c)
      | (None, c) \<Rightarrow>
          (let active = (case co_skills c of Some m \<Rightarrow> sm_active m | None \<Rightarrow> []);
               (provider, model) = (case co_models c of Some (large, _) \<Rightarrow> (lm_provider (am_lang large), lm_name (am_lang large)) | None \<Rightarrow> ([], []))
           in case coder_prompt env c active provider model of
                Inl e \<Rightarrow> (Some e, c)
              | Inr text' \<Rightarrow>
                  (let c = c\<lparr>co_prompt := text'\<rparr>
                   in case map_of (ce_agents env) ''coder'' of
                        None \<Rightarrow> (Some ''coder agent not configured'', c)
                      | Some a \<Rightarrow> (None, c\<lparr>co_tools := buildTools (co_exts c) (disabled_list env) (ag_allowed a)\<rparr>))))"

text \<open>The state when both readiness goroutines have ended; skills are found by the caller.\<close>

definition NewCoordinator :: "coord_env \<Rightarrow> string \<Rightarrow> skill_manager \<Rightarrow> agents_config \<Rightarrow> string + coord" where
  "NewCoordinator env globalDir m cfg =
     (case RefreshExtensions (ce_files env) (IsProjectTrusted (ce_trusted env)) (ce_ext_paths env) (ce_disabled_exts env) (NewExtManager (ce_dir env) globalDir) of
        (Some e, _) \<Rightarrow> Inl (''load extensions: '' @ e)
      | (None, x) \<Rightarrow>
          (case map_of (ce_agents env) ''coder'' of
             None \<Rightarrow> Inl ''coder agent not configured''
           | Some a \<Rightarrow>
               (let c = \<lparr>co_cfg = cfg, co_models = None, co_tools = [], co_prompt = [], co_exts = Some x, co_skills = Some m,
                         co_tracker = NewTracker (sm_active m), co_dirty = False, co_last = []\<rparr>
                in case buildAgentModels (ce_lib env) cfg of
                     (Inl e, _) \<Rightarrow> Inl e
                   | (Inr (large, small), cfg) \<Rightarrow>
                       (case coder_prompt env c (sm_active m) (lm_provider (am_lang large)) (lm_name (am_lang large)) of
                          Inl e \<Rightarrow> Inl e
                        | Inr text' \<Rightarrow>
                            Inr (c\<lparr>co_cfg := cfg, co_models := Some (large, small), co_prompt := text',
                                   co_tools := buildTools (Some x) (disabled_list env) (ag_allowed a)\<rparr>)))))"

subsection \<open>Credentials\<close>

datatype refresh_failure = ExchangeFailed string | OtherFailure string

datatype coord_event =
    LoginNeeded string
  | AwsLogin string string string
  | AwsResult string string
  | RunCompleted "string \<times> string"
  | MarkedPublished

record auth_env =
  au_now :: int
  au_oauth :: "string \<Rightarrow> agents_config \<Rightarrow> refresh_failure option \<times> agents_config"
  au_update :: coord_env
  au_notify :: bool
  au_wait :: "string \<Rightarrow> string option"
  au_cancelled :: "string option"
  au_aws :: "full_provider \<Rightarrow> string list \<times> string option"
  au_resolve :: "string \<Rightarrow> string + string"

definition update_models :: "auth_env \<Rightarrow> coord \<Rightarrow> refresh_failure option \<times> coord" where
  "update_models au c = (let (e, c) = UpdateModels (au_update au) c in (map_option OtherFailure e, c))"

definition refreshOAuth2Token :: "auth_env \<Rightarrow> string \<Rightarrow> coord \<Rightarrow> refresh_failure option \<times> coord" where
  "refreshOAuth2Token au providerID c =
     (case au_oauth au providerID (co_cfg c) of
        (Some e, cfg) \<Rightarrow> (Some e, c\<lparr>co_cfg := cfg\<rparr>)
      | (None, cfg) \<Rightarrow> update_models au (c\<lparr>co_cfg := cfg\<rparr>))"

definition refreshTokenIfExpired :: "auth_env \<Rightarrow> full_provider \<Rightarrow> coord \<Rightarrow> refresh_failure option \<times> coord" where
  "refreshTokenIfExpired au p c =
     (case cp_oauth (fp_call p) of
        None \<Rightarrow> (None, c)
      | Some t \<Rightarrow> if \<not> IsExpired (au_now au) t then (None, c) else refreshOAuth2Token au (cp_id (fp_call p)) c)"

text \<open>The provider stored is the one captured when the turn began.\<close>

definition refreshApiKeyTemplate :: "auth_env \<Rightarrow> full_provider \<Rightarrow> chat_model list \<Rightarrow> coord \<Rightarrow> refresh_failure option \<times> coord" where
  "refreshApiKeyTemplate au p models c =
     (case au_resolve au (fp_template p) of
        Inl e \<Rightarrow> (Some (OtherFailure e), c)
      | Inr newKey \<Rightarrow> update_models au (c\<lparr>co_cfg := put_provider (cp_id (fp_call p)) (p\<lparr>fp_key := newKey\<rparr>) models (co_cfg c)\<rparr>))"

definition re2_space :: "char \<Rightarrow> bool" where
  "re2_space ch \<longleftrightarrow> ch \<in> {CHR 0x09, CHR 0x0A, CHR 0x0C, CHR 0x0D, CHR '' ''}"

fun extractAWSSSOURL :: "string \<Rightarrow> string" where
  "extractAWSSSOURL [] = []"
| "extractAWSSSOURL (ch # s) =
     (let url = takeWhile (\<lambda>d. \<not> re2_space d) (drop 8 (ch # s))
      in if str_prefix ''https://'' (ch # s) \<and> url \<noteq> [] then ''https://'' @ url else extractAWSSSOURL s)"

definition publishURL :: "full_provider \<Rightarrow> string list \<Rightarrow> coord_event list" where
  "publishURL p lines =
     (case find (\<lambda>l. extractAWSSSOURL l \<noteq> []) lines of
        Some l \<Rightarrow> [AwsLogin (cp_id (fp_call p)) (fp_aws p) (extractAWSSSOURL l)]
      | None \<Rightarrow> [])"

definition refreshAWSCredentials :: "auth_env \<Rightarrow> full_provider \<Rightarrow> coord \<Rightarrow> refresh_failure option \<times> coord_event list \<times> coord" where
  "refreshAWSCredentials au p c =
     (if \<not> au_notify au then (Some (OtherFailure ''interactive authentication unavailable''), [], c)
      else
        (let pid = cp_id (fp_call p); (lines, failure) = au_aws au p;
             events = AwsLogin pid (fp_aws p) [] # publishURL p lines @ [AwsResult pid (case failure of Some e \<Rightarrow> e | None \<Rightarrow> [])]
         in case failure of
              Some e \<Rightarrow> (Some (OtherFailure e), events, c)
            | None \<Rightarrow>
                (case au_cancelled au of
                   Some e \<Rightarrow> (Some (OtherFailure e), events, c)
                 | None \<Rightarrow> (let (e, c) = update_models au c in (e, events, c)))))"

definition waitForInteractiveReauth :: "auth_env \<Rightarrow> string \<Rightarrow> coord \<Rightarrow> refresh_failure option \<times> coord" where
  "waitForInteractiveReauth au providerID c =
     (case au_wait au providerID of
        Some e \<Rightarrow> (Some (OtherFailure e), c)
      | None \<Rightarrow> (case au_cancelled au of Some e \<Rightarrow> (Some (OtherFailure e), c) | None \<Rightarrow> update_models au c))"

definition revoked_failure :: "refresh_failure \<Rightarrow> bool" where
  "revoked_failure f = (case f of ExchangeFailed body \<Rightarrow> IsRefreshTokenRevoked body | OtherFailure _ \<Rightarrow> False)"

definition template_var :: "full_provider \<Rightarrow> bool" where
  "template_var p \<longleftrightarrow> CHR ''$'' \<in> set (fp_template p)"

definition retryAfterUnauthorized ::
  "auth_env \<Rightarrow> full_provider \<Rightarrow> chat_model list \<Rightarrow> coord \<Rightarrow> refresh_failure option \<times> coord_event list \<times> coord" where
  "retryAfterUnauthorized au p models c =
     (let pid = cp_id (fp_call p)
      in if cp_oauth (fp_call p) \<noteq> None then
           (case refreshOAuth2Token au pid c of
              (Some e, c) \<Rightarrow>
                if au_notify au \<and> revoked_failure e
                then (let (e, c) = waitForInteractiveReauth au pid c in (e, [LoginNeeded pid], c))
                else (Some e, [], c)
            | (None, c) \<Rightarrow> (None, [], c))
         else if fp_aws p \<noteq> [] then refreshAWSCredentials au p c
         else if template_var p then (let (e, c) = refreshApiKeyTemplate au p models c in (e, [], c))
         else (None, [], c))"

definition has_refresh :: "full_provider \<Rightarrow> bool" where
  "has_refresh p \<longleftrightarrow> cp_oauth (fp_call p) \<noteq> None \<or> template_var p \<or> fp_aws p \<noteq> []"

subsection \<open>A turn\<close>

record turn_request =
  tq_session :: string
  tq_run :: string
  tq_prompt :: string
  tq_max_input :: int
  tq_max_output :: int
  tq_options :: "(option_parser \<times> json_fields) option"
  tq_sampling :: sampling
  tq_refresh :: bool

text \<open>
  The agent's turn is the argument \<open>run\<close>: it may renew credentials on the way, reports payloads of
  completion one after the other, and returns. \<open>re_unauthorized\<close> tells an error that is a status 401.
\<close>

record run_env =
  re_ready :: "string option"
  re_update :: coord_env
  re_auth :: auth_env
  re_run :: "turn_request \<Rightarrow> coord \<Rightarrow> coord \<times> (string \<times> string) list \<times> (string + string)"
  re_unauthorized :: "string \<Rightarrow> bool"
  re_notify :: bool
  re_complete :: bool
  re_max_input :: int

definition turn_max_tokens :: "agent_model \<Rightarrow> int" where
  "turn_max_tokens m = (if mo_max_tokens (am_choice m) \<noteq> 0 then mo_max_tokens (am_choice m) else ch_max_tokens (am_chat m))"

definition turn_events :: "run_env \<Rightarrow> agent_model \<Rightarrow> (string \<times> string) list \<Rightarrow> string + string \<Rightarrow> coord_event list" where
  "turn_events env model completes result =
     (case result of
        Inl e \<Rightarrow> if re_unauthorized env e \<and> re_notify env \<and> mo_provider (am_choice model) = ''hyper'' then [LoginNeeded ''hyper''] else []
      | Inr _ \<Rightarrow> []) @
     (if completes \<noteq> [] \<and> re_complete env then [RunCompleted (last completes), MarkedPublished] else [])"

definition coord_run :: "run_env \<Rightarrow> string \<Rightarrow> string \<Rightarrow> string \<Rightarrow> coord \<Rightarrow> (string + string) \<times> coord_event list \<times> coord" where
  "coord_run env runID session prompt c =
     (case re_ready env of
        Some e \<Rightarrow> (Inl e, [], c)
      | None \<Rightarrow>
          (case UpdateModels (re_update env) c of
             (Some e, c) \<Rightarrow> (Inl (''failed to update models: '' @ e), [], c)
           | (None, c) \<Rightarrow>
               (case co_models c of
                  None \<Rightarrow> (Inl ''model provider not configured'', [], c)
                | Some (model, _) \<Rightarrow>
                    (case map_of (ac_providers (co_cfg c)) (mo_provider (am_choice model)) of
                       None \<Rightarrow> (Inl ''model provider not configured'', [], c)
                     | Some (p, models) \<Rightarrow>
                         (case mergeCallOptions (bl_opts (ce_lib (re_update env))) model (fp_call p) of
                            Inl e \<Rightarrow> (Inl (''failed to prepare provider options: '' @ e), [], c)
                          | Inr (options, params) \<Rightarrow>
                              (let c = snd (refreshTokenIfExpired (re_auth env) p c);
                                   request = \<lparr>tq_session = session, tq_run = runID, tq_prompt = prompt, tq_max_input = re_max_input env,
                                     tq_max_output = turn_max_tokens model, tq_options = options, tq_sampling = params, tq_refresh = has_refresh p\<rparr>;
                                   (c, completes, result) = re_run env request c
                               in (result, turn_events env model completes result, c)))))))"

definition SummarizeRequest :: "run_env \<Rightarrow> coord \<Rightarrow> (string + (option_parser \<times> json_fields) option \<times> bool) \<times> coord" where
  "SummarizeRequest env c =
     (case co_models c of
        None \<Rightarrow> (Inl ''model provider not configured'', c)
      | Some (model, _) \<Rightarrow>
          (case map_of (ac_providers (co_cfg c)) (mo_provider (am_choice model)) of
             None \<Rightarrow> (Inl ''model provider not configured'', c)
           | Some (p, _) \<Rightarrow>
               (let c = snd (refreshTokenIfExpired (re_auth env) p c);
                    model = (case co_models c of Some (m, _) \<Rightarrow> m | None \<Rightarrow> model)
                in case getProviderOptions (bl_opts (ce_lib (re_update env))) (call_model_of (am_chat model) (am_choice model)) (fp_call p) of
                     Inl e \<Rightarrow> (Inl (''failed to prepare provider options: '' @ e), c)
                   | Inr options \<Rightarrow> (Inr (options, has_refresh p), c))))"

end
