(* ===== verification/Extensions_Props.thy ===== *)
theory Extensions_Props
  imports Extensions
begin

section \<open>What extensions can add\<close>

text \<open>The tools of a manager after any refreshes, where they come from, and what their processes can answer.\<close>

subsection \<open>Tools of a manifest\<close>

abbreviation tool_name :: "ext_tool \<Rightarrow> string" where
  "tool_name t \<equiv> tm_name (xt_manifest t)"

definition spec_ok :: "tool_manifest \<Rightarrow> bool" where
  "spec_ok s \<longleftrightarrow> safeToolName (tm_name s) \<and> trim_space (tm_description s) \<noteq> [] \<and> list_all safeToolName (map fst (tm_parameters s)) \<and>
     distinct (tm_required s) \<and> set (tm_required s) \<subseteq> fst ` set (tm_parameters s)"

definition ext_tool_ok :: "ext_tool \<Rightarrow> bool" where
  "ext_tool_ok t \<longleftrightarrow> safeName (xt_extension t) \<and> spec_ok (xt_manifest t) \<and> 0 < sint (xt_timeout t) \<and> sint (xt_timeout t) \<le> sint maxTimeout"

lemma required_ok:
  "required_error mf spec seen rs = None \<Longrightarrow> distinct rs \<and> set rs \<inter> set seen = {} \<and> set rs \<subseteq> fst ` set (tm_parameters spec)"
proof (induction rs arbitrary: seen)
  case (Cons r rs)
  then have "r \<in> fst ` set (tm_parameters spec)" "r \<notin> set seen" and n: "required_error mf spec (r # seen) rs = None"
    by (auto simp: map_of_eq_None_iff split: if_splits)
  with Cons.IH [OF n] show ?case by auto
qed simp

lemma tool_error_ok: "tool_error mf seen spec = None \<Longrightarrow> spec_ok spec \<and> tm_name spec \<notin> set seen"
  using required_ok [of mf spec "[]" "tm_required spec"]
  by (auto simp: tool_error_def spec_ok_def list_all_iff find_None_iff split: if_splits option.splits)

lemma manifest_tools_ok:
  "manifest_tools mf path exe timeout seen specs = Inr ts \<Longrightarrow>
     (\<forall>t\<in>set ts. xt_extension t = xm_name mf \<and> xt_source t = path \<and> xt_timeout t = timeout \<and> spec_ok (xt_manifest t))"
  by (induction specs arbitrary: seen ts) (auto split: option.splits sum.splits dest!: tool_error_ok)

lemma timeout_ok: "manifest_timeout mf = Some t \<Longrightarrow> 0 < sint t \<and> sint t \<le> sint maxTimeout"
  by (auto simp: manifest_timeout_def defaultTimeout_def maxTimeout_def Let_def split: if_splits)

lemma loadManifest_ok:
  assumes "loadManifest env path = Inr (mf, ts)"
  shows "\<forall>t\<in>set ts. ext_tool_ok t \<and> xt_source t = path \<and> xt_extension t = xm_name mf"
  using assms
  by (auto simp: loadManifest_def ext_tool_ok_def map_sum_Inr Let_def split: sum.splits if_splits option.splits prod.splits
      dest!: manifest_tools_ok timeout_ok)

lemma load_each_ok:
  "load_each env paths = Inr exts \<Longrightarrow> (path, mf, ts) \<in> set exts \<Longrightarrow> t \<in> set ts \<Longrightarrow>
     ext_tool_ok t \<and> xt_source t = path \<and> path \<in> set paths \<and> xt_extension t = xm_name mf"
proof (induction paths arbitrary: exts)
  case (Cons p paths)
  then obtain x rest where x: "loadManifest env p = Inr x" "load_each env paths = Inr rest" "exts = (p, x) # rest"
    by (auto simp: map_sum_Inr split: sum.splits)
  then show ?case using Cons loadManifest_ok [of env p mf ts] by (cases x) auto
qed simp

subsection \<open>Names\<close>

definition names_ok :: "seen_names \<times> ext_tool list \<Rightarrow> bool" where
  "names_ok st \<longleftrightarrow> gomap_keys (fst st) = set (map tool_name (snd st)) \<and> distinct (map tool_name (snd st))"

lemma add_tools_ok:
  "add_tools source ts st = Inr st' \<Longrightarrow> names_ok st \<Longrightarrow> names_ok st' \<and> set (snd st') = set (snd st) \<union> set ts"
proof (induction source ts st rule: add_tools.induct)
  case (2 source t ts toolNames tools)
  from 2(2) have new: "map_of toolNames (tool_name t) = None"
    and rest: "add_tools source ts (AList.update (tool_name t) source toolNames, tools @ [t]) = Inr st'"
    by (auto split: option.splits)
  have "tool_name t \<notin> gomap_keys toolNames" using new by (simp add: map_of_eq_None_iff)
  then have "names_ok (AList.update (tool_name t) source toolNames, tools @ [t])"
    using 2(3) by (auto simp: names_ok_def gomap_keys_set)
  then show ?case using 2(1) [OF new rest] by auto
qed simp

lemma add_extensions_ok:
  "add_extensions disabled exts st = Inr st' \<Longrightarrow> names_ok (snd st) \<Longrightarrow>
     names_ok (snd st') \<and> set (snd (snd st')) \<subseteq> set (snd (snd st)) \<union> (\<Union>(s, mf, ts)\<in>set exts. if xm_name mf \<in> set disabled then {} else set ts)"
proof (induction disabled exts st rule: add_extensions.induct)
  case (2 disabled source mf ts exts extensionNames st)
  show ?case
  proof (cases "xm_name mf \<in> set disabled")
    case True
    then show ?thesis using 2(1,3,4) by auto
  next
    case False
    with 2(3) obtain u where new: "map_of extensionNames (xm_name mf) = None" and u: "add_tools source ts st = Inr u"
      and rest: "add_extensions disabled exts (AList.update (xm_name mf) source extensionNames, u) = Inr st'"
      by (auto split: option.splits sum.splits)
    have "names_ok u" "set (snd u) = set (snd st) \<union> set ts" using add_tools_ok [OF u] 2(4) by auto
    then show ?thesis using 2(2) [OF False new u rest] False by auto
  qed
qed simp

definition from_roots :: "ext_env \<Rightarrow> string list \<Rightarrow> string list \<Rightarrow> ext_tool \<Rightarrow> bool" where
  "from_roots env disabled roots t \<longleftrightarrow> ext_tool_ok t \<and> xt_extension t \<notin> set disabled \<and>
     (\<exists>root entries. root \<in> set roots \<and> xe_dir env root = DirEntries entries \<and> xt_source t \<in> set (root_manifests env root entries))"

lemma discovered_from_root:
  assumes "discoverRoot env root = Inr exts" and "root \<in> set roots"
    and "t \<in> (\<Union>(s, mf, ts)\<in>set exts. if xm_name mf \<in> set disabled then {} else set ts)"
  shows "from_roots env disabled roots t"
proof -
  obtain s mf ts where t: "(s, mf, ts) \<in> set exts" "xm_name mf \<notin> set disabled" "t \<in> set ts"
    using assms(3) by (auto split: if_splits)
  then obtain entries where e: "xe_dir env root = DirEntries entries" and l: "load_each env (root_manifests env root entries) = Inr exts"
    using assms(1) by (auto simp: discoverRoot_def split: dir_listing.splits)
  show ?thesis using load_each_ok [OF l t(1,3)] e t assms(2) by (auto simp: from_roots_def)
qed

lemma add_roots_ok:
  "add_roots env disabled roots st = Inr st' \<Longrightarrow> names_ok (snd st) \<Longrightarrow>
     names_ok (snd st') \<and> (\<forall>t\<in>set (snd (snd st')). t \<in> set (snd (snd st)) \<or> from_roots env disabled roots t)"
proof (induction roots arbitrary: st)
  case (Cons root roots)
  then obtain exts u where d: "discoverRoot env root = Inr exts" and u: "add_extensions disabled exts st = Inr u"
    and r: "add_roots env disabled roots u = Inr st'" by (auto split: sum.splits)
  note a = add_extensions_ok [OF u Cons.prems(2)]
  have "from_roots env disabled (root # roots) t" if "from_roots env disabled roots t" for t using that by (auto simp: from_roots_def)
  moreover have "t \<in> set (snd (snd st)) \<or> from_roots env disabled (root # roots) t" if "t \<in> set (snd (snd u))" for t
    using a that discovered_from_root [OF d, of "root # roots" t disabled] by fastforce
  ultimately show ?case using Cons.IH [OF r] a by blast
qed simp

subsection \<open>The manager\<close>

definition ext_manager_ok :: "ext_manager \<Rightarrow> bool" where
  "ext_manager_ok m \<longleftrightarrow> sorted (map tool_name (xg_tools m)) \<and> distinct (map tool_name (xg_tools m)) \<and> list_all ext_tool_ok (xg_tools m)"

lemma refresh_ok:
  assumes "RefreshExtensions env trusted paths disabled m = (None, m')"
  shows "ext_manager_ok m' \<and> (\<forall>t\<in>set (xg_tools m'). from_roots env disabled (uniquePaths env (extension_roots m trusted paths)) t)"
proof -
  obtain a b tools where r: "add_roots env disabled (uniquePaths env (extension_roots m trusted paths)) ([], [], []) = Inr (a, b, tools)"
    and m': "m' = m\<lparr>xg_tools := sort_key (tm_name \<circ> xt_manifest) tools\<rparr>"
    using assms by (auto simp: RefreshExtensions_def split: sum.splits)
  have n: "names_ok (b, tools)" "\<forall>t\<in>set tools. from_roots env disabled (uniquePaths env (extension_roots m trusted paths)) t"
    using add_roots_ok [OF r] by (auto simp: names_ok_def)
  have "distinct (map tool_name (sort_key (tm_name \<circ> xt_manifest) tools))"
    using n(1) by (simp add: names_ok_def distinct_map)
  moreover have "sorted (map tool_name (sort_key (tm_name \<circ> xt_manifest) tools))"
    using sorted_sort_key [of "tm_name \<circ> xt_manifest" tools] by (simp add: comp_def)
  ultimately show ?thesis using n by (auto simp: m' ext_manager_ok_def list_all_iff from_roots_def)
qed

lemma refresh_cases:
  "RefreshExtensions env trusted paths disabled m = (e, m') \<Longrightarrow> e = None \<or> m' = m"
  by (auto simp: RefreshExtensions_def split: sum.splits)

inductive ext_step :: "ext_manager \<Rightarrow> ext_manager \<Rightarrow> bool" where
  refreshed: "RefreshExtensions env trusted paths disabled m = (e, m') \<Longrightarrow> ext_step m m'"

lemma ext_manager_new: "ext_manager_ok (NewExtManager w g)"
  by (simp add: ext_manager_ok_def NewExtManager_def)

interpretation ext_managers: transition_system "\<lambda>m. \<exists>w g. m = NewExtManager w g" ext_step ext_manager_ok
proof
  fix s t
  assume "ext_step s t" and "ext_manager_ok s"
  then show "ext_manager_ok t" by (cases rule: ext_step.cases) (metis refresh_cases refresh_ok)
qed (auto simp: ext_manager_new)

text \<open>
  Whatever refreshes succeed or fail, the tools an extension manager offers have different names, in order, that
  a model accepts; each has a description and a timeout of at most half an hour, and requires only declared parameters, once.
\<close>

theorem extension_tools_sound:
  assumes "ext_step\<^sup>*\<^sup>* (NewExtManager w g) m"
  shows "ext_manager_ok m"
  by (rule ext_managers.reachable_inv [OF _ assms]) blast

text \<open>
  After a refresh that succeeds every tool comes from a manifest in one of the roots and from an extension that is not
  disabled; the project's own directories are roots only when the project is trusted.
\<close>

theorem extension_sources:
  assumes "RefreshExtensions env trusted paths disabled m = (None, m')" and "t \<in> set (xg_tools m')"
  shows "xt_extension t \<notin> set disabled \<and>
    (\<exists>root entries. (trim_space (xg_global m) \<noteq> [] \<and> root = absolute_path env (filepath_Join [xg_global m, ''extensions'']) \<or>
         (\<exists>p\<in>set paths. root = absolute_path env (filepath_Clean (if filepath_IsAbs p then p else filepath_Join [xg_working m, p]))) \<or>
         trusted \<and> (\<exists>d\<in>{''.tack'', ''.pi''}. root = absolute_path env (filepath_Join [xg_working m, d, ''extensions'']))) \<and>
       xe_dir env root = DirEntries entries \<and> xt_source t \<in> set (root_manifests env root entries))"
proof -
  have u: "set (unique_from env seen ps) \<subseteq> absolute_path env ` set ps" for seen ps
    by (induction ps arbitrary: seen) (auto simp: Let_def)
  have "from_roots env disabled (uniquePaths env (extension_roots m trusted paths)) t" using refresh_ok [OF assms(1)] assms(2) by blast
  then obtain root entries where r: "root \<in> absolute_path env ` set (extension_roots m trusted paths)" "xe_dir env root = DirEntries entries"
      "xt_source t \<in> set (root_manifests env root entries)" and d: "xt_extension t \<notin> set disabled"
    using u [of "[]" "extension_roots m trusted paths"] unfolding from_roots_def uniquePaths_def by blast
  have "trim_space (xg_global m) \<noteq> [] \<and> root = absolute_path env (filepath_Join [xg_global m, ''extensions'']) \<or>
     (\<exists>p\<in>set paths. root = absolute_path env (filepath_Clean (if filepath_IsAbs p then p else filepath_Join [xg_working m, p]))) \<or>
     trusted \<and> (\<exists>d\<in>{''.tack'', ''.pi''}. root = absolute_path env (filepath_Join [xg_working m, d, ''extensions'']))"
    using r(1) unfolding extension_roots_def by (auto split: if_splits)
  with r(2,3) d show ?thesis by blast
qed

subsection \<open>Output\<close>

lemma limited_fold:
  "length (lb_bytes b) \<le> limit \<Longrightarrow> [] \<notin> set chunks \<Longrightarrow>
     foldl (\<lambda>b p. limited_Write limit p b) b chunks =
       \<lparr>lb_bytes = take limit (lb_bytes b @ concat chunks), lb_exceeded = (lb_exceeded b \<or> limit < length (lb_bytes b @ concat chunks))\<rparr>"
proof (induction chunks arbitrary: b)
  case Nil
  then show ?case by (cases b) simp
next
  case (Cons p chunks)
  have l: "length (lb_bytes (limited_Write limit p b)) \<le> limit" using Cons.prems by (auto simp: limited_Write_def Let_def)
  have t: "take limit (lb_bytes (limited_Write limit p b) @ r) = take limit (lb_bytes b @ p @ r)" for r
    using Cons.prems by (auto simp: limited_Write_def Let_def)
  have x: "lb_exceeded (limited_Write limit p b) \<or> limit < length (lb_bytes (limited_Write limit p b) @ r) \<longleftrightarrow>
      lb_exceeded b \<or> limit < length (lb_bytes b @ p @ r)" for r
    using Cons.prems by (auto simp: limited_Write_def Let_def)
  show ?case using Cons.IH [OF l] Cons.prems t [of "concat chunks"] x [of "concat chunks"] by simp
qed

text \<open>
  However a process cuts its output into writes, the buffer holds its beginning up to the limit, and says it was exceeded
  exactly when there was more.
\<close>

theorem limited_output_exact:
  assumes "[] \<notin> set chunks"
  shows "limited_output limit chunks = \<lparr>lb_bytes = take limit (concat chunks), lb_exceeded = (limit < length (concat chunks))\<rparr>"
  using assms by (simp add: limited_output_def limited_fold)

theorem limited_output_exact_witness:
  "limited_output 3 [''ab'', ''cd''] = \<lparr>lb_bytes = ''abc'', lb_exceeded = True\<rparr>"
  using limited_output_exact [of "[''ab'', ''cd'']" 3] by (simp add: numeral_3_eq_3)

text \<open>
  A tool of an extension stops the turn or hands over metadata only with a complete answer of a process that
  ended well, in time and within its limits.
\<close>

theorem extension_answer_needed:
  assumes "RunExtension env t dir callID input = Inr r" and "tr_stop r \<or> tr_metadata r \<noteq> None \<or> \<not> tr_error r"
  shows "\<exists>p answer. p = xc_process env t (ext_request_for t dir callID input) \<and> xp_start p = None \<and> \<not> xp_cancelled p \<and> xp_wait p = None \<and>
    \<not> lb_exceeded (limited_output maxStdoutBytes (xp_stdout p)) \<and> xc_decode env (lb_bytes (limited_output maxStdoutBytes (xp_stdout p))) = Inr (answer, True) \<and>
    r = response_result answer"
  using assms
  by (auto simp: RunExtension_def process_result_def error_response_def Let_def split: if_splits option.splits sum.splits)

subsection \<open>A concrete directory\<close>

definition echo_spec :: tool_manifest where
  "echo_spec = \<lparr>tm_name = ''echo'', tm_description = ''d'', tm_parameters = [(''x'', JNull)], tm_required = [''x''], tm_parallel = False\<rparr>"

definition demo_manifest :: "int \<Rightarrow> ext_manifest" where
  "demo_manifest seconds = \<lparr>xm_schema = 1, xm_name = ''one'', xm_executable = ''run'', xm_args = [], xm_timeout = seconds, xm_tools = [echo_spec]\<rparr>"

definition demo_ext_env :: "ext_manifest \<Rightarrow> ext_env" where
  "demo_ext_env mf = \<lparr>xe_dir = (\<lambda>d. if d = ''/g/extensions'' then DirEntries [(''one'', True)] else DirMissing),
     xe_stat = (\<lambda>p. if p = ''/g/extensions/one/run'' \<or> p = ''/g/extensions/one/extension.json'' then Inr \<lparr>fm_regular = True, fm_executable = True\<rparr> else Inl ''missing''),
     xe_read = (\<lambda>_. Inr ''{}''), xe_decode = (\<lambda>_. Inr (mf, True)), xe_abs = Some, xe_windows = False, xe_lower = id\<rparr>"

definition demo_refreshed :: "int \<Rightarrow> string list \<Rightarrow> string option \<times> ext_manager" where
  "demo_refreshed seconds disabled = RefreshExtensions (demo_ext_env (demo_manifest seconds)) False [] disabled (NewExtManager ''/w'' ''/g'')"

lemma demo_paths:
  "uniquePaths (demo_ext_env (demo_manifest s)) (extension_roots (NewExtManager ''/w'' ''/g'') False []) = [''/g/extensions'']"
  "root_manifests (demo_ext_env (demo_manifest s)) ''/g/extensions'' [(''one'', True)] = [''/g/extensions/one/extension.json'']"
  "resolveExecutable (demo_ext_env (demo_manifest s)) (filepath_Dir ''/g/extensions/one/extension.json'') ''run'' = Inr ''/g/extensions/one/run''"
  "safeName ''one''"
  by code_simp+

lemma demo_spec_ok: "tool_error (demo_manifest s) [] echo_spec = None"
proof -
  have "safeToolName ''echo''" "safeToolName ''x''" "trim_space ''d'' \<noteq> []" by code_simp+
  then show ?thesis by (simp add: tool_error_def echo_spec_def)
qed

lemma demo_load:
  "loadManifest (demo_ext_env (demo_manifest s)) ''/g/extensions/one/extension.json'' =
     (case manifest_timeout (demo_manifest s) of
        None \<Rightarrow> Inl (''extension '' @ quoted ''one'' @ '' timeout must be between 1 and 1800 seconds'')
      | Some t \<Rightarrow> Inr (demo_manifest s, [\<lparr>xt_extension = ''one'', xt_source = ''/g/extensions/one/extension.json'', xt_manifest = echo_spec,
          xt_executable = ''/g/extensions/one/run'', xt_args = [], xt_timeout = t\<rparr>]))"
proof -
  have "xe_read (demo_ext_env (demo_manifest s)) p = Inr ''{}''" "xe_decode (demo_ext_env (demo_manifest s)) d = Inr (demo_manifest s, True)" for p d
    by (simp_all add: demo_ext_env_def)
  then show ?thesis
    using demo_paths(3,4) demo_spec_ok
    by (simp add: loadManifest_def maxManifestBytes_def Let_def demo_manifest_def split: option.split)
qed

lemma demo_ext_dir: "xe_dir (demo_ext_env mf) ''/g/extensions'' = DirEntries [(''one'', True)]"
  by (simp add: demo_ext_env_def)

lemma demo_timeouts: "manifest_timeout (demo_manifest 60) = Some 60000000000" "manifest_timeout (demo_manifest 1801) = None"
  "manifest_timeout (demo_manifest 18446744074) = Some 290448384"
  by (simp_all add: manifest_timeout_def demo_manifest_def maxTimeout_def Let_def)

lemma demo_refreshed_names: "fst (demo_refreshed 60 []) = None" "map tool_name (xg_tools (snd (demo_refreshed 60 []))) = [''echo'']"
  using demo_timeouts(1)
  by (simp_all add: demo_refreshed_def RefreshExtensions_def demo_paths(1,2) discoverRoot_def demo_ext_dir demo_load echo_spec_def)

theorem extension_tools_sound_witness:
  "ext_manager_ok (snd (demo_refreshed 60 [])) \<and> xg_tools (snd (demo_refreshed 60 [])) \<noteq> []"
proof -
  have "ext_step (NewExtManager ''/w'' ''/g'') (snd (demo_refreshed 60 []))"
    by (rule ext_step.intros [of _ _ _ _ _ "fst (demo_refreshed 60 [])"]) (simp add: demo_refreshed_def)
  from extension_tools_sound [OF r_into_rtranclp [of ext_step, OF this]] show ?thesis using demo_refreshed_names(2) by auto
qed

theorem extension_sources_witness:
  "\<exists>t\<in>set (xg_tools (snd (demo_refreshed 60 []))). xt_extension t \<notin> set ([] :: string list)"
proof -
  obtain t where t: "t \<in> set (xg_tools (snd (demo_refreshed 60 [])))" using demo_refreshed_names(2) by (cases "xg_tools (snd (demo_refreshed 60 []))") auto
  have "RefreshExtensions (demo_ext_env (demo_manifest 60)) False [] [] (NewExtManager ''/w'' ''/g'') = (None, snd (demo_refreshed 60 []))"
    using demo_refreshed_names(1) by (simp add: demo_refreshed_def prod_eq_iff)
  from extension_sources [OF this t] show ?thesis using t by auto
qed

definition demo_call_env :: ext_call_env where
  "demo_call_env = \<lparr>xc_valid = (\<lambda>_. True),
     xc_process = (\<lambda>_ _. \<lparr>xp_start = None, xp_stdout = [''ok''], xp_stderr = [], xp_cancelled = False, xp_wait = None\<rparr>),
     xc_decode = (\<lambda>s. Inr (\<lparr>xs_content = s, xs_error = False, xs_stop = True, xs_metadata = None\<rparr>, True))\<rparr>"

definition demo_tool :: ext_tool where
  "demo_tool = \<lparr>xt_extension = ''one'', xt_source = [], xt_manifest = echo_spec, xt_executable = ''run'', xt_args = [], xt_timeout = 5\<rparr>"

lemma demo_ran: "RunExtension demo_call_env demo_tool ''/w'' ''c'' ''{}'' = Inr \<lparr>tr_text = ''ok'', tr_error = False, tr_stop = True, tr_metadata = None\<rparr>"
  by (simp add: RunExtension_def demo_call_env_def process_result_def limited_output_def limited_Write_def response_result_def
      maxStdoutBytes_def maxStderrBytes_def Let_def)

theorem extension_answer_needed_witness:
  "\<exists>p. p = xc_process demo_call_env demo_tool (ext_request_for demo_tool ''/w'' ''c'' ''{}'') \<and> xp_wait p = None \<and> xp_start p = None"
  using extension_answer_needed [OF demo_ran] by auto

text \<open>
  The bound on the timeout is checked after the product has wrapped, so a limit of centuries passes as one of seconds;
  and a disabled extension still stops every refresh when its manifest is refused.
\<close>

lemma huge_timeout_accepted:
  "map_option unat (manifest_timeout (demo_manifest 18446744074)) = Some 290448384" "manifest_timeout (demo_manifest 1801) = None"
  using demo_timeouts by simp_all

lemma disabled_still_checked: "fst (demo_refreshed 1801 [''one'']) \<noteq> None"
  using demo_timeouts(2)
  by (simp add: demo_refreshed_def RefreshExtensions_def demo_paths(1,2) discoverRoot_def demo_ext_dir demo_load)

end
