(* ===== verification/Coordinator_Props.thy ===== *)
theory Coordinator_Props
  imports Coordinator Extensions_Props
begin

section \<open>What a coordinator promises its agent\<close>

text \<open>The tools a model may call, the prompt that describes them, one terminal event per turn, and renewed credentials.\<close>

subsection \<open>Tools\<close>

lemma core_names: "map ts_name toolRegistry = [''read'', ''powershell'', ''edit'', ''write'', ''grep'', ''glob'']"
  by (simp add: toolRegistry_def core_tool_def)

lemma core_distinct: "distinct (map ts_name toolRegistry)"
  by (simp add: core_names)

lemma core_set: "ts_name ` set toolRegistry = set allToolNames"
proof -
  have "ts_name ` set toolRegistry = set (map ts_name toolRegistry)" by simp
  also have "\<dots> = set allToolNames" unfolding core_names by (auto simp: allToolNames_def)
  finally show ?thesis .
qed

text \<open>No tool of an extension has the name of a built-in one.\<close>

definition no_conflict :: "ext_manager \<Rightarrow> bool" where
  "no_conflict m \<longleftrightarrow> list_all (\<lambda>t. tool_name t \<notin> set allToolNames) (xg_tools m)"

lemma ext_spec_name [simp]: "ts_name (ext_spec t) = tool_name t"
  by (simp add: ext_spec_def)

lemma specs_names:
  "set (map ts_name (enabledToolSpecs (Some m) disabled allowed)) =
     set allToolNames \<inter> set allowed \<union> (set (map tool_name (xg_tools m)) - set disabled)"
proof -
  have "set (map ts_name (enabledToolSpecs (Some m) disabled allowed)) =
      ts_name ` {t \<in> set toolRegistry. ts_name t \<in> set allowed} \<union> tool_name ` {t \<in> set (xg_tools m). tool_name t \<notin> set disabled}"
    by (simp add: enabledToolSpecs_def registrySnapshots_def Let_def image_Un image_image)
  moreover have "ts_name ` {t \<in> set toolRegistry. ts_name t \<in> set allowed} = set allToolNames \<inter> set allowed"
    unfolding core_set [symmetric] by auto
  moreover have "tool_name ` {t \<in> set (xg_tools m). tool_name t \<notin> set disabled} = set (map tool_name (xg_tools m)) - set disabled"
    by auto
  ultimately show ?thesis by simp
qed

lemma specs_sorted: "sorted (map ts_name (enabledToolSpecs (Some m) disabled allowed))"
  by (simp add: enabledToolSpecs_def Let_def)

lemma specs_distinct:
  assumes "ext_manager_ok m" and "no_conflict m"
  shows "distinct (map ts_name (enabledToolSpecs (Some m) disabled allowed))"
proof -
  let ?core = "filter (\<lambda>t. ts_name t \<in> set allowed) toolRegistry"
    and ?ext = "filter (\<lambda>t. tool_name t \<notin> set disabled) (xg_tools m)"
  have c: "distinct (map ts_name ?core)" using core_distinct by (rule distinct_map_filter)
  have e: "distinct (map tool_name ?ext)" using assms(1) unfolding ext_manager_ok_def by (blast intro: distinct_map_filter)
  have "set (map ts_name ?core) \<inter> set (map tool_name ?ext) = {}"
    using assms(2) unfolding no_conflict_def list_all_iff core_set [symmetric] by (force simp: image_iff)
  then have "distinct (map ts_name (?core @ map ext_spec ?ext))"
    using c e by (simp add: comp_def)
  then show ?thesis
    unfolding enabledToolSpecs_def registrySnapshots_def Let_def option.case fst_conv by (simp only: distinct_map distinct_sort set_sort)
qed

lemma buildTools_eq: "buildTools (Some m) disabled allowed = enabledToolSpecs (Some m) disabled allowed"
  using specs_sorted [of m disabled allowed] by (simp add: buildTools_def sorted_sort_id sort_key_id_if_sorted)

subsection \<open>Refreshing\<close>

definition exts_ok :: "coord \<Rightarrow> bool" where
  "exts_ok c \<longleftrightarrow> (case co_exts c of None \<Rightarrow> False | Some m \<Rightarrow> ext_manager_ok m)"

lemma refresh_ext_ok: "RefreshExtensions env trusted paths disabled m = (e, m') \<Longrightarrow> ext_manager_ok m \<Longrightarrow> ext_manager_ok m'"
  using refresh_ok refresh_cases by metis

lemma refreshExtensions_keeps:
  assumes "refreshExtensions env c = (e, c')" and "exts_ok c"
  shows "exts_ok c' \<and> c' = c\<lparr>co_exts := co_exts c'\<rparr> \<and> (e = None \<longrightarrow> (\<exists>m. co_exts c' = Some m \<and> no_conflict m))"
  using assms
  by (auto simp: refreshExtensions_def exts_ok_def no_conflict_def list_all_iff find_None_iff simp flip: core_set
      split: option.splits prod.splits dest: refresh_ext_ok)

definition prompt_synced :: "coord \<Rightarrow> bool" where
  "prompt_synced c \<longleftrightarrow> co_skills c \<noteq> None \<and> (co_last c \<noteq> [] \<longrightarrow> co_prompt c = co_last c)"

lemma refreshSkills_keeps:
  assumes "refreshSkills env provider model c = (e, c')" and "prompt_synced c"
  shows "prompt_synced c' \<and> co_exts c' = co_exts c \<and> co_models c' = co_models c \<and>
    (e = None \<longrightarrow> (\<exists>m. co_skills c' = Some m \<and> coder_prompt env c (sm_active m) provider model = Inr (co_last c') \<and>
       (co_last c' \<noteq> [] \<longrightarrow> co_prompt c' = co_last c')))"
  using assms
  by (auto simp: refreshSkills_def prompt_synced_def coder_prompt_def toolPromptOption_def Let_def
      split: option.splits prod.splits sum.splits if_splits)

definition coord_ok :: "coord \<Rightarrow> bool" where
  "coord_ok c \<longleftrightarrow> exts_ok c \<and> prompt_synced c"

lemma UpdateModels_cases:
  assumes "UpdateModels env c = (e, c')" and "coord_ok c"
  shows "coord_ok c' \<and> (e = None \<longrightarrow>
    (\<exists>large small cfg m k a. buildAgentModels (ce_lib env) (co_cfg c) = (Inr (large, small), cfg) \<and> co_models c' = Some (large, small) \<and>
       co_exts c' = Some m \<and> no_conflict m \<and> co_skills c' = Some k \<and> map_of (ce_agents env) ''coder'' = Some a \<and>
       co_tools c' = buildTools (Some m) (disabled_list env) (ag_allowed a) \<and>
       coder_prompt env c' (sm_active k) (lm_provider (am_lang large)) (lm_name (am_lang large)) = Inr (co_last c') \<and>
       (co_last c' \<noteq> [] \<longrightarrow> co_prompt c' = co_last c')))"
proof (cases "buildAgentModels (ce_lib env) (co_cfg c)")
  case (Pair r cfg)
  show ?thesis
  proof (cases r)
    case (Inl x)
    then show ?thesis using Pair assms by (auto simp: UpdateModels_def coord_ok_def exts_ok_def prompt_synced_def)
  next
    case (Inr ls)
    obtain large small where ls: "ls = (large, small)" by (cases ls)
    let ?c = "c\<lparr>co_cfg := cfg, co_models := Some (large, small)\<rparr>"
    obtain e1 c1 where x: "refreshExtensions env ?c = (e1, c1)" by (cases "refreshExtensions env ?c")
    have ok: "exts_ok ?c" "prompt_synced ?c" using assms(2) by (auto simp: coord_ok_def exts_ok_def prompt_synced_def)
    note x1 = refreshExtensions_keeps [OF x ok(1)]
    have s1: "prompt_synced c1" using x1 ok(2) by (metis (no_types, lifting) coord.select_convs(4,6,9) coord.surjective coord.update_convs(5) prompt_synced_def)
    have m1: "co_models c1 = Some (large, small)" using x1 by (metis coord.select_convs(2) coord.surjective coord.update_convs(2,5))
    let ?p = "lm_provider (am_lang large)" and ?n = "lm_name (am_lang large)"
    obtain e2 c2 where y: "refreshSkills env ?p ?n c1 = (e2, c2)" by (cases "refreshSkills env ?p ?n c1")
    note y1 = refreshSkills_keeps [OF y s1]
    have same: "coder_prompt env c2 act p n = coder_prompt env c1 act p n"
      "coder_prompt env (c2\<lparr>co_tools := ts\<rparr>) act p n = coder_prompt env c1 act p n" for act p n ts
      using y1 by (simp_all add: coder_prompt_def toolPromptOption_def)
    have k: "exts_ok c2" using x1 y1 by (simp add: exts_ok_def)
    have u: "UpdateModels env c =
        (case e1 of Some x \<Rightarrow> (Some (''failed to refresh extensions: '' @ x), c1)
         | None \<Rightarrow> (case e2 of Some x \<Rightarrow> (Some (''failed to refresh skills: '' @ x), c2)
             | None \<Rightarrow> (case map_of (ce_agents env) ''coder'' of None \<Rightarrow> (Some ''coder agent not configured'', c2)
                 | Some a \<Rightarrow> (None, c2\<lparr>co_tools := buildTools (co_exts c2) (disabled_list env) (ag_allowed a)\<rparr>))))"
      using x y by (simp add: UpdateModels_def Pair Inr ls split: option.split)
    have tk: "coord_ok (c2\<lparr>co_tools := ts\<rparr>)" "coord_ok c2" "coord_ok c1" for ts
      using k y1 x1 s1 by (auto simp: coord_ok_def exts_ok_def prompt_synced_def)
    show ?thesis
    proof (cases "e1 = None \<and> e2 = None \<and> map_of (ce_agents env) ''coder'' \<noteq> None")
      case True
      then obtain a where a: "map_of (ce_agents env) ''coder'' = Some a" by auto
      have r: "e = None" "c' = c2\<lparr>co_tools := buildTools (co_exts c2) (disabled_list env) (ag_allowed a)\<rparr>"
        using assms(1) u True a by auto
      obtain m where m: "co_exts c1 = Some m" "no_conflict m" using x1 True by auto
      obtain j where j: "co_skills c2 = Some j" "coder_prompt env c1 (sm_active j) ?p ?n = Inr (co_last c2)" "co_last c2 \<noteq> [] \<longrightarrow> co_prompt c2 = co_last c2"
        using y1 True by auto
      show ?thesis using tk m m1 y1 j a same by (auto simp: r Pair Inr ls)
    next
      case False
      then have "e \<noteq> None \<and> (c' = c1 \<or> c' = c2)" using assms(1) u by (auto split: option.splits)
      then show ?thesis using tk by auto
    qed
  qed
qed

subsection \<open>The prompt describes the tools\<close>

text \<open>A configuration may be loaded at any time; models may be updated with any outcome.\<close>

inductive coord_step :: "coord \<Rightarrow> coord \<Rightarrow> bool" where
  updated: "UpdateModels env c = (e, c') \<Longrightarrow> coord_step c c'"
| reloaded: "coord_step c (c\<lparr>co_cfg := cfg\<rparr>)"

inductive new_coord :: "coord \<Rightarrow> bool" where
  "NewCoordinator env globalDir m cfg = Inr c \<Longrightarrow> new_coord c"

lemma new_coord_ok: "new_coord c \<Longrightarrow> coord_ok c"
proof (induction rule: new_coord.induct)
  case (1 env globalDir m cfg c)
  have "ext_manager_ok x" if "RefreshExtensions fs tr ps ds (NewExtManager dir globalDir) = (None, x)" for fs tr ps ds dir x
    using refresh_ext_ok [OF that ext_manager_new] .
  with 1 show ?case
    by (auto simp: NewCoordinator_def coord_ok_def exts_ok_def prompt_synced_def Let_def split: prod.splits option.splits sum.splits)
qed

interpretation coords: transition_system new_coord coord_step coord_ok
proof
  fix s t
  assume "coord_step s t" "coord_ok s"
  then show "coord_ok t"
    by (cases rule: coord_step.cases) (auto dest: UpdateModels_cases simp: coord_ok_def exts_ok_def prompt_synced_def)
qed (rule new_coord_ok)

text \<open>
  After the update before a turn, the tools the model can call are exactly the enabled built-in ones and those of the
  extensions that are not disabled, in order and with different names, and the system prompt in force was rendered
  from the same tools; the extensions and configuration may have changed in any way since the coordinator was made.
\<close>

theorem prompt_describes_tools:
  assumes "new_coord c0" and "coord_step\<^sup>*\<^sup>* c0 c" and "UpdateModels env c = (None, c')" and "ce_agents env = SetupAgents (ce_disabled_tools env) context"
    and "\<And>active infos rules provider model. ce_prompt env active infos rules provider model \<noteq> Inr []"
  shows "\<exists>m k large small. co_exts c' = Some m \<and> co_skills c' = Some k \<and> co_models c' = Some (large, small) \<and>
    sorted (map ts_name (co_tools c')) \<and> distinct (map ts_name (co_tools c')) \<and>
    set (map ts_name (co_tools c')) = (set allToolNames \<union> set (map tool_name (xg_tools m))) - set (disabled_list env) \<and>
    ce_prompt env (sm_active k) (map tool_info (co_tools c')) (promptGuidelines (map ts_name (co_tools c')))
      (lm_provider (am_lang large)) (lm_name (am_lang large)) = Inr (co_prompt c')"
proof -
  have ok: "coord_ok c" using coords.reachable_inv [OF assms(1,2)] .
  let ?d = "disabled_list env"
  let ?a = "resolveAllowedTools allToolNames (ce_disabled_tools env)"
  have agent: "\<exists>a. map_of (ce_agents env) ''coder'' = Some a \<and> ag_allowed a = ?a"
    unfolding assms(4) SetupAgents_def Let_def by simp
  note u = UpdateModels_cases [OF assms(3) ok]
  obtain large small m k b where c': "co_models c' = Some (large, small)" "co_exts c' = Some m" "no_conflict m" "co_skills c' = Some k"
      and b: "map_of (ce_agents env) ''coder'' = Some b" and tools': "co_tools c' = buildTools (Some m) ?d (ag_allowed b)"
      and text': "coder_prompt env c' (sm_active k) (lm_provider (am_lang large)) (lm_name (am_lang large)) = Inr (co_last c')"
      and synced: "co_last c' \<noteq> [] \<longrightarrow> co_prompt c' = co_last c'"
    using u [THEN conjunct2, THEN mp, OF refl] by blast
  have ok': "coord_ok c'" using u by blast
  have tools: "co_tools c' = buildTools (Some m) ?d ?a" using tools' b agent by simp
  have allowed: "coder_allowed env = ?a" using agent by (auto simp: coder_allowed_def)
  have specs: "co_tools c' = enabledToolSpecs (co_exts c') ?d (coder_allowed env)" by (simp add: tools allowed buildTools_eq c')
  have em: "ext_manager_ok m" using ok' c' by (simp add: coord_ok_def exts_ok_def)
  have "set allToolNames \<inter> set ?a = set allToolNames - set ?d"
    by (auto simp: resolveAllowedTools_def filterSlice_def disabled_list_def split: option.splits)
  then have names: "set (map ts_name (co_tools c')) = (set allToolNames \<union> set (map tool_name (xg_tools m))) - set ?d"
    unfolding specs c' allowed specs_names by auto
  have p: "ce_prompt env (sm_active k) (map tool_info (co_tools c')) (promptGuidelines (map ts_name (co_tools c')))
      (lm_provider (am_lang large)) (lm_name (am_lang large)) = Inr (co_last c')"
    using text' by (simp add: coder_prompt_def toolPromptOption_def specs Let_def)
  then have "co_prompt c' = co_last c'" using assms(5) synced by auto
  then show ?thesis
    using c' names p specs_sorted [of m ?d ?a] specs_distinct [OF em c'(3), of ?d ?a]
    by (auto simp: specs allowed)
qed

definition demo_choice :: model_choice where
  "demo_choice = \<lparr>mo_provider = ''p'', mo_model = ''m'', mo_effort = [], mo_think = False, mo_options = None, mo_max_tokens = 0,
     mo_sampling = \<lparr>sp_temperature = None, sp_top_p = None, sp_top_k = None, sp_frequency = None, sp_presence = None\<rparr>\<rparr>"

definition demo_chat :: chat_model where
  "demo_chat = \<lparr>ch_id = ''m'', ch_can_reason = False, ch_levels = [], ch_default_effort = [], ch_options = None, ch_max_tokens = 5,
     ch_sampling = mo_sampling demo_choice\<rparr>"

definition demo_full :: full_provider where
  "demo_full = \<lparr>fp_call = \<lparr>cp_id = ''p'', cp_type = TyCompat, cp_base = ''u'', cp_oauth = None, cp_headers = [], cp_options = None, cp_routes = []\<rparr>,
     fp_key = ''k'', fp_template = ''$K'', fp_aws = [], fp_body = None, fp_params = [], fp_flat = False\<rparr>"

definition demo_option_lib :: option_lib where
  "demo_option_lib = \<lparr>ol_merge = (\<lambda>ls. Inr (last ls)), ol_kind = (\<lambda>_. KOtherKind), ol_responses = (\<lambda>_. False), ol_reasoning = (\<lambda>_. False),
     ol_encrypted = ''e'', ol_lower = id, ol_custom = (\<lambda>_. False)\<rparr>"

definition demo_build :: build_lib where
  "demo_build = \<lparr>bl_opts = demo_option_lib, bl_resolve = id, bl_claims = (\<lambda>_. None), bl_thinks = (\<lambda>_. False), bl_debug = False, bl_hyper = [],
     bl_bedrock_token = [], bl_url = (\<lambda>_. Inl ''bad''), bl_set_path = (\<lambda>u _. u), bl_url_text = id,
     bl_model = (\<lambda>s n. Inr \<lparr>lm_provider = ''p'', lm_name = n, lm_setup = s\<rparr>)\<rparr>"

definition demo_config :: agents_config where
  "demo_config = \<lparr>ac_models = [(''large'', demo_choice), (''small'', demo_choice)], ac_providers = [(''p'', demo_full, [demo_chat])]\<rparr>"

text \<open>The rendered prompt names the tools behind a prefix.\<close>

definition demo_coord_env :: "string list \<Rightarrow> coord_env" where
  "demo_coord_env disabled = \<lparr>ce_lib = demo_build, ce_trusted = None, ce_ext_paths = [], ce_disabled_exts = [], ce_disabled_tools = Some disabled,
     ce_agents = SetupAgents (Some disabled) [],
     ce_files = \<lparr>xe_dir = (\<lambda>_. DirMissing), xe_stat = (\<lambda>_. Inl []), xe_read = (\<lambda>_. Inl []), xe_decode = (\<lambda>_. Inl []), xe_abs = Some, xe_windows = False, xe_lower = id\<rparr>,
     ce_found = ([], [], []), ce_skill_paths = [], ce_dir = ''/w'', ce_prompt = (\<lambda>_ infos _ _ _. Inr (''p'' @ concat (map fst infos)))\<rparr>"

definition demo_coord :: "string + coord" where
  "demo_coord = NewCoordinator (demo_coord_env [''edit'']) ''/g'' (NewManager [] [] [] [] ''/w'') demo_config"

definition updated_coord :: "string option \<times> coord" where
  "updated_coord = UpdateModels (demo_coord_env [''glob'']) (projr demo_coord)"

lemma demo_coord_made: "demo_coord = Inr (projr demo_coord)" "fst updated_coord = None"
  "map ts_name (co_tools (snd updated_coord)) = [''edit'', ''grep'', ''powershell'', ''read'', ''write'']"
  by code_simp+

theorem prompt_describes_tools_witness:
  "co_prompt (snd updated_coord) = ''peditgreppowershellreadwrite''"
proof -
  have n: "new_coord (projr demo_coord)" using demo_coord_made(1) unfolding demo_coord_def by (rule new_coord.intros)
  have u: "UpdateModels (demo_coord_env [''glob'']) (projr demo_coord) = (None, snd updated_coord)"
    using demo_coord_made(2) by (simp add: updated_coord_def prod_eq_iff)
  have a: "ce_agents (demo_coord_env [''glob'']) = SetupAgents (ce_disabled_tools (demo_coord_env [''glob''])) []"
    "ce_prompt (demo_coord_env [''glob'']) x i r p m = Inr (''p'' @ concat (map fst i))" for x i r p m
    by (simp_all add: demo_coord_env_def)
  have "map (fst \<circ> tool_info) (co_tools (snd updated_coord)) = [''edit'', ''grep'', ''powershell'', ''read'', ''write'']"
    using demo_coord_made(3) by (simp add: tool_info_def comp_def)
  then show ?thesis
    using prompt_describes_tools [OF n rtranclp.rtrancl_refl u a(1)] by (auto simp: a(2))
qed

text \<open>
  Refreshing the prompt outside a turn does not record what it rendered. When the configuration then goes
  back, the update before the next turn takes the prompt to be unchanged and leaves the one of the refresh in force.
\<close>

definition refreshed_then_updated :: "string option \<times> coord" where
  "refreshed_then_updated =
     UpdateModels (demo_coord_env [''glob'']) (snd (RefreshPrompt (demo_coord_env [''write'']) (snd updated_coord)))"

lemma refresh_prompt_stays:
  "fst refreshed_then_updated = None" "co_prompt (snd refreshed_then_updated) = ''peditglobgreppowershellread''"
  "map ts_name (co_tools (snd refreshed_then_updated)) = [''edit'', ''grep'', ''powershell'', ''read'', ''write'']"
  by code_simp+

subsection \<open>One terminal event\<close>

fun terminal_event :: "coord_event \<Rightarrow> bool" where
  "terminal_event (RunCompleted _) \<longleftrightarrow> True"
| "terminal_event MarkedPublished \<longleftrightarrow> True"
| "terminal_event _ \<longleftrightarrow> False"

lemma turn_events_terminal:
  "filter terminal_event (turn_events env m completes result) = (if completes \<noteq> [] \<and> re_complete env then [RunCompleted (last completes), MarkedPublished] else [])"
  by (auto simp: turn_events_def split: sum.split)

lemma coord_run_cases:
  "coord_run env runID session prompt c = (result, events, c') \<Longrightarrow>
     (\<exists>e. result = Inl e \<and> events = []) \<or>
     (\<exists>request c1 completes m. re_run env request c1 = (c', completes, result) \<and> tq_run request = runID \<and> tq_session request = session \<and>
        events = turn_events env m completes result)"
  by (auto simp: coord_run_def Let_def split: prod.splits option.splits sum.splits) (metis turn_request.select_convs(1,2))+

text \<open>
  A turn publishes no terminal event before the agent has returned and at most one after it, the last one the agent reported, and
  then marks its run as published; a turn that does not reach the agent fails and publishes nothing.
\<close>

theorem turn_reports_once:
  "case coord_run env runID session prompt c of (result, events, c') \<Rightarrow>
     (\<exists>e. result = Inl e \<and> events = []) \<or>
     (\<exists>request c1 completes. re_run env request c1 = (c', completes, result) \<and> tq_run request = runID \<and> tq_session request = session \<and>
        filter terminal_event events = (if completes \<noteq> [] \<and> re_complete env then [RunCompleted (last completes), MarkedPublished] else []))"
proof -
  obtain result events c' where r: "coord_run env runID session prompt c = (result, events, c')" by (cases "coord_run env runID session prompt c")
  show ?thesis using coord_run_cases [OF r] unfolding r prod.case by (metis turn_events_terminal)
qed

subsection \<open>Retries\<close>

lemma update_models_None: "update_models au c = (None, c') \<Longrightarrow> UpdateModels (au_update au) c = (None, c')"
  by (auto simp: update_models_def split: prod.splits)

text \<open>
  A request refused for its credentials is retried only after the agent's models were rebuilt without an error on renewed
  credentials: a refreshed token, or a login that ended before the turn was cancelled when the refresh token was revoked; the
  refresh command succeeded; or the key was expanded anew.
\<close>

theorem retry_means_renewed:
  assumes "retryAfterUnauthorized au p models c = (None, events, c')" and "has_refresh p"
  shows "(\<exists>c0. UpdateModels (au_update au) c0 = (None, c')) \<and>
    (if cp_oauth (fp_call p) \<noteq> None
     then fst (au_oauth au (cp_id (fp_call p)) (co_cfg c)) = None \<or>
       au_notify au \<and> au_wait au (cp_id (fp_call p)) = None \<and> au_cancelled au = None \<and> events = [LoginNeeded (cp_id (fp_call p))]
     else if fp_aws p \<noteq> [] then au_notify au \<and> snd (au_aws au p) = None \<and> au_cancelled au = None
     else (\<exists>k. au_resolve au (fp_template p) = Inr k))"
  using assms
  by (auto simp: retryAfterUnauthorized_def refreshOAuth2Token_def waitForInteractiveReauth_def refreshAWSCredentials_def
      refreshApiKeyTemplate_def has_refresh_def Let_def split: prod.splits option.splits sum.splits if_splits dest!: update_models_None)

definition demo_auth :: auth_env where
  "demo_auth = \<lparr>au_now = 0, au_oauth = (\<lambda>_ cfg. (None, cfg)), au_update = demo_coord_env [], au_notify = True, au_wait = (\<lambda>_. None),
     au_cancelled = None, au_aws = (\<lambda>_. ([], None)), au_resolve = (\<lambda>_. Inr ''new'')\<rparr>"

definition demo_retry :: "refresh_failure option \<times> coord_event list \<times> coord" where
  "demo_retry = retryAfterUnauthorized demo_auth demo_full [demo_chat] (projr demo_coord)"

lemma demo_retry_ok: "fst demo_retry = None" "has_refresh demo_full"
  by code_simp+

theorem retry_means_renewed_witness:
  "\<exists>c0. UpdateModels (demo_coord_env []) c0 = (None, snd (snd demo_retry))"
proof -
  have "retryAfterUnauthorized demo_auth demo_full [demo_chat] (projr demo_coord) = (None, fst (snd demo_retry), snd (snd demo_retry))"
    using demo_retry_ok(1) by (simp add: demo_retry_def prod_eq_iff)
  from retry_means_renewed [OF this demo_retry_ok(2)] show ?thesis by (simp add: demo_auth_def)
qed

subsection \<open>Keys and headers\<close>

lemma anthropic_key_once:
  assumes "apiKey \<noteq> []" and "s = buildAnthropicProvider lib base apiKey headers k"
  shows "if su_key s = None then \<exists>b\<in>{[], ''Bearer ''}. map_of (su_headers s) ''Authorization'' = Some (b @ apiKey)
    else su_key s = Some apiKey \<and> su_headers s = headers"
  using assms by (auto simp: buildAnthropicProvider_def base_setup_def nonempty_def update_conv' Let_def)

lemma maps_copy_get: "distinct (map fst src) \<Longrightarrow> map_of (maps_copy dst src) k = (case map_of src k of Some v \<Rightarrow> Some v | None \<Rightarrow> map_of dst k)"
proof (induction src arbitrary: dst)
  case (Cons kv src)
  obtain a b where kv: "kv = (a, b)" by (cases kv)
  have "a \<notin> fst ` set src" using Cons.prems kv by simp
  then have "map_of src a = None" by (simp add: map_of_eq_None_iff)
  then show ?case using Cons by (auto simp: kv maps_copy_def update_conv' split: option.splits)
qed (simp add: maps_copy_def)

text \<open>
  Whatever route the catalog gives a model, a header the user configured is sent as configured, and a subscription's
  provider keeps its endpoint.
\<close>

theorem route_yields_to_user:
  assumes "ForModel p model = Inr q" and "distinct (map fst (cp_headers p))"
  shows "(map_of (cp_headers p) h = Some v \<longrightarrow> map_of (cp_headers q) h = Some v) \<and>
    (HasSubscriptionCredential (cp_id p) (cp_oauth p) \<longrightarrow> q = p) \<and> cp_id q = cp_id p \<and> cp_oauth q = cp_oauth p \<and> cp_options q = cp_options p"
  using assms by (auto simp: ForModel_def maps_copy_get split: if_splits option.splits)

definition routed_provider :: call_provider where
  "routed_provider = (fp_call demo_full)\<lparr>cp_headers := [(''h'', ''mine'')],
     cp_routes := [(''m'', \<lparr>mr_api = ''anthropic-messages'', mr_base = [], mr_headers = [(''h'', ''theirs''), (''i'', ''x'')]\<rparr>)]\<rparr>"

theorem route_yields_to_user_witness:
  "\<exists>q. ForModel routed_provider ''m'' = Inr q \<and> map_of (cp_headers q) ''h'' = Some ''mine''"
proof -
  obtain q where q: "ForModel routed_provider ''m'' = Inr q"
    by (simp add: ForModel_def routed_provider_def demo_full_def HasSubscriptionCredential_def route_type_def)
  have "distinct (map fst (cp_headers routed_provider))" "map_of (cp_headers routed_provider) ''h'' = Some ''mine''"
    by (simp_all add: routed_provider_def)
  with route_yields_to_user [OF q, of "''h''" "''mine''"] q show ?thesis by blast
qed

text \<open>Of two entries with one ID the agent gets the last; everything else in the configuration looks up the first.\<close>

lemma last_duplicate_wins: "last_model ''m'' [demo_chat, demo_chat\<lparr>ch_max_tokens := 9\<rparr>] = Some (demo_chat\<lparr>ch_max_tokens := 9\<rparr>)"
  by (simp add: last_model_def demo_chat_def)

end
