(* ===== verification/Config_Load.thy ===== *)
theory Config_Load
  imports Provider_Options
begin

section \<open>Loading a configuration: \<^verbatim>\<open>config/load.go\<close>, \<^verbatim>\<open>config/resolve.go\<close>, \<^verbatim>\<open>discover/discover.go\<close>\<close>

text \<open>
  Which files are read, how values are expanded, how the environment is borrowed, and how the
  providers of the catalog and of the user become those of the session. Expanding a value runs a shell: \<open>expand\<close> gives
  its error or its text. The catalog, the answers of discovery and the file system are arguments. A Go map is a list in the
  order its loop meets it; a missing map is an empty one. The environment of the process is an association list.
\<close>

subsection \<open>Expanding values\<close>

definition maxResolveErrBytes :: nat where "maxResolveErrBytes = 512"

definition printable_byte :: "char \<Rightarrow> bool" where
  "printable_byte ch \<longleftrightarrow> ch = TAB \<or> ch = NL \<or> (0x20 \<le> (of_char ch :: nat) \<and> (of_char ch :: nat) < 0x7f)"

definition scrubErrorMessage :: "string \<Rightarrow> string" where
  "scrubErrorMessage s = map (\<lambda>ch. if printable_byte ch then ch else CHR ''?'') (if length s > maxResolveErrBytes then take maxResolveErrBytes s else s)"

definition sanitizeResolveError :: "string \<Rightarrow> string \<Rightarrow> string" where
  "sanitizeResolveError template e = ''resolving '' @ quoted template @ '': '' @ scrubErrorMessage e"

definition ResolveValue :: "(string \<Rightarrow> string + string) \<Rightarrow> string \<Rightarrow> string + string" where
  "ResolveValue expand v =
     (if v = ''$'' then Inl (''invalid value format: '' @ v)
      else (case expand v of Inl e \<Rightarrow> Inl (sanitizeResolveError v e) | Inr out \<Rightarrow> Inr out))"

type_synonym resolver = "string \<Rightarrow> string + string"

text \<open>Arguments keep their places and empty values; a header that is empty is left out.\<close>

fun resolved_args :: "resolver \<Rightarrow> nat \<Rightarrow> string list \<Rightarrow> string + string list" where
  "resolved_args r i [] = Inr []"
| "resolved_args r i (a # as) =
     (case r a of
        Inl e \<Rightarrow> Inl (''arg '' @ itoa i @ '': '' @ e)
      | Inr v \<Rightarrow> (case resolved_args r (Suc i) as of Inl e \<Rightarrow> Inl e | Inr vs \<Rightarrow> Inr (v # vs)))"

fun resolved_pairs :: "resolver \<Rightarrow> (string \<Rightarrow> string) \<Rightarrow> bool \<Rightarrow> (string \<times> string) list \<Rightarrow> string + (string \<times> string) list" where
  "resolved_pairs r about dropEmpty [] = Inr []"
| "resolved_pairs r about dropEmpty ((k, v) # kvs) =
     (case r v of
        Inl e \<Rightarrow> Inl (about k @ '': '' @ e)
      | Inr v \<Rightarrow>
          (case resolved_pairs r about dropEmpty kvs of
             Inl e \<Rightarrow> Inl e
           | Inr out \<Rightarrow> Inr (if dropEmpty \<and> v = [] then out else (k, v) # out)))"

definition ResolvedArgs :: "resolver \<Rightarrow> string list \<Rightarrow> string + string list" where
  "ResolvedArgs r args = resolved_args r 0 args"

definition ResolvedHeaders :: "resolver \<Rightarrow> (string, string) gomap \<Rightarrow> string + (string, string) gomap" where
  "ResolvedHeaders r headers = resolved_pairs r (\<lambda>k. ''header '' @ k) True (sort_key fst headers)"

definition ResolvedLspEnv :: "resolver \<Rightarrow> (string, string) gomap \<Rightarrow> string + (string, string) gomap" where
  "ResolvedLspEnv r env = resolved_pairs r (\<lambda>k. ''env '' @ quoted k) False (sort_key fst env)"

definition ResolvedURL :: "resolver \<Rightarrow> string \<Rightarrow> string + string" where
  "ResolvedURL r url = (if url = [] then Inr [] else (case r url of Inl e \<Rightarrow> Inl (''url: '' @ e) | Inr v \<Rightarrow> Inr v))"

definition knownSessionlessMCPs :: "string list" where
  "knownSessionlessMCPs = [''https://api.github.com/mcp'', ''https://api.githubcopilot.com/mcp'']"

definition IsSessionless :: "resolver \<Rightarrow> bool option \<Rightarrow> string \<Rightarrow> bool" where
  "IsSessionless r sessionless url =
     (case sessionless of
        Some b \<Rightarrow> b
      | None \<Rightarrow>
          (case ResolvedURL r url of
             Inl _ \<Rightarrow> False
           | Inr u \<Rightarrow> (if str_prefix ''/'' (rev u) then take (length u - 1) u else u) \<in> set knownSessionlessMCPs))"

subsection \<open>The environment of the process\<close>

type_synonym process_env = "(string, string) gomap"

definition Getenv :: "process_env \<Rightarrow> string \<Rightarrow> string" where
  "Getenv env k = (case map_of env k of Some v \<Rightarrow> v | None \<Rightarrow> [])"

text \<open>An empty name is refused.\<close>

definition Setenv :: "string \<Rightarrow> string \<Rightarrow> process_env \<Rightarrow> process_env" where
  "Setenv k v env = (if k = [] then env else AList.update k v env)"

definition tack_vars :: "process_env \<Rightarrow> string list" where
  "tack_vars env = map (drop 5) (filter (str_prefix ''TACK_'') (map fst env))"

definition push_env :: "process_env \<Rightarrow> process_env" where
  "push_env env = foldl (\<lambda>e ev. Setenv ev (Getenv e (''TACK_'' @ ev)) e) env (tack_vars env)"

definition env_backups :: "process_env \<Rightarrow> (string, string) gomap" where
  "env_backups env = foldl (\<lambda>b ev. AList.update ev (Getenv env ev) b) [] (tack_vars env)"

definition pop_env :: "(string, string) gomap \<Rightarrow> process_env \<Rightarrow> process_env" where
  "pop_env backups env = foldl (\<lambda>e (k, v). Setenv k v e) env backups"

definition applyEnv :: "resolver \<Rightarrow> (string, string) gomap \<Rightarrow> process_env \<Rightarrow> process_env" where
  "applyEnv r vars env =
     foldl (\<lambda>e (k, v). case r v of Inl _ \<Rightarrow> e | Inr out \<Rightarrow> Setenv k out e) env (sort_key fst vars)"

definition hasAWSCredentials :: "process_env \<Rightarrow> bool \<Rightarrow> bool" where
  "hasAWSCredentials env files \<longleftrightarrow>
     Getenv env ''AWS_BEARER_TOKEN_BEDROCK'' \<noteq> [] \<or>
     (Getenv env ''AWS_ACCESS_KEY_ID'' \<noteq> [] \<and> Getenv env ''AWS_SECRET_ACCESS_KEY'' \<noteq> []) \<or>
     Getenv env ''AWS_PROFILE'' \<noteq> [] \<or> Getenv env ''AWS_DEFAULT_PROFILE'' \<noteq> [] \<or>
     Getenv env ''AWS_REGION'' \<noteq> [] \<or> Getenv env ''AWS_DEFAULT_REGION'' \<noteq> [] \<or>
     Getenv env ''AWS_CONTAINER_CREDENTIALS_RELATIVE_URI'' \<noteq> [] \<or> Getenv env ''AWS_CONTAINER_CREDENTIALS_FULL_URI'' \<noteq> [] \<or> files"

subsection \<open>Providers\<close>

record cfg_model =
  md_id :: string
  md_name :: string

record known_entry =
  kc_id :: string
  kc_name :: string
  kc_type :: string
  kc_endpoint :: string
  kc_key :: string
  kc_models :: "cfg_model list"
  kc_headers :: "(string, string) gomap"

record user_provider =
  up_id :: string
  up_name :: string
  up_type :: string
  up_base :: string
  up_key :: string
  up_template :: string
  up_oauth :: "oauth_token option"
  up_disable :: bool
  up_headers :: "(string, string) gomap"
  up_params :: "(string, string) gomap"
  up_discover :: "bool option"
  up_models :: "cfg_model list"
  up_catalog :: bool
  up_options :: "json_fields option"

definition zero_provider :: user_provider where
  "zero_provider = \<lparr>up_id = [], up_name = [], up_type = [], up_base = [], up_key = [], up_template = [], up_oauth = None, up_disable = False,
     up_headers = [], up_params = [], up_discover = None, up_models = [], up_catalog = False, up_options = None\<rparr>"

datatype known_kind = KnAnthropic | KnCopilot | KnVertex | KnAzure | KnBedrock | KnHyper | KnOther

record load_env =
  le_resolve :: resolver
  le_env :: process_env
  le_kind :: "string \<Rightarrow> known_kind"
  le_aws_files :: bool
  le_types :: "string list"
  le_copilot :: "(string, string) gomap"
  le_list :: "string \<Rightarrow> string + string list"
  le_enrich :: "string \<Rightarrow> cfg_model list \<Rightarrow> cfg_model list"

fun dedupe_models :: "string list \<Rightarrow> cfg_model list \<Rightarrow> cfg_model list" where
  "dedupe_models seen [] = []"
| "dedupe_models seen (m # ms) =
     (if md_id m \<in> set seen then dedupe_models seen ms
      else (if md_name m = [] then m\<lparr>md_name := md_id m\<rparr> else m) # dedupe_models (md_id m # seen) ms)"

definition known_models :: "known_entry \<Rightarrow> user_provider \<Rightarrow> cfg_model list" where
  "known_models p config =
     (if up_catalog config \<or> up_models config \<noteq> []
      then dedupe_models [] (up_models config @
             (if \<not> up_catalog config \<and> \<not> HasSubscriptionCredential (kc_id p) (up_oauth config) then kc_models p else []))
      else kc_models p)"

text \<open>The catalog's entry with what the user may override; without a user's entry it is as it came.\<close>

definition overridden :: "known_entry \<Rightarrow> user_provider option \<Rightarrow> known_entry" where
  "overridden p config =
     (case config of
        None \<Rightarrow> p
      | Some c \<Rightarrow>
          p\<lparr>kc_endpoint := (if up_base c \<noteq> [] then up_base c else kc_endpoint p),
            kc_key := (if up_key c \<noteq> [] then up_key c else kc_key p), kc_models := known_models p c\<rparr>)"

definition provider_header_error :: "string \<Rightarrow> string \<Rightarrow> string" where
  "provider_header_error pid k = ''resolving provider '' @ pid @ '' header '' @ quoted k"

definition prepare_known :: "known_entry \<Rightarrow> user_provider \<Rightarrow> (string, string) gomap \<Rightarrow> user_provider" where
  "prepare_known p config headers =
     config\<lparr>up_id := kc_id p, up_name := kc_name p, up_base := kc_endpoint p, up_key := kc_key p, up_template := kc_key p,
            up_type := kc_type p, up_models := kc_models p, up_headers := headers\<rparr>"

definition resolves :: "load_env \<Rightarrow> string \<Rightarrow> bool" where
  "resolves env v = (case le_resolve env v of Inr out \<Rightarrow> out \<noteq> [] | Inl _ \<Rightarrow> False)"

datatype known_outcome = KeepProvider user_provider | DropProvider | RetireProvider

definition prepare_outcome :: "load_env \<Rightarrow> known_entry \<Rightarrow> user_provider \<Rightarrow> (string, string) gomap \<Rightarrow> known_outcome" where
  "prepare_outcome env p config headers =
     (let k = le_kind env (kc_id p); prepared = prepare_known p config headers
      in if k = KnAnthropic \<and> up_oauth config \<noteq> None then RetireProvider
         else
           (let prepared = (if k = KnCopilot \<and> up_oauth config \<noteq> None
                            then prepared\<lparr>up_headers := maps_copy (up_headers prepared) (le_copilot env)\<rparr> else prepared)
            in case k of
                 KnVertex \<Rightarrow>
                   (let project = Getenv (le_env env) ''VERTEXAI_PROJECT''; location = Getenv (le_env env) ''VERTEXAI_LOCATION''
                    in if project = [] \<or> location = [] then DropProvider
                       else KeepProvider (prepared\<lparr>up_params := AList.update ''location'' location (AList.update ''project'' project (up_params prepared))\<rparr>))
               | KnAzure \<Rightarrow>
                   (case le_resolve env (kc_endpoint p) of
                      Inl _ \<Rightarrow> DropProvider
                    | Inr endpoint \<Rightarrow>
                        if endpoint = [] then DropProvider
                        else KeepProvider (prepared\<lparr>up_base := endpoint,
                               up_params := AList.update ''apiVersion'' (Getenv (le_env env) ''AZURE_OPENAI_API_VERSION'') (up_params prepared)\<rparr>))
               | KnBedrock \<Rightarrow>
                   if kc_key p = [] \<and> \<not> hasAWSCredentials (le_env env) (le_aws_files env) then DropProvider else KeepProvider prepared
               | KnHyper \<Rightarrow>
                   (let apiKey = Getenv (le_env env) ''HYPER_API_KEY''
                    in if apiKey \<noteq> [] then KeepProvider (prepared\<lparr>up_key := apiKey, up_template := apiKey\<rparr>)
                       else if resolves env (kc_key p) then KeepProvider prepared else DropProvider)
               | _ \<Rightarrow> if resolves env (kc_key p) then KeepProvider prepared else DropProvider))"

type_synonym provider_map = "(string, user_provider) gomap"

text \<open>The second component lists the fields removed from the global file.\<close>

definition configure_known :: "load_env \<Rightarrow> known_entry \<Rightarrow> provider_map \<times> string list \<Rightarrow> string + provider_map \<times> string list" where
  "configure_known env p0 st =
     (let pid = kc_id p0; found = map_of (fst st) pid; config = (case found of Some c \<Rightarrow> c | None \<Rightarrow> zero_provider);
          p = overridden p0 found; headers = maps_copy (maps_copy [] (kc_headers p)) (up_headers config)
      in case resolved_pairs (le_resolve env) (provider_header_error pid) True headers of
           Inl e \<Rightarrow> Inl e
         | Inr headers \<Rightarrow>
             (case prepare_outcome env p config headers of
                KeepProvider prepared \<Rightarrow> Inr (AList.update pid prepared (fst st), snd st)
              | DropProvider \<Rightarrow> Inr (if found \<noteq> None then AList.delete pid (fst st) else fst st, snd st)
              | RetireProvider \<Rightarrow> Inr (AList.delete pid (fst st), snd st @ [''providers.anthropic''])))"

fun configure_each_known :: "load_env \<Rightarrow> known_entry list \<Rightarrow> provider_map \<times> string list \<Rightarrow> string + provider_map \<times> string list" where
  "configure_each_known env [] st = Inr st"
| "configure_each_known env (p # ps) st = (case configure_known env p st of Inl e \<Rightarrow> Inl e | Inr st \<Rightarrow> configure_each_known env ps st)"

subsection \<open>Discovery\<close>

definition IsKnownCustomProvider :: "string \<Rightarrow> bool" where
  "IsKnownCustomProvider ty \<longleftrightarrow> ty \<in> set [''litellm'', ''llamacpp'', ''lmstudio'', ''ollama'', ''omlx'']"

definition DiscoverModels :: "(string \<Rightarrow> string + string list) \<Rightarrow> string \<Rightarrow> cfg_model list \<Rightarrow> string + cfg_model list" where
  "DiscoverModels listed pid existing =
     (case listed pid of
        Inl e \<Rightarrow> Inl (''discover models for provider '' @ pid @ '': '' @ e)
      | Inr ids \<Rightarrow> Inr (existing @ map (\<lambda>i. \<lparr>md_id = i, md_name = i\<rparr>) (filter (\<lambda>i. i \<notin> md_id ` set existing) ids)))"

definition wants_discovery :: "user_provider \<Rightarrow> bool" where
  "wants_discovery pc \<longleftrightarrow> \<not> up_disable pc \<and> up_base pc \<noteq> [] \<and>
     (up_discover pc = Some True \<or> (up_models pc = [] \<and> (up_discover pc = None \<or> up_discover pc = Some True)))"

definition discover_one :: "load_env \<Rightarrow> string \<Rightarrow> user_provider \<Rightarrow> string + cfg_model list" where
  "discover_one env pid pc =
     (let ty = (if up_type pc \<noteq> [] then up_type pc else ''openai-compat'')
      in case DiscoverModels (le_list env) (if up_id pc \<noteq> [] then up_id pc else pid) (up_models pc) of
           Inl e \<Rightarrow> Inl e
         | Inr models \<Rightarrow> Inr (if models \<noteq> [] \<and> IsKnownCustomProvider ty then le_enrich env ty models else models))"

definition discovery_results :: "load_env \<Rightarrow> string list \<Rightarrow> provider_map \<Rightarrow> (string, string + cfg_model list) gomap" where
  "discovery_results env known ps =
     map (\<lambda>(pid, pc). (pid, discover_one env pid pc)) (filter (\<lambda>(pid, pc). pid \<notin> set known \<and> wants_discovery pc) ps)"

subsection \<open>Custom providers\<close>

definition discovered_models :: "(string + cfg_model list) option \<Rightarrow> cfg_model list \<Rightarrow> cfg_model list" where
  "discovered_models result models = (case result of Some (Inr ms) \<Rightarrow> if ms \<noteq> [] then ms else models | _ \<Rightarrow> models)"

definition custom_provider :: "load_env \<Rightarrow> (string + cfg_model list) option \<Rightarrow> string \<Rightarrow> user_provider \<Rightarrow> string + user_provider option" where
  "custom_provider env result pid pc =
     (let pc = pc\<lparr>up_id := pid, up_name := (if up_name pc \<noteq> [] then up_name pc else pid),
            up_type := (if up_type pc \<noteq> [] then up_type pc else ''openai-compat''), up_models := discovered_models result (up_models pc)\<rparr>
      in if up_type pc \<notin> set (le_types env) \<and> up_type pc \<noteq> ''hyper'' \<and> \<not> IsKnownCustomProvider (up_type pc) then Inr None
         else if up_disable pc \<or> up_base pc = [] \<or> up_models pc = [] \<or> \<not> resolves env (up_base pc) then Inr None
         else
           (case resolved_pairs (le_resolve env) (provider_header_error pid) True (up_headers pc) of
              Inl e \<Rightarrow> Inl e
            | Inr headers \<Rightarrow> Inr (Some (pc\<lparr>up_headers := headers\<rparr>))))"

fun configure_custom ::
  "load_env \<Rightarrow> string list \<Rightarrow> (string, string + cfg_model list) gomap \<Rightarrow> (string \<times> user_provider) list \<Rightarrow> provider_map \<Rightarrow> string + provider_map" where
  "configure_custom env known found [] ps = Inr ps"
| "configure_custom env known found ((pid, pc) # rest) ps =
     (if pid \<in> set known then configure_custom env known found rest ps
      else
        (case custom_provider env (map_of found pid) pid pc of
           Inl e \<Rightarrow> Inl e
         | Inr None \<Rightarrow> configure_custom env known found rest (AList.delete pid ps)
         | Inr (Some pc) \<Rightarrow> configure_custom env known found rest (AList.update pid pc ps)))"

definition configureProviders :: "load_env \<Rightarrow> bool \<Rightarrow> known_entry list \<Rightarrow> provider_map \<Rightarrow> string + provider_map \<times> string list" where
  "configureProviders env0 disableDefaults catalog ps =
     (let env = env0\<lparr>le_env := push_env (le_env env0)\<rparr>; catalog = (if disableDefaults then [] else catalog); known = map kc_id catalog
      in case configure_each_known env catalog (ps, []) of
           Inl e \<Rightarrow> Inl e
         | Inr (ps, removed) \<Rightarrow>
             (case configure_custom env known (discovery_results env known ps) ps ps of
                Inl e \<Rightarrow> Inl e
              | Inr ps \<Rightarrow>
                  if ps = [] \<and> disableDefaults then Inl ''default providers are disabled and there are no custom providers are configured''
                  else Inr (ps, removed)))"

subsection \<open>Hooks of a configuration\<close>

definition normalizeHookEvent :: "string \<Rightarrow> string" where
  "normalizeHookEvent n = (if str_lower (str_replace_all n ''_'' []) = ''pretooluse'' then ''PreToolUse'' else n)"

type_synonym hook_map = "(string, hook_config list) gomap"

text \<open>Appending to an entry of the map while its keys are walked; a canonical key met later stays as it is.\<close>

definition rename_event :: "hook_map \<Rightarrow> string \<Rightarrow> hook_map" where
  "rename_event m event =
     (case map_of m event of
        None \<Rightarrow> m
      | Some hs \<Rightarrow>
          (let canonical = normalizeHookEvent event
           in if canonical \<noteq> event
              then AList.delete event (AList.update canonical ((case map_of m canonical of Some cs \<Rightarrow> cs | None \<Rightarrow> []) @ hs) m)
              else m))"

definition normalize_events :: "hook_map \<Rightarrow> hook_map" where
  "normalize_events hooks = foldl rename_event hooks (map fst hooks)"

fun hook_list_error :: "(string \<Rightarrow> string option) \<Rightarrow> string \<Rightarrow> nat \<Rightarrow> hook_config list \<Rightarrow> string option" where
  "hook_list_error compile event i [] = None"
| "hook_list_error compile event i (h # hs) =
     (let about = ''hook '' @ event @ ''['' @ itoa i @ '']: ''
      in if hc_command h = [] then Some (about @ ''command is required'')
         else if hc_matcher h = [] then hook_list_error compile event (Suc i) hs
         else (case compile (hc_matcher h) of
                 Some e \<Rightarrow> Some (about @ ''invalid matcher regex '' @ quoted (hc_matcher h) @ '': '' @ e)
               | None \<Rightarrow> hook_list_error compile event (Suc i) hs))"

definition ValidateHooks :: "(string \<Rightarrow> string option) \<Rightarrow> hook_map \<Rightarrow> string option \<times> hook_map" where
  "ValidateHooks compile hooks =
     (let m = normalize_events hooks in (first_some (\<lambda>(event, hs). hook_list_error compile event 0 hs) m, m))"

subsection \<open>Files\<close>

text \<open>
  The user's file, the one beside it that is a script, the data file and those found from the working directory up to the root of
  its repository, nearest first. A script is turned into JSON by a shell.
\<close>

definition shellConfigSibling :: "string \<Rightarrow> string" where
  "shellConfigSibling jsonPath = filepath_Join [filepath_Dir jsonPath, ''tackrc'']"

definition isShellConfig :: "string \<Rightarrow> bool" where
  "isShellConfig path \<longleftrightarrow> filepath_Base path = ''tackrc'' \<or> filepath_Base path = ''.tackrc''"

definition projectBoundary :: "(string \<Rightarrow> string) \<Rightarrow> (string \<Rightarrow> string option) \<Rightarrow> string \<Rightarrow> string" where
  "projectBoundary worktreeRoot abs' dir =
     (if worktreeRoot dir \<noteq> [] then worktreeRoot dir else (case abs' dir of Some a \<Rightarrow> a | None \<Rightarrow> dir))"

definition configNames :: "string list" where
  "configNames = [''.tackrc'', ''tackrc'', ''.tack.json'', ''tack.json'']"

definition lookupConfigs :: "(string list \<Rightarrow> string list option) \<Rightarrow> string \<Rightarrow> string \<Rightarrow> string \<Rightarrow> string list" where
  "lookupConfigs lookup system global data =
     (let configPaths = [system, global, shellConfigSibling global, data]
      in case lookup configNames of None \<Rightarrow> configPaths | Some found \<Rightarrow> configPaths @ rev found)"

datatype file_read = ReadMissing | ReadFailed string | ReadBytes string

record config_lib =
  cl_read :: "string \<Rightarrow> file_read"
  cl_shell :: "string \<Rightarrow> string \<Rightarrow> string + string"
  cl_valid :: "string \<Rightarrow> bool"

text \<open>One file: nothing to load, or its JSON.\<close>

definition load_file :: "config_lib \<Rightarrow> string \<Rightarrow> string + string option" where
  "load_file lib path =
     (if path = [] then Inr None
      else
        (case cl_read lib path of
           ReadMissing \<Rightarrow> Inr None
         | ReadFailed e \<Rightarrow> Inl (''failed to open config file '' @ path @ '': '' @ e)
         | ReadBytes data \<Rightarrow>
             if data = [] then Inr None
             else if isShellConfig path then
               (case cl_shell lib path data of
                  Inl e \<Rightarrow> Inl (''failed to load shell config '' @ path @ '': '' @ e)
                | Inr json \<Rightarrow>
                    if json = [] then Inr None
                    else if \<not> cl_valid lib json then Inl (''shell config '' @ path @ '' produced invalid JSON'')
                    else Inr (Some json))
             else if \<not> cl_valid lib data then Inl (''invalid JSON in config file '' @ path)
             else Inr (Some data)))"

fun load_files :: "config_lib \<Rightarrow> string list \<Rightarrow> string + (string \<times> string) list" where
  "load_files lib [] = Inr []"
| "load_files lib (path # paths) =
     (case load_file lib path of
        Inl e \<Rightarrow> Inl e
      | Inr found \<Rightarrow>
          (case load_files lib paths of
             Inl e \<Rightarrow> Inl e
           | Inr loaded \<Rightarrow> Inr ((case found of Some json \<Rightarrow> [(path, json)] | None \<Rightarrow> []) @ loaded)))"

text \<open>Merging the documents and decoding the result is \<open>decode\<close>; without a document the configuration is the zero value.\<close>

definition loadFromBytes :: "(string list \<Rightarrow> string + 'c) \<Rightarrow> 'c \<Rightarrow> string list \<Rightarrow> string + 'c" where
  "loadFromBytes decode zero configs = (if configs = [] then Inr zero else decode configs)"

definition loadFromConfigPaths :: "config_lib \<Rightarrow> (string list \<Rightarrow> string + 'c) \<Rightarrow> 'c \<Rightarrow> string list \<Rightarrow> string + 'c \<times> string list" where
  "loadFromConfigPaths lib decode zero paths =
     (case load_files lib paths of
        Inl e \<Rightarrow> Inl e
      | Inr loaded \<Rightarrow> (case loadFromBytes decode zero (map snd loaded) of Inl e \<Rightarrow> Inl e | Inr cfg \<Rightarrow> Inr (cfg, map fst loaded)))"

subsection \<open>Directories of skills\<close>

definition GlobalSkillsDirs :: "process_env \<Rightarrow> string \<Rightarrow> string \<Rightarrow> bool \<Rightarrow> string list" where
  "GlobalSkillsDirs env config homedir windows =
     (if Getenv env ''TACK_SKILLS_DIR'' \<noteq> [] then [Getenv env ''TACK_SKILLS_DIR'']
      else
        [filepath_Join [config, ''tack'', ''skills''], filepath_Join [config, ''agents'', ''skills''],
         filepath_Join [homedir, ''.agents'', ''skills''], filepath_Join [homedir, ''.claude'', ''skills'']] @
        (if windows then
           (let appData = (if Getenv env ''LOCALAPPDATA'' \<noteq> [] then Getenv env ''LOCALAPPDATA''
                           else filepath_Join [Getenv env ''USERPROFILE'', ''AppData'', ''Local''])
            in [filepath_Join [appData, ''tack'', ''skills''], filepath_Join [appData, ''agents'', ''skills'']])
         else []))"

definition projectSkillSubdirs :: "string list" where
  "projectSkillSubdirs = [''.agents/skills'', ''.tack/skills'', ''.claude/skills'', ''.cursor/skills'']"

definition ProjectSkillsDir :: "(string \<Rightarrow> string) \<Rightarrow> string \<Rightarrow> string list" where
  "ProjectSkillsDir worktreeRoot workingDir =
     (let root = worktreeRoot workingDir; under = (\<lambda>d. map (\<lambda>sub. filepath_Join [d, sub]) projectSkillSubdirs)
      in under workingDir @ (if root \<noteq> [] \<and> root \<noteq> workingDir then under root else []))"

definition default_skills_paths :: "string list \<Rightarrow> string list \<Rightarrow> string list \<Rightarrow> string list" where
  "default_skills_paths global project paths =
     foldl (\<lambda>ps d. if d \<in> set ps then ps else ps @ [d]) paths global @ project"

subsection \<open>Migrating the notification settings\<close>

text \<open>Reading, setting and deleting a field of a document are those of the JSON packages.\<close>

record doc_lib =
  dl_get :: "string \<Rightarrow> string \<Rightarrow> json option"
  dl_true :: "json \<Rightarrow> bool"
  dl_text :: "json \<Rightarrow> string"
  dl_set :: "string \<Rightarrow> string \<Rightarrow> string \<Rightarrow> string option"
  dl_delete :: "string \<Rightarrow> string \<Rightarrow> string"
  dl_written :: "string \<Rightarrow> bool"

type_synonym doc_files = "(string, string) gomap"

abbreviation "old_switch \<equiv> ''options.disable_notifications''"
abbreviation "old_style \<equiv> ''options.notification_style''"

definition has_deprecated :: "doc_lib \<Rightarrow> string \<Rightarrow> bool" where
  "has_deprecated lib doc \<longleftrightarrow> dl_get lib doc old_switch \<noteq> None \<or> dl_get lib doc old_style \<noteq> None"

definition migrated_value :: "doc_lib \<Rightarrow> string list \<Rightarrow> string" where
  "migrated_value lib docs =
     (let styles = filter (\<lambda>s. s \<noteq> []) (map (dl_text lib) (List.map_filter (\<lambda>d. dl_get lib d old_style) docs));
          wasDisabled = list_ex (\<lambda>d. case dl_get lib d old_switch of Some v \<Rightarrow> dl_true lib v | None \<Rightarrow> False) docs
      in case styles of s # _ \<Rightarrow> s | [] \<Rightarrow> if wasDisabled then ''disabled'' else [])"

definition write_doc :: "doc_lib \<Rightarrow> string \<Rightarrow> string \<Rightarrow> doc_files \<Rightarrow> doc_files" where
  "write_doc lib path doc fs = (if dl_written lib path then AList.update path doc fs else fs)"

definition set_notifications :: "doc_lib \<Rightarrow> string \<Rightarrow> string \<Rightarrow> doc_files \<Rightarrow> doc_files" where
  "set_notifications lib dataConfig v fs =
     (case map_of fs dataConfig of
        None \<Rightarrow> fs
      | Some doc \<Rightarrow>
          if dl_get lib doc ''options.notifications'' \<noteq> None then fs
          else (case dl_set lib doc ''options.notifications'' v of None \<Rightarrow> fs | Some updated \<Rightarrow> write_doc lib dataConfig updated fs))"

definition clean_doc :: "doc_lib \<Rightarrow> string \<Rightarrow> doc_files \<Rightarrow> doc_files" where
  "clean_doc lib path fs =
     (case map_of fs path of
        None \<Rightarrow> fs
      | Some doc \<Rightarrow>
          (let updated = dl_delete lib (dl_delete lib doc old_switch) old_style
           in if updated = doc then fs else write_doc lib path updated fs))"

definition migrateDisableNotifications :: "doc_lib \<Rightarrow> string \<Rightarrow> string \<Rightarrow> doc_files \<Rightarrow> doc_files" where
  "migrateDisableNotifications lib globalConfig dataConfig fs =
     (let readable = filter (\<lambda>p. map_of fs p \<noteq> None) [globalConfig, dataConfig];
          filesToClean = filter (\<lambda>p. has_deprecated lib (the (map_of fs p))) readable;
          v = migrated_value lib (map (\<lambda>p. the (map_of fs p)) readable)
      in if filesToClean = [] then fs
         else
           (let fs = (if v \<noteq> [] then set_notifications lib dataConfig v fs else fs)
            in foldl (\<lambda>fs p. clean_doc lib p fs) fs filesToClean))"

end
