(* ===== verification/Config_Load_Props.thy ===== *)
theory Config_Load_Props
  imports Config_Load
begin

section \<open>What a loaded configuration guarantees\<close>

text \<open>Providers a session can use, models without duplicates, a borrowed environment, hooks and errors.\<close>

subsection \<open>Expanded values\<close>

lemma resolved_pairs_headers:
  "resolved_pairs r about True kvs = Inr out \<Longrightarrow> (k, v) \<in> set out \<Longrightarrow> v \<noteq> []"
  by (induction kvs arbitrary: out) (auto split: sum.splits if_splits)

lemma resolved_pairs_exact:
  "resolved_pairs r about False kvs = Inr out \<Longrightarrow> map fst out = map fst kvs \<and> list_all2 (\<lambda>(k, t) (k', v). r t = Inr v) kvs out"
  by (induction kvs arbitrary: out) (auto split: sum.splits)

text \<open>
  However a value fails to expand, the message shown holds at most 512 bytes of the error beside the template, all
  of them printable; a lone dollar sign is refused without a shell.
\<close>

theorem resolve_error_bounded:
  assumes "ResolveValue expand v = Inl e"
  shows "(v = ''$'' \<and> e = ''invalid value format: $'') \<or>
    (\<exists>m. e = ''resolving '' @ quoted v @ '': '' @ m \<and> length m \<le> 512 \<and> list_all printable_byte m)"
proof (cases "v = ''$''")
  case True
  then show ?thesis using assms by (simp add: ResolveValue_def)
next
  case False
  then obtain x where x: "e = ''resolving '' @ quoted v @ '': '' @ scrubErrorMessage x"
    using assms by (auto simp: ResolveValue_def sanitizeResolveError_def split: sum.splits)
  have "printable_byte CHR ''?''" by (simp add: printable_byte_def)
  then have "list_all printable_byte (scrubErrorMessage x)" by (auto simp: scrubErrorMessage_def list_all_iff)
  moreover have "length (scrubErrorMessage x) \<le> 512" by (simp add: scrubErrorMessage_def maxResolveErrBytes_def)
  ultimately show ?thesis using x by blast
qed

theorem resolve_error_bounded_witness:
  "\<exists>m. ResolveValue (\<lambda>_. Inl [CHR 0x00]) ''x'' = Inl (''resolving '' @ quoted ''x'' @ '': '' @ m) \<and> list_all printable_byte m"
proof -
  obtain e where e: "ResolveValue (\<lambda>_. Inl [CHR 0x00]) ''x'' = Inl e" by (simp add: ResolveValue_def)
  from resolve_error_bounded [OF this] e show ?thesis by auto
qed

subsection \<open>Models\<close>

lemma dedupe_ids:
  "distinct (map md_id (dedupe_models seen ms)) \<and> set (map md_id (dedupe_models seen ms)) = set (map md_id ms) - set seen \<and>
   (\<forall>m\<in>set (dedupe_models seen ms). md_id m \<noteq> [] \<longrightarrow> md_name m \<noteq> [])"
  by (induction ms arbitrary: seen) (auto simp: Let_def)

lemma dedupe_prefers:
  "find (\<lambda>m. md_id m = i) ms = Some m \<Longrightarrow> i \<notin> set seen \<Longrightarrow>
     find (\<lambda>m. md_id m = i) (dedupe_models seen ms) = Some (if md_name m = [] then m\<lparr>md_name := md_id m\<rparr> else m)"
  by (induction ms arbitrary: seen) (auto split: if_splits)

lemma find_append_Some: "find P xs = Some x \<Longrightarrow> find P (xs @ ys) = Some x"
  by (induction xs) (auto split: if_splits)

text \<open>
  A provider the user gives models has every one of them once, the user's entry winning over a catalog's with the same ID,
  none without a name; it has the catalog's others too unless its list is authoritative or it is paid by a subscription.
\<close>

theorem models_merged:
  assumes "up_models c \<noteq> [] \<or> up_catalog c"
  shows "distinct (map md_id (known_models p c)) \<and>
    set (map md_id (known_models p c)) = set (map md_id (up_models c)) \<union>
      (if up_catalog c \<or> HasSubscriptionCredential (kc_id p) (up_oauth c) then {} else set (map md_id (kc_models p))) \<and>
    (\<forall>m\<in>set (known_models p c). md_id m \<noteq> [] \<longrightarrow> md_name m \<noteq> []) \<and>
    (find (\<lambda>m. md_id m = i) (up_models c) = Some m \<and> md_name m \<noteq> [] \<longrightarrow> find (\<lambda>m. md_id m = i) (known_models p c) = Some m)"
proof -
  let ?all = "up_models c @ (if \<not> up_catalog c \<and> \<not> HasSubscriptionCredential (kc_id p) (up_oauth c) then kc_models p else [])"
  have k: "known_models p c = dedupe_models [] ?all" using assms by (auto simp: known_models_def)
  have "find (\<lambda>m. md_id m = i) ?all = Some m" if "find (\<lambda>m. md_id m = i) (up_models c) = Some m"
    using that by (rule find_append_Some)
  then show ?thesis using dedupe_ids [of "[]" ?all] dedupe_prefers [of i ?all m "[]"] by (auto simp: k)
qed

definition sample_user :: user_provider where
  "sample_user = zero_provider\<lparr>up_base := ''u'', up_models := [\<lparr>md_id = ''b'', md_name = ''mine''\<rparr>]\<rparr>"

definition sample_catalog :: known_entry where
  "sample_catalog = \<lparr>kc_id = ''c'', kc_name = ''C'', kc_type = ''openai'', kc_endpoint = ''e'', kc_key = ''$K'',
     kc_models = [\<lparr>md_id = ''a'', md_name = []\<rparr>, \<lparr>md_id = ''b'', md_name = ''theirs''\<rparr>], kc_headers = [(''h'', ''x'')]\<rparr>"

theorem models_merged_witness:
  "find (\<lambda>m. md_id m = ''b'') (known_models sample_catalog sample_user) = Some \<lparr>md_id = ''b'', md_name = ''mine''\<rparr>"
  using models_merged [of sample_user sample_catalog "''b''" "\<lparr>md_id = ''b'', md_name = ''mine''\<rparr>"]
  by (simp add: sample_user_def)

subsection \<open>Providers\<close>

definition headers_resolved :: "user_provider \<Rightarrow> bool" where
  "headers_resolved p \<longleftrightarrow> list_all (\<lambda>(k, v). v \<noteq> []) (up_headers p)"

definition custom_usable :: "load_env \<Rightarrow> string \<Rightarrow> user_provider \<Rightarrow> bool" where
  "custom_usable env pid p \<longleftrightarrow> up_id p = pid \<and> up_name p \<noteq> [] \<and> \<not> up_disable p \<and> up_models p \<noteq> [] \<and> resolves env (up_base p) \<and> headers_resolved p \<and>
     (up_type p \<in> set (le_types env) \<or> up_type p = ''hyper'' \<or> IsKnownCustomProvider (up_type p))"

text \<open>A provider of the catalog has the credentials of its kind.\<close>

definition known_usable :: "load_env \<Rightarrow> string \<Rightarrow> user_provider \<Rightarrow> bool" where
  "known_usable env pid p \<longleftrightarrow> up_id p = pid \<and> (le_kind env pid \<noteq> KnCopilot \<longrightarrow> headers_resolved p) \<and> up_template p = up_key p \<and>
     (case le_kind env pid of
        KnVertex \<Rightarrow> Getenv (le_env env) ''VERTEXAI_PROJECT'' \<noteq> [] \<and> Getenv (le_env env) ''VERTEXAI_LOCATION'' \<noteq> []
      | KnAzure \<Rightarrow> up_base p \<noteq> []
      | KnBedrock \<Rightarrow> up_key p \<noteq> [] \<or> hasAWSCredentials (le_env env) (le_aws_files env)
      | KnHyper \<Rightarrow> up_key p = Getenv (le_env env) ''HYPER_API_KEY'' \<and> up_key p \<noteq> [] \<or> resolves env (up_key p)
      | k \<Rightarrow> resolves env (up_key p) \<and> (k = KnAnthropic \<longrightarrow> up_oauth p = None))"

lemma prepare_outcome_usable:
  assumes "prepare_outcome env p config headers = KeepProvider q" and "list_all (\<lambda>(k, v). v \<noteq> []) headers"
  shows "known_usable env (kc_id p) q"
  using assms
  by (auto simp: prepare_outcome_def known_usable_def prepare_known_def headers_resolved_def Let_def split: known_kind.splits if_splits sum.splits)

definition known_state :: "load_env \<Rightarrow> string list \<Rightarrow> provider_map \<Rightarrow> bool" where
  "known_state env ids ps \<longleftrightarrow> (\<forall>i\<in>set ids. \<forall>p. map_of ps i = Some p \<longrightarrow> known_usable env i p)"

lemma configure_known_state:
  assumes "configure_known env p st = Inr st'" and "gomap_ok (fst st)" and "known_state env ids (fst st)"
  shows "gomap_ok (fst st') \<and> known_state env (kc_id p # ids) (fst st') \<and> (\<forall>i. i \<noteq> kc_id p \<longrightarrow> map_of (fst st') i = map_of (fst st) i)"
proof -
  let ?found = "map_of (fst st) (kc_id p)"
  let ?config = "case ?found of Some c \<Rightarrow> c | None \<Rightarrow> zero_provider" and ?p = "overridden p ?found"
  have id: "kc_id ?p = kc_id p" by (simp add: overridden_def split: option.split)
  obtain hs where hs: "resolved_pairs (le_resolve env) (provider_header_error (kc_id p)) True (maps_copy (maps_copy [] (kc_headers ?p)) (up_headers ?config)) = Inr hs"
    using assms(1) by (auto simp: configure_known_def Let_def split: sum.splits)
  have nz: "list_all (\<lambda>(k, v). v \<noteq> []) hs" using resolved_pairs_headers [OF hs] by (auto simp: list_all_iff)
  let ?o = "prepare_outcome env ?p ?config hs"
  define x where "x = (case ?o of KeepProvider q \<Rightarrow> Some q | _ \<Rightarrow> None)"
  have m: "map_of (fst st') = (map_of (fst st))(kc_id p := x)" and ok: "gomap_ok (fst st')"
    using assms(1,2) hs
    by (auto simp: configure_known_def x_def Let_def update_conv' delete_conv' map_of_eq_None_iff image_iff split: known_outcome.splits if_splits
        intro!: fun_upd_idem [symmetric])
  have "known_usable env (kc_id p) q" if "x = Some q" for q
    using prepare_outcome_usable [of env ?p ?config hs q] nz id that by (cases ?o) (simp_all add: x_def)
  then show ?thesis using ok assms(3) unfolding known_state_def m by simp
qed

lemma configure_each_known_state:
  "configure_each_known env catalog st = Inr st' \<Longrightarrow> gomap_ok (fst st) \<Longrightarrow> known_state env ids (fst st) \<Longrightarrow>
     gomap_ok (fst st') \<and> known_state env (map kc_id catalog @ ids) (fst st') \<and>
     (\<forall>i. i \<notin> set (map kc_id catalog) \<longrightarrow> map_of (fst st') i = map_of (fst st) i)"
proof (induction catalog arbitrary: st ids)
  case (Cons p catalog)
  then obtain u where u: "configure_known env p st = Inr u" "configure_each_known env catalog u = Inr st'" by (auto split: sum.splits)
  note a = configure_known_state [OF u(1) Cons.prems(2,3)]
  then have "gomap_ok (fst u)" "known_state env (kc_id p # ids) (fst u)" by auto
  from Cons.IH [OF u(2) this] a show ?case by (auto simp: known_state_def)
qed simp

lemma custom_provider_usable:
  assumes "custom_provider env result pid pc = Inr (Some q)" and "pid \<noteq> []"
  shows "custom_usable env pid q"
proof -
  have "headers_resolved q" if "resolved_pairs (le_resolve env) f True hs = Inr (up_headers q)" for f hs
    using resolved_pairs_headers [OF that] by (auto simp: headers_resolved_def list_all_iff)
  then show ?thesis using assms by (auto simp: custom_provider_def custom_usable_def Let_def split: if_splits sum.splits)
qed

lemma configure_custom_state:
  assumes "[] \<notin> fst ` set work"
  shows "configure_custom env known found work ps = Inr ps' \<Longrightarrow> gomap_ok ps \<Longrightarrow>
     gomap_ok ps' \<and> (\<forall>i. i \<in> set known \<or> i \<notin> fst ` set work \<longrightarrow> map_of ps' i = map_of ps i) \<and>
     (\<forall>i q. i \<notin> set known \<and> i \<in> fst ` set work \<and> map_of ps' i = Some q \<longrightarrow> custom_usable env i q)"
  using assms
proof (induction env known found work ps rule: configure_custom.induct)
  case (2 env known found pid pc rest ps)
  show ?case
  proof (cases "pid \<in> set known")
    case True
    then have "gomap_ok ps' \<and> (\<forall>i. i \<in> set known \<or> i \<notin> fst ` set rest \<longrightarrow> map_of ps' i = map_of ps i) \<and>
        (\<forall>i q. i \<notin> set known \<and> i \<in> fst ` set rest \<and> map_of ps' i = Some q \<longrightarrow> custom_usable env i q)"
      using 2(1) [OF True] 2(4-6) by simp
    with True show ?thesis unfolding list.set image_insert fst_conv by blast
  next
    case False
    then obtain r where r: "custom_provider env (map_of found pid) pid pc = Inr r" using 2(4) by (auto split: sum.splits)
    let ?ps = "case r of None \<Rightarrow> AList.delete pid ps | Some q \<Rightarrow> AList.update pid q ps"
    have c: "configure_custom env known found rest ?ps = Inr ps'" using 2(4) False r by (cases r) auto
    have ok: "gomap_ok ?ps" using 2(5) by (cases r) auto
    have ih: "gomap_ok ps' \<and> (\<forall>i. i \<in> set known \<or> i \<notin> fst ` set rest \<longrightarrow> map_of ps' i = map_of ?ps i) \<and>
        (\<forall>i q. i \<notin> set known \<and> i \<in> fst ` set rest \<and> map_of ps' i = Some q \<longrightarrow> custom_usable env i q)"
      using 2(2,3) False r c ok 2(6) by (cases r) auto
    have here: "map_of ?ps i = map_of ps i" if "i \<noteq> pid" for i using that by (cases r) (simp_all add: gomap_get_set gomap_get_del)
    have fine: "custom_usable env pid q" if "map_of ?ps pid = Some q" for q
      using that r custom_provider_usable [of env "map_of found pid" pid pc q] 2(6) by (cases r) (auto simp: gomap_get_set gomap_get_del)
    show ?thesis using ih here fine False unfolding list.set image_insert fst_conv by (metis insert_iff)
  qed
qed auto

text \<open>
  When the providers have been configured without an error, every one left is usable: one of the catalog has the credentials
  of its kind, one of the user a supported type, an endpoint and models and is not disabled; no header
  is empty. Without the catalog there is at least one.
\<close>

theorem configured_providers_usable:
  assumes "configureProviders env disableDefaults catalog ps = Inr (ps', removed)" and "gomap_ok ps" and "[] \<notin> fst ` set ps" and "[] \<notin> kc_id ` set catalog"
    and "borrowed = env\<lparr>le_env := push_env (le_env env)\<rparr>"
  shows "gomap_ok ps' \<and> (disableDefaults \<longrightarrow> ps' \<noteq> []) \<and>
    (\<forall>pid p. map_of ps' pid = Some p \<longrightarrow>
       (if \<not> disableDefaults \<and> pid \<in> kc_id ` set catalog then known_usable borrowed pid p else custom_usable borrowed pid p))"
proof -
  let ?cat = "if disableDefaults then [] else catalog"
  let ?known = "map kc_id ?cat"
  obtain q where k: "configure_each_known borrowed ?cat (ps, []) = Inr q"
    and c: "configure_custom borrowed ?known (discovery_results borrowed ?known (fst q)) (fst q) (fst q) = Inr ps'"
    and ne: "disableDefaults \<longrightarrow> ps' \<noteq> []"
    using assms(1) by (auto simp: configureProviders_def assms(5) Let_def split: sum.splits if_splits)
  have s: "gomap_ok (fst q)" "known_state borrowed ?known (fst q)" "\<forall>i. i \<notin> set ?known \<longrightarrow> map_of (fst q) i = map_of ps i"
    using configure_each_known_state [OF k, of "[]"] assms(2) by (simp_all add: known_state_def)
  have none: "[] \<notin> fst ` set (fst q)"
  proof -
    have "[] \<notin> set ?known" using assms(4) by auto
    then have "map_of (fst q) [] = map_of ps []" using s(3) by blast
    then show ?thesis using assms(3) by (metis map_of_eq_None_iff)
  qed
  note u = configure_custom_state [OF none c s(1)]
  have "if pid \<in> set ?known then known_usable borrowed pid p else custom_usable borrowed pid p" if m: "map_of ps' pid = Some p" for pid p
  proof (cases "pid \<in> set ?known")
    case True
    then have "map_of (fst q) pid = Some p" using u m by metis
    then show ?thesis using True s(2) unfolding known_state_def by auto
  next
    case False
    have "pid \<in> fst ` set (fst q)"
    proof (rule ccontr)
      assume "pid \<notin> fst ` set (fst q)"
      then have "map_of ps' pid = None" using u by (metis map_of_eq_None_iff)
      with m show False by simp
    qed
    then show ?thesis using False u m by auto
  qed
  then show ?thesis using u ne by (cases disableDefaults) auto
qed

definition sample_load_env :: load_env where
  "sample_load_env = \<lparr>le_resolve = (\<lambda>v. Inr (if v = ''$K'' then ''key'' else v)), le_env = [], le_kind = (\<lambda>_. KnOther), le_aws_files = False,
     le_types = [''openai-compat''], le_copilot = [], le_list = (\<lambda>_. Inr [''x'']), le_enrich = (\<lambda>_ ms. ms)\<rparr>"

definition sample_configured :: "string + provider_map \<times> string list" where
  "sample_configured = configureProviders sample_load_env False [sample_catalog] [(''mine'', sample_user), (''gone'', zero_provider)]"

lemma sample_configured_ids: "map_sum id (map fst \<circ> fst) sample_configured = Inr [''mine'', ''c'']"
  by code_simp

theorem configured_providers_usable_witness:
  "\<exists>ps. sample_configured = Inr (ps, []) \<and> (\<exists>p. map_of ps ''mine'' = Some p \<and> resolves sample_load_env (up_base p))"
proof -
  have e: "sample_load_env\<lparr>le_env := push_env (le_env sample_load_env)\<rparr> = sample_load_env"
    by (simp add: sample_load_env_def push_env_def tack_vars_def)
  have "map_sum id snd sample_configured = Inr []" by code_simp
  then obtain ps where ps: "sample_configured = Inr (ps, [])" by (auto simp: map_sum_Inr)
  have ids: "map fst ps = [''mine'', ''c'']" using sample_configured_ids unfolding ps by (simp add: map_sum_Inr)
  then obtain p where p: "map_of ps ''mine'' = Some p" by (cases ps) auto
  have "\<forall>pid p. map_of ps pid = Some p \<longrightarrow> (if pid = ''c'' then known_usable sample_load_env pid p else custom_usable sample_load_env pid p)"
    using configured_providers_usable [OF ps [unfolded sample_configured_def], of sample_load_env] by (simp add: e sample_catalog_def)
  then have "custom_usable sample_load_env ''mine'' p" using p by (auto dest: spec [where x = "''mine''"])
  then show ?thesis using ps p by (auto simp: custom_usable_def)
qed

subsection \<open>The borrowed environment\<close>

lemma map_Setenv: "k \<noteq> [] \<Longrightarrow> map_of (Setenv k v env) = (map_of env)(k \<mapsto> v)" "Setenv [] v env = env"
  by (simp_all add: Setenv_def update_conv')

lemma push_env_other: "k \<notin> set evs \<Longrightarrow> map_of (foldl (\<lambda>e ev. Setenv ev (f e ev) e) env evs) k = map_of env k"
  by (induction evs arbitrary: env) (auto simp: Setenv_def update_conv')

lemma backups_get: "map_of (foldl (\<lambda>b ev. AList.update ev (g ev) b) b0 evs) k = (if k \<in> set evs then Some (g k) else map_of b0 k)"
  by (induction evs arbitrary: b0) (auto simp: update_conv')

lemma pop_env_get:
  "distinct (map fst bs) \<Longrightarrow> map_of (pop_env bs env) k = (if k \<noteq> [] \<and> k \<in> fst ` set bs then map_of bs k else map_of env k)"
proof (induction bs arbitrary: env)
  case (Cons kv bs)
  obtain a b where kv: "kv = (a, b)" by (cases kv)
  have "a \<notin> fst ` set bs" using Cons.prems kv by simp
  then have "map_of bs a = None" by (simp add: map_of_eq_None_iff)
  then show ?case using Cons by (auto simp: kv pop_env_def Setenv_def update_conv' split: if_splits)
qed (simp add: pop_env_def)

lemma backups_distinct: "distinct (map fst b0) \<Longrightarrow> distinct (map fst (foldl (\<lambda>b ev. AList.update ev (g ev) b) b0 evs))"
  by (induction evs arbitrary: b0) (simp_all add: distinct_update)

text \<open>
  Configuring the providers leaves every variable of the process reading as before, and none unset that was set, although the
  variables with the engine's prefix stand in for those without it meanwhile.
\<close>

theorem environment_restored:
  "Getenv (pop_env (env_backups env) (push_env env)) k = Getenv env k \<and>
   (map_of env k \<noteq> None \<longrightarrow> map_of (pop_env (env_backups env) (push_env env)) k = map_of env k)"
proof -
  let ?b = "env_backups env"
  have d: "distinct (map fst ?b)" unfolding env_backups_def by (rule backups_distinct) simp
  have b: "map_of ?b k = (if k \<in> set (tack_vars env) then Some (Getenv env k) else None)" by (simp add: env_backups_def backups_get)
  then have keys: "k \<in> fst ` set ?b \<longleftrightarrow> k \<in> set (tack_vars env)" by (metis map_of_eq_None_iff option.distinct(1))
  have "map_of (push_env env) k = map_of env k" if "k \<notin> set (tack_vars env) \<or> k = []"
  proof (cases "k = []")
    case True
    have "map_of (foldl (\<lambda>e ev. Setenv ev (Getenv e (''TACK_'' @ ev)) e) e0 evs) [] = map_of e0 []" for e0 evs
      by (induction evs arbitrary: e0) (auto simp: Setenv_def update_conv')
    then show ?thesis using True by (simp add: push_env_def)
  next
    case False
    then show ?thesis using that by (simp add: push_env_def push_env_other)
  qed
  then show ?thesis using pop_env_get [OF d, of "push_env env" k] b keys
    by (cases "k \<noteq> [] \<and> k \<in> set (tack_vars env)") (auto simp: Getenv_def split: option.split)
qed

theorem environment_restored_witness:
  "map_of (pop_env (env_backups [(''TACK_A'', ''x''), (''A'', ''y'')]) (push_env [(''TACK_A'', ''x''), (''A'', ''y'')])) ''A'' = Some ''y''"
  using environment_restored [of "[(''TACK_A'', ''x''), (''A'', ''y'')]" "''A''"] by simp

text \<open>A variable that was not set is left behind set to nothing.\<close>

lemma unset_left_empty:
  "map_of (pop_env (env_backups [(''TACK_A'', ''x'')]) (push_env [(''TACK_A'', ''x'')])) ''A'' = Some []"
  by code_simp

subsection \<open>Hooks\<close>

lemma hook_list_ok:
  "hook_list_error compile event i hs = None \<longleftrightarrow> list_all (\<lambda>h. hc_command h \<noteq> [] \<and> (hc_matcher h \<noteq> [] \<longrightarrow> compile (hc_matcher h) = None)) hs"
  by (induction hs arbitrary: i) (auto simp: Let_def split: option.split)

abbreviation canonical :: "string \<Rightarrow> bool" where
  "canonical event \<equiv> normalizeHookEvent event = event"

lemma canonical_normalize: "canonical (normalizeHookEvent event)"
proof -
  have "canonical ''PreToolUse''" by code_simp
  then show ?thesis by (simp add: normalizeHookEvent_def)
qed

definition all_hooks :: "hook_map \<Rightarrow> hook_config set" where
  "all_hooks m = {h. \<exists>e hs. map_of m e = Some hs \<and> h \<in> set hs}"

lemma all_hooks_get: "h \<in> all_hooks m \<longleftrightarrow> (\<exists>e hs. map_of m e = Some hs \<and> h \<in> set hs)"
  by (simp add: all_hooks_def)

lemma rename_event_get:
  "map_of (rename_event m event) e =
     (if canonical event \<or> map_of m event = None then map_of m e
      else if e = event then None
      else if e = normalizeHookEvent event then Some ((case map_of m e of Some cs \<Rightarrow> cs | None \<Rightarrow> []) @ the (map_of m event))
      else map_of m e)"
  by (auto simp: rename_event_def Let_def update_conv' delete_conv' split: option.split)

lemma rename_keeps_hooks: "all_hooks (rename_event m event) = all_hooks m"
proof (rule set_eqI)
  fix h
  let ?n = "normalizeHookEvent event"
  show "h \<in> all_hooks (rename_event m event) \<longleftrightarrow> h \<in> all_hooks m"
  proof (cases "canonical event \<or> map_of m event = None")
    case True
    then show ?thesis by (auto simp: all_hooks_get rename_event_get)
  next
    case False
    then obtain hs where hs: "map_of m event = Some hs" "?n \<noteq> event" by auto
    let ?cs = "case map_of m ?n of Some cs \<Rightarrow> cs | None \<Rightarrow> []"
    have get: "map_of (rename_event m event) e = (if e = event then None else if e = ?n then Some (?cs @ hs) else map_of m e)" for e
      using hs by (simp add: rename_event_get)
    show ?thesis
    proof
      assume "h \<in> all_hooks (rename_event m event)"
      then obtain e xs where "map_of (rename_event m event) e = Some xs" "h \<in> set xs" by (auto simp: all_hooks_get)
      then show "h \<in> all_hooks m" using hs(1) by (auto simp: get all_hooks_get split: if_splits option.splits) blast+
    next
      assume "h \<in> all_hooks m"
      then obtain e xs where e: "map_of m e = Some xs" "h \<in> set xs" by (auto simp: all_hooks_get)
      show "h \<in> all_hooks (rename_event m event)"
      proof (cases "e = event \<or> e = ?n")
        case True
        then have "h \<in> set (?cs @ hs)" using e hs by auto
        moreover have "map_of (rename_event m event) ?n = Some (?cs @ hs)" using hs get by simp
        ultimately show ?thesis using all_hooks_get by blast
      next
        case False
        then have "map_of (rename_event m event) e = Some xs" using e get by simp
        then show ?thesis using e all_hooks_get by blast
      qed
    qed
  qed
qed

lemma rename_events_keys:
  "map_of (foldl rename_event m evs) e \<noteq> None \<Longrightarrow> canonical e \<or> (e \<notin> set evs \<and> map_of m e \<noteq> None)"
proof (induction evs arbitrary: m)
  case (Cons ev evs)
  from Cons.IH [of "rename_event m ev"] Cons.prems
  have "canonical e \<or> (e \<notin> set evs \<and> map_of (rename_event m ev) e \<noteq> None)" by simp
  then show ?case using canonical_normalize [of ev] by (auto simp: rename_event_get split: if_splits)
qed simp

lemma foldl_rename_hooks: "all_hooks (foldl rename_event m evs) = all_hooks m"
  by (induction evs arbitrary: m) (simp_all add: rename_keeps_hooks)

text \<open>
  Validating the hooks loses none, whatever the order the map is walked in: every hook stands under the canonical name of its
  event, and when no error is found each has a command and a matcher that compiles.
\<close>

theorem hooks_validated:
  assumes "ValidateHooks compile hooks = (e, m)"
  shows "all_hooks m = all_hooks hooks \<and> (\<forall>event hs. map_of m event = Some hs \<longrightarrow> canonical event) \<and>
    (e = None \<longrightarrow> (\<forall>h\<in>all_hooks m. hc_command h \<noteq> [] \<and> (hc_matcher h \<noteq> [] \<longrightarrow> compile (hc_matcher h) = None)))"
proof -
  have m: "m = foldl rename_event hooks (map fst hooks)" and e: "e = first_some (\<lambda>(event, hs). hook_list_error compile event 0 hs) m"
    using assms unfolding ValidateHooks_def normalize_events_def Let_def by auto
  have "canonical event" if "map_of m event = Some hs" for event hs
    using rename_events_keys [of hooks "map fst hooks" event] that by (auto simp: m map_of_eq_None_iff [symmetric])
  moreover have "hc_command h \<noteq> [] \<and> (hc_matcher h \<noteq> [] \<longrightarrow> compile (hc_matcher h) = None)" if e0: "e = None" and h0: "h \<in> all_hooks m" for h
  proof -
    obtain ev hs where "(ev, hs) \<in> set m" "h \<in> set hs" using h0 by (auto simp: all_hooks_get dest: map_of_SomeD)
    then show ?thesis using e0 hook_list_ok [of compile ev 0 hs] by (auto simp: e first_some_None list_all_iff)
  qed
  ultimately show ?thesis using foldl_rename_hooks by (auto simp: m)
qed

theorem hooks_validated_witness:
  "map_of (snd (ValidateHooks (\<lambda>_. None) [(''pre_tool_use'', [\<lparr>hc_name = [], hc_matcher = [], hc_command = ''x'', hc_timeout = 0\<rparr>])])) ''pre_tool_use'' = None"
proof -
  let ?h = "[(''pre_tool_use'', [\<lparr>hc_name = [], hc_matcher = [], hc_command = ''x'', hc_timeout = 0\<rparr>])]"
  have n: "\<not> canonical ''pre_tool_use''" by code_simp
  have "ValidateHooks (\<lambda>_. None) ?h = (fst (ValidateHooks (\<lambda>_. None) ?h), snd (ValidateHooks (\<lambda>_. None) ?h))" by simp
  from hooks_validated [OF this] n show ?thesis by (metis not_None_eq)
qed

subsection \<open>Files\<close>

definition gives_json :: "config_lib \<Rightarrow> string \<Rightarrow> bool" where
  "gives_json lib p = (case load_file lib p of Inr (Some _) \<Rightarrow> True | _ \<Rightarrow> False)"

lemma gives_json_cases [simp]: "load_file lib p = Inr (Some j) \<Longrightarrow> gives_json lib p" "load_file lib p = Inr None \<Longrightarrow> \<not> gives_json lib p"
  by (simp_all add: gives_json_def)

lemma load_files_loaded:
  "load_files lib paths = Inr loaded \<Longrightarrow>
     map fst loaded = filter (gives_json lib) paths \<and>
     (\<forall>(p, json)\<in>set loaded. load_file lib p = Inr (Some json)) \<and> (\<forall>p\<in>set paths. \<exists>x. load_file lib p = Inr x)"
  by (induction paths arbitrary: loaded) (auto split: sum.splits option.splits)

text \<open>
  The configuration is decoded from the documents of exactly those files that exist and hold something, in order of priority, and only
  from valid JSON; a file that cannot be read, run or parsed makes loading fail.
\<close>

theorem config_files_loaded:
  assumes "loadFromConfigPaths lib decode zero paths = Inr (cfg, loaded)"
  shows "loaded = filter (gives_json lib) paths \<and> (\<forall>p\<in>set paths. \<exists>x. load_file lib p = Inr x) \<and>
    (\<exists>docs. map fst docs = loaded \<and> (\<forall>(p, json)\<in>set docs. load_file lib p = Inr (Some json) \<and> cl_valid lib json) \<and>
       (if docs = [] then cfg = zero else decode (map snd docs) = Inr cfg))"
proof -
  obtain docs where d: "load_files lib paths = Inr docs" "loaded = map fst docs" "if docs = [] then cfg = zero else decode (map snd docs) = Inr cfg"
    using assms by (auto simp: loadFromConfigPaths_def loadFromBytes_def split: sum.splits if_splits)
  note l = load_files_loaded [OF d(1)]
  have "cl_valid lib json" if "load_file lib p = Inr (Some json)" for p json
    using that by (auto simp: load_file_def split: if_splits file_read.splits sum.splits)
  then show ?thesis using l d by (intro conjI exI [of _ docs]) (auto split: if_splits)
qed

definition sample_config_lib :: config_lib where
  "sample_config_lib = \<lparr>cl_read = (\<lambda>p. if p = ''/a/tackrc'' then ReadBytes ''s'' else if p = ''/b'' then ReadBytes ''{}'' else ReadMissing),
     cl_shell = (\<lambda>_ _. Inr ''{1}''), cl_valid = (\<lambda>_. True)\<rparr>"

theorem config_files_loaded_witness:
  "\<exists>cfg. loadFromConfigPaths sample_config_lib Inr [] [''/a/tackrc'', ''/c'', ''/b''] = Inr (cfg, [''/a/tackrc'', ''/b'']) \<and> cfg = [''{1}'', ''{}'']"
proof -
  have e: "loadFromConfigPaths sample_config_lib Inr [] [''/a/tackrc'', ''/c'', ''/b''] = Inr ([''{1}'', ''{}''], [''/a/tackrc'', ''/b''])"
    by code_simp
  show ?thesis using config_files_loaded [OF e] e by auto
qed

text \<open>The project's directories of skills are listed again each time the defaults are set, once per loaded workspace configuration.\<close>

lemma project_skills_twice:
  "default_skills_paths g project (default_skills_paths g project []) = default_skills_paths g project [] @ project"
proof -
  have f: "foldl (\<lambda>ps d. if d \<in> set ps then ps else ps @ [d]) ps xs = ps" if "set xs \<subseteq> set ps" for ps xs :: "string list"
    using that by (induction xs) auto
  have "set xs \<subseteq> set (foldl (\<lambda>ps d. if d \<in> set ps then ps else ps @ [d]) ps xs) \<and> set ps \<subseteq> set (foldl (\<lambda>ps d. if d \<in> set ps then ps else ps @ [d]) ps xs)"
    for ps xs :: "string list"
  proof (induction xs arbitrary: ps)
    case (Cons x xs)
    then show ?case using Cons.IH [of ps] Cons.IH [of "ps @ [x]"] by (auto split: if_splits)
  qed simp
  then have "set g \<subseteq> set (foldl (\<lambda>ps d. if d \<in> set ps then ps else ps @ [d]) [] g @ project)" by fastforce
  from f [OF this] show ?thesis by (simp add: default_skills_paths_def)
qed

text \<open>The old setting is deleted although it could not be moved: without a data file there is nowhere to write it.\<close>

lemma migration_without_data_file:
  "map_of fs dataConfig = None \<Longrightarrow> globalConfig \<noteq> dataConfig \<Longrightarrow> map_of fs globalConfig = Some doc \<Longrightarrow> has_deprecated lib doc \<Longrightarrow>
     migrateDisableNotifications lib globalConfig dataConfig fs = clean_doc lib globalConfig fs"
  by (simp add: migrateDisableNotifications_def set_notifications_def Let_def)

end
