(* ===== verification/Spec2Isabelle.thy ===== *)
theory Spec2Isabelle
  imports Backend_Props Backend_Runs_Props Edit_Tool_Props Edit_Match_Props Permission Dispatch_Props Message_Store_Props Hooks
    Session_Store Db_Pool Question Agent_Steps Mcp_Props Skills_Props Config_Store_Props Oauth_Refresh Lsp_Edit_Props
    View_Tool_Props Provider_Options_Props Coordinator_Props Config_Load_Props
begin

text \<open>
  Verification library of Tack Engine, a coding-agent engine in Go: a server that keeps workspaces,
  runs the prompts of their sessions against a model, executes the model's tool calls on the user's
  files, and stores and streams the messages. Paths below are under \<^verbatim>\<open>src/internal\<close>.

  \<^bold>\<open>How the parts fit.\<close> A client reaches the backend (\<^verbatim>\<open>backend\<close>), which keeps one workspace per
  directory for as long as a client holds a claim on it. A prompt passes the run gate of its workspace and is dispatched
  to the session agent (\<^verbatim>\<open>agent\<close>), which runs one turn per session at a time and queues the rest. A turn selects the history,
  streams the answer into messages (\<^verbatim>\<open>message\<close>), and calls tools: each call passes the hooks (\<^verbatim>\<open>hooks\<close>)
  and the permission service (\<^verbatim>\<open>permission\<close>), may ask the user a question (\<^verbatim>\<open>question\<close>), and edits files
  through the file tools (\<^verbatim>\<open>agent/tools\<close>) with their read records (\<^verbatim>\<open>filetracker\<close>) and history (\<^verbatim>\<open>history\<close>),
  or goes to an MCP server (\<^verbatim>\<open>agent/tools/mcp\<close>). Sessions, messages and file versions live in a database
  shared through a pool (\<^verbatim>\<open>db\<close>); events reach clients over brokers (\<^verbatim>\<open>pubsub\<close>) and shared containers (\<^verbatim>\<open>csync\<close>).

  \<^bold>\<open>Theories and sources.\<close>

  \<^item> \<open>Prelude\<close>: Go maps as association lists, sums over them, searching a list, and the locales
    \<open>transition_system\<close> and \<open>monotone_system\<close>, which every step relation below interprets.
    \<open>Go_Strings\<close>: the parts of \<^verbatim>\<open>strings\<close>, \<^verbatim>\<open>slices\<close> and \<^verbatim>\<open>path/filepath\<close> the code uses, on byte strings.
  \<^item> \<open>Csync\<close> (\<^verbatim>\<open>csync\<close>) and \<open>Pubsub\<close> (\<^verbatim>\<open>pubsub/broker.go\<close>): containers whose methods are atomic; the
    broker with its buffers, drops and shutdown. Lemmas: the laws of each container, no send on a closed channel, the
    accounting of lost events.
  \<^item> \<open>Backend\<close>, \<open>Backend_Inv\<close>, \<open>Backend_Step\<close>, \<open>Backend_Props\<close> (\<^verbatim>\<open>backend/backend.go\<close>, \<^verbatim>\<open>lifecycle.go\<close>): every
    critical section is a definition and interleavings of them are the step relation. Lemmas: one
    workspace per path, no claimed workspace is torn down, no unclaimed one leaks, presence and shutdown.
  \<^item> \<open>Backend_Runs\<close>, \<open>Backend_Runs_Props\<close> (\<^verbatim>\<open>backend/agent.go\<close>, \<^verbatim>\<open>agent/runid.go\<close>, \<^verbatim>\<open>agent/run_marker.go\<close>): the
    gate between accepted prompts and teardown, as a refinement of the dispatch machine.
  \<^item> \<open>Dispatch\<close>, \<open>Dispatch_Inv\<close>, \<open>Dispatch_Props\<close> (\<^verbatim>\<open>agent/agent.go\<close>): accepting, queueing, cancelling and
    completing prompts. Sequence numbers are 64-bit words; the theorems that compare them bound the number of accepted prompts by
    $2^{64}$. Lemmas: one active turn per session, every prompt completed once, what a cancel covers.
  \<^item> \<open>Prompt_History\<close> (\<^verbatim>\<open>agent/history_selection.go\<close>, \<^verbatim>\<open>agent/agent.go\<close>) and \<open>Agent_Steps\<close> (\<^verbatim>\<open>agent/agent.go\<close>,
    \<^verbatim>\<open>loop_detection.go\<close>, \<^verbatim>\<open>usage_fallback.go\<close>): what a turn sends to the model, and the conditions that end it.
  \<^item> \<open>Message_Content\<close> (\<^verbatim>\<open>message/content.go\<close>), \<open>Message_Store\<close>, \<open>Message_Store_Props\<close> (\<^verbatim>\<open>message/message.go\<close>):
    the parts of a message and the write-behind store with its coalescing flushes, as steps. Lemmas:
    streaming as concatenation, well-formed messages, what a flush has written when it returns, no two writers of one message.
  \<^item> \<open>Session_Store\<close> (\<^verbatim>\<open>session/session.go\<close>), \<open>Db_Pool\<close> (\<^verbatim>\<open>db/connect.go\<close>, \<^verbatim>\<open>datadirlock.go\<close>): the session table and
    its events; the reference-counted connections.
  \<^item> \<open>Permission\<close> (\<^verbatim>\<open>permission/permission.go\<close>), \<open>Question\<close> (\<^verbatim>\<open>question/question.go\<close>): requests that wait for a
    user's answer, as steps; an answer reaches the request it is for, once.
  \<^item> \<open>Hooks\<close> (\<^verbatim>\<open>hooks\<close>): matching, running and aggregating user commands; a denial is never lost.
  \<^item> \<open>Edit_Match\<close>, \<open>Edit_Match_Props\<close> (\<^verbatim>\<open>agent/tools/edit.go\<close>, \<^verbatim>\<open>edit_whitespace.go\<close>), \<open>File_History\<close>
    (\<^verbatim>\<open>history/file.go\<close>), \<open>Edit_Tool\<close>, \<open>Edit_Tool_Props\<close> (\<^verbatim>\<open>agent/tools/edit.go\<close>, \<^verbatim>\<open>write.go\<close>, \<^verbatim>\<open>filetracker\<close>, \<^verbatim>\<open>fsext\<close>):
    finding and replacing text, and the tools around it with the checks before a file is changed.
  \<^item> \<open>Mcp_Lifecycle\<close>, \<open>Mcp_Props\<close> (\<^verbatim>\<open>agent/tools/mcp\<close>): the registry of MCP servers, connecting goroutines as attempts with
    phases, teardowns, reconciliation with the configuration. Lemmas: where a session is, generations, convergence.
  \<^item> \<open>Skills\<close>, \<open>Skills_Props\<close> (\<^verbatim>\<open>skills\<close>): parsing, parallel discovery, deduplication, prompt, manager and tracker.

  \<^bold>\<open>Conventions.\<close> A struct is a record, a tagged interface a datatype, a raised error a value of a sum
  or option type. Code that runs under one lock without blocking is one function; what happens between two such sections of
  one goroutine is left to the step relation, in which any goroutine may be next. What comes from outside (a database
  statement's success, a clock, an identifier, a parsed document, a server's answer) is an argument. Theorems whose
  hypotheses speak of such arguments have a witness with concrete functions. Lists stand for Go maps; where the code
  iterates over a map, the theorem either holds for every order or the order is an argument.

  \<^bold>\<open>Bounds and fuel.\<close> No definition needs fuel for its result: loops are structural or have a measure,
  and \<open>turn_loop\<close>, which may run forever, is an option whose definedness is proved. \<open>reinit_drain\<close> and the walk to the root in
  \<open>ancestors\<close> take a bound, shown or chosen to suffice (two passes; the length of the path).

  \<^bold>\<open>What the model showed.\<close> Lemmas proved by evaluation, next to the theorems they limit, record
  where the code does not do what its comments say: for example \<open>second_answer_lost\<close> and \<open>second_cancel_panics\<close>
  (questions), \<open>media_splits_results\<close> (prompt history), \<open>removal_revives_stale\<close>, \<open>late_teardown_missed\<close> and
  \<open>stale_failure_closes_newer\<close> (MCP servers), \<open>same_directory_order_matters\<close> and \<open>refresh_race\<close> (skills).

  \<^bold>\<open>Not modelled.\<close> HTTP routing and the wire types (\<^verbatim>\<open>server\<close>, \<^verbatim>\<open>proto\<close>), generated code (\<^verbatim>\<open>swagger\<close>, the
  queries of \<^verbatim>\<open>db\<close>), terminal styling (\<^verbatim>\<open>ui\<close>), transports and OAuth exchanges (\<^verbatim>\<open>oauth\<close>, the transports of MCP),
  the shell interpreter (a third-party package behind \<^verbatim>\<open>shell\<close>), LSP clients, loading the configuration and the
  catalogue of providers, the coordinator that builds agents from it, system-prompt templates, tracing, and the process-level
  packages (\<^verbatim>\<open>log\<close>, \<^verbatim>\<open>update\<close>, \<^verbatim>\<open>version\<close>, \<^verbatim>\<open>lock\<close>). Most of these are input and output around decisions
  modelled here; the configuration, the coordinator, the shell's dispatch and the LSP text edits have logic of their own and
  come next.
\<close>

end
